(* ===== verification/Ntp_Prelude.thy ===== *)
theory Ntp_Prelude
  imports Complex_Main "HOL-Library.Word" "HOL-Library.Signed_Division"
begin

text \<open>
  Shared material of the development.

  \<^item> The C++ integer conversions the sources rely on, written on \<open>int\<close> with
    their wrap-around: \<open>u32\<close>, \<open>i32\<close>, \<open>u8\<close>, \<open>i8\<close>. Integer division is the
    library's \<open>sdiv\<close>/\<open>smod\<close>, which truncate towards zero as C++ does.
  \<^item> Octets are \<open>8 word\<close>, 32-bit wire values are \<open>32 word\<close>.
  \<^item> C++ \<open>double\<close> and \<open>float\<close> are \<open>real\<close>: every comparison, minimum and
    maximum of the sources is exact on them, rounding of sums and products is
    not modelled, and a NaN the sources use as a value is an \<open>option\<close>.
  \<^item> Generic lemmas on lists, sums and sorting that several components use.
\<close>

section \<open>Collections of facts\<close>

named_theorems conv_simps \<open>C++ integer conversions on values already in range\<close>
named_theorems wire_simps \<open>lengths and projections of wire fields\<close>

section \<open>Machine integers\<close>

type_synonym octet = "8 word"
type_synonym wire32 = "32 word"

definition u32 :: "int \<Rightarrow> int" where
  "u32 x = x mod 4294967296"

definition i32 :: "int \<Rightarrow> int" where
  "i32 x = (x + 2147483648) mod 4294967296 - 2147483648"

definition u8 :: "int \<Rightarrow> int" where
  "u8 x = x mod 256"

definition i8 :: "int \<Rightarrow> int" where
  "i8 x = (x + 128) mod 256 - 128"

lemma u32_id [conv_simps]: "0 \<le> x \<Longrightarrow> x < 4294967296 \<Longrightarrow> u32 x = x"
  by (simp add: u32_def)

lemma i32_id [conv_simps]: "-2147483648 \<le> x \<Longrightarrow> x < 2147483648 \<Longrightarrow> i32 x = x"
  by (simp add: i32_def)

lemma u8_id [conv_simps]: "0 \<le> x \<Longrightarrow> x < 256 \<Longrightarrow> u8 x = x"
  by (simp add: u8_def)

lemma i8_id [conv_simps]: "-128 \<le> x \<Longrightarrow> x < 128 \<Longrightarrow> i8 x = x"
  by (simp add: i8_def)

lemma u32_bounds [simp]: "0 \<le> u32 x" "u32 x < 4294967296"
  by (simp_all add: u32_def)

lemma u32_u32_add [simp]: "u32 (u32 a + b) = u32 (a + b)" "u32 (a + u32 b) = u32 (a + b)"
  by (simp_all add: u32_def mod_simps)

lemma u8_bounds [simp]: "0 \<le> u8 x" "u8 x < 256"
  by (simp_all add: u8_def)

lemma i8_bounds [simp]: "-128 \<le> i8 x" "i8 x < 128"
  by (simp_all add: i8_def)

text \<open>\<open>std::clamp(v, lo, hi)\<close>.\<close>

definition clamp :: "'a::linorder \<Rightarrow> 'a \<Rightarrow> 'a \<Rightarrow> 'a" where
  "clamp v lo hi = (if v < lo then lo else if hi < v then hi else v)"

lemma clamp_bounds: "lo \<le> hi \<Longrightarrow> lo \<le> clamp v lo hi \<and> clamp v lo hi \<le> hi"
  by (auto simp: clamp_def)

lemma clamp_inside [simp]: "lo \<le> v \<Longrightarrow> v \<le> hi \<Longrightarrow> clamp v lo hi = v"
  by (auto simp: clamp_def)

text \<open>
  Truncating division agrees with floor division on non-negative dividends and
  positive divisors; this is the only case most sources reach.
\<close>

lemma sdiv_nonneg: "0 \<le> (a::int) \<Longrightarrow> 0 < b \<Longrightarrow> a sdiv b = a div b"
  by (simp add: signed_divide_int_def sgn_if)

lemma smod_nonneg: "0 \<le> (a::int) \<Longrightarrow> 0 < b \<Longrightarrow> a smod b = a mod b"
  by (rule smod_mod_positive) simp_all

text \<open>\<open>std::llround\<close>: to the nearest integer, halves away from zero.\<close>

definition llround :: "real \<Rightarrow> int" where
  "llround x = (if 0 \<le> x then \<lfloor>x + 1 / 2\<rfloor> else \<lceil>x - 1 / 2\<rceil>)"

text \<open>A \<open>double\<close> cast to an integer type: truncation towards zero.\<close>

definition trunc :: "real \<Rightarrow> int" where
  "trunc x = (if 0 \<le> x then \<lfloor>x\<rfloor> else \<lceil>x\<rceil>)"

lemma trunc_nonneg: "0 \<le> x \<Longrightarrow> trunc x = \<lfloor>x\<rfloor>"
  by (simp add: trunc_def)

section \<open>Lists\<close>

lemma sum_list_nonneg_real: "(\<And>x. x \<in> set xs \<Longrightarrow> 0 \<le> (x::real)) \<Longrightarrow> 0 \<le> sum_list xs"
  by (induction xs) auto

lemma sum_list_pos_real:
  "xs \<noteq> [] \<Longrightarrow> (\<And>x. x \<in> set xs \<Longrightarrow> 0 < (x::real)) \<Longrightarrow> 0 < sum_list xs"
proof (induction xs)
  case Nil
  then show ?case by simp
next
  case (Cons x xs)
  then show ?case by (cases xs) (auto intro: add_pos_pos)
qed

lemma dropWhile_subset: "set (dropWhile P xs) \<subseteq> set xs"
  using set_dropWhileD by fastforce

text \<open>
  A weighted mean of values in an interval stays in the interval; the combine
  step of the selector and the estimators use it.
\<close>

lemma weighted_mean_bounds:
  fixes w x :: "'a \<Rightarrow> real"
  assumes "\<And>k. k \<in> set ks \<Longrightarrow> 0 < w k" and "ks \<noteq> []"
    and "\<And>k. k \<in> set ks \<Longrightarrow> lo \<le> x k" and "\<And>k. k \<in> set ks \<Longrightarrow> x k \<le> hi"
  shows "lo \<le> (\<Sum>k\<leftarrow>ks. w k * x k) / (\<Sum>k\<leftarrow>ks. w k)"
    and "(\<Sum>k\<leftarrow>ks. w k * x k) / (\<Sum>k\<leftarrow>ks. w k) \<le> hi"
proof -
  have pos: "0 < (\<Sum>k\<leftarrow>ks. w k)"
    using assms(1,2) by (intro sum_list_pos_real) auto
  have "(\<Sum>k\<leftarrow>ks. w k * lo) \<le> (\<Sum>k\<leftarrow>ks. w k * x k)"
    using assms(1,3) by (intro sum_list_mono mult_left_mono) (auto simp: less_imp_le)
  then have "lo * (\<Sum>k\<leftarrow>ks. w k) \<le> (\<Sum>k\<leftarrow>ks. w k * x k)"
    by (simp add: sum_list_const_mult mult.commute)
  with pos show "lo \<le> (\<Sum>k\<leftarrow>ks. w k * x k) / (\<Sum>k\<leftarrow>ks. w k)"
    by (simp add: pos_le_divide_eq)
  have "(\<Sum>k\<leftarrow>ks. w k * x k) \<le> (\<Sum>k\<leftarrow>ks. w k * hi)"
    using assms(1,4) by (intro sum_list_mono mult_left_mono) (auto simp: less_imp_le)
  then have "(\<Sum>k\<leftarrow>ks. w k * x k) \<le> hi * (\<Sum>k\<leftarrow>ks. w k)"
    by (simp add: sum_list_const_mult mult.commute)
  with pos show "(\<Sum>k\<leftarrow>ks. w k * x k) / (\<Sum>k\<leftarrow>ks. w k) \<le> hi"
    by (simp add: pos_divide_le_eq)
qed

section \<open>Decimal printing\<close>

text \<open>What \<open>printf\<close> writes for an unsigned decimal, and zero padding to a width.\<close>

fun dec_digits :: "nat \<Rightarrow> string" where
  "dec_digits n =
     (if n < 10 then [char_of (48 + n)] else dec_digits (n div 10) @ [char_of (48 + n mod 10)])"

declare dec_digits.simps [simp del]

definition zero_pad :: "nat \<Rightarrow> string \<Rightarrow> string" where
  "zero_pad w s = replicate (w - length s) (CHR ''0'') @ s"

fun dec_value_acc :: "nat \<Rightarrow> string \<Rightarrow> nat" where
  "dec_value_acc a [] = a"
| "dec_value_acc a (c # cs) = dec_value_acc (10 * a + (of_char c - 48)) cs"

abbreviation dec_value :: "string \<Rightarrow> nat" where
  "dec_value \<equiv> dec_value_acc 0"

lemma dec_value_acc_append:
  "dec_value_acc a (s @ t) = dec_value_acc (dec_value_acc a s) t"
  by (induction a s rule: dec_value_acc.induct) simp_all

lemma dec_value_digits: "dec_value (dec_digits n) = n"
proof (induction n rule: dec_digits.induct)
  case (1 n)
  show ?case
  proof (cases "n < 10")
    case True
    then show ?thesis by (simp add: dec_digits.simps[of n])
  next
    case False
    with 1 show ?thesis
      by (simp add: dec_digits.simps[of n] dec_value_acc_append)
  qed
qed

lemma dec_value_zeros: "dec_value_acc 0 (replicate k (CHR ''0'') @ s) = dec_value s"
  by (induction k) simp_all

lemma dec_value_zero_pad: "dec_value (zero_pad w (dec_digits n)) = n"
  by (simp add: zero_pad_def dec_value_zeros dec_value_digits)

lemma dec_digits_length: "n < 10 ^ Suc k \<Longrightarrow> length (dec_digits n) \<le> Suc k"
proof (induction k arbitrary: n)
  case 0
  then show ?case by (simp add: dec_digits.simps[of n])
next
  case (Suc k)
  show ?case
  proof (cases "n < 10")
    case True
    then show ?thesis by (simp add: dec_digits.simps[of n])
  next
    case False
    from Suc.prems have "n div 10 < 10 ^ Suc k" by simp
    with Suc.IH False show ?thesis by (simp add: dec_digits.simps[of n])
  qed
qed

lemma length_zero_pad: "length s \<le> w \<Longrightarrow> length (zero_pad w s) = w"
  by (simp add: zero_pad_def)

end
