(* ===== verification/Civil_Time.thy ===== *)
theory Civil_Time
  imports Ntp_Prelude
begin

text \<open>
  Calendar arithmetic of \<^verbatim>\<open>src/src/CivilTime.h\<close>: the day number of a civil date
  and back, the instant a decoded frame names, the host clock as time-code
  fields, ISO 8601 text and the last-day-of-month test that narrows a broadcast
  leap warning. The unsigned intermediates carry their 32-bit wrap-around
  (\<open>u32\<close>), the signed divisions truncate (\<open>sdiv\<close>), as in C++.

  The main results: \<open>civilFromDays\<close> and \<open>daysFromCivil\<close> are inverse to each
  other on the Gregorian calendar, \<open>civilFromDays\<close> always yields a real date,
  and \<open>isLastDayOfMonth\<close> holds exactly on the last day of a month.
\<close>

section \<open>The operations\<close>

definition daysFromCivil :: "int \<Rightarrow> int \<Rightarrow> int \<Rightarrow> int" where
  "daysFromCivil y0 m d =
     (let y = y0 - (if m \<le> 2 then 1 else 0);
          era = (if 0 \<le> y then y else y - 399) sdiv 400;
          yoe = u32 (y - era * 400);
          doy = u32 (u32 (153 * u32 (m + (if 2 < m then u32 (-3) else 9)) + 2) div 5 + d - 1);
          doe = u32 (yoe * 365 + yoe div 4 - yoe div 100 + doy)
      in era * 146097 + doe - 719468)"

definition civilFromDays :: "int \<Rightarrow> int \<times> int \<times> int" where
  "civilFromDays z0 =
     (let z = z0 + 719468;
          era = (if 0 \<le> z then z else z - 146096) sdiv 146097;
          doe = u32 (z - era * 146097);
          yoe = u32 (doe - doe div 1460 + doe div 36524 - doe div 146096) div 365;
          yy = yoe + era * 400;
          doy = u32 (doe - u32 (365 * yoe + yoe div 4 - yoe div 100));
          mp = u32 (5 * doy + 2) div 153;
          d = u32 (doy - u32 (153 * mp + 2) div 5 + 1);
          m = u32 (mp + (if mp < 10 then 3 else u32 (-9)));
          y = i32 (yy + (if m \<le> 2 then 1 else 0))
      in (y, m, d))"

definition floorDiv :: "int \<Rightarrow> int \<Rightarrow> int" where
  "floorDiv a b =
     (let q = a sdiv b
      in if a smod b \<noteq> 0 \<and> (a < 0) \<noteq> (b < 0) then q - 1 else q)"

definition floorMod :: "int \<Rightarrow> int \<Rightarrow> int" where
  "floorMod a b = a - floorDiv a b * b"

definition utcMsFromFields :: "int \<Rightarrow> int \<Rightarrow> int \<Rightarrow> int \<Rightarrow> int" where
  "utcMsFromFields year2 doy hour minute =
     (let days = daysFromCivil (2000 + year2) 1 1 + (doy - 1)
      in (days * 86400 + hour * 3600 + minute * 60) * 1000)"

text \<open>
  \<open>printf\<close>'s \<open>%04d\<close> and \<open>%02u\<close>: a minus sign counts towards the width.
\<close>

definition fmt_d :: "nat \<Rightarrow> int \<Rightarrow> string" where
  "fmt_d w x =
     (if 0 \<le> x then zero_pad w (dec_digits (nat x))
      else CHR ''-'' # zero_pad (w - 1) (dec_digits (nat (- x))))"

definition iso8601 :: "int \<Rightarrow> string" where
  "iso8601 ms =
     (let secs = floorDiv ms 1000;
          days = floorDiv secs 86400;
          rem = floorMod secs 86400;
          (y, mo, d) = civilFromDays days;
          hh = i32 (rem sdiv 3600);
          rem' = rem smod 3600;
          mi = i32 (rem' sdiv 60);
          ss = i32 (rem' smod 60)
      in fmt_d 4 y @ ''-'' @ fmt_d 2 mo @ ''-'' @ fmt_d 2 d @ ''T'' @
         fmt_d 2 hh @ '':'' @ fmt_d 2 mi @ '':'' @ fmt_d 2 ss @ ''Z'')"

definition rfc3339Ms :: "real \<Rightarrow> string" where
  "rfc3339Ms unixSec =
     (let ms = llround (unixSec * 1000)
      in butlast (iso8601 ms) @ ''.'' @ fmt_d 3 (floorMod ms 1000) @ ''Z'')"

text \<open>The time-code fields of \<^verbatim>\<open>TimeFields\<close> (\<^verbatim>\<open>clock/TimeFrameVoter.h\<close>).\<close>

record TimeFields =
  tf_minute :: int
  tf_hour :: int
  tf_doy :: int
  tf_year2 :: int

definition hostNowFields :: "int \<Rightarrow> TimeFields" where
  "hostNowFields hostMs =
     (let secs = floorDiv hostMs 1000;
          days = floorDiv secs 86400;
          rem = floorMod secs 86400;
          (y, mo, d) = civilFromDays days
      in \<lparr>tf_minute = i32 ((rem sdiv 60) smod 60), tf_hour = i32 (rem sdiv 3600),
          tf_doy = i32 (days - daysFromCivil y 1 1) + 1, tf_year2 = y smod 100\<rparr>)"

definition isLastDayOfMonth :: "int \<Rightarrow> bool" where
  "isLastDayOfMonth ms =
     (let days = floorDiv (floorDiv ms 1000) 86400;
          (y1, m1, d1) = civilFromDays days;
          (y2, m2, d2) = civilFromDays (days + 1)
      in m1 \<noteq> m2)"

section \<open>The Gregorian calendar\<close>

text \<open>The specification the operations are checked against.\<close>

definition leap_year :: "int \<Rightarrow> bool" where
  "leap_year y \<longleftrightarrow> y mod 4 = 0 \<and> (y mod 100 \<noteq> 0 \<or> y mod 400 = 0)"

definition month_length :: "int \<Rightarrow> int \<Rightarrow> int" where
  "month_length y m =
     (if m = 2 then (if leap_year y then 29 else 28)
      else if m \<in> {4, 6, 9, 11} then 30 else 31)"

definition civil_date :: "int \<Rightarrow> int \<Rightarrow> int \<Rightarrow> bool" where
  "civil_date y m d \<longleftrightarrow> 1 \<le> m \<and> m \<le> 12 \<and> 1 \<le> d \<and> d \<le> month_length y m"

definition next_date :: "int \<times> int \<times> int \<Rightarrow> int \<times> int \<times> int" where
  "next_date = (\<lambda>(y, m, d).
     if d < month_length y m then (y, m, d + 1)
     else if m < 12 then (y, m + 1, 1) else (y + 1, 1, 1))"

section \<open>Floor division\<close>

lemma floorDiv_eq_div: "0 < b \<Longrightarrow> floorDiv a b = a div b"
proof -
  assume b: "0 < b"
  then have "b \<noteq> a mod b" by (metis pos_mod_bound less_irrefl)
  with b show ?thesis
    by (cases "0 \<le> a")
       (auto simp: floorDiv_def Let_def sdiv_nonneg smod_int_alt_def signed_divide_int_def sgn_if
          zdiv_zminus1_eq_if dvd_eq_mod_eq_0 zmod_zminus1_eq_if)
qed

lemma floorMod_eq_mod: "0 < b \<Longrightarrow> floorMod a b = a mod b"
  by (simp add: floorMod_def floorDiv_eq_div minus_div_mult_eq_mod)

lemma era_sdiv:
  fixes k c z :: int
  assumes "0 < k" and c: "c = k - 1"
  shows "(if 0 \<le> z then z else z - c) sdiv k = z div k"
proof (cases "0 \<le> z")
  case True
  with assms show ?thesis by (simp add: sdiv_nonneg)
next
  case False
  let ?r = "z mod k" and ?q = "z div k"
  have z: "z = k * ?q + ?r" and r: "0 \<le> ?r" "?r < k" using assms(1) by simp_all
  have "(c - z) div k = (k * (- ?q) + (c - ?r)) div k" using z by (simp add: algebra_simps)
  also have "\<dots> = - ?q + (c - ?r) div k" using assms(1) by (subst div_mult_self4) simp_all
  also have "(c - ?r) div k = 0" using r c by (intro div_pos_pos_trivial) simp_all
  finally have "(c - z) div k = - ?q" by simp
  moreover have "sgn (z - c) = -1" "\<bar>z - c\<bar> = c - z" using False assms by auto
  ultimately show ?thesis using False assms(1) by (simp add: signed_divide_int_def)
qed

section \<open>Day of the era\<close>

text \<open>
  Inside a 400-year era the day number is split as years of the March-based
  calendar and the day in that year; the last day of such a year is a
  29 February exactly when the next civil year is a leap year.
\<close>

definition doe_of :: "int \<Rightarrow> int \<Rightarrow> int" where
  "doe_of yoe doy = yoe * 365 + yoe div 4 - yoe div 100 + doy"

definition era_day :: "int \<Rightarrow> int \<Rightarrow> bool" where
  "era_day yoe doy \<longleftrightarrow> 0 \<le> yoe \<and> yoe < 400 \<and> 0 \<le> doy \<and> doy \<le> 365 \<and>
     (doy = 365 \<longrightarrow> leap_year (yoe + 1))"

lemma year_digits:
  fixes yoe :: int
  assumes "0 \<le> yoe" "yoe < 400"
  obtains a b c where "yoe = 100 * a + 4 * b + c" "0 \<le> a" "a \<le> 3" "0 \<le> b" "b \<le> 24"
    "0 \<le> c" "c \<le> 3" "yoe div 4 = 25 * a + b" "yoe div 100 = a"
proof -
  define a b c where "a = yoe div 100" and "b = (yoe mod 100) div 4" and "c = (yoe mod 100) mod 4"
  have y: "yoe = 100 * a + 4 * b + c"
    using mult_div_mod_eq[of 100 yoe] mult_div_mod_eq[of 4 "yoe mod 100"]
    unfolding a_def b_def c_def by linarith
  have rng: "0 \<le> c" "c \<le> 3" unfolding c_def by simp_all
  have ab: "0 \<le> a" "a \<le> 3" "0 \<le> b" "b \<le> 24" using assms unfolding a_def b_def by auto
  have "yoe = 4 * (25 * a + b) + c" using y by simp
  then have q: "yoe div 4 = 25 * a + b" by (rule int_div_pos_eq) (use rng in simp_all)
  show thesis by (rule that[OF y ab rng q a_def[symmetric]])
qed

lemma doe_of_digits:
  assumes "yoe = 100 * a + 4 * b + c" "yoe div 4 = 25 * a + b" "yoe div 100 = a"
  shows "doe_of yoe doy = 36524 * a + 1461 * b + 365 * c + doy"
  using assms by (simp add: doe_of_def)

text \<open>The long day of a year needs the fourth year of a cycle that is not cut short.\<close>

lemma leap_digits:
  fixes a b c :: int
  assumes "0 \<le> a" "a \<le> 3" "0 \<le> b" "b \<le> 24" "0 \<le> c" "c \<le> 3"
  shows "leap_year (100 * a + 4 * b + c + 1) \<longleftrightarrow> c = 3 \<and> (b < 24 \<or> a = 3)"
proof -
  define e where "e = 4 * b + c + 1"
  have e: "100 * a + 4 * b + c + 1 = 100 * a + e" "1 \<le> e" "e \<le> 100"
    using assms by (simp_all add: e_def)
  have "100 * a + e = c + 1 + 4 * (25 * a + b)" by (simp add: e_def)
  then have "(100 * a + e) mod 4 = (c + 1) mod 4" by (metis mod_mult_self2)
  moreover have "(c + 1) mod 4 = 0 \<longleftrightarrow> c = 3" using assms by presburger
  ultimately have 4: "(100 * a + e) mod 4 = 0 \<longleftrightarrow> c = 3" by simp
  have "(100 * a + e) mod 100 = e mod 100" by simp
  then have 100: "(100 * a + e) mod 100 = 0 \<longleftrightarrow> e = 100" using e by (cases "e = 100") auto
  have 400: "(100 * a + 100) mod 400 = 0 \<longleftrightarrow> a = 3" using assms by presburger
  have e100: "e = 100 \<longleftrightarrow> c = 3 \<and> b = 24" using assms by (simp add: e_def) presburger
  show ?thesis unfolding leap_year_def e(1) 4 100 using e100 400 assms by auto
qed

lemma yoe_recover:
  assumes "era_day yoe doy" and doe: "doe = doe_of yoe doy"
  shows "(doe - doe div 1460 + doe div 36524 - doe div 146096) div 365 = yoe"
    and "0 \<le> doe" and "doe < 146097"
proof -
  from assms(1) have y: "0 \<le> yoe" "yoe < 400" and r: "0 \<le> doy" "doy \<le> 365"
    and long: "doy = 365 \<longrightarrow> leap_year (yoe + 1)" by (auto simp: era_day_def)
  from y obtain a b c where d: "yoe = 100 * a + 4 * b + c" and
    rng: "0 \<le> a" "a \<le> 3" "0 \<le> b" "b \<le> 24" "0 \<le> c" "c \<le> 3"
    and q: "yoe div 4 = 25 * a + b" "yoe div 100 = a" by (rule year_digits)
  have e: "doe = 36524 * a + 1461 * b + 365 * c + doy"
    using doe doe_of_digits[OF d q] by simp
  have lp: "doy < 365 \<or> c = 3 \<and> (b < 24 \<or> a = 3)"
    using long leap_digits[OF rng] d r by auto
  show "0 \<le> doe" "doe < 146097" using e rng r by linarith+
  have century: "doe div 36524 - doe div 146096 = a"
  proof (cases "doe = 146096")
    case True
    have "a = 3" using e True rng r by linarith
    with True show ?thesis by simp
  next
    case False
    have le: "1461 * b + 365 * c + doy < 36524"
      using rng r lp False e by (cases "doy = 365") auto
    have "doe div 36524 = a" using e le rng r by (intro int_div_pos_eq) auto
    moreover have "doe div 146096 = 0" using \<open>0 \<le> doe\<close> False \<open>doe < 146097\<close> by simp
    ultimately show ?thesis by simp
  qed
  define R where "R = 24 * a + b + 365 * c + doy"
  have eR: "doe = 1460 * (25 * a + b) + R" using e R_def by simp
  have R: "0 \<le> R" "R < 2920" using rng r R_def by linarith+
  define k where "k = (if R < 1460 then 0 else 1 :: int)"
  have "doe div 1460 = 25 * a + b + R div 1460" using eR by simp
  moreover have "R div 1460 = k" using R unfolding k_def by auto
  ultimately have d1460: "doe div 1460 = 25 * a + b + k" by simp
  have "0 \<le> doy - k" "doy - k < 365"
    using rng r lp unfolding k_def R_def by (auto split: if_splits)
  moreover have "doe - doe div 1460 + doe div 36524 - doe div 146096 = 365 * yoe + (doy - k)"
    using century d1460 e d by simp
  ultimately show "(doe - doe div 1460 + doe div 36524 - doe div 146096) div 365 = yoe" by simp
qed

lemma era_day_split:
  assumes "0 \<le> doe" "doe < 146097"
  obtains yoe doy where "era_day yoe doy" "doe = doe_of yoe doy"
proof -
  define a where "a = min 3 (doe div 36524)"
  define s where "s = doe - 36524 * a"
  define b where "b = min 24 (s div 1461)"
  define t where "t = s - 1461 * b"
  define c where "c = min 3 (t div 365)"
  define r where "r = t - 365 * c"
  have a: "0 \<le> a" "a \<le> 3" using assms unfolding a_def by auto
  have s: "0 \<le> s" "a = 3 \<or> s < 36524" "s \<le> 36524"
    using assms unfolding s_def a_def by (auto simp: min_def split: if_splits)
  have b: "0 \<le> b" "b \<le> 24" using s unfolding b_def by auto
  have t: "0 \<le> t" "b = 24 \<or> t < 1461" "b < 24 \<or> t = s - 35064"
    using s unfolding t_def b_def by (auto simp: min_def split: if_splits)
  have t2: "t \<le> 1460" using t b s by (cases "b = 24") auto
  have c: "0 \<le> c" "c \<le> 3" using t unfolding c_def by auto
  have r: "0 \<le> r" "c = 3 \<or> r < 365" "r \<le> 365"
    using t t2 unfolding r_def c_def by (auto simp: min_def split: if_splits)
  have lp: "r < 365 \<or> c = 3 \<and> (b < 24 \<or> a = 3)"
    using r c a b s t by (auto simp: r_def)
  define yoe where "yoe = 100 * a + 4 * b + c"
  have "yoe div 4 = 25 * a + b" "yoe div 100 = a" using a b c unfolding yoe_def by auto
  then have "doe_of yoe r = 36524 * a + 1461 * b + 365 * c + r"
    by (intro doe_of_digits) (simp_all add: yoe_def)
  then have "doe = doe_of yoe r" by (simp add: r_def t_def s_def)
  moreover have "era_day yoe r"
    using a b c r lp leap_digits[OF a b c] by (auto simp: era_day_def yoe_def)
  ultimately show thesis using that by blast
qed

section \<open>Months of the March-based year\<close>

definition mp_of :: "int \<Rightarrow> int" where
  "mp_of m = (if 2 < m then m - 3 else m + 9)"

definition month_start :: "int \<Rightarrow> int" where
  "month_start mp = (153 * mp + 2) div 5"

lemma twelve_cases:
  fixes m :: int
  assumes "1 \<le> m" "m \<le> 12"
  obtains "m = 1" | "m = 2" | "m = 3" | "m = 4" | "m = 5" | "m = 6" | "m = 7" | "m = 8"
    | "m = 9" | "m = 10" | "m = 11" | "m = 12"
proof -
  from assms have "m = 1 \<or> m = 2 \<or> m = 3 \<or> m = 4 \<or> m = 5 \<or> m = 6 \<or> m = 7 \<or> m = 8
    \<or> m = 9 \<or> m = 10 \<or> m = 11 \<or> m = 12" by arith
  then show thesis using that by blast
qed

lemma month_recover:
  assumes "1 \<le> m" "m \<le> 12" "1 \<le> d" "d \<le> (if m = 2 then 29 else if m \<in> {4, 6, 9, 11} then 30 else 31)"
    and "doy = month_start (mp_of m) + d - 1"
  shows "(5 * doy + 2) div 153 = mp_of m" "0 \<le> doy" "doy \<le> 365"
    "doy = 365 \<longleftrightarrow> m = 2 \<and> d = 29"
  using assms(1,2) by (cases rule: twelve_cases; use assms(3-5) in \<open>auto simp: month_start_def mp_of_def\<close>)+

lemma month_split:
  assumes "0 \<le> doy" "doy \<le> 365"
  obtains m d where "1 \<le> m" "m \<le> 12" "1 \<le> d"
    "d \<le> (if m = 2 then 29 else if m \<in> {4, 6, 9, 11} then 30 else 31)"
    "doy = month_start (mp_of m) + d - 1"
proof -
  define mp where "mp = (5 * doy + 2) div 153"
  define m where "m = (if mp < 10 then mp + 3 else mp - 9)"
  define d where "d = doy - month_start mp + 1"
  have mp: "0 \<le> mp" "mp \<le> 11" using assms unfolding mp_def by auto
  have lohi: "153 * mp \<le> 5 * doy + 2" "5 * doy + 2 < 153 * mp + 153"
    unfolding mp_def by auto
  have m: "1 \<le> m" "m \<le> 12" "mp_of m = mp" using mp by (auto simp: m_def mp_of_def)
  have "1 \<le> d" using lohi by (simp add: d_def month_start_def)
  moreover have "d \<le> (if m = 2 then 29 else if m \<in> {4, 6, 9, 11} then 30 else 31)"
    using m(1,2) by (cases rule: twelve_cases; use m(3) lohi assms in \<open>auto simp: d_def month_start_def mp_of_def\<close>)
  moreover have "doy = month_start (mp_of m) + d - 1" by (simp add: d_def m)
  ultimately show thesis using that m by blast
qed

section \<open>The two conversions\<close>

definition shifted_year :: "int \<Rightarrow> int \<Rightarrow> int" where
  "shifted_year y m = y - (if m \<le> 2 then 1 else 0)"

lemma mp_of_wrap:
  assumes "1 \<le> m" "m \<le> 12"
  shows "u32 (m + (if 2 < m then u32 (-3) else 9)) = mp_of m" "0 \<le> mp_of m" "mp_of m \<le> 11"
  using assms by (auto simp: mp_of_def u32_id)

lemma doe_of_year_bounds:
  assumes "0 \<le> yoe" "yoe < 400" "0 \<le> doy" "doy \<le> 1000000"
  shows "0 \<le> doe_of yoe doy" "doe_of yoe doy < 4294967296"
  using assms by (auto simp: doe_of_def)

lemma daysFromCivil_eq:
  assumes "1 \<le> m" "m \<le> 12" "1 \<le> d" "d \<le> 31"
  shows "daysFromCivil y m d = (shifted_year y m div 400) * 146097
    + doe_of (shifted_year y m mod 400) (month_start (mp_of m) + d - 1) - 719468"
proof -
  let ?Y = "shifted_year y m"
  have era: "(if 0 \<le> ?Y then ?Y else ?Y - 399) sdiv 400 = ?Y div 400"
    by (rule era_sdiv) simp_all
  have yoe: "?Y - ?Y div 400 * 400 = ?Y mod 400" by (simp add: minus_div_mult_eq_mod)
  have mp: "0 \<le> mp_of m" "mp_of m \<le> 11" using mp_of_wrap[OF assms(1,2)] by simp_all
  have doy: "u32 (u32 (153 * mp_of m + 2) div 5 + d - 1) = month_start (mp_of m) + d - 1"
    using mp assms by (simp add: month_start_def u32_id)
  have bound: "0 \<le> month_start (mp_of m) + d - 1" "month_start (mp_of m) + d - 1 \<le> 1000000"
    using mp assms by (auto simp: month_start_def)
  have r: "0 \<le> ?Y mod 400" "?Y mod 400 < 400" by simp_all
  have y32: "u32 (?Y mod 400) = ?Y mod 400" by (rule u32_id) (use r in linarith)+
  have e32: "u32 (doe_of (?Y mod 400) (month_start (mp_of m) + d - 1))
      = doe_of (?Y mod 400) (month_start (mp_of m) + d - 1)"
    by (rule u32_id) (rule doe_of_year_bounds[OF r bound])+
  show ?thesis
    unfolding daysFromCivil_def Let_def
    by (simp only: shifted_year_def[symmetric] era yoe y32 mp_of_wrap(1)[OF assms(1,2)] doy
        e32 doe_of_def[symmetric])
qed

lemma civilFromDays_eq:
  assumes "era_day yoe doy" and "1 \<le> m" "m \<le> 12" "1 \<le> d"
    and "d \<le> (if m = 2 then 29 else if m \<in> {4, 6, 9, 11} then 30 else 31)"
    and "doy = month_start (mp_of m) + d - 1"
    and z: "z = era * 146097 + doe_of yoe doy - 719468"
  shows "civilFromDays z = (i32 (yoe + era * 400 + (if m \<le> 2 then 1 else 0)), m, d)"
proof -
  note yr = yoe_recover[OF assms(1) refl]
  note mr = month_recover[OF assms(2-6)]
  let ?e = "doe_of yoe doy"
  have era: "(if 0 \<le> z + 719468 then z + 719468 else z + 719468 - 146096) sdiv 146097 = era"
    using z yr(2,3) by (subst era_sdiv) simp_all
  have doe: "u32 (z + 719468 - era * 146097) = ?e" using z yr(2,3) by (simp add: u32_id)
  have y: "0 \<le> yoe" "yoe < 400" using assms(1) by (auto simp: era_day_def)
  let ?n = "?e - ?e div 1460 + ?e div 36524 - ?e div 146096"
  have n: "365 * yoe \<le> ?n" "?n < 365 * yoe + 365"
    using mult_div_mod_eq[of 365 ?n] pos_mod_bound[of 365 ?n] pos_mod_sign[of 365 ?n]
    unfolding yr(1) by linarith+
  have "u32 ?n = ?n" by (rule u32_id) (use n y in linarith)+
  then have yoe: "u32 ?n div 365 = yoe" using yr(1) by simp
  have doy: "u32 (?e - u32 (365 * yoe + yoe div 4 - yoe div 100)) = doy"
    using y mr(2,3) by (simp add: u32_id doe_of_def)
  have mp: "u32 (5 * doy + 2) div 153 = mp_of m" using mr by (simp add: u32_id)
  have mpr: "0 \<le> mp_of m" "mp_of m \<le> 11" using mp_of_wrap[OF assms(2,3)] by simp_all
  have day: "u32 (doy - u32 (153 * mp_of m + 2) div 5 + 1) = d"
    using mpr assms(4,5,6) by (auto simp: u32_id month_start_def split: if_splits)
  have mon: "u32 (mp_of m + (if mp_of m < 10 then 3 else u32 (-9))) = m"
    using assms(2,3) by (auto simp: mp_of_def u32_id)
  show ?thesis
    unfolding civilFromDays_def Let_def by (simp only: era doe yoe doy mp day mon)
qed

text \<open>
  A civil date is a day of an era: the only day of year 365 is 29 February.
\<close>

lemma leap_year_mod: "leap_year (y mod 400 + 1) \<longleftrightarrow> leap_year (y + 1)"
proof -
  have "(y mod 400 + 1) mod 4 = (y + 1) mod 4" "(y mod 400 + 1) mod 100 = (y + 1) mod 100"
    "(y mod 400 + 1) mod 400 = (y + 1) mod 400"
    by (simp_all add: mod_mod_cancel mod_add_cong)
  then show ?thesis by (simp only: leap_year_def)
qed

lemma month_length_le:
  "month_length y m \<le> (if m = 2 then 29 else if m \<in> {4, 6, 9, 11} then 30 else 31)"
  by (auto simp: month_length_def)

lemma civil_date_era_day:
  assumes "civil_date y m d"
  shows "era_day (shifted_year y m mod 400) (month_start (mp_of m) + d - 1)"
proof -
  let ?Y = "shifted_year y m" and ?doy = "month_start (mp_of m) + d - 1"
  from assms have m: "1 \<le> m" "m \<le> 12" "1 \<le> d" and dl: "d \<le> month_length y m"
    by (auto simp: civil_date_def)
  have d: "d \<le> (if m = 2 then 29 else if m \<in> {4, 6, 9, 11} then 30 else 31)"
    using dl month_length_le[of y m] by (rule order_trans)
  note mr = month_recover[OF m d refl]
  have "?doy = 365 \<Longrightarrow> leap_year (?Y mod 400 + 1)"
    using mr(4) dl by (auto simp: leap_year_mod shifted_year_def month_length_def split: if_splits)
  moreover have "0 \<le> ?Y mod 400" "?Y mod 400 < 400" by simp_all
  ultimately show ?thesis using mr(2,3) by (simp only: era_day_def) blast
qed

definition int_year :: "int \<Rightarrow> bool" where
  "int_year y \<longleftrightarrow> -2147483648 \<le> y \<and> y < 2147483648"

lemma civil_roundtrip:
  assumes cd: "civil_date y m d" and "int_year y"
  shows "civilFromDays (daysFromCivil y m d) = (y, m, d)"
proof -
  let ?Y = "shifted_year y m"
  from cd have m: "1 \<le> m" "m \<le> 12" "1 \<le> d" and dl: "d \<le> month_length y m"
    by (auto simp: civil_date_def)
  have d: "d \<le> (if m = 2 then 29 else if m \<in> {4, 6, 9, 11} then 30 else 31)"
    using dl month_length_le[of y m] by (rule order_trans)
  then have d31: "d \<le> 31" by (auto split: if_splits)
  have "civilFromDays (daysFromCivil y m d)
      = (i32 (?Y mod 400 + ?Y div 400 * 400 + (if m \<le> 2 then 1 else 0)), m, d)"
    by (rule civilFromDays_eq[OF civil_date_era_day[OF cd] m d refl daysFromCivil_eq[OF m d31]])
  also have "?Y mod 400 + ?Y div 400 * 400 + (if m \<le> 2 then 1 else 0) = y"
    by (simp add: mod_div_mult_eq shifted_year_def)
  finally show ?thesis using assms(2) by (simp add: int_year_def i32_id)
qed

text \<open>Every day number is a civil date's.\<close>

lemma day_is_civil_date:
  obtains y m d where "civil_date y m d" "z = daysFromCivil y m d"
    "y = (z + 719468) div 146097 * 400 + (shifted_year y m mod 400) + (if m \<le> 2 then 1 else 0)"
proof -
  define era where "era = (z + 719468) div 146097"
  define doe where "doe = (z + 719468) mod 146097"
  have z: "z = era * 146097 + doe - 719468"
    using div_mult_mod_eq[of "z + 719468" 146097] unfolding era_def doe_def by linarith
  have "0 \<le> doe" "doe < 146097" by (simp_all add: doe_def)
  then obtain yoe doy where ed: "era_day yoe doy" and doe: "doe = doe_of yoe doy"
    by (rule era_day_split)
  from ed have r: "0 \<le> doy" "doy \<le> 365" "0 \<le> yoe" "yoe < 400" by (auto simp: era_day_def)
  from r(1,2) obtain m d where m: "1 \<le> m" "m \<le> 12" "1 \<le> d"
    and d: "d \<le> (if m = 2 then 29 else if m \<in> {4, 6, 9, 11} then 30 else 31)"
    and doy: "doy = month_start (mp_of m) + d - 1" by (rule month_split)
  define y where "y = era * 400 + yoe + (if m \<le> 2 then 1 else 0)"
  have Y: "shifted_year y m = era * 400 + yoe" by (simp add: y_def shifted_year_def)
  have Ydm: "shifted_year y m div 400 = era" "shifted_year y m mod 400 = yoe"
    using r unfolding Y by simp_all
  have "d \<le> month_length y m"
  proof (cases "m = 2 \<and> d = 29")
    case True
    with month_recover(4)[OF m d doy] ed have "leap_year (yoe + 1)" by (simp add: era_day_def)
    then have "leap_year y" using leap_year_mod[of "shifted_year y m"] Ydm True
      by (simp add: y_def shifted_year_def)
    with True show ?thesis by (simp add: month_length_def)
  next
    case False
    with d show ?thesis by (auto simp: month_length_def split: if_splits)
  qed
  then have cd: "civil_date y m d" using m by (simp add: civil_date_def)
  have "d \<le> 31" using d by (auto split: if_splits)
  then have "daysFromCivil y m d = z"
    using daysFromCivil_eq[OF m(1,2,3)] Ydm z doe doy by simp
  moreover have "y = era * 400 + shifted_year y m mod 400 + (if m \<le> 2 then 1 else 0)"
    unfolding Ydm(2) by (rule y_def)
  ultimately show thesis using that[OF cd] unfolding era_def by blast
qed

section \<open>Successive days\<close>

lemma div_succ:
  fixes y k :: int
  assumes "0 < k"
  shows "(y + 1) div k = y div k + (if (y + 1) mod k = 0 then 1 else 0)"
proof (cases "(y + 1) mod k = 0")
  case True
  then obtain q where q: "y + 1 = k * q" by (auto simp: mod_eq_0_iff_dvd)
  then have "y = k * (q - 1) + (k - 1)" by (simp add: algebra_simps)
  then have "y div k = q - 1" by (rule int_div_pos_eq) (use assms in simp_all)
  with q assms True show ?thesis by simp
next
  case False
  have "y = k * ((y + 1) div k) + ((y + 1) mod k - 1)"
    using mult_div_mod_eq[of k "y + 1"] by linarith
  then have "y div k = (y + 1) div k"
    by (rule int_div_pos_eq)
       (use assms False pos_mod_sign[of k "y + 1"] pos_mod_bound[of k "y + 1"] in linarith)+
  with False show ?thesis by simp
qed

definition year_day0 :: "int \<Rightarrow> int" where
  "year_day0 Y = 365 * Y + Y div 4 - Y div 100 + Y div 400"

lemma year_day0_era: "(Y div 400) * 146097 + doe_of (Y mod 400) doy = year_day0 Y + doy"
proof -
  obtain e y where e: "e = Y div 400" and y: "y = Y mod 400" by simp
  have Y: "Y = 400 * e + y" by (simp add: e y)
  have "Y = 4 * (100 * e) + y" "Y = 100 * (4 * e) + y" using Y by simp_all
  then have "Y div 4 = 100 * e + y div 4" "Y div 100 = 4 * e + y div 100"
    by (metis div_mult_self4 zero_neq_numeral)+
  then show ?thesis unfolding year_day0_def doe_of_def e[symmetric] y[symmetric] using Y by linarith
qed

lemma year_day0_next: "year_day0 (Y + 1) = year_day0 Y + (if leap_year (Y + 1) then 366 else 365)"
proof -
  define P Q R where "P \<longleftrightarrow> (Y + 1) mod 4 = 0" and "Q \<longleftrightarrow> (Y + 1) mod 100 = 0"
    and "R \<longleftrightarrow> (Y + 1) mod 400 = 0"
  obtain q1 q2 q3 where q: "Y div 4 = q1" "Y div 100 = q2" "Y div 400 = q3" by blast
  have "100 dvd (400::int)" "4 dvd (100::int)" by simp_all
  then have imp: "R \<longrightarrow> Q" "Q \<longrightarrow> P"
    unfolding P_def Q_def R_def by (metis dvd_trans mod_eq_0_iff_dvd)+
  have leap: "leap_year (Y + 1) \<longleftrightarrow> P \<and> (\<not> Q \<or> R)"
    by (simp only: leap_year_def P_def Q_def R_def)
  have A: "year_day0 (Y + 1) = 365 * (Y + 1) + (q1 + (if P then 1 else 0)) - (q2 + (if Q then 1 else 0))
    + (q3 + (if R then 1 else 0))"
    by (simp only: year_day0_def div_succ zero_less_numeral P_def Q_def R_def q)
  have B: "year_day0 Y = 365 * Y + q1 - q2 + q3" by (simp only: year_day0_def q)
  show ?thesis unfolding A B leap using imp by (cases P; cases Q; cases R; simp)
qed

lemma daysFromCivil_day0:
  assumes "1 \<le> m" "m \<le> 12" "1 \<le> d" "d \<le> 31"
  shows "daysFromCivil y m d = year_day0 (shifted_year y m) + month_start (mp_of m) + d - 719469"
  using daysFromCivil_eq[OF assms, of y] year_day0_era by simp

lemma daysFromCivil_next:
  assumes "civil_date y m d"
  shows "(case next_date (y, m, d) of (y', m', d') \<Rightarrow> daysFromCivil y' m' d') = daysFromCivil y m d + 1"
    and "case next_date (y, m, d) of (y', m', d') \<Rightarrow> civil_date y' m' d'"
proof -
  from assms have m: "1 \<le> m" "m \<le> 12" "1 \<le> d" and dl: "d \<le> month_length y m"
    by (auto simp: civil_date_def)
  have d31: "d \<le> 31" using dl month_length_le[of y m] by (auto split: if_splits)
  show "case next_date (y, m, d) of (y', m', d') \<Rightarrow> civil_date y' m' d'"
    using m dl by (auto simp: next_date_def civil_date_def month_length_def)
  show "(case next_date (y, m, d) of (y', m', d') \<Rightarrow> daysFromCivil y' m' d') = daysFromCivil y m d + 1"
  proof (cases "d < month_length y m")
    case True
    then have "d + 1 \<le> 31" using month_length_le[of y m] by (auto split: if_splits)
    with True m d31 show ?thesis by (simp add: next_date_def daysFromCivil_day0)
  next
    case False
    then have d: "d = month_length y m" using dl by simp
    have len: "29 \<le> month_length y m \<or> month_length y m = 28" by (simp add: month_length_def)
    show ?thesis using m(1,2)
      by (cases rule: twelve_cases;
          use d m d31 year_day0_next[of "y - 1"] in
          \<open>simp add: next_date_def daysFromCivil_day0 shifted_year_def mp_of_def month_start_def
             month_length_def split: if_splits\<close>)
  qed
qed

section \<open>What the conversions guarantee\<close>

text \<open>
  Day numbers whose civil year fits the C++ \<open>int\<close> the year is returned in.
\<close>

definition day_range :: "int \<Rightarrow> bool" where
  "day_range z \<longleftrightarrow> \<bar>z\<bar> \<le> 700000000000"

lemma day_range_year:
  assumes "day_range z" "civil_date y m d"
    "y = (z + 719468) div 146097 * 400 + (shifted_year y m mod 400) + (if m \<le> 2 then 1 else 0)"
  shows "\<bar>y\<bar> \<le> 2100000000"
proof -
  obtain r where r: "r = shifted_year y m mod 400" by simp
  have rb: "0 \<le> r" "r < 400" by (simp_all add: r)
  obtain q where q: "q = (z + 719468) div 146097" by simp
  have "146097 * q \<le> z + 719468" "z + 719468 < 146097 * q + 146097"
    using mult_div_mod_eq[of 146097 "z + 719468"] pos_mod_bound[of 146097 "z + 719468"]
      pos_mod_sign[of 146097 "z + 719468"] unfolding q by linarith+
  then have qb: "-5000000 \<le> q" "q \<le> 5000000"
    using assms(1) by (auto simp: day_range_def)
  have "y = q * 400 + r + (if m \<le> 2 then 1 else 0)" using assms(3) unfolding q r .
  then show ?thesis using qb rb by auto
qed

lemma int_year_small: "\<bar>y\<bar> \<le> 2100000000 \<Longrightarrow> int_year y" "\<bar>y\<bar> \<le> 2100000000 \<Longrightarrow> int_year (y + 1)"
  by (auto simp: int_year_def)

text \<open>
  \<open>civilFromDays\<close> inverts \<open>daysFromCivil\<close>: on every day number in range it returns a real
  Gregorian date (month 1 to 12, day within the month's length, leap years included) whose
  day number is the one given.
\<close>

theorem civilFromDays_correct:
  assumes "day_range z"
  shows "case civilFromDays z of (y, m, d) \<Rightarrow> civil_date y m d \<and> daysFromCivil y m d = z"
proof -
  obtain y m d where cd: "civil_date y m d" and z: "z = daysFromCivil y m d"
    and y: "y = (z + 719468) div 146097 * 400 + (shifted_year y m mod 400) + (if m \<le> 2 then 1 else 0)"
    by (rule day_is_civil_date)
  have "civilFromDays z = (y, m, d)"
    using civil_roundtrip[OF cd int_year_small(1)[OF day_range_year[OF assms cd y]]] z by simp
  with cd z show ?thesis by simp
qed

theorem civilFromDays_correct_witness:
  "day_range 20722 \<and> civilFromDays 20722 = (2026, 9, 26) \<and> daysFromCivil 2026 9 26 = 20722"
proof -
  have r: "day_range 20722" by (simp add: day_range_def)
  have e: "civilFromDays 20722 = (2026, 9, 26)" by code_simp
  show ?thesis using civilFromDays_correct[OF r] r e by simp
qed

lemma civilFromDays_decompose:
  assumes "day_range z"
  obtains y m d where "civilFromDays z = (y, m, d)" "civil_date y m d" "daysFromCivil y m d = z"
    "\<bar>y\<bar> \<le> 2100000000"
proof -
  obtain y m d where cd: "civil_date y m d" and z: "z = daysFromCivil y m d"
    and y: "y = (z + 719468) div 146097 * 400 + (shifted_year y m mod 400) + (if m \<le> 2 then 1 else 0)"
    by (rule day_is_civil_date)
  have iy: "\<bar>y\<bar> \<le> 2100000000" by (rule day_range_year[OF assms cd y])
  have "civilFromDays z = (y, m, d)" using civil_roundtrip[OF cd int_year_small(1)[OF iy]] z by simp
  with cd z iy show thesis using that by simp
qed

lemma civilFromDays_next:
  assumes "day_range z"
  shows "civilFromDays (z + 1) = next_date (civilFromDays z)"
proof -
  obtain y m d where c: "civilFromDays z = (y, m, d)" "civil_date y m d" "daysFromCivil y m d = z"
    and y: "\<bar>y\<bar> \<le> 2100000000" by (rule civilFromDays_decompose[OF assms])
  obtain y2 m2 d2 where n: "next_date (y, m, d) = (y2, m2, d2)" by (cases "next_date (y, m, d)")
  have "civil_date y2 m2 d2" "daysFromCivil y2 m2 d2 = z + 1"
    using daysFromCivil_next[OF c(2)] n c(3) by simp_all
  moreover have "int_year y2" using n int_year_small[OF y] by (auto simp: next_date_def split: if_splits)
  ultimately have "civilFromDays (z + 1) = (y2, m2, d2)" using civil_roundtrip by metis
  then show ?thesis using n c(1) by simp
qed

text \<open>
  The leap-warning gate: \<open>isLastDayOfMonth\<close> holds at an instant exactly when the
  instant's civil day is the last day of its month.
\<close>

theorem isLastDayOfMonth_iff:
  assumes "day_range (floorDiv (floorDiv ms 1000) 86400)"
    and "civilFromDays (floorDiv (floorDiv ms 1000) 86400) = (y, m, d)"
  shows "isLastDayOfMonth ms \<longleftrightarrow> d = month_length y m"
proof -
  have cd: "civil_date y m d" using civilFromDays_decompose[OF assms(1)] assms(2) by (metis prod.inject)
  have "civilFromDays (floorDiv (floorDiv ms 1000) 86400 + 1) = next_date (y, m, d)"
    using civilFromDays_next[OF assms(1)] assms(2) by simp
  then show ?thesis
    using cd assms(2) by (auto simp: isLastDayOfMonth_def next_date_def civil_date_def split: prod.splits)
qed

theorem isLastDayOfMonth_iff_witness:
  "isLastDayOfMonth 1782820800000 \<longleftrightarrow> (30::int) = month_length 2026 6"
proof (rule isLastDayOfMonth_iff)
  show "day_range (floorDiv (floorDiv 1782820800000 1000) 86400)" by code_simp
  show "civilFromDays (floorDiv (floorDiv 1782820800000 1000) 86400) = (2026, 6, 30)" by code_simp
qed

lemma day_of_year:
  assumes "civil_date y m d"
  shows "0 \<le> daysFromCivil y m d - daysFromCivil y 1 1"
    and "daysFromCivil y m d - daysFromCivil y 1 1 < (if leap_year y then 366 else 365)"
proof -
  from assms have m: "1 \<le> m" "m \<le> 12" "1 \<le> d" and dl: "d \<le> month_length y m"
    by (auto simp: civil_date_def)
  have d31: "d \<le> 31" using dl month_length_le[of y m] by (auto split: if_splits)
  have "0 \<le> daysFromCivil y m d - daysFromCivil y 1 1 \<and>
      daysFromCivil y m d - daysFromCivil y 1 1 < (if leap_year y then 366 else 365)"
    using m(1,2)
    by (cases rule: twelve_cases;
        use dl m(3) d31 year_day0_next[of "y - 1"] in
        \<open>simp add: daysFromCivil_day0 shifted_year_def mp_of_def month_start_def
           month_length_def split: if_splits\<close>)
  then show "0 \<le> daysFromCivil y m d - daysFromCivil y 1 1"
    "daysFromCivil y m d - daysFromCivil y 1 1 < (if leap_year y then 366 else 365)" by simp_all
qed

lemma hms_split:
  fixes s :: int
  obtains D H M S where "s = 86400 * D + (3600 * H + (60 * M + S))"
    "0 \<le> H" "H < 24" "0 \<le> M" "M < 60" "0 \<le> S" "S < 60"
proof -
  obtain D r where D: "s = 86400 * D + r" "0 \<le> r" "r < 86400"
    using mult_div_mod_eq[of 86400 s] pos_mod_sign[of 86400 s] pos_mod_bound[of 86400 s]
    by (metis zero_less_numeral)
  obtain H t where H: "r = 3600 * H + t" "0 \<le> t" "t < 3600"
    using mult_div_mod_eq[of 3600 r] pos_mod_sign[of 3600 r] pos_mod_bound[of 3600 r]
    by (metis zero_less_numeral)
  obtain M S where M: "t = 60 * M + S" "0 \<le> S" "S < 60"
    using mult_div_mod_eq[of 60 t] pos_mod_sign[of 60 t] pos_mod_bound[of 60 t]
    by (metis zero_less_numeral)
  show thesis by (rule that[of D H M S]) (use D H M in linarith)+
qed

lemma hms_parts:
  fixes D H M S :: int
  assumes "0 \<le> H" "H < 24" "0 \<le> M" "M < 60" "0 \<le> S" "S < 60"
  defines "s \<equiv> 86400 * D + (3600 * H + (60 * M + S))"
  shows "s div 86400 = D" "s mod 86400 = 3600 * H + (60 * M + S)"
    "(3600 * H + (60 * M + S)) sdiv 3600 = H" "(3600 * H + (60 * M + S)) smod 3600 = 60 * M + S"
    "(60 * M + S) sdiv 60 = M" "(60 * M + S) smod 60 = S"
    "(3600 * H + (60 * M + S)) sdiv 60 smod 60 = M" "s div 60 = 1440 * D + 60 * H + M"
proof -
  have r: "0 \<le> 3600 * H + (60 * M + S)" "3600 * H + (60 * M + S) < 86400"
    "0 \<le> 60 * M + S" "60 * M + S < 3600" using assms by linarith+
  show "s div 86400 = D" "s mod 86400 = 3600 * H + (60 * M + S)"
    unfolding s_def using r by (intro int_div_pos_eq int_mod_pos_eq; simp)+
  show "(3600 * H + (60 * M + S)) sdiv 3600 = H" "(3600 * H + (60 * M + S)) smod 3600 = 60 * M + S"
    using r by (simp_all add: sdiv_nonneg smod_nonneg int_div_pos_eq int_mod_pos_eq)
  show "(60 * M + S) sdiv 60 = M" "(60 * M + S) smod 60 = S"
    using r assms by (simp_all add: sdiv_nonneg smod_nonneg int_div_pos_eq int_mod_pos_eq)
  have "3600 * H + (60 * M + S) = 60 * (60 * H + M) + S" by simp
  then have "(3600 * H + (60 * M + S)) div 60 = 60 * H + M" by (rule int_div_pos_eq) (use assms in simp_all)
  then have "(3600 * H + (60 * M + S)) sdiv 60 = 60 * H + M" using r by (simp add: sdiv_nonneg)
  then show "(3600 * H + (60 * M + S)) sdiv 60 smod 60 = M" 
    using assms by (simp add: smod_nonneg int_mod_pos_eq)
  have "s = 60 * (1440 * D + 60 * H + M) + S" by (simp add: s_def)
  then show "s div 60 = 1440 * D + 60 * H + M" by (rule int_div_pos_eq) (use assms in simp_all)
qed

lemma hostNowFields_parts:
  assumes "day_range (floorDiv (floorDiv ms 1000) 86400)"
    and "civilFromDays (floorDiv (floorDiv ms 1000) 86400) = (y, m, d)" "2000 \<le> y" "y \<le> 2099"
  obtains D H M S where "ms div 1000 = 86400 * D + (3600 * H + (60 * M + S))"
    "0 \<le> H" "H < 24" "0 \<le> M" "M < 60" "0 \<le> S" "S < 60" "civil_date y m d" "daysFromCivil y m d = D"
    "hostNowFields ms = \<lparr>tf_minute = M, tf_hour = H, tf_doy = D - daysFromCivil y 1 1 + 1, tf_year2 = y - 2000\<rparr>"
proof -
  obtain D H M S where s: "ms div 1000 = 86400 * D + (3600 * H + (60 * M + S))"
    and r: "0 \<le> H" "H < 24" "0 \<le> M" "M < 60" "0 \<le> S" "S < 60" by (rule hms_split)
  note p = hms_parts[OF r]
  have sec: "floorDiv ms 1000 = 86400 * D + (3600 * H + (60 * M + S))" using s by (simp add: floorDiv_eq_div)
  have days: "floorDiv (86400 * D + (3600 * H + (60 * M + S))) 86400 = D"
    using p(1) by (simp add: floorDiv_eq_div)
  have rem: "floorMod (86400 * D + (3600 * H + (60 * M + S))) 86400 = 3600 * H + (60 * M + S)"
    using p(2) by (simp add: floorMod_eq_mod)
  have c: "civilFromDays D = (y, m, d)" using assms(2) unfolding sec days .
  have cd: "civil_date y m d" and dz: "daysFromCivil y m d = D"
    using civilFromDays_decompose[OF assms(1)] assms(2) days unfolding sec by (metis prod.inject)+
  have i: "i32 M = M" "i32 H = H" using r by (simp_all add: i32_id)
  have j: "i32 (D - daysFromCivil y 1 1) = D - daysFromCivil y 1 1"
    using day_of_year[OF cd] unfolding dz by (intro i32_id) (auto split: if_splits)
  have "y mod 100 = y - 2000" by (rule int_mod_pos_eq[of y 100 20]) (use assms in auto)
  then have k: "y smod 100 = y - 2000" using assms(3) by (simp add: smod_nonneg)
  have "hostNowFields ms = \<lparr>tf_minute = M, tf_hour = H, tf_doy = D - daysFromCivil y 1 1 + 1, tf_year2 = y - 2000\<rparr>"
    unfolding hostNowFields_def Let_def sec days rem c prod.case p(3) p(7) i j k by simp
  then show thesis using that[OF s r cd dz] by simp
qed

text \<open>
  The host clock handed to the voter's plausibility gate is a range-valid time code, and
  reading it back with the decoders' own \<open>utcMsFromFields\<close> gives the start of the host's
  minute exactly, for every instant of the 20xx century the fields can name.
\<close>

theorem hostNowFields_roundtrip:
  assumes "day_range (floorDiv (floorDiv ms 1000) 86400)"
    and "civilFromDays (floorDiv (floorDiv ms 1000) 86400) = (y, m, d)" "2000 \<le> y" "y \<le> 2099"
  shows "let f = hostNowFields ms in
    utcMsFromFields (tf_year2 f) (tf_doy f) (tf_hour f) (tf_minute f) = ms div 1000 div 60 * 60 * 1000
    \<and> 0 \<le> tf_minute f \<and> tf_minute f \<le> 59 \<and> 0 \<le> tf_hour f \<and> tf_hour f \<le> 23
    \<and> 1 \<le> tf_doy f \<and> tf_doy f \<le> (if leap_year y then 366 else 365) \<and> tf_year2 f = y - 2000"
proof -
  obtain D H M S where s: "ms div 1000 = 86400 * D + (3600 * H + (60 * M + S))"
    and r: "0 \<le> H" "H < 24" "0 \<le> M" "M < 60" "0 \<le> S" "S < 60"
    and cd: "civil_date y m d" and dz: "daysFromCivil y m d = D"
    and f: "hostNowFields ms = \<lparr>tf_minute = M, tf_hour = H, tf_doy = D - daysFromCivil y 1 1 + 1, tf_year2 = y - 2000\<rparr>"
    by (rule hostNowFields_parts[OF assms])
  have m: "ms div 1000 div 60 = 1440 * D + 60 * H + M" unfolding s by (rule hms_parts[OF r])
  have "1 \<le> D - daysFromCivil y 1 1 + 1" "D - daysFromCivil y 1 1 + 1 \<le> (if leap_year y then 366 else 365)"
    using day_of_year[OF cd] unfolding dz by (simp_all split: if_splits)
  then show ?thesis using r unfolding Let_def f m by (simp add: utcMsFromFields_def)
qed

theorem hostNowFields_roundtrip_witness:
  "let f = hostNowFields 1782820859999 in
    utcMsFromFields (tf_year2 f) (tf_doy f) (tf_hour f) (tf_minute f)
      = 1782820859999 div 1000 div 60 * 60 * 1000
    \<and> 0 \<le> tf_minute f \<and> tf_minute f \<le> 59 \<and> 0 \<le> tf_hour f \<and> tf_hour f \<le> 23
    \<and> 1 \<le> tf_doy f \<and> tf_doy f \<le> (if leap_year 2026 then 366 else 365) \<and> tf_year2 f = 2026 - 2000"
proof (rule hostNowFields_roundtrip)
  show "day_range (floorDiv (floorDiv 1782820859999 1000) 86400)" by code_simp
  show "civilFromDays (floorDiv (floorDiv 1782820859999 1000) 86400) = (2026, 6, 30)" by code_simp
qed simp_all

section \<open>ISO 8601 text\<close>

text \<open>A reader of the fixed layout \<^verbatim>\<open>YYYY-MM-DDThh:mm:ssZ\<close>, to state what the text carries.\<close>

definition parse_iso :: "string \<Rightarrow> int" where
  "parse_iso s =
     (let field = (\<lambda>i n. int (dec_value (take n (drop i s))))
      in daysFromCivil (field 0 4) (field 5 2) (field 8 2) * 86400
         + field 11 2 * 3600 + field 14 2 * 60 + field 17 2)"

lemma fmt_d_length: "0 \<le> x \<Longrightarrow> x < 10 ^ Suc k \<Longrightarrow> length (fmt_d (Suc k) x) = Suc k"
proof -
  assume x: "0 \<le> x" "x < 10 ^ Suc k"
  have "int (nat x) < int (10 ^ Suc k)" using x by simp
  then have "nat x < 10 ^ Suc k" by linarith
  then have "length (dec_digits (nat x)) \<le> Suc k" by (rule dec_digits_length)
  with x show ?thesis by (simp add: fmt_d_def length_zero_pad)
qed

lemma fmt_d_value: "0 \<le> x \<Longrightarrow> int (dec_value (fmt_d w x)) = x"
  by (simp add: fmt_d_def dec_value_zero_pad)

lemma parse_iso_fmt:
  assumes "0 \<le> y" "y \<le> 9999" "0 \<le> mo" "mo \<le> 99" "0 \<le> d" "d \<le> 99" "0 \<le> h" "h \<le> 99"
    "0 \<le> mi" "mi \<le> 99" "0 \<le> s" "s \<le> 99"
  shows "parse_iso (fmt_d 4 y @ ''-'' @ fmt_d 2 mo @ ''-'' @ fmt_d 2 d @ ''T'' @
         fmt_d 2 h @ '':'' @ fmt_d 2 mi @ '':'' @ fmt_d 2 s @ ''Z'')
    = daysFromCivil y mo d * 86400 + h * 3600 + mi * 60 + s"
proof -
  have l: "length (fmt_d 4 y) = 4" "length (fmt_d 2 mo) = 2" "length (fmt_d 2 d) = 2"
    "length (fmt_d 2 h) = 2" "length (fmt_d 2 mi) = 2" "length (fmt_d 2 s) = 2"
    using fmt_d_length[of y 3] fmt_d_length[of mo 1] fmt_d_length[of d 1] fmt_d_length[of h 1]
      fmt_d_length[of mi 1] fmt_d_length[of s 1] assms by (simp_all add: numeral_eq_Suc)
  have v: "int (dec_value (fmt_d 4 y)) = y" "int (dec_value (fmt_d 2 mo)) = mo" "int (dec_value (fmt_d 2 d)) = d"
    "int (dec_value (fmt_d 2 h)) = h" "int (dec_value (fmt_d 2 mi)) = mi" "int (dec_value (fmt_d 2 s)) = s"
    using assms fmt_d_value by simp_all
  show ?thesis by (simp add: parse_iso_def Let_def l v)
qed

text \<open>
  ISO text is faithful: for every instant of years 0 to 9999, reading the printed fields
  back yields the instant rounded down to the second.
\<close>

theorem iso8601_roundtrip:
  assumes "day_range (floorDiv (floorDiv ms 1000) 86400)"
    and "civilFromDays (floorDiv (floorDiv ms 1000) 86400) = (y, m, d)" "0 \<le> y" "y \<le> 9999"
  shows "parse_iso (iso8601 ms) = ms div 1000"
proof -
  obtain D H M S where s: "ms div 1000 = 86400 * D + (3600 * H + (60 * M + S))"
    and r: "0 \<le> H" "H < 24" "0 \<le> M" "M < 60" "0 \<le> S" "S < 60" by (rule hms_split)
  note p = hms_parts[OF r]
  have sec: "floorDiv ms 1000 = 86400 * D + (3600 * H + (60 * M + S))" using s by (simp add: floorDiv_eq_div)
  have days: "floorDiv (86400 * D + (3600 * H + (60 * M + S))) 86400 = D"
    using p(1) by (simp add: floorDiv_eq_div)
  have rem: "floorMod (86400 * D + (3600 * H + (60 * M + S))) 86400 = 3600 * H + (60 * M + S)"
    using p(2) by (simp add: floorMod_eq_mod)
  have c: "civilFromDays D = (y, m, d)" using assms(2) unfolding sec days .
  have cd: "civil_date y m d" and dz: "daysFromCivil y m d = D"
    using civilFromDays_decompose[OF assms(1)] assms(2) days unfolding sec by (metis prod.inject)+
  have i: "i32 H = H" "i32 M = M" "i32 S = S" using r by (simp_all add: i32_id)
  have b: "0 \<le> m" "m \<le> 99" "0 \<le> d" "d \<le> 99" "H \<le> 99" "M \<le> 99" "S \<le> 99"
    using cd r month_length_le[of y m] by (auto simp: civil_date_def split: if_splits)
  have "parse_iso (iso8601 ms) = daysFromCivil y m d * 86400 + H * 3600 + M * 60 + S"
    unfolding iso8601_def Let_def sec days rem c prod.case p(3,4,5,6) i
    by (rule parse_iso_fmt[OF assms(3,4) b(1-4) r(1) b(5) r(3) b(6) r(5) b(7)])
  then show ?thesis unfolding dz s by simp
qed

theorem iso8601_roundtrip_witness: "parse_iso (iso8601 1782820859999) = 1782820859999 div 1000"
proof (rule iso8601_roundtrip)
  show "day_range (floorDiv (floorDiv 1782820859999 1000) 86400)" by code_simp
  show "civilFromDays (floorDiv (floorDiv 1782820859999 1000) 86400) = (2026, 6, 30)" by code_simp
qed simp_all

end
