(* ===== verification/Ip_Prefix.thy ===== *)
theory Ip_Prefix
  imports Ntp_Prelude
begin

unbundle bit_operations_syntax

text \<open>
  Addresses and prefixes of \<^verbatim>\<open>src/src/IpPrefix.h\<close>. An address is a family and
  sixteen octets, IPv4 in the first four. \<^verbatim>\<open>inet_pton\<close> and \<^verbatim>\<open>inet_ntop\<close> are the
  C library's and are parameters, collected in the record \<open>inet\<close>; what the code
  relies on of them is \<open>inet_ok\<close>.

  The results: masking keeps exactly the leading bits of an address, a prefix
  contains exactly the addresses that agree with it on those bits, parsing yields
  a normalised prefix whose length fits its family, and the label shown for a
  public address depends on its network only.
\<close>

section \<open>Addresses\<close>

datatype family = AF_NONE | AF_INET | AF_INET6

record IpAddr =
  ip_family :: family
  ip_b :: "octet list"

text \<open>\<^verbatim>\<open>sockaddr_storage\<close>, by the family it carries; \<open>SaOther\<close> is any other family.\<close>

datatype sockaddr = Sin "octet list" | Sin6 "octet list" | SaOther

definition addr_bits :: "IpAddr \<Rightarrow> int" where
  "addr_bits a = (if ip_family a = AF_INET then 32 else 128)"

definition zero16 :: "octet list" where
  "zero16 = replicate 16 0"

text \<open>\<^verbatim>\<open>IN6_IS_ADDR_V4MAPPED\<close>: ten zero octets, then two of all ones.\<close>

definition v4_mapped :: "octet list \<Rightarrow> bool" where
  "v4_mapped b \<longleftrightarrow> take 10 b = replicate 10 0 \<and> take 2 (drop 10 b) = [255, 255]"

text \<open>\<^verbatim>\<open>memcpy\<close> over the front of the sixteen octets.\<close>

definition overlay :: "octet list \<Rightarrow> octet list \<Rightarrow> octet list" where
  "overlay src dst = src @ drop (length src) dst"

fun ipAddrOf :: "sockaddr \<Rightarrow> IpAddr" where
  "ipAddrOf (Sin b) = \<lparr>ip_family = AF_INET, ip_b = overlay (take 4 b) zero16\<rparr>"
| "ipAddrOf (Sin6 b) =
     (if v4_mapped b then \<lparr>ip_family = AF_INET, ip_b = overlay (take 4 (drop 12 b)) zero16\<rparr>
      else \<lparr>ip_family = AF_INET6, ip_b = overlay (take 16 b) zero16\<rparr>)"
| "ipAddrOf SaOther = \<lparr>ip_family = AF_NONE, ip_b = zero16\<rparr>"

definition mask_octet :: "int \<Rightarrow> octet \<Rightarrow> octet" where
  "mask_octet keep v =
     (if 8 \<le> keep then v else v AND (if keep \<le> 0 then 0 else push_bit (nat (8 - keep)) 255))"

definition masked :: "IpAddr \<Rightarrow> int \<Rightarrow> IpAddr" where
  "masked a len =
     a\<lparr>ip_b := map (\<lambda>i. mask_octet (len - 8 * int i) (ip_b a ! i)) [0..<16]\<rparr>"

section \<open>Prefixes\<close>

record IpPrefix =
  px_net :: IpAddr
  px_len :: int

definition contains :: "IpPrefix \<Rightarrow> IpAddr \<Rightarrow> bool" where
  "contains p a \<longleftrightarrow>
     ip_family a = ip_family (px_net p) \<and> ip_b (masked a (px_len p)) = ip_b (px_net p)"

text \<open>
  \<^verbatim>\<open>inet_pton\<close> returns the octets on success; \<^verbatim>\<open>inet_ntop\<close> prints the leading
  octets of the family.
\<close>

record inet =
  inet_pton4 :: "string \<Rightarrow> octet list option"
  inet_pton6 :: "string \<Rightarrow> octet list option"
  inet_ntop4 :: "octet list \<Rightarrow> string"
  inet_ntop6 :: "octet list \<Rightarrow> string"

definition is_digit :: "char \<Rightarrow> bool" where
  "is_digit c \<longleftrightarrow> c \<in> set ''0123456789''"

definition parse_host :: "inet \<Rightarrow> string \<Rightarrow> IpAddr option" where
  "parse_host inet host =
     (case inet_pton4 inet host of
        Some b \<Rightarrow> Some \<lparr>ip_family = AF_INET, ip_b = overlay b zero16\<rparr>
      | None \<Rightarrow>
          (case inet_pton6 inet host of
             Some b \<Rightarrow> Some \<lparr>ip_family = AF_INET6, ip_b = overlay b zero16\<rparr>
           | None \<Rightarrow> None))"

text \<open>The length after the slash: at most three digits, and no more than the family has bits.\<close>

definition parse_len :: "int \<Rightarrow> string \<Rightarrow> int option" where
  "parse_len bits rest =
     (if rest = [] then Some bits
      else
        let n = tl rest;
            len = int (dec_value n)
        in if n = [] \<or> 3 < length n \<or> \<not> list_all is_digit n then None
           else if bits < len then None
           else Some len)"

definition parse_prefix :: "inet \<Rightarrow> string \<Rightarrow> IpPrefix option" where
  "parse_prefix inet text =
     (case parse_host inet (takeWhile (\<lambda>c. c \<noteq> CHR ''/'') text) of
        None \<Rightarrow> None
      | Some a \<Rightarrow>
          (case parse_len (addr_bits a) (dropWhile (\<lambda>c. c \<noteq> CHR ''/'') text) of
             None \<Rightarrow> None
           | Some len \<Rightarrow> Some \<lparr>px_net = masked a len, px_len = len\<rparr>))"

definition private_texts :: "string list" where
  "private_texts =
     [''10.0.0.0/8'', ''172.16.0.0/12'', ''192.168.0.0/16'', ''127.0.0.0/8'', ''169.254.0.0/16'',
      ''::1'', ''fc00::/7'', ''fe80::/10'']"

text \<open>A prefix that fails to parse is left default-constructed: family 0, length 0.\<close>

definition default_prefix :: IpPrefix where
  "default_prefix = \<lparr>px_net = \<lparr>ip_family = AF_NONE, ip_b = zero16\<rparr>, px_len = 0\<rparr>"

definition isPrivate :: "inet \<Rightarrow> IpAddr \<Rightarrow> bool" where
  "isPrivate inet a =
     list_ex (\<lambda>t. contains (case parse_prefix inet t of Some p \<Rightarrow> p | None \<Rightarrow> default_prefix) a)
       private_texts"

definition publicLabel :: "inet \<Rightarrow> IpAddr \<Rightarrow> string" where
  "publicLabel inet a =
     (case ip_family a of
        AF_INET \<Rightarrow>
          (if isPrivate inet a then inet_ntop4 inet (take 4 (ip_b a))
           else dec_digits (unat (ip_b a ! 0)) @ ''.'' @ dec_digits (unat (ip_b a ! 1)) @ ''.'' @
                dec_digits (unat (ip_b a ! 2)) @ ''.x'')
      | AF_INET6 \<Rightarrow>
          (if isPrivate inet a then inet_ntop6 inet (ip_b a)
           else inet_ntop6 inet (ip_b (masked a 64)) @ ''/64'')
      | AF_NONE \<Rightarrow> ''?'')"

section \<open>Masking\<close>

definition addr_wf :: "IpAddr \<Rightarrow> bool" where
  "addr_wf a \<longleftrightarrow> length (ip_b a) = 16"

text \<open>Bit \<open>k\<close> of an address, counted from the most significant bit of the first octet.\<close>

definition addr_bit :: "IpAddr \<Rightarrow> nat \<Rightarrow> bool" where
  "addr_bit a k = bit (ip_b a ! (k div 8)) (7 - k mod 8)"

lemma length_masked [simp]: "length (ip_b (masked a len)) = 16"
  by (simp add: masked_def)

lemma family_masked [simp]: "ip_family (masked a len) = ip_family a"
  by (simp add: masked_def)

lemma masked_wf [simp]: "addr_wf (masked a len)"
  by (simp add: addr_wf_def)

lemma ipAddrOf_wf: "addr_wf (ipAddrOf sa)"
  by (cases sa) (auto simp: addr_wf_def overlay_def zero16_def)

lemma bit_ones8: "bit (push_bit n (255::octet)) j \<longleftrightarrow> n \<le> j \<and> j < 8"
proof -
  have m: "(255::octet) = mask 8" by (simp add: mask_eq_exp_minus_1)
  show ?thesis unfolding m by (auto simp: bit_push_bit_iff bit_mask_iff simp del: mask_numeral)
qed

lemma bit_mask_octet:
  "j < 8 \<Longrightarrow> bit (mask_octet keep v) j \<longleftrightarrow> bit v j \<and> 7 - int j < keep"
  by (auto simp: mask_octet_def bit_and_iff bit_ones8)

lemma addr_bit_masked: "k < 128 \<Longrightarrow> addr_bit (masked a len) k \<longleftrightarrow> addr_bit a k \<and> int k < len"
proof -
  assume k: "k < 128"
  then have i: "k div 8 < 16" by auto
  have j: "7 - k mod 8 < 8" by simp
  have k': "int k = 8 * int (k div 8) + int (k mod 8)" by (metis mult_div_mod_eq of_nat_add of_nat_mult of_nat_numeral)
  have "7 - int (7 - k mod 8) = int (k mod 8)" by auto
  then show ?thesis
    using i j k' by (auto simp: addr_bit_def masked_def bit_mask_octet)
qed

lemma addr_eq_bits:
  assumes "length xs = 16" "length ys = 16"
    and "\<And>k. k < 128 \<Longrightarrow> bit (xs ! (k div 8) :: octet) (7 - k mod 8) = bit (ys ! (k div 8)) (7 - k mod 8)"
  shows "xs = ys"
proof (rule nth_equalityI)
  show "length xs = length ys" using assms by simp
  fix i assume i: "i < length xs"
  show "xs ! i = ys ! i"
  proof (rule bit_word_eqI)
    fix j assume "j < LENGTH(8)"
    then have j: "j < 8" by simp
    define r k where "r = 7 - j" and "k = 8 * i + r"
    have "r < 8" "7 - r = j" using j by (auto simp: r_def)
    then have "k div 8 = i" "7 - k mod 8 = j" "k < 128" using i assms by (auto simp: k_def)
    then show "bit (xs ! i) j = bit (ys ! i) j" using assms(3)[of k] by simp
  qed
qed

lemma addr_eqI:
  assumes "addr_wf a" "addr_wf b" "ip_family a = ip_family b"
    and "\<And>k. k < 128 \<Longrightarrow> addr_bit a k = addr_bit b k"
  shows "a = b"
  using assms addr_eq_bits[of "ip_b a" "ip_b b"]
  by (simp add: addr_wf_def addr_bit_def)

lemma masked_masked: "masked (masked a l) k = masked a (min l k)"
  by (rule addr_eqI) (auto simp: addr_bit_masked)

lemma masked_all: "addr_wf a \<Longrightarrow> 128 \<le> len \<Longrightarrow> masked a len = a"
  by (rule addr_eqI) (auto simp: addr_bit_masked)

text \<open>
  A prefix is normalised when its network carries no bits past its length; every prefix the
  parser makes is.
\<close>

definition prefix_wf :: "IpPrefix \<Rightarrow> bool" where
  "prefix_wf p \<longleftrightarrow> addr_wf (px_net p) \<and> masked (px_net p) (px_len p) = px_net p
     \<and> 0 \<le> px_len p \<and> px_len p \<le> addr_bits (px_net p) \<and> ip_family (px_net p) \<noteq> AF_NONE"

text \<open>
  Prefix membership is agreement on the leading bits: a normalised prefix contains an
  address exactly when the families match and the address agrees with the network on each of
  the first \<open>len\<close> bits.
\<close>

theorem contains_iff_leading_bits:
  assumes "prefix_wf p" "addr_wf a"
  shows "contains p a \<longleftrightarrow> ip_family a = ip_family (px_net p) \<and>
    (\<forall>k < nat (px_len p). addr_bit a k = addr_bit (px_net p) k)"
proof -
  from assms(1) have wf: "addr_wf (px_net p)" "masked (px_net p) (px_len p) = px_net p"
    and len: "0 \<le> px_len p" "px_len p \<le> 128"
    by (auto simp: prefix_wf_def addr_bits_def split: if_splits)
  have eq: "ip_b (masked a (px_len p)) = ip_b (px_net p) \<longleftrightarrow>
      (\<forall>k < 128. addr_bit (masked a (px_len p)) k = addr_bit (masked (px_net p) (px_len p)) k)"
  proof
    assume "ip_b (masked a (px_len p)) = ip_b (px_net p)"
    then show "\<forall>k < 128. addr_bit (masked a (px_len p)) k = addr_bit (masked (px_net p) (px_len p)) k"
      using wf by (simp add: addr_bit_def)
  next
    assume "\<forall>k < 128. addr_bit (masked a (px_len p)) k = addr_bit (masked (px_net p) (px_len p)) k"
    then show "ip_b (masked a (px_len p)) = ip_b (px_net p)"
      using wf addr_eq_bits[of "ip_b (masked a (px_len p))" "ip_b (px_net p)"]
      by (simp add: addr_bit_def addr_wf_def)
  qed
  have lt: "k < nat (px_len p) \<longleftrightarrow> int k < px_len p \<and> k < 128" for k using len by auto
  show ?thesis
    unfolding contains_def eq lt by (auto simp: addr_bit_masked)
qed

section \<open>Parsing\<close>

text \<open>What is relied on of \<^verbatim>\<open>inet_pton\<close>: it yields the octets of its family.\<close>

definition inet_ok :: "inet \<Rightarrow> bool" where
  "inet_ok inet \<longleftrightarrow>
     (\<forall>s b. inet_pton4 inet s = Some b \<longrightarrow> length b = 4) \<and>
     (\<forall>s b. inet_pton6 inet s = Some b \<longrightarrow> length b = 16)"

lemma overlay_wf: "length b \<le> 16 \<Longrightarrow> length (overlay b zero16) = 16"
  by (simp add: overlay_def zero16_def)

lemma parse_host_wf:
  "inet_ok inet \<Longrightarrow> parse_host inet host = Some a \<Longrightarrow> addr_wf a \<and> ip_family a \<noteq> AF_NONE"
  by (auto simp: parse_host_def inet_ok_def addr_wf_def overlay_wf split: option.splits)

lemma addr_bits_nonneg [simp]: "0 \<le> addr_bits a"
  by (simp add: addr_bits_def)

lemma parse_len_range: "0 \<le> bits \<Longrightarrow> parse_len bits rest = Some len \<Longrightarrow> 0 \<le> len \<and> len \<le> bits"
  unfolding parse_len_def Let_def by (simp split: if_splits)

text \<open>
  C40: Whatever text is accepted as a prefix, the result is normalised (no bits past its
  length), its length fits its family, and it contains its own network address.
\<close>

theorem parse_prefix_sound:
  assumes "inet_ok inet" and "parse_prefix inet text = Some p"
  shows "prefix_wf p \<and> contains p (px_net p)"
proof -
  from assms(2) obtain a where a: "parse_host inet (takeWhile (\<lambda>c. c \<noteq> CHR ''/'') text) = Some a"
    and len: "parse_len (addr_bits a) (dropWhile (\<lambda>c. c \<noteq> CHR ''/'') text) = Some (px_len p)"
    and p: "px_net p = masked a (px_len p)"
    by (auto simp: parse_prefix_def split: option.splits)
  note p = p parse_len_range[OF addr_bits_nonneg len]
  from parse_host_wf[OF assms(1) a] have "prefix_wf p"
    using p by (simp add: prefix_wf_def masked_masked addr_bits_def)
  moreover have "contains p (px_net p)" using p by (simp add: contains_def masked_masked)
  ultimately show ?thesis ..
qed

text \<open>
  A concrete reading of four dotted octets and of the one IPv6 literal the witnesses need.
\<close>

definition demo_inet :: inet where
  "demo_inet = \<lparr>
     inet_pton4 = (\<lambda>s. if s = ''10.0.0.0'' then Some [10, 0, 0, 0]
                       else if s = ''172.16.0.0'' then Some [172, 16, 0, 0]
                       else if s = ''192.168.0.0'' then Some [192, 168, 0, 0]
                       else if s = ''127.0.0.0'' then Some [127, 0, 0, 0]
                       else if s = ''169.254.0.0'' then Some [169, 254, 0, 0] else None),
     inet_pton6 = (\<lambda>s. if s = ''::1'' then Some (replicate 15 0 @ [1])
                       else if s = ''fc00::'' then Some (252 # replicate 15 0)
                       else if s = ''fe80::'' then Some (254 # 128 # replicate 14 0) else None),
     inet_ntop4 = (\<lambda>b. concat (map (\<lambda>v. dec_digits (unat v) @ ''.'') b)),
     inet_ntop6 = (\<lambda>b. concat (map (\<lambda>v. dec_digits (unat v) @ '':'') b))\<rparr>"

lemma demo_inet_ok: "inet_ok demo_inet"
  by (auto simp: inet_ok_def demo_inet_def split: if_splits)

theorem parse_prefix_sound_witness:
  "\<exists>p. parse_prefix demo_inet ''172.16.0.0/12'' = Some p \<and> prefix_wf p \<and> contains p (px_net p)"
proof -
  obtain p where p: "parse_prefix demo_inet ''172.16.0.0/12'' = Some p"
    by (simp add: parse_prefix_def parse_len_def parse_host_def demo_inet_def addr_bits_def is_digit_def)
  show ?thesis using parse_prefix_sound[OF demo_inet_ok p] p by blast
qed

theorem contains_iff_leading_bits_witness:
  "contains \<lparr>px_net = \<lparr>ip_family = AF_INET, ip_b = 10 # replicate 15 0\<rparr>, px_len = 8\<rparr>
     \<lparr>ip_family = AF_INET, ip_b = 10 # 1 # replicate 14 0\<rparr>
   \<longleftrightarrow> AF_INET = AF_INET \<and>
     (\<forall>k < 8. addr_bit \<lparr>ip_family = AF_INET, ip_b = 10 # 1 # replicate 14 0\<rparr> k
        = addr_bit \<lparr>ip_family = AF_INET, ip_b = 10 # replicate 15 0\<rparr> k)"
proof -
  have "prefix_wf \<lparr>px_net = \<lparr>ip_family = AF_INET, ip_b = 10 # replicate 15 0\<rparr>, px_len = 8\<rparr>"
    by code_simp
  then show ?thesis
    using contains_iff_leading_bits[of
        "\<lparr>px_net = \<lparr>ip_family = AF_INET, ip_b = 10 # replicate 15 0\<rparr>, px_len = 8\<rparr>"
        "\<lparr>ip_family = AF_INET, ip_b = 10 # 1 # replicate 14 0\<rparr>"]
    by (simp add: addr_wf_def)
qed

section \<open>What a label discloses\<close>

lemma dec_digits_no_dot: "CHR ''.'' \<notin> set (dec_digits n)"
proof (induction n rule: dec_digits.induct)
  case (1 n)
  have dot: "CHR ''.'' \<noteq> char_of (48 + m :: nat)" if "m < 10" for m
  proof
    assume "CHR ''.'' = char_of (48 + m)"
    then have "of_char (CHR ''.'') = (of_char (char_of (48 + m) :: char) :: nat)" by simp
    with that show False by simp
  qed
  show ?case using 1 dot by (subst dec_digits.simps) auto
qed

lemma dec_digits_inj: "dec_digits m = dec_digits n \<longleftrightarrow> m = n"
  by (metis dec_value_digits)

lemma dotted_inject:
  assumes "dec_digits a @ ''.'' @ s = dec_digits b @ ''.'' @ t"
  shows "a = b \<and> s = t"
proof -
  have "takeWhile (\<lambda>c. c \<noteq> CHR ''.'') (dec_digits a @ CHR ''.'' # s) = dec_digits a" for a s
    using dec_digits_no_dot[of a] by (subst takeWhile_append2) auto
  with assms have "dec_digits a = dec_digits b" by (metis append_Cons append_Nil)
  with assms show ?thesis by (simp add: dec_digits_inj)
qed

text \<open>
  A member of the public is shown by network only: two public IPv4 addresses get the same
  label exactly when they share their first three octets, so a label never tells hosts of
  one /24 apart and always tells different /24s apart.
\<close>

theorem publicLabel_is_network:
  assumes "ip_family a = AF_INET" "ip_family b = AF_INET" "\<not> isPrivate inet a" "\<not> isPrivate inet b"
  shows "publicLabel inet a = publicLabel inet b \<longleftrightarrow> (\<forall>i < 3. ip_b a ! i = ip_b b ! i)"
proof
  assume "publicLabel inet a = publicLabel inet b"
  then have "dec_digits (unat (ip_b a ! 0)) @ ''.'' @ dec_digits (unat (ip_b a ! 1)) @ ''.'' @
        dec_digits (unat (ip_b a ! 2)) @ ''.'' @ ''x'' =
      dec_digits (unat (ip_b b ! 0)) @ ''.'' @ dec_digits (unat (ip_b b ! 1)) @ ''.'' @
        dec_digits (unat (ip_b b ! 2)) @ ''.'' @ ''x''"
    using assms by (simp add: publicLabel_def)
  then have "unat (ip_b a ! 0) = unat (ip_b b ! 0)" "unat (ip_b a ! 1) = unat (ip_b b ! 1)"
    "unat (ip_b a ! 2) = unat (ip_b b ! 2)" by (metis dotted_inject)+
  then show "\<forall>i < 3. ip_b a ! i = ip_b b ! i"
    by (auto simp: numeral_3_eq_3 less_Suc_eq numeral_2_eq_2 word_unat_eq_iff)
next
  assume "\<forall>i < 3. ip_b a ! i = ip_b b ! i"
  then show "publicLabel inet a = publicLabel inet b" using assms by (simp add: publicLabel_def)
qed

theorem publicLabel_is_network_witness:
  "publicLabel demo_inet \<lparr>ip_family = AF_INET, ip_b = 8 # 8 # 4 # 4 # replicate 12 0\<rparr>
    = publicLabel demo_inet \<lparr>ip_family = AF_INET, ip_b = 8 # 8 # 4 # 9 # replicate 12 0\<rparr>
   \<longleftrightarrow> (\<forall>i < 3. (8 # 8 # 4 # 4 # replicate 12 (0::octet)) ! i = (8 # 8 # 4 # 9 # replicate 12 0) ! i)"
proof -
  have p: "\<not> isPrivate demo_inet \<lparr>ip_family = AF_INET, ip_b = 8 # 8 # 4 # 4 # replicate 12 0\<rparr>"
    by code_simp
  have q: "\<not> isPrivate demo_inet \<lparr>ip_family = AF_INET, ip_b = 8 # 8 # 4 # 9 # replicate 12 0\<rparr>"
    by code_simp
  show ?thesis
    using publicLabel_is_network[OF _ _ p q] by simp
qed

end
