(* ===== verification/Capped_Table.thy ===== *)
theory Capped_Table
  imports Ntp_Prelude
begin

text \<open>
  Tables keyed by client that a flood of spoofed addresses could grow. The
  \<^verbatim>\<open>unordered_map\<close>s of \<^verbatim>\<open>RateLimiter\<close> and \<^verbatim>\<open>ClientTally\<close> are association lists
  with distinct keys: the iteration order of the sources' loops does not matter
  to what they do. The interface \<open>capped_table\<close> states what both promise: the
  operation that handles one request keeps the table well formed and within its
  cap. Its clients conclude that no sequence of requests exceeds the cap.
\<close>

type_synonym ('k, 'v) table = "('k \<times> 'v) list"

definition table_wf :: "('k, 'v) table \<Rightarrow> bool" where
  "table_wf t \<longleftrightarrow> distinct (map fst t)"

text \<open>Overwriting the value of a key that is present.\<close>

definition table_put :: "'k \<Rightarrow> 'v \<Rightarrow> ('k, 'v) table \<Rightarrow> ('k, 'v) table" where
  "table_put k v t = map (\<lambda>(k', v'). if k' = k then (k', v) else (k', v')) t"

text \<open>The erase loop \<^verbatim>\<open>for (it ...) if (gone) it = erase(it); else ++it;\<close>.\<close>

definition table_sweep :: "('v \<Rightarrow> bool) \<Rightarrow> ('k, 'v) table \<Rightarrow> ('k, 'v) table" where
  "table_sweep gone t = filter (\<lambda>(k, v). \<not> gone v) t"

lemma keys_table_put [simp]: "map fst (table_put k v t) = map fst t"
  by (induction t) (auto simp: table_put_def)

lemma length_table_put [simp]: "length (table_put k v t) = length t"
  by (simp add: table_put_def)

lemma table_put_wf [simp]: "table_wf (table_put k v t) = table_wf t"
  by (simp add: table_wf_def)

lemma lookup_table_put:
  "map_of (table_put k v t) k' = (if k' = k \<and> map_of t k \<noteq> None then Some v else map_of t k')"
  by (induction t) (auto simp: table_put_def)

lemma table_sweep_wf [simp]: "table_wf t \<Longrightarrow> table_wf (table_sweep gone t)"
  by (auto simp: table_wf_def table_sweep_def distinct_map intro: inj_on_subset)

lemma length_table_sweep: "length (table_sweep gone t) \<le> length t"
  by (simp add: table_sweep_def)

lemma lookup_table_sweep:
  "table_wf t \<Longrightarrow> map_of (table_sweep gone t) k =
     (case map_of t k of None \<Rightarrow> None | Some v \<Rightarrow> if gone v then None else Some v)"
proof (induction t)
  case Nil
  then show ?case by (simp add: table_sweep_def)
next
  case (Cons kv t)
  obtain k' v' where kv: "kv = (k', v')" by (cases kv)
  have wf: "table_wf t" and k': "map_of t k' = None"
    using Cons.prems kv by (auto simp: table_wf_def map_of_eq_None_iff)
  note IH = Cons.IH[OF wf]
  show ?case using IH k' kv by (auto simp: table_sweep_def)
qed

lemma table_cons_wf: "table_wf t \<Longrightarrow> map_of t k = None \<Longrightarrow> table_wf ((k, v) # t)"
  by (auto simp: table_wf_def map_of_eq_None_iff)

lemma map_of_mem: "map_of t k = Some v \<Longrightarrow> v \<in> snd ` set t"
  by (metis imageI map_of_SomeD snd_conv)

section \<open>The interface\<close>

locale capped_table =
  fixes tbl :: "'s \<Rightarrow> ('k, 'v) table"
    and handle :: "'req \<Rightarrow> 's \<Rightarrow> 's"
    and cap :: nat
  assumes handle_wf: "table_wf (tbl s) \<Longrightarrow> table_wf (tbl (handle r s))"
    and handle_cap: "table_wf (tbl s) \<Longrightarrow> length (tbl s) \<le> cap \<Longrightarrow> length (tbl (handle r s)) \<le> cap"
begin

definition bounded :: "'s \<Rightarrow> bool" where
  "bounded s \<longleftrightarrow> table_wf (tbl s) \<and> length (tbl s) \<le> cap"

lemma bounded_handle: "bounded s \<Longrightarrow> bounded (handle r s)"
  by (simp add: bounded_def handle_wf handle_cap)

lemma bounded_run: "bounded s \<Longrightarrow> bounded (fold handle rs s)"
  by (induction rs arbitrary: s) (simp_all add: bounded_handle)

lemma run_cap:
  assumes "table_wf (tbl s)" "length (tbl s) \<le> cap"
  shows "length (tbl (fold handle rs s)) \<le> cap"
  using bounded_run[of s rs] assms by (simp add: bounded_def)

end

end
