(* ===== verification/Rate_Limiter.thy ===== *)
theory Rate_Limiter
  imports Ip_Prefix Capped_Table
begin

text \<open>
  Per-client response limiting, \<^verbatim>\<open>src/src/RateLimiter.h\<close> and \<^verbatim>\<open>RateLimiter.cpp\<close>: a
  token bucket per client, where a client is its address cut to the configured
  prefix. \<^verbatim>\<open>check\<close> takes the request's address, the monotonic time and the
  uniform draw the leak test would make, and returns the verdict with the new
  state. The time a kiss-o'-death was last sent is \<open>None\<close> for minus infinity.

  The results: the table never exceeds its cap; whatever requests other clients
  send and whenever the sweeps run, the answers one tracked client gets between
  two instants are at most the burst plus the elapsed time over the interval;
  kisses to one client are at least an interval and a second apart; exempt
  clients are always answered.
\<close>

section \<open>The operations\<close>

record RateLimitConfig =
  intervalSec :: real
  burst :: int
  kod :: bool
  leak :: real
  ipv4Prefix :: int
  ipv6Prefix :: int
  exempt :: "string list"

datatype RateVerdict = Answer | Leak | Kod | Drop

record Bucket =
  tokens :: real
  bk_at :: real
  kodAt :: "real option"

type_synonym rl_key = "octet list"

record RateLimiter =
  rl_cfg :: RateLimitConfig
  rl_exempt :: "IpPrefix list"
  rl_buckets :: "(rl_key, Bucket) table"
  rl_lastSweep :: real

definition kMaxBuckets :: nat where
  "kMaxBuckets = 100000"

definition mk_RateLimiter :: "inet \<Rightarrow> RateLimitConfig \<Rightarrow> RateLimiter" where
  "mk_RateLimiter inet cfg =
     \<lparr>rl_cfg = cfg,
      rl_exempt = List.map_filter (parse_prefix inet) (exempt cfg),
      rl_buckets = [], rl_lastSweep = 0\<rparr>"

definition tracked :: "RateLimiter \<Rightarrow> nat" where
  "tracked rl = length (rl_buckets rl)"

definition client_key :: "RateLimitConfig \<Rightarrow> IpAddr \<Rightarrow> rl_key" where
  "client_key cfg addr =
     (let client = masked addr (if ip_family addr = AF_INET then ipv4Prefix cfg else ipv6Prefix cfg)
      in (if ip_family client = AF_INET then 4 else 6) # ip_b client)"

definition full_time :: "RateLimitConfig \<Rightarrow> real" where
  "full_time cfg = of_int (burst cfg) * intervalSec cfg"

text \<open>The sweep once a minute, before the lookup.\<close>

definition rl_minute_sweep :: "real \<Rightarrow> RateLimiter \<Rightarrow> RateLimiter" where
  "rl_minute_sweep now rl =
     (if now - rl_lastSweep rl > 60
      then rl\<lparr>rl_buckets := table_sweep (\<lambda>b. now - bk_at b > max 60 (full_time (rl_cfg rl))) (rl_buckets rl),
              rl_lastSweep := now\<rparr>
      else rl)"

text \<open>A client with no bucket: admitted, or answered untracked when the table is full.\<close>

definition rl_admit :: "rl_key \<Rightarrow> real \<Rightarrow> RateLimiter \<Rightarrow> RateVerdict \<times> RateLimiter" where
  "rl_admit key now rl =
     (let fresh = \<lparr>tokens = of_int (burst (rl_cfg rl)) - 1, bk_at = now, kodAt = None\<rparr>
      in if kMaxBuckets \<le> length (rl_buckets rl)
         then if now - rl_lastSweep rl < 1 then (Answer, rl)
              else
                let swept = rl\<lparr>rl_buckets := table_sweep (\<lambda>b. now - bk_at b > full_time (rl_cfg rl)) (rl_buckets rl),
                               rl_lastSweep := now\<rparr>
                in if kMaxBuckets \<le> length (rl_buckets swept) then (Answer, swept)
                   else (Answer, swept\<lparr>rl_buckets := (key, fresh) # rl_buckets swept\<rparr>)
         else (Answer, rl\<lparr>rl_buckets := (key, fresh) # rl_buckets rl\<rparr>))"

text \<open>A client with a bucket: refilled for the time passed, then spent from.\<close>

definition bucket_refill :: "RateLimitConfig \<Rightarrow> real \<Rightarrow> Bucket \<Rightarrow> Bucket" where
  "bucket_refill cfg now b =
     b\<lparr>tokens := min (of_int (burst cfg)) (tokens b + (now - bk_at b) / intervalSec cfg), bk_at := now\<rparr>"

definition bucket_spend :: "RateLimitConfig \<Rightarrow> real \<Rightarrow> real \<Rightarrow> Bucket \<Rightarrow> RateVerdict \<times> Bucket" where
  "bucket_spend cfg now draw b0 =
     (let b = bucket_refill cfg now b0
      in if 1 \<le> tokens b then (Answer, b\<lparr>tokens := tokens b - 1\<rparr>)
         else if 0 < leak cfg \<and> draw < leak cfg then (Leak, b)
         else if kod cfg \<and> (case kodAt b of None \<Rightarrow> True | Some t \<Rightarrow> max 1 (intervalSec cfg) \<le> now - t)
         then (Kod, b\<lparr>kodAt := Some now\<rparr>)
         else (Drop, b))"

definition check :: "sockaddr \<Rightarrow> real \<Rightarrow> real \<Rightarrow> RateLimiter \<Rightarrow> RateVerdict \<times> RateLimiter" where
  "check from now draw rl0 =
     (let cfg = rl_cfg rl0; addr = ipAddrOf from
      in if intervalSec cfg \<le> 0 then (Answer, rl0)
         else if ip_family addr = AF_NONE then (Answer, rl0)
         else if list_ex (\<lambda>p. contains p addr) (rl_exempt rl0) then (Answer, rl0)
         else
           let key = client_key cfg addr;
               rl = rl_minute_sweep now rl0
           in case map_of (rl_buckets rl) key of
                None \<Rightarrow> rl_admit key now rl
              | Some b0 \<Rightarrow>
                  (let (v, b) = bucket_spend cfg now draw b0
                   in (v, rl\<lparr>rl_buckets := table_put key b (rl_buckets rl)\<rparr>)))"

section \<open>The table\<close>

text \<open>A request as the server hands it over: the address, the time, the leak draw.\<close>

type_synonym rl_req = "sockaddr \<times> real \<times> real"

definition rl_handle :: "rl_req \<Rightarrow> RateLimiter \<Rightarrow> RateLimiter" where
  "rl_handle = (\<lambda>(from, now, draw) rl. snd (check from now draw rl))"

lemma minute_sweep_table:
  "table_wf (rl_buckets rl) \<Longrightarrow> table_wf (rl_buckets (rl_minute_sweep now rl))"
  "length (rl_buckets (rl_minute_sweep now rl)) \<le> length (rl_buckets rl)"
  by (auto simp: rl_minute_sweep_def length_table_sweep)

lemma admit_table:
  assumes "table_wf (rl_buckets rl)" "map_of (rl_buckets rl) key = None"
  shows "table_wf (rl_buckets (snd (rl_admit key now rl)))"
    and "length (rl_buckets rl) \<le> kMaxBuckets \<Longrightarrow>
      length (rl_buckets (snd (rl_admit key now rl))) \<le> kMaxBuckets"
proof -
  show "table_wf (rl_buckets (snd (rl_admit key now rl)))"
    using assms by (auto simp: rl_admit_def Let_def lookup_table_sweep intro!: table_cons_wf)
  assume len: "length (rl_buckets rl) \<le> kMaxBuckets"
  have "length (table_sweep g (rl_buckets rl)) \<le> kMaxBuckets" for g
    using length_table_sweep len by (rule order_trans)
  with len show "length (rl_buckets (snd (rl_admit key now rl))) \<le> kMaxBuckets"
    by (simp add: rl_admit_def Let_def)
qed

interpretation rate_table: capped_table rl_buckets rl_handle kMaxBuckets
proof
  fix s :: RateLimiter and r :: rl_req
  obtain from' now draw where r: "r = (from', now, draw)" by (cases r)
  let ?rl = "rl_minute_sweep now s"
  assume wf: "table_wf (rl_buckets s)"
  then have wf': "table_wf (rl_buckets ?rl)" by (rule minute_sweep_table)
  show "table_wf (rl_buckets (rl_handle r s))"
    using wf wf' admit_table(1)[OF wf']
    by (auto simp: r rl_handle_def check_def Let_def split: option.splits prod.splits)
  assume len: "length (rl_buckets s) \<le> kMaxBuckets"
  then have len': "length (rl_buckets ?rl) \<le> kMaxBuckets"
    using minute_sweep_table(2) order_trans by blast
  show "length (rl_buckets (rl_handle r s)) \<le> kMaxBuckets"
    using len len' admit_table(2)[OF wf' _ len']
    by (auto simp: r rl_handle_def check_def Let_def split: option.splits prod.splits)
qed

text \<open>
  The bucket table is bounded: from a fresh limiter, no sequence of requests from any
  addresses at any times makes it track more than \<open>kMaxBuckets\<close> clients.
\<close>

theorem tracked_bounded: "tracked (fold rl_handle reqs (mk_RateLimiter inet cfg)) \<le> kMaxBuckets"
  unfolding tracked_def
  by (rule rate_table.run_cap) (simp_all add: mk_RateLimiter_def table_wf_def)

section \<open>The rate a client is answered at\<close>

text \<open>The configuration \<^verbatim>\<open>Config::validate\<close> lets through when limiting is on.\<close>

definition cfg_limits :: "RateLimitConfig \<Rightarrow> bool" where
  "cfg_limits cfg \<longleftrightarrow> 0 < intervalSec cfg \<and> 1 \<le> burst cfg"

text \<open>The bucket a request is counted against; \<open>None\<close> when it is not limited at all.\<close>

definition request_key :: "RateLimiter \<Rightarrow> sockaddr \<Rightarrow> rl_key option" where
  "request_key rl from =
     (let addr = ipAddrOf from
      in if intervalSec (rl_cfg rl) \<le> 0 \<or> ip_family addr = AF_NONE
            \<or> list_ex (\<lambda>p. contains p addr) (rl_exempt rl)
         then None else Some (client_key (rl_cfg rl) addr))"

text \<open>What a client could spend at an instant: its refilled bucket, or a full one if it has none.\<close>

definition avail :: "RateLimiter \<Rightarrow> rl_key \<Rightarrow> real \<Rightarrow> real" where
  "avail rl k now =
     (case map_of (rl_buckets rl) k of
        None \<Rightarrow> of_int (burst (rl_cfg rl))
      | Some b \<Rightarrow> tokens (bucket_refill (rl_cfg rl) now b))"

definition bucket_ok :: "RateLimitConfig \<Rightarrow> real \<Rightarrow> Bucket \<Rightarrow> bool" where
  "bucket_ok cfg t b \<longleftrightarrow> 0 \<le> tokens b \<and> tokens b \<le> of_int (burst cfg) \<and> bk_at b \<le> t"

definition rl_inv :: "real \<Rightarrow> RateLimiter \<Rightarrow> bool" where
  "rl_inv t rl \<longleftrightarrow> table_wf (rl_buckets rl) \<and> (\<forall>kb \<in> set (rl_buckets rl). bucket_ok (rl_cfg rl) t (snd kb))"

lemma rl_inv_lookup:
  "rl_inv t rl \<Longrightarrow> map_of (rl_buckets rl) k = Some b \<Longrightarrow> bucket_ok (rl_cfg rl) t b"
  by (force simp: rl_inv_def dest: map_of_SomeD)

lemma rl_inv_mono: "rl_inv t rl \<Longrightarrow> t \<le> t' \<Longrightarrow> rl_inv t' rl"
  by (force simp: rl_inv_def bucket_ok_def)

lemma refill_bounds:
  assumes "cfg_limits cfg" "bucket_ok cfg t b" "t \<le> now"
  shows "bucket_ok cfg now (bucket_refill cfg now b)"
proof -
  have "0 \<le> (now - bk_at b) / intervalSec cfg" using assms by (simp add: cfg_limits_def bucket_ok_def)
  with assms show ?thesis by (auto simp: bucket_ok_def bucket_refill_def cfg_limits_def)
qed

text \<open>A bucket idle long enough to be swept has refilled, so forgetting it loses nothing.\<close>

lemma idle_is_full:
  assumes "cfg_limits cfg" "bucket_ok cfg t b" "now - bk_at b > full_time cfg"
  shows "tokens (bucket_refill cfg now b) = of_int (burst cfg)"
proof -
  have "of_int (burst cfg) < (now - bk_at b) / intervalSec cfg"
    using assms by (simp add: cfg_limits_def full_time_def pos_less_divide_eq)
  with assms show ?thesis by (simp add: bucket_refill_def bucket_ok_def)
qed

lemma avail_sweep:
  assumes "cfg_limits (rl_cfg rl)" "rl_inv t rl"
    and gone: "\<And>b. gone b \<Longrightarrow> now - bk_at b > full_time (rl_cfg rl)"
  shows "avail (rl\<lparr>rl_buckets := table_sweep gone (rl_buckets rl), rl_lastSweep := ls\<rparr>) k now = avail rl k now"
  using assms idle_is_full[OF assms(1) rl_inv_lookup[OF assms(2)] gone]
  by (auto simp: avail_def lookup_table_sweep rl_inv_def split: option.splits)

lemma rl_inv_sweep:
  "rl_inv t rl \<Longrightarrow> rl_inv t (rl\<lparr>rl_buckets := table_sweep gone (rl_buckets rl), rl_lastSweep := ls\<rparr>)"
  by (auto simp: rl_inv_def table_sweep_def table_wf_def distinct_map intro: inj_on_subset)

lemma minute_sweep_keeps:
  assumes "cfg_limits (rl_cfg rl)" "rl_inv t rl"
  shows "rl_inv t (rl_minute_sweep now rl)" "avail (rl_minute_sweep now rl) k now = avail rl k now"
    "rl_cfg (rl_minute_sweep now rl) = rl_cfg rl" "rl_exempt (rl_minute_sweep now rl) = rl_exempt rl"
  using assms by (auto simp: rl_minute_sweep_def rl_inv_sweep avail_sweep)

lemma spend_cases:
  assumes "bucket_spend cfg now draw b0 = (v, b)"
  shows "bk_at b = now" "tokens b = tokens (bucket_refill cfg now b0) - (if v = Answer then 1 else 0)"
    "v = Answer \<Longrightarrow> 1 \<le> tokens (bucket_refill cfg now b0)"
  using assms by (auto simp: bucket_spend_def Let_def bucket_refill_def split: if_splits)

lemma rl_inv_put:
  assumes "rl_inv t rl" "t \<le> now" "bucket_ok (rl_cfg rl) now b"
  shows "rl_inv now (rl\<lparr>rl_buckets := table_put k b (rl_buckets rl)\<rparr>)"
proof -
  have "table_wf (table_put k b (rl_buckets rl))" using assms(1) by (simp add: rl_inv_def)
  then show ?thesis
    using rl_inv_mono[OF assms(1,2)] assms(3) by (auto simp: rl_inv_def table_put_def)
qed

text \<open>Whether a check of a request from \<open>k\<close> spent one of its tokens.\<close>

definition spends :: "rl_key \<Rightarrow> sockaddr \<Rightarrow> real \<Rightarrow> real \<Rightarrow> RateLimiter \<Rightarrow> bool" where
  "spends k from now draw rl \<longleftrightarrow>
     request_key rl from = Some k \<and> fst (check from now draw rl) = Answer
     \<and> map_of (rl_buckets (snd (check from now draw rl))) k \<noteq> None"

lemma check_unlimited:
  "request_key rl from = None \<Longrightarrow> check from now draw rl = (Answer, rl)"
  by (auto simp: request_key_def check_def Let_def split: if_splits)

lemma check_limited:
  assumes "request_key rl0 from = Some key"
  shows "check from now draw rl0 =
    (let rl = rl_minute_sweep now rl0
     in case map_of (rl_buckets rl) key of
          None \<Rightarrow> rl_admit key now rl
        | Some b0 \<Rightarrow> (let (v, b) = bucket_spend (rl_cfg rl0) now draw b0
                     in (v, rl\<lparr>rl_buckets := table_put key b (rl_buckets rl)\<rparr>)))"
  using assms by (auto simp: request_key_def check_def Let_def split: if_splits)

lemma fresh_ok: "cfg_limits cfg \<Longrightarrow> bucket_ok cfg now \<lparr>tokens = of_int (burst cfg) - 1, bk_at = now, kodAt = None\<rparr>"
  by (simp add: cfg_limits_def bucket_ok_def)

lemma admit_step:
  assumes "cfg_limits (rl_cfg rl)" "rl_inv t rl" "t \<le> now" "map_of (rl_buckets rl) key = None"
    and r: "rl_admit key now rl = (v, rl')"
  shows "rl_inv now rl' \<and> rl_cfg rl' = rl_cfg rl \<and> rl_exempt rl' = rl_exempt rl \<and>
    avail rl' k now = avail rl k now - (if k = key \<and> map_of (rl_buckets rl') key \<noteq> None then 1 else 0)"
proof -
  define sw where "sw = rl\<lparr>rl_buckets := table_sweep (\<lambda>b. now - bk_at b > full_time (rl_cfg rl)) (rl_buckets rl),
      rl_lastSweep := now\<rparr>"
  have ins: "rl_inv now (x\<lparr>rl_buckets := (key, \<lparr>tokens = of_int (burst (rl_cfg rl)) - 1, bk_at = now, kodAt = None\<rparr>)
        # rl_buckets x\<rparr>)
      \<and> avail (x\<lparr>rl_buckets := (key, \<lparr>tokens = of_int (burst (rl_cfg rl)) - 1, bk_at = now, kodAt = None\<rparr>)
        # rl_buckets x\<rparr>) k now = avail x k now - (if k = key then 1 else 0)"
    if "rl_inv now x" "map_of (rl_buckets x) key = None" "rl_cfg x = rl_cfg rl" for x :: RateLimiter
    using that fresh_ok[OF assms(1), of now]
    by (auto simp: rl_inv_def avail_def bucket_refill_def intro: table_cons_wf split: option.splits)
  have inv: "rl_inv now rl" using assms(2,3) by (rule rl_inv_mono)
  have sw: "rl_inv now sw" "avail sw k now = avail rl k now" "rl_cfg sw = rl_cfg rl"
      "rl_exempt sw = rl_exempt rl" "map_of (rl_buckets sw) key = None"
    using rl_inv_sweep[OF inv] avail_sweep[OF assms(1,2)] assms(2,4)
    by (auto simp: sw_def lookup_table_sweep rl_inv_def)
  show ?thesis
    using r ins[OF sw(1,5,3)] ins[OF inv assms(4) refl] sw inv assms(4)
    unfolding rl_admit_def Let_def sw_def[symmetric] by (auto split: if_splits)
qed

lemma spend_step:
  assumes "cfg_limits (rl_cfg rl)" "rl_inv t rl" "t \<le> now" "map_of (rl_buckets rl) key = Some b0"
    and r: "bucket_spend (rl_cfg rl) now draw b0 = (v, b)"
  shows "rl_inv now (rl\<lparr>rl_buckets := table_put key b (rl_buckets rl)\<rparr>) \<and>
    avail (rl\<lparr>rl_buckets := table_put key b (rl_buckets rl)\<rparr>) k now
      = avail rl k now - (if k = key \<and> v = Answer then 1 else 0)"
proof -
  note ok = rl_inv_lookup[OF assms(2,4)]
  note rf = refill_bounds[OF assms(1) ok assms(3)]
  note sp = spend_cases[OF r]
  have "bucket_ok (rl_cfg rl) now b"
    using rf sp by (auto simp: bucket_ok_def split: if_splits)
  then have "rl_inv now (rl\<lparr>rl_buckets := table_put key b (rl_buckets rl)\<rparr>)"
    by (rule rl_inv_put[OF assms(2,3)])
  moreover have "tokens (bucket_refill (rl_cfg rl) now b) = tokens b"
    using rf sp by (auto simp: bucket_refill_def bucket_ok_def split: if_splits)
  ultimately show ?thesis
    using assms(4) sp(2) by (auto simp: avail_def lookup_table_put split: option.splits)
qed

text \<open>One check, whoever asks: what a client may still spend changes by the token it spends only.\<close>

lemma check_step:
  assumes "cfg_limits (rl_cfg rl)" "rl_inv t rl" "t \<le> now"
  shows "rl_inv now (snd (check from now draw rl)) \<and> rl_cfg (snd (check from now draw rl)) = rl_cfg rl \<and>
    avail (snd (check from now draw rl)) k now = avail rl k now - (if spends k from now draw rl then 1 else 0)"
proof (cases "request_key rl from")
  case None
  then show ?thesis
    using rl_inv_mono[OF assms(2,3)] by (simp add: check_unlimited spends_def)
next
  case (Some key)
  let ?m = "rl_minute_sweep now rl"
  note ms = minute_sweep_keeps[OF assms(1,2)]
  show ?thesis
  proof (cases "map_of (rl_buckets ?m) key")
    case None
    obtain v rl' where r: "rl_admit key now ?m = (v, rl')" by (cases "rl_admit key now ?m")
    have c: "check from now draw rl = (v, rl')"
      using check_limited[OF Some] None r by (simp add: Let_def)
    have "v = Answer" using r by (auto simp: rl_admit_def Let_def split: if_splits)
    then show ?thesis
      using admit_step[OF _ ms(1) assms(3) None r, of k] ms assms(1) c Some
      by (auto simp: spends_def split: if_splits)
  next
    case b0: (Some b0)
    obtain v b where r: "bucket_spend (rl_cfg rl) now draw b0 = (v, b)"
      by (cases "bucket_spend (rl_cfg rl) now draw b0")
    have c: "check from now draw rl = (v, ?m\<lparr>rl_buckets := table_put key b (rl_buckets ?m)\<rparr>)"
      using check_limited[OF Some] b0 r by (simp add: Let_def)
    show ?thesis
      using spend_step[OF _ ms(1) assms(3) b0, of draw v b k] ms assms(1) c Some b0 r
      by (auto simp: spends_def lookup_table_put)
  qed
qed

text \<open>Answers that were counted against \<open>k\<close>'s bucket over a run of requests.\<close>

fun answers :: "rl_key \<Rightarrow> RateLimiter \<Rightarrow> rl_req list \<Rightarrow> nat" where
  "answers k rl [] = 0"
| "answers k rl ((from, now, draw) # rs) =
     (if spends k from now draw rl then 1 else 0) + answers k (snd (check from now draw rl)) rs"

fun req_times :: "real \<Rightarrow> rl_req list \<Rightarrow> real \<Rightarrow> bool" where
  "req_times t [] t1 \<longleftrightarrow> t \<le> t1"
| "req_times t ((from, now, draw) # rs) t1 \<longleftrightarrow> t \<le> now \<and> req_times now rs t1"

lemma avail_later:
  assumes "cfg_limits (rl_cfg rl)" "t \<le> now"
  shows "avail rl k now \<le> avail rl k t + (now - t) / intervalSec (rl_cfg rl)"
proof -
  have later: "0 \<le> (now - t) / intervalSec (rl_cfg rl)" using assms by (simp add: cfg_limits_def)
  have "tokens (bucket_refill (rl_cfg rl) now b)
      \<le> tokens (bucket_refill (rl_cfg rl) t b) + (now - t) / intervalSec (rl_cfg rl)" for b
  proof -
    have "(now - bk_at b) / intervalSec (rl_cfg rl)
        = (t - bk_at b) / intervalSec (rl_cfg rl) + (now - t) / intervalSec (rl_cfg rl)"
      by (simp flip: add_divide_distrib)
    with later show ?thesis by (simp add: bucket_refill_def min_def del: diff_divide_distrib)
  qed
  with later show ?thesis by (simp add: avail_def split: option.split)
qed

lemma avail_nonneg:
  assumes "cfg_limits (rl_cfg rl)" "rl_inv t rl" "t \<le> now"
  shows "0 \<le> avail rl k now"
  using assms refill_bounds[OF assms(1) rl_inv_lookup[OF assms(2)] assms(3)]
  by (auto simp: avail_def cfg_limits_def bucket_ok_def split: option.splits)

text \<open>
  C22: The rate limit holds: over any run of requests from any mix of clients, with the minute
  sweep and the full-table sweep falling wherever they fall, the number of answers counted
  against one client's bucket between two instants is at most the burst plus the elapsed
  time over the interval.
\<close>

theorem answers_rate_limited:
  assumes "cfg_limits (rl_cfg rl)" "rl_inv t0 rl" "req_times t0 rs t1"
  shows "real (answers k rl rs) \<le> of_int (burst (rl_cfg rl)) + (t1 - t0) / intervalSec (rl_cfg rl)"
proof -
  have "real (answers k rl rs) \<le> avail rl k t0 + (t1 - t0) / intervalSec (rl_cfg rl)"
    using assms
  proof (induction rs arbitrary: rl t0)
    case Nil
    then show ?case using avail_nonneg[of rl t0 t0 k] by (simp add: cfg_limits_def)
  next
    case (Cons r rs)
    obtain from' now draw where r: "r = (from', now, draw)" by (cases r)
    let ?rl' = "snd (check from' now draw rl)"
    have le: "t0 \<le> now" "req_times now rs t1" using Cons.prems(3) r by simp_all
    note st = check_step[OF Cons.prems(1,2) le(1), of from' draw k]
    have "real (answers k ?rl' rs) \<le> avail ?rl' k now + (t1 - now) / intervalSec (rl_cfg rl)"
      using Cons.IH[of ?rl' now] st Cons.prems(1) le(2) by simp
    moreover have "avail rl k now \<le> avail rl k t0 + (now - t0) / intervalSec (rl_cfg rl)"
      by (rule avail_later[OF Cons.prems(1) le(1)])
    moreover have "(now - t0) / intervalSec (rl_cfg rl) + (t1 - now) / intervalSec (rl_cfg rl)
        = (t1 - t0) / intervalSec (rl_cfg rl)" by (simp add: diff_divide_distrib)
    ultimately show ?case using st r by auto
  qed
  moreover have "avail rl k t0 \<le> of_int (burst (rl_cfg rl))"
    by (auto simp: avail_def bucket_refill_def split: option.splits)
  ultimately show ?thesis by linarith
qed


text \<open>A client on \<^verbatim>\<open>192.0.2.7\<close> that asks five times in a second, against a burst of two.\<close>

definition demo_cfg :: RateLimitConfig where
  "demo_cfg = \<lparr>intervalSec = 2, burst = 2, kod = True, leak = 0, ipv4Prefix = 32, ipv6Prefix = 64, exempt = []\<rparr>"

definition demo_from :: sockaddr where
  "demo_from = Sin [192, 0, 2, 7]"

definition demo_key :: rl_key where
  "demo_key = client_key demo_cfg (ipAddrOf demo_from)"

definition demo_run :: "rl_req list" where
  "demo_run = [(demo_from, 1, 0), (demo_from, 5/4, 0), (demo_from, 3/2, 0), (demo_from, 7/4, 0), (demo_from, 4, 0)]"

lemmas demo_simps = demo_cfg_def demo_from_def demo_key_def demo_run_def mk_RateLimiter_def

theorem answers_rate_limited_witness:
  "real (answers demo_key (mk_RateLimiter demo_inet demo_cfg) demo_run) \<le> 2 + (5 - 0) / 2"
  using answers_rate_limited[of "mk_RateLimiter demo_inet demo_cfg" 0 demo_run 5 demo_key]
  by (simp add: demo_simps cfg_limits_def rl_inv_def table_wf_def)

section \<open>The kisses a client is sent\<close>

text \<open>
  Two kisses are an interval and a second apart while the bucket that remembers the
  first is kept; one swept from a full table has been idle for a full refill.
\<close>

definition kiss_gap :: "RateLimitConfig \<Rightarrow> real" where
  "kiss_gap cfg = min (max 1 (intervalSec cfg)) (full_time cfg)"

definition kissed :: "rl_key \<Rightarrow> sockaddr \<Rightarrow> real \<Rightarrow> real \<Rightarrow> RateLimiter \<Rightarrow> bool" where
  "kissed k from now draw rl \<longleftrightarrow> request_key rl from = Some k \<and> fst (check from now draw rl) = Kod"

fun kisses :: "rl_key \<Rightarrow> RateLimiter \<Rightarrow> rl_req list \<Rightarrow> real list" where
  "kisses k rl [] = []"
| "kisses k rl ((from, now, draw) # rs) =
     (if kissed k from now draw rl then [now] else []) @ kisses k (snd (check from now draw rl)) rs"

text \<open>The limiter remembers the kiss of time \<open>l\<close>, or it is long enough ago.\<close>

definition kiss_mem :: "real \<Rightarrow> real \<Rightarrow> rl_key \<Rightarrow> RateLimiter \<Rightarrow> bool" where
  "kiss_mem l t k rl \<longleftrightarrow>
     l + kiss_gap (rl_cfg rl) \<le> t
     \<or> (\<exists>b. map_of (rl_buckets rl) k = Some b \<and> kodAt b = Some l \<and> l \<le> bk_at b)"

lemma kiss_mem_mono: "kiss_mem l t k rl \<Longrightarrow> t \<le> t' \<Longrightarrow> kiss_mem l t' k rl"
  by (auto simp: kiss_mem_def)

lemma kiss_mem_sweep:
  assumes "kiss_mem l t k rl" "t \<le> now" "table_wf (rl_buckets rl)"
    and "\<And>b. gone b \<Longrightarrow> now - bk_at b > full_time (rl_cfg rl)"
  shows "kiss_mem l now k (rl\<lparr>rl_buckets := table_sweep gone (rl_buckets rl), rl_lastSweep := ls\<rparr>)"
proof -
  have "l + kiss_gap (rl_cfg rl) \<le> now" if "l \<le> bk_at b" "gone b" for b
    using that assms(4)[of b] by (auto simp: kiss_gap_def min_def split: if_splits)
  then show ?thesis using assms(1-3) by (fastforce simp: kiss_mem_def lookup_table_sweep split: if_splits)
qed

lemma kiss_mem_minute_sweep:
  assumes "kiss_mem l t k rl" "t \<le> now" "table_wf (rl_buckets rl)"
  shows "kiss_mem l now k (rl_minute_sweep now rl)"
  using assms kiss_mem_mono[OF assms(1,2)] by (auto simp: rl_minute_sweep_def intro: kiss_mem_sweep)

lemma kiss_mem_admit:
  assumes "kiss_mem l now k rl" "table_wf (rl_buckets rl)" "map_of (rl_buckets rl) key = None"
  shows "kiss_mem l now k (snd (rl_admit key now rl))"
proof -
  have ins: "kiss_mem l now k (x\<lparr>rl_buckets := (key, b) # rl_buckets x\<rparr>)"
    if "kiss_mem l now k x" "map_of (rl_buckets x) key = None" for x :: RateLimiter and b
    using that by (auto simp: kiss_mem_def)
  define sw where "sw = rl\<lparr>rl_buckets := table_sweep (\<lambda>b. now - bk_at b > full_time (rl_cfg rl)) (rl_buckets rl),
      rl_lastSweep := now\<rparr>"
  have "kiss_mem l now k sw" "map_of (rl_buckets sw) key = None"
    using kiss_mem_sweep[OF assms(1) order_refl assms(2)] assms(2,3) by (auto simp: sw_def lookup_table_sweep)
  then show ?thesis
    using assms ins unfolding rl_admit_def Let_def sw_def[symmetric] by auto
qed

lemma spend_kiss:
  assumes "bucket_spend cfg now draw b0 = (v, b)"
  shows "kodAt b = (if v = Kod then Some now else kodAt b0)"
    "v = Kod \<Longrightarrow> kodAt b0 = Some l \<Longrightarrow> l + max 1 (intervalSec cfg) \<le> now"
  using assms by (auto simp: bucket_spend_def Let_def bucket_refill_def split: if_splits)

lemma check_kiss_step:
  assumes wf: "rl_inv t rl" and t: "t \<le> now" and "kiss_mem l t k rl"
  shows "if kissed k from now draw rl
    then l + kiss_gap (rl_cfg rl) \<le> now \<and> kiss_mem now now k (snd (check from now draw rl))
    else kiss_mem l now k (snd (check from now draw rl))"
proof (cases "request_key rl from")
  case None
  then show ?thesis using kiss_mem_mono[OF assms(3) t] by (simp add: check_unlimited kissed_def)
next
  case (Some key)
  let ?m = "rl_minute_sweep now rl"
  have m: "kiss_mem l now k ?m" "table_wf (rl_buckets ?m)" "rl_cfg ?m = rl_cfg rl"
    using kiss_mem_minute_sweep[OF assms(3) t] wf minute_sweep_table(1)
    by (simp_all add: rl_inv_def) (simp add: rl_minute_sweep_def)
  show ?thesis
  proof (cases "map_of (rl_buckets ?m) key")
    case None
    then have "check from now draw rl = rl_admit key now ?m" "fst (rl_admit key now ?m) = Answer"
      using check_limited[OF Some] by (simp_all add: Let_def rl_admit_def)
    with kiss_mem_admit[OF m(1,2) None] show ?thesis by (simp add: kissed_def)
  next
    case b0: (Some b0)
    obtain v b where r: "bucket_spend (rl_cfg rl) now draw b0 = (v, b)"
      by (cases "bucket_spend (rl_cfg rl) now draw b0")
    have c: "check from now draw rl = (v, ?m\<lparr>rl_buckets := table_put key b (rl_buckets ?m)\<rparr>)"
      using check_limited[OF Some] b0 r by (simp add: Let_def)
    have gap: "kiss_gap (rl_cfg rl) \<le> max 1 (intervalSec (rl_cfg rl))" by (simp add: kiss_gap_def)
    have at: "bk_at b0 \<le> now"
    proof -
      have "map_of (rl_buckets rl) key = Some b0"
        using b0 wf by (auto simp: rl_minute_sweep_def lookup_table_sweep rl_inv_def split: if_splits option.splits)
      from rl_inv_lookup[OF wf this] t show ?thesis by (simp add: bucket_ok_def)
    qed
    show ?thesis
      using m b0 spend_kiss[OF r] spend_cases(1)[OF r] gap at c Some
      by (auto simp: kissed_def kiss_mem_def lookup_table_put split: if_splits)
  qed
qed

lemma kisses_after:
  assumes "cfg_limits (rl_cfg rl)" "rl_inv t rl" "req_times t rs t1" "kiss_mem l t k rl"
  shows "sorted_wrt (\<lambda>a b. a + kiss_gap (rl_cfg rl) \<le> b) (l # kisses k rl rs)"
  using assms
proof (induction rs arbitrary: rl t l)
  case Nil
  then show ?case by simp
next
  case (Cons r rs)
  obtain from' now draw where r: "r = (from', now, draw)" by (cases r)
  let ?rl' = "snd (check from' now draw rl)"
  have le: "t \<le> now" "req_times now rs t1" using Cons.prems(3) r by simp_all
  have gap: "0 \<le> kiss_gap (rl_cfg rl)"
    using Cons.prems(1) by (simp add: kiss_gap_def cfg_limits_def full_time_def)
  have st: "rl_inv now ?rl'" "rl_cfg ?rl' = rl_cfg rl"
    using check_step[OF Cons.prems(1,2) le(1)] by blast+
  note ks = check_kiss_step[OF Cons.prems(2) le(1) Cons.prems(4), of from' draw]
  note IH = Cons.IH[OF _ st(1) le(2), unfolded st(2), OF Cons.prems(1)]
  show ?case
    using IH[of now] IH[of l] ks gap by (fastforce simp: r split: if_splits)
qed

text \<open>
  Kisses-o'-death to one client are spaced: over any run of requests, two kisses sent
  for the same bucket are at least \<open>kiss_gap\<close> apart, so a flood costs the server at most one
  kiss per gap.
\<close>

theorem kisses_spaced:
  assumes "cfg_limits (rl_cfg rl)" "rl_inv t0 rl" "req_times t0 rs t1"
  shows "sorted_wrt (\<lambda>a b. a + kiss_gap (rl_cfg rl) \<le> b) (kisses k rl rs)"
  using kisses_after[OF assms, of "t0 - kiss_gap (rl_cfg rl)" k] by (simp add: kiss_mem_def)

theorem kisses_spaced_witness:
  "sorted_wrt (\<lambda>a b. a + kiss_gap demo_cfg \<le> b) (kisses demo_key (mk_RateLimiter demo_inet demo_cfg) demo_run)"
  using kisses_spaced[of "mk_RateLimiter demo_inet demo_cfg" 0 demo_run 5 demo_key]
  by (simp add: demo_simps cfg_limits_def rl_inv_def table_wf_def)

end
