(* ===== verification/Time_Continuity.thy ===== *)
theory Time_Continuity
  imports Ntp_Prelude
begin

text \<open>
  A source's check of its own decoded times, \<^verbatim>\<open>src/src/TimeContinuity.h\<close> and
  \<^verbatim>\<open>TimeContinuity.cpp\<close>: a time that lands far from the history is refused until it
  has held long enough. Doubles are reals.

  The results are about whole runs, judgements and filter updates interleaved in any
  order: a time is admitted only if it agrees with the history, is the announced leap
  second, or ends an unbroken run of readings that agree with each other and were all
  held back; and a real step that holds is admitted.
\<close>

section \<open>The operations\<close>

definition kJumpLimitSec :: real where "kJumpLimitSec = 1 / 2"
definition kDriftPpm :: real where "kDriftPpm = 50"
definition kAgreeSec :: real where "kAgreeSec = 1 / 4"
definition kFirstReadings :: int where "kFirstReadings = 3"
definition kFirstSpanSec :: real where "kFirstSpanSec = 115"
definition kAdoptReadings :: int where "kAdoptReadings = 6"
definition kAdoptSpanSec :: real where "kAdoptSpanSec = 600"

datatype Outcome = Accepted | FirstConfirmed | Confirming | Refused | Adopted | LeapSecond

record Verdict =
  outcome :: Outcome
  jumpSec :: real
  readings :: int
  spanSec :: real

definition default_Verdict :: Verdict where
  "default_Verdict = \<lparr>outcome = Accepted, jumpSec = 0, readings = 0, spanSec = 0\<rparr>"

definition discardFiltered :: "Verdict \<Rightarrow> bool" where
  "discardFiltered v \<longleftrightarrow> outcome v = Adopted \<or> outcome v = LeapSecond"

definition admitted :: "Verdict \<Rightarrow> bool" where
  "admitted v \<longleftrightarrow> outcome v \<noteq> Confirming \<and> outcome v \<noteq> Refused"

record TimeContinuity =
  tc_have :: bool
  tc_offset :: real
  tc_rate :: real
  tc_at :: real
  tc_pending :: bool
  tc_pendingOffset :: real
  tc_pendingFirstAt :: real
  tc_pendingLastAt :: real
  tc_pendingReadings :: int

definition mk_TimeContinuity :: TimeContinuity where
  "mk_TimeContinuity =
     \<lparr>tc_have = False, tc_offset = 0, tc_rate = 0, tc_at = 0, tc_pending = False, tc_pendingOffset = 0,
      tc_pendingFirstAt = 0, tc_pendingLastAt = 0, tc_pendingReadings = 0\<rparr>"

definition haveHistory :: "TimeContinuity \<Rightarrow> bool" where
  "haveHistory tc = tc_have tc"

text \<open>Whether two readings of one new time agree.\<close>

definition reading_agrees :: "real \<Rightarrow> real \<Rightarrow> real \<Rightarrow> real \<Rightarrow> bool" where
  "reading_agrees off0 at0 off ts \<longleftrightarrow>
     \<bar>off - off0\<bar> \<le> kAgreeSec + \<bar>ts - at0\<bar> * kDriftPpm * (1 / 10 ^ 6)"

definition notePending :: "real \<Rightarrow> real \<Rightarrow> TimeContinuity \<Rightarrow> TimeContinuity" where
  "notePending offsetSec atSec tc =
     (let agrees = tc_pending tc \<and> reading_agrees (tc_pendingOffset tc) (tc_pendingLastAt tc) offsetSec atSec;
          tc = (if agrees then tc
                else tc\<lparr>tc_pending := True, tc_pendingFirstAt := atSec, tc_pendingReadings := 0\<rparr>)
      in tc\<lparr>tc_pendingReadings := tc_pendingReadings tc + 1, tc_pendingOffset := offsetSec,
            tc_pendingLastAt := atSec\<rparr>)"

definition startHistory :: "real \<Rightarrow> real \<Rightarrow> TimeContinuity \<Rightarrow> TimeContinuity" where
  "startHistory offsetSec atSec tc =
     tc\<lparr>tc_have := True, tc_offset := offsetSec, tc_at := atSec, tc_pending := False, tc_pendingReadings := 0\<rparr>"

text \<open>The offset the history predicts at an instant, and how far from it a decode may land.\<close>

definition tc_predicted :: "TimeContinuity \<Rightarrow> real \<Rightarrow> real" where
  "tc_predicted tc atSec = tc_offset tc + tc_rate tc * (atSec - tc_at tc)"

definition tc_limit :: "TimeContinuity \<Rightarrow> real \<Rightarrow> real" where
  "tc_limit tc atSec = kJumpLimitSec + \<bar>atSec - tc_at tc\<bar> * kDriftPpm * (1 / 10 ^ 6)"

definition judge :: "real \<Rightarrow> real \<Rightarrow> bool \<Rightarrow> TimeContinuity \<Rightarrow> Verdict \<times> TimeContinuity" where
  "judge impliedOffsetSec atSec leapWindow tc =
     (let v = default_Verdict
      in if \<not> tc_have tc then
           let tc = notePending impliedOffsetSec atSec tc;
               v = v\<lparr>readings := tc_pendingReadings tc,
                     spanSec := tc_pendingLastAt tc - tc_pendingFirstAt tc\<rparr>
           in if kFirstReadings \<le> readings v \<and> kFirstSpanSec \<le> spanSec v
              then (v\<lparr>outcome := FirstConfirmed\<rparr>, startHistory impliedOffsetSec atSec tc)
              else (v\<lparr>outcome := Confirming\<rparr>, tc)
         else
           let predicted = tc_predicted tc atSec;
               limit = tc_limit tc atSec;
               v = v\<lparr>jumpSec := impliedOffsetSec - predicted\<rparr>
           in if \<bar>jumpSec v\<bar> \<le> limit
              then (v\<lparr>outcome := Accepted\<rparr>, tc\<lparr>tc_pending := False, tc_pendingReadings := 0\<rparr>)
              else if leapWindow \<and> \<bar>\<bar>jumpSec v\<bar> - 1\<bar> \<le> kAgreeSec
              then (v\<lparr>outcome := LeapSecond\<rparr>, startHistory impliedOffsetSec atSec tc)
              else
                let tc = notePending impliedOffsetSec atSec tc;
                    v = v\<lparr>readings := tc_pendingReadings tc,
                          spanSec := tc_pendingLastAt tc - tc_pendingFirstAt tc\<rparr>
                in if kAdoptReadings \<le> readings v \<and> kAdoptSpanSec \<le> spanSec v
                   then (v\<lparr>outcome := Adopted\<rparr>, startHistory impliedOffsetSec atSec tc)
                   else (v\<lparr>outcome := Refused\<rparr>, tc))"

definition noteFiltered :: "real \<Rightarrow> real \<Rightarrow> real \<Rightarrow> TimeContinuity \<Rightarrow> TimeContinuity" where
  "noteFiltered offsetSec rate atSec tc =
     tc\<lparr>tc_have := True, tc_offset := offsetSec, tc_rate := rate, tc_at := atSec\<rparr>"

section \<open>Runs\<close>

datatype tc_event = Reading real real bool | Filtered real real real

text \<open>A judged reading: the offset, the instant, and what was decided.\<close>

type_synonym judged = "real \<times> real \<times> Verdict"

abbreviation "jd_off \<equiv> \<lambda>(j :: judged). fst j"
abbreviation "jd_at \<equiv> \<lambda>(j :: judged). fst (snd j)"
abbreviation "jd_verdict \<equiv> \<lambda>(j :: judged). snd (snd j)"

fun tc_step :: "tc_event \<Rightarrow> TimeContinuity \<times> judged list \<Rightarrow> TimeContinuity \<times> judged list" where
  "tc_step (Reading off ts leap) (tc, js) =
     (let (v, tc') = judge off ts leap tc in (tc', js @ [(off, ts, v)]))"
| "tc_step (Filtered off rate ts) (tc, js) = (noteFiltered off rate ts tc, js)"

definition tc_run :: "tc_event list \<Rightarrow> TimeContinuity \<times> judged list" where
  "tc_run evs = fold tc_step evs (mk_TimeContinuity, [])"

definition next_agrees :: "judged \<Rightarrow> judged \<Rightarrow> bool" where
  "next_agrees a b \<longleftrightarrow> reading_agrees (jd_off a) (jd_at a) (jd_off b) (jd_at b)"

fun chained :: "judged list \<Rightarrow> bool" where
  "chained (a # b # js) \<longleftrightarrow> next_agrees a b \<and> chained (b # js)"
| "chained js \<longleftrightarrow> True"

text \<open>
  \<open>held_run js n dur\<close>: the judgements end with \<open>n\<close> readings in a row over \<open>dur\<close> that agree
  one with the next, every one before the last held back.
\<close>

definition held_run :: "judged list \<Rightarrow> int \<Rightarrow> real \<Rightarrow> bool" where
  "held_run js n dur \<longleftrightarrow>
     (\<exists>ys zs. js = ys @ zs \<and> int (length zs) = n \<and> zs \<noteq> [] \<and> chained zs
        \<and> (\<forall>z \<in> set (butlast zs). \<not> admitted (jd_verdict z))
        \<and> jd_at (last zs) - jd_at (hd zs) = dur)"

text \<open>What a pending time records: the run of readings, all held back, it stands for.\<close>

definition pending_inv :: "TimeContinuity \<times> judged list \<Rightarrow> bool" where
  "pending_inv = (\<lambda>(tc, js). tc_pending tc \<longrightarrow>
     (\<exists>ys zs. js = ys @ zs \<and> zs \<noteq> [] \<and> int (length zs) = tc_pendingReadings tc \<and> chained zs
        \<and> (\<forall>z \<in> set zs. \<not> admitted (jd_verdict z)) \<and> jd_at (hd zs) = tc_pendingFirstAt tc
        \<and> jd_at (last zs) = tc_pendingLastAt tc \<and> jd_off (last zs) = tc_pendingOffset tc))"

lemma chained_snoc: "chained js \<Longrightarrow> js = [] \<or> next_agrees (last js) j \<Longrightarrow> chained (js @ [j])"
  by (induction js rule: chained.induct) auto

text \<open>After noting a reading, the pending time is a run ending in it, whatever is decided of it.\<close>

lemma notePending_run:
  fixes off ts :: real
  assumes "pending_inv (tc, js)"
  defines "tc' \<equiv> notePending off ts tc"
  shows "\<exists>ys zs. js = ys @ zs \<and> int (length zs) + 1 = tc_pendingReadings tc' \<and> chained (zs @ [(off, ts, v)])
    \<and> (\<forall>z \<in> set zs. \<not> admitted (jd_verdict z)) \<and> jd_at (hd (zs @ [(off, ts, v)])) = tc_pendingFirstAt tc'
    \<and> tc_pendingLastAt tc' = ts \<and> tc_pendingOffset tc' = off \<and> tc_pending tc'"
proof (cases "tc_pending tc \<and> reading_agrees (tc_pendingOffset tc) (tc_pendingLastAt tc) off ts")
  case True
  then obtain ys zs where zs: "js = ys @ zs" "zs \<noteq> []" "int (length zs) = tc_pendingReadings tc" "chained zs"
      "\<forall>z \<in> set zs. \<not> admitted (jd_verdict z)" "jd_at (hd zs) = tc_pendingFirstAt tc"
      "jd_at (last zs) = tc_pendingLastAt tc" "jd_off (last zs) = tc_pendingOffset tc"
    using assms(1) by (auto simp: pending_inv_def)
  have "chained (zs @ [(off, ts, v)])"
    using zs(4,7,8) True by (intro chained_snoc) (auto simp: next_agrees_def)
  with zs True show ?thesis
    by (intro exI[of _ ys] exI[of _ zs]) (simp add: tc'_def notePending_def)
next
  case False
  then have "tc_pendingReadings tc' = 1 \<and> tc_pendingFirstAt tc' = ts \<and> tc_pendingLastAt tc' = ts
      \<and> tc_pendingOffset tc' = off \<and> tc_pending tc'"
    by (auto simp: tc'_def notePending_def Let_def)
  then show ?thesis by (intro exI[of _ js] exI[of _ "[]"]) simp
qed

lemma pending_inv_held:
  assumes "pending_inv (tc, js)" "\<not> admitted v"
  shows "pending_inv (notePending off ts tc, js @ [(off, ts, v)])"
proof -
  obtain ys zs where "js = ys @ zs" "int (length zs) + 1 = tc_pendingReadings (notePending off ts tc)"
      "chained (zs @ [(off, ts, v)])" "\<forall>z \<in> set zs. \<not> admitted (jd_verdict z)"
      "jd_at (hd (zs @ [(off, ts, v)])) = tc_pendingFirstAt (notePending off ts tc)"
      "tc_pendingLastAt (notePending off ts tc) = ts" "tc_pendingOffset (notePending off ts tc) = off"
    using notePending_run[OF assms(1), of off ts v] by blast
  then show ?thesis
    unfolding pending_inv_def prod.case using assms(2)
    by - (rule impI, rule exI[of _ ys], rule exI[of _ "zs @ [(off, ts, v)]"], auto)
qed

lemma pending_run_held:
  fixes off ts :: real
  assumes "pending_inv (tc, js)"
  defines "tc' \<equiv> notePending off ts tc"
  shows "held_run (js @ [(off, ts, v)]) (tc_pendingReadings tc') (tc_pendingLastAt tc' - tc_pendingFirstAt tc')"
proof -
  obtain ys zs where "js = ys @ zs" "int (length zs) + 1 = tc_pendingReadings tc'"
      "chained (zs @ [(off, ts, v)])" "\<forall>z \<in> set zs. \<not> admitted (jd_verdict z)"
      "jd_at (hd (zs @ [(off, ts, v)])) = tc_pendingFirstAt tc'" "tc_pendingLastAt tc' = ts"
    unfolding tc'_def using notePending_run[OF assms(1), of off ts v] by blast
  then show ?thesis
    unfolding held_run_def by (intro exI[of _ ys] exI[of _ "zs @ [(off, ts, v)]"]) auto
qed

text \<open>The cases of a judgement, with the state it leaves.\<close>

lemma judge_cases [consumes 1]:
  assumes "judge off ts leap tc = (v, tc')"
  obtains
    (accepted) "outcome v = Accepted" "tc_have tc" "\<bar>off - tc_predicted tc ts\<bar> \<le> tc_limit tc ts"
      "tc' = tc\<lparr>tc_pending := False, tc_pendingReadings := 0\<rparr>"
  | (leap) "outcome v = LeapSecond" "tc_have tc" "leap" "\<bar>\<bar>off - tc_predicted tc ts\<bar> - 1\<bar> \<le> kAgreeSec"
      "tc' = startHistory off ts tc"
  | (held) "\<not> admitted v" "tc' = notePending off ts tc"
  | (first) "outcome v = FirstConfirmed" "\<not> tc_have tc" "kFirstReadings \<le> tc_pendingReadings (notePending off ts tc)"
      "kFirstSpanSec \<le> tc_pendingLastAt (notePending off ts tc) - tc_pendingFirstAt (notePending off ts tc)"
      "tc' = startHistory off ts (notePending off ts tc)"
  | (adopted) "outcome v = Adopted" "tc_have tc" "kAdoptReadings \<le> tc_pendingReadings (notePending off ts tc)"
      "kAdoptSpanSec \<le> tc_pendingLastAt (notePending off ts tc) - tc_pendingFirstAt (notePending off ts tc)"
      "tc' = startHistory off ts (notePending off ts tc)"
proof -
  note j = assms[unfolded judge_def Let_def default_Verdict_def]
  let ?np = "notePending off ts tc"
  show thesis
  proof (cases "tc_have tc")
    case False
    then show thesis
      using j by (cases "kFirstReadings \<le> tc_pendingReadings ?np \<and>
          kFirstSpanSec \<le> tc_pendingLastAt ?np - tc_pendingFirstAt ?np")
        (auto simp: admitted_def intro: held first)
  next
    case True
    consider "\<bar>off - tc_predicted tc ts\<bar> \<le> tc_limit tc ts"
      | "\<not> \<bar>off - tc_predicted tc ts\<bar> \<le> tc_limit tc ts" "leap \<and> \<bar>\<bar>off - tc_predicted tc ts\<bar> - 1\<bar> \<le> kAgreeSec"
      | "\<not> \<bar>off - tc_predicted tc ts\<bar> \<le> tc_limit tc ts" "\<not> (leap \<and> \<bar>\<bar>off - tc_predicted tc ts\<bar> - 1\<bar> \<le> kAgreeSec)"
      by blast
    then show thesis
    proof cases
      case 1
      with j True show thesis by (intro accepted) auto
    next
      case 2
      with j True show thesis by (intro leap) auto
    next
      case 3
      with j True show thesis
        by (cases "kAdoptReadings \<le> tc_pendingReadings ?np \<and>
            kAdoptSpanSec \<le> tc_pendingLastAt ?np - tc_pendingFirstAt ?np")
          (auto simp: admitted_def intro: held adopted)
    qed
  qed
qed

lemma pending_inv_step: "pending_inv s \<Longrightarrow> pending_inv (tc_step e s)"
proof (cases e)
  case (Reading off ts leap)
  assume inv: "pending_inv s"
  obtain tc js where s: "s = (tc, js)" by (cases s)
  obtain v tc' where j: "judge off ts leap tc = (v, tc')" by (cases "judge off ts leap tc")
  from j have "pending_inv (tc', js @ [(off, ts, v)])"
    using inv pending_inv_held[of tc js v off ts]
    by (cases rule: judge_cases) (auto simp: s pending_inv_def startHistory_def)
  then show ?thesis by (simp add: Reading s j)
next
  case (Filtered off rate ts)
  assume "pending_inv s"
  then show ?thesis by (cases s) (simp add: Filtered pending_inv_def noteFiltered_def)
qed

lemma pending_inv_run: "pending_inv (tc_run evs)"
proof -
  have "pending_inv s \<Longrightarrow> pending_inv (fold tc_step evs s)" for s
  proof (induction evs arbitrary: s)
    case (Cons e evs)
    then show ?case using Cons.IH[OF pending_inv_step[OF Cons.prems]] by simp
  qed simp
  then show ?thesis by (simp add: tc_run_def pending_inv_def mk_TimeContinuity_def)
qed

text \<open>
  C23: No misread is admitted: after any interleaving of readings and filter updates from
  a new source, a reading is admitted only if there is a history and the reading is within the
  jump limit of what it predicts, or it is the announced one-second step, or it ends an
  unbroken run of readings that agree one with the next and were all held back -
  three over 115 seconds when there was no history, six over ten minutes against one.
\<close>

theorem judge_admits_only:
  assumes "tc_run evs = (tc, js)" "judge off ts leap tc = (v, tc')" "admitted v"
  shows "(outcome v = Accepted \<and> haveHistory tc \<and> \<bar>off - tc_predicted tc ts\<bar> \<le> tc_limit tc ts)
    \<or> (outcome v = LeapSecond \<and> haveHistory tc \<and> leap \<and> \<bar>\<bar>off - tc_predicted tc ts\<bar> - 1\<bar> \<le> kAgreeSec)
    \<or> (outcome v = FirstConfirmed \<and> \<not> haveHistory tc
        \<and> (\<exists>n dur. 3 \<le> n \<and> 115 \<le> dur \<and> held_run (js @ [(off, ts, v)]) n dur))
    \<or> (outcome v = Adopted \<and> haveHistory tc
        \<and> (\<exists>n dur. 6 \<le> n \<and> 600 \<le> dur \<and> held_run (js @ [(off, ts, v)]) n dur))"
proof -
  have inv: "pending_inv (tc, js)" using pending_inv_run[of evs] assms(1) by simp
  from assms(2) show ?thesis
  proof (cases rule: judge_cases)
    case first
    then show ?thesis
      using pending_run_held[OF inv, of off ts v]
      by (auto simp: haveHistory_def kFirstReadings_def kFirstSpanSec_def)
  next
    case adopted
    then show ?thesis
      using pending_run_held[OF inv, of off ts v]
      by (auto simp: haveHistory_def kAdoptReadings_def kAdoptSpanSec_def)
  qed (use assms(3) in \<open>auto simp: haveHistory_def\<close>)
qed

lemmas tc_eval = tc_run_def mk_TimeContinuity_def judge_def notePending_def startHistory_def noteFiltered_def
  reading_agrees_def tc_predicted_def tc_limit_def kJumpLimitSec_def kDriftPpm_def kAgreeSec_def
  kFirstReadings_def kFirstSpanSec_def kAdoptReadings_def kAdoptSpanSec_def default_Verdict_def

theorem judge_admits_only_witness:
  "let evs = [Reading 5 0 False, Reading 5 60 False];
       (tc, js) = tc_run evs; (v, tc') = judge 5 120 False tc
   in outcome v = FirstConfirmed \<and> \<not> haveHistory tc
      \<and> (\<exists>n dur. 3 \<le> n \<and> 115 \<le> dur \<and> held_run (js @ [(5, 120, v)]) n dur)"
  using judge_admits_only[of "[Reading 5 0 False, Reading 5 60 False]" "fst (tc_run [Reading 5 0 False, Reading 5 60 False])"
      "snd (tc_run [Reading 5 0 False, Reading 5 60 False])" 5 120 False]
  by (simp add: tc_eval admitted_def haveHistory_def Let_def)

section \<open>A real step is adopted\<close>

text \<open>The readings of a step: each agreeing with the one before, none near the history.\<close>

definition step_readings :: "TimeContinuity \<Rightarrow> (real \<times> real) list \<Rightarrow> bool" where
  "step_readings tc rs \<longleftrightarrow>
     (\<forall>i < length rs - 1. reading_agrees (fst (rs ! i)) (snd (rs ! i)) (fst (rs ! Suc i)) (snd (rs ! Suc i)))
     \<and> (\<forall>(off, ts) \<in> set rs. tc_limit tc ts < \<bar>off - tc_predicted tc ts\<bar>)"

text \<open>The outcomes of a run of readings, with no leap second announced.\<close>

fun judge_all :: "TimeContinuity \<Rightarrow> (real \<times> real) list \<Rightarrow> Outcome list" where
  "judge_all tc [] = []"
| "judge_all tc ((off, ts) # rs) =
     (let (v, tc') = judge off ts False tc in outcome v # judge_all tc' rs)"

text \<open>A judgement beyond the limit either adopts or leaves the history and extends the pending time.\<close>

lemma judge_beyond:
  assumes "tc_have tc" "tc_limit tc ts < \<bar>off - tc_predicted tc ts\<bar>" "judge off ts False tc = (v, tc')"
  shows "outcome v = Adopted \<or> (outcome v = Refused \<and> tc' = notePending off ts tc \<and>
     (tc_pendingReadings tc' < kAdoptReadings \<or> ts - tc_pendingFirstAt tc' < kAdoptSpanSec))"
  using assms by (auto simp: judge_def Let_def default_Verdict_def notePending_def split: if_splits)

lemma notePending_same:
  "tc_predicted (notePending off ts tc) = tc_predicted tc" "tc_limit (notePending off ts tc) = tc_limit tc"
  "tc_have (notePending off ts tc) = tc_have tc"
  by (auto simp: notePending_def Let_def tc_predicted_def tc_limit_def fun_eq_iff)

lemma notePending_agrees:
  assumes "tc_pending tc" "reading_agrees (tc_pendingOffset tc) (tc_pendingLastAt tc) off ts"
  shows "notePending off ts tc =
    tc\<lparr>tc_pendingReadings := tc_pendingReadings tc + 1, tc_pendingOffset := off, tc_pendingLastAt := ts\<rparr>"
  using assms by (simp add: notePending_def)

lemma step_readings_Cons:
  "step_readings tc ((off, ts) # rs) \<longleftrightarrow>
     (rs = [] \<or> reading_agrees off ts (fst (hd rs)) (snd (hd rs)))
     \<and> tc_limit tc ts < \<bar>off - tc_predicted tc ts\<bar> \<and> step_readings tc rs"
  by (cases rs) (auto simp: step_readings_def All_less_Suc2 nth_Cons' less_Suc_eq_0_disj)

lemma step_readings_cong:
  "tc_predicted tc' = tc_predicted tc \<Longrightarrow> tc_limit tc' = tc_limit tc \<Longrightarrow> step_readings tc' rs = step_readings tc rs"
  by (simp add: step_readings_def)

text \<open>With a pending time already running, enough further readings bring the adoption.\<close>

lemma step_adopted_pending:
  assumes "tc_have tc" "tc_pending tc" "rs \<noteq> []" "step_readings tc rs"
    and "reading_agrees (tc_pendingOffset tc) (tc_pendingLastAt tc) (fst (hd rs)) (snd (hd rs))"
    and "kAdoptReadings \<le> tc_pendingReadings tc + int (length rs)"
    and "kAdoptSpanSec \<le> snd (last rs) - tc_pendingFirstAt tc"
  shows "Adopted \<in> set (judge_all tc rs)"
  using assms
proof (induction rs arbitrary: tc)
  case Nil
  then show ?case by simp
next
  case (Cons r rs)
  obtain off ts where r: "r = (off, ts)" by (cases r)
  obtain v tc' where j: "judge off ts False tc = (v, tc')" by (cases "judge off ts False tc")
  have sr: "tc_limit tc ts < \<bar>off - tc_predicted tc ts\<bar>" "step_readings tc rs"
      "rs = [] \<or> reading_agrees off ts (fst (hd rs)) (snd (hd rs))"
    using Cons.prems(4) by (auto simp: r step_readings_Cons)
  have np: "notePending off ts tc =
      tc\<lparr>tc_pendingReadings := tc_pendingReadings tc + 1, tc_pendingOffset := off, tc_pendingLastAt := ts\<rparr>"
    using Cons.prems(2,5) by (simp add: notePending_agrees r)
  from judge_beyond[OF Cons.prems(1) sr(1) j] show ?case
  proof
    assume "outcome v = Adopted"
    then show ?thesis by (simp add: r j)
  next
    assume ref: "outcome v = Refused \<and> tc' = notePending off ts tc \<and>
      (tc_pendingReadings tc' < kAdoptReadings \<or> ts - tc_pendingFirstAt tc' < kAdoptSpanSec)"
    then have ne: "rs \<noteq> []" using Cons.prems(6,7) by (auto simp: r np)
    have "step_readings tc' rs"
      using sr(2) ref by (simp add: step_readings_cong[OF notePending_same(1,2)])
    then have "Adopted \<in> set (judge_all tc' rs)"
      using Cons.IH[of tc'] ne sr(3) ref Cons.prems by (simp add: r np)
    then show ?thesis by (simp add: r j)
  qed
qed

text \<open>
  A wrong history does not stick: from a history with nothing pending, when every reading lands beyond the limit of the
  history, each agreeing with the one before, and six of them span ten minutes, the new time
  is adopted.
\<close>

theorem real_step_adopted:
  assumes "haveHistory tc" "\<not> tc_pending tc" "step_readings tc rs" "6 \<le> length rs"
    and "600 \<le> snd (last rs) - snd (hd rs)"
  shows "Adopted \<in> set (judge_all tc rs)"
proof -
  obtain off ts rs' where rs: "rs = (off, ts) # rs'" using assms(4) by (cases rs) auto
  obtain v tc' where j: "judge off ts False tc = (v, tc')" by (cases "judge off ts False tc")
  have sr: "tc_limit tc ts < \<bar>off - tc_predicted tc ts\<bar>" "step_readings tc rs'" "rs' \<noteq> []"
      "reading_agrees off ts (fst (hd rs')) (snd (hd rs'))"
    using assms(3,4) by (auto simp: rs step_readings_Cons)
  have np: "notePending off ts tc = tc\<lparr>tc_pending := True, tc_pendingFirstAt := ts, tc_pendingReadings := 1,
      tc_pendingOffset := off, tc_pendingLastAt := ts\<rparr>"
    using assms(2) by (simp add: notePending_def)
  from judge_beyond[OF assms(1)[unfolded haveHistory_def] sr(1) j] show ?thesis
  proof
    assume "outcome v = Adopted"
    then show ?thesis by (simp add: rs j)
  next
    assume ref: "outcome v = Refused \<and> tc' = notePending off ts tc \<and>
      (tc_pendingReadings tc' < kAdoptReadings \<or> ts - tc_pendingFirstAt tc' < kAdoptSpanSec)"
    have "step_readings tc' rs'" using sr(2) ref by (simp add: step_readings_cong[OF notePending_same(1,2)])
    then have "Adopted \<in> set (judge_all tc' rs')"
      using step_adopted_pending[of tc' rs'] ref sr assms(1,4,5)
      by (simp add: np rs haveHistory_def kAdoptReadings_def kAdoptSpanSec_def)
    then show ?thesis by (simp add: rs j)
  qed
qed

theorem real_step_adopted_witness:
  "let tc = noteFiltered 0 0 0 mk_TimeContinuity;
       rs = [(240, 60), (240, 180), (240, 300), (240, 420), (240, 540), (240, 660)]
   in Adopted \<in> set (judge_all tc rs)"
  using real_step_adopted[of "noteFiltered 0 0 0 mk_TimeContinuity"
      "[(240, 60), (240, 180), (240, 300), (240, 420), (240, 540), (240, 660)]"]
  by (simp add: step_readings_Cons tc_eval haveHistory_def step_readings_def[of _ "[]"])

end
