(* ===== verification/Minute_Ring.thy ===== *)
theory Minute_Ring
  imports Ntp_Prelude
begin

text \<open>
  Counters over the past hour. \<^verbatim>\<open>ClientTally\<close> and \<^verbatim>\<open>NtpServer\<close> both keep sixty one-minute
  buckets, bucket \<open>k mod 60\<close> for minute \<open>k\<close>, and clear the buckets a quiet spell skipped. The
  interface \<open>minute_ring\<close> states that move; its clients conclude that the ring stands for an
  abstract history, a count for every minute there ever was, and that the buckets add up to
  the history's past hour. \<open>ok\<close> is what a client's states satisfy for the move to be well
  defined: the server's minutes are never negative, the tally's may be.
\<close>

text \<open>\<^verbatim>\<open>((k % n) + n) % n\<close> in C++, whose remainder keeps the sign of the dividend.\<close>

definition slot :: "int \<Rightarrow> int \<Rightarrow> nat" where
  "slot k n = nat (((k smod n) + n) smod n)"

lemma slot_mod:
  assumes "0 < n"
  shows "slot k n = nat (k mod n)"
proof -
  have "- n < k smod n" using smod_int_range[of n k] assms by auto
  then have "(k smod n + n) smod n = (k smod n + n) mod n" using assms by (simp add: smod_nonneg)
  also have "\<dots> = (k + n * - (k sdiv n)) mod n" by (simp flip: minus_mult_sdiv_eq_smod)
  also have "\<dots> = k mod n" by (rule mod_mult_self2)
  finally show ?thesis by (simp add: slot_def)
qed

definition kMinutes :: int where "kMinutes = 60"

lemma slot_less [simp]: "slot k kMinutes < 60"
  by (simp add: slot_mod kMinutes_def)

lemma slot_inj: "slot j kMinutes = slot k kMinutes \<Longrightarrow> \<bar>j - k\<bar> < 60 \<Longrightarrow> j = k"
proof -
  assume "slot j kMinutes = slot k kMinutes" and close: "\<bar>j - k\<bar> < 60"
  then have "j mod 60 = k mod 60" by (simp add: slot_mod kMinutes_def eq_nat_nat_iff)
  then have "60 dvd j - k" by (simp add: mod_eq_dvd_iff)
  with close show ?thesis using zdvd_imp_le[of 60 "\<bar>j - k\<bar>"] by force
qed

text \<open>The clearing loop over the skipped minutes.\<close>

definition ring_clear :: "'v \<Rightarrow> int \<Rightarrow> int \<Rightarrow> 'v list \<Rightarrow> 'v list" where
  "ring_clear z lastMinute gap xs = fold (\<lambda>k xs. xs[slot (lastMinute + k) kMinutes := z]) [1..gap] xs"

lemma fold_clear_length [simp]: "length (fold (\<lambda>k xs. xs[f k := z]) ks xs) = length xs"
  by (induction ks arbitrary: xs) simp_all

lemma fold_clear_nth:
  "j < length xs \<Longrightarrow> fold (\<lambda>k xs. xs[f k := z]) ks xs ! j = (if j \<in> f ` set ks then z else xs ! j)"
  by (induction ks arbitrary: xs) auto

lemma ring_clear_nth:
  assumes "length xs = 60"
  shows "ring_clear z l gap xs ! slot k kMinutes =
    (if \<exists>i \<in> {1..gap}. slot (l + i) kMinutes = slot k kMinutes then z else xs ! slot k kMinutes)"
  using fold_clear_nth[of "slot k kMinutes" xs "\<lambda>i. slot (l + i) kMinutes" z "[1..gap]"] assms
  by (auto simp: ring_clear_def image_iff)

lemma window_slots: "bij_betw (\<lambda>k. slot k kMinutes) {m - 59..m} {..<60}"
proof -
  have inj: "inj_on (\<lambda>k. slot k kMinutes) {m - 59..m}" by (auto intro!: inj_onI slot_inj)
  moreover have "card ((\<lambda>k. slot k kMinutes) ` {m - 59..m}) = card {..<60::nat}"
    using inj by (simp add: card_image)
  ultimately have "(\<lambda>k. slot k kMinutes) ` {m - 59..m} = {..<60}" by (intro card_subset_eq) auto
  with inj show ?thesis by (simp add: bij_betw_def)
qed

section \<open>The interface\<close>

locale minute_ring =
  fixes ring :: "'s \<Rightarrow> 'v list"
    and lastm :: "'s \<Rightarrow> int"
    and adv :: "int \<Rightarrow> 's \<Rightarrow> 's"
    and zero :: 'v
    and ok :: "'s \<Rightarrow> bool"
  assumes adv_stays: "minute \<le> lastm s \<Longrightarrow> adv minute s = s"
    and adv_last: "lastm s < minute \<Longrightarrow> lastm (adv minute s) = minute"
    and adv_ok: "ok s \<Longrightarrow> ok (adv minute s)"
    and adv_ring: "ok s \<Longrightarrow> lastm s < minute \<Longrightarrow>
      ring (adv minute s) = ring_clear zero (lastm s) (min (minute - lastm s) kMinutes) (ring s)"
begin

text \<open>The ring holds the last hour of the history \<open>h\<close>, and nothing is recorded of the future.\<close>

definition represents :: "(int \<Rightarrow> 'v) \<Rightarrow> 's \<Rightarrow> bool" where
  "represents h s \<longleftrightarrow> ok s \<and> length (ring s) = 60
     \<and> (\<forall>k. lastm s - 60 < k \<and> k \<le> lastm s \<longrightarrow> ring s ! slot k kMinutes = h k)
     \<and> (\<forall>k > lastm s. h k = zero)"

lemma represents_adv:
  assumes "represents h s"
  shows "represents h (adv minute s)"
proof (cases "minute \<le> lastm s")
  case True
  then show ?thesis using assms by (simp add: adv_stays)
next
  case False
  then have l: "lastm s < minute" by simp
  have len: "length (ring s) = 60" and ok: "ok s" using assms by (simp_all add: represents_def)
  have "ring (adv minute s) ! slot k kMinutes = h k" if k: "minute - 60 < k" "k \<le> minute" for k
  proof (cases "lastm s < k")
    case True
    then have "k - lastm s \<in> {1..min (minute - lastm s) kMinutes} \<or> k - lastm s > 60"
      using k by (auto simp: kMinutes_def)
    moreover have "\<exists>i \<in> {1..min (minute - lastm s) kMinutes}. slot (lastm s + i) kMinutes = slot k kMinutes"
      if "k - lastm s > 60"
    proof -
      have "slot k kMinutes \<in> (\<lambda>k. slot k kMinutes) ` {lastm s + 60 - 59..lastm s + 60}"
        using window_slots[of "lastm s + 60"] slot_less by (auto simp: bij_betw_def)
      then obtain j where "slot k kMinutes = slot j kMinutes" "j \<in> {lastm s + 60 - 59..lastm s + 60}"
        by (rule imageE)
      then show ?thesis using k that by (intro bexI[of _ "j - lastm s"]) (auto simp: kMinutes_def)
    qed
    ultimately have "\<exists>i \<in> {1..min (minute - lastm s) kMinutes}. slot (lastm s + i) kMinutes = slot k kMinutes"
      by (metis add.commute diff_add_cancel)
    then have "ring (adv minute s) ! slot k kMinutes = zero"
      by (simp add: adv_ring[OF ok l] ring_clear_nth[OF len])
    with True assms show ?thesis by (simp add: represents_def)
  next
    case False
    have "\<not> (\<exists>i \<in> {1..min (minute - lastm s) kMinutes}. slot (lastm s + i) kMinutes = slot k kMinutes)"
    proof
      assume "\<exists>i \<in> {1..min (minute - lastm s) kMinutes}. slot (lastm s + i) kMinutes = slot k kMinutes"
      then obtain i where i: "1 \<le> i" "i \<le> minute - lastm s" "slot (lastm s + i) kMinutes = slot k kMinutes" by auto
      then have "lastm s + i = k" using k False by (intro slot_inj) auto
      with i False show False by simp
    qed
    then have "ring (adv minute s) ! slot k kMinutes = ring s ! slot k kMinutes"
      by (simp add: adv_ring[OF ok l] ring_clear_nth[OF len])
    with False k l assms show ?thesis by (simp add: represents_def)
  qed
  then show ?thesis
    using assms l by (auto simp: represents_def adv_last adv_ring adv_ok ring_clear_def)
qed

lemma lastm_adv: "lastm (adv minute s) = max minute (lastm s)"
  by (cases "minute \<le> lastm s") (simp_all add: adv_stays adv_last)

text \<open>Writing the current minute's bucket.\<close>

lemma represents_write:
  assumes "represents h s" "ok s'" "lastm s' = lastm s" "ring s' = (ring s)[slot (lastm s) kMinutes := v]"
  shows "represents (h(lastm s := v)) s'"
  using assms slot_inj[of _ "lastm s"] by (auto simp: represents_def nth_list_update)

text \<open>All sixty buckets together are the past hour of the history.\<close>

lemma ring_total:
  fixes f :: "'v \<Rightarrow> nat"
  assumes "represents h s"
  shows "(\<Sum>x\<leftarrow>ring s. f x) = (\<Sum>k \<in> {lastm s - 59..lastm s}. f (h k))"
proof -
  have len: "length (ring s) = 60" using assms by (simp add: represents_def)
  have "(\<Sum>x\<leftarrow>ring s. f x) = (\<Sum>j \<in> {..<60}. f (ring s ! j))"
    using len by (simp add: sum_list_sum_nth atLeast0LessThan)
  also have "\<dots> = (\<Sum>k \<in> {lastm s - 59..lastm s}. f (ring s ! slot k kMinutes))"
    by (rule sum.reindex_bij_betw[OF window_slots, symmetric])
  also have "\<dots> = (\<Sum>k \<in> {lastm s - 59..lastm s}. f (h k))"
    using assms by (intro sum.cong) (auto simp: represents_def)
  finally show ?thesis .
qed

end

end
