(* ===== verification/Client_Tally.thy ===== *)
theory Client_Tally
  imports Ip_Prefix Capped_Table Minute_Ring
    "HOL-Library.Char_ord" "HOL-Library.List_Lexorder" "HOL-Library.Product_Lexorder"
begin

text \<open>
  The busiest clients of the past hour, \<^verbatim>\<open>src/src/ClientTally.h\<close> and
  \<^verbatim>\<open>ClientTally.cpp\<close>: per client, named as the status page names it, two rings of sixty
  one-minute buckets. Counts are \<open>nat\<close> with the 32-bit saturation written out.

  The results: the table stays within its cap whatever the traffic; while the clients fit
  in it, the hour a client is shown with is exactly the requests it sent in the past
  sixty minutes; and the list shown is sorted, with nobody busier left out.
\<close>

section \<open>The operations\<close>

record TopClient =
  tp_client :: string
  tp_requests :: nat
  tp_limited :: nat

record Entry =
  en_requests :: "nat list"
  en_limited :: "nat list"
  en_lastMinute :: int

record ClientTally =
  ct_clients :: "(string, Entry) table"
  ct_lastSweep :: real

definition mk_ClientTally :: ClientTally where
  "mk_ClientTally = \<lparr>ct_clients = [], ct_lastSweep = - (10 ^ 18)\<rparr>"

definition kMaxClients :: nat where "kMaxClients = 4096"

definition UINT32_MAX :: nat where "UINT32_MAX = 4294967295"

text \<open>\<^verbatim>\<open>ClientTally::advance\<close>.\<close>

definition entry_advance :: "int \<Rightarrow> Entry \<Rightarrow> Entry" where
  "entry_advance minute e =
     (if minute \<le> en_lastMinute e then e
      else let gap = min (minute - en_lastMinute e) kMinutes
           in (fold (\<lambda>k x. let i = slot (en_lastMinute e + k) kMinutes
                           in x\<lparr>en_requests := (en_requests x)[i := 0], en_limited := (en_limited x)[i := 0]\<rparr>)
                 [1..gap] e)\<lparr>en_lastMinute := minute\<rparr>)"

text \<open>\<^verbatim>\<open>ClientTally::sum\<close>: requests and limited over the hour ending at a minute.\<close>

definition entry_sum :: "Entry \<Rightarrow> int \<Rightarrow> nat \<times> nat" where
  "entry_sum e minute =
     fold (\<lambda>k (r, l). let i = slot k kMinutes in (r + en_requests e ! i, l + en_limited e ! i))
       [max (minute - kMinutes + 1) (en_lastMinute e - kMinutes + 1)..min minute (en_lastMinute e)] (0, 0)"

definition minute_of :: "real \<Rightarrow> int" where
  "minute_of now = \<lfloor>now / 60\<rfloor>"

definition new_entry :: "int \<Rightarrow> Entry" where
  "new_entry minute = \<lparr>en_requests = replicate 60 0, en_limited = replicate 60 0, en_lastMinute = minute\<rparr>"

text \<open>A client the table does not have: \<open>None\<close> when it is full and a sweep frees nothing.\<close>

definition tally_admit :: "string \<Rightarrow> real \<Rightarrow> ClientTally \<Rightarrow> bool \<times> ClientTally" where
  "tally_admit key now t =
     (let minute = minute_of now
      in if kMaxClients \<le> length (ct_clients t)
         then if now - ct_lastSweep t < 1 then (False, t)
              else let t = t\<lparr>ct_lastSweep := now,
                             ct_clients := table_sweep (\<lambda>e. fst (entry_sum e minute) \<le> 1) (ct_clients t)\<rparr>
                   in if kMaxClients \<le> length (ct_clients t) then (False, t)
                      else (True, t\<lparr>ct_clients := (key, new_entry minute) # ct_clients t\<rparr>)
         else (True, t\<lparr>ct_clients := (key, new_entry minute) # ct_clients t\<rparr>))"

text \<open>One request counted against an entry.\<close>

definition entry_count :: "int \<Rightarrow> bool \<Rightarrow> Entry \<Rightarrow> Entry" where
  "entry_count minute limited e0 =
     (let e = entry_advance minute e0;
          i = slot minute kMinutes;
          e = (if en_requests e ! i < UINT32_MAX
               then e\<lparr>en_requests := (en_requests e)[i := en_requests e ! i + 1]\<rparr> else e)
      in if limited \<and> en_limited e ! i < UINT32_MAX
         then e\<lparr>en_limited := (en_limited e)[i := en_limited e ! i + 1]\<rparr> else e)"

definition tally_record :: "inet \<Rightarrow> sockaddr \<Rightarrow> real \<Rightarrow> bool \<Rightarrow> ClientTally \<Rightarrow> ClientTally" where
  "tally_record inet from now limited t =
     (let a = ipAddrOf from
      in if ip_family a = AF_NONE then t
         else
           let key = publicLabel inet a;
               minute = minute_of now;
               (found, t) = (if map_of (ct_clients t) key = None then tally_admit key now t else (True, t))
           in if \<not> found then t
              else case map_of (ct_clients t) key of
                     None \<Rightarrow> t
                   | Some e \<Rightarrow> t\<lparr>ct_clients := table_put key (entry_count minute limited e) (ct_clients t)\<rparr>)"

text \<open>\<^verbatim>\<open>partial_sort\<close> and \<^verbatim>\<open>resize\<close>: busiest first, ties by name; the names are distinct.\<close>

definition tally_top :: "nat \<Rightarrow> real \<Rightarrow> ClientTally \<Rightarrow> TopClient list" where
  "tally_top n now t =
     (let minute = minute_of now;
          shown = map (\<lambda>(key, e). let (r, l) = entry_sum e minute
                                 in \<lparr>tp_client = key, tp_requests = r, tp_limited = l\<rparr>) (ct_clients t);
          present = filter (\<lambda>c. 0 < tp_requests c) shown
      in take (min n (length present)) (sort_key (\<lambda>c. (- int (tp_requests c), tp_client c)) present))"

section \<open>The table is bounded\<close>

type_synonym tally_req = "inet \<times> sockaddr \<times> real \<times> bool"

definition tally_handle :: "tally_req \<Rightarrow> ClientTally \<Rightarrow> ClientTally" where
  "tally_handle = (\<lambda>(inet, from, now, limited) t. tally_record inet from now limited t)"

lemma tally_admit_table:
  assumes "table_wf (ct_clients t)" "map_of (ct_clients t) key = None"
  shows "table_wf (ct_clients (snd (tally_admit key now t)))"
    and "length (ct_clients t) \<le> kMaxClients \<Longrightarrow> length (ct_clients (snd (tally_admit key now t))) \<le> kMaxClients"
proof -
  show "table_wf (ct_clients (snd (tally_admit key now t)))"
    using assms by (auto simp: tally_admit_def Let_def lookup_table_sweep intro!: table_cons_wf)
  assume len: "length (ct_clients t) \<le> kMaxClients"
  have "length (table_sweep g (ct_clients t)) \<le> kMaxClients" for g
    using length_table_sweep len by (rule order_trans)
  with len show "length (ct_clients (snd (tally_admit key now t))) \<le> kMaxClients"
    by (simp add: tally_admit_def Let_def)
qed

lemma tally_record_table:
  assumes "table_wf (ct_clients t)"
  shows "table_wf (ct_clients (tally_record inet from now limited t))"
    and "length (ct_clients t) \<le> kMaxClients \<Longrightarrow>
      length (ct_clients (tally_record inet from now limited t)) \<le> kMaxClients"
  using assms tally_admit_table[OF assms, of "publicLabel inet (ipAddrOf from)" now]
  by (auto simp: tally_record_def Let_def split: option.splits prod.splits if_splits)

interpretation tally_table: capped_table ct_clients tally_handle kMaxClients
  by unfold_locales (auto simp: tally_handle_def tally_record_table split: prod.splits)

text \<open>
  The table of clients is bounded: no sequence of requests from any addresses makes
  it hold more than \<open>kMaxClients\<close> entries.
\<close>

theorem tally_bounded: "length (ct_clients (fold tally_handle reqs mk_ClientTally)) \<le> kMaxClients"
  by (rule tally_table.run_cap) (simp_all add: mk_ClientTally_def table_wf_def)

section \<open>The hour is exact\<close>

lemma advance_fold:
  "en_requests (fold (\<lambda>k x. let i = f k in x\<lparr>en_requests := (en_requests x)[i := 0], en_limited := (en_limited x)[i := 0]\<rparr>) ks e)
     = fold (\<lambda>k xs. xs[f k := 0]) ks (en_requests e)"
  "en_limited (fold (\<lambda>k x. let i = f k in x\<lparr>en_requests := (en_requests x)[i := 0], en_limited := (en_limited x)[i := 0]\<rparr>) ks e)
     = fold (\<lambda>k xs. xs[f k := 0]) ks (en_limited e)" for e :: Entry
  by (induction ks arbitrary: e) (simp_all add: Let_def)

interpretation req_ring: minute_ring en_requests en_lastMinute entry_advance 0 "\<lambda>_. True"
  by unfold_locales (simp_all add: entry_advance_def advance_fold[unfolded Let_def] ring_clear_def Let_def)

interpretation lim_ring: minute_ring en_limited en_lastMinute entry_advance 0 "\<lambda>_. True"
  by unfold_locales (simp_all add: entry_advance_def advance_fold[unfolded Let_def] ring_clear_def Let_def)

text \<open>An entry stands for two histories: requests and limited requests per minute.\<close>

definition entry_rep :: "(int \<Rightarrow> nat) \<Rightarrow> (int \<Rightarrow> nat) \<Rightarrow> Entry \<Rightarrow> bool" where
  "entry_rep h l e \<longleftrightarrow> req_ring.represents h e \<and> lim_ring.represents l e"

lemma new_entry_rep: "entry_rep (\<lambda>_. 0) (\<lambda>_. 0) (new_entry minute)"
  by (simp add: entry_rep_def req_ring.represents_def lim_ring.represents_def new_entry_def)

lemma fold_pair_sum:
  "fold (\<lambda>k (r, l). let i = s k in (r + f i, l + g i)) ks (a, b) =
     (a + (\<Sum>k\<leftarrow>ks. f (s k)), b + (\<Sum>k\<leftarrow>ks. g (s k)))" for f g :: "nat \<Rightarrow> nat"
  by (induction ks arbitrary: a b) (simp_all add: Let_def)

lemma entry_sum_rep:
  assumes "entry_rep h l e" "en_lastMinute e \<le> minute"
  shows "entry_sum e minute = (\<Sum>k \<in> {minute - 59..minute}. h k, \<Sum>k \<in> {minute - 59..minute}. l k)"
proof -
  have cut: "(\<Sum>k \<in> {minute - 59..minute}. g k) = (\<Sum>k \<in> {minute - 59..en_lastMinute e}. g k)"
    if "\<forall>k > en_lastMinute e. g k = 0" for g :: "int \<Rightarrow> nat"
    using that assms(2) by (intro sum.mono_neutral_right) auto
  have ls: "(\<Sum>k\<leftarrow>[minute - 59..en_lastMinute e]. x ! slot k kMinutes) = (\<Sum>k \<in> {minute - 59..minute}. g k)"
    if "\<forall>k. en_lastMinute e - 60 < k \<and> k \<le> en_lastMinute e \<longrightarrow> x ! slot k kMinutes = g k" "\<forall>k > en_lastMinute e. g k = 0"
    for x and g :: "int \<Rightarrow> nat"
    using that assms(2)
    by (simp add: cut sum_list_distinct_conv_sum_set)
  have rng: "[max (minute - kMinutes + 1) (en_lastMinute e - kMinutes + 1)..min minute (en_lastMinute e)]
      = [minute - 59..en_lastMinute e]"
    using assms(2) by (simp add: kMinutes_def max_def min_def)
  show ?thesis
    using assms(1) unfolding entry_sum_def rng fold_pair_sum
    by (simp add: ls entry_rep_def req_ring.represents_def lim_ring.represents_def)
qed

lemma entry_count_rep:
  assumes rep: "entry_rep h l e" and last: "en_lastMinute e \<le> minute"
    and room: "h minute < UINT32_MAX" "l minute < UINT32_MAX"
  shows "entry_rep (h(minute := h minute + 1)) (if limited then l(minute := l minute + 1) else l) (entry_count minute limited e)
    \<and> en_lastMinute (entry_count minute limited e) = minute"
proof -
  let ?e = "entry_advance minute e"
  have rep': "req_ring.represents h ?e" "lim_ring.represents l ?e"
    using rep req_ring.represents_adv lim_ring.represents_adv by (auto simp: entry_rep_def)
  have m: "en_lastMinute ?e = minute" using last by (simp add: req_ring.lastm_adv)
  have at: "en_requests ?e ! slot minute kMinutes = h minute" "en_limited ?e ! slot minute kMinutes = l minute"
    using rep' m by (auto simp: req_ring.represents_def lim_ring.represents_def)
  define e1 where "e1 = ?e\<lparr>en_requests := (en_requests ?e)[slot minute kMinutes := h minute + 1]\<rparr>"
  have c: "entry_count minute limited e =
      (if limited then e1\<lparr>en_limited := (en_limited e1)[slot minute kMinutes := l minute + 1]\<rparr> else e1)"
    using room at by (simp add: entry_count_def Let_def e1_def)
  have h: "req_ring.represents (h(minute := h minute + 1)) x" if "en_requests x = en_requests e1" "en_lastMinute x = minute" for x
    using req_ring.represents_write[OF rep'(1), of x "h minute + 1"] that m by (simp add: e1_def)
  have l: "lim_ring.represents l e1"
    using rep'(2) by (simp add: lim_ring.represents_def e1_def)
  have l': "lim_ring.represents (l(minute := l minute + 1)) x"
    if "en_limited x = (en_limited e1)[slot minute kMinutes := l minute + 1]" "en_lastMinute x = minute" for x
    using lim_ring.represents_write[OF rep'(2), of x "l minute + 1"] that m by (simp add: e1_def)
  have e1m: "en_lastMinute e1 = minute" using m by (simp add: e1_def)
  show ?thesis unfolding c entry_rep_def using h l l' e1m by auto
qed

text \<open>The abstract counts: what each client sent in each minute of a run.\<close>

type_synonym tally_event = "sockaddr \<times> real \<times> bool"

definition event_key :: "inet \<Rightarrow> tally_event \<Rightarrow> string option" where
  "event_key inet r =
     (let a = ipAddrOf (fst r) in if ip_family a = AF_NONE then None else Some (publicLabel inet a))"

definition sent_in :: "inet \<Rightarrow> tally_event list \<Rightarrow> string \<Rightarrow> int \<Rightarrow> nat" where
  "sent_in inet rs key k = length (filter (\<lambda>r. event_key inet r = Some key \<and> minute_of (fst (snd r)) = k) rs)"

definition limited_in :: "inet \<Rightarrow> tally_event list \<Rightarrow> string \<Rightarrow> int \<Rightarrow> nat" where
  "limited_in inet rs key k =
     length (filter (\<lambda>r. event_key inet r = Some key \<and> minute_of (fst (snd r)) = k \<and> snd (snd r)) rs)"

definition tally_run :: "inet \<Rightarrow> tally_event list \<Rightarrow> ClientTally" where
  "tally_run inet rs = fold (\<lambda>(from, now, limited). tally_record inet from now limited) rs mk_ClientTally"

lemma sent_in_snoc:
  "sent_in inet (rs @ [(from, now, lmt)]) key =
     (if event_key inet (from, now, lmt) = Some key
      then (sent_in inet rs key)(minute_of now := sent_in inet rs key (minute_of now) + 1) else sent_in inet rs key)"
  by (auto simp: sent_in_def fun_eq_iff)

lemma limited_in_snoc:
  "limited_in inet (rs @ [(from, now, lmt)]) key =
     (if event_key inet (from, now, lmt) = Some key \<and> lmt
      then (limited_in inet rs key)(minute_of now := limited_in inet rs key (minute_of now) + 1)
      else limited_in inet rs key)"
  by (auto simp: limited_in_def fun_eq_iff)

lemma sent_in_le: "sent_in inet rs key k \<le> length rs" "limited_in inet rs key k \<le> length rs"
  by (simp_all add: sent_in_def limited_in_def)

definition event_keys :: "inet \<Rightarrow> tally_event list \<Rightarrow> string set" where
  "event_keys inet rs = {key. \<exists>r \<in> set rs. event_key inet r = Some key}"

text \<open>The refinement relation between the table and the run it has seen.\<close>

definition tally_rep :: "inet \<Rightarrow> tally_event list \<Rightarrow> real \<Rightarrow> ClientTally \<Rightarrow> bool" where
  "tally_rep inet rs now t \<longleftrightarrow> table_wf (ct_clients t) \<and> fst ` set (ct_clients t) = event_keys inet rs
     \<and> (\<forall>key e. map_of (ct_clients t) key = Some e \<longrightarrow>
          entry_rep (sent_in inet rs key) (limited_in inet rs key) e \<and> en_lastMinute e \<le> minute_of now)"

lemma event_keys_snoc:
  "event_keys inet (rs @ [r]) =
     (case event_key inet r of None \<Rightarrow> event_keys inet rs | Some key \<Rightarrow> insert key (event_keys inet rs))"
  by (auto simp: event_keys_def split: option.splits)

lemma no_key_none_sent: "key \<notin> event_keys inet rs \<Longrightarrow> sent_in inet rs key = (\<lambda>_. 0) \<and> limited_in inet rs key = (\<lambda>_. 0)"
  by (auto simp: sent_in_def limited_in_def event_keys_def fun_eq_iff filter_empty_conv)

lemma finite_event_keys: "finite (event_keys inet rs)"
proof -
  have "event_keys inet rs \<subseteq> (\<lambda>r. the (event_key inet r)) ` set rs" by (force simp: event_keys_def)
  then show ?thesis by (rule finite_subset) simp
qed

lemma minute_of_mono: "a \<le> b \<Longrightarrow> minute_of a \<le> minute_of b"
  by (simp add: minute_of_def floor_mono divide_right_mono)

text \<open>A client's entry is found or made, standing for what the run has seen of it.\<close>

lemma tally_find:
  assumes rep: "tally_rep inet rs now0 t" and t: "now0 \<le> now"
    and key: "event_key inet (from, now, lmt) = Some key"
    and fits: "card (event_keys inet (rs @ [(from, now, lmt)])) \<le> kMaxClients"
  defines "found \<equiv> (if map_of (ct_clients t) key = None then tally_admit key now t else (True, t))"
  shows "fst found \<and> fst ` set (ct_clients (snd found)) = insert key (event_keys inet rs) \<and> table_wf (ct_clients (snd found))
    \<and> (\<forall>k e. map_of (ct_clients (snd found)) k = Some e \<longrightarrow>
          entry_rep (sent_in inet rs k) (limited_in inet rs k) e \<and> en_lastMinute e \<le> minute_of now)"
proof (cases "map_of (ct_clients t) key")
  case None
  then have new: "key \<notin> event_keys inet rs" using rep by (auto simp: tally_rep_def map_of_eq_None_iff)
  have "length (ct_clients t) = card (event_keys inet rs)"
    using rep by (metis distinct_card length_map list.set_map table_wf_def tally_rep_def)
  also have "\<dots> < kMaxClients" using fits new key finite_event_keys by (simp add: event_keys_snoc)
  finally have "found = (True, t\<lparr>ct_clients := (key, new_entry (minute_of now)) # ct_clients t\<rparr>)"
    using None by (simp add: found_def tally_admit_def Let_def)
  moreover have "entry_rep (sent_in inet rs key) (limited_in inet rs key) (new_entry (minute_of now))
      \<and> en_lastMinute (new_entry (minute_of now)) \<le> minute_of now"
    using no_key_none_sent[OF new] new_entry_rep[of "minute_of now"] by (simp add: new_entry_def)
  moreover have old: "table_wf (ct_clients t)" "fst ` set (ct_clients t) = event_keys inet rs"
    "map_of (ct_clients t) k = Some e \<Longrightarrow>
      entry_rep (sent_in inet rs k) (limited_in inet rs k) e \<and> en_lastMinute e \<le> minute_of now" for k e
    using rep minute_of_mono[OF t] unfolding tally_rep_def by (auto, meson order_trans)
  ultimately show ?thesis
    using None by (simp add: table_cons_wf)
next
  case (Some e)
  then have "key \<in> event_keys inet rs" using rep map_of_SomeD[OF Some] by (force simp: tally_rep_def)
  then show ?thesis
    using rep Some minute_of_mono[OF t] by (auto simp: tally_rep_def found_def intro: order_trans)
qed

lemma tally_record_rep:
  assumes rep: "tally_rep inet rs now0 t" and t: "now0 \<le> now"
    and fits: "card (event_keys inet (rs @ [(from, now, lmt)])) \<le> kMaxClients" and room: "length rs < UINT32_MAX"
  shows "tally_rep inet (rs @ [(from, now, lmt)]) now (tally_record inet from now lmt t)"
proof (cases "event_key inet (from, now, lmt)")
  case None
  then have "tally_record inet from now lmt t = t"
    by (auto simp: event_key_def tally_record_def Let_def split: if_splits)
  then show ?thesis
    using rep None minute_of_mono[OF t] by (fastforce simp: tally_rep_def event_keys_snoc sent_in_snoc limited_in_snoc)
next
  case (Some key)
  let ?f = "if map_of (ct_clients t) key = None then tally_admit key now t else (True, t)"
  obtain t1 where f: "?f = (True, t1)"
    using tally_find[OF rep t Some fits] by (metis prod.collapse)
  note tf = tally_find[OF rep t Some fits, unfolded f]
  have "key \<in> fst ` set (ct_clients t1)" using tf by simp
  then obtain e where e: "map_of (ct_clients t1) key = Some e" by (force simp: map_of_eq_None_iff)
  have lab: "publicLabel inet (ipAddrOf from) = key" "ip_family (ipAddrOf from) \<noteq> AF_NONE"
    using Some by (auto simp: event_key_def Let_def split: if_splits)
  have r: "tally_record inet from now lmt t =
      t1\<lparr>ct_clients := table_put key (entry_count (minute_of now) lmt e) (ct_clients t1)\<rparr>"
    using lab f e by (simp add: tally_record_def Let_def)
  have "sent_in inet rs key (minute_of now) < UINT32_MAX" "limited_in inet rs key (minute_of now) < UINT32_MAX"
    using sent_in_le[of inet rs key "minute_of now"] room by simp_all
  then have e': "entry_rep (sent_in inet (rs @ [(from, now, lmt)]) key) (limited_in inet (rs @ [(from, now, lmt)]) key)
      (entry_count (minute_of now) lmt e) \<and> en_lastMinute (entry_count (minute_of now) lmt e) = minute_of now"
    using entry_count_rep[of "sent_in inet rs key" "limited_in inet rs key" e "minute_of now" lmt] tf e Some
    by (auto simp: sent_in_snoc limited_in_snoc)
  have other: "sent_in inet (rs @ [(from, now, lmt)]) k = sent_in inet rs k
      \<and> limited_in inet (rs @ [(from, now, lmt)]) k = limited_in inet rs k" if "k \<noteq> key" for k
    using that Some by (simp add: sent_in_snoc limited_in_snoc)
  have "fst ` set (table_put key x (ct_clients t1)) = fst ` set (ct_clients t1)" for x
    using keys_table_put[of key x "ct_clients t1"] by (metis list.set_map)
  then show ?thesis
    unfolding tally_rep_def r using tf e e' other Some
    by (auto simp: event_keys_snoc lookup_table_put)
qed

definition event_times :: "tally_event list \<Rightarrow> real list" where
  "event_times rs = map (\<lambda>r. fst (snd r)) rs"

lemma tally_run_rep:
  assumes "sorted (event_times rs)" "\<forall>x \<in> set (event_times rs). x \<le> now"
    and "card (event_keys inet rs) \<le> kMaxClients" "length rs \<le> UINT32_MAX"
  shows "tally_rep inet rs now (tally_run inet rs)"
  using assms
proof (induction rs arbitrary: now rule: rev_induct)
  case Nil
  then show ?case by (simp add: tally_rep_def tally_run_def mk_ClientTally_def table_wf_def event_keys_def)
next
  case (snoc r rs)
  obtain from' now' lmt where r: "r = (from', now', lmt)" by (cases r)
  have "event_keys inet rs \<subseteq> event_keys inet (rs @ [r])" by (auto simp: event_keys_def)
  then have "card (event_keys inet rs) \<le> kMaxClients"
    using snoc.prems(3) card_mono[OF finite_event_keys] order_trans by blast
  then have "tally_rep inet rs now' (tally_run inet rs)"
    using snoc.prems r by (intro snoc.IH) (auto simp: event_times_def sorted_append)
  then have "tally_rep inet (rs @ [r]) now' (tally_run inet (rs @ [r]))"
    using tally_record_rep[of inet rs now' "tally_run inet rs" now' from' lmt] snoc.prems(3,4) r
    by (simp add: tally_run_def)
  moreover have "minute_of now' \<le> minute_of now" using snoc.prems(2) r by (simp add: event_times_def minute_of_mono)
  ultimately show ?case unfolding tally_rep_def by (meson order_trans)
qed

text \<open>The past hour at an instant, and the order of the list shown.\<close>

definition hour_sum :: "(int \<Rightarrow> nat) \<Rightarrow> real \<Rightarrow> nat" where
  "hour_sum h now = (\<Sum>k \<in> {minute_of now - 59..minute_of now}. h k)"

abbreviation "busy_key \<equiv> \<lambda>c. (- int (tp_requests c), tp_client c)"

lemma take_sorted_least:
  assumes "sorted (map f xs)" "x \<in> set xs" "x \<notin> set (take n xs)" "y \<in> set (take n xs)"
  shows "f y \<le> f x"
proof -
  have "x \<in> set (drop n xs)" using assms(2,3) by (metis Un_iff append_take_drop_id set_append)
  moreover have "sorted (map f (take n xs) @ map f (drop n xs))"
    using assms(1) by (metis append_take_drop_id map_append)
  ultimately show ?thesis using assms(4) by (auto simp: sorted_append)
qed

text \<open>
  The list of busiest clients is right: for requests in time order from no more
  clients than the table holds, each row shows exactly the requests its client sent in the
  past sixty minutes and how many of them were limited, the rows are in order, busiest
  first, with no client twice, and a client left out of a full list is no busier than any
  row of it.
\<close>

theorem tally_top_exact:
  fixes n :: nat
  assumes "sorted (event_times rs)" "\<forall>x \<in> set (event_times rs). x \<le> now"
    and "card (event_keys inet rs) \<le> kMaxClients" "length rs \<le> UINT32_MAX"
  defines "rows \<equiv> tally_top n now (tally_run inet rs)"
  shows "(\<forall>c \<in> set rows. 0 < tp_requests c \<and> tp_requests c = hour_sum (sent_in inet rs (tp_client c)) now
        \<and> tp_limited c = hour_sum (limited_in inet rs (tp_client c)) now)
    \<and> sorted (map busy_key rows) \<and> distinct (map tp_client rows) \<and> length rows \<le> n
    \<and> (\<forall>key. 0 < hour_sum (sent_in inet rs key) now \<longrightarrow> key \<in> tp_client ` set rows
          \<or> (length rows = n \<and> (\<forall>c \<in> set rows. hour_sum (sent_in inet rs key) now \<le> tp_requests c)))"
proof -
  let ?t = "tally_run inet rs"
  have rep: "tally_rep inet rs now ?t" using assms(1-4) by (rule tally_run_rep)
  define row where "row = (\<lambda>(key, e). let (r, l) = entry_sum e (minute_of now)
      in \<lparr>tp_client = key, tp_requests = r, tp_limited = l\<rparr>)"
  define present where "present = filter (\<lambda>c. 0 < tp_requests c) (map row (ct_clients ?t))"
  have rows: "rows = take (min n (length present)) (sort_key busy_key present)"
    by (simp add: rows_def tally_top_def Let_def present_def row_def)
  have row: "row (key, e) = \<lparr>tp_client = key, tp_requests = hour_sum (sent_in inet rs key) now,
      tp_limited = hour_sum (limited_in inet rs key) now\<rparr>" if "(key, e) \<in> set (ct_clients ?t)" for key e
    using that rep entry_sum_rep[of "sent_in inet rs key" "limited_in inet rs key" e "minute_of now"]
    by (auto simp: tally_rep_def table_wf_def row_def hour_sum_def)
  have names: "map tp_client (map row (ct_clients ?t)) = map fst (ct_clients ?t)"
    by (auto simp: row_def Let_def split: prod.splits)
  have in_rows: "set rows \<subseteq> set present" using set_take_subset by (fastforce simp: rows)
  have "distinct (map tp_client present)"
    using rep names unfolding present_def tally_rep_def table_wf_def by (metis distinct_map_filter)
  then have "distinct (map tp_client (sort_key busy_key present))"
    by (simp add: distinct_map)
  then have dist: "distinct (map tp_client rows)" by (simp add: rows flip: take_map)
  have srt: "sorted (map busy_key rows)" by (simp add: rows flip: take_map)
  have exact: "\<forall>c \<in> set rows. 0 < tp_requests c \<and> tp_requests c = hour_sum (sent_in inet rs (tp_client c)) now
        \<and> tp_limited c = hour_sum (limited_in inet rs (tp_client c)) now"
    using in_rows row by (force simp: present_def)
  have left: "key \<in> tp_client ` set rows
        \<or> (length rows = n \<and> (\<forall>c \<in> set rows. hour_sum (sent_in inet rs key) now \<le> tp_requests c))"
    if busy: "0 < hour_sum (sent_in inet rs key) now" for key
  proof -
    have "key \<in> event_keys inet rs" using busy no_key_none_sent[of key inet rs] by (force simp: hour_sum_def)
    then have "key \<in> fst ` set (ct_clients ?t)" using rep by (simp add: tally_rep_def)
    then obtain e where e: "(key, e) \<in> set (ct_clients ?t)" by auto
    let ?c = "row (key, e)"
    have c: "?c \<in> set present" using e busy row[OF e] imageI[OF e, of row] by (simp add: present_def)
    show ?thesis
    proof (cases "?c \<in> set rows")
      case True
      then show ?thesis using row[OF e] by force
    next
      case False
      then have "n < length present" using c by (cases "length present \<le> n") (auto simp: rows min_def)
      moreover have "hour_sum (sent_in inet rs key) now \<le> tp_requests y" if "y \<in> set rows" for y
        using take_sorted_least[of busy_key "sort_key busy_key present" ?c "min n (length present)" y]
          c False that row[OF e] by (auto simp: rows)
      ultimately show ?thesis by (simp add: rows)
    qed
  qed
  have "length rows \<le> n" by (simp add: rows)
  with exact srt dist left show ?thesis by blast
qed

text \<open>Two clients on private addresses, one of them limited once.\<close>

definition demo_events :: "tally_event list" where
  "demo_events = [(Sin [10, 0, 0, 1], 30, False), (Sin [10, 0, 0, 2], 90, False), (Sin [10, 0, 0, 2], 100, True)]"

theorem tally_top_exact_witness:
  "sorted (map busy_key (tally_top 10 4000 (tally_run demo_inet demo_events)))"
proof -
  have "card (event_keys demo_inet demo_events) \<le> card ((\<lambda>r. the (event_key demo_inet r)) ` set demo_events)"
    by (rule card_mono) (force simp: event_keys_def)+
  also have "\<dots> \<le> length demo_events" by (rule order_trans[OF card_image_le]) (simp_all add: card_length)
  also have "\<dots> \<le> kMaxClients" by (simp add: demo_events_def kMaxClients_def)
  finally show ?thesis
    using tally_top_exact[of demo_events 4000 demo_inet 10]
    by (simp add: demo_events_def event_times_def UINT32_MAX_def)
qed

end
