(* ===== verification/Source_Snapshot.thy ===== *)
theory Source_Snapshot
  imports Ntp_Prelude
begin

text \<open>
  What one source reports about itself (\<^verbatim>\<open>src/src/SourceSnapshot.h\<close>) and the clock
  configuration (\<^verbatim>\<open>src/src/Config.h\<close>), with the fields the selector, the upstream peers
  and the server read or write. The radio's decoder and link diagnostics, which only
  the status page reads, are left out. Field names carry a prefix, since HOL's record
  fields share one name space.
\<close>

datatype SourceKind = Radio | Ntp

datatype SecondaryMode = Always | Standby | Cold

record ClockConfig =
  ck_primary :: SourceKind
  ck_secondary :: SecondaryMode
  ck_failoverAfterSec :: real
  ck_failbackAfterSec :: real
  ck_minSecondarySources :: int
  ck_minRadioSources :: int
  ck_minNtpSources :: int

definition default_ClockConfig :: ClockConfig where
  "default_ClockConfig =
     \<lparr>ck_primary = Radio, ck_secondary = Standby, ck_failoverAfterSec = 60, ck_failbackAfterSec = 300,
      ck_minSecondarySources = 1, ck_minRadioSources = 0, ck_minNtpSources = 0\<rparr>"

record NtpSourceConfig =
  nc_name :: string
  nc_server :: string
  nc_port :: int
  nc_enabled :: bool
  nc_pollSeconds :: real
  nc_iburst :: bool
  nc_weight :: real
  nc_maxRootDistanceMs :: real
  nc_maxStratum :: int
  nc_extraDelayMs :: real

record NtpPeerInfo =
  np_server :: string
  np_address :: string
  np_addressHost :: string
  np_port :: int
  np_dnsTtlSec :: int
  np_nextResolveInSec :: real
  np_stratum :: int
  np_refid :: string
  np_leap :: int
  np_rootDelaySec :: real
  np_rootDispersionSec :: real
  np_serverPrecisionSec :: real
  np_pollSec :: real
  np_delaySec :: real
  np_filterJitterSec :: real
  np_rootDistanceSec :: real
  np_reach :: octet
  np_lastReplyAgeSec :: real
  np_sent :: nat
  np_received :: nat
  np_rejected :: nat
  np_spikes :: nat
  np_lastRejectReason :: string
  np_maxRootDistanceSec :: real
  np_maxStratum :: int
  np_configuredPollSec :: real
  np_addressRefid :: wire32
  np_kissCode :: string
  np_stopped :: bool

definition default_NtpPeerInfo :: NtpPeerInfo where
  "default_NtpPeerInfo =
     \<lparr>np_server = '''', np_address = '''', np_addressHost = '''', np_port = 123, np_dnsTtlSec = -1,
      np_nextResolveInSec = -1, np_stratum = 0, np_refid = '''', np_leap = 0, np_rootDelaySec = 0,
      np_rootDispersionSec = 0, np_serverPrecisionSec = 0, np_pollSec = 0, np_delaySec = 0,
      np_filterJitterSec = 0, np_rootDistanceSec = 0, np_reach = 0, np_lastReplyAgeSec = 10 ^ 9,
      np_sent = 0, np_received = 0, np_rejected = 0, np_spikes = 0, np_lastRejectReason = '''',
      np_maxRootDistanceSec = 0, np_maxStratum = 0, np_configuredPollSec = 0, np_addressRefid = 0,
      np_kissCode = '''', np_stopped = False\<rparr>"

datatype LinkState = Idle | Connecting | Streaming | Backoff | Stopped

text \<open>Identity, readiness, link and decoder state.\<close>

record SnapshotHead =
  sn_name :: string
  sn_url :: string
  sn_enabled :: bool
  sn_kind :: SourceKind
  sn_primaryClass :: bool
  sn_active :: bool
  sn_activeReason :: string
  sn_ready :: bool
  sn_notReadyReason :: string
  sn_link :: LinkState
  sn_linkDetail :: string
  sn_linkAgeSec :: real
  sn_reacquisitions :: nat
  sn_clockState :: string
  sn_station :: string
  sn_lastDecodedUtc :: string
  sn_leapPending :: bool

text \<open>The timing fields every kind of source fills in.\<close>

record SnapshotTiming = SnapshotHead +
  sn_haveOffset :: bool
  sn_offsetSec :: real
  sn_offsetAtSec :: real
  sn_offsetRate :: real
  sn_offsetRateUncertainty :: real
  sn_offsetRateMeasured :: bool
  sn_offsetRateSpanSec :: real
  sn_rateTermSec :: real
  sn_hostOffsetSec :: real
  sn_rawOffsetSec :: real
  sn_jitterSec :: real
  sn_dispersionSec :: real
  sn_weightDispersionSec :: real
  sn_offsetAgeSec :: real
  sn_maxOffsetAgeSec :: real
  sn_offsetSamples :: int

text \<open>The delay model.\<close>

record SnapshotDelay = SnapshotTiming +
  sn_delaySec :: real
  sn_networkSec :: real
  sn_extraSec :: real

record SourceSnapshot = SnapshotDelay +
  sn_ntp :: NtpPeerInfo
  sn_weight :: real

definition default_SourceSnapshot :: SourceSnapshot where
  "default_SourceSnapshot =
     \<lparr>sn_name = '''', sn_url = '''', sn_enabled = True, sn_kind = Radio, sn_primaryClass = True, sn_active = True,
      sn_activeReason = '''', sn_ready = False, sn_notReadyReason = '''', sn_link = Idle, sn_linkDetail = '''',
      sn_linkAgeSec = 0, sn_reacquisitions = 0, sn_clockState = ''stopped'', sn_station = ''unknown'',
      sn_lastDecodedUtc = '''', sn_leapPending = False, sn_haveOffset = False, sn_offsetSec = 0, sn_offsetAtSec = 0, sn_offsetRate = 0,
      sn_offsetRateUncertainty = 0, sn_offsetRateMeasured = False, sn_offsetRateSpanSec = 0,
      sn_rateTermSec = 0, sn_hostOffsetSec = 0, sn_rawOffsetSec = 0, sn_jitterSec = 0, sn_dispersionSec = 0,
      sn_weightDispersionSec = 0, sn_offsetAgeSec = 10 ^ 9, sn_maxOffsetAgeSec = 0, sn_offsetSamples = 0,
      sn_delaySec = 0, sn_networkSec = 0, sn_extraSec = 0, sn_ntp = default_NtpPeerInfo, sn_weight = 1\<rparr>"

end
