(* ===== verification/Marzullo.thy ===== *)
theory Marzullo
  imports Source_Snapshot "HOL-Library.Product_Lexorder"
begin

text \<open>
  The intersection step of \<^verbatim>\<open>Selector::combine\<close> (\<^verbatim>\<open>src/src/Selector.cpp\<close>, lines 96 to 664
  in part): the candidates' asserted intervals are swept in order of their endpoints, the
  stretches where most of them overlap are collected, one of them is picked, and the
  candidates that contain it survive.

  The result: whatever the tie-break, the survivors share a point, everyone who contains
  that point survives, and no set of candidates with an interior point in common is larger.
\<close>

section \<open>The sweep\<close>

record Candidate =
  cd_s :: SourceSnapshot
  cd_offset :: real
  cd_dist :: real
  cd_quality :: real
  cd_weight :: real
  cd_primary :: bool

type_synonym Edge = "real \<times> int"

record Region =
  rg_lo :: real
  rg_hi :: real

definition edges_of :: "Candidate list \<Rightarrow> Edge list" where
  "edges_of cand =
     sort (concat (map (\<lambda>k. [(cd_offset k - cd_dist k, 1), (cd_offset k + cd_dist k, -1)]) cand))"

definition sweep_step :: "Edge \<Rightarrow> int \<times> int \<Rightarrow> int \<times> int" where
  "sweep_step e = (\<lambda>(n, best). let n = n + snd e in (n, if 0 < snd e then max best n else best))"

definition best_overlap :: "Edge list \<Rightarrow> int" where
  "best_overlap edges = snd (fold sweep_step edges (0, 0))"

fun regions_from :: "int \<Rightarrow> int \<Rightarrow> Edge list \<Rightarrow> Region list" where
  "regions_from n best [] = []"
| "regions_from n best (e # es) =
     (let n = n + snd e
      in (if 0 < snd e \<and> n = best
          then [\<lparr>rg_lo = fst e, rg_hi = (case es of [] \<Rightarrow> fst e | e' # _ \<Rightarrow> fst e')\<rparr>] else [])
         @ regions_from n best es)"

definition inRegion :: "Candidate \<Rightarrow> Region \<Rightarrow> bool" where
  "inRegion k r \<longleftrightarrow> cd_offset k - cd_dist k \<le> rg_lo r \<and> rg_lo r \<le> cd_offset k + cd_dist k"

text \<open>How far a region lies from the served time, and the weight behind it.\<close>

definition region_away :: "real \<Rightarrow> Region \<Rightarrow> real" where
  "region_away ref r =
     (if ref < rg_lo r then rg_lo r - ref else if rg_hi r < ref then ref - rg_hi r else 0)"

definition cand_weight :: "Candidate \<Rightarrow> real" where
  "cand_weight k = cd_weight k / (cd_quality k * cd_quality k)"

definition region_score :: "Candidate list \<Rightarrow> Region \<Rightarrow> real" where
  "region_score cand r = fold (\<lambda>k w. if inRegion k r then w + cand_weight k else w) cand 0"

text \<open>The tie-break loops: the first region no later one strictly beats.\<close>

definition pick_region :: "(Region \<Rightarrow> Region \<Rightarrow> bool) \<Rightarrow> Region list \<Rightarrow> nat" where
  "pick_region better rs =
     (if 1 < length rs then fold (\<lambda>i pick. if better (rs ! i) (rs ! pick) then i else pick) [1..<length rs] 0 else 0)"

text \<open>
  \<open>served\<close> is the offset the served time has reached by now, \<open>None\<close> with nothing served yet.
  The result is the survivors, the others, and whether the others were in a tied region.
\<close>

definition intersect :: "real option \<Rightarrow> Candidate list \<Rightarrow> Candidate list \<times> (Candidate \<times> bool) list \<times> int" where
  "intersect served cand =
     (if length cand = 1 then (cand, [], 0)
      else if 1 < length cand then
        let edges = edges_of cand;
            best = best_overlap edges;
            regions = regions_from 0 best edges;
            pick = pick_region
              (case served of
                 Some ref \<Rightarrow> (\<lambda>a b. region_away ref a < region_away ref b)
               | None \<Rightarrow> (\<lambda>a b. region_score cand b < region_score cand a)) regions;
            r = regions ! pick
        in (filter (\<lambda>k. inRegion k r) cand,
            map (\<lambda>k. (k, list_ex (inRegion k) regions)) (filter (\<lambda>k. \<not> inRegion k r) cand), best)
      else ([], [], 0))"

section \<open>Counting overlaps\<close>

abbreviation "lo_of \<equiv> \<lambda>k. cd_offset k - cd_dist k"
abbreviation "hi_of \<equiv> \<lambda>k. cd_offset k + cd_dist k"

definition cnt :: "('a \<Rightarrow> bool) \<Rightarrow> 'a list \<Rightarrow> int" where
  "cnt P xs = int (length (filter P xs))"

lemma cnt_simps [simp]: "cnt P [] = 0" "cnt P (x # xs) = (if P x then 1 else 0) + cnt P xs"
    "cnt P (xs @ ys) = cnt P xs + cnt P ys"
  by (simp_all add: cnt_def)

lemma cnt_nonneg [simp]: "0 \<le> cnt P xs"
  by (simp add: cnt_def)

lemma cnt_mono: "(\<And>x. x \<in> set xs \<Longrightarrow> P x \<Longrightarrow> Q x) \<Longrightarrow> cnt P xs \<le> cnt Q xs"
  by (induction xs) auto

lemma cnt_cong: "(\<And>x. x \<in> set xs \<Longrightarrow> P x = Q x) \<Longrightarrow> cnt P xs = cnt Q xs"
  by (induction xs) auto

lemma cnt_zero: "(\<And>x. x \<in> set xs \<Longrightarrow> \<not> P x) \<Longrightarrow> cnt P xs = 0"
  by (induction xs) auto

lemma cnt_edges:
  "cnt P (edges_of cand) = cnt (\<lambda>k. P (lo_of k, 1)) cand + cnt (\<lambda>k. P (hi_of k, -1)) cand"
proof -
  have "cnt P (sort xs) = cnt P xs" for xs :: "Edge list"
    by (simp add: cnt_def filter_sort)
  moreover have "cnt P (concat (map (\<lambda>k. [(lo_of k, 1), (hi_of k, -1)]) cand))
      = cnt (\<lambda>k. P (lo_of k, 1)) cand + cnt (\<lambda>k. P (hi_of k, -1)) cand"
    by (induction cand) auto
  ultimately show ?thesis by (simp add: edges_of_def)
qed

lemma edges_delta: "e \<in> set (edges_of cand) \<Longrightarrow> snd e = 1 \<or> snd e = -1"
  by (auto simp: edges_of_def)

lemma delta_sum: "\<forall>e \<in> set xs. snd e = 1 \<or> snd e = (-1::int) \<Longrightarrow>
    (\<Sum>e\<leftarrow>xs. snd e) = cnt (\<lambda>e. snd e = 1) xs - cnt (\<lambda>e. snd e = -1) xs"
  by (induction xs) auto

text \<open>How many candidates hold \<open>x\<close>, their upper end excluded.\<close>

definition holding :: "Candidate list \<Rightarrow> real \<Rightarrow> int" where
  "holding cand x = cnt (\<lambda>k. lo_of k \<le> x \<and> x < hi_of k) cand"

definition proper :: "Candidate list \<Rightarrow> bool" where
  "proper cand \<longleftrightarrow> (\<forall>k \<in> set cand. 0 < cd_dist k)"

lemma holding_diff:
  "proper cand \<Longrightarrow> holding cand x = cnt (\<lambda>k. lo_of k \<le> x) cand - cnt (\<lambda>k. hi_of k \<le> x) cand"
  by (induction cand) (auto simp: holding_def proper_def)

text \<open>The open count just after an opening edge never exceeds the candidates holding it.\<close>

lemma open_le_holding:
  assumes "proper cand" and e: "edges_of cand = pre @ (x, 1) # post"
  shows "(\<Sum>e\<leftarrow>pre. snd e) + 1 \<le> holding cand x"
    and "(x, 1) \<notin> set post \<Longrightarrow> (\<Sum>e\<leftarrow>pre. snd e) + 1 = holding cand x"
proof -
  have srt: "sorted (pre @ (x, 1) # post)" unfolding e[symmetric] by (simp add: edges_of_def)
  have deltas: "\<forall>e \<in> set (pre @ (x, 1) # post). snd e = 1 \<or> snd e = -1"
    using edges_delta[of _ cand] unfolding e by blast
  have before: "fst e \<le> x" if "e \<in> set pre" for e
  proof -
    have "e \<le> (x, 1)" using srt that by (simp add: sorted_append)
    then show ?thesis by (cases e) auto
  qed
  have after: "x < fst e \<or> (x = fst e \<and> 1 \<le> snd e)" if "e \<in> set post" for e
  proof -
    have "(x, 1) \<le> e" using srt that by (simp add: sorted_append)
    then show ?thesis by (cases e) auto
  qed
  have "cnt (\<lambda>e. snd e = -1 \<and> fst e \<le> x) pre = cnt (\<lambda>e. snd e = -1) pre"
    using before by (intro cnt_cong) blast
  moreover have "cnt (\<lambda>e. snd e = -1 \<and> fst e \<le> x) post = 0" using after by (intro cnt_zero) force
  ultimately have "cnt (\<lambda>e. snd e = -1) pre = cnt (\<lambda>e. snd e = -1 \<and> fst e \<le> x) (pre @ (x, 1) # post)" by simp
  also have "\<dots> = cnt (\<lambda>k. hi_of k \<le> x) cand" unfolding e[symmetric] cnt_edges by (simp add: cnt_zero)
  finally have closed: "cnt (\<lambda>e. snd e = -1) pre = cnt (\<lambda>k. hi_of k \<le> x) cand" .
  have opened: "cnt (\<lambda>e. snd e = 1 \<and> fst e \<le> x) (pre @ (x, 1) # post) = cnt (\<lambda>k. lo_of k \<le> x) cand"
    unfolding e[symmetric] cnt_edges by (simp add: cnt_zero)
  have pre1: "cnt (\<lambda>e. snd e = 1 \<and> fst e \<le> x) pre = cnt (\<lambda>e. snd e = 1) pre"
    using before by (intro cnt_cong) blast
  have ds: "(\<Sum>e\<leftarrow>pre. snd e) = cnt (\<lambda>e. snd e = 1) pre - cnt (\<lambda>e. snd e = -1) pre"
    using deltas by (intro delta_sum) auto
  show "(\<Sum>e\<leftarrow>pre. snd e) + 1 \<le> holding cand x"
    using ds closed opened[simplified] pre1 cnt_nonneg[of "\<lambda>e. snd e = 1 \<and> fst e \<le> x" post]
    unfolding holding_diff[OF assms(1)] by linarith
  assume last: "(x, 1) \<notin> set post"
  have "cnt (\<lambda>e. snd e = 1 \<and> fst e \<le> x) post = 0"
    using after last by (intro cnt_zero) (metis not_less prod.collapse)
  then show "(\<Sum>e\<leftarrow>pre. snd e) + 1 = holding cand x"
    using ds closed opened pre1 by (simp add: holding_diff[OF assms(1)])
qed

text \<open>The best overlap is the largest open count after an opening edge.\<close>

lemma sweep_Cons:
  "fold sweep_step (a # edges) (n, b) = fold sweep_step edges (n + snd a, if 0 < snd a then max b (n + snd a) else b)"
  by (simp add: sweep_step_def Let_def)

lemma sweep_keeps: "b \<le> snd (fold sweep_step edges (n, b))"
proof (induction edges arbitrary: n b)
  case (Cons a edges)
  show ?case
    using Cons[of "max b (n + snd a)" "n + snd a"] Cons[of b "n + snd a"]
    by (simp only: sweep_Cons) (simp split: if_splits)
qed simp

lemma sweep_reaches:
  "0 < snd e \<Longrightarrow> n + (\<Sum>e\<leftarrow>pre. snd e) + snd e \<le> snd (fold sweep_step (pre @ e # post) (n, b))"
proof (induction pre arbitrary: n b)
  case Nil
  then show ?case
    using sweep_keeps[of "max b (n + snd e)" post "n + snd e"] by (simp only: append_Nil sweep_Cons) simp
next
  case (Cons a pre)
  then show ?case
    using Cons.IH[of "n + snd a" "if 0 < snd a then max b (n + snd a) else b"]
    by (simp only: append_Cons sweep_Cons list.map sum_list.Cons add.assoc)
qed

lemma sweep_attained:
  "snd (fold sweep_step edges (n, b)) = b \<or> (\<exists>pre e post. edges = pre @ e # post \<and> 0 < snd e
     \<and> snd (fold sweep_step edges (n, b)) = n + (\<Sum>e\<leftarrow>pre. snd e) + snd e)"
proof (induction edges arbitrary: n b)
  case Nil
  then show ?case by simp
next
  case (Cons a edges)
  let ?n = "n + snd a" and ?b = "if 0 < snd a then max b (n + snd a) else b"
  from Cons[of ?n ?b] show ?case unfolding sweep_Cons
  proof
    assume "snd (fold sweep_step edges (?n, ?b)) = ?b"
    then show "snd (fold sweep_step edges (?n, ?b)) = b \<or> (\<exists>pre e post. a # edges = pre @ e # post \<and> 0 < snd e
        \<and> snd (fold sweep_step edges (?n, ?b)) = n + (\<Sum>e\<leftarrow>pre. snd e) + snd e)"
      by (cases "0 < snd a \<and> b < n + snd a", intro disjI2 exI[of _ "[]"] exI[of _ a] exI[of _ edges])
        (auto simp: max_def)
  next
    assume "\<exists>pre e post. edges = pre @ e # post \<and> 0 < snd e
        \<and> snd (fold sweep_step edges (?n, ?b)) = ?n + (\<Sum>e\<leftarrow>pre. snd e) + snd e"
    then obtain pre e post where "edges = pre @ e # post" "0 < snd e"
        "snd (fold sweep_step edges (?n, ?b)) = ?n + (\<Sum>e\<leftarrow>pre. snd e) + snd e" by blast
    then show "snd (fold sweep_step edges (?n, ?b)) = b \<or> (\<exists>pre e post. a # edges = pre @ e # post \<and> 0 < snd e
        \<and> snd (fold sweep_step edges (?n, ?b)) = n + (\<Sum>e\<leftarrow>pre. snd e) + snd e)"
      by (intro disjI2 exI[of _ "a # pre"] exI[of _ e] exI[of _ post]) auto
  qed
qed

text \<open>No point is held by more candidates than the best overlap, and each region is held by as many.\<close>

lemma holding_le_best:
  assumes "proper cand" "j \<in> set cand"
  shows "holding cand (lo_of j) \<le> best_overlap (edges_of cand)"
proof -
  have "(lo_of j, 1) \<in> set (edges_of cand)" using assms(2) by (auto simp: edges_of_def)
  then obtain pre post where e: "edges_of cand = pre @ (lo_of j, 1) # post" "(lo_of j, 1) \<notin> set post"
    by (meson split_list_last)
  show ?thesis
    using open_le_holding(2)[OF assms(1) e] sweep_reaches[of "(lo_of j, 1)" 0 pre post 0]
    by (simp add: best_overlap_def e(1))
qed

lemma region_elem:
  "r \<in> set (regions_from n best es) \<Longrightarrow>
     \<exists>pre e post. es = pre @ e # post \<and> 0 < snd e \<and> rg_lo r = fst e \<and> n + (\<Sum>e\<leftarrow>pre. snd e) + snd e = best"
proof (induction es arbitrary: n)
  case Nil
  then show ?case by simp
next
  case (Cons a es)
  show ?case
  proof (cases "r \<in> set (regions_from (n + snd a) best es)")
    case True
    then obtain pre e post where "es = pre @ e # post" "0 < snd e" "rg_lo r = fst e"
        "n + snd a + (\<Sum>e\<leftarrow>pre. snd e) + snd e = best" using Cons.IH by blast
    then show ?thesis by (intro exI[of _ "a # pre"] exI[of _ e] exI[of _ post]) auto
  next
    case False
    then show ?thesis using Cons.prems by (intro exI[of _ "[]"] exI[of _ a] exI[of _ es]) (auto simp: Let_def split: if_splits)
  qed
qed

lemma region_exists:
  "es = pre @ e # post \<Longrightarrow> 0 < snd e \<Longrightarrow> n + (\<Sum>e\<leftarrow>pre. snd e) + snd e = best \<Longrightarrow> regions_from n best es \<noteq> []"
  by (induction pre arbitrary: n es) (auto simp: Let_def add.assoc)

lemma region_held:
  assumes "proper cand" "r \<in> set (regions_from 0 (best_overlap (edges_of cand)) (edges_of cand))"
  shows "best_overlap (edges_of cand) \<le> cnt (\<lambda>k. inRegion k r) cand"
proof -
  obtain pre e post where e: "edges_of cand = pre @ e # post" "0 < snd e" "rg_lo r = fst e"
      "(\<Sum>e\<leftarrow>pre. snd e) + snd e = best_overlap (edges_of cand)"
    using region_elem[OF assms(2)] by auto
  have "snd e = 1" using edges_delta[of e cand] e(1,2) by auto
  then have "best_overlap (edges_of cand) \<le> holding cand (rg_lo r)"
    using open_le_holding(1)[OF assms(1), of pre "fst e" post] e by (metis prod.collapse)
  also have "\<dots> \<le> cnt (\<lambda>k. inRegion k r) cand"
    unfolding holding_def by (rule cnt_mono) (auto simp: inRegion_def)
  finally show ?thesis .
qed

lemma holding_pos:
  assumes "proper cand" "j \<in> set cand"
  shows "0 < holding cand (lo_of j)"
proof -
  have "j \<in> set (filter (\<lambda>k. lo_of k \<le> lo_of j \<and> lo_of j < hi_of k) cand)"
    using assms by (auto simp: proper_def)
  then show ?thesis using length_pos_if_in_set by (fastforce simp: holding_def cnt_def)
qed

lemma regions_nonempty:
  assumes "proper cand" "cand \<noteq> []"
  shows "regions_from 0 (best_overlap (edges_of cand)) (edges_of cand) \<noteq> []"
proof -
  obtain j where j: "j \<in> set cand" using assms(2) by (cases cand) auto
  have "0 < holding cand (lo_of j)" using assms(1) j by (rule holding_pos)
  then have "best_overlap (edges_of cand) \<noteq> 0" using holding_le_best[OF assms(1) j] by simp
  then show ?thesis
    using sweep_attained[of "edges_of cand" 0 0] region_exists by (auto simp: best_overlap_def)
qed

section \<open>The survivors\<close>

lemma pick_region_less:
  assumes "rs \<noteq> []"
  shows "pick_region better rs < length rs"
proof -
  have "fold (\<lambda>i pick. if better (rs ! i) (rs ! pick) then i else pick) is p < length rs"
    if "\<forall>i \<in> set is. i < length rs" "p < length rs" for "is" p
    using that by (induction "is" arbitrary: p) auto
  then show ?thesis using assms by (simp add: pick_region_def)
qed

text \<open>The cases of the intersection: everything is decided by one point, the picked region's lower end.\<close>

lemma intersect_point:
  assumes "proper cand" "cand \<noteq> []"
  obtains x where "fst (intersect served cand) = filter (\<lambda>k. lo_of k \<le> x \<and> x \<le> hi_of k) cand"
    and "\<forall>j \<in> set cand. holding cand (lo_of j) \<le> int (length (fst (intersect served cand)))"
proof (cases "length cand = 1")
  case True
  then obtain k where k: "cand = [k]" by (auto simp: length_Suc_conv)
  show ?thesis
    using assms(1) by (intro that[of "cd_offset k"]) (auto simp: k intersect_def proper_def holding_def)
next
  case False
  let ?best = "best_overlap (edges_of cand)"
  let ?rs = "regions_from 0 ?best (edges_of cand)"
  have many: "1 < length cand" using False assms(2) by (cases cand) (auto simp: less_Suc_eq_0_disj)
  obtain p where p: "p < length ?rs" "fst (intersect served cand) = filter (\<lambda>k. inRegion k (?rs ! p)) cand"
    using many False pick_region_less[OF regions_nonempty[OF assms]] by (auto simp: intersect_def Let_def)
  have "?best \<le> int (length (fst (intersect served cand)))"
    using region_held[OF assms(1) nth_mem[OF p(1)]] by (simp add: p(2) cnt_def)
  then show ?thesis
    using holding_le_best[OF assms(1)] p(2)
    by (intro that[of "rg_lo (?rs ! p)"]) (auto simp: inRegion_def intro: order_trans)
qed

lemma intersect_nonempty:
  assumes "proper cand" "cand \<noteq> []"
  shows "fst (intersect served cand) \<noteq> []"
proof -
  obtain j where j: "j \<in> set cand" using assms(2) by (cases cand) auto
  obtain x where "\<forall>j \<in> set cand. holding cand (lo_of j) \<le> int (length (fst (intersect served cand)))"
    by (rule intersect_point[OF assms, of served])
  with j holding_pos[OF assms(1) j] show ?thesis by fastforce
qed

text \<open>Candidates with an interior point in common are all held by the largest of their lower ends.\<close>

lemma common_interior_le:
  assumes "cand \<noteq> []" and common: "0 < cnt (\<lambda>k. lo_of k < y \<and> y < hi_of k) cand"
  shows "\<exists>j \<in> set cand. cnt (\<lambda>k. lo_of k < y \<and> y < hi_of k) cand \<le> holding cand (lo_of j)"
proof -
  let ?S = "{k \<in> set cand. lo_of k < y \<and> y < hi_of k}"
  have "?S \<noteq> {}" using common by (auto simp: cnt_def filter_empty_conv)
  then have "Max (lo_of ` ?S) \<in> lo_of ` ?S" by (intro Max_in) auto
  then obtain j where "j \<in> ?S" "lo_of j = Max (lo_of ` ?S)" by auto
  then have j: "j \<in> ?S" "\<forall>k \<in> ?S. lo_of k \<le> lo_of j" by (auto intro!: Max_ge)
  have "cnt (\<lambda>k. lo_of k < y \<and> y < hi_of k) cand \<le> holding cand (lo_of j)"
    unfolding holding_def using j by (intro cnt_mono) force
  with j show ?thesis by blast
qed


definition demo_cand :: "real \<Rightarrow> real \<Rightarrow> Candidate" where
  "demo_cand off d = \<lparr>cd_s = default_SourceSnapshot, cd_offset = off, cd_dist = d, cd_quality = d, cd_weight = 1, cd_primary = True\<rparr>"


end
