(* ===== verification/Median.thy ===== *)
theory Median
  imports Ntp_Prelude
begin

text \<open>
  The median as the sources take it: the middle element of the values in order, the mean of
  the two middle ones when there is an even number. \<^verbatim>\<open>OffsetEstimator.cpp\<close> finds it with
  \<^verbatim>\<open>std::nth_element\<close> and \<^verbatim>\<open>std::max_element\<close>, which leave exactly those elements of the sorted
  order; \<^verbatim>\<open>Selector.cpp\<close> sorts. Values more than half of the list lie between hold the median
  between them, which is what makes it robust.
\<close>

definition median :: "real list \<Rightarrow> real" where
  "median v =
     (let s = sort v; mid = length s div 2
      in if length s mod 2 = 1 then s ! mid else 1 / 2 * (s ! (mid - 1) + s ! mid))"

lemma sorted_nth_below:
  assumes "sorted s" "i < length s" "s ! i < (a::real)"
  shows "i < length (filter (\<lambda>x. x < a) s)"
proof -
  have "s ! j < a" if "j \<le> i" for j
    using sorted_nth_mono[OF assms(1) that assms(2)] assms(3) by simp
  then have "\<forall>x \<in> set (take (Suc i) s). x < a"
    using assms(2) by (auto simp: in_set_conv_nth)
  then have "length (filter (\<lambda>x. x < a) (take (Suc i) s)) = Suc i" using assms(2) by simp
  moreover have "length (filter (\<lambda>x. x < a) (take (Suc i) s)) \<le> length (filter (\<lambda>x. x < a) s)"
    by (metis append_take_drop_id filter_append le_add1 length_append)
  ultimately show ?thesis by simp
qed

lemma sorted_nth_above:
  assumes "sorted s" "i < length s" "(b::real) < s ! i"
  shows "length s - i \<le> length (filter (\<lambda>x. b < x) s)"
proof -
  have "b < s ! (i + j)" if "i + j < length s" for j
    using sorted_nth_mono[OF assms(1) le_add1 that] assms(3) by simp
  then have "\<forall>x \<in> set (drop i s). b < x"
    using assms(2) by (auto simp: in_set_conv_nth)
  then have "length (filter (\<lambda>x. b < x) (drop i s)) = length s - i" by simp
  moreover have "length (filter (\<lambda>x. b < x) (drop i s)) \<le> length (filter (\<lambda>x. b < x) s)"
    by (metis append_take_drop_id filter_append le_add2 length_append)
  ultimately show ?thesis by simp
qed

lemma filter_split3:
  assumes "a \<le> (b::real)"
  shows "length xs = length (filter (\<lambda>x. x < a) xs) + length (filter (\<lambda>x. a \<le> x \<and> x \<le> b) xs) + length (filter (\<lambda>x. b < x) xs)"
  using assms by (induction xs) auto

lemma half_rest: "(n::nat) = l + m + g \<Longrightarrow> n < 2 * m \<Longrightarrow> 2 * (l + g) < n"
  by simp

lemma length_filter_sort: "length (filter P (sort xs)) = length (filter P xs)"
  by (simp add: filter_sort)

lemma median_majority:
  assumes "a \<le> b" and maj: "length v < 2 * length (filter (\<lambda>x. a \<le> x \<and> x \<le> b) v)"
  shows "a \<le> median v \<and> median v \<le> b"
proof -
  define s where "s = sort v"
  have s: "sorted s" "length s = length v" by (simp_all add: s_def)
  have "length s < 2 * length (filter (\<lambda>x. a \<le> x \<and> x \<le> b) s)"
    using maj by (simp add: s_def length_filter_sort)
  with filter_split3[OF assms(1)]
  have rest: "2 * (length (filter (\<lambda>x. x < a) s) + length (filter (\<lambda>x. b < x) s)) < length s"
    by (rule half_rest)
  have lo: "a \<le> s ! i" if "length s \<le> 2 * Suc i" "i < length s" for i
    using sorted_nth_below[OF s(1) that(2), of a] that rest by force
  have hi: "s ! i \<le> b" if "2 * i \<le> length s" "i < length s" for i
    using sorted_nth_above[OF s(1) that(2), of b] that rest by force
  have ne: "0 < length s" using rest by (cases "s = []") simp_all
  have med: "median v = (if length s mod 2 = 1 then s ! (length s div 2)
      else 1 / 2 * (s ! (length s div 2 - 1) + s ! (length s div 2)))"
    by (simp add: median_def s_def Let_def)
  show ?thesis
  proof (cases "even (length s)")
    case False
    then obtain m where m: "length s = 2 * m + 1" by (rule oddE)
    have "a \<le> s ! m" using m by (intro lo) simp_all
    moreover have "s ! m \<le> b" using m by (intro hi) simp_all
    ultimately show ?thesis using med m by simp
  next
    case True
    then obtain m where m: "length s = 2 * m" by (rule evenE)
    have "a \<le> s ! (m - 1)" "a \<le> s ! m" using m ne by (auto intro!: lo)
    moreover have "s ! (m - 1) \<le> b" "s ! m \<le> b" using m ne by (auto intro!: hi)
    ultimately show ?thesis using med m by (simp add: field_simps)
  qed
qed

lemma median_between:
  assumes "v \<noteq> []" "\<forall>x \<in> set v. a \<le> x \<and> x \<le> b"
  shows "a \<le> median v \<and> median v \<le> b"
proof (rule median_majority)
  have "filter (\<lambda>x. a \<le> x \<and> x \<le> b) v = v" using assms(2) by simp
  with assms(1) show "length v < 2 * length (filter (\<lambda>x. a \<le> x \<and> x \<le> b) v)" by simp
  from assms show "a \<le> b" by (cases v) auto
qed

lemma median_const: "v \<noteq> [] \<Longrightarrow> \<forall>x \<in> set v. x = c \<Longrightarrow> median v = c"
  using median_between[of v c c] by force

end
