(* ===== verification/Selector_Judge.thy ===== *)
theory Selector_Judge
  imports Marzullo Median
begin

text \<open>
  The first half of \<^verbatim>\<open>Selector::combine\<close> (\<^verbatim>\<open>src/src/Selector.cpp\<close>, lines 85 to 438): which
  sources are candidates, the judgement of each within its own class, the refusals, and
  what the two classes say about each other. The texts shown for a source not in use are
  values of the datatype \<open>NotUsed\<close>, with the figures they print. \<^verbatim>\<open>std::map\<close>s are HOL maps.

  The results: a source in an agreeing majority of its class is never refused, whatever
  the minority does and however its average has been formed; a class of two or fewer
  refuses nobody; and the wait before a refused source starts over grows to an hour and
  no further.
\<close>

section \<open>Candidates\<close>

definition kCandidateMaxAgeSec :: real where "kCandidateMaxAgeSec = 180"
definition kResidualTauSec :: real where "kResidualTauSec = 300"
definition kResidualSettleSec :: real where "kResidualSettleSec = 120"
definition kReacquireAfterSec :: real where "kReacquireAfterSec = 300"
definition kReacquireMaxSec :: real where "kReacquireMaxSec = 3600"
definition kMinPeersToJudge :: int where "kMinPeersToJudge = 2"
definition kMaxDisagreementSec :: real where "kMaxDisagreementSec = 3 / 100"

datatype NotUsed =
    NotReady string
  | Stale real real
  | Filtering int
  | NoDispersion
  | RefusedReacquire real SourceKind
  | RefusedWaiting real SourceKind real
  | StandingBy SourceKind
  | TakingBack real
  | Recovering
  | NoMajority real real int
  | OutsideMajority real real int
  | TooFew int int

definition max_age :: "SourceSnapshot \<Rightarrow> real" where
  "max_age s = (if 0 < sn_maxOffsetAgeSec s then sn_maxOffsetAgeSec s else kCandidateMaxAgeSec)"

text \<open>Why a source is not a candidate; \<open>None\<close> when it is one.\<close>

definition candidate_why :: "SourceSnapshot \<Rightarrow> NotUsed option" where
  "candidate_why s =
     (if \<not> sn_ready s then Some (NotReady (if sn_notReadyReason s = '''' then ''not ready'' else sn_notReadyReason s))
      else if max_age s < sn_offsetAgeSec s then Some (Stale (sn_offsetAgeSec s) (max_age s))
      else if \<not> sn_haveOffset s then Some (Filtering (sn_offsetSamples s))
      else if sn_dispersionSec s \<le> 0 then Some NoDispersion
      else None)"

definition candidate_of :: "real \<Rightarrow> real \<Rightarrow> SourceSnapshot \<Rightarrow> Candidate" where
  "candidate_of coastDriftPpm now s =
     (let offsetNow = sn_offsetSec s + sn_offsetRate s * (now - sn_offsetAtSec s);
          staleness = sn_offsetAgeSec s * (coastDriftPpm * (1 / 10 ^ 6) + sn_offsetRateUncertainty s);
          quality = (if 0 < sn_weightDispersionSec s then sn_weightDispersionSec s else sn_dispersionSec s) + staleness
      in \<lparr>cd_s = s, cd_offset = offsetNow, cd_dist = sn_dispersionSec s + staleness, cd_quality = quality,
          cd_weight = (if 0 < sn_weight s then sn_weight s else 1), cd_primary = sn_primaryClass s\<rparr>)"

text \<open>The candidates of the two classes, and the reasons of the rest.\<close>

definition split_sources ::
  "real \<Rightarrow> real \<Rightarrow> SourceSnapshot list \<Rightarrow> Candidate list \<times> Candidate list \<times> string list \<times> (string \<rightharpoonup> NotUsed)" where
  "split_sources coastDriftPpm now snaps =
     fold (\<lambda>s (pc, sc, rej, why).
         case candidate_why s of
           Some r \<Rightarrow> (pc, sc, rej @ [sn_name s], why(sn_name s \<mapsto> r))
         | None \<Rightarrow> (let k = candidate_of coastDriftPpm now s
                   in if sn_primaryClass s then (pc @ [k], sc, rej, why) else (pc, sc @ [k], rej, why)))
       snaps ([], [], [], Map.empty)"

definition medianOffset :: "Candidate list \<Rightarrow> real" where
  "medianOffset v =
     (if v = [] then 0
      else let a = sort (map cd_offset v); mid = length a div 2
           in if length a mod 2 = 1 then a ! mid else 1 / 2 * (a ! (mid - 1) + a ! mid))"

section \<open>Judging a class\<close>

record SourceResidual =
  rs_name :: string
  rs_instantSec :: real
  rs_averagedSec :: real
  rs_haveAverage :: bool
  rs_peers :: int
  rs_refused :: bool
  rs_judged :: bool
  rs_settledForSec :: real
  rs_kind :: SourceKind

record ResidualState =
  ra_averagedSec :: real
  ra_lastAtSec :: real
  ra_firstAtSec :: real
  ra_refusalLogged :: bool
  ra_seeded :: bool

definition default_ResidualState :: ResidualState where
  "default_ResidualState =
     \<lparr>ra_averagedSec = 0, ra_lastAtSec = 0, ra_firstAtSec = 0, ra_refusalLogged = False, ra_seeded = False\<rparr>"

record ReacquireState =
  rq_refusedSinceSec :: real
  rq_count :: nat

definition default_ReacquireState :: ReacquireState where
  "default_ReacquireState = \<lparr>rq_refusedSinceSec = 0, rq_count = 0\<rparr>"

text \<open>What the judging lambda captures: the two maps the selector keeps, and this call's results.\<close>

record Judging =
  jg_residualAvg :: "string \<rightharpoonup> ResidualState"
  jg_reacquire :: "string \<rightharpoonup> ReacquireState"
  jg_refused :: "string set"
  jg_refusalWhy :: "string \<rightharpoonup> NotUsed"
  jg_reacquireNames :: "string list"
  jg_residuals :: "SourceResidual list"

definition residual_update :: "real \<Rightarrow> real \<Rightarrow> int \<Rightarrow> ResidualState \<Rightarrow> ResidualState" where
  "residual_update now instant peers ra0 =
     (let ra = (if kMinPeersToJudge \<le> peers then
                  if \<not> ra_seeded ra0
                  then ra0\<lparr>ra_seeded := True, ra_averagedSec := instant, ra_firstAtSec := now\<rparr>
                  else let dt = now - ra_lastAtSec ra0
                       in if 0 < dt
                          then let alpha = 1 - exp (- dt / kResidualTauSec)
                               in ra0\<lparr>ra_averagedSec := ra_averagedSec ra0 + alpha * (instant - ra_averagedSec ra0)\<rparr>
                          else ra0
                else ra0)
      in ra\<lparr>ra_lastAtSec := now\<rparr>)"

definition residual_of :: "real \<Rightarrow> real \<Rightarrow> int \<Rightarrow> ResidualState \<Rightarrow> SourceSnapshot \<Rightarrow> SourceResidual" where
  "residual_of now instant peers ra s =
     (let averaged = (if ra_seeded ra then ra_averagedSec ra else instant);
          settled = (if ra_seeded ra then now - ra_firstAtSec ra else 0);
          judged = (kMinPeersToJudge \<le> peers \<and> kResidualSettleSec \<le> settled)
      in \<lparr>rs_name = sn_name s, rs_instantSec = instant, rs_averagedSec = averaged, rs_haveAverage = True,
          rs_peers = peers, rs_refused = judged \<and> kMaxDisagreementSec < \<bar>averaged\<bar>, rs_judged = judged,
          rs_settledForSec = settled, rs_kind = sn_kind s\<rparr>)"

definition reacquire_wait :: "nat \<Rightarrow> real" where
  "reacquire_wait count = min (kReacquireAfterSec * 2 ^ count) kReacquireMaxSec"

text \<open>The refusal timer of one source: the new state, and whether it is sent back to start over.\<close>

definition reacquire_step :: "real \<Rightarrow> bool \<Rightarrow> bool \<Rightarrow> ReacquireState \<Rightarrow> ReacquireState \<times> bool" where
  "reacquire_step now refused judged rq0 =
     (if refused then
        let rq = (if rq_refusedSinceSec rq0 \<le> 0 then rq0\<lparr>rq_refusedSinceSec := now\<rparr> else rq0)
        in if reacquire_wait (rq_count rq) \<le> now - rq_refusedSinceSec rq
           then (\<lparr>rq_refusedSinceSec = 0, rq_count = rq_count rq + 1\<rparr>, True)
           else (rq, False)
      else if judged then (\<lparr>rq_refusedSinceSec = 0, rq_count = 0\<rparr>, False)
      else (rq0, False))"

definition judge_one :: "real \<Rightarrow> real \<Rightarrow> int \<Rightarrow> Candidate \<Rightarrow> Judging \<Rightarrow> Judging" where
  "judge_one now consensus n k jg =
     (let s = cd_s k; name = sn_name s;
          instant = cd_offset k - consensus;
          peers = n - 1;
          ra0 = (case jg_residualAvg jg name of Some ra \<Rightarrow> ra | None \<Rightarrow> default_ResidualState);
          ra1 = residual_update now instant peers ra0;
          r = residual_of now instant peers ra1 s;
          rq0 = (case jg_reacquire jg name of Some rq \<Rightarrow> rq | None \<Rightarrow> default_ReacquireState);
          (rq, again) = reacquire_step now (rs_refused r) (rs_judged r) rq0;
          since = (if rq_refusedSinceSec rq0 \<le> 0 then now else rq_refusedSinceSec rq0);
          ra = ra1\<lparr>ra_refusalLogged := (if rs_refused r \<or> rs_judged r then rs_refused r else ra_refusalLogged ra1)\<rparr>
      in jg\<lparr>jg_residualAvg := (jg_residualAvg jg)(name \<mapsto> ra),
            jg_reacquire := (jg_reacquire jg)(name \<mapsto> rq),
            jg_refused := (if rs_refused r then insert name (jg_refused jg) else jg_refused jg),
            jg_refusalWhy := (if rs_refused r
              then (jg_refusalWhy jg)(name \<mapsto>
                (if again then RefusedReacquire (rs_averagedSec r) (rs_kind r)
                 else RefusedWaiting (rs_averagedSec r) (rs_kind r)
                        (of_int \<lceil>(reacquire_wait (rq_count rq0) - (now - since)) / 60\<rceil>)))
              else jg_refusalWhy jg),
            jg_reacquireNames := (if again then jg_reacquireNames jg @ [name] else jg_reacquireNames jg),
            jg_residuals := jg_residuals jg @ [r]\<rparr>)"

definition judgeClass :: "real \<Rightarrow> Candidate list \<Rightarrow> Judging \<Rightarrow> Judging" where
  "judgeClass now cand jg = fold (judge_one now (medianOffset cand) (int (length cand))) cand jg"

text \<open>Both classes, each judged on its own, then the averages of sources sent back forgotten.\<close>

definition judge_begin :: "(string \<rightharpoonup> ResidualState) \<Rightarrow> (string \<rightharpoonup> ReacquireState) \<Rightarrow> Judging" where
  "judge_begin avg rq =
     \<lparr>jg_residualAvg = avg, jg_reacquire = rq, jg_refused = {}, jg_refusalWhy = Map.empty, jg_reacquireNames = [],
      jg_residuals = []\<rparr>"

definition judge_sources ::
  "real \<Rightarrow> Candidate list \<Rightarrow> Candidate list \<Rightarrow> (string \<rightharpoonup> ResidualState) \<Rightarrow> (string \<rightharpoonup> ReacquireState) \<Rightarrow> Judging" where
  "judge_sources now primaryCand secondaryCand avg rq =
     (let jg = judgeClass now secondaryCand (judgeClass now primaryCand (judge_begin avg rq))
      in jg\<lparr>jg_residualAvg := fold (\<lambda>n m. m(n := None)) (jg_reacquireNames jg) (jg_residualAvg jg)\<rparr>)"

text \<open>The candidates kept, and the names dropped with their reasons.\<close>

definition dropRefused ::
  "Judging \<Rightarrow> Candidate list \<Rightarrow> string list \<times> (string \<rightharpoonup> NotUsed) \<Rightarrow> Candidate list \<times> string list \<times> (string \<rightharpoonup> NotUsed)" where
  "dropRefused jg cand = (\<lambda>(rej, why).
     if jg_refused jg = {} then (cand, rej, why)
     else fold (\<lambda>k (kept, rej, why).
            if sn_name (cd_s k) \<in> jg_refused jg
            then (kept, rej @ [sn_name (cd_s k)], why(sn_name (cd_s k) := jg_refusalWhy jg (sn_name (cd_s k))))
            else (kept @ [k], rej, why)) cand ([], rej, why))"

section \<open>What the classes say about each other\<close>

record ClassDelta =
  dl_valid :: bool
  dl_instantSec :: real
  dl_averagedSec :: real
  dl_haveAverage :: bool
  dl_settledForSec :: real
  dl_primarySources :: int
  dl_secondarySources :: int

record ClassDeltaState =
  ds_seeded :: bool
  ds_averagedSec :: real
  ds_lastAtSec :: real
  ds_firstAtSec :: real

definition default_ClassDelta :: ClassDelta where
  "default_ClassDelta =
     \<lparr>dl_valid = False, dl_instantSec = 0, dl_averagedSec = 0, dl_haveAverage = False, dl_settledForSec = 0,
      dl_primarySources = 0, dl_secondarySources = 0\<rparr>"

definition default_ClassDeltaState :: ClassDeltaState where
  "default_ClassDeltaState = \<lparr>ds_seeded = False, ds_averagedSec = 0, ds_lastAtSec = 0, ds_firstAtSec = 0\<rparr>"

definition class_delta ::
  "real \<Rightarrow> Candidate list \<Rightarrow> Candidate list \<Rightarrow> ClassDeltaState \<Rightarrow> ClassDelta \<times> ClassDeltaState" where
  "class_delta now primaryCand secondaryCand ds0 =
     (if primaryCand \<noteq> [] \<and> secondaryCand \<noteq> [] then
        let instant = medianOffset primaryCand - medianOffset secondaryCand;
            ds1 = (if \<not> ds_seeded ds0
                   then ds0\<lparr>ds_seeded := True, ds_averagedSec := instant, ds_firstAtSec := now\<rparr>
                   else let dt = now - ds_lastAtSec ds0
                        in if 0 < dt
                           then let alpha = 1 - exp (- dt / kResidualTauSec)
                                in ds0\<lparr>ds_averagedSec := ds_averagedSec ds0 + alpha * (instant - ds_averagedSec ds0)\<rparr>
                           else ds0);
            ds = ds1\<lparr>ds_lastAtSec := now\<rparr>
        in (\<lparr>dl_valid = True, dl_instantSec = instant, dl_averagedSec = ds_averagedSec ds, dl_haveAverage = True,
             dl_settledForSec = now - ds_firstAtSec ds, dl_primarySources = int (length primaryCand),
             dl_secondarySources = int (length secondaryCand)\<rparr>, ds)
      else (default_ClassDelta, default_ClassDeltaState))"

section \<open>The median of an agreeing majority\<close>

lemma medianOffset_median: "v \<noteq> [] \<Longrightarrow> medianOffset v = median (map cd_offset v)"
  by (simp add: medianOffset_def median_def Let_def)

lemma medianOffset_majority:
  assumes "a \<le> b" and "length v < 2 * length (filter (\<lambda>k. a \<le> cd_offset k \<and> cd_offset k \<le> b) v)"
  shows "a \<le> medianOffset v \<and> medianOffset v \<le> b"
proof -
  have "v \<noteq> []" using assms(2) by auto
  then show ?thesis
    using median_majority[OF assms(1), of "map cd_offset v"] assms(2)
    by (simp add: medianOffset_median filter_map o_def)
qed

section \<open>Who is refused\<close>

definition avg_ok :: "ResidualState \<Rightarrow> bool" where
  "avg_ok ra \<longleftrightarrow> (ra_seeded ra \<longrightarrow> \<bar>ra_averagedSec ra\<bar> \<le> kMaxDisagreementSec)"

lemma abs_blend:
  fixes d :: real
  assumes "\<bar>x\<bar> \<le> d" "\<bar>y\<bar> \<le> d" "0 \<le> w" "w \<le> 1"
  shows "\<bar>x + w * (y - x)\<bar> \<le> d"
proof -
  have "x + w * (y - x) = (1 - w) * x + w * y" by (simp add: algebra_simps)
  also have "\<bar>\<dots>\<bar> \<le> (1 - w) * \<bar>x\<bar> + w * \<bar>y\<bar>"
    using assms(3,4) by (metis abs_triangle_ineq abs_mult abs_of_nonneg diff_ge_0_iff_ge)
  also have "\<dots> \<le> (1 - w) * d + w * d" using assms by (intro add_mono mult_left_mono) auto
  finally show ?thesis by (simp add: algebra_simps)
qed

lemma residual_update_ok:
  assumes "avg_ok ra" "\<bar>instant\<bar> \<le> kMaxDisagreementSec"
  shows "avg_ok (residual_update now instant peers ra)"
proof -
  have "\<bar>ra_averagedSec ra + (1 - exp ((ra_lastAtSec ra - now) / kResidualTauSec)) * (instant - ra_averagedSec ra)\<bar>
      \<le> kMaxDisagreementSec" if "ra_seeded ra" "ra_lastAtSec ra < now"
    using that assms by (intro abs_blend) (auto simp: avg_ok_def kResidualTauSec_def)
  then show ?thesis using assms by (auto simp: avg_ok_def residual_update_def Let_def)
qed

text \<open>The refused sources and the averages after one judgement.\<close>

lemma judge_one_refused:
  "jg_refused (judge_one now consensus n k jg) =
     (let ra = residual_update now (cd_offset k - consensus) (n - 1)
                 (case jg_residualAvg jg (sn_name (cd_s k)) of Some ra \<Rightarrow> ra | None \<Rightarrow> default_ResidualState)
      in if rs_refused (residual_of now (cd_offset k - consensus) (n - 1) ra (cd_s k))
         then insert (sn_name (cd_s k)) (jg_refused jg) else jg_refused jg)"
  by (simp add: judge_one_def Let_def split: prod.split)

lemma judge_one_avg:
  fixes now consensus n k jg
  defines "ra0 \<equiv> residual_update now (cd_offset k - consensus) (n - 1)
       (case jg_residualAvg jg (sn_name (cd_s k)) of Some ra \<Rightarrow> ra | None \<Rightarrow> default_ResidualState)"
  shows "\<exists>ra. jg_residualAvg (judge_one now consensus n k jg) = (jg_residualAvg jg)(sn_name (cd_s k) \<mapsto> ra)
     \<and> avg_ok ra = avg_ok ra0"
  by (rule exI[of _ "the (jg_residualAvg (judge_one now consensus n k jg) (sn_name (cd_s k)))"])
    (simp add: judge_one_def Let_def ra0_def avg_ok_def split: prod.split)

definition clean :: "string \<Rightarrow> Judging \<Rightarrow> bool" where
  "clean name jg \<longleftrightarrow> name \<notin> jg_refused jg \<and> (\<forall>ra. jg_residualAvg jg name = Some ra \<longrightarrow> avg_ok ra)"

lemma judge_one_clean:
  assumes "clean name jg" "sn_name (cd_s k) = name \<longrightarrow> \<bar>cd_offset k - consensus\<bar> \<le> kMaxDisagreementSec"
  shows "clean name (judge_one now consensus n k jg)"
proof (cases "sn_name (cd_s k) = name")
  case True
  define ra where "ra = residual_update now (cd_offset k - consensus) (n - 1)
      (case jg_residualAvg jg name of Some ra \<Rightarrow> ra | None \<Rightarrow> default_ResidualState)"
  have ok: "avg_ok ra"
    unfolding ra_def using assms True
    by (intro residual_update_ok) (auto simp: clean_def avg_ok_def default_ResidualState_def split: option.split)
  then have "\<not> rs_refused (residual_of now (cd_offset k - consensus) (n - 1) ra (cd_s k))"
    using assms(2) True by (auto simp: residual_of_def Let_def avg_ok_def)
  then show ?thesis
    using ok assms(1) judge_one_avg[of now consensus n k jg]
    unfolding clean_def judge_one_refused Let_def True ra_def[symmetric] by auto
next
  case False
  then show ?thesis
    using assms(1) judge_one_avg[of now consensus n k jg]
    by (auto simp: clean_def judge_one_refused Let_def)
qed

text \<open>A candidate is one of an agreeing majority of its class: more than half of it, itself
  included, lies within the limit.\<close>

definition in_majority :: "Candidate list \<Rightarrow> Candidate \<Rightarrow> bool" where
  "in_majority cand k \<longleftrightarrow>
     (\<exists>a. a \<le> cd_offset k \<and> cd_offset k \<le> a + kMaxDisagreementSec \<and>
        length cand < 2 * length (filter (\<lambda>j. a \<le> cd_offset j \<and> cd_offset j \<le> a + kMaxDisagreementSec) cand))"

lemma in_majority_close: "in_majority cand k \<Longrightarrow> \<bar>cd_offset k - medianOffset cand\<bar> \<le> kMaxDisagreementSec"
proof -
  assume "in_majority cand k"
  then obtain a where a: "a \<le> cd_offset k" "cd_offset k \<le> a + kMaxDisagreementSec"
      "length cand < 2 * length (filter (\<lambda>j. a \<le> cd_offset j \<and> cd_offset j \<le> a + kMaxDisagreementSec) cand)"
    by (auto simp: in_majority_def)
  have "a \<le> a + kMaxDisagreementSec" by (simp add: kMaxDisagreementSec_def)
  from medianOffset_majority[OF this a(3)] a(1,2) show ?thesis by (simp add: abs_le_iff)
qed

lemma judgeClass_clean:
  assumes "clean name jg" "\<forall>k \<in> set cand. sn_name (cd_s k) = name \<longrightarrow> in_majority cand k"
  shows "clean name (judgeClass now cand jg)"
proof -
  have "clean name (fold (judge_one now (medianOffset cand) (int (length cand))) ks jg)"
    if "set ks \<subseteq> set cand" "clean name jg" for ks jg
    using that
  proof (induction ks arbitrary: jg)
    case (Cons k ks)
    then have "clean name (judge_one now (medianOffset cand) (int (length cand)) k jg)"
      using assms(2) in_majority_close by (intro judge_one_clean) auto
    with Cons show ?case by simp
  qed simp
  with assms(1) show ?thesis by (simp add: judgeClass_def)
qed

text \<open>One round of judging as \<^verbatim>\<open>combine\<close> runs it: the time and the two classes' candidates.\<close>

type_synonym judge_round = "real \<times> Candidate list \<times> Candidate list"

fun judge_rounds :: "judge_round list \<Rightarrow> (string \<rightharpoonup> ResidualState) \<Rightarrow> (string \<rightharpoonup> ReacquireState) \<Rightarrow> Judging list" where
  "judge_rounds [] avg rq = []"
| "judge_rounds ((now, pc, sc) # rs) avg rq =
     (let jg = judge_sources now pc sc avg rq
      in jg # judge_rounds rs (jg_residualAvg jg) (jg_reacquire jg))"

lemma erase_lookup: "fold (\<lambda>n m. m(n := None)) ns m name = None \<or> fold (\<lambda>n m. m(n := None)) ns m name = m name"
proof (induction ns arbitrary: m)
  case (Cons a ns)
  from Cons[of "m(a := None)"] show ?case by (auto split: if_splits)
qed simp

lemma judge_sources_clean:
  assumes "\<forall>ra. avg name = Some ra \<longrightarrow> avg_ok ra"
    and "\<forall>k \<in> set pc. sn_name (cd_s k) = name \<longrightarrow> in_majority pc k"
    and "\<forall>k \<in> set sc. sn_name (cd_s k) = name \<longrightarrow> in_majority sc k"
  shows "clean name (judge_sources now pc sc avg rq)"
proof -
  define jg where "jg = judgeClass now sc (judgeClass now pc (judge_begin avg rq))"
  have "clean name (judge_begin avg rq)" using assms(1) by (simp add: clean_def judge_begin_def)
  then have "clean name jg" unfolding jg_def using assms(2,3) by (intro judgeClass_clean)
  moreover have "judge_sources now pc sc avg rq =
      jg\<lparr>jg_residualAvg := fold (\<lambda>n m. m(n := None)) (jg_reacquireNames jg) (jg_residualAvg jg)\<rparr>"
    by (simp add: judge_sources_def jg_def Let_def)
  ultimately show ?thesis
    using erase_lookup[of "jg_reacquireNames jg" "jg_residualAvg jg" name] by (auto simp: clean_def)
qed

text \<open>
  C29: A good source is never refused: over any number of rounds, at any times and whoever
  else comes and goes, a source that is, whenever it is a candidate, one of more than half of
  its own class lying within 30 ms of each other is not among the refused, however far out the
  rest of its class and whatever the other class says.
\<close>

theorem majority_never_refused:
  assumes "\<forall>(now, pc, sc) \<in> set rounds.
      (\<forall>k \<in> set pc. sn_name (cd_s k) = name \<longrightarrow> in_majority pc k)
      \<and> (\<forall>k \<in> set sc. sn_name (cd_s k) = name \<longrightarrow> in_majority sc k)"
  shows "\<forall>jg \<in> set (judge_rounds rounds Map.empty Map.empty). name \<notin> jg_refused jg"
proof -
  have "\<forall>jg \<in> set (judge_rounds rounds avg rq). name \<notin> jg_refused jg"
    if "\<forall>ra. avg name = Some ra \<longrightarrow> avg_ok ra" for avg rq
    using assms that
  proof (induction rounds arbitrary: avg rq)
    case (Cons r rs)
    obtain now pc sc where r: "r = (now, pc, sc)" by (cases r)
    let ?jg = "judge_sources now pc sc avg rq"
    have "clean name ?jg" using Cons.prems r by (intro judge_sources_clean) auto
    then have "name \<notin> jg_refused ?jg" "\<forall>ra. jg_residualAvg ?jg name = Some ra \<longrightarrow> avg_ok ra"
      by (auto simp: clean_def)
    with Cons.IH[of "jg_residualAvg ?jg" "jg_reacquire ?jg"] Cons.prems(1) show ?case
      by (simp add: r Let_def)
  qed simp
  from this[of Map.empty Map.empty] show ?thesis by simp
qed

text \<open>Two receivers a millisecond apart and one four hours out.\<close>

definition demo_named :: "string \<Rightarrow> real \<Rightarrow> Candidate" where
  "demo_named name off = (demo_cand off 1)\<lparr>cd_s := default_SourceSnapshot\<lparr>sn_name := name\<rparr>\<rparr>"

definition demo_class :: "Candidate list" where
  "demo_class = [demo_named ''a'' 0, demo_named ''b'' (1 / 1000), demo_named ''c'' 14400]"

theorem majority_never_refused_witness:
  "list_all (\<lambda>jg. ''b'' \<notin> jg_refused jg) (judge_rounds [(10, demo_class, []), (400, demo_class, [])] Map.empty Map.empty)"
proof -
  have "in_majority demo_class (demo_named ''b'' (1 / 1000))"
    unfolding in_majority_def
    by (rule exI[of _ 0]) (simp add: demo_class_def demo_named_def demo_cand_def kMaxDisagreementSec_def)
  then show ?thesis
    using majority_never_refused[of "[(10, demo_class, []), (400, demo_class, [])]" "''b''"]
    by (simp add: demo_class_def demo_named_def demo_cand_def list_all_iff)
qed

text \<open>A class of two or fewer convicts nobody: one peer cannot say which of the two is wrong.\<close>

lemma small_class_refuses_nobody:
  assumes "length cand \<le> 2"
  shows "jg_refused (judgeClass now cand jg) = jg_refused jg"
proof -
  have "jg_refused (fold (judge_one now m (int (length cand))) ks jg) = jg_refused jg" for m ks
    using assms
    by (induction ks arbitrary: jg)
      (simp_all add: judge_one_refused residual_of_def Let_def kMinPeersToJudge_def)
  then show ?thesis by (simp add: judgeClass_def)
qed

section \<open>A refused source starts over\<close>

text \<open>The refusal timer over a run of rounds that all refuse: whether it is sent back in each.\<close>

fun reacquire_run :: "ReacquireState \<Rightarrow> real list \<Rightarrow> bool list" where
  "reacquire_run rq [] = []"
| "reacquire_run rq (t # ts) = (let (rq', again) = reacquire_step t True True rq in again # reacquire_run rq' ts)"

lemma reacquire_wait_bounds: "kReacquireAfterSec \<le> reacquire_wait n" "reacquire_wait n \<le> kReacquireMaxSec"
  by (simp_all add: reacquire_wait_def kReacquireAfterSec_def kReacquireMaxSec_def)

lemma reacquire_run_since:
  assumes "0 < rq_refusedSinceSec rq" "ts \<noteq> []" "kReacquireMaxSec \<le> last ts - rq_refusedSinceSec rq"
  shows "True \<in> set (reacquire_run rq ts)"
  using assms
proof (induction ts)
  case (Cons t ts)
  show ?case
  proof (cases "reacquire_wait (rq_count rq) \<le> t - rq_refusedSinceSec rq")
    case True
    then show ?thesis using Cons.prems by (simp add: reacquire_step_def Let_def)
  next
    case False
    then have "ts \<noteq> []" using Cons.prems reacquire_wait_bounds(2)[of "rq_count rq"] by force
    with Cons False show ?thesis by (simp add: reacquire_step_def Let_def)
  qed
qed simp

text \<open>
  A source does not stay refused for ever: however often it has already been sent back
  without being accepted, a source refused in every round of an hour is told to start
  over within it.
\<close>

theorem refused_source_restarts:
  assumes "ts \<noteq> []" "0 < hd ts" "0 \<le> rq_refusedSinceSec rq" "rq_refusedSinceSec rq \<le> hd ts"
    and "kReacquireMaxSec \<le> last ts - hd ts"
  shows "True \<in> set (reacquire_run rq ts)"
proof (cases "rq_refusedSinceSec rq = 0")
  case False
  with assms show ?thesis by (intro reacquire_run_since) auto
next
  case True
  obtain t ts' where ts: "ts = t # ts'" using assms(1) by (cases ts) auto
  have t: "0 < t" using assms(2) ts by simp
  have "kReacquireMaxSec > 0" by (simp add: kReacquireMaxSec_def)
  then have ne: "ts' \<noteq> []" using assms(5) ts by auto
  have "True \<in> set (reacquire_run (rq\<lparr>rq_refusedSinceSec := t\<rparr>) ts')"
    using t ne assms(5) ts by (intro reacquire_run_since) auto
  moreover have "\<not> reacquire_wait (rq_count rq) \<le> 0"
    using reacquire_wait_bounds(1)[of "rq_count rq"] by (simp add: kReacquireAfterSec_def)
  ultimately show ?thesis by (simp add: ts reacquire_step_def Let_def True)
qed

theorem refused_source_restarts_witness:
  "True \<in> set (reacquire_run \<lparr>rq_refusedSinceSec = 0, rq_count = 7\<rparr> [10, 1810, 3610])"
  using refused_source_restarts[of "[10, 1810, 3610]" "\<lparr>rq_refusedSinceSec = 0, rq_count = 7\<rparr>"]
  by (simp add: kReacquireMaxSec_def)

end
