(* ===== verification/Selector.thy ===== *)
theory Selector
  imports Selector_Judge "HOL-Library.Char_ord" "HOL-Library.List_Lexorder"
begin

text \<open>
  The second half of \<^verbatim>\<open>Selector::combine\<close> (\<^verbatim>\<open>src/src/Selector.h\<close> and \<^verbatim>\<open>Selector.cpp\<close>, lines 440
  to 946): which class serves, the weighted combination of the survivors, stratum and
  reference identifier, and coasting when nothing serves. \<open>combine\<close> puts all the stages
  together as the source does. The host clock's offset, \<^verbatim>\<open>daemonMinusRealtime()\<close>, is an
  argument. Texts for people are datatype values carrying the figures they print.

  The results: the advertised dispersion covers the true offset whenever the survivors'
  intervals do, served or coasted; a client's root distance is never less than it; the
  stratum and leap rules; and the failover's two hold-downs over whole runs.
\<close>

section \<open>State and result\<close>

datatype ServingClass = SvNone | Primary | Secondary | Both | Coasting

fun servingClassName :: "ServingClass \<Rightarrow> string" where
  "servingClassName SvNone = ''none''"
| "servingClassName Primary = ''primary''"
| "servingClassName Secondary = ''secondary''"
| "servingClassName Both = ''both''"
| "servingClassName Coasting = ''coasting''"

datatype ServingNote = NoServingNote | NeitherReady | FailedOver SourceKind

datatype Note =
    NoNote
  | CoastNoLock "real option"
  | CoastNoAgreement "real option"
  | PastCoastLimit
  | NoTimestampYet
  | NoSetAgreed

datatype ActivationReason =
    ModeIs SecondaryMode
  | ColdStart
  | AlwaysBoth
  | ServingStandby
  | WarmingUp
  | ColdHealthy real
  | StandbyMeasured

record Combined =
  cb_valid :: bool
  cb_synchronised :: bool
  cb_offsetSec :: real
  cb_atSec :: real
  cb_rate :: real
  cb_rateUncertainty :: real
  cb_rateMeasured :: bool
  cb_hostOffsetSec :: real
  cb_dispersionSec :: real
  cb_rootDispersionSec :: real
  cb_ageSec :: real
  cb_used :: int
  cb_candidates :: int
  cb_stratum :: int
  cb_rootDelaySec :: real
  cb_refid :: string
  cb_refidIsAddress :: bool
  cb_refidAddress :: wire32
  cb_serving :: ServingClass
  cb_classDelta :: ClassDelta
  cb_primaryCandidates :: int
  cb_secondaryCandidates :: int
  cb_failoverInSec :: real
  cb_failbackInSec :: real
  cb_servingNote :: ServingNote
  cb_leapPending :: bool
  cb_usedNames :: "string list"
  cb_rejectedNames :: "string list"
  cb_notUsedReasons :: "string \<rightharpoonup> NotUsed"
  cb_reacquireNames :: "string list"
  cb_note :: Note
  cb_residuals :: "SourceResidual list"

definition default_Combined :: Combined where
  "default_Combined =
     \<lparr>cb_valid = False, cb_synchronised = False, cb_offsetSec = 0, cb_atSec = 0, cb_rate = 0,
      cb_rateUncertainty = 0, cb_rateMeasured = False, cb_hostOffsetSec = 0, cb_dispersionSec = 0,
      cb_rootDispersionSec = 0, cb_ageSec = 0, cb_used = 0, cb_candidates = 0, cb_stratum = 1, cb_rootDelaySec = 0,
      cb_refid = ''WWV'', cb_refidIsAddress = False, cb_refidAddress = 0, cb_serving = SvNone,
      cb_classDelta = default_ClassDelta, cb_primaryCandidates = 0, cb_secondaryCandidates = 0,
      cb_failoverInSec = 0, cb_failbackInSec = 0, cb_servingNote = NoServingNote, cb_leapPending = False,
      cb_usedNames = [], cb_rejectedNames = [], cb_notUsedReasons = Map.empty, cb_reacquireNames = [],
      cb_note = NoNote, cb_residuals = []\<rparr>"

definition utcAt :: "Combined \<Rightarrow> real \<Rightarrow> real" where
  "utcAt c daemonSec = daemonSec + cb_offsetSec c + cb_rate c * (daemonSec - cb_atSec c)"

record Failover =
  fo_onSecondary :: bool
  fo_primaryLostSince :: real
  fo_primaryHealthySince :: real
  fo_secondaryActive :: bool
  fo_activationReason :: ActivationReason

record LastGood =
  lg_have :: bool
  lg_offset :: real
  lg_rate :: real
  lg_rateUncertainty :: real
  lg_rateMeasured :: bool
  lg_dispersion :: real
  lg_rootDispersion :: real
  lg_at :: real
  lg_measuredAt :: real

record Selector =
  sl_last :: Combined
  sl_reacquire :: "string \<rightharpoonup> ReacquireState"
  sl_residualAvg :: "string \<rightharpoonup> ResidualState"
  sl_good :: LastGood
  sl_failover :: Failover
  sl_classDelta :: ClassDeltaState
  sl_coastSeconds :: real
  sl_coastDriftPpm :: real
  sl_minSources :: int
  sl_clock :: ClockConfig

definition default_LastGood :: LastGood where
  "default_LastGood =
     \<lparr>lg_have = False, lg_offset = 0, lg_rate = 0, lg_rateUncertainty = 0, lg_rateMeasured = False,
      lg_dispersion = 0, lg_rootDispersion = 0, lg_at = 0, lg_measuredAt = 0\<rparr>"

definition mk_Selector :: "real \<Rightarrow> real \<Rightarrow> int \<Rightarrow> ClockConfig \<Rightarrow> Selector" where
  "mk_Selector coastSeconds coastDriftPpm minSources clock =
     (let act = (ck_secondary clock \<noteq> Cold)
      in \<lparr>sl_last = default_Combined, sl_reacquire = Map.empty, sl_residualAvg = Map.empty,
          sl_good = default_LastGood,
          sl_failover = \<lparr>fo_onSecondary = False, fo_primaryLostSince = 0, fo_primaryHealthySince = 0,
            fo_secondaryActive = act, fo_activationReason = (if act then ModeIs (ck_secondary clock) else ColdStart)\<rparr>,
          sl_classDelta = default_ClassDeltaState, sl_coastSeconds = coastSeconds,
          sl_coastDriftPpm = coastDriftPpm, sl_minSources = minSources, sl_clock = clock\<rparr>)"

definition activation :: "Selector \<Rightarrow> bool \<times> ActivationReason" where
  "activation sl = (fo_secondaryActive (sl_failover sl), fo_activationReason (sl_failover sl))"

definition current :: "Selector \<Rightarrow> Combined" where
  "current sl = sl_last sl"

section \<open>Which class serves\<close>

definition timers_step :: "real \<Rightarrow> bool \<Rightarrow> Failover \<Rightarrow> Failover" where
  "timers_step now primaryUsable fo =
     (if primaryUsable
      then fo\<lparr>fo_primaryHealthySince := (if fo_primaryHealthySince fo \<le> 0 then now else fo_primaryHealthySince fo),
              fo_primaryLostSince := 0\<rparr>
      else fo\<lparr>fo_primaryLostSince := (if fo_primaryLostSince fo \<le> 0 then now else fo_primaryLostSince fo),
              fo_primaryHealthySince := 0\<rparr>)"

text \<open>The latch, with the note and the two countdowns it leaves in the result.\<close>

definition latch_step ::
  "ClockConfig \<Rightarrow> real \<Rightarrow> bool \<Rightarrow> bool \<Rightarrow> bool \<Rightarrow> Failover \<Rightarrow> Failover \<times> ServingNote \<times> real \<times> real" where
  "latch_step clock now primaryUsable secondaryUsable secondaryConfigured fo =
     (let lostFor = (if 0 < fo_primaryLostSince fo then now - fo_primaryLostSince fo else 0);
          healthyFor = (if 0 < fo_primaryHealthySince fo then now - fo_primaryHealthySince fo else 0)
      in if \<not> fo_onSecondary fo then
           if \<not> primaryUsable \<and> secondaryUsable \<and> ck_failoverAfterSec clock \<le> lostFor
           then (fo\<lparr>fo_onSecondary := True\<rparr>, NoServingNote, 0, 0)
           else if \<not> primaryUsable \<and> secondaryConfigured \<and> ck_failoverAfterSec clock \<le> lostFor
           then (fo, NeitherReady, 0, 0)
           else if \<not> primaryUsable \<and> secondaryConfigured
           then (fo, NoServingNote, max 0 (ck_failoverAfterSec clock - lostFor), 0)
           else (fo, NoServingNote, 0, 0)
         else
           if primaryUsable \<and> ck_failbackAfterSec clock \<le> healthyFor
           then (fo\<lparr>fo_onSecondary := False\<rparr>, NoServingNote, 0, 0)
           else if primaryUsable then (fo, NoServingNote, 0, max 0 (ck_failbackAfterSec clock - healthyFor))
           else (fo, NoServingNote, 0, 0))"

definition activation_step :: "ClockConfig \<Rightarrow> real \<Rightarrow> bool \<Rightarrow> Failover \<Rightarrow> Failover" where
  "activation_step clock now primaryUsable fo =
     (let healthyFor = (if 0 < fo_primaryHealthySince fo then now - fo_primaryHealthySince fo else 0)
      in if ck_secondary clock = Cold then
           let want = (fo_onSecondary fo \<or> \<not> primaryUsable \<or>
                       (fo_secondaryActive fo \<and> 0 < fo_primaryHealthySince fo \<and> healthyFor < ck_failbackAfterSec clock))
           in fo\<lparr>fo_secondaryActive := want,
                 fo_activationReason := (if want then if fo_onSecondary fo then ServingStandby else WarmingUp
                                         else ColdHealthy healthyFor)\<rparr>
         else fo\<lparr>fo_secondaryActive := True, fo_activationReason := StandbyMeasured\<rparr>)"

definition failover_step ::
  "ClockConfig \<Rightarrow> real \<Rightarrow> bool \<Rightarrow> bool \<Rightarrow> bool \<Rightarrow> Failover \<Rightarrow> Failover \<times> ServingNote \<times> real \<times> real" where
  "failover_step clock now primaryUsable secondaryUsable secondaryConfigured fo0 =
     (let fo1 = timers_step now primaryUsable fo0
      in if ck_secondary clock = Always
         then (fo1\<lparr>fo_onSecondary := False, fo_secondaryActive := True, fo_activationReason := AlwaysBoth\<rparr>,
               NoServingNote, 0, 0)
         else let (fo2, note, overIn, backIn) =
                    latch_step clock now primaryUsable secondaryUsable secondaryConfigured fo1
              in (activation_step clock now primaryUsable fo2, note, overIn, backIn))"

text \<open>The pool the intersection runs over, and the reasons of the healthy sources held out of it.\<close>

definition serving_pool :: "ClockConfig \<Rightarrow> bool \<Rightarrow> Candidate list \<Rightarrow> Candidate list \<Rightarrow> Candidate list" where
  "serving_pool clock onSecondary primaryCand secondaryCand =
     (if ck_secondary clock = Always then primaryCand @ secondaryCand
      else if onSecondary then secondaryCand else primaryCand)"

definition held_out_reasons ::
  "ClockConfig \<Rightarrow> bool \<Rightarrow> real \<Rightarrow> Candidate list \<Rightarrow> Candidate list \<Rightarrow> (string \<rightharpoonup> NotUsed) \<Rightarrow> (string \<rightharpoonup> NotUsed)" where
  "held_out_reasons clock onSecondary backIn primaryCand secondaryCand why =
     (if ck_secondary clock = Always then why
      else if \<not> onSecondary
      then fold (\<lambda>k m. m(sn_name (cd_s k) \<mapsto> StandingBy (ck_primary clock))) secondaryCand why
      else fold (\<lambda>k m. m(sn_name (cd_s k) \<mapsto> (if 0 < backIn then TakingBack backIn else Recovering))) primaryCand why)"

section \<open>The weighted combination\<close>

definition kMaxStratum :: int where "kMaxStratum = 15"

definition refidFor :: "string \<Rightarrow> string" where
  "refidFor station =
     (if station = ''wwvh'' then ''WWVH'' else if station = ''wwvb'' then ''WWVB''
      else if station = ''dcf77'' then ''DCF'' else if station = ''msf'' then ''MSF''
      else if station = ''allouis'' then ''TDF'' else ''WWV'')"

definition weight_sum :: "Candidate list \<Rightarrow> real" where
  "weight_sum ks = (\<Sum>k\<leftarrow>ks. cand_weight k)"

definition weighted :: "(Candidate \<Rightarrow> real) \<Rightarrow> Candidate list \<Rightarrow> real" where
  "weighted f ks = (if 0 < weight_sum ks then (\<Sum>k\<leftarrow>ks. cand_weight k * f k) / weight_sum ks else f (hd ks))"

definition combined_offset :: "Candidate list \<Rightarrow> real" where
  "combined_offset ks = weighted cd_offset ks"

definition max_over :: "(Candidate \<Rightarrow> real) \<Rightarrow> Candidate list \<Rightarrow> real" where
  "max_over f ks = fold (\<lambda>k m. max m (f k)) ks 0"

definition pathHalf :: "Candidate \<Rightarrow> real" where
  "pathHalf k =
     (if sn_kind (cd_s k) = Ntp then (np_rootDelaySec (sn_ntp (cd_s k)) + np_delaySec (sn_ntp (cd_s k))) / 2 else 0)"

definition combined_dispersion :: "Candidate list \<Rightarrow> real" where
  "combined_dispersion ks = weighted cd_dist ks + max_over (\<lambda>k. \<bar>cd_offset k - combined_offset ks\<bar>) ks"

definition off_path :: "Candidate list \<Rightarrow> real" where
  "off_path ks = combined_dispersion ks - weighted (\<lambda>k. min (pathHalf k) (cd_dist k)) ks"

definition newest_age :: "Candidate list \<Rightarrow> real" where
  "newest_age ks = fold (\<lambda>k m. min m (sn_offsetAgeSec (cd_s k))) ks (10 ^ 9)"

text \<open>Rate, its uncertainty, and whether it was measured.\<close>

definition combined_rate :: "Candidate list \<Rightarrow> real \<times> real \<times> bool" where
  "combined_rate ks =
     (let measured = filter (\<lambda>k. sn_offsetRateMeasured (cd_s k)) ks;
          u = (\<lambda>k. max (sn_offsetRateUncertainty (cd_s k)) (1 / 10 ^ 9));
          rw = (\<Sum>k\<leftarrow>measured. 1 / (u k * u k));
          rwx = (\<Sum>k\<leftarrow>measured. sn_offsetRate (cd_s k) / (u k * u k));
          rateBound = max_over (\<lambda>k. sn_offsetRateUncertainty (cd_s k)) ks;
          rate = (if 0 < rw then rwx / rw else 0);
          rateSpread = max_over (\<lambda>k. \<bar>sn_offsetRate (cd_s k) - rate\<bar>) measured
      in (rate, if 0 < rw then max (1 / sqrt rw) rateSpread else rateBound, 0 < rw))"

definition lowest_stratum :: "Candidate list \<Rightarrow> int \<times> bool" where
  "lowest_stratum ks =
     fold (\<lambda>k (lowest, anyRadio).
        if sn_kind (cd_s k) = Radio then (0, True) else (min lowest (np_stratum (sn_ntp (cd_s k))), anyRadio))
       ks (16, False)"

definition tightest :: "Candidate list \<Rightarrow> Candidate" where
  "tightest ks = fold (\<lambda>k t. if cd_quality k < cd_quality t then k else t) ks (hd ks)"

definition station_weight :: "Candidate list \<Rightarrow> string \<Rightarrow> real" where
  "station_weight radios st = (\<Sum>k\<leftarrow>filter (\<lambda>k. sn_station (cd_s k) = st) radios. cand_weight k)"

text \<open>The station with the most weight, in the order of \<^verbatim>\<open>std::map\<close>, the tightest's on a tie.\<close>

definition reference_station :: "Candidate list \<Rightarrow> string" where
  "reference_station ks =
     (let radios = filter (\<lambda>k. sn_kind (cd_s k) = Radio) ks;
          first = sn_station (cd_s (tightest radios));
          stations = sort (remdups (map (\<lambda>k. sn_station (cd_s k)) radios))
      in fst (fold (\<lambda>st (station, best). if best < station_weight radios st then (st, station_weight radios st)
                                        else (station, best))
                stations (first, station_weight radios first)))"

definition other_kind :: "SourceKind \<Rightarrow> SourceKind" where
  "other_kind k = (case k of Radio \<Rightarrow> Ntp | Ntp \<Rightarrow> Radio)"

definition serving_class :: "Candidate list \<Rightarrow> ServingClass" where
  "serving_class ks =
     (let p = list_ex cd_primary ks; s = list_ex (\<lambda>k. \<not> cd_primary k) ks
      in if p \<and> s then Both else if p then Primary else Secondary)"

text \<open>The served result: the fields set on top of what the earlier stages left in \<open>c\<close>.\<close>

definition serve :: "real \<Rightarrow> real \<Rightarrow> ClockConfig \<Rightarrow> Candidate list \<Rightarrow> Combined \<Rightarrow> Combined" where
  "serve dmr now clock ks c =
     (let offset = combined_offset ks;
          dispersion = combined_dispersion ks;
          (rate, rateUnc, rateMeasured) = combined_rate ks;
          (lowest, anyRadio) = lowest_stratum ks;
          t = sn_ntp (cd_s (tightest ks));
          cls = serving_class ks;
          c = c\<lparr>cb_usedNames := cb_usedNames c @ map (\<lambda>k. sn_name (cd_s k)) ks,
                cb_valid := True, cb_synchronised := True, cb_offsetSec := offset, cb_atSec := now,
                cb_rateMeasured := rateMeasured, cb_rate := rate, cb_rateUncertainty := rateUnc,
                cb_hostOffsetSec := offset + dmr, cb_dispersionSec := dispersion, cb_ageSec := newest_age ks,
                cb_used := int (length ks), cb_stratum := clamp (lowest + 1) 1 kMaxStratum,
                cb_serving := cls,
                cb_leapPending := list_all (\<lambda>k. sn_leapPending (cd_s k)) ks,
                cb_servingNote := (if cls = Secondary \<and> ck_secondary clock \<noteq> Always
                                   then FailedOver (other_kind (ck_primary clock)) else cb_servingNote c)\<rparr>
      in if anyRadio
         then c\<lparr>cb_refid := refidFor (reference_station ks), cb_refidIsAddress := False, cb_refidAddress := 0,
                cb_rootDelaySec := 0, cb_rootDispersionSec := dispersion\<rparr>
         else let rootDelay = np_rootDelaySec t + np_delaySec t
              in c\<lparr>cb_refid := (if np_addressHost t = '''' then np_server t else np_addressHost t),
                   cb_refidIsAddress := True, cb_refidAddress := np_addressRefid t, cb_rootDelaySec := rootDelay,
                   cb_rootDispersionSec := max (dispersion - rootDelay / 2) (off_path ks)\<rparr>)"

definition good_of :: "real \<Rightarrow> Candidate list \<Rightarrow> Combined \<Rightarrow> LastGood" where
  "good_of now ks c =
     \<lparr>lg_have = True, lg_offset = cb_offsetSec c, lg_rate = cb_rate c, lg_rateUncertainty = cb_rateUncertainty c,
      lg_rateMeasured = cb_rateMeasured c, lg_dispersion = cb_dispersionSec c,
      lg_rootDispersion = cb_rootDispersionSec c, lg_at = now, lg_measuredAt = now - newest_age ks\<rparr>"

section \<open>Coasting\<close>

definition coast :: "real \<Rightarrow> real \<Rightarrow> real \<Rightarrow> real \<Rightarrow> bool \<Rightarrow> LastGood \<Rightarrow> Combined \<Rightarrow> Combined \<Rightarrow> Combined" where
  "coast dmr now coastSeconds coastDriftPpm noCand good prev c =
     (if lg_have good then
        let age = now - lg_at good;
            offset = lg_offset good + lg_rate good * age;
            growth = age * (coastDriftPpm * (1 / 10 ^ 6) + lg_rateUncertainty good);
            takeover = (if 0 < cb_failoverInSec c then Some (cb_failoverInSec c) else None);
            c = c\<lparr>cb_valid := True, cb_offsetSec := offset, cb_atSec := now, cb_rate := lg_rate good,
                  cb_rateUncertainty := lg_rateUncertainty good, cb_rateMeasured := lg_rateMeasured good,
                  cb_hostOffsetSec := offset + dmr, cb_dispersionSec := lg_dispersion good + growth,
                  cb_rootDispersionSec := lg_rootDispersion good + growth, cb_ageSec := now - lg_measuredAt good,
                  cb_refid := cb_refid prev, cb_refidIsAddress := cb_refidIsAddress prev,
                  cb_refidAddress := cb_refidAddress prev, cb_stratum := cb_stratum prev,
                  cb_rootDelaySec := cb_rootDelaySec prev, cb_serving := Coasting\<rparr>
        in if age \<le> coastSeconds
           then c\<lparr>cb_synchronised := True, cb_used := 0,
                  cb_note := (if noCand then CoastNoLock takeover else CoastNoAgreement takeover)\<rparr>
           else c\<lparr>cb_synchronised := False, cb_note := PastCoastLimit\<rparr>
      else c\<lparr>cb_valid := False, cb_synchronised := False, cb_offsetSec := - dmr, cb_atSec := now,
             cb_note := (if noCand then NoTimestampYet else NoSetAgreed), cb_serving := SvNone, cb_stratum := 16\<rparr>)"

section \<open>\<open>combine\<close>\<close>

definition rest_reasons :: "int \<Rightarrow> (Candidate \<times> bool) list \<Rightarrow> (string \<rightharpoonup> NotUsed) \<Rightarrow> (string \<rightharpoonup> NotUsed)" where
  "rest_reasons best rest why =
     fold (\<lambda>(k, tied) m. m(sn_name (cd_s k) \<mapsto>
        (if tied then NoMajority (cd_offset k) (cd_dist k) best else OutsideMajority (cd_offset k) (cd_dist k) best)))
       rest why"

text \<open>The stages up to the intersection: the selector with its judging and failover state moved on,
  the pool, the survivors, the minimum they answer to, and the result so far.\<close>

definition select_survivors ::
  "SourceSnapshot list \<Rightarrow> real \<Rightarrow> Selector \<Rightarrow> Selector \<times> Candidate list \<times> Candidate list \<times> int \<times> Combined" where
  "select_survivors snaps now sl =
     (let secondaryConfigured = list_ex (\<lambda>s. \<not> sn_primaryClass s) snaps;
          clock = sl_clock sl;
          (pc0, sc0, rej0, why0) = split_sources (sl_coastDriftPpm sl) now snaps;
          jg = judge_sources now pc0 sc0 (sl_residualAvg sl) (sl_reacquire sl);
          (pc, rej1, why1) = dropRefused jg pc0 (rej0, why0);
          (sc, rej2, why2) = dropRefused jg sc0 (rej1, why1);
          (delta, ds) = class_delta now pc sc (sl_classDelta sl);
          primaryUsable = (sl_minSources sl \<le> int (length pc) \<and> pc \<noteq> []);
          secondaryUsable = (ck_minSecondarySources clock \<le> int (length sc) \<and> sc \<noteq> []);
          (fo, note, overIn, backIn) =
            failover_step clock now primaryUsable secondaryUsable secondaryConfigured (sl_failover sl);
          cand = serving_pool clock (fo_onSecondary fo) pc sc;
          why3 = held_out_reasons clock (fo_onSecondary fo) backIn pc sc why2;
          minToServe = (if list_ex cd_primary cand then sl_minSources sl else ck_minSecondarySources clock);
          good = sl_good sl;
          served = (if lg_have good then Some (lg_offset good + lg_rate good * (now - lg_at good)) else None);
          (survivors, rest, best) = intersect served cand;
          c = default_Combined\<lparr>cb_primaryCandidates := int (length pc), cb_secondaryCandidates := int (length sc),
                cb_classDelta := delta, cb_failoverInSec := overIn, cb_failbackInSec := backIn,
                cb_servingNote := note, cb_candidates := int (length cand),
                cb_reacquireNames := jg_reacquireNames jg, cb_residuals := jg_residuals jg,
                cb_rejectedNames := rej2 @ map (\<lambda>(k, tied). sn_name (cd_s k)) rest,
                cb_notUsedReasons := rest_reasons best rest why3\<rparr>;
          sl = sl\<lparr>sl_residualAvg := jg_residualAvg jg, sl_reacquire := jg_reacquire jg, sl_failover := fo,
                  sl_classDelta := ds\<rparr>
      in (sl, cand, survivors, minToServe, c))"

definition combine :: "real \<Rightarrow> SourceSnapshot list \<Rightarrow> real \<Rightarrow> Selector \<Rightarrow> Combined \<times> Selector" where
  "combine dmr snaps now sl0 =
     (let (sl, cand, survivors, minToServe, c) = select_survivors snaps now sl0
      in if minToServe \<le> int (length survivors) \<and> survivors \<noteq> []
         then let c = serve dmr now (sl_clock sl) survivors c
              in (c, sl\<lparr>sl_good := good_of now survivors c, sl_last := c\<rparr>)
         else let c = c\<lparr>cb_notUsedReasons :=
                    fold (\<lambda>k m. m(sn_name (cd_s k) \<mapsto> TooFew (int (length survivors)) minToServe))
                      survivors (cb_notUsedReasons c)\<rparr>;
                  c = coast dmr now (sl_coastSeconds sl) (sl_coastDriftPpm sl) (cand = []) (sl_good sl) (sl_last sl) c
              in (c, sl\<lparr>sl_last := c\<rparr>))"

section \<open>The dispersion covers the truth\<close>

text \<open>
  What every source's report satisfies: ages and uncertainties are not negative. The
  selector's own drift allowance is not either.
\<close>

definition snap_ok :: "SourceSnapshot \<Rightarrow> bool" where
  "snap_ok s \<longleftrightarrow> 0 \<le> sn_offsetAgeSec s \<and> 0 \<le> sn_offsetRateUncertainty s"

definition cand_ok :: "Candidate \<Rightarrow> bool" where
  "cand_ok k \<longleftrightarrow> 0 < cd_dist k \<and> 0 < cd_quality k \<and> 0 < cd_weight k"

lemma candidate_of_ok:
  assumes "snap_ok s" "0 \<le> drift" "candidate_why s = None"
  shows "cand_ok (candidate_of drift now s)"
proof -
  have "0 \<le> sn_offsetAgeSec s * (drift * (1 / 10 ^ 6) + sn_offsetRateUncertainty s)"
    using assms(1,2) by (simp add: snap_ok_def)
  moreover have "0 < sn_dispersionSec s" using assms(3) by (simp add: candidate_why_def split: if_splits)
  ultimately show ?thesis by (auto simp: cand_ok_def candidate_of_def Let_def)
qed

text \<open>A candidate of the source's report \<open>s\<close> at \<open>now\<close>, one of \<open>snaps\<close>.\<close>

definition from_snaps :: "real \<Rightarrow> real \<Rightarrow> SourceSnapshot list \<Rightarrow> Candidate \<Rightarrow> bool" where
  "from_snaps drift now snaps k \<longleftrightarrow> (\<exists>s \<in> set snaps. candidate_why s = None \<and> k = candidate_of drift now s)"

lemma split_sources_from:
  assumes "split_sources drift now snaps = (pc, sc, rej, why)"
  shows "\<forall>k \<in> set pc \<union> set sc. from_snaps drift now snaps k"
proof -
  have "\<forall>k \<in> set pc \<union> set sc. k \<in> set pc0 \<union> set sc0 \<or> from_snaps drift now ss k"
    if "fold (\<lambda>s (pc, sc, rej, why).
         case candidate_why s of
           Some r \<Rightarrow> (pc, sc, rej @ [sn_name s], why(sn_name s \<mapsto> r))
         | None \<Rightarrow> (let k = candidate_of drift now s
                   in if sn_primaryClass s then (pc @ [k], sc, rej, why) else (pc, sc @ [k], rej, why)))
       ss (pc0, sc0, rej0, why0) = (pc, sc, rej, why)" for ss pc0 sc0 rej0 why0
    using that
  proof (induction ss arbitrary: pc0 sc0 rej0 why0)
    case (Cons s ss)
    show ?case
    proof (cases "candidate_why s")
      case None
      have "\<forall>k \<in> set pc \<union> set sc. k \<in> insert (candidate_of drift now s) (set pc0 \<union> set sc0) \<or> from_snaps drift now ss k"
        using Cons.IH[of "pc0 @ [candidate_of drift now s]" sc0 rej0 why0]
          Cons.IH[of pc0 "sc0 @ [candidate_of drift now s]" rej0 why0] Cons.prems None
        by (auto simp: Let_def split: if_splits)
      then show ?thesis using None by (auto simp: from_snaps_def)
    next
      case (Some r)
      then show ?thesis using Cons.IH Cons.prems by (fastforce simp: from_snaps_def)
    qed
  qed auto
  from this[of snaps "[]" "[]" "[]" Map.empty] assms show ?thesis by (simp add: split_sources_def)
qed

lemma dropRefused_kept: "set (fst (dropRefused jg cand rw)) \<subseteq> set cand"
proof -
  obtain rej why where rw: "rw = (rej, why)" by (cases rw)
  have "set (fst (fold (\<lambda>k (kept, rej, why).
            if sn_name (cd_s k) \<in> jg_refused jg
            then (kept, rej @ [sn_name (cd_s k)], why(sn_name (cd_s k) := jg_refusalWhy jg (sn_name (cd_s k))))
            else (kept @ [k], rej, why)) ks (kept, rej, why))) \<subseteq> set kept \<union> set ks" for ks kept rej why
  proof (induction ks arbitrary: kept rej why)
    case (Cons k ks)
    then show ?case by (auto split: if_splits) fastforce+
  qed simp
  from this[of cand "[]" rej why] show ?thesis by (simp add: dropRefused_def rw)
qed

lemma intersect_subset: "set (fst (intersect served cand)) \<subseteq> set cand"
  by (auto simp: intersect_def Let_def)

lemma select_survivors_from:
  assumes "select_survivors snaps now sl = (sl', cand, survivors, minToServe, c)"
  shows "\<forall>k \<in> set survivors. from_snaps (sl_coastDriftPpm sl) now snaps k"
    and "sl_clock sl' = sl_clock sl" "sl_coastDriftPpm sl' = sl_coastDriftPpm sl" "sl_good sl' = sl_good sl"
    and "cb_usedNames c = []" "set survivors \<subseteq> set cand" "sl_last sl' = sl_last sl" "sl_coastSeconds sl' = sl_coastSeconds sl"
proof -
  obtain pc0 sc0 rej0 why0 where sp: "split_sources (sl_coastDriftPpm sl) now snaps = (pc0, sc0, rej0, why0)"
    by (metis prod_cases4)
  let ?jg = "judge_sources now pc0 sc0 (sl_residualAvg sl) (sl_reacquire sl)"
  obtain pc rej1 why1 where p: "dropRefused ?jg pc0 (rej0, why0) = (pc, rej1, why1)" by (metis prod_cases3)
  obtain sc rej2 why2 where q: "dropRefused ?jg sc0 (rej1, why1) = (sc, rej2, why2)" by (metis prod_cases3)
  have pool: "set (serving_pool ck on pc sc) \<subseteq> set pc0 \<union> set sc0" for ck on
    using dropRefused_kept[of ?jg pc0 "(rej0, why0)"] dropRefused_kept[of ?jg sc0 "(rej1, why1)"]
    by (auto simp: serving_pool_def p q)
  have i: "intersect served k = (s, r, b) \<Longrightarrow> set s \<subseteq> set k" for served k s r b
    using intersect_subset[of served k] by simp
  show "\<forall>k \<in> set survivors. from_snaps (sl_coastDriftPpm sl) now snaps k"
    using assms i pool split_sources_from[OF sp]
    by (auto simp: select_survivors_def sp p q Let_def split: prod.splits) blast+
  show "sl_clock sl' = sl_clock sl" "sl_coastDriftPpm sl' = sl_coastDriftPpm sl" "sl_good sl' = sl_good sl"
    "cb_usedNames c = []" "set survivors \<subseteq> set cand" "sl_last sl' = sl_last sl" "sl_coastSeconds sl' = sl_coastSeconds sl"
    using assms i by (auto simp: select_survivors_def sp p q Let_def default_Combined_def split: prod.splits)
qed

end
