(* ===== verification/Selector_Served.thy ===== *)
theory Selector_Served
  imports Selector
begin

text \<open>
  What the result of \<^verbatim>\<open>Selector::combine\<close> promises those who serve from it: the dispersion
  covers the truth, served or coasted, the wire fields never understate it, stratum 1 means a
  radio, and a leap second is announced on the word of every source in use.
\<close>

text \<open>The two ways \<open>combine\<close> ends.\<close>

lemma combine_cases [consumes 1, case_names served coasted]:
  assumes "combine dmr snaps now sl = (c, sl')"
  obtains
    (served) ks c0 where "ks \<noteq> []" "\<forall>k \<in> set ks. from_snaps (sl_coastDriftPpm sl) now snaps k"
      "c = serve dmr now (sl_clock sl) ks c0" "cb_usedNames c0 = []" "sl_good sl' = good_of now ks c" "sl_last sl' = c"
  | (coasted) c0 noCand where
      "c = coast dmr now (sl_coastSeconds sl) (sl_coastDriftPpm sl) noCand (sl_good sl) (sl_last sl) c0"
      "cb_usedNames c0 = []" "sl_good sl' = sl_good sl" "sl_last sl' = c"
proof -
  obtain s1 cand survivors minToServe c1 where
    ss: "select_survivors snaps now sl = (s1, cand, survivors, minToServe, c1)" by (metis prod_cases5)
  note frm = select_survivors_from[OF ss]
  show thesis
  proof (cases "minToServe \<le> int (length survivors) \<and> survivors \<noteq> []")
    case True
    then show thesis
      using assms frm by (intro served[of survivors c1]) (auto simp: combine_def ss Let_def)
  next
    case False
    let ?c = "c1\<lparr>cb_notUsedReasons := fold (\<lambda>k m. m(sn_name (cd_s k) \<mapsto> TooFew (int (length survivors)) minToServe))
                      survivors (cb_notUsedReasons c1)\<rparr>"
    show thesis
      using assms frm False by (intro coasted[of "cand = []" ?c]) (auto simp: combine_def ss Let_def)
  qed
qed

section \<open>Weighted means\<close>

definition pos_weights :: "Candidate list \<Rightarrow> bool" where
  "pos_weights ks \<longleftrightarrow> ks \<noteq> [] \<and> (\<forall>k \<in> set ks. 0 < cand_weight k)"

lemma weight_sum_pos: "pos_weights ks \<Longrightarrow> 0 < weight_sum ks"
  unfolding pos_weights_def weight_sum_def by (intro sum_list_pos_real) auto

lemma weighted_mono:
  assumes "pos_weights ks" "\<And>k. k \<in> set ks \<Longrightarrow> f k \<le> g k"
  shows "weighted f ks \<le> weighted g ks"
proof -
  have "(\<Sum>k\<leftarrow>ks. cand_weight k * f k) \<le> (\<Sum>k\<leftarrow>ks. cand_weight k * g k)"
    using assms by (intro sum_list_mono mult_left_mono) (auto simp: pos_weights_def less_imp_le)
  then show ?thesis using weight_sum_pos[OF assms(1)] by (simp add: weighted_def divide_right_mono)
qed

lemma weighted_shift:
  assumes "pos_weights ks"
  shows "weighted (\<lambda>k. a + g k) ks = a + weighted g ks"
proof -
  have "(\<Sum>k\<leftarrow>ks. cand_weight k * (a + g k)) = a * weight_sum ks + (\<Sum>k\<leftarrow>ks. cand_weight k * g k)"
    unfolding weight_sum_def by (induction ks) (simp_all add: algebra_simps)
  then show ?thesis using weight_sum_pos[OF assms] by (simp add: weighted_def add_divide_distrib)
qed

lemma weighted_neg: "weighted (\<lambda>k. - g k) ks = - weighted g ks"
proof -
  have "(\<Sum>k\<leftarrow>ks. cand_weight k * - g k) = - (\<Sum>k\<leftarrow>ks. cand_weight k * g k)"
    by (induction ks) simp_all
  then show ?thesis by (simp add: weighted_def)
qed

lemma weighted_close:
  assumes "pos_weights ks" "\<And>k. k \<in> set ks \<Longrightarrow> \<bar>f k - a\<bar> \<le> g k"
  shows "\<bar>weighted f ks - a\<bar> \<le> weighted g ks"
proof -
  have "weighted f ks \<le> weighted (\<lambda>k. a + g k) ks"
    using assms(2) by (intro weighted_mono[OF assms(1)]) (simp add: abs_le_iff, fastforce)
  moreover have "weighted (\<lambda>k. a + - g k) ks \<le> weighted f ks"
    using assms(2) by (intro weighted_mono[OF assms(1)]) (simp add: abs_le_iff, fastforce)
  ultimately show ?thesis
    using weighted_shift[OF assms(1), of a g] weighted_shift[OF assms(1), of a "\<lambda>k. - g k"]
    by (simp add: weighted_neg abs_le_iff)
qed

lemma max_over_bounds: "0 \<le> max_over f ks" "k \<in> set ks \<Longrightarrow> f k \<le> max_over f ks"
proof -
  have "m \<le> fold (\<lambda>k m. max m (f k)) ks m" for m
    by (induction ks arbitrary: m) (simp_all, meson max.boundedE)
  then have le: "m \<le> fold (\<lambda>k m. max m (f k)) xs m" for m xs
    by (induction xs arbitrary: m) (simp_all, meson max.boundedE)
  then show "0 \<le> max_over f ks" by (simp add: max_over_def)
  have "k \<in> set xs \<Longrightarrow> f k \<le> fold (\<lambda>k m. max m (f k)) xs m" for m xs
  proof (induction xs arbitrary: m)
    case (Cons x xs)
    then show ?case using le[of "max m (f x)" xs] by (cases "k = x") auto
  qed simp
  then show "k \<in> set ks \<Longrightarrow> f k \<le> max_over f ks" by (simp add: max_over_def)
qed

lemma from_snaps_weights:
  assumes "ks \<noteq> []" "\<forall>k \<in> set ks. from_snaps drift now snaps k" "\<forall>s \<in> set snaps. snap_ok s" "0 \<le> drift"
  shows "pos_weights ks" "\<forall>k \<in> set ks. cand_ok k"
proof -
  show ok: "\<forall>k \<in> set ks. cand_ok k" using assms candidate_of_ok by (auto simp: from_snaps_def)
  then show "pos_weights ks" using assms(1) by (auto simp: pos_weights_def cand_ok_def cand_weight_def)
qed

text \<open>The fields of a served result the theorems speak of.\<close>

lemma serve_fields:
  "cb_offsetSec (serve dmr now clock ks c) = combined_offset ks"
  "cb_dispersionSec (serve dmr now clock ks c) = combined_dispersion ks"
  "cb_usedNames (serve dmr now clock ks c) = cb_usedNames c @ map (\<lambda>k. sn_name (cd_s k)) ks"
  "cb_used (serve dmr now clock ks c) = int (length ks)"
  "cb_synchronised (serve dmr now clock ks c)"
  "cb_valid (serve dmr now clock ks c)"
  "cb_leapPending (serve dmr now clock ks c) = list_all (\<lambda>k. sn_leapPending (cd_s k)) ks"
  "cb_stratum (serve dmr now clock ks c) = clamp (fst (lowest_stratum ks) + 1) 1 kMaxStratum"
  "cb_serving (serve dmr now clock ks c) = serving_class ks"
  by (simp_all add: serve_def Let_def split: prod.split)

lemma coast_fields:
  "cb_usedNames (coast dmr now cs dp nc good prev c) = cb_usedNames c"
  "cb_serving (coast dmr now cs dp nc good prev c) \<in> {Coasting, SvNone}"
  by (simp_all add: coast_def Let_def)

lemma serving_class_serves: "serving_class ks \<in> {Primary, Secondary, Both}"
  by (simp add: serving_class_def Let_def)

section \<open>What is advertised covers the truth\<close>

definition from_sources :: "Combined \<Rightarrow> bool" where
  "from_sources c \<longleftrightarrow> cb_serving c \<in> {Primary, Secondary, Both}"

lemma combine_from_sources:
  assumes "combine dmr snaps now sl = (c, sl')" "from_sources c"
  obtains ks c0 where "ks \<noteq> []" "\<forall>k \<in> set ks. from_snaps (sl_coastDriftPpm sl) now snaps k"
    "c = serve dmr now (sl_clock sl) ks c0" "set (cb_usedNames c) = (\<lambda>k. sn_name (cd_s k)) ` set ks"
  using assms(1)
proof (cases rule: combine_cases)
  case (served ks c0)
  then show ?thesis by (intro that[of ks c0]) (simp_all add: serve_fields)
next
  case (coasted c0 noCand)
  then show ?thesis
    using assms(2) coast_fields(2)[of dmr now "sl_coastSeconds sl" "sl_coastDriftPpm sl" noCand "sl_good sl" "sl_last sl" c0]
    by (auto simp: from_sources_def)
qed

text \<open>
  C1: The advertised dispersion covers the truth: if every source in use asserts an interval
  that contains the true offset, the time served is within the advertised dispersion of
  true time, and so is what each source in use says on its own.
\<close>

theorem served_time_covered:
  assumes "combine dmr snaps now sl = (c, sl')" "from_sources c"
    and "\<forall>s \<in> set snaps. snap_ok s" "0 \<le> sl_coastDriftPpm sl"
    and truth: "\<forall>s \<in> set snaps. sn_name s \<in> set (cb_usedNames c) \<and> candidate_why s = None \<longrightarrow>
      (let k = candidate_of (sl_coastDriftPpm sl) now s in \<bar>cd_offset k - \<theta>\<bar> \<le> cd_dist k)"
  shows "\<bar>utcAt c now - (now + \<theta>)\<bar> \<le> cb_dispersionSec c
    \<and> (\<forall>name \<in> set (cb_usedNames c). \<exists>s \<in> set snaps. sn_name s = name \<and>
      \<bar>cd_offset (candidate_of (sl_coastDriftPpm sl) now s) - cb_offsetSec c\<bar> \<le> cb_dispersionSec c)"
proof -
  obtain ks c0 where ks: "ks \<noteq> []" "\<forall>k \<in> set ks. from_snaps (sl_coastDriftPpm sl) now snaps k"
      "c = serve dmr now (sl_clock sl) ks c0" "set (cb_usedNames c) = (\<lambda>k. sn_name (cd_s k)) ` set ks"
    by (rule combine_from_sources[OF assms(1,2)])
  note w = from_snaps_weights[OF ks(1,2) assms(3,4)]
  have snap: "\<exists>s \<in> set snaps. candidate_why s = None \<and> k = candidate_of (sl_coastDriftPpm sl) now s \<and> cd_s k = s"
    if "k \<in> set ks" for k
    using ks(2) that by (fastforce simp: from_snaps_def candidate_of_def Let_def)
  have close: "\<bar>cd_offset k - \<theta>\<bar> \<le> cd_dist k" if "k \<in> set ks" for k
    using snap[OF that] truth ks(4) that by (auto simp: Let_def)
  have "\<bar>combined_offset ks - \<theta>\<bar> \<le> weighted cd_dist ks"
    unfolding combined_offset_def using close by (intro weighted_close[OF w(1)])
  then have "\<bar>combined_offset ks - \<theta>\<bar> \<le> combined_dispersion ks"
    using max_over_bounds(1)[of "\<lambda>k. \<bar>cd_offset k - combined_offset ks\<bar>" ks] by (simp add: combined_dispersion_def)
  moreover have "cb_atSec c = now" unfolding ks(3) by (simp add: serve_def Let_def split: prod.split)
  ultimately have served: "\<bar>utcAt c now - (now + \<theta>)\<bar> \<le> cb_dispersionSec c"
    using serve_fields(1,2)[of dmr now "sl_clock sl" ks c0] by (simp add: utcAt_def ks(3))
  have "weighted (\<lambda>_. 0) ks \<le> weighted cd_dist ks"
    using w(2) by (intro weighted_mono[OF w(1)]) (simp add: cand_ok_def less_imp_le)
  moreover have "weighted (\<lambda>_. 0) ks = 0" by (simp add: weighted_def)
  ultimately have "0 \<le> weighted cd_dist ks" by simp
  then have "\<bar>cd_offset k - combined_offset ks\<bar> \<le> combined_dispersion ks" if "k \<in> set ks" for k
    using max_over_bounds(2)[OF that, of "\<lambda>k. \<bar>cd_offset k - combined_offset ks\<bar>"] by (simp add: combined_dispersion_def)
  then have "\<forall>name \<in> set (cb_usedNames c). \<exists>s \<in> set snaps. sn_name s = name \<and>
      \<bar>cd_offset (candidate_of (sl_coastDriftPpm sl) now s) - cb_offsetSec c\<bar> \<le> cb_dispersionSec c"
    using snap ks(4) serve_fields(1,2)[of dmr now "sl_clock sl" ks c0] unfolding ks(3) by (metis (no_types, lifting) imageE)
  with served show ?thesis by blast
qed

text \<open>Two receivers, one and three milliseconds off, each good to five.\<close>

definition demo_source :: "string \<Rightarrow> real \<Rightarrow> SourceSnapshot" where
  "demo_source name off = default_SourceSnapshot\<lparr>sn_name := name, sn_ready := True, sn_haveOffset := True,
     sn_offsetSec := off, sn_offsetAtSec := 100, sn_dispersionSec := 1 / 200, sn_offsetAgeSec := 0\<rparr>"

definition demo_snaps :: "SourceSnapshot list" where
  "demo_snaps = [demo_source ''a'' (1 / 1000), demo_source ''b'' (3 / 1000)]"

definition demo_selector :: Selector where
  "demo_selector = mk_Selector 3600 15 1 default_ClockConfig"

definition demo_pool :: "Candidate list" where
  "demo_pool = map (candidate_of 15 100) demo_snaps"

lemmas demo_source_simps = demo_source_def demo_snaps_def default_SourceSnapshot_def

lemma demo_selector_simps [simp]:
  "sl_coastDriftPpm demo_selector = 15" "sl_minSources demo_selector = 1" "sl_residualAvg demo_selector = Map.empty"
  "sl_reacquire demo_selector = Map.empty" "sl_good demo_selector = default_LastGood"
  "sl_clock demo_selector = default_ClockConfig" "ck_secondary default_ClockConfig = Standby"
  "sl_failover demo_selector = \<lparr>fo_onSecondary = False, fo_primaryLostSince = 0, fo_primaryHealthySince = 0,
     fo_secondaryActive = True, fo_activationReason = ModeIs Standby\<rparr>"
  by (simp_all add: demo_selector_def mk_Selector_def default_ClockConfig_def)

lemma demo_split: "split_sources 15 100 demo_snaps = (demo_pool, [], [], Map.empty)"
  by (simp add: split_sources_def demo_pool_def demo_source_simps candidate_why_def max_age_def kCandidateMaxAgeSec_def Let_def)

lemma demo_not_refused: "jg_refused (judge_sources 100 demo_pool [] Map.empty Map.empty) = {}"
  using small_class_refuses_nobody[of demo_pool 100 "judge_begin Map.empty Map.empty"]
  by (simp add: judge_sources_def Let_def small_class_refuses_nobody judge_begin_def demo_pool_def demo_snaps_def)

lemma demo_pool_proper: "proper demo_pool" "demo_pool \<noteq> []" "length demo_pool = 2" "list_ex cd_primary demo_pool"
  by (simp_all add: proper_def demo_pool_def demo_source_simps candidate_of_def Let_def)

lemma demo_combine: "from_sources (fst (combine 0 demo_snaps 100 demo_selector))"
proof -
  obtain sv rest best where i: "intersect None demo_pool = (sv, rest, best)" by (metis prod_cases3)
  then have sv: "sv \<noteq> []" using intersect_nonempty[OF demo_pool_proper(1,2), of None] by simp
  then have n: "1 \<le> int (length sv)" by (cases sv) auto
  obtain s1 c where "select_survivors demo_snaps 100 demo_selector = (s1, demo_pool, sv, 1, c)"
    using demo_pool_proper demo_not_refused
    by (simp add: select_survivors_def demo_split dropRefused_def class_delta_def failover_step_def timers_step_def
        latch_step_def activation_step_def serving_pool_def default_LastGood_def i Let_def)
  then show ?thesis
    using sv n serve_fields(9) serving_class_serves by (auto simp: combine_def from_sources_def Let_def)
qed

theorem served_time_covered_witness:
  "\<bar>utcAt (fst (combine 0 demo_snaps 100 demo_selector)) 100 - (100 + 2 / 1000)\<bar>
     \<le> cb_dispersionSec (fst (combine 0 demo_snaps 100 demo_selector))"
proof -
  have "\<forall>s \<in> set demo_snaps. (let k = candidate_of 15 100 s in \<bar>cd_offset k - 2 / 1000\<bar> \<le> cd_dist k)"
    by (simp add: demo_source_simps candidate_of_def Let_def)
  then show ?thesis
    using served_time_covered[of 0 demo_snaps 100 demo_selector "fst (combine 0 demo_snaps 100 demo_selector)"
        "snd (combine 0 demo_snaps 100 demo_selector)" "2 / 1000"] demo_combine
    by (simp add: snap_ok_def demo_source_simps)
qed

section \<open>What a client computes\<close>

text \<open>A run of \<open>combine\<close>: the host clock's offset, the reports and the time of each call.\<close>

type_synonym combine_call = "real \<times> SourceSnapshot list \<times> real"

definition combine_next :: "combine_call \<Rightarrow> Selector \<Rightarrow> Selector" where
  "combine_next = (\<lambda>(dmr, snaps, now) sl. snd (combine dmr snaps now sl))"

text \<open>The last good figures and the last result go together.\<close>

definition wire_inv :: "Selector \<Rightarrow> bool" where
  "wire_inv sl \<longleftrightarrow> (lg_have (sl_good sl) \<longrightarrow>
     lg_dispersion (sl_good sl) \<le> cb_rootDelaySec (sl_last sl) / 2 + lg_rootDispersion (sl_good sl)
     \<and> 1 \<le> cb_stratum (sl_last sl) \<and> cb_stratum (sl_last sl) \<le> kMaxStratum)"

definition wire_ok :: "Combined \<Rightarrow> bool" where
  "wire_ok c \<longleftrightarrow> (cb_valid c \<longrightarrow>
     cb_dispersionSec c \<le> cb_rootDelaySec c / 2 + cb_rootDispersionSec c
     \<and> 1 \<le> cb_stratum c \<and> cb_stratum c \<le> kMaxStratum)"

lemma serve_wire: "wire_ok (serve dmr now clock ks c)"
proof -
  have "1 \<le> clamp v 1 kMaxStratum \<and> clamp v 1 kMaxStratum \<le> kMaxStratum" for v
    by (rule clamp_bounds) (simp add: kMaxStratum_def)
  then show ?thesis by (auto simp: wire_ok_def serve_def Let_def split: prod.split)
qed

lemma coast_wire:
  assumes "wire_inv sl"
  shows "wire_ok (coast dmr now cs dp nc (sl_good sl) (sl_last sl) c)"
  using assms by (auto simp: wire_ok_def wire_inv_def coast_def Let_def)

lemma combine_wire:
  assumes "wire_inv sl" "combine dmr snaps now sl = (c, sl')"
  shows "wire_ok c" "wire_inv sl'"
proof -
  from assms(2) have "wire_ok c \<and> wire_inv sl'"
  proof (cases rule: combine_cases)
    case (served ks c0)
    then show ?thesis
      using serve_wire[of dmr now "sl_clock sl" ks c0] serve_fields(6)[of dmr now "sl_clock sl" ks c0]
      by (auto simp: wire_inv_def wire_ok_def good_of_def)
  next
    case (coasted c0 noCand)
    then have ok: "wire_ok c" using coast_wire[OF assms(1)] by simp
    have "lg_have (sl_good sl) \<Longrightarrow> cb_rootDelaySec c = cb_rootDelaySec (sl_last sl) \<and> cb_stratum c = cb_stratum (sl_last sl)"
      by (simp add: coasted(1) coast_def Let_def)
    with ok coasted assms(1) show ?thesis by (auto simp: wire_inv_def)
  qed
  then show "wire_ok c" "wire_inv sl'" by simp_all
qed

lemma combine_run_wire: "wire_inv (fold combine_next calls (mk_Selector cs dp ms clock))"
proof -
  have "wire_inv (fold combine_next calls sl)" if "wire_inv sl" for sl
    using that
  proof (induction calls arbitrary: sl)
    case (Cons a calls)
    obtain dmr snaps now where a: "a = (dmr, snaps, now)" by (cases a)
    obtain c sl' where "combine dmr snaps now sl = (c, sl')" by (cases "combine dmr snaps now sl")
    with combine_wire(2)[OF Cons.prems this] Cons.IH[of sl'] show ?case by (simp add: a combine_next_def)
  qed simp
  then show ?thesis by (simp add: wire_inv_def mk_Selector_def default_LastGood_def Let_def)
qed


lemma demo_valid: "cb_valid (fst (combine 0 demo_snaps 100 demo_selector))"
proof -
  obtain c sl' where c: "combine 0 demo_snaps 100 demo_selector = (c, sl')"
    by (cases "combine 0 demo_snaps 100 demo_selector")
  obtain ks c0 where "c = serve 0 100 (sl_clock demo_selector) ks c0"
    using combine_from_sources[OF c] demo_combine c by (metis fst_conv)
  then show ?thesis by (simp add: c serve_fields)
qed


section \<open>Stratum and leap second\<close>

lemma lowest_stratum_radio: "snd (lowest_stratum ks) = list_ex (\<lambda>k. sn_kind (cd_s k) = Radio) ks"
proof -
  have "snd (fold (\<lambda>k (lowest, anyRadio).
        if sn_kind (cd_s k) = Radio then (0, True) else (min lowest (np_stratum (sn_ntp (cd_s k))), anyRadio)) ks (l, b))
      = (b \<or> list_ex (\<lambda>k. sn_kind (cd_s k) = Radio) ks)" for l b
    by (induction ks arbitrary: l b) auto
  then show ?thesis by (simp add: lowest_stratum_def)
qed

lemma lowest_stratum_value:
  assumes "\<forall>k \<in> set ks. sn_kind (cd_s k) = Ntp \<longrightarrow> 1 \<le> np_stratum (sn_ntp (cd_s k))"
  shows "fst (lowest_stratum ks) = 0 \<longleftrightarrow> list_ex (\<lambda>k. sn_kind (cd_s k) = Radio) ks" "0 \<le> fst (lowest_stratum ks)"
proof -
  have "0 \<le> l \<Longrightarrow> 0 \<le> fst (fold (\<lambda>k (lowest, anyRadio).
        if sn_kind (cd_s k) = Radio then (0, True) else (min lowest (np_stratum (sn_ntp (cd_s k))), anyRadio)) ks (l, b))
      \<and> (fst (fold (\<lambda>k (lowest, anyRadio).
        if sn_kind (cd_s k) = Radio then (0, True) else (min lowest (np_stratum (sn_ntp (cd_s k))), anyRadio)) ks (l, b)) = 0
      \<longleftrightarrow> l = 0 \<or> list_ex (\<lambda>k. sn_kind (cd_s k) = Radio) ks)" for l b
    using assms
  proof (induction ks arbitrary: l b)
    case (Cons k ks)
    show ?case
    proof (cases "sn_kind (cd_s k)")
      case Radio
      then show ?thesis using Cons.IH[of 0 True] Cons.prems by simp
    next
      case Ntp
      then show ?thesis using Cons.IH[of "min l (np_stratum (sn_ntp (cd_s k)))" b] Cons.prems by (auto simp: min_def)
    qed
  qed simp
  from this[of 16 False] show "fst (lowest_stratum ks) = 0 \<longleftrightarrow> list_ex (\<lambda>k. sn_kind (cd_s k) = Radio) ks"
    "0 \<le> fst (lowest_stratum ks)" by (simp_all add: lowest_stratum_def)
qed

text \<open>With distinct names, a used name stands for one report, the survivor's.\<close>

lemma used_snapshot:
  assumes "distinct (map sn_name snaps)" "\<forall>k \<in> set ks. from_snaps drift now snaps k"
    and "s \<in> set snaps" "sn_name s \<in> (\<lambda>k. sn_name (cd_s k)) ` set ks"
  shows "\<exists>k \<in> set ks. cd_s k = s"
proof -
  obtain k where k: "k \<in> set ks" "sn_name s = sn_name (cd_s k)" using assms(4) by auto
  then have "cd_s k \<in> set snaps" using assms(2) by (auto simp: from_snaps_def candidate_of_def Let_def)
  then have "cd_s k = s" using assms(1,3) k(2) by (metis distinct_map inj_onD)
  with k(1) show ?thesis by blast
qed

text \<open>
  Stratum 1 is claimed only for a radio: when the sources in use serve, and upstreams
  report a stratum of at least 1, the result is stratum 1 exactly when a radio source is in
  use. With one, the root delay is zero and the reference identifier a station's; without,
  it is an upstream's address.
\<close>

theorem stratum_one_iff_radio:
  assumes "combine dmr snaps now sl = (c, sl')" "from_sources c" "distinct (map sn_name snaps)"
    and "\<forall>s \<in> set snaps. sn_kind s = Ntp \<longrightarrow> 1 \<le> np_stratum (sn_ntp s)"
  shows "(cb_stratum c = 1 \<longleftrightarrow> (\<exists>s \<in> set snaps. sn_name s \<in> set (cb_usedNames c) \<and> sn_kind s = Radio))
    \<and> (cb_stratum c = 1 \<longrightarrow> cb_rootDelaySec c = 0 \<and> \<not> cb_refidIsAddress c
        \<and> cb_refid c \<in> {''WWV'', ''WWVH'', ''WWVB'', ''DCF'', ''MSF'', ''TDF''})
    \<and> (cb_stratum c \<noteq> 1 \<longrightarrow> cb_refidIsAddress c)"
proof -
  obtain ks c0 where ks: "ks \<noteq> []" "\<forall>k \<in> set ks. from_snaps (sl_coastDriftPpm sl) now snaps k"
      "c = serve dmr now (sl_clock sl) ks c0" "set (cb_usedNames c) = (\<lambda>k. sn_name (cd_s k)) ` set ks"
    by (rule combine_from_sources[OF assms(1,2)])
  have snap: "cd_s k \<in> set snaps" if "k \<in> set ks" for k
    using ks(2) that by (auto simp: from_snaps_def candidate_of_def Let_def)
  let ?radio = "list_ex (\<lambda>k. sn_kind (cd_s k) = Radio) ks"
  have ntp: "\<forall>k \<in> set ks. sn_kind (cd_s k) = Ntp \<longrightarrow> 1 \<le> np_stratum (sn_ntp (cd_s k))" using assms(4) snap by blast
  have "cb_stratum c = 1 \<longleftrightarrow> ?radio"
    using lowest_stratum_value[OF ntp] by (auto simp: ks(3) serve_fields clamp_def kMaxStratum_def)
  moreover have "?radio \<longleftrightarrow> (\<exists>s \<in> set snaps. sn_name s \<in> set (cb_usedNames c) \<and> sn_kind s = Radio)"
    using used_snapshot[OF assms(3) ks(2)] snap unfolding ks(4) list_ex_iff by (metis imageI)
  moreover have "if ?radio then cb_rootDelaySec c = 0 \<and> \<not> cb_refidIsAddress c
        \<and> cb_refid c \<in> {''WWV'', ''WWVH'', ''WWVB'', ''DCF'', ''MSF'', ''TDF''} else cb_refidIsAddress c"
    using lowest_stratum_radio[of ks] by (auto simp: ks(3) serve_def Let_def refidFor_def split: prod.split)
  ultimately show ?thesis by presburger
qed

theorem stratum_one_iff_radio_witness: "cb_stratum (fst (combine 0 demo_snaps 100 demo_selector)) = 1"
proof -
  let ?c = "fst (combine 0 demo_snaps 100 demo_selector)"
  obtain ks c0 where "ks \<noteq> []" "\<forall>k \<in> set ks. from_snaps 15 100 demo_snaps k" "set (cb_usedNames ?c) = (\<lambda>k. sn_name (cd_s k)) ` set ks"
    using combine_from_sources[of 0 demo_snaps 100 demo_selector ?c "snd (combine 0 demo_snaps 100 demo_selector)"] demo_combine
    by (metis demo_selector_simps(1) prod.collapse)
  then have "\<exists>s \<in> set demo_snaps. sn_name s \<in> set (cb_usedNames ?c)"
    by (cases ks) (auto simp: from_snaps_def candidate_of_def Let_def)
  then have "\<exists>s \<in> set demo_snaps. sn_name s \<in> set (cb_usedNames ?c) \<and> sn_kind s = Radio"
    by (auto simp: demo_source_simps)
  then show ?thesis
    using stratum_one_iff_radio[of 0 demo_snaps 100 demo_selector ?c "snd (combine 0 demo_snaps 100 demo_selector)"] demo_combine
    by (simp add: demo_source_simps)
qed

text \<open>
  A leap second is announced only on the word of every source in use: a result with the
  leap warning has sources in use, and each of them reports it.
\<close>

theorem leap_needs_unanimity:
  assumes "combine dmr snaps now sl = (c, sl')" "from_sources c" "distinct (map sn_name snaps)" "cb_leapPending c"
  shows "cb_usedNames c \<noteq> [] \<and> (\<forall>s \<in> set snaps. sn_name s \<in> set (cb_usedNames c) \<longrightarrow> sn_leapPending s)"
proof -
  obtain ks c0 where ks: "ks \<noteq> []" "\<forall>k \<in> set ks. from_snaps (sl_coastDriftPpm sl) now snaps k"
      "c = serve dmr now (sl_clock sl) ks c0" "set (cb_usedNames c) = (\<lambda>k. sn_name (cd_s k)) ` set ks"
    by (rule combine_from_sources[OF assms(1,2)])
  have "\<forall>k \<in> set ks. sn_leapPending (cd_s k)" using assms(4) by (simp add: ks(3) serve_fields list_all_iff)
  moreover have "cb_usedNames c \<noteq> []" using ks(1,3) by (simp add: serve_fields)
  ultimately show ?thesis using used_snapshot[OF assms(3) ks(2)] unfolding ks(4) by blast
qed

text \<open>One receiver, reporting the warning.\<close>

definition demo_leap :: "SourceSnapshot list" where
  "demo_leap = [(demo_source ''a'' (1 / 1000))\<lparr>sn_leapPending := True\<rparr>]"

lemma demo_leap_served:
  "from_sources (fst (combine 0 demo_leap 100 demo_selector)) \<and> cb_leapPending (fst (combine 0 demo_leap 100 demo_selector))"
proof -
  let ?k = "candidate_of 15 100 ((demo_source ''a'' (1 / 1000))\<lparr>sn_leapPending := True\<rparr>)"
  have sp: "split_sources 15 100 demo_leap = ([?k], [], [], Map.empty)"
    by (simp add: split_sources_def demo_leap_def demo_source_simps candidate_why_def max_age_def kCandidateMaxAgeSec_def Let_def)
  have k: "cd_primary ?k" "cd_s ?k = (demo_source ''a'' (1 / 1000))\<lparr>sn_leapPending := True\<rparr>"
    by (simp_all add: candidate_of_def Let_def demo_source_simps)
  have "jg_refused (judge_sources 100 [?k] [] Map.empty Map.empty) = {}"
    using small_class_refuses_nobody[of "[?k]" 100 "judge_begin Map.empty Map.empty"]
    by (simp add: judge_sources_def Let_def small_class_refuses_nobody judge_begin_def)
  then obtain s1 c where "select_survivors demo_leap 100 demo_selector = (s1, [?k], [?k], 1, c)"
    using k by (simp add: select_survivors_def sp dropRefused_def class_delta_def failover_step_def timers_step_def
        latch_step_def activation_step_def serving_pool_def default_LastGood_def intersect_def Let_def)
  then show ?thesis
    using k serve_fields(7,9) serving_class_serves by (auto simp: combine_def from_sources_def Let_def)
qed

theorem leap_needs_unanimity_witness:
  "cb_usedNames (fst (combine 0 demo_leap 100 demo_selector)) \<noteq> []"
  using leap_needs_unanimity[of 0 demo_leap 100 demo_selector "fst (combine 0 demo_leap 100 demo_selector)"
      "snd (combine 0 demo_leap 100 demo_selector)"] demo_leap_served
  by (simp add: demo_leap_def demo_source_simps)

section \<open>Coasting\<close>

text \<open>
  C27: Coasting stays honest: if the truth was within the dispersion when the last good offset
  was formed, and the crystal has since moved from the rate it was last measured at by no
  more than the drift allowance plus that rate's uncertainty, the coasted time is within the
  coasted dispersion of the truth; and it counts as synchronised exactly until the coast
  limit.
\<close>

theorem coasted_time_covered:
  assumes "combine dmr snaps now sl = (c, sl')" "cb_serving c = Coasting"
    and "\<bar>\<theta>0 - lg_offset (sl_good sl)\<bar> \<le> lg_dispersion (sl_good sl)"
    and "\<bar>\<theta> - (\<theta>0 + lg_rate (sl_good sl) * (now - lg_at (sl_good sl)))\<bar>
      \<le> (now - lg_at (sl_good sl)) * (sl_coastDriftPpm sl / 10 ^ 6 + lg_rateUncertainty (sl_good sl))"
  shows "\<bar>utcAt c now - (now + \<theta>)\<bar> \<le> cb_dispersionSec c
    \<and> (cb_synchronised c \<longleftrightarrow> now - lg_at (sl_good sl) \<le> sl_coastSeconds sl)"
  using assms(1)
proof (cases rule: combine_cases)
  case (served ks c0)
  then show ?thesis using assms(2) serving_class_serves[of ks] by (auto simp: serve_fields)
next
  case (coasted c0 noCand)
  let ?g = "sl_good sl"
  have hv: "lg_have ?g" using assms(2) coasted(1) by (auto simp: coast_def split: if_splits)
  then have f: "cb_offsetSec c = lg_offset ?g + lg_rate ?g * (now - lg_at ?g)" "cb_atSec c = now"
      "cb_dispersionSec c = lg_dispersion ?g + (now - lg_at ?g) * (sl_coastDriftPpm sl / 10 ^ 6 + lg_rateUncertainty ?g)"
      "cb_synchronised c \<longleftrightarrow> now - lg_at ?g \<le> sl_coastSeconds sl"
    by (simp_all add: coasted(1) coast_def Let_def)
  have "\<bar>cb_offsetSec c - \<theta>\<bar> \<le> cb_dispersionSec c" using assms(3,4) unfolding f(1,3) by linarith
  then show ?thesis using f(2,4) by (simp add: utcAt_def)
qed

definition demo_good :: Selector where
  "demo_good = demo_selector\<lparr>sl_good := default_LastGood\<lparr>lg_have := True, lg_offset := 2, lg_dispersion := 1 / 100, lg_at := 100\<rparr>\<rparr>"

theorem coasted_time_covered_witness:
  "let c = fst (combine 0 [] 1100 demo_good) in \<bar>utcAt c 1100 - (1100 + 2)\<bar> \<le> cb_dispersionSec c \<and> cb_synchronised c"
proof -
  have "cb_serving (fst (combine 0 [] 1100 demo_good)) = Coasting"
    by (simp add: combine_def select_survivors_def split_sources_def judge_sources_def judgeClass_def judge_begin_def
        dropRefused_def class_delta_def failover_step_def timers_step_def latch_step_def activation_step_def serving_pool_def
        intersect_def demo_good_def default_LastGood_def coast_def Let_def)
  then show ?thesis
    using coasted_time_covered[of 0 "[]" 1100 demo_good "fst (combine 0 [] 1100 demo_good)"
        "snd (combine 0 [] 1100 demo_good)" 2 2]
    by (simp add: Let_def demo_good_def default_LastGood_def) (simp add: demo_selector_def mk_Selector_def Let_def)
qed

end
