(* ===== verification/Selector_Failover.thy ===== *)
theory Selector_Failover
  imports Selector
begin

text \<open>
  The failover state machine of \<^verbatim>\<open>Selector::combine\<close> over whole runs: a latch, two timers and
  the activation of a cold standby. Each event is one \<open>combine\<close>: its time and what the
  two classes can do. The state machine is also given as a step relation whose reachable
  states satisfy the timer invariant.
\<close>

section \<open>Runs\<close>

record FailoverEvent =
  ev_now :: real
  ev_primary :: bool
  ev_secondary :: bool
  ev_configured :: bool

definition fo_next :: "ClockConfig \<Rightarrow> FailoverEvent \<Rightarrow> Failover \<Rightarrow> Failover" where
  "fo_next clock e fo = fst (failover_step clock (ev_now e) (ev_primary e) (ev_secondary e) (ev_configured e) fo)"

definition fo_init :: "ClockConfig \<Rightarrow> Failover" where
  "fo_init clock = sl_failover (mk_Selector 0 0 0 clock)"

text \<open>The states a run reaches, with the events that led there, newest last.\<close>

inductive fo_reach :: "ClockConfig \<Rightarrow> FailoverEvent list \<Rightarrow> Failover \<Rightarrow> bool" for clock where
  start: "fo_reach clock [] (fo_init clock)"
| step: "fo_reach clock es fo \<Longrightarrow> 0 < ev_now e \<Longrightarrow> fo_reach clock (es @ [e]) (fo_next clock e fo)"

inductive_cases fo_reach_snoc: "fo_reach clock (es @ [e]) fo"

text \<open>The events end with an unbroken run of \<open>P\<close> that began at \<open>t\<close>.\<close>

definition held_since :: "(FailoverEvent \<Rightarrow> bool) \<Rightarrow> real \<Rightarrow> FailoverEvent list \<Rightarrow> bool" where
  "held_since P t es \<longleftrightarrow> (\<exists>ys zs. es = ys @ zs \<and> zs \<noteq> [] \<and> (\<forall>z \<in> set zs. P z) \<and> ev_now (hd zs) = t)"

definition timers_inv :: "FailoverEvent list \<Rightarrow> Failover \<Rightarrow> bool" where
  "timers_inv es fo \<longleftrightarrow>
     (0 < fo_primaryLostSince fo \<longrightarrow> held_since (\<lambda>e. \<not> ev_primary e) (fo_primaryLostSince fo) es)
     \<and> (0 < fo_primaryHealthySince fo \<longrightarrow> held_since ev_primary (fo_primaryHealthySince fo) es)
     \<and> (fo_primaryLostSince fo = 0 \<or> fo_primaryHealthySince fo = 0)
     \<and> 0 \<le> fo_primaryLostSince fo \<and> 0 \<le> fo_primaryHealthySince fo"

lemma held_since_new: "P e \<Longrightarrow> held_since P (ev_now e) (es @ [e])"
  unfolding held_since_def by (intro exI[of _ es] exI[of _ "[e]"]) simp

lemma held_since_more:
  assumes "held_since P t es" "P e"
  shows "held_since P t (es @ [e])"
proof -
  obtain ys zs where "es = ys @ zs" "zs \<noteq> []" "\<forall>z \<in> set zs. P z" "ev_now (hd zs) = t"
    using assms(1) by (auto simp: held_since_def)
  with assms(2) show ?thesis
    unfolding held_since_def by - (rule exI[of _ ys], rule exI[of _ "zs @ [e]"], auto)
qed

lemma fo_next_timers:
  "fo_primaryLostSince (fo_next clock e fo) = fo_primaryLostSince (timers_step (ev_now e) (ev_primary e) fo)"
  "fo_primaryHealthySince (fo_next clock e fo) = fo_primaryHealthySince (timers_step (ev_now e) (ev_primary e) fo)"
  by (auto simp: fo_next_def failover_step_def latch_step_def activation_step_def Let_def split: prod.splits)

lemma timers_inv_step:
  assumes "timers_inv es fo" "0 < ev_now e"
  shows "timers_inv (es @ [e]) (timers_step (ev_now e) (ev_primary e) fo)"
  using assms held_since_new[of ev_primary e es] held_since_new[of "\<lambda>e. \<not> ev_primary e" e es]
    held_since_more[of ev_primary "fo_primaryHealthySince fo" es e]
    held_since_more[of "\<lambda>e. \<not> ev_primary e" "fo_primaryLostSince fo" es e]
  by (cases "ev_primary e") (auto simp: timers_inv_def timers_step_def)

lemma timers_inv_reach: "fo_reach clock es fo \<Longrightarrow> timers_inv es fo"
proof (induction rule: fo_reach.induct)
  case start
  then show ?case by (simp add: timers_inv_def fo_init_def mk_Selector_def Let_def)
next
  case (step es fo e)
  then have "timers_inv (es @ [e]) (timers_step (ev_now e) (ev_primary e) fo)" by (intro timers_inv_step)
  then show ?case by (simp add: timers_inv_def fo_next_timers)
qed

text \<open>What the latch needs to move.\<close>

lemma fo_next_latch:
  fixes e :: FailoverEvent and fo :: Failover
  assumes "ck_secondary clock \<noteq> Always"
  defines "ts \<equiv> timers_step (ev_now e) (ev_primary e) fo"
  shows "\<not> fo_onSecondary fo \<Longrightarrow> fo_onSecondary (fo_next clock e fo) \<longleftrightarrow>
      \<not> ev_primary e \<and> ev_secondary e
      \<and> ck_failoverAfterSec clock \<le> (if 0 < fo_primaryLostSince ts then ev_now e - fo_primaryLostSince ts else 0)"
    and "fo_onSecondary fo \<Longrightarrow> \<not> fo_onSecondary (fo_next clock e fo) \<longleftrightarrow>
      ev_primary e
      \<and> ck_failbackAfterSec clock \<le> (if 0 < fo_primaryHealthySince ts then ev_now e - fo_primaryHealthySince ts else 0)"
proof -
  have on: "fo_onSecondary ts = fo_onSecondary fo" by (simp add: ts_def timers_step_def)
  have act: "fo_onSecondary (activation_step clock n p x) = fo_onSecondary x" for n p x
    by (simp add: activation_step_def Let_def)
  have next': "fo_onSecondary (fo_next clock e fo) = fo_onSecondary
      (fst (latch_step clock (ev_now e) (ev_primary e) (ev_secondary e) (ev_configured e) ts))"
    using assms(1) by (simp add: fo_next_def failover_step_def Let_def act ts_def split: prod.split)
  show "\<not> fo_onSecondary fo \<Longrightarrow> fo_onSecondary (fo_next clock e fo) \<longleftrightarrow>
      \<not> ev_primary e \<and> ev_secondary e
      \<and> ck_failoverAfterSec clock \<le> (if 0 < fo_primaryLostSince ts then ev_now e - fo_primaryLostSince ts else 0)"
    unfolding next' using on by (simp add: latch_step_def Let_def)
  show "fo_onSecondary fo \<Longrightarrow> \<not> fo_onSecondary (fo_next clock e fo) \<longleftrightarrow>
      ev_primary e
      \<and> ck_failbackAfterSec clock \<le> (if 0 < fo_primaryHealthySince ts then ev_now e - fo_primaryHealthySince ts else 0)"
    unfolding next' using on by (simp add: latch_step_def Let_def)
qed

lemma lost_since_pos: "\<not> ev_primary e \<Longrightarrow> 0 < ev_now e \<Longrightarrow> 0 < fo_primaryLostSince (timers_step (ev_now e) (ev_primary e) fo)"
  by (simp add: timers_step_def)

lemma healthy_since_pos: "ev_primary e \<Longrightarrow> 0 < ev_now e \<Longrightarrow> 0 < fo_primaryHealthySince (timers_step (ev_now e) (ev_primary e) fo)"
  by (simp add: timers_step_def)

text \<open>
  C28: Both swaps wait their turn: in any run, the served time moves to the secondary class
  only at the end of an unbroken run of calls with the primary unusable that is at least
  \<open>failoverAfterSec\<close> long, with the secondary usable; and it moves back only at the end of
  an unbroken run of calls with the primary usable that is at least \<open>failbackAfterSec\<close> long.
\<close>

theorem failover_hold_down:
  assumes "fo_reach clock es fo" "ck_secondary clock \<noteq> Always" "0 < ev_now e"
    and "fo_onSecondary (fo_next clock e fo) \<noteq> fo_onSecondary fo"
  shows "if fo_onSecondary fo
    then \<exists>t. held_since ev_primary t (es @ [e]) \<and> ck_failbackAfterSec clock \<le> ev_now e - t
    else ev_secondary e \<and> (\<exists>t. held_since (\<lambda>e. \<not> ev_primary e) t (es @ [e]) \<and> ck_failoverAfterSec clock \<le> ev_now e - t)"
proof -
  let ?ts = "timers_step (ev_now e) (ev_primary e) fo"
  have inv: "timers_inv (es @ [e]) ?ts" using timers_inv_step[OF timers_inv_reach[OF assms(1)] assms(3)] .
  show ?thesis
  proof (cases "fo_onSecondary fo")
    case True
    then have "ev_primary e" "ck_failbackAfterSec clock \<le> ev_now e - fo_primaryHealthySince ?ts"
      using fo_next_latch(2)[OF assms(2) True] assms(4) healthy_since_pos[OF _ assms(3), of fo] by auto
    then show ?thesis
      using True inv healthy_since_pos[OF _ assms(3), of fo] by (auto simp: timers_inv_def)
  next
    case False
    then have "\<not> ev_primary e" "ev_secondary e" "ck_failoverAfterSec clock \<le> ev_now e - fo_primaryLostSince ?ts"
      using fo_next_latch(1)[OF assms(2) False] assms(4) lost_since_pos[OF _ assms(3), of fo] by auto
    then show ?thesis
      using False inv lost_since_pos[OF _ assms(3), of fo] by (auto simp: timers_inv_def)
  qed
qed

text \<open>A standby configuration whose receiver is lost for 65 seconds while an upstream is usable.\<close>

definition demo_lost :: "real \<Rightarrow> FailoverEvent" where
  "demo_lost t = \<lparr>ev_now = t, ev_primary = False, ev_secondary = True, ev_configured = True\<rparr>"

definition demo_fo :: Failover where
  "demo_fo = fo_next default_ClockConfig (demo_lost 5) (fo_init default_ClockConfig)"

lemma demo_fo_reach: "fo_reach default_ClockConfig [demo_lost 5] demo_fo"
  using fo_reach.step[OF fo_reach.start[of default_ClockConfig], of "demo_lost 5"] by (simp add: demo_fo_def demo_lost_def)

lemmas fo_eval = fo_next_def failover_step_def timers_step_def latch_step_def activation_step_def
  fo_init_def mk_Selector_def default_ClockConfig_def demo_lost_def demo_fo_def Let_def

theorem failover_hold_down_witness:
  "\<exists>t. held_since (\<lambda>e. \<not> ev_primary e) t [demo_lost 5, demo_lost 70] \<and> 60 \<le> 70 - t"
proof -
  have "fo_onSecondary (fo_next default_ClockConfig (demo_lost 70) demo_fo) \<and> \<not> fo_onSecondary demo_fo"
    by (simp add: fo_eval)
  then show ?thesis
    using failover_hold_down[OF demo_fo_reach, of "demo_lost 70"] by (simp add: default_ClockConfig_def demo_lost_def)
qed

section \<open>The standby does take over\<close>

lemma lost_timer_run:
  assumes "es \<noteq> []" "\<forall>e \<in> set es. \<not> ev_primary e \<and> 0 < ev_now e"
    and "fo_primaryLostSince fo \<le> ev_now (hd es)"
  shows "0 < fo_primaryLostSince (fold (fo_next clock) es fo) \<and> fo_primaryLostSince (fold (fo_next clock) es fo) \<le> ev_now (hd es)"
  using assms
proof (induction es arbitrary: fo)
  case (Cons e es)
  let ?fo = "fo_next clock e fo"
  have f: "0 < fo_primaryLostSince ?fo" "fo_primaryLostSince ?fo \<le> ev_now e"
    using Cons.prems by (auto simp: fo_next_timers timers_step_def)
  have "0 < fo_primaryLostSince (fold (fo_next clock) xs g) \<and> fo_primaryLostSince (fold (fo_next clock) xs g) = fo_primaryLostSince g"
    if "\<forall>x \<in> set xs. \<not> ev_primary x" "0 < fo_primaryLostSince g" for xs g
    using that by (induction xs arbitrary: g) (auto simp: fo_next_timers timers_step_def)
  from this[of es ?fo] Cons.prems(2) f show ?case by simp
qed simp

lemma stays_on_secondary:
  assumes "ck_secondary clock \<noteq> Always" "\<forall>e \<in> set es. \<not> ev_primary e" "fo_onSecondary fo"
  shows "fo_onSecondary (fold (fo_next clock) es fo)"
  using assms(2,3)
proof (induction es arbitrary: fo)
  case (Cons e es)
  then have "fo_onSecondary (fo_next clock e fo)"
    using fo_next_latch(2)[OF assms(1) Cons.prems(2), of e] by auto
  with Cons show ?case by simp
qed simp

text \<open>
  The standby does take over: from any state, once the primary has been unusable in every
  call for \<open>failoverAfterSec\<close>, the secondary usable at the last of them, the secondary serves.
\<close>

theorem failover_happens:
  assumes "ck_secondary clock \<noteq> Always" "es \<noteq> []" "\<forall>e \<in> set es. \<not> ev_primary e \<and> 0 < ev_now e"
    and "fo_primaryLostSince fo \<le> ev_now (hd es)" "ev_secondary (last es)"
    and "ck_failoverAfterSec clock \<le> ev_now (last es) - ev_now (hd es)"
  shows "fo_onSecondary (fold (fo_next clock) es fo)"
proof -
  obtain xs e where es: "es = xs @ [e]" using assms(2) by (metis rev_exhaust)
  let ?g = "fold (fo_next clock) xs fo"
  show ?thesis
  proof (cases "fo_onSecondary ?g")
    case True
    then show ?thesis using stays_on_secondary[OF assms(1), of "[e]" ?g] assms(3) by (simp add: es)
  next
    case False
    let ?ts = "timers_step (ev_now e) (ev_primary e) ?g"
    have "0 < fo_primaryLostSince ?ts \<and> fo_primaryLostSince ?ts \<le> ev_now (hd es)"
      using lost_timer_run[OF assms(2,3,4), of clock] by (simp add: es fo_next_timers)
    then show ?thesis
      using fo_next_latch(1)[OF assms(1) False, of e] assms(3,5,6) by (auto simp: es)
  qed
qed

theorem failover_happens_witness:
  "fo_onSecondary (fold (fo_next default_ClockConfig) [demo_lost 5, demo_lost 70] (fo_init default_ClockConfig))"
  using failover_happens[of default_ClockConfig "[demo_lost 5, demo_lost 70]" "fo_init default_ClockConfig"]
  by (simp add: fo_init_def mk_Selector_def default_ClockConfig_def demo_lost_def Let_def)

end
