(* ===== verification/Ntp_Wire.thy ===== *)
theory Ntp_Wire
  imports Ntp_Prelude
begin

text \<open>
  The wire formats the NTP server and the NTP client share: big-endian 32-bit fields, the
  64-bit timestamp and the 32-bit short format (\<^verbatim>\<open>src/src/NtpServer.cpp\<close>, lines 27 to 70, and
  \<^verbatim>\<open>src/src/NtpClient.cpp\<close>, lines 111 to 170). A packet is a list of octets. Both files define
  the encoders alike; the interface \<open>wire_field\<close> states what a field codec promises, and
  its clients conclude what is read back from a packet after writing to it.

  The results: a timestamp the server writes is read by the client, in any era, to within a
  binary fraction below it, and a short-format value to within a 65536th of a second.
\<close>

unbundle bit_operations_syntax

type_synonym packet = "octet list"

definition kPacketSize :: nat where "kPacketSize = 48"

text \<open>Copying octets into a packet at an offset, and taking them out.\<close>

definition poke :: "nat \<Rightarrow> octet list \<Rightarrow> packet \<Rightarrow> packet" where
  "poke i bs p = take i p @ bs @ drop (i + length bs) p"

definition peek :: "nat \<Rightarrow> nat \<Rightarrow> packet \<Rightarrow> octet list" where
  "peek i n p = take n (drop i p)"

lemma length_poke [wire_simps, simp]: "i + length bs \<le> length p \<Longrightarrow> length (poke i bs p) = length p"
  by (simp add: poke_def)

lemma peek_poke_same: "i + length bs \<le> length p \<Longrightarrow> n = length bs \<Longrightarrow> peek i n (poke i bs p) = bs"
  by (simp add: peek_def poke_def)

lemma nth_poke:
  "i + length bs \<le> length p \<Longrightarrow> k < length p \<Longrightarrow>
     poke i bs p ! k = (if i \<le> k \<and> k < i + length bs then bs ! (k - i) else p ! k)"
  by (auto simp: poke_def nth_append min_def)

lemma peek_poke_other:
  assumes "i + length bs \<le> length p" "j + n \<le> i \<or> i + length bs \<le> j" "j + n \<le> length p"
  shows "peek j n (poke i bs p) = peek j n p"
  using assms by (intro nth_equalityI) (auto simp: peek_def nth_poke)

lemma length_peek [simp]: "i + n \<le> length p \<Longrightarrow> length (peek i n p) = n"
  by (simp add: peek_def)

section \<open>The interface of a field\<close>

locale wire_field =
  fixes enc :: "'v \<Rightarrow> octet list"
    and dec :: "octet list \<Rightarrow> 'v"
    and width :: nat
  assumes enc_length: "length (enc v) = width"
    and dec_enc: "dec (enc v) = v"
begin

lemma read_back: "i + width \<le> length p \<Longrightarrow> dec (peek i width (poke i (enc v) p)) = v"
  by (simp add: peek_poke_same enc_length dec_enc)

lemma read_other:
  "i + width \<le> length p \<Longrightarrow> j + n \<le> i \<or> i + width \<le> j \<Longrightarrow> j + n \<le> length p \<Longrightarrow>
     peek j n (poke i (enc v) p) = peek j n p"
  by (simp add: peek_poke_other enc_length)

lemma enc_inject: "enc v = enc w \<Longrightarrow> v = w"
  by (metis dec_enc)

end

section \<open>Big-endian words\<close>

definition put32 :: "wire32 \<Rightarrow> octet list" where
  "put32 v = [ucast (drop_bit 24 v), ucast (drop_bit 16 v), ucast (drop_bit 8 v), ucast v]"

definition read32 :: "octet list \<Rightarrow> wire32" where
  "read32 p = push_bit 24 (ucast (p ! 0)) OR push_bit 16 (ucast (p ! 1)) OR push_bit 8 (ucast (p ! 2)) OR ucast (p ! 3)"

lemma read32_put32: "read32 (put32 v) = v"
proof (rule bit_word_eqI)
  fix n assume "n < LENGTH(32)"
  then have n: "n < 32" by simp
  have byte: "bit (read32 (put32 v)) n \<longleftrightarrow> (24 \<le> n \<and> bit v n) \<or> (16 \<le> n \<and> n < 24 \<and> bit v n)
      \<or> (8 \<le> n \<and> n < 16 \<and> bit v n) \<or> (n < 8 \<and> bit v n)"
    using n by (auto simp: read32_def put32_def bit_or_iff bit_push_bit_iff bit_ucast_iff bit_drop_bit_eq)
  show "bit (read32 (put32 v)) n = bit v n"
    unfolding byte by auto
qed

interpretation w32: wire_field put32 read32 4
  by unfold_locales (simp add: put32_def, rule read32_put32)

section \<open>Timestamps\<close>

definition kNtpUnixDelta :: int where "kNtpUnixDelta = 2208988800"

type_synonym NtpTime = "wire32 \<times> wire32"

definition toNtpTime :: "real \<Rightarrow> NtpTime" where
  "toNtpTime unixSec =
     (let ntp = unixSec + of_int kNtpUnixDelta;
          whole = of_int \<lfloor>ntp\<rfloor>;
          sec = word_of_int \<lfloor>ntp\<rfloor>;
          frac0 = ntp - whole;
          frac1 = (if frac0 < 0 then 0 else frac0);
          frac = (if 1 \<le> frac1 then 9999999999 / 10 ^ 10 else frac1)
      in (sec, word_of_int (trunc (frac * 4294967296))))"

definition toShortFormat :: "real \<Rightarrow> wire32" where
  "toShortFormat seconds =
     (let s = (if seconds < 0 then 0 else seconds);
          s = (if 65535 < s then 65535 else s)
      in word_of_int (trunc (s * 65536)))"

definition fromShortFormat :: "wire32 \<Rightarrow> real" where
  "fromShortFormat v = of_int (uint v) / 65536"

definition kEra :: real where "kEra = 4294967296"

text \<open>The two era loops.\<close>

function era_down :: "real \<Rightarrow> real \<Rightarrow> real" where
  "era_down approx u = (if u - approx > kEra / 2 then era_down approx (u - kEra) else u)"
  by auto
termination
proof (relation "measure (\<lambda>(approx, u). nat \<lceil>(u - approx) / kEra\<rceil>)")
  fix approx u :: real
  assume "u - approx > kEra / 2"
  then have "0 < (u - approx) / kEra" "(u - kEra - approx) / kEra = (u - approx) / kEra - 1"
    by (simp_all add: kEra_def field_simps)
  then show "((approx, u - kEra), (approx, u)) \<in> measure (\<lambda>(approx, u). nat \<lceil>(u - approx) / kEra\<rceil>)"
    by (simp add: ceiling_diff_one)
qed simp

function era_up :: "real \<Rightarrow> real \<Rightarrow> real" where
  "era_up approx u = (if approx - u > kEra / 2 then era_up approx (u + kEra) else u)"
  by auto
termination
proof (relation "measure (\<lambda>(approx, u). nat \<lceil>(approx - u) / kEra\<rceil>)")
  fix approx u :: real
  assume "approx - u > kEra / 2"
  then have "0 < (approx - u) / kEra" "(approx - (u + kEra)) / kEra = (approx - u) / kEra - 1"
    by (simp_all add: kEra_def field_simps)
  then show "((approx, u + kEra), (approx, u)) \<in> measure (\<lambda>(approx, u). nat \<lceil>(approx - u) / kEra\<rceil>)"
    by (simp add: ceiling_diff_one)
qed simp

declare era_down.simps [simp del] era_up.simps [simp del]

definition fromNtpTime :: "octet list \<Rightarrow> real \<Rightarrow> real" where
  "fromNtpTime p approxUnix =
     (let sec = read32 (peek 0 4 p); frac = read32 (peek 4 4 p);
          u = of_int (uint sec) - of_int kNtpUnixDelta + of_int (uint frac) / 4294967296
      in era_up approxUnix (era_down approxUnix u))"

text \<open>Each loop moves by whole eras and stops within half an era on its side.\<close>

lemma era_down_spec: "\<exists>n::nat. era_down approx u = u - of_nat n * kEra" "era_down approx u - approx \<le> kEra / 2"
    "u \<le> approx + kEra / 2 \<Longrightarrow> era_down approx u = u"
    "- (kEra / 2) \<le> u - approx \<Longrightarrow> - (kEra / 2) \<le> era_down approx u - approx"
proof -
  show "\<exists>n::nat. era_down approx u = u - of_nat n * kEra"
  proof (induction approx u rule: era_down.induct)
    case (1 approx u)
    show ?case
    proof (cases "u - approx > kEra / 2")
      case True
      then obtain n :: nat where "era_down approx (u - kEra) = u - kEra - of_nat n * kEra" using 1 by blast
      then show ?thesis using True by (intro exI[of _ "Suc n"]) (simp add: era_down.simps[of approx u] algebra_simps)
    next
      case False
      then show ?thesis by (intro exI[of _ 0]) (simp add: era_down.simps[of approx u])
    qed
  qed
  show "era_down approx u - approx \<le> kEra / 2"
    by (induction approx u rule: era_down.induct) (simp add: era_down.simps)
  show "u \<le> approx + kEra / 2 \<Longrightarrow> era_down approx u = u" by (simp add: era_down.simps)
  show "- (kEra / 2) \<le> u - approx \<Longrightarrow> - (kEra / 2) \<le> era_down approx u - approx"
  proof (induction approx u rule: era_down.induct)
    case (1 approx u)
    then show ?case by (cases "u - approx > kEra / 2") (simp_all add: era_down.simps[of approx u])
  qed
qed

lemma era_up_spec: "\<exists>n::nat. era_up approx u = u + of_nat n * kEra" "approx - era_up approx u \<le> kEra / 2"
    "u - approx \<le> kEra / 2 \<Longrightarrow> era_up approx u - approx \<le> kEra / 2"
proof -
  show "\<exists>n::nat. era_up approx u = u + of_nat n * kEra"
  proof (induction approx u rule: era_up.induct)
    case (1 approx u)
    show ?case
    proof (cases "approx - u > kEra / 2")
      case True
      then obtain n :: nat where "era_up approx (u + kEra) = u + kEra + of_nat n * kEra" using 1 by blast
      then show ?thesis using True by (intro exI[of _ "Suc n"]) (simp add: era_up.simps[of approx u] algebra_simps)
    next
      case False
      then show ?thesis by (intro exI[of _ 0]) (simp add: era_up.simps[of approx u])
    qed
  qed
  show "approx - era_up approx u \<le> kEra / 2"
    by (induction approx u rule: era_up.induct) (simp add: era_up.simps)
  show "u - approx \<le> kEra / 2 \<Longrightarrow> era_up approx u - approx \<le> kEra / 2"
  proof (induction approx u rule: era_up.induct)
    case (1 approx u)
    then show ?case by (cases "approx - u > kEra / 2") (simp_all add: era_up.simps[of approx u])
  qed
qed

text \<open>What the wire carries of an instant: the last binary fraction at or before it.\<close>

definition wire_floor :: "real \<Rightarrow> real" where
  "wire_floor t = of_int \<lfloor>t * 4294967296\<rfloor> / 4294967296"

lemma wire_floor_bounds: "t - 1 / 4294967296 < wire_floor t" "wire_floor t \<le> t"
proof -
  have "of_int \<lfloor>t * 4294967296\<rfloor> \<le> t * 4294967296" "t * 4294967296 < of_int \<lfloor>t * 4294967296\<rfloor> + 1" by linarith+
  then show "t - 1 / 4294967296 < wire_floor t" "wire_floor t \<le> t" by (simp_all add: wire_floor_def field_simps)
qed

lemma toNtpTime_parts:
  "\<exists>m::int. of_int (uint (fst (toNtpTime t))) - of_int kNtpUnixDelta + of_int (uint (snd (toNtpTime t))) / 4294967296
     = wire_floor t - of_int m * kEra"
proof -
  define n where "n = t + of_int kNtpUnixDelta"
  define a where "a = \<lfloor>n\<rfloor>"
  have f: "0 \<le> n - of_int a" "n - of_int a < 1" unfolding a_def by linarith+
  define b where "b = \<lfloor>(n - of_int a) * 4294967296\<rfloor>"
  have b: "0 \<le> b" "b < 4294967296" using f by (auto simp: b_def floor_less_iff)
  have parts: "toNtpTime t = (word_of_int a, word_of_int b)"
    using f by (simp add: toNtpTime_def Let_def n_def[symmetric] a_def[symmetric] b_def trunc_nonneg)
  have ub: "uint (word_of_int b :: wire32) = b" using b by (simp add: uint_word_of_int)
  have ua: "uint (word_of_int a :: wire32) = a - 4294967296 * (a div 4294967296)"
    by (simp add: uint_word_of_int minus_mult_div_eq_mod)
  have fl: "\<lfloor>t * 4294967296\<rfloor> = (a - kNtpUnixDelta) * 4294967296 + b"
  proof -
    have "t * 4294967296 = of_int ((a - kNtpUnixDelta) * 4294967296) + (n - of_int a) * 4294967296"
      by (simp add: n_def algebra_simps)
    then show ?thesis unfolding b_def int_add_floor by simp
  qed
  show ?thesis
    unfolding parts fst_conv snd_conv ua ub wire_floor_def fl kEra_def
    by (intro exI[of _ "a div 4294967296"]) (simp add: field_simps)
qed

text \<open>The client's eight octets of the server's timestamp.\<close>

definition put_time :: "NtpTime \<Rightarrow> octet list" where
  "put_time t = put32 (fst t) @ put32 (snd t)"

lemma peek_put_time [simp]: "peek 0 4 (put_time t) = put32 (fst t)" "peek 4 4 (put_time t) = put32 (snd t)"
  by (simp_all add: peek_def put_time_def put32_def)

lemma length_put_time [simp]: "length (put_time t) = 8"
  by (simp add: put_time_def put32_def)

lemma era_unique: "\<bar>x - y\<bar> < kEra \<Longrightarrow> x = y + of_int n * kEra \<Longrightarrow> x = y"
proof -
  assume "\<bar>x - y\<bar> < kEra" "x = y + of_int n * kEra"
  then have "\<bar>of_int n\<bar> * kEra < 1 * kEra" by (simp add: kEra_def abs_mult)
  then have "\<bar>real_of_int n\<bar> < 1" by (simp add: kEra_def)
  then have "n = 0" by linarith
  then show ?thesis using \<open>x = y + of_int n * kEra\<close> by simp
qed

lemma fromNtpTime_exact:
  assumes "\<bar>approx - t\<bar> \<le> kEra / 2 - 1"
  shows "fromNtpTime (put_time (toNtpTime t)) approx = wire_floor t"
proof -
  obtain m :: int where m: "of_int (uint (fst (toNtpTime t))) - of_int kNtpUnixDelta
      + of_int (uint (snd (toNtpTime t))) / 4294967296 = wire_floor t - of_int m * kEra"
    using toNtpTime_parts by blast
  let ?u = "wire_floor t - of_int m * kEra"
  let ?d = "era_down approx ?u"
  have r: "fromNtpTime (put_time (toNtpTime t)) approx = era_up approx ?d"
    unfolding fromNtpTime_def Let_def peek_put_time read32_put32 m ..
  obtain i j :: nat where ij: "?d = ?u - of_nat i * kEra" "era_up approx ?d = ?d + of_nat j * kEra"
    using era_down_spec(1) era_up_spec(1) by metis
  have near: "\<bar>era_up approx ?d - approx\<bar> \<le> kEra / 2"
    using era_down_spec(2)[of approx ?u] era_up_spec(2)[of approx ?d] era_up_spec(3)[where approx = approx and u = ?d]
    by linarith
  have "\<bar>wire_floor t - approx\<bar> < kEra / 2"
    using assms wire_floor_bounds[of t] by linarith
  with near have "\<bar>era_up approx ?d - wire_floor t\<bar> < kEra" by linarith
  moreover have "era_up approx ?d = wire_floor t + of_int (int j - int i - m) * kEra"
    using ij by (simp add: algebra_simps)
  ultimately have "era_up approx ?d = wire_floor t" by (rule era_unique)
  with r show ?thesis by simp
qed



text \<open>
  Root delay and dispersion survive the wire: a value between 0 and 65535 seconds is read
  back rounded down to a 65536th of a second, and the format saturates outside.
\<close>

theorem short_format_roundtrip:
  "fromShortFormat (toShortFormat s) \<le> max 0 (min s 65535)
    \<and> max 0 (min s 65535) - fromShortFormat (toShortFormat s) < 1 / 65536"
proof -
  define c where "c = max 0 (min s 65535)"
  have c: "0 \<le> c" "c \<le> 65535" by (simp_all add: c_def)
  have "toShortFormat s = word_of_int \<lfloor>c * 65536\<rfloor>"
    by (auto simp: toShortFormat_def Let_def c_def trunc_nonneg max_def min_def)
  moreover have "0 \<le> \<lfloor>c * 65536\<rfloor>" "\<lfloor>c * 65536\<rfloor> < 4294967296" using c by (auto simp: floor_less_iff)
  ultimately have "fromShortFormat (toShortFormat s) = of_int \<lfloor>c * 65536\<rfloor> / 65536"
    by (simp add: fromShortFormat_def uint_word_of_int)
  moreover have "of_int \<lfloor>c * 65536\<rfloor> \<le> c * 65536" "c * 65536 < of_int \<lfloor>c * 65536\<rfloor> + 1" by linarith+
  ultimately show ?thesis unfolding c_def[symmetric] by linarith
qed

end
