(* ===== verification/Ntp_Packet.thy ===== *)
theory Ntp_Packet
  imports Ntp_Wire
begin

text \<open>
  The NTP packet as the server and the client of \<^verbatim>\<open>src/src\<close> build and read it: forty-eight octets,
  the first of them holding the leap indicator, the version and the mode. The lemmas recover
  each field of a packet put together octet by octet.
\<close>

unbundle bit_operations_syntax

definition zero_packet :: packet where
  "zero_packet = replicate kPacketSize 0"

definition li_vn_mode :: "int \<Rightarrow> int \<Rightarrow> int \<Rightarrow> octet" where
  "li_vn_mode li version mode = word_of_int (li * 64 + version * 8 + mode)"

definition pkt_version :: "packet \<Rightarrow> int" where
  "pkt_version p = uint (drop_bit 3 (p ! 0) AND 7)"

definition pkt_mode :: "packet \<Rightarrow> int" where
  "pkt_mode p = uint ((p ! 0) AND 7)"

definition pkt_leap :: "packet \<Rightarrow> int" where
  "pkt_leap p = uint (drop_bit 6 (p ! 0) AND 3)"

definition ascii :: "string \<Rightarrow> octet list" where
  "ascii s = map (\<lambda>ch. of_char ch) s"

section \<open>Fields\<close>

lemma length_zero_packet [simp]: "length zero_packet = 48"
  by (simp add: zero_packet_def kPacketSize_def)

lemma length_ascii [simp]: "length (ascii s) = length s"
  by (simp add: ascii_def)

lemma length_put32 [simp]: "length (put32 v) = 4"
  by (simp add: put32_def)

lemma nth_peek: "i < length p \<Longrightarrow> p ! i = hd (peek i 1 p)"
  by (metis Cons_nth_drop_Suc One_nat_def list.sel(1) peek_def take_Suc_Cons)

text \<open>The header octet holds the three fields it was made of.\<close>

lemma header_bits:
  "pkt_leap (x # p) = uint x div 64 mod 4" "pkt_version (x # p) = uint x div 8 mod 8" "pkt_mode (x # p) = uint x mod 8"
proof -
  have m: "(7 :: octet) = mask 3" "(3 :: octet) = mask 2" by (simp_all add: mask_eq_exp_minus_1)
  show "pkt_leap (x # p) = uint x div 64 mod 4" "pkt_version (x # p) = uint x div 8 mod 8" "pkt_mode (x # p) = uint x mod 8"
    unfolding pkt_leap_def pkt_version_def pkt_mode_def nth_Cons_0 m take_bit_eq_mask[symmetric]
    by (simp_all add: unsigned_take_bit_eq unsigned_drop_bit_eq drop_bit_eq_div take_bit_eq_mod uint_div_distrib uint_mod_distrib)
qed

lemma header_fields:
  assumes "0 \<le> li" "li \<le> 3" "0 \<le> v" "v \<le> 7" "0 \<le> m" "m \<le> 7"
  shows "pkt_leap (li_vn_mode li v m # p) = li" "pkt_version (li_vn_mode li v m # p) = v"
    "pkt_mode (li_vn_mode li v m # p) = m"
proof -
  let ?x = "li * 64 + v * 8 + m"
  have x: "0 \<le> ?x" "?x < 256" using assms by auto
  then have u: "uint (word_of_int ?x :: octet) = ?x" by (simp only: uint_word_of_int) simp
  have d8: "?x div 8 = li * 8 + v" using assms by (intro int_div_pos_eq[where r = m]) auto
  have d: "?x div 64 = li" "?x div 8 mod 8 = v" "?x mod 8 = m"
    using assms unfolding d8
    by (auto intro: int_div_pos_eq[where r = "v * 8 + m"] int_mod_pos_eq[where q = li] int_mod_pos_eq[where q = "li * 8 + v"])
  show "pkt_leap (li_vn_mode li v m # p) = li" "pkt_version (li_vn_mode li v m # p) = v"
    "pkt_mode (li_vn_mode li v m # p) = m"
    using u d assms(1,2) by (simp_all add: header_bits li_vn_mode_def)
qed

lemma header_of_nth: "p \<noteq> [] \<Longrightarrow> p ! 0 = x \<Longrightarrow> pkt_leap p = pkt_leap [x] \<and> pkt_version p = pkt_version [x] \<and> pkt_mode p = pkt_mode [x]"
  by (simp add: pkt_leap_def pkt_version_def pkt_mode_def)

lemmas poke_simps = peek_poke_same peek_poke_other nth_poke

lemma version_range: "0 \<le> pkt_version buf" "pkt_version buf \<le> 7"
proof -
  have m: "(7 :: octet) = mask 3" by (simp add: mask_eq_exp_minus_1)
  have "pkt_version buf = take_bit 3 (uint (drop_bit 3 (buf ! 0)))"
    unfolding pkt_version_def m take_bit_eq_mask[symmetric] by (simp add: unsigned_take_bit_eq)
  then show "0 \<le> pkt_version buf" "pkt_version buf \<le> 7" by (simp_all add: take_bit_eq_mod)
qed

lemma header_nth0: "length p = 48 \<Longrightarrow> p ! 0 = x \<Longrightarrow> pkt_leap p = pkt_leap [x] \<and> pkt_version p = pkt_version [x] \<and> pkt_mode p = pkt_mode [x]"
  by (simp add: pkt_leap_def pkt_version_def pkt_mode_def)

end
