(* ===== verification/Ntp_Server.thy ===== *)
theory Ntp_Server
  imports Ntp_Packet Rate_Limiter Client_Tally Civil_Time Selector
begin

text \<open>
  The NTP service, \<^verbatim>\<open>src/src/NtpServer.h\<close> and \<^verbatim>\<open>NtpServer.cpp\<close>: what one datagram does. The
  handler takes the octets received, the sender's address, the clock readings the code
  makes (the monotonic time, the daemon clock at receipt and at transmission), the
  precision octet, the limiter's random draw and whether the send succeeds, and returns
  the octets sent, if any, and the new state. Sockets, ancillary data and threads are not
  modelled.

  The results: only well-formed client requests are answered, with a reply no longer than
  the request that echoes its version and its transmit timestamp; an unsynchronised server
  says so; a kiss carries no time; and the past hour's counters are exact.
\<close>

unbundle bit_operations_syntax

section \<open>State\<close>

record NtpCounts =
  requests :: nat
  answered :: nat
  ignored :: nat
  rateLimited :: nat
  kodSent :: nat
  unsynchronised :: nat
  sendErrors :: nat

definition zero_NtpCounts :: NtpCounts where
  "zero_NtpCounts = \<lparr>requests = 0, answered = 0, ignored = 0, rateLimited = 0, kodSent = 0, unsynchronised = 0, sendErrors = 0\<rparr>"

text \<open>\<^verbatim>\<open>std::uint64_t NtpCounts::*\<close>: a counter.\<close>

datatype counter = Requests | Answered | Ignored | RateLimited | KodSent | Unsynchronised | SendErrors

fun bump :: "counter \<Rightarrow> NtpCounts \<Rightarrow> NtpCounts" where
  "bump Requests c = c\<lparr>requests := requests c + 1\<rparr>"
| "bump Answered c = c\<lparr>answered := answered c + 1\<rparr>"
| "bump Ignored c = c\<lparr>ignored := ignored c + 1\<rparr>"
| "bump RateLimited c = c\<lparr>rateLimited := rateLimited c + 1\<rparr>"
| "bump KodSent c = c\<lparr>kodSent := kodSent c + 1\<rparr>"
| "bump Unsynchronised c = c\<lparr>unsynchronised := unsynchronised c + 1\<rparr>"
| "bump SendErrors c = c\<lparr>sendErrors := sendErrors c + 1\<rparr>"

fun value_of :: "counter \<Rightarrow> NtpCounts \<Rightarrow> nat" where
  "value_of Requests c = requests c"
| "value_of Answered c = answered c"
| "value_of Ignored c = ignored c"
| "value_of RateLimited c = rateLimited c"
| "value_of KodSent c = kodSent c"
| "value_of Unsynchronised c = unsynchronised c"
| "value_of SendErrors c = sendErrors c"

record NtpConfig =
  nt_listen :: "string list"
  nt_port :: int
  nt_coastSeconds :: real
  nt_coastDriftPpm :: real
  nt_minSources :: int
  nt_answerWhenUnsynchronised :: bool
  nt_honourLeapWarning :: bool
  nt_realtimePriority :: int
  nt_rateLimit :: RateLimitConfig
  nt_driftFile :: string

definition default_RateLimitConfig :: RateLimitConfig where
  "default_RateLimitConfig =
     \<lparr>intervalSec = 2, burst = 8, kod = True, leak = 0, ipv4Prefix = 32, ipv6Prefix = 64, exempt = []\<rparr>"

definition default_NtpConfig :: NtpConfig where
  "default_NtpConfig =
     \<lparr>nt_listen = [''0.0.0.0'', ''::''], nt_port = 123, nt_coastSeconds = 3600, nt_coastDriftPpm = 15,
      nt_minSources = 1, nt_answerWhenUnsynchronised = True, nt_honourLeapWarning = True,
      nt_realtimePriority = 10, nt_rateLimit = default_RateLimitConfig, nt_driftFile = ''''\<rparr>"

record NtpServer =
  sv_cfg :: NtpConfig
  sv_stats :: NtpCounts
  sv_limiter :: RateLimiter
  sv_tally :: ClientTally
  sv_minutes :: "NtpCounts list"
  sv_minute :: int

definition mk_NtpServer :: "inet \<Rightarrow> NtpConfig \<Rightarrow> NtpServer" where
  "mk_NtpServer inet cfg =
     \<lparr>sv_cfg = cfg, sv_stats = zero_NtpCounts, sv_limiter = mk_RateLimiter inet (nt_rateLimit cfg),
      sv_tally = mk_ClientTally, sv_minutes = replicate 60 zero_NtpCounts, sv_minute = 0\<rparr>"

section \<open>Counters\<close>

definition srv_advanceMinutes :: "int \<Rightarrow> NtpServer \<Rightarrow> NtpServer" where
  "srv_advanceMinutes minute sv =
     (if minute \<le> sv_minute sv then sv
      else let gap = min (minute - sv_minute sv) kMinutes
           in sv\<lparr>sv_minutes := fold (\<lambda>k ms. ms[nat ((sv_minute sv + k) smod kMinutes) := zero_NtpCounts]) [1..gap] (sv_minutes sv),
                 sv_minute := minute\<rparr>)"

definition count :: "real \<Rightarrow> counter \<Rightarrow> NtpServer \<Rightarrow> NtpServer" where
  "count now f sv0 =
     (let sv = srv_advanceMinutes (trunc (now / 60)) sv0;
          i = nat (sv_minute sv smod kMinutes)
      in sv\<lparr>sv_stats := bump f (sv_stats sv), sv_minutes := (sv_minutes sv)[i := bump f (sv_minutes sv ! i)]\<rparr>)"

record NtpStats =
  st_total :: NtpCounts
  st_pastHour :: NtpCounts
  st_topClients :: "TopClient list"

definition add_counts :: "NtpCounts \<Rightarrow> NtpCounts \<Rightarrow> NtpCounts" where
  "add_counts a b =
     \<lparr>requests = requests a + requests b, answered = answered a + answered b, ignored = ignored a + ignored b,
      rateLimited = rateLimited a + rateLimited b, kodSent = kodSent a + kodSent b,
      unsynchronised = unsynchronised a + unsynchronised b, sendErrors = sendErrors a + sendErrors b\<rparr>"

definition stats :: "real \<Rightarrow> NtpServer \<Rightarrow> NtpStats \<times> NtpServer" where
  "stats now sv0 =
     (let sv = srv_advanceMinutes (trunc (now / 60)) sv0
      in (\<lparr>st_total = sv_stats sv, st_pastHour = fold (\<lambda>m acc. add_counts acc m) (sv_minutes sv) zero_NtpCounts,
           st_topClients = tally_top 10 now (sv_tally sv)\<rparr>, sv))"

section \<open>Packets\<close>

text \<open>\<^verbatim>\<open>clockPrecision\<close>: given the ceiling of the base-2 logarithm of the resolution, if there is one.\<close>

definition clockPrecision :: "int option \<Rightarrow> octet" where
  "clockPrecision log2res = word_of_int (clamp (case log2res of Some p \<Rightarrow> p | None \<Rightarrow> -20) (-20) 0)"

definition poll_octet :: "packet \<Rightarrow> octet" where
  "poll_octet buf = word_of_int (clamp (sint (buf ! 2)) 4 17)"

definition kod_packet :: "packet \<Rightarrow> octet \<Rightarrow> packet" where
  "kod_packet buf precision =
     (let kod = zero_packet;
          kod = poke 0 [li_vn_mode 3 (pkt_version buf) 4] kod;
          kod = poke 1 [0] kod;
          kod = poke 2 [poll_octet buf] kod;
          kod = poke 3 [precision] kod;
          kod = poke 12 (ascii ''RATE'') kod;
          kod = poke 24 (peek 40 8 buf) kod;
          kod = poke 32 (peek 40 8 buf) kod
      in poke 40 (peek 40 8 buf) kod)"

text \<open>Leap indicator and stratum of a reply.\<close>

definition reply_leap :: "NtpConfig \<Rightarrow> Combined \<Rightarrow> real \<Rightarrow> int" where
  "reply_leap cfg c recvDaemon =
     (if \<not> cb_synchronised c then 3
      else if cb_leapPending c \<and> nt_honourLeapWarning cfg \<and> isLastDayOfMonth (trunc (utcAt c recvDaemon * 1000)) then 1
      else 0)"

definition reply_stratum :: "Combined \<Rightarrow> int" where
  "reply_stratum c = (if \<not> cb_synchronised c then 0 else if 0 < cb_stratum c then cb_stratum c else 1)"

text \<open>\<^verbatim>\<open>refid.resize(4, '\0')\<close>.\<close>

definition resize4 :: "string \<Rightarrow> octet list" where
  "resize4 s = take 4 (ascii s @ replicate 4 0)"

definition reply_refid :: "Combined \<Rightarrow> octet list" where
  "reply_refid c =
     (if \<not> cb_valid c then ascii ''INIT''
      else if cb_refidIsAddress c then put32 (cb_refidAddress c)
      else resize4 (if cb_refid c = '''' then ''WWV'' else cb_refid c))"

definition reply_packet :: "NtpConfig \<Rightarrow> Combined \<Rightarrow> octet \<Rightarrow> real \<Rightarrow> real \<Rightarrow> packet \<Rightarrow> packet" where
  "reply_packet cfg c precision recvDaemon xmitDaemon buf =
     (let corrected = utcAt c recvDaemon;
          out = zero_packet;
          out = poke 0 [li_vn_mode (reply_leap cfg c recvDaemon) (pkt_version buf) 4] out;
          out = poke 1 [word_of_int (reply_stratum c)] out;
          out = poke 2 [poll_octet buf] out;
          out = poke 3 [precision] out;
          out = poke 4 (put32 (toShortFormat (cb_rootDelaySec c))) out;
          out = poke 8 (put32 (toShortFormat (cb_rootDispersionSec c))) out;
          out = poke 12 (reply_refid c) out;
          out = (if cb_valid c then poke 16 (put_time (toNtpTime (corrected - cb_ageSec c))) out else out);
          out = poke 24 (peek 40 8 buf) out;
          out = poke 32 (put_time (toNtpTime corrected)) out
      in poke 40 (put_time (toNtpTime (utcAt c xmitDaemon))) out)"

section \<open>One datagram\<close>

text \<open>What the code reads from the outside while it handles a datagram.\<close>

record ServeInput =
  in_buf :: packet
  in_from :: sockaddr
  in_now :: real
  in_recv :: real
  in_xmit :: real
  in_draw :: real
  in_precision :: octet
  in_sendOk :: bool

definition serve_one :: "inet \<Rightarrow> Combined \<Rightarrow> ServeInput \<Rightarrow> NtpServer \<Rightarrow> packet option \<times> NtpServer" where
  "serve_one inet c i sv0 =
     (let now = in_now i; buf = in_buf i;
          sv = count now Requests sv0
      in if length buf < kPacketSize then (None, count now Ignored sv)
         else if pkt_mode buf \<noteq> 3 then (None, count now Ignored sv)
         else if pkt_version buf < 1 \<or> 4 < pkt_version buf then (None, count now Ignored sv)
         else
           let (verdict, limiter) = check (in_from i) now (in_draw i) (sv_limiter sv);
               tally = tally_record inet (in_from i) now (verdict = Drop \<or> verdict = Kod) (sv_tally sv);
               sv = sv\<lparr>sv_limiter := limiter, sv_tally := tally\<rparr>
           in if verdict = Drop then (None, count now RateLimited sv)
              else if verdict = Kod then
                let kod = kod_packet buf (in_precision i);
                    sv = (if in_sendOk i then sv else count now SendErrors sv);
                    sv = count now RateLimited sv
                in (Some kod, if in_sendOk i then count now KodSent sv else sv)
              else if \<not> cb_synchronised c \<and> \<not> nt_answerWhenUnsynchronised (sv_cfg sv)
              then (None, count now Ignored sv)
              else
                let out = reply_packet (sv_cfg sv) c (in_precision i) (in_recv i) (in_xmit i) buf
                in if in_sendOk i
                   then let sv = count now Answered sv
                        in (Some out, if \<not> cb_synchronised c then count now Unsynchronised sv else sv)
                   else (Some out, count now SendErrors sv))"


section \<open>Fields of what is sent\<close>

lemma length_reply_refid [simp]: "length (reply_refid c) = 4"
  by (auto simp: reply_refid_def resize4_def min_def)

lemma kod_fields:
  fixes pr :: octet
  assumes "length buf \<ge> kPacketSize"
  defines "k \<equiv> kod_packet buf pr"
  shows "length k = 48" "k ! 0 = li_vn_mode 3 (pkt_version buf) 4" "k ! 1 = 0"
    "peek 24 8 k = peek 40 8 buf" "peek 32 8 k = peek 40 8 buf" "peek 40 8 k = peek 40 8 buf"
  using assms(1) unfolding k_def kod_packet_def Let_def
  by (simp_all add: kPacketSize_def poke_simps)

lemma reply_fields:
  fixes cfg :: NtpConfig and c :: Combined and pr :: octet and recv xmit :: real
  assumes "length buf \<ge> kPacketSize"
  defines "r \<equiv> reply_packet cfg c pr recv xmit buf"
  shows "length r = 48" "r ! 0 = li_vn_mode (reply_leap cfg c recv) (pkt_version buf) 4"
    "r ! 1 = word_of_int (reply_stratum c)" "r ! 2 = poll_octet buf"
    "peek 4 4 r = put32 (toShortFormat (cb_rootDelaySec c))"
    "peek 8 4 r = put32 (toShortFormat (cb_rootDispersionSec c))"
    "peek 12 4 r = reply_refid c"
    "peek 24 8 r = peek 40 8 buf"
    "peek 32 8 r = put_time (toNtpTime (utcAt c recv))"
    "peek 40 8 r = put_time (toNtpTime (utcAt c xmit))"
  using assms(1) unfolding r_def reply_packet_def Let_def
  by (simp_all add: kPacketSize_def poke_simps)

section \<open>What is answered\<close>

text \<open>A datagram the server answers with something: a client request in full.\<close>

definition client_request :: "packet \<Rightarrow> bool" where
  "client_request buf \<longleftrightarrow> kPacketSize \<le> length buf \<and> pkt_mode buf = 3 \<and> 1 \<le> pkt_version buf \<and> pkt_version buf \<le> 4"

lemma serve_one_cases:
  assumes "serve_one inet c i sv = (Some out, sv')"
  shows "client_request (in_buf i)
    \<and> (out = kod_packet (in_buf i) (in_precision i)
       \<or> (out = reply_packet (sv_cfg sv) c (in_precision i) (in_recv i) (in_xmit i) (in_buf i)
          \<and> (cb_synchronised c \<or> nt_answerWhenUnsynchronised (sv_cfg sv))))"
proof -
  have cfg: "sv_cfg (count t f x) = sv_cfg x" for t f x by (simp add: count_def srv_advanceMinutes_def Let_def)
  show ?thesis
    using assms unfolding serve_one_def Let_def
    by (auto simp: client_request_def cfg split: if_splits prod.splits)
qed

lemma reply_header:
  assumes "kPacketSize \<le> length buf" "p = reply_packet cfg c pr recv xmit buf"
  shows "pkt_leap p = reply_leap cfg c recv" "pkt_version p = pkt_version buf" "pkt_mode p = 4"
proof -
  have "0 \<le> reply_leap cfg c recv" "reply_leap cfg c recv \<le> 3" by (auto simp: reply_leap_def)
  note h = header_fields[OF this version_range[of buf], of 4 "[]"]
  show "pkt_leap p = reply_leap cfg c recv" "pkt_version p = pkt_version buf" "pkt_mode p = 4"
    using h header_nth0[of p "li_vn_mode (reply_leap cfg c recv) (pkt_version buf) 4"] reply_fields(1,2)[OF assms(1), of cfg c pr recv xmit]
    by (simp_all add: assms(2))
qed

lemma kod_header:
  assumes "kPacketSize \<le> length buf" "p = kod_packet buf pr"
  shows "pkt_leap p = 3" "pkt_version p = pkt_version buf" "pkt_mode p = 4"
proof -
  note h = header_fields[of 3, OF _ _ version_range[of buf], of 4 "[]"]
  show "pkt_leap p = 3" "pkt_version p = pkt_version buf" "pkt_mode p = 4"
    using h header_nth0[of p "li_vn_mode 3 (pkt_version buf) 4"] kod_fields(1,2)[OF assms(1), of pr]
    by (simp_all add: assms(2))
qed

text \<open>
  C25: The server answers clients and nothing else, and cannot be used to amplify: whatever
  datagram arrives, anything sent back is sent to a version 1 to 4 client request of at least
  48 octets, is 48 octets of mode 4 in the request's version, and returns the request's
  transmit timestamp verbatim as its originate timestamp.
\<close>

theorem server_answers_clients_only:
  assumes "serve_one inet c i sv = (Some out, sv')"
  shows "48 \<le> length (in_buf i) \<and> pkt_mode (in_buf i) = 3 \<and> 1 \<le> pkt_version (in_buf i) \<and> pkt_version (in_buf i) \<le> 4
    \<and> length out = 48 \<and> pkt_mode out = 4 \<and> pkt_version out = pkt_version (in_buf i)
    \<and> peek 24 8 out = peek 40 8 (in_buf i)"
proof -
  have req: "client_request (in_buf i)" using serve_one_cases[OF assms] by simp
  then have len: "kPacketSize \<le> length (in_buf i)" by (simp add: client_request_def)
  have "length out = 48 \<and> pkt_mode out = 4 \<and> pkt_version out = pkt_version (in_buf i) \<and> peek 24 8 out = peek 40 8 (in_buf i)"
    using serve_one_cases[OF assms] kod_fields(1,4)[OF len] reply_fields(1,8)[OF len]
      reply_header(2,3)[OF len] kod_header(2,3)[OF len] by auto
  with req show ?thesis by (simp add: client_request_def kPacketSize_def)
qed

text \<open>
  No time is served without sources: when the selector is not synchronised, or the client
  is being told to slow down, what is sent says leap indicator 3 and stratum 0; and a kiss
  carries no time of the server's, only the client's own transmit timestamp three times over.
\<close>

theorem unsynchronised_says_so:
  assumes "serve_one inet c i sv = (Some out, sv')"
    and "\<not> cb_synchronised c \<or> fst (check (in_from i) (in_now i) (in_draw i) (sv_limiter sv)) = Kod"
  shows "pkt_leap out = 3 \<and> out ! 1 = 0
    \<and> (fst (check (in_from i) (in_now i) (in_draw i) (sv_limiter sv)) = Kod \<longrightarrow>
        peek 24 8 out = peek 40 8 (in_buf i) \<and> peek 32 8 out = peek 40 8 (in_buf i) \<and> peek 40 8 out = peek 40 8 (in_buf i))"
proof -
  have len: "kPacketSize \<le> length (in_buf i)" using serve_one_cases[OF assms(1)] by (simp add: client_request_def)
  have lim: "sv_limiter (count t f x) = sv_limiter x" for t f x by (simp add: count_def srv_advanceMinutes_def Let_def)
  show ?thesis
  proof (cases "fst (check (in_from i) (in_now i) (in_draw i) (sv_limiter sv)) = Kod")
    case True
    then have "out = kod_packet (in_buf i) (in_precision i)"
      using assms(1) unfolding serve_one_def Let_def lim by (auto split: if_splits prod.splits)
    then show ?thesis using kod_fields(3-6)[OF len] kod_header(1)[OF len] by auto
  next
    case False
    then have "\<not> cb_synchronised c" using assms(2) by simp
    then have "reply_leap cfg c t = 3" "reply_stratum c = 0" for cfg t by (simp_all add: reply_leap_def reply_stratum_def)
    then show ?thesis
      using serve_one_cases[OF assms(1)] False reply_fields(3)[OF len] reply_header(1)[OF len]
        kod_fields(3)[OF len] kod_header(1)[OF len] by auto
  qed
qed


definition demo_request :: packet where
  "demo_request = 35 # replicate 47 0"

definition demo_server :: NtpServer where
  "demo_server = mk_NtpServer demo_inet
     (default_NtpConfig\<lparr>nt_rateLimit := default_RateLimitConfig\<lparr>intervalSec := 0\<rparr>\<rparr>)"

definition demo_input :: ServeInput where
  "demo_input = \<lparr>in_buf = demo_request, in_from = SaOther, in_now = 1, in_recv = 1, in_xmit = 2, in_draw = 0,
     in_precision = 0, in_sendOk = True\<rparr>"

lemma demo_request_mode: "pkt_mode demo_request = 3" "pkt_version demo_request = 4" "length demo_request = 48"
  by (simp_all add: demo_request_def pkt_mode_def pkt_version_def)

lemma count_limiter: "sv_limiter (count t f sv) = sv_limiter sv"
  by (simp add: count_def srv_advanceMinutes_def Let_def)

lemma count_cfg: "sv_cfg (count t f sv) = sv_cfg sv"
  by (simp add: count_def srv_advanceMinutes_def Let_def)

lemma demo_served: "\<exists>out sv. serve_one demo_inet default_Combined demo_input demo_server = (Some out, sv)"
proof -
  let ?sv = "count 1 Requests demo_server"
  have "fst (check SaOther 1 0 (sv_limiter ?sv)) = Answer"
    by (simp add: count_limiter demo_server_def mk_NtpServer_def mk_RateLimiter_def check_def default_NtpConfig_def default_RateLimitConfig_def)
  moreover have "nt_answerWhenUnsynchronised (sv_cfg ?sv)"
    by (simp add: count_cfg demo_server_def mk_NtpServer_def default_NtpConfig_def)
  ultimately show ?thesis
    using demo_request_mode unfolding serve_one_def demo_input_def
    by (auto simp: kPacketSize_def Let_def split: prod.split)
qed

theorem server_answers_clients_only_witness:
  "\<exists>out sv. serve_one demo_inet default_Combined demo_input demo_server = (Some out, sv) \<and> length out = 48 \<and> pkt_mode out = 4"
  using demo_served server_answers_clients_only[of demo_inet default_Combined demo_input demo_server] by blast

theorem unsynchronised_says_so_witness:
  "\<exists>out sv. serve_one demo_inet default_Combined demo_input demo_server = (Some out, sv) \<and> pkt_leap out = 3 \<and> out ! 1 = 0"
proof -
  have "\<not> cb_synchronised default_Combined" by (simp add: default_Combined_def)
  then show ?thesis using demo_served unsynchronised_says_so[of demo_inet default_Combined demo_input demo_server] by blast
qed

section \<open>The past hour\<close>

lemma slot_nonneg: "0 \<le> k \<Longrightarrow> nat (k smod kMinutes) = slot k kMinutes"
  by (simp add: slot_mod smod_nonneg kMinutes_def)

interpretation server_ring: minute_ring sv_minutes sv_minute srv_advanceMinutes zero_NtpCounts "\<lambda>sv. 0 \<le> sv_minute sv"
proof
  fix minute and sv :: NtpServer
  assume ok: "0 \<le> sv_minute sv" and l: "sv_minute sv < minute"
  have "fold (\<lambda>k ms. ms[nat ((sv_minute sv + k) smod kMinutes) := zero_NtpCounts]) [1..g] ms
     = fold (\<lambda>k ms. ms[slot (sv_minute sv + k) kMinutes := zero_NtpCounts]) [1..g] ms" for g ms
    using ok by (intro fold_cong) (auto simp: slot_nonneg)
  then show "sv_minutes (srv_advanceMinutes minute sv) = ring_clear zero_NtpCounts (sv_minute sv) (min (minute - sv_minute sv) kMinutes) (sv_minutes sv)"
    using l by (simp add: srv_advanceMinutes_def ring_clear_def Let_def)
qed (auto simp: srv_advanceMinutes_def Let_def)

text \<open>A run of counted events, in the order they are counted.\<close>

definition count_run :: "NtpServer \<Rightarrow> (real \<times> counter) list \<Rightarrow> NtpServer" where
  "count_run sv evs = foldl (\<lambda>sv (t, f). count t f sv) sv evs"

text \<open>The history: how many events of each kind each minute saw.\<close>

definition counted_in :: "(real \<times> counter) list \<Rightarrow> int \<Rightarrow> NtpCounts" where
  "counted_in evs k = foldl (\<lambda>c (t, f). if trunc (t / 60) = k then bump f c else c) zero_NtpCounts evs"

lemma counted_in_snoc: "counted_in (evs @ [(t, f)]) = (counted_in evs)(trunc (t / 60) := bump f (counted_in evs (trunc (t / 60))))"
  by (auto simp: counted_in_def)

lemma value_bump: "value_of g (bump f c) = value_of g c + (if f = g then 1 else 0)"
  by (cases f; cases g) simp_all

lemma value_counted: "value_of g (counted_in evs k) = length (filter (\<lambda>(t, f). f = g \<and> trunc (t / 60) = k) evs)"
proof (induction evs rule: rev_induct)
  case Nil
  then show ?case by (cases g) (simp_all add: counted_in_def zero_NtpCounts_def)
next
  case (snoc e evs)
  then show ?case by (cases e) (auto simp: counted_in_def value_bump)
qed

lemma count_rep:
  assumes "server_ring.represents h sv" "sv_minute sv \<le> trunc (t / 60)"
  shows "server_ring.represents (h(trunc (t / 60) := bump f (h (trunc (t / 60))))) (count t f sv)"
    and "sv_minute (count t f sv) = trunc (t / 60)"
proof -
  let ?m = "trunc (t / 60)"
  let ?a = "srv_advanceMinutes ?m sv"
  have rep: "server_ring.represents h ?a" using assms(1) by (rule server_ring.represents_adv)
  have m: "sv_minute ?a = ?m" using assms(2) server_ring.lastm_adv[of ?m sv] by simp
  then have ok: "0 \<le> ?m" using rep by (simp add: server_ring.represents_def)
  have v: "sv_minutes ?a ! slot ?m kMinutes = h ?m" using rep m by (simp add: server_ring.represents_def)
  show "server_ring.represents (h(?m := bump f (h ?m))) (count t f sv)"
    using server_ring.represents_write[OF rep, of "count t f sv" "bump f (h ?m)"] m v ok
    by (simp add: count_def Let_def slot_nonneg)
  show "sv_minute (count t f sv) = ?m" using m by (simp add: count_def Let_def)
qed

lemma trunc_mono_nonneg: "0 \<le> a \<Longrightarrow> a \<le> b \<Longrightarrow> trunc (a / 60) \<le> trunc (b / 60)"
  by (auto simp: trunc_def intro!: floor_mono)

lemma count_run_rep:
  assumes "sorted (map fst evs)" "\<forall>e \<in> set evs. 0 \<le> fst e"
  shows "server_ring.represents (counted_in evs) (count_run (mk_NtpServer inet cfg) evs)
    \<and> (\<forall>t. 0 \<le> t \<and> (\<forall>e \<in> set evs. fst e \<le> t) \<longrightarrow> sv_minute (count_run (mk_NtpServer inet cfg) evs) \<le> trunc (t / 60))"
  using assms
proof (induction evs rule: rev_induct)
  case Nil
  have "nth (replicate 60 z) (slot k kMinutes) = z" for z :: NtpCounts and k by (rule nth_replicate) simp
  then show ?case
    by (simp add: server_ring.represents_def count_run_def counted_in_def mk_NtpServer_def trunc_def)
next
  case (snoc e evs)
  obtain t f where e: "e = (t, f)" by (cases e)
  let ?s = "count_run (mk_NtpServer inet cfg) evs"
  have t: "0 \<le> t" "\<forall>e \<in> set evs. fst e \<le> t" using snoc.prems e by (auto simp: sorted_append)
  then have "server_ring.represents (counted_in evs) ?s" "sv_minute ?s \<le> trunc (t / 60)"
    using snoc by (auto simp: sorted_append)
  from count_rep[OF this, of f] have "server_ring.represents (counted_in (evs @ [e])) (count t f ?s)" "sv_minute (count t f ?s) = trunc (t / 60)"
    by (simp_all add: e counted_in_snoc)
  then show ?case using t by (auto simp: count_run_def e intro: trunc_mono_nonneg)
qed

lemma value_add_counts: "value_of g (fold (\<lambda>m acc. add_counts acc m) ms z) = value_of g z + (\<Sum>m\<leftarrow>ms. value_of g m)"
proof (induction ms arbitrary: z)
  case (Cons m ms)
  have "value_of g (add_counts z m) = value_of g z + value_of g m" by (cases g) (simp_all add: add_counts_def)
  with Cons show ?case by simp
qed simp

lemma filter_by_minute:
  assumes "finite K"
  shows "(\<Sum>k \<in> K. length (filter (\<lambda>(t, f). f = g \<and> trunc (t / 60) = k) evs)) = length (filter (\<lambda>(t, f). f = g \<and> trunc (t / 60) \<in> K) evs)"
proof (induction evs)
  case (Cons e evs)
  obtain t f where e: "e = (t, f)" by (cases e)
  have "(\<Sum>k \<in> K. length (filter (\<lambda>(t, f). f = g \<and> trunc (t / 60) = k) (e # evs)))
    = (\<Sum>k \<in> K. (if f = g \<and> trunc (t / 60) = k then 1 else 0) + length (filter (\<lambda>(t, f). f = g \<and> trunc (t / 60) = k) evs))"
    by (intro sum.cong) (simp_all add: e)
  also have "\<dots> = (\<Sum>k \<in> K. if trunc (t / 60) = k then (if f = g then 1 else 0) else 0) + (\<Sum>k \<in> K. length (filter (\<lambda>(t, f). f = g \<and> trunc (t / 60) = k) evs))"
    by (subst sum.distrib) (auto intro!: sum.cong)
  also have "\<dots> = (if trunc (t / 60) \<in> K then (if f = g then 1 else 0) else 0) + length (filter (\<lambda>(t, f). f = g \<and> trunc (t / 60) \<in> K) evs)"
    unfolding Cons.IH sum.delta'[OF assms] by simp
  finally show ?case by (simp add: e)
qed simp

text \<open>
  The hour on the status page is exact: after any run of counted events with a clock that
  does not go back, each of the seven past-hour counters is the number of events of its kind
  in the current minute and the fifty-nine before it, whatever quiet spells lay between.
\<close>

theorem past_hour_exact:
  assumes "sorted (map fst evs)" "\<forall>e \<in> set evs. 0 \<le> fst e \<and> fst e \<le> now" "0 \<le> now"
  shows "value_of g (st_pastHour (fst (stats now (count_run (mk_NtpServer inet cfg) evs))))
    = length (filter (\<lambda>(t, f). f = g \<and> trunc (now / 60) - 60 < trunc (t / 60)) evs)"
proof -
  let ?s = "count_run (mk_NtpServer inet cfg) evs" and ?m = "trunc (now / 60)"
  have rep: "server_ring.represents (counted_in evs) ?s" and l: "sv_minute ?s \<le> ?m"
    using count_run_rep[of evs inet cfg] assms by auto
  have rep': "server_ring.represents (counted_in evs) (srv_advanceMinutes ?m ?s)" using rep by (rule server_ring.represents_adv)
  have m: "sv_minute (srv_advanceMinutes ?m ?s) = ?m" using l server_ring.lastm_adv[of ?m ?s] by simp
  have z: "value_of g zero_NtpCounts = 0" by (cases g) (simp_all add: zero_NtpCounts_def)
  have "value_of g (st_pastHour (fst (stats now ?s))) = (\<Sum>k \<in> {?m - 59..?m}. value_of g (counted_in evs k))"
    using server_ring.ring_total[OF rep', of "value_of g"] by (simp add: stats_def Let_def value_add_counts z m)
  also have "\<dots> = length (filter (\<lambda>(t, f). f = g \<and> trunc (t / 60) \<in> {?m - 59..?m}) evs)"
    unfolding value_counted by (rule filter_by_minute) simp
  also have "filter (\<lambda>(t, f). f = g \<and> trunc (t / 60) \<in> {?m - 59..?m}) evs = filter (\<lambda>(t, f). f = g \<and> ?m - 60 < trunc (t / 60)) evs"
    using assms(2) by (intro filter_cong) (auto intro!: trunc_mono_nonneg)
  finally show ?thesis .
qed

theorem past_hour_exact_witness:
  "value_of Answered (st_pastHour (fst (stats 4000 (count_run demo_server [(10, Answered), (90, Ignored), (3990, Answered)])))) = 1"
  unfolding demo_server_def
  by (subst past_hour_exact) (simp_all add: trunc_def floor_eq_iff)

end
