(* ===== verification/Offset_Estimator.thy ===== *)
theory Offset_Estimator
  imports Median
begin

text \<open>
  One source's offset from the daemon clock and how fast it moves, \<^verbatim>\<open>src/src/OffsetEstimator.h\<close>
  and \<^verbatim>\<open>OffsetEstimator.cpp\<close>: the rate from a trimmed least-squares line through a long window,
  the level from the median of a short one carried along that rate, the search for a step in
  the history, and the hold through a spike in the jitter. The whole class is modelled; the
  deques are lists, oldest first, and the fields of the hold have a record of their own.

  The results are in \<^verbatim>\<open>Offset_Properties\<close>.
\<close>

section \<open>Constants and tuning\<close>

definition kUnmeasuredRatePpm :: real where "kUnmeasuredRatePpm = 50"
definition kMaxMeasuredUncertaintyPpm :: real where "kMaxMeasuredUncertaintyPpm = kUnmeasuredRatePpm / 2"
definition kMaxRatePpm :: real where "kMaxRatePpm = 500"
definition kStepFloorSec :: real where "kStepFloorSec = 1 / 100"
definition kMadToSigma :: real where "kMadToSigma = 14826 / 10000"
definition kSpikeFactor :: real where "kSpikeFactor = 5"
definition kSpikeFloorSec :: real where "kSpikeFloorSec = 100 / 10 ^ 6"
definition kCalmFraction :: real where "kCalmFraction = 1 / 2"
definition kBaselineEverySec :: real where "kBaselineEverySec = 10"
definition kBaselineWindowSec :: real where "kBaselineWindowSec = 1800"
definition kBaselineMinRecords :: nat where "kBaselineMinRecords = 60"
definition kMaxCalmAgeSec :: real where "kMaxCalmAgeSec = 300"
definition kCalmToReleaseSec :: real where "kCalmToReleaseSec = 60"
definition kMaxHoldSec :: real where "kMaxHoldSec = 600"
definition kRejoinSec :: real where "kRejoinSec = 60"
definition kRejoinMinSlewSecPerSec :: real where "kRejoinMinSlewSecPerSec = 10 / 10 ^ 6"

record OffsetTuning =
  levelWindowSec :: real
  minLevelSamples :: int
  rateWindowSec :: real
  minRateSpanSec :: real
  minRateSamples :: int
  blockSec :: real
  minBlockSamples :: int
  minBlocks :: int
  holdJitterSpikes :: bool

definition default_OffsetTuning :: OffsetTuning where
  "default_OffsetTuning =
     \<lparr>levelWindowSec = 120, minLevelSamples = 5, rateWindowSec = 1800, minRateSpanSec = 600, minRateSamples = 120,
      blockSec = 60, minBlockSamples = 5, minBlocks = 5, holdJitterSpikes = False\<rparr>"

definition forPollInterval :: "real \<Rightarrow> OffsetTuning" where
  "forPollInterval pollSec =
     (if \<not> 0 < pollSec then default_OffsetTuning
      else default_OffsetTuning\<lparr>minLevelSamples := 4, levelWindowSec := max 120 (8 * pollSec), minRateSamples := 20,
             minRateSpanSec := max 600 (30 * pollSec), rateWindowSec := max 1800 (120 * pollSec),
             minBlockSamples := 3, blockSec := max 60 (5 * pollSec), minBlocks := 5\<rparr>)"

section \<open>The line\<close>

type_synonym Point = "real \<times> real"

record LineFit =
  lf_ok :: bool
  lf_slope :: real
  lf_intercept :: real
  lf_slopeSe :: real
  lf_sigma :: real
  lf_span :: real
  lf_xmin :: real
  lf_kept :: int

definition default_LineFit :: LineFit where
  "default_LineFit =
     \<lparr>lf_ok = False, lf_slope = 0, lf_intercept = 0, lf_slopeSe = 0, lf_sigma = 0, lf_span = 0, lf_xmin = 0, lf_kept = 0\<rparr>"

definition line_res :: "LineFit \<Rightarrow> Point \<Rightarrow> real" where
  "line_res f p = snd p - (lf_intercept f + lf_slope f * fst p)"

text \<open>Least squares over the points kept; \<open>None\<close> where the code returns false.\<close>

definition ols :: "Point list \<Rightarrow> LineFit option" where
  "ols ps =
     (let n = real (length ps);
          xmin = fold (\<lambda>p m. min m (fst p)) ps (10 ^ 300);
          xmax = fold (\<lambda>p m. max m (fst p)) ps (- (10 ^ 300))
      in if n < 3 then None
         else let mx = (\<Sum>p\<leftarrow>ps. fst p) / n;
                  my = (\<Sum>p\<leftarrow>ps. snd p) / n;
                  sxx = (\<Sum>p\<leftarrow>ps. (fst p - mx) * (fst p - mx));
                  sxy = (\<Sum>p\<leftarrow>ps. (fst p - mx) * (snd p - my))
              in if \<not> 0 < sxx then None
                 else let slope = sxy / sxx;
                          f = default_LineFit\<lparr>lf_slope := slope, lf_intercept := my - slope * mx\<rparr>;
                          ss = (\<Sum>p\<leftarrow>ps. line_res f p * line_res f p)
                      in Some (f\<lparr>lf_kept := int (length ps), lf_span := xmax - xmin, lf_xmin := xmin,
                                 lf_sigma := sqrt (ss / (n - 2)), lf_slopeSe := sqrt (ss / (n - 2) / sxx)\<rparr>))"

text \<open>The points within five sigma of the first line.\<close>

definition trim_points :: "LineFit \<Rightarrow> Point list \<Rightarrow> Point list" where
  "trim_points first pts =
     (let res = map (line_res first) pts;
          medRes = median res;
          sigma = max (kMadToSigma * median (map (\<lambda>r. \<bar>r - medRes\<bar>) res)) (1 / 10 ^ 4)
      in filter (\<lambda>p. \<bar>line_res first p - medRes\<bar> \<le> 5 * sigma) pts)"

text \<open>The block means of time and residual.\<close>

definition block_of :: "OffsetTuning \<Rightarrow> LineFit \<Rightarrow> int \<Rightarrow> Point \<Rightarrow> int" where
  "block_of t f nBlocks p = min (nBlocks - 1) (trunc ((fst p - lf_xmin f) / blockSec t))"

definition block_means :: "OffsetTuning \<Rightarrow> LineFit \<Rightarrow> Point list \<Rightarrow> Point list" where
  "block_means t f kept =
     (let nBlocks = trunc (lf_span f / blockSec t) + 1
      in concat (map (\<lambda>b. let ps = filter (\<lambda>p. block_of t f nBlocks p = b) kept; n = real (length ps)
                          in if minBlockSamples t \<le> int (length ps)
                             then [((\<Sum>p\<leftarrow>ps. fst p) / n, (\<Sum>p\<leftarrow>ps. line_res f p) / n)] else [])
             [0..nBlocks - 1]))"

definition fitLine :: "Point list \<Rightarrow> OffsetTuning \<Rightarrow> LineFit" where
  "fitLine pts t =
     (if int (length pts) < minRateSamples t then default_LineFit
      else case ols pts of
        None \<Rightarrow> default_LineFit
      | Some first \<Rightarrow>
          (let kept = trim_points first pts
           in case ols kept of
                None \<Rightarrow> default_LineFit
              | Some f \<Rightarrow>
                  (let blocks = block_means t f kept;
                       enough = (minBlocks t \<le> int (length blocks));
                       scatter = sqrt ((\<Sum>p\<leftarrow>blocks. snd p * snd p) / (real (length blocks) - 2));
                       se = (if enough \<and> 0 < lf_span f then max (lf_slopeSe f) (sqrt 12 * scatter / lf_span f)
                             else lf_slopeSe f)
                   in f\<lparr>lf_slopeSe := se,
                        lf_ok := minRateSamples t \<le> lf_kept f \<and> minRateSpanSec t \<le> lf_span f \<and> enough\<rparr>)))"

section \<open>State\<close>

record OffsetEstimate =
  oe_valid :: bool
  oe_samples :: int
  oe_atSec :: real
  oe_offsetSec :: real
  oe_jitterSec :: real
  oe_rateMeasured :: bool
  oe_rateFromPrior :: bool
  oe_rate :: real
  oe_rateUncertainty :: real
  oe_rateSpanSec :: real
  oe_rateSamples :: int
  oe_rateTermSec :: real
  oe_levelShifts :: nat
  oe_liveOffsetSec :: real
  oe_held :: bool
  oe_heldForSec :: real
  oe_rejoinGapSec :: real
  oe_jitterBaselineSec :: real
  oe_spikeThresholdSec :: real
  oe_holds :: nat
  oe_holdsTimedOut :: nat

definition default_OffsetEstimate :: OffsetEstimate where
  "default_OffsetEstimate =
     \<lparr>oe_valid = False, oe_samples = 0, oe_atSec = 0, oe_offsetSec = 0, oe_jitterSec = 0, oe_rateMeasured = False,
      oe_rateFromPrior = False, oe_rate = 0, oe_rateUncertainty = 0, oe_rateSpanSec = 0, oe_rateSamples = 0,
      oe_rateTermSec = 0, oe_levelShifts = 0, oe_liveOffsetSec = 0, oe_held = False, oe_heldForSec = 0,
      oe_rejoinGapSec = 0, oe_jitterBaselineSec = 0, oe_spikeThresholdSec = 0, oe_holds = 0, oe_holdsTimedOut = 0\<rparr>"

definition offsetAt :: "OffsetEstimate \<Rightarrow> real \<Rightarrow> real" where
  "offsetAt e daemonSec = oe_offsetSec e + oe_rate e * (daemonSec - oe_atSec e)"

text \<open>An offset sample: when, and UTC minus the daemon clock.\<close>

type_synonym offset_sample = "real \<times> real"

record SpikeHold =
  sh_jitterHistory :: "(real \<times> real) list"
  sh_nextJitterRecordAt :: real
  sh_haveCalm :: bool
  sh_calmAt :: real
  sh_calmOffset :: real
  sh_holding :: bool
  sh_holdStart :: real
  sh_calmSince :: real
  sh_rearmOnCalm :: bool
  sh_gap :: real
  sh_gapSlew :: real
  sh_lastHoldAt :: real
  sh_holds :: nat
  sh_holdsTimedOut :: nat

definition default_SpikeHold :: SpikeHold where
  "default_SpikeHold =
     \<lparr>sh_jitterHistory = [], sh_nextJitterRecordAt = 0, sh_haveCalm = False, sh_calmAt = 0, sh_calmOffset = 0,
      sh_holding = False, sh_holdStart = 0, sh_calmSince = -1, sh_rearmOnCalm = False, sh_gap = 0, sh_gapSlew = 0,
      sh_lastHoldAt = 0, sh_holds = 0, sh_holdsTimedOut = 0\<rparr>"

record OffsetEstimator =
  of_t :: OffsetTuning
  of_samples :: "offset_sample list"
  of_newestAt :: real
  of_dirty :: bool
  of_levelShifts :: nat
  of_est :: OffsetEstimate
  of_hold :: SpikeHold
  of_priorRate :: real
  of_priorUncertainty :: real
  of_priorKnown :: bool

definition mk_OffsetEstimator :: "OffsetTuning \<Rightarrow> OffsetEstimator" where
  "mk_OffsetEstimator t =
     \<lparr>of_t = t, of_samples = [], of_newestAt = 0, of_dirty = True, of_levelShifts = 0, of_est = default_OffsetEstimate,
      of_hold = default_SpikeHold, of_priorRate = 0, of_priorUncertainty = 0, of_priorKnown = False\<rparr>"

section \<open>Operations\<close>

definition of_add :: "real \<Rightarrow> real \<Rightarrow> OffsetEstimator \<Rightarrow> OffsetEstimator" where
  "of_add atSec offsetSec e =
     (let samples = of_samples e @ [(atSec, offsetSec)];
          newest = (if length samples = 1 then atSec else max (of_newestAt e) atSec)
      in e\<lparr>of_samples := dropWhile (\<lambda>s. fst s < newest - rateWindowSec (of_t e)) samples,
           of_newestAt := newest, of_dirty := True\<rparr>)"

definition of_clear :: "OffsetEstimator \<Rightarrow> OffsetEstimator" where
  "of_clear e =
     e\<lparr>of_samples := [], of_newestAt := 0, of_dirty := True,
       of_hold := (of_hold e)\<lparr>sh_jitterHistory := [], sh_nextJitterRecordAt := 0, sh_haveCalm := False,
         sh_holding := False, sh_calmSince := -1, sh_rearmOnCalm := False, sh_gap := 0, sh_gapSlew := 0,
         sh_lastHoldAt := 0\<rparr>\<rparr>"

definition setRatePrior :: "real \<Rightarrow> real \<Rightarrow> bool \<Rightarrow> OffsetEstimator \<Rightarrow> OffsetEstimator" where
  "setRatePrior rateSec uncertaintySec known e =
     e\<lparr>of_priorRate := rateSec, of_priorUncertainty := uncertaintySec, of_priorKnown := known\<rparr>"

text \<open>
  The search for a step. Each attempt fits what is left; when the short window sits off the
  line, the older samples go and it fits again.
\<close>

definition in_level :: "OffsetTuning \<Rightarrow> real \<Rightarrow> offset_sample \<Rightarrow> bool" where
  "in_level t ref s \<longleftrightarrow> \<not> fst s < ref - levelWindowSec t"

definition off_line :: "OffsetTuning \<Rightarrow> LineFit \<Rightarrow> Point list \<Rightarrow> bool" where
  "off_line t fit pts =
     (let plausible = (\<bar>lf_slope fit\<bar> \<le> kMaxRatePpm * (1 / 10 ^ 6));
          shortRes = map (line_res fit) (filter (\<lambda>p. - levelWindowSec t \<le> fst p) pts);
          limit = max kStepFloorSec (4 * lf_sigma fit / sqrt (real (length shortRes)))
      in \<not> (plausible \<and> \<bar>median shortRes\<bar> \<le> limit))"

fun fit_attempts ::
  "nat \<Rightarrow> OffsetTuning \<Rightarrow> real \<Rightarrow> offset_sample list \<Rightarrow> nat \<Rightarrow> LineFit \<Rightarrow> offset_sample list \<times> nat \<times> LineFit" where
  "fit_attempts 0 t ref samples shifts fit = (samples, shifts, fit)"
| "fit_attempts (Suc n) t ref samples shifts fit0 =
     (let pts = map (\<lambda>s. (fst s - ref, snd s)) samples;
          older = list_ex (\<lambda>s. fst s < ref - levelWindowSec t) samples;
          fit = fitLine pts t
      in if \<not> lf_ok fit \<or> \<not> older then (samples, shifts, fit)
         else if \<not> off_line t fit pts then (samples, shifts, fit)
         else fit_attempts n t ref
                (filter (in_level t ref) (dropWhile (\<lambda>s. fst s < ref - levelWindowSec t) samples))
                (shifts + 1) default_LineFit)"

text \<open>The hold: the estimate with its level perhaps replaced, and the hold's new state.\<close>

definition jitter_record :: "real \<Rightarrow> real \<Rightarrow> SpikeHold \<Rightarrow> SpikeHold" where
  "jitter_record ref jitter h0 =
     (let h = (if \<not> sh_holding h0 \<and> sh_nextJitterRecordAt h0 \<le> ref
               then h0\<lparr>sh_jitterHistory := sh_jitterHistory h0 @ [(ref, jitter)],
                       sh_nextJitterRecordAt := ref + kBaselineEverySec\<rparr>
               else h0)
      in h\<lparr>sh_jitterHistory := dropWhile (\<lambda>r. fst r < ref - kBaselineWindowSec) (sh_jitterHistory h)\<rparr>)"

definition slew_gap :: "real \<Rightarrow> SpikeHold \<Rightarrow> SpikeHold" where
  "slew_gap dt h =
     (if sh_gap h \<noteq> 0 then
        let step = sh_gapSlew h * dt
        in h\<lparr>sh_gap := (if \<bar>sh_gap h\<bar> \<le> step then 0
                       else sh_gap h - (if sh_gap h < 0 then - \<bar>step\<bar> else \<bar>step\<bar>))\<rparr>
      else h)"

definition hold_begin :: "bool \<Rightarrow> real \<Rightarrow> real \<Rightarrow> real \<Rightarrow> real \<Rightarrow> real \<Rightarrow> SpikeHold \<Rightarrow> SpikeHold" where
  "hold_begin armed threshold calm ref jitter published h =
     (if sh_holding h then h
      else if armed \<and> \<not> sh_rearmOnCalm h \<and> threshold < jitter \<and> sh_haveCalm h \<and> ref - sh_calmAt h \<le> kMaxCalmAgeSec
      then h\<lparr>sh_holding := True, sh_holdStart := ref, sh_calmSince := -1, sh_holds := sh_holds h + 1\<rparr>
      else if \<not> armed \<or> jitter \<le> calm
      then h\<lparr>sh_haveCalm := True, sh_calmAt := ref, sh_calmOffset := published, sh_rearmOnCalm := False\<rparr>
      else h)"

definition hold_level :: "real \<Rightarrow> real \<Rightarrow> SpikeHold \<Rightarrow> real" where
  "hold_level rate ref h = sh_calmOffset h + rate * (ref - sh_calmAt h)"

definition hold_continue :: "real \<Rightarrow> real \<Rightarrow> real \<Rightarrow> real \<Rightarrow> real \<Rightarrow> SpikeHold \<Rightarrow> SpikeHold" where
  "hold_continue calm ref jitter live held h0 =
     (let h = (if jitter \<le> calm
               then if sh_calmSince h0 < 0 then h0\<lparr>sh_calmSince := ref\<rparr> else h0
               else h0\<lparr>sh_calmSince := -1\<rparr>);
          settled = (0 \<le> sh_calmSince h \<and> kCalmToReleaseSec \<le> ref - sh_calmSince h);
          expired = (kMaxHoldSec \<le> ref - sh_holdStart h)
      in if settled \<or> expired
         then let gap = held - live;
                  h = h\<lparr>sh_holding := False, sh_gap := gap,
                        sh_gapSlew := max kRejoinMinSlewSecPerSec (\<bar>gap\<bar> / kRejoinSec), sh_haveCalm := False\<rparr>
              in if \<not> settled then h\<lparr>sh_holdsTimedOut := sh_holdsTimedOut h + 1, sh_rearmOnCalm := True\<rparr> else h
         else h)"

definition holdThroughSpikes :: "OffsetEstimate \<Rightarrow> SpikeHold \<Rightarrow> OffsetEstimate \<times> SpikeHold" where
  "holdThroughSpikes e0 h0 =
     (let ref = oe_atSec e0; live = oe_offsetSec e0; jitter = oe_jitterSec e0;
          dt = (if 0 < sh_lastHoldAt h0 then max 0 (ref - sh_lastHoldAt h0) else 0);
          h1 = jitter_record ref jitter (h0\<lparr>sh_lastHoldAt := ref\<rparr>);
          armed = (kBaselineMinRecords \<le> length (sh_jitterHistory h1));
          baseline = median (map snd (sh_jitterHistory h1));
          threshold = (if armed then max kSpikeFloorSec (kSpikeFactor * baseline) else 0);
          calm = (if armed then kCalmFraction * threshold else 0);
          e1 = (if armed then e0\<lparr>oe_jitterBaselineSec := baseline, oe_spikeThresholdSec := threshold\<rparr> else e0);
          h2 = slew_gap dt h1;
          published = live + sh_gap h2;
          h3 = hold_begin armed threshold calm ref jitter published h2;
          held = hold_level (oe_rate e1) ref h3;
          h4 = (if sh_holding h3 then hold_continue calm ref jitter live held h3 else h3);
          e2 = (if sh_holding h3 \<and> sh_holding h4
                then e1\<lparr>oe_rateTermSec := oe_rateTermSec e1 + oe_rateUncertainty e1 * (ref - sh_calmAt h4),
                        oe_heldForSec := ref - sh_holdStart h4\<rparr>
                else e1)
      in (e2\<lparr>oe_offsetSec := (if sh_holding h3 then held else published), oe_held := sh_holding h4,
             oe_rejoinGapSec := (if sh_holding h4 then 0 else sh_gap h4), oe_holds := sh_holds h4,
             oe_holdsTimedOut := sh_holdsTimedOut h4\<rparr>, h4))"

text \<open>The rate in force: measured here, borrowed, or none.\<close>

definition rate_measured :: "LineFit \<Rightarrow> bool" where
  "rate_measured fit \<longleftrightarrow> lf_ok fit \<and> \<bar>lf_slope fit\<bar> \<le> kMaxRatePpm * (1 / 10 ^ 6)
     \<and> lf_slopeSe fit \<le> kMaxMeasuredUncertaintyPpm * (1 / 10 ^ 6)"

definition rate_estimate :: "LineFit \<Rightarrow> OffsetEstimator \<Rightarrow> OffsetEstimate \<Rightarrow> OffsetEstimate" where
  "rate_estimate fit e est =
     (let measured = rate_measured fit; prior = (\<not> measured \<and> of_priorKnown e)
      in est\<lparr>oe_rateMeasured := measured, oe_rateFromPrior := prior,
             oe_rate := (if measured then lf_slope fit else if prior then of_priorRate e else 0),
             oe_rateUncertainty := (if measured then lf_slopeSe fit else if prior then of_priorUncertainty e
                                    else kUnmeasuredRatePpm * (1 / 10 ^ 6)),
             oe_rateSpanSec := (if lf_ok fit then lf_span fit else 0),
             oe_rateSamples := (if lf_ok fit then lf_kept fit else 0)\<rparr>)"

definition level_samples :: "OffsetTuning \<Rightarrow> real \<Rightarrow> real \<Rightarrow> offset_sample list \<Rightarrow> real list" where
  "level_samples t ref rate samples = map (\<lambda>s. snd s + rate * (ref - fst s)) (filter (in_level t ref) samples)"

definition level_estimate :: "OffsetTuning \<Rightarrow> real \<Rightarrow> offset_sample list \<Rightarrow> OffsetEstimate \<Rightarrow> OffsetEstimate" where
  "level_estimate t ref samples est =
     (let level = level_samples t ref (oe_rate est) samples;
          carried = (\<Sum>s\<leftarrow>filter (in_level t ref) samples. ref - fst s);
          med = median level
      in est\<lparr>oe_atSec := ref, oe_offsetSec := med, oe_jitterSec := kMadToSigma * median (map (\<lambda>x. \<bar>x - med\<bar>) level),
             oe_samples := int (length level),
             oe_rateTermSec := oe_rateUncertainty est * (carried / real (length level)),
             oe_valid := minLevelSamples t \<le> int (length level), oe_liveOffsetSec := med\<rparr>)"

definition of_recompute :: "OffsetEstimator \<Rightarrow> OffsetEstimator" where
  "of_recompute e =
     (if of_samples e = [] then e\<lparr>of_est := default_OffsetEstimate\<lparr>oe_levelShifts := of_levelShifts e\<rparr>\<rparr>
      else
        let t = of_t e; ref = of_newestAt e;
            (samples, shifts, fit) = fit_attempts 2 t ref (of_samples e) (of_levelShifts e) default_LineFit;
            est = rate_estimate fit e default_OffsetEstimate\<lparr>oe_levelShifts := shifts\<rparr>;
            est = level_estimate t ref samples est;
            est = est\<lparr>oe_holds := sh_holds (of_hold e), oe_holdsTimedOut := sh_holdsTimedOut (of_hold e)\<rparr>;
            (est, hold) = (if holdJitterSpikes t \<and> oe_valid est then holdThroughSpikes est (of_hold e) else (est, of_hold e))
        in e\<lparr>of_samples := samples, of_levelShifts := shifts, of_est := est, of_hold := hold\<rparr>)"

definition estimate :: "OffsetEstimator \<Rightarrow> OffsetEstimate \<times> OffsetEstimator" where
  "estimate e0 = (let e = (if of_dirty e0 then of_recompute e0 else e0)\<lparr>of_dirty := False\<rparr> in (of_est e, e))"

end
