(* ===== verification/Ntp_Client.thy ===== *)
theory Ntp_Client
  imports Ntp_Packet Ip_Prefix Source_Snapshot Offset_Estimator
begin

text \<open>
  One upstream NTP server, \<^verbatim>\<open>src/src/NtpClient.h\<close> and \<^verbatim>\<open>NtpClient.cpp\<close>: resolving its name, one
  poll (the request, the replies read while it waits, the checks on each), the clock filter,
  the snapshot handed to the selector, and one pass of the poll loop. What a pass reads from
  outside is its argument: the clocks, the resolver's answer, the random nonce, what the
  socket gives. Errors are the texts the code reports. Log lines and the path description for
  the status page are left out, and locks and thread starts are not modelled.

  The results are in \<^verbatim>\<open>Client_Replies\<close> and \<^verbatim>\<open>Client_Polls\<close>.
\<close>

unbundle bit_operations_syntax

section \<open>Constants\<close>

definition kPhi :: real where "kPhi = 15 / 10 ^ 6"
definition kReplyTimeoutSec :: int where "kReplyTimeoutSec = 5"
definition kBurstCount :: nat where "kBurstCount = 6"
definition kBurstSpacingSec :: real where "kBurstSpacingSec = 2"
definition kReresolveSec :: real where "kReresolveSec = 3600"
definition kReresolveAfterTimeouts :: nat where "kReresolveAfterTimeouts = 4"
definition kMinResolveSec :: real where "kMinResolveSec = 30"
definition kResolveRetrySec :: real where "kResolveRetrySec = 60"
definition kQuickRetrySec :: real where "kQuickRetrySec = 2"
definition kMaxQuickRetries :: nat where "kMaxQuickRetries = 2"
definition kSpikeSpreadFactor :: real where "kSpikeSpreadFactor = 3"
definition kSpikeRunLimit :: nat where "kSpikeRunLimit = kMaxQuickRetries + 1"
definition kMaxAgePolls :: real where "kMaxAgePolls = 4"
definition kSpikeBiasFloorSec :: real where "kSpikeBiasFloorSec = 1 / 10 ^ 3"
definition kMaxBackoffPollSec :: real where "kMaxBackoffPollSec = 1024"
definition kBackoffRecoverAfter :: nat where "kBackoffRecoverAfter = 8"
definition kFilterSize :: nat where "kFilterSize = 8"

section \<open>Texts and identifiers\<close>

definition dec_int :: "int \<Rightarrow> string" where
  "dec_int i = (if i < 0 then ''-'' @ dec_digits (nat (- i)) else dec_digits (nat i))"

text \<open>\<^verbatim>\<open>%.0f\<close>: to the nearest, ties to even.\<close>

definition fmt_0f :: "real \<Rightarrow> string" where
  "fmt_0f x =
     (let a = \<bar>x\<bar>; w = \<lfloor>a\<rfloor>; d = a - of_int w;
          r = (if d < 1 / 2 then w else if 1 / 2 < d then w + 1 else if even w then w else w + 1)
      in (if x < 0 then ''-'' else '''') @ dec_digits (nat r))"

definition printable :: "octet \<Rightarrow> bool" where
  "printable b \<longleftrightarrow> 0x20 \<le> b \<and> b \<le> 0x7e"

definition kissText :: "octet list \<Rightarrow> string" where
  "kissText p = map (\<lambda>b. char_of (unat b)) (filter printable (take 4 p))"

definition refidText :: "octet list \<Rightarrow> int \<Rightarrow> string" where
  "refidText p stratum =
     (if stratum \<le> 1 \<and> list_all (\<lambda>b. b = 0 \<or> printable b) (take 4 p) then kissText p
      else dec_digits (unat (p ! 0)) @ ''.'' @ dec_digits (unat (p ! 1)) @ ''.'' @
           dec_digits (unat (p ! 2)) @ ''.'' @ dec_digits (unat (p ! 3)))"

text \<open>FNV-1a over the sixteen octets of an IPv6 address.\<close>

definition fnv1a :: "octet list \<Rightarrow> wire32" where
  "fnv1a bs = fold (\<lambda>b h. (h XOR ucast b) * 16777619) bs 2166136261"

fun refidForPeer :: "sockaddr option \<Rightarrow> wire32" where
  "refidForPeer None = 0"
| "refidForPeer (Some (Sin b)) = read32 b"
| "refidForPeer (Some (Sin6 b)) = fnv1a b"
| "refidForPeer (Some SaOther) = 0"

definition isAddressLiteral :: "inet \<Rightarrow> string \<Rightarrow> bool" where
  "isAddressLiteral inet host \<longleftrightarrow> inet_pton4 inet host \<noteq> None \<or> inet_pton6 inet host \<noteq> None"

section \<open>State\<close>

record PeerSample =
  ps_offsetSec :: real
  ps_delaySec :: real
  ps_dispersionSec :: real
  ps_atSec :: real
  ps_seq :: nat
  ps_valid :: bool

definition empty_sample :: PeerSample where
  "empty_sample = \<lparr>ps_offsetSec = 0, ps_delaySec = 0, ps_dispersionSec = 0, ps_atSec = 0, ps_seq = 0, ps_valid = False\<rparr>"

record NtpPeer =
  pr_cfg :: NtpSourceConfig
  pr_localAddrs :: "wire32 list"
  pr_running :: bool
  pr_active :: bool
  pr_wasInactive :: bool
  pr_reacquire :: bool
  pr_open :: bool
  pr_resolvedText :: string
  pr_resolvedAt :: real
  pr_resolveDueAt :: real
  pr_literal :: bool
  pr_resolveFailing :: bool
  pr_consecutiveTimeouts :: nat
  pr_retryable :: bool
  pr_quickRetries :: nat
  pr_burstLeft :: nat
  pr_backoffPollSec :: real
  pr_goodRun :: nat
  pr_snap :: SourceSnapshot
  pr_activeReason :: string
  pr_reacquireWhy :: string
  pr_filter :: "PeerSample list"
  pr_seq :: nat
  pr_handedOn :: nat
  pr_spikeRun :: nat
  pr_offsets :: OffsetEstimator

definition snap_upd :: "(SourceSnapshot \<Rightarrow> SourceSnapshot) \<Rightarrow> NtpPeer \<Rightarrow> NtpPeer" where
  "snap_upd f p = p\<lparr>pr_snap := f (pr_snap p)\<rparr>"

definition ntp_upd :: "(NtpPeerInfo \<Rightarrow> NtpPeerInfo) \<Rightarrow> NtpPeer \<Rightarrow> NtpPeer" where
  "ntp_upd f p = snap_upd (\<lambda>s. s\<lparr>sn_ntp := f (sn_ntp s)\<rparr>) p"

abbreviation pr_ntp :: "NtpPeer \<Rightarrow> NtpPeerInfo" where
  "pr_ntp p \<equiv> sn_ntp (pr_snap p)"

definition mk_NtpPeer :: "inet \<Rightarrow> NtpSourceConfig \<Rightarrow> wire32 list \<Rightarrow> NtpPeer" where
  "mk_NtpPeer inet cfg localAddrs =
     (let ntp = default_NtpPeerInfo\<lparr>np_server := nc_server cfg, np_port := nc_port cfg, np_pollSec := nc_pollSeconds cfg,
            np_configuredPollSec := nc_pollSeconds cfg, np_maxRootDistanceSec := nc_maxRootDistanceMs cfg / 10 ^ 3,
            np_maxStratum := nc_maxStratum cfg\<rparr>;
          snap = default_SourceSnapshot\<lparr>sn_name := nc_name cfg, sn_kind := Ntp, sn_enabled := nc_enabled cfg,
            sn_weight := nc_weight cfg, sn_url := ''ntp://'' @ nc_server cfg @ '':'' @ dec_int (nc_port cfg),
            sn_clockState := ''stopped'', sn_station := ''ntp'', sn_link := Idle, sn_ntp := ntp,
            sn_extraSec := nc_extraDelayMs cfg / 10 ^ 3 / 2\<rparr>
      in \<lparr>pr_cfg = cfg, pr_localAddrs = localAddrs, pr_running = False, pr_active = True, pr_wasInactive = False, pr_reacquire = False,
          pr_open = False, pr_resolvedText = '''', pr_resolvedAt = 0, pr_resolveDueAt = 0,
          pr_literal = isAddressLiteral inet (nc_server cfg), pr_resolveFailing = False, pr_consecutiveTimeouts = 0,
          pr_retryable = False, pr_quickRetries = 0, pr_burstLeft = (if nc_iburst cfg then kBurstCount else 0),
          pr_backoffPollSec = 0, pr_goodRun = 0, pr_snap = snap, pr_activeReason = '''', pr_reacquireWhy = '''',
          pr_filter = replicate kFilterSize empty_sample, pr_seq = 0, pr_handedOn = 0, pr_spikeRun = 0,
          pr_offsets = mk_OffsetEstimator (forPollInterval (nc_pollSeconds cfg))\<rparr>)"

section \<open>Requests from other threads\<close>

definition peer_start :: "NtpPeer \<Rightarrow> NtpPeer" where
  "peer_start p =
     (if \<not> nc_enabled (pr_cfg p)
      then snap_upd (\<lambda>s. s\<lparr>sn_link := Stopped, sn_linkDetail := ''disabled in configuration''\<rparr>) p
      else p\<lparr>pr_running := True\<rparr>)"

definition requestReacquire :: "string \<Rightarrow> NtpPeer \<Rightarrow> NtpPeer" where
  "requestReacquire why p =
     snap_upd (\<lambda>s. s\<lparr>sn_reacquisitions := sn_reacquisitions s + 1\<rparr>) (p\<lparr>pr_reacquireWhy := why, pr_reacquire := True\<rparr>)"

definition setActive :: "bool \<Rightarrow> string \<Rightarrow> NtpPeer \<Rightarrow> NtpPeer" where
  "setActive on why p = p\<lparr>pr_activeReason := why, pr_active := on\<rparr>"

definition setSystemRate :: "real \<Rightarrow> real \<Rightarrow> bool \<Rightarrow> NtpPeer \<Rightarrow> NtpPeer" where
  "setSystemRate rateSec uncertaintySec known p =
     p\<lparr>pr_offsets := setRatePrior rateSec uncertaintySec known (pr_offsets p)\<rparr>"

section \<open>Resolving\<close>

definition closeSocket :: "NtpPeer \<Rightarrow> NtpPeer" where
  "closeSocket p = p\<lparr>pr_open := False\<rparr>"

text \<open>Stopping: the loop leaves, closes the socket and says so.\<close>

definition peer_stop :: "NtpPeer \<Rightarrow> NtpPeer" where
  "peer_stop p =
     (if \<not> pr_running p then p
      else snap_upd (\<lambda>s. s\<lparr>sn_link := Stopped, sn_clockState := ''stopped''\<rparr>) (closeSocket (p\<lparr>pr_running := False\<rparr>)))"

definition dropTiming :: "NtpPeer \<Rightarrow> NtpPeer" where
  "dropTiming p =
     snap_upd (\<lambda>s. s\<lparr>sn_haveOffset := False, sn_offsetSamples := 0\<rparr>)
       (p\<lparr>pr_filter := map (\<lambda>_. empty_sample) (pr_filter p), pr_offsets := of_clear (pr_offsets p), pr_handedOn := 0\<rparr>)"

text \<open>One answer of the resolver: the address, its texts with and without the port, and whether
  a socket can be made and connected for it.\<close>

record PeerAddress =
  ad_sa :: sockaddr
  ad_text :: string
  ad_host :: string
  ad_connects :: bool

text \<open>What one pass of the loop reads from outside. A lookup that fails carries its text.\<close>

datatype PeerEvent = Datagram packet real real | SocketError string

record PassInput =
  pi_mono :: real
  pi_daemon :: real
  pi_dmr :: real
  pi_lookup :: "string + PeerAddress list"
  pi_ttl :: int
  pi_errno :: string
  pi_precision :: real
  pi_nonce :: "wire32 \<times> wire32"
  pi_t1 :: real
  pi_sendOk :: bool
  pi_events :: "PeerEvent list"

definition look_again :: "bool \<Rightarrow> int \<Rightarrow> real" where
  "look_again literal ttl =
     (if literal then 10 ^ 18
      else if 0 \<le> ttl then clamp (of_int ttl) kMinResolveSec kReresolveSec else kReresolveSec)"

definition connectPeer :: "PassInput \<Rightarrow> NtpPeer \<Rightarrow> bool \<times> string \<times> NtpPeer" where
  "connectPeer i p0 =
     (let now = pi_mono i; server = nc_server (pr_cfg p0);
          failed = (\<lambda>text. (False, ''cannot resolve '' @ server @ '': '' @ text,
                           p0\<lparr>pr_resolveDueAt := now + kResolveRetrySec, pr_resolveFailing := True\<rparr>))
      in case pi_lookup i of
           Inl text \<Rightarrow> failed text
         | Inr [] \<Rightarrow> failed (pi_errno i)
         | Inr (a0 # as) \<Rightarrow>
             (let p1 = p0\<lparr>pr_resolveFailing := False\<rparr>;
                  kept = (pr_open p1 \<and> list_ex (\<lambda>a. ad_text a = pr_resolvedText p1) (a0 # as));
                  found = (if kept then None else find ad_connects (a0 # as))
              in if \<not> kept \<and> found = None
                 then (False, ''cannot reach '' @ server @ '': '' @ pi_errno i, p1\<lparr>pr_resolveDueAt := now + kResolveRetrySec\<rparr>)
                 else
                   let ttl = (if pr_literal p1 then -1 else pi_ttl i);
                       p2 = ntp_upd (\<lambda>n. n\<lparr>np_dnsTtlSec := ttl\<rparr>)
                              (p1\<lparr>pr_resolveDueAt := now + look_again (pr_literal p1) ttl\<rparr>)
                   in case found of
                        None \<Rightarrow> (True, '''', p2)
                      | Some a \<Rightarrow>
                          (let moved = pr_open p2;
                               p3 = (closeSocket p2)\<lparr>pr_open := True, pr_resolvedAt := now, pr_resolvedText := ad_text a,
                                                     pr_consecutiveTimeouts := 0\<rparr>;
                               p4 = ntp_upd (\<lambda>n. n\<lparr>np_address := ad_text a, np_addressHost := ad_host a,
                                                   np_addressRefid := refidForPeer (Some (ad_sa a))\<rparr>) p3
                           in (True, '''', if moved
                                 then p4\<lparr>pr_filter := map (\<lambda>_. empty_sample) (pr_filter p4), pr_spikeRun := 0\<rparr>
                                 else p4))))"

definition ensureSocket :: "PassInput \<Rightarrow> NtpPeer \<Rightarrow> bool \<times> string \<times> NtpPeer" where
  "ensureSocket i p = (if pr_open p then (True, '''', p) else connectPeer i p)"

section \<open>The clock filter\<close>

definition best_sample :: "PeerSample list \<Rightarrow> PeerSample option" where
  "best_sample fs =
     fold (\<lambda>f best. if \<not> ps_valid f then best
                    else case best of None \<Rightarrow> Some f
                         | Some b \<Rightarrow> if ps_delaySec f < ps_delaySec b then Some f else best) fs None"

definition filter_jitter :: "PeerSample list \<Rightarrow> PeerSample \<Rightarrow> real" where
  "filter_jitter fs best =
     (let others = filter (\<lambda>f. ps_valid f \<and> ps_seq f \<noteq> ps_seq best) fs;
          ss = (\<Sum>f\<leftarrow>others. (ps_offsetSec f - ps_offsetSec best) * (ps_offsetSec f - ps_offsetSec best))
      in if others \<noteq> [] then sqrt (ss / real (length others)) else 0)"

definition allowed_excess :: "PeerSample list \<Rightarrow> PeerSample \<Rightarrow> real" where
  "allowed_excess fs best =
     (let delays = sort (map ps_delaySec (filter ps_valid fs));
          cleanSpread = delays ! (length delays div 4) - ps_delaySec best
      in max (2 * kSpikeBiasFloorSec) (max (ps_delaySec best) (kSpikeSpreadFactor * cleanSpread)))"

definition filterAdd :: "PeerSample \<Rightarrow> NtpPeer \<Rightarrow> NtpPeer" where
  "filterAdd s p0 =
     (let fs = s # butlast (pr_filter p0);
          p1 = p0\<lparr>pr_filter := fs\<rparr>
      in case best_sample fs of
           None \<Rightarrow> p1
         | Some best \<Rightarrow>
             (let p2 = ntp_upd (\<lambda>n. n\<lparr>np_filterJitterSec := filter_jitter fs best, np_delaySec := ps_delaySec best,
                          np_rootDistanceSec := (np_rootDelaySec n + ps_delaySec best) / 2 + np_rootDispersionSec n
                                                + ps_dispersionSec best\<rparr>) p1;
                  excess = ps_delaySec s - ps_delaySec best;
                  slow = (allowed_excess fs best < excess)
              in if slow \<and> pr_spikeRun p2 + 1 < kSpikeRunLimit
                 then ntp_upd (\<lambda>n. n\<lparr>np_spikes := np_spikes n + 1\<rparr>) (p2\<lparr>pr_spikeRun := pr_spikeRun p2 + 1, pr_retryable := True\<rparr>)
                 else let p3 = p2\<lparr>pr_spikeRun := 0\<rparr>
                      in if pr_handedOn p3 < ps_seq s
                         then p3\<lparr>pr_handedOn := ps_seq s, pr_offsets := of_add (ps_atSec s) (ps_offsetSec s) (pr_offsets p3)\<rparr>
                         else p3))"

section \<open>One poll\<close>

definition poll_interval :: "NtpPeer \<Rightarrow> real" where
  "poll_interval p = (if 0 < pr_backoffPollSec p then pr_backoffPollSec p else nc_pollSeconds (pr_cfg p))"

definition request_packet :: "PassInput \<Rightarrow> NtpPeer \<Rightarrow> packet" where
  "request_packet i p =
     (let out = zero_packet;
          out = poke 0 [li_vn_mode 0 4 3] out;
          out = poke 1 [0] out;
          out = poke 2 [word_of_int (clamp (llround (log 2 (max 1 (poll_interval p)))) 4 17)] out;
          out = poke 3 [word_of_int (clamp \<lceil>log 2 (pi_precision i)\<rceil> (-20) 0)] out;
          out = poke 40 (put32 (fst (pi_nonce i))) out
      in poke 44 (put32 (snd (pi_nonce i))) out)"

definition take_kiss :: "packet \<Rightarrow> NtpPeer \<Rightarrow> string \<times> NtpPeer" where
  "take_kiss buf p0 =
     (let kiss = kissText (peek 12 4 buf);
          p = ntp_upd (\<lambda>n. n\<lparr>np_kissCode := kiss\<rparr>) p0
      in if kiss = ''DENY'' \<or> kiss = ''RSTR''
         then (''the server refused us (kiss-o'' @ [CHR 0x27] @ ''-death '' @ kiss @ '')'', ntp_upd (\<lambda>n. n\<lparr>np_stopped := True\<rparr>) p)
         else if kiss = ''RATE''
         then let asked = 2 ^ nat (clamp (uint (buf ! 2)) 4 17)
              in (''the server asked for a slower poll (kiss-o'' @ [CHR 0x27] @ ''-death RATE)'',
                  p\<lparr>pr_burstLeft := 0,
                    pr_backoffPollSec := min kMaxBackoffPollSec (max (poll_interval p * 2) asked), pr_goodRun := 0\<rparr>)
         else (''kiss-o'' @ [CHR 0x27] @ ''-death '' @ (if kiss = '''' then ''(unnamed)'' else kiss), p))"

definition ease_backoff :: "NtpPeer \<Rightarrow> NtpPeer" where
  "ease_backoff p =
     (if 0 < pr_backoffPollSec p then
        if kBackoffRecoverAfter \<le> pr_goodRun p + 1
        then let half = pr_backoffPollSec p / 2
             in p\<lparr>pr_goodRun := 0, pr_backoffPollSec := (if half \<le> nc_pollSeconds (pr_cfg p) then 0 else half)\<rparr>
        else p\<lparr>pr_goodRun := pr_goodRun p + 1\<rparr>
      else p)"

text \<open>RFC 5905's four timestamps.\<close>

definition exchange_offset :: "real \<Rightarrow> real \<Rightarrow> real \<Rightarrow> real \<Rightarrow> real" where
  "exchange_offset t1 t2 t3 t4 = ((t2 - t1) + (t3 - t4)) / 2"

definition exchange_delay :: "real \<Rightarrow> real \<Rightarrow> real \<Rightarrow> real \<Rightarrow> real" where
  "exchange_delay t1 t2 t3 t4 = (t4 - t1) - (t3 - t2)"

definition reply_sample :: "NtpSourceConfig \<Rightarrow> real \<Rightarrow> packet \<Rightarrow> real \<Rightarrow> real \<Rightarrow> real \<Rightarrow> PeerSample" where
  "reply_sample cfg precision buf t1 t4 approx =
     (let t2 = fromNtpTime (peek 32 8 buf) approx;
          t3 = fromNtpTime (peek 40 8 buf) approx;
          serverPrecision = 2 powr of_int (sint (buf ! 3))
      in \<lparr>ps_offsetSec = exchange_offset t1 t2 t3 t4 + nc_extraDelayMs cfg / 10 ^ 3 / 2,
          ps_delaySec = max (exchange_delay t1 t2 t3 t4) (2 * precision),
          ps_dispersionSec = serverPrecision + precision + kPhi * (t4 - t1), ps_atSec = t4, ps_seq = 0, ps_valid = True\<rparr>)"

definition note_reply :: "packet \<Rightarrow> NtpPeer \<Rightarrow> NtpPeer" where
  "note_reply buf p0 =
     (let stratum = uint (buf ! 1); leap = pkt_leap buf;
          p1 = ntp_upd (\<lambda>n. n\<lparr>np_received := np_received n + 1\<rparr>) (p0\<lparr>pr_consecutiveTimeouts := 0\<rparr>);
          p2 = ease_backoff p1;
          p3 = ntp_upd (\<lambda>n. n\<lparr>np_stratum := stratum, np_refid := refidText (peek 12 4 buf) stratum, np_leap := leap,
                 np_rootDelaySec := fromShortFormat (read32 (peek 4 4 buf)),
                 np_rootDispersionSec := fromShortFormat (read32 (peek 8 4 buf)),
                 np_serverPrecisionSec := 2 powr of_int (sint (buf ! 3)), np_lastReplyAgeSec := 0, np_kissCode := ''''\<rparr>) p2
      in snap_upd (\<lambda>sn. sn\<lparr>sn_lastDecodedUtc := [], sn_leapPending := (leap = 1 \<or> leap = 2)\<rparr>) p3)"

definition accept_reply :: "packet \<Rightarrow> PeerSample \<Rightarrow> NtpPeer \<Rightarrow> NtpPeer" where
  "accept_reply buf s p0 =
     (let p = note_reply buf p0 in filterAdd (s\<lparr>ps_seq := pr_seq p + 1\<rparr>) (p\<lparr>pr_seq := pr_seq p + 1\<rparr>))"

text \<open>A datagram read while waiting: not an answer to this request, or the end of the poll.\<close>

datatype Reply = NotOurs string | Ours bool string NtpPeer

definition handle_reply :: "PassInput \<Rightarrow> packet \<Rightarrow> real \<Rightarrow> real \<Rightarrow> NtpPeer \<Rightarrow> Reply" where
  "handle_reply i buf t4 approx p =
     (if length buf < kPacketSize then NotOurs ''reply too short''
      else let stratum = uint (buf ! 1); cfg = pr_cfg p in
      if pkt_mode buf \<noteq> 4 then NotOurs ''reply was not mode 4''
      else if pkt_version buf < 3 \<or> 4 < pkt_version buf then NotOurs (''reply version '' @ dec_int (pkt_version buf))
      else if read32 (peek 24 4 buf) \<noteq> fst (pi_nonce i) \<or> read32 (peek 28 4 buf) \<noteq> snd (pi_nonce i)
      then NotOurs ''reply did not echo the request (originate mismatch)''
      else if stratum = 0 then (let (err, p) = take_kiss buf p in Ours False err p)
      else if pkt_leap buf = 3 then Ours False ''the server says it is unsynchronised (LI=3)'' p
      else if nc_maxStratum cfg < stratum
      then Ours False (''stratum '' @ dec_int stratum @ '' is past max_stratum '' @ dec_int (nc_maxStratum cfg)) p
      else if read32 (peek 40 4 buf) = 0 \<and> read32 (peek 44 4 buf) = 0
      then Ours False (''the server'' @ [CHR 0x27] @ ''s transmit timestamp is zero'') p
      else if 1 < stratum \<and> read32 (peek 12 4 buf) \<in> set (pr_localAddrs p)
      then Ours False (''the server is synchronised to this host (refid '' @ refidText (peek 12 4 buf) stratum @
                       ''): taking time from it would be a loop'') p
      else let s = reply_sample cfg (pi_precision i) buf (pi_t1 i) t4 approx;
               rootDistance = (fromShortFormat (read32 (peek 4 4 buf)) + ps_delaySec s) / 2
                 + fromShortFormat (read32 (peek 8 4 buf)) + ps_dispersionSec s
           in if nc_maxRootDistanceMs cfg / 10 ^ 3 < rootDistance
              then Ours False (''the server'' @ [CHR 0x27] @ ''s own root distance is '' @ fmt_0f (rootDistance * 1000) @
                               '' ms (limit '' @ fmt_0f (nc_maxRootDistanceMs cfg) @ '' ms)'') p
              else Ours True '''' (accept_reply buf s p))"

fun await_reply :: "PassInput \<Rightarrow> PeerEvent list \<Rightarrow> NtpPeer \<Rightarrow> bool \<times> string \<times> NtpPeer" where
  "await_reply i [] p =
     (False, ''no reply within '' @ dec_int kReplyTimeoutSec @ ''s'',
      p\<lparr>pr_consecutiveTimeouts := pr_consecutiveTimeouts p + 1, pr_retryable := True\<rparr>)"
| "await_reply i (SocketError text # es) p = (False, text, closeSocket p)"
| "await_reply i (Datagram buf t4 approx # es) p =
     (case handle_reply i buf t4 approx p of
        NotOurs _ \<Rightarrow> await_reply i es p
      | Ours ok err p' \<Rightarrow> (ok, err, p'))"

text \<open>The request sent, if one was, and how the poll ended.\<close>

definition pollOnce :: "PassInput \<Rightarrow> NtpPeer \<Rightarrow> packet option \<times> bool \<times> string \<times> NtpPeer" where
  "pollOnce i p0 =
     (let (ready, err, p) = ensureSocket i (p0\<lparr>pr_retryable := False\<rparr>)
      in if \<not> ready then (None, False, err, p)
         else if \<not> pi_sendOk i then (None, False, ''send: '' @ pi_errno i, closeSocket p)
         else (Some (request_packet i p),
               await_reply i (pi_events i) (ntp_upd (\<lambda>n. n\<lparr>np_sent := np_sent n + 1\<rparr>) p)))"

section \<open>What the selector reads\<close>

definition peer_recompute :: "real \<Rightarrow> real \<Rightarrow> NtpPeer \<Rightarrow> NtpPeer" where
  "peer_recompute now dmr p0 =
     (let (e, offsets) = estimate (pr_offsets p0);
          n = pr_ntp p0;
          network = np_delaySec n / 2; extra = nc_extraDelayMs (pr_cfg p0) / 10 ^ 3 / 2;
          host = oe_offsetSec e + oe_rate e * (now - oe_atSec e) + dmr
      in snap_upd (\<lambda>s. s\<lparr>sn_haveOffset := oe_valid e, sn_offsetSamples := oe_samples e, sn_offsetSec := oe_offsetSec e,
             sn_offsetAtSec := oe_atSec e, sn_offsetRate := oe_rate e, sn_offsetRateUncertainty := oe_rateUncertainty e,
             sn_offsetRateMeasured := oe_rateMeasured e, sn_offsetRateSpanSec := oe_rateSpanSec e,
             sn_rateTermSec := oe_rateTermSec e, sn_jitterSec := oe_jitterSec e,
             sn_offsetAgeSec := (if of_samples offsets = [] then 10 ^ 9 else now - of_newestAt offsets),
             sn_maxOffsetAgeSec := max 180 (kMaxAgePolls * np_pollSec n),
             sn_networkSec := network, sn_extraSec := extra, sn_delaySec := network + extra,
             sn_dispersionSec := np_rootDistanceSec n + np_filterJitterSec n + oe_jitterSec e + oe_rateTermSec e,
             sn_weightDispersionSec := np_delaySec n / 2 + np_filterJitterSec n + oe_jitterSec e,
             sn_hostOffsetSec := host, sn_rawOffsetSec := host - (network + extra)\<rparr>)
           (p0\<lparr>pr_offsets := offsets\<rparr>))"

definition peer_reason :: "NtpPeer \<Rightarrow> string \<times> string" where
  "peer_reason p =
     (let s = pr_snap p; n = sn_ntp s
      in if \<not> sn_enabled s then (''disabled in the configuration'', ''stopped'')
         else if \<not> pr_active p
         then (if pr_activeReason p = '''' then ''held in cold standby'' else pr_activeReason p, ''stopped'')
         else if np_stopped n
         then (''the server sent kiss-o'' @ [CHR 0x27] @ ''-death '' @ np_kissCode n @ '' and will not be polled again'', ''refused'')
         else if np_reach n = 0
         then (if np_sent n = 0 then ''no poll has been answered yet''
               else ''unreachable: the last 8 polls went unanswered'' @
                    (if np_lastRejectReason n = '''' then '''' else '' ('' @ np_lastRejectReason n @ '')''), ''unreachable'')
         else if \<not> sn_haveOffset s
         then (''still filtering: '' @ dec_int (sn_offsetSamples s) @ '' accepted sample(s) so far'', ''reaching'')
         else ('''', ''locked''))"

definition peer_snapshot :: "real \<Rightarrow> real \<Rightarrow> NtpPeer \<Rightarrow> SourceSnapshot" where
  "peer_snapshot now daemon p =
     (let s = pr_snap p; n = sn_ntp s; (reason, state) = peer_reason p
      in s\<lparr>sn_linkAgeSec := now - pr_resolvedAt p,
           sn_ntp := n\<lparr>np_nextResolveInSec := (if pr_literal p \<or> pr_resolveDueAt p \<le> 0 then -1
                                               else max 0 (pr_resolveDueAt p - now)),
                       np_lastReplyAgeSec := (if 0 < np_received n
                         then if of_samples (pr_offsets p) = [] then 10 ^ 9 else daemon - of_newestAt (pr_offsets p)
                         else np_lastReplyAgeSec n)\<rparr>,
           sn_active := pr_active p, sn_activeReason := pr_activeReason p,
           sn_ready := (sn_enabled s \<and> pr_active p \<and> \<not> np_stopped n \<and> np_reach n \<noteq> 0 \<and> sn_haveOffset s),
           sn_notReadyReason := reason, sn_clockState := state\<rparr>)"

section \<open>One pass of the poll loop\<close>

definition note_poll :: "bool \<Rightarrow> string \<Rightarrow> NtpPeer \<Rightarrow> NtpPeer" where
  "note_poll ok err p0 =
     (let reach = push_bit 1 (np_reach (pr_ntp p0)) OR (if ok then 1 else 0);
          p1 = ntp_upd (\<lambda>n. n\<lparr>np_reach := reach\<rparr>) p0
      in if ok then snap_upd (\<lambda>s. s\<lparr>sn_link := Streaming, sn_linkDetail := pr_resolvedText p1\<rparr>)
                      (ntp_upd (\<lambda>n. n\<lparr>np_lastRejectReason := ''''\<rparr>) p1)
         else let p2 = ntp_upd (\<lambda>n. n\<lparr>np_rejected := np_rejected n + 1, np_lastRejectReason := err\<rparr>) p1
              in if reach = 0 then snap_upd (\<lambda>s. s\<lparr>sn_link := Backoff, sn_linkDetail := err\<rparr>) p2 else p2)"

definition next_wait :: "NtpPeer \<Rightarrow> real \<times> NtpPeer" where
  "next_wait p0 =
     (let (wait, p) =
        (if 0 < pr_burstLeft p0 then (kBurstSpacingSec, p0\<lparr>pr_burstLeft := pr_burstLeft p0 - 1\<rparr>)
         else if pr_retryable p0 \<and> pr_backoffPollSec p0 \<le> 0 \<and> np_reach (pr_ntp p0) \<noteq> 0 \<and> pr_quickRetries p0 < kMaxQuickRetries
         then (kQuickRetrySec, p0\<lparr>pr_quickRetries := pr_quickRetries p0 + 1\<rparr>)
         else (poll_interval p0, p0\<lparr>pr_quickRetries := 0\<rparr>))
      in (wait, ntp_upd (\<lambda>n. n\<lparr>np_pollSec := poll_interval p\<rparr>) p))"

text \<open>The request sent, if one was, and how long the loop sleeps.\<close>

definition go_idle :: "NtpPeer \<Rightarrow> NtpPeer" where
  "go_idle p0 =
     (if pr_wasInactive p0 then p0
      else let p = dropTiming (closeSocket (p0\<lparr>pr_wasInactive := True\<rparr>))
           in ntp_upd (\<lambda>n. n\<lparr>np_reach := 0\<rparr>)
                (snap_upd (\<lambda>s. s\<lparr>sn_link := Idle,
                    sn_linkDetail := (if pr_activeReason p = '''' then ''held in cold standby'' else pr_activeReason p),
                    sn_clockState := ''stopped''\<rparr>) p))"

definition come_up :: "NtpPeer \<Rightarrow> NtpPeer" where
  "come_up p =
     (if pr_wasInactive p then p\<lparr>pr_wasInactive := False, pr_burstLeft := kBurstCount, pr_backoffPollSec := 0\<rparr> else p)"

definition start_over :: "NtpPeer \<Rightarrow> NtpPeer" where
  "start_over p =
     (if pr_reacquire p then (dropTiming (closeSocket (p\<lparr>pr_reacquire := False\<rparr>)))\<lparr>pr_burstLeft := kBurstCount\<rparr> else p)"

definition look_up_again :: "PassInput \<Rightarrow> NtpPeer \<Rightarrow> NtpPeer" where
  "look_up_again i p =
     (if pr_open p \<and> (kReresolveAfterTimeouts \<le> pr_consecutiveTimeouts p \<or> pr_resolveDueAt p \<le> pi_mono i)
      then (snd (snd (connectPeer i p)))\<lparr>pr_consecutiveTimeouts := 0\<rparr> else p)"

definition run_pass :: "PassInput \<Rightarrow> NtpPeer \<Rightarrow> packet option \<times> real \<times> NtpPeer" where
  "run_pass i p0 =
     (if \<not> pr_active p0 then (None, 1, go_idle p0)
      else let p1 = look_up_again i (start_over (come_up p0));
               (sent, ok, err, p2) = pollOnce i p1;
               p3 = peer_recompute (pi_daemon i) (pi_dmr i) (note_poll ok err p2)
           in if np_stopped (pr_ntp p3) then (sent, 30, p3)
              else let (wait, p4) = next_wait p3 in (sent, wait, p4))"

end
