(* ===== verification/Client_Polls.thy ===== *)
theory Client_Polls
  imports Client_Replies
begin

text \<open>
  What the upstream client promises over many polls: the reach register is the outcomes of the
  last eight; of any three accepted replies the estimator is given one; a RATE kiss slows a
  peer down and its effect wears off; a failed or unchanged lookup leaves a working
  connection alone. Two lemmas at the end record where the code departs from its own account.
\<close>

section \<open>What each operation leaves alone\<close>

lemma upd_fields [simp]:
  "pr_cfg (ntp_upd f p) = pr_cfg p" "pr_cfg (snap_upd g p) = pr_cfg p"
  "pr_backoffPollSec (ntp_upd f p) = pr_backoffPollSec p" "pr_backoffPollSec (snap_upd g p) = pr_backoffPollSec p"
  "pr_goodRun (ntp_upd f p) = pr_goodRun p" "pr_goodRun (snap_upd g p) = pr_goodRun p"
  "pr_seq (ntp_upd f p) = pr_seq p" "pr_seq (snap_upd g p) = pr_seq p"
  "pr_handedOn (ntp_upd f p) = pr_handedOn p" "pr_handedOn (snap_upd g p) = pr_handedOn p"
  "pr_spikeRun (ntp_upd f p) = pr_spikeRun p" "pr_spikeRun (snap_upd g p) = pr_spikeRun p"
  "pr_active (ntp_upd f p) = pr_active p" "pr_active (snap_upd g p) = pr_active p"
  "pr_open (ntp_upd f p) = pr_open p" "pr_open (snap_upd g p) = pr_open p"
  "pr_filter (ntp_upd f p) = pr_filter p" "pr_filter (snap_upd g p) = pr_filter p"
  "pr_offsets (ntp_upd f p) = pr_offsets p" "pr_offsets (snap_upd g p) = pr_offsets p"
  "pr_resolvedText (ntp_upd f p) = pr_resolvedText p" "pr_resolvedText (snap_upd g p) = pr_resolvedText p"
  "pr_ntp (ntp_upd f p) = f (pr_ntp p)"
  by (simp_all add: ntp_upd_def snap_upd_def)

lemma filterAdd_fields [simp]:
  "pr_cfg (filterAdd s p) = pr_cfg p" "pr_backoffPollSec (filterAdd s p) = pr_backoffPollSec p"
  "pr_goodRun (filterAdd s p) = pr_goodRun p" "pr_seq (filterAdd s p) = pr_seq p" "pr_active (filterAdd s p) = pr_active p"
  "np_reach (pr_ntp (filterAdd s p)) = np_reach (pr_ntp p)"
  by (simp_all add: filterAdd_def Let_def split: option.split)

lemma ease_fields [simp]:
  "pr_cfg (ease_backoff p) = pr_cfg p" "pr_seq (ease_backoff p) = pr_seq p" "pr_active (ease_backoff p) = pr_active p"
  "pr_handedOn (ease_backoff p) = pr_handedOn p" "pr_spikeRun (ease_backoff p) = pr_spikeRun p"
  "pr_snap (ease_backoff p) = pr_snap p" "pr_filter (ease_backoff p) = pr_filter p"
  by (simp_all add: ease_backoff_def Let_def)

lemma note_reply_fields [simp]:
  "pr_cfg (note_reply buf p) = pr_cfg p" "pr_seq (note_reply buf p) = pr_seq p" "pr_active (note_reply buf p) = pr_active p"
  "pr_handedOn (note_reply buf p) = pr_handedOn p" "pr_spikeRun (note_reply buf p) = pr_spikeRun p"
  "pr_filter (note_reply buf p) = pr_filter p" "np_reach (pr_ntp (note_reply buf p)) = np_reach (pr_ntp p)"
  "pr_backoffPollSec (note_reply buf p) = pr_backoffPollSec (ease_backoff p)"
  "pr_goodRun (note_reply buf p) = pr_goodRun (ease_backoff p)"
  by (simp_all add: note_reply_def Let_def) (simp_all add: ease_backoff_def snap_upd_def ntp_upd_def Let_def)

section \<open>The RATE kiss\<close>

lemma accept_backoff:
  "pr_cfg (accept_reply buf s p) = pr_cfg p"
  "pr_backoffPollSec (accept_reply buf s p) = pr_backoffPollSec (ease_backoff p)"
  "pr_goodRun (accept_reply buf s p) = pr_goodRun (ease_backoff p)"
  by (simp_all add: accept_reply_def Let_def)

lemma ease_bounds:
  assumes "0 \<le> pr_backoffPollSec p"
  shows "0 \<le> pr_backoffPollSec (ease_backoff p)" "pr_backoffPollSec (ease_backoff p) \<le> pr_backoffPollSec p"
  using assms by (simp_all add: ease_backoff_def Let_def)

text \<open>What a run of accepted replies, each given as its octets and its sample, leaves of the backoff.\<close>

definition accept_all :: "(packet \<times> PeerSample) list \<Rightarrow> NtpPeer \<Rightarrow> NtpPeer" where
  "accept_all rs p = fold (\<lambda>(buf, s). accept_reply buf s) rs p"

lemma accept_all_Cons [simp]: "accept_all (r # rs) p = accept_all rs (accept_reply (fst r) (snd r) p)"
  by (simp add: accept_all_def case_prod_unfold)

lemma accept_all_Nil [simp]: "accept_all [] p = p"
  by (simp add: accept_all_def)

lemma accept_all_bounds:
  "0 \<le> pr_backoffPollSec p \<Longrightarrow> 0 \<le> pr_backoffPollSec (accept_all rs p) \<and> pr_backoffPollSec (accept_all rs p) \<le> pr_backoffPollSec p
     \<and> pr_cfg (accept_all rs p) = pr_cfg p"
proof (induction rs arbitrary: p)
  case (Cons r rs)
  then show ?case
    using Cons.IH[of "accept_reply (fst r) (snd r) p"] ease_bounds[OF Cons.prems] by (simp add: accept_backoff)
qed simp

lemma eight_halve:
  assumes "0 \<le> pr_backoffPollSec p" "0 \<le> nc_pollSeconds (pr_cfg p)" "rs \<noteq> []" "8 \<le> pr_goodRun p + length rs"
  shows "pr_backoffPollSec (accept_all rs p) \<le> pr_backoffPollSec p / 2
    \<and> (pr_backoffPollSec p / 2 \<le> nc_pollSeconds (pr_cfg p) \<longrightarrow> pr_backoffPollSec (accept_all rs p) = 0)"
  using assms
proof (induction rs arbitrary: p)
  case (Cons r rs)
  let ?q = "accept_reply (fst r) (snd r) p"
  have q: "0 \<le> pr_backoffPollSec ?q" using ease_bounds[OF Cons.prems(1)] by (simp add: accept_backoff)
  note rest = accept_all_bounds[OF q, of rs]
  show ?case
  proof (cases "0 < pr_backoffPollSec p \<and> pr_goodRun p + 1 < 8")
    case True
    then have e: "pr_backoffPollSec ?q = pr_backoffPollSec p" "pr_goodRun ?q = pr_goodRun p + 1"
      unfolding accept_backoff by (simp_all add: ease_backoff_def kBackoffRecoverAfter_def)
    then have "rs \<noteq> []" using True Cons.prems(4) by auto
    then show ?thesis
      using Cons.IH[of ?q] e Cons.prems by (simp add: accept_backoff(1))
  next
    case False
    then have "pr_backoffPollSec ?q \<le> pr_backoffPollSec p / 2
        \<and> (pr_backoffPollSec p / 2 \<le> nc_pollSeconds (pr_cfg p) \<longrightarrow> pr_backoffPollSec ?q = 0)"
      using Cons.prems(1,2) unfolding accept_backoff by (auto simp: ease_backoff_def kBackoffRecoverAfter_def Let_def)
    then show ?thesis using rest q by auto
  qed
qed simp

lemma backoff_gone:
  "0 \<le> pr_backoffPollSec p \<Longrightarrow> 0 \<le> nc_pollSeconds (pr_cfg p) \<Longrightarrow>
   pr_backoffPollSec p \<le> nc_pollSeconds (pr_cfg p) * 2 ^ Suc n \<Longrightarrow> 8 * Suc n \<le> length rs \<Longrightarrow>
   pr_backoffPollSec (accept_all rs p) = 0"
proof (induction n arbitrary: p rs)
  case 0
  then show ?case using eight_halve[of p rs] by (cases rs) auto
next
  case (Suc n)
  let ?q = "accept_all (take 8 rs) p"
  have "take 8 rs \<noteq> []" "length (take 8 rs) = 8" using Suc.prems(4) by auto
  then have "pr_backoffPollSec ?q \<le> pr_backoffPollSec p / 2" "0 \<le> pr_backoffPollSec ?q" "pr_cfg ?q = pr_cfg p"
    using eight_halve[OF Suc.prems(1,2), of "take 8 rs"] accept_all_bounds[OF Suc.prems(1), of "take 8 rs"] by auto
  then have "pr_backoffPollSec (accept_all (drop 8 rs) ?q) = 0"
    using Suc.prems by (intro Suc.IH) auto
  then show ?case by (metis accept_all_def append_take_drop_id fold_append comp_apply)
qed

text \<open>
  The backoff wears off: however far a RATE kiss stretched the poll interval, up to its
  limit of 1024 seconds, fifty-six accepted replies with no further kiss bring a peer
  configured at the least interval allowed, and any slower one, back to its own interval.
\<close>

theorem backoff_recovers:
  assumes "0 \<le> pr_backoffPollSec p" "pr_backoffPollSec p \<le> 1024" "8 \<le> nc_pollSeconds (pr_cfg p)" "56 \<le> length rs"
  shows "poll_interval (accept_all rs p) = nc_pollSeconds (pr_cfg p)"
proof -
  have "pr_backoffPollSec (accept_all rs p) = 0" using assms by (intro backoff_gone[of p 6]) simp_all
  then show ?thesis using accept_all_bounds[OF assms(1), of rs] by (simp add: poll_interval_def)
qed

theorem backoff_recovers_witness:
  "poll_interval (accept_all (replicate 56 (demo_reply, empty_sample)) (demo_peer\<lparr>pr_backoffPollSec := 1024\<rparr>)) = 64"
  by (subst backoff_recovers) (simp_all add: demo_peer_def mk_NtpPeer_def demo_source_def Let_def)

text \<open>A kiss, as a reply to the request.\<close>

definition is_kiss :: "string \<Rightarrow> packet \<Rightarrow> bool" where
  "is_kiss code buf \<longleftrightarrow> uint (buf ! 1) = 0 \<and> kissText (peek 12 4 buf) = code"

lemma handle_kiss:
  assumes "echoes (pi_nonce i) (Datagram buf t4 approx)" "uint (buf ! 1) = 0"
  shows "handle_reply i buf t4 approx p = Ours False (fst (take_kiss buf p)) (snd (take_kiss buf p))"
  using assms by (simp add: handle_reply_def Let_def case_prod_unfold)

text \<open>
  A server that says it is asked too often is asked less: after a RATE kiss in answer to
  the request the burst is over, nothing else of the measurements changes, the interval is
  never above 1024 seconds, and a peer polled every 512 seconds or faster has its interval at
  least doubled and brought up to what the server asked for.
\<close>

theorem rate_kiss_slows:
  assumes "echoes (pi_nonce i) (Datagram buf t4 approx)" "is_kiss ''RATE'' buf"
    and "0 < poll_interval p" "poll_interval p \<le> 512"
  shows "\<exists>err p'. handle_reply i buf t4 approx p = Ours False err p' \<and> pr_burstLeft p' = 0
    \<and> 2 * poll_interval p \<le> poll_interval p' \<and> poll_interval p' \<le> 1024
    \<and> min 1024 (2 ^ nat (clamp (uint (buf ! 2)) 4 17)) \<le> poll_interval p'
    \<and> pr_filter p' = pr_filter p \<and> pr_offsets p' = pr_offsets p"
proof -
  have k: "uint (buf ! 1) = 0" "kissText (peek 12 4 buf) = ''RATE''" using assms(2) by (simp_all add: is_kiss_def)
  let ?p = "snd (take_kiss buf p)"
  have b: "pr_backoffPollSec ?p = min 1024 (max (poll_interval p * 2) (2 ^ nat (clamp (uint (buf ! 2)) 4 17)))"
    "pr_burstLeft ?p = 0" "pr_filter ?p = pr_filter p" "pr_offsets ?p = pr_offsets p"
    by (simp_all add: take_kiss_def k Let_def kMaxBackoffPollSec_def poll_interval_def)
  moreover have "0 < pr_backoffPollSec ?p" unfolding b(1) using assms(3) by (simp add: less_max_iff_disj)
  then have "poll_interval ?p = pr_backoffPollSec ?p" by (simp add: poll_interval_def)
  ultimately show ?thesis
    using assms(4) by (intro exI[of _ "fst (take_kiss buf p)"] exI[of _ ?p]) (simp add: handle_kiss[OF assms(1) k(1)] le_max_iff_disj)
qed

text \<open>A kiss in answer to the demonstration request.\<close>

definition demo_kiss :: packet where
  "demo_kiss = [228, 0, 6, 254] @ replicate 8 0 @ [82, 65, 84, 69] @ replicate 32 0"

lemma demo_kiss_fields:
  "length demo_kiss = 48" "pkt_mode demo_kiss = 4" "pkt_version demo_kiss = 4" "read32 (peek 24 4 demo_kiss) = 0"
  "read32 (peek 28 4 demo_kiss) = 0" "uint (demo_kiss ! 1) = 0" "kissText (peek 12 4 demo_kiss) = ''RATE''" "uint (demo_kiss ! 2) = 6"
  by code_simp+

lemma demo_kiss_ours: "echoes (pi_nonce demo_pass) (Datagram demo_kiss 0 0)" "is_kiss ''RATE'' demo_kiss"
  by (simp_all add: demo_kiss_fields[unfolded One_nat_def] demo_pass_def kPacketSize_def is_kiss_def)

theorem rate_kiss_slows_witness:
  "\<exists>err p'. handle_reply demo_pass demo_kiss 0 0 demo_peer = Ours False err p' \<and> 128 \<le> poll_interval p'"
proof -
  have "poll_interval demo_peer = 64" by (simp add: poll_interval_def demo_peer_def mk_NtpPeer_def demo_source_def Let_def)
  then show ?thesis using rate_kiss_slows[OF demo_kiss_ours, of demo_peer] by auto
qed

section \<open>The clock filter starves nobody\<close>

lemma best_sample_some:
  assumes "ps_valid s"
  shows "\<exists>b. best_sample (s # fs) = Some b"
proof -
  have "fold (\<lambda>f best. if \<not> ps_valid f then best
        else case best of None \<Rightarrow> Some f | Some b \<Rightarrow> if ps_delaySec f < ps_delaySec b then Some f else best) fs (Some b) \<noteq> None" for b
    by (induction fs arbitrary: b) auto
  then show ?thesis using assms by (simp add: best_sample_def)
qed

text \<open>One accepted sample: handed on, or one more of a run of slow ones that is still short.\<close>

lemma accept_step:
  fixes buf :: packet
  assumes "ps_valid s" "pr_handedOn p \<le> pr_seq p"
  defines "q \<equiv> accept_reply buf s p"
  shows "pr_seq q = pr_seq p + 1"
    and "(pr_handedOn q = pr_seq q) \<or> (pr_handedOn q = pr_handedOn p \<and> pr_spikeRun q = pr_spikeRun p + 1 \<and> pr_spikeRun q < kSpikeRunLimit)"
proof -
  show "pr_seq q = pr_seq p + 1" by (simp add: q_def accept_reply_def Let_def)
  obtain b where b: "best_sample (s\<lparr>ps_seq := Suc (pr_seq p)\<rparr> # butlast (pr_filter p)) = Some b"
    using best_sample_some[of "s\<lparr>ps_seq := Suc (pr_seq p)\<rparr>" "butlast (pr_filter p)"] assms(1) by auto
  show "(pr_handedOn q = pr_seq q) \<or> (pr_handedOn q = pr_handedOn p \<and> pr_spikeRun q = pr_spikeRun p + 1 \<and> pr_spikeRun q < kSpikeRunLimit)"
    using b assms(2) by (simp add: q_def accept_reply_def Let_def) (simp add: filterAdd_def Let_def)
qed

text \<open>
  A changed path starves nobody: of any three replies accepted one after another, at
  least one sample reaches the estimator, however slow they all are against the best round
  trip on record.
\<close>

theorem filter_never_starves:
  assumes "pr_handedOn p \<le> pr_seq p" "ps_valid s1" "ps_valid s2" "ps_valid s3"
  shows "pr_seq p < pr_handedOn (accept_all [(b1, s1), (b2, s2), (b3, s3)] p)"
proof -
  define q1 where "q1 = accept_reply b1 s1 p"
  define q2 where "q2 = accept_reply b2 s2 q1"
  define q3 where "q3 = accept_reply b3 s3 q2"
  note a1 = accept_step[OF assms(2,1), of b1, folded q1_def]
  have h1: "pr_handedOn q1 \<le> pr_seq q1" using a1 assms(1) by auto
  note a2 = accept_step[OF assms(3) h1, of b2, folded q2_def]
  have h2: "pr_handedOn q2 \<le> pr_seq q2" using a2 h1 by auto
  note a3 = accept_step[OF assms(4) h2, of b3, folded q3_def]
  have "pr_seq p < pr_handedOn q3" using a1 a2 a3 by (auto simp: kSpikeRunLimit_def kMaxQuickRetries_def)
  then show ?thesis by (simp add: q1_def q2_def q3_def)
qed

theorem filter_never_starves_witness:
  "0 < pr_handedOn (accept_all (replicate 3 (demo_reply, empty_sample\<lparr>ps_valid := True\<rparr>)) demo_peer)"
  using filter_never_starves[of demo_peer "empty_sample\<lparr>ps_valid := True\<rparr>" "empty_sample\<lparr>ps_valid := True\<rparr>"
      "empty_sample\<lparr>ps_valid := True\<rparr>" demo_reply demo_reply demo_reply]
  by (simp add: demo_peer_def mk_NtpPeer_def numeral_3_eq_3 Let_def)

section \<open>The reach register\<close>

lemma connect_fields:
  "connectPeer i p = (ok, err, p') \<Longrightarrow> pr_active p' = pr_active p \<and> np_reach (pr_ntp p') = np_reach (pr_ntp p)"
  by (auto simp: connectPeer_def closeSocket_def Let_def split: if_splits sum.splits list.splits option.splits)

lemma handle_fields:
  "handle_reply i buf t4 approx p = Ours ok err p' \<Longrightarrow> pr_active p' = pr_active p \<and> np_reach (pr_ntp p') = np_reach (pr_ntp p)"
  unfolding handle_reply_def Let_def
  by (auto simp: take_kiss_def accept_reply_def Let_def split: if_splits prod.splits)

lemma await_fields:
  "await_reply i es p = (ok, err, p') \<Longrightarrow> pr_active p' = pr_active p \<and> np_reach (pr_ntp p') = np_reach (pr_ntp p)"
  by (induction i es p rule: await_reply.induct) (auto simp: closeSocket_def handle_fields split: Reply.splits)

lemma poll_fields:
  "pollOnce i p = (sent, ok, err, p') \<Longrightarrow> pr_active p' = pr_active p \<and> np_reach (pr_ntp p') = np_reach (pr_ntp p)"
  unfolding pollOnce_def ensureSocket_def Let_def
  by (auto simp: closeSocket_def dest!: connect_fields await_fields split: if_splits prod.splits)

lemma drop_fields [simp]:
  "pr_active (dropTiming p) = pr_active p" "np_reach (pr_ntp (dropTiming p)) = np_reach (pr_ntp p)"
  by (simp_all add: dropTiming_def snap_upd_def)

text \<open>What comes before the poll in a pass.\<close>

definition before_poll :: "PassInput \<Rightarrow> NtpPeer \<Rightarrow> NtpPeer" where
  "before_poll i p = look_up_again i (start_over (come_up p))"

lemma before_poll_fields [simp]:
  "pr_active (before_poll i p) = pr_active p" "np_reach (pr_ntp (before_poll i p)) = np_reach (pr_ntp p)"
proof -
  let ?q = "start_over (come_up p)"
  obtain ok err q' where c: "connectPeer i ?q = (ok, err, q')" by (metis prod_cases3)
  have "pr_active ?q = pr_active p" "np_reach (pr_ntp ?q) = np_reach (pr_ntp p)"
    by (simp_all add: start_over_def come_up_def closeSocket_def)
  then show "pr_active (before_poll i p) = pr_active p" "np_reach (pr_ntp (before_poll i p)) = np_reach (pr_ntp p)"
    using connect_fields[OF c] by (simp_all add: before_poll_def look_up_again_def c)
qed

text \<open>The outcomes of the polls of a run of passes, oldest first.\<close>

fun peer_run :: "PassInput list \<Rightarrow> NtpPeer \<Rightarrow> bool list \<times> NtpPeer" where
  "peer_run [] p = ([], p)"
| "peer_run (i # is) p =
     (let ok = fst (snd (pollOnce i (before_poll i p))); (oks, p') = peer_run is (snd (snd (run_pass i p)))
      in (ok # oks, p'))"

lemma note_poll_reach: "np_reach (pr_ntp (note_poll ok err p)) = push_bit 1 (np_reach (pr_ntp p)) OR (if ok then 1 else 0)"
  "pr_active (note_poll ok err p) = pr_active p"
  by (simp_all add: note_poll_def Let_def snap_upd_def)

lemma peer_recompute_fields: "np_reach (pr_ntp (peer_recompute now dmr p)) = np_reach (pr_ntp p)" "pr_active (peer_recompute now dmr p) = pr_active p"
  by (simp_all add: peer_recompute_def Let_def snap_upd_def split: prod.split)

lemma next_wait_fields: "np_reach (pr_ntp (snd (next_wait p))) = np_reach (pr_ntp p)" "pr_active (snd (next_wait p)) = pr_active p"
  by (simp_all add: next_wait_def Let_def split: prod.split if_split)

lemma pass_reach:
  assumes "pr_active p"
  shows "np_reach (pr_ntp (snd (snd (run_pass i p)))) =
      push_bit 1 (np_reach (pr_ntp p)) OR (if fst (snd (pollOnce i (before_poll i p))) then 1 else 0)"
    "pr_active (snd (snd (run_pass i p)))"
proof -
  obtain sent ok err p2 where po: "pollOnce i (before_poll i p) = (sent, ok, err, p2)" by (metis prod_cases4)
  have f: "pr_active p2" "np_reach (pr_ntp p2) = np_reach (pr_ntp p)" using poll_fields[OF po] assms by simp_all
  show "np_reach (pr_ntp (snd (snd (run_pass i p)))) =
      push_bit 1 (np_reach (pr_ntp p)) OR (if fst (snd (pollOnce i (before_poll i p))) then 1 else 0)"
    "pr_active (snd (snd (run_pass i p)))"
    using assms f unfolding run_pass_def before_poll_def[symmetric] Let_def po prod.case
    by (simp_all add: case_prod_unfold next_wait_fields peer_recompute_fields note_poll_reach)
qed

lemma shift_bits:
  fixes r :: octet
  assumes "\<forall>k. bit r k \<longleftrightarrow> k < 8 \<and> k < length h \<and> h ! k"
  shows "bit (push_bit 1 r OR (if ok then 1 else 0)) k \<longleftrightarrow> k < 8 \<and> k < Suc (length h) \<and> (ok # h) ! k"
proof (cases k)
  case 0
  then show ?thesis by (simp add: bit_or_iff bit_push_bit_iff bit_double_iff mult.commute[of r])
next
  case (Suc j)
  have "bit (push_bit 1 r OR (if ok then 1 else 0)) (Suc j) \<longleftrightarrow> Suc j < 8 \<and> bit r j"
    unfolding bit_or_iff bit_push_bit_iff by (auto simp: bit_1_iff)
  moreover have "bit r j \<longleftrightarrow> j < 8 \<and> j < length h \<and> h ! j" using assms by blast
  ultimately show ?thesis unfolding Suc by (simp only: nth_Cons_Suc Suc_less_eq) linarith
qed

text \<open>
  The reach register is the recent past: starting unreachable, after any run of passes
  of an active peer, bit \<open>k\<close> of the register is set exactly when the \<open>k\<close>-th last poll, of the
  last eight, was answered acceptably.
\<close>

theorem reach_is_last_eight:
  assumes "pr_active p" "np_reach (pr_ntp p) = 0" "peer_run is p = (oks, p')"
  shows "bit (np_reach (pr_ntp p')) k \<longleftrightarrow> k < 8 \<and> k < length oks \<and> rev oks ! k"
proof -
  have "\<forall>k. bit (np_reach (pr_ntp p')) k \<longleftrightarrow> k < 8 \<and> k < length (rev oks @ h) \<and> (rev oks @ h) ! k"
    if "pr_active p" "peer_run is p = (oks, p')" "\<forall>k. bit (np_reach (pr_ntp p)) k \<longleftrightarrow> k < 8 \<and> k < length h \<and> h ! k" for h
    using that
  proof (induction "is" arbitrary: p oks h)
    case (Cons i "is")
    let ?ok = "fst (snd (pollOnce i (before_poll i p)))" and ?q = "snd (snd (run_pass i p))"
    obtain oks' where r: "peer_run is ?q = (oks', p')" "oks = ?ok # oks'"
      using Cons.prems(2) by (auto simp: Let_def split: prod.splits)
    have "\<forall>k. bit (np_reach (pr_ntp ?q)) k \<longleftrightarrow> k < 8 \<and> k < length (?ok # h) \<and> (?ok # h) ! k"
      using shift_bits[OF Cons.prems(3), of ?ok] by (simp add: pass_reach(1)[OF Cons.prems(1)])
    from Cons.IH[OF pass_reach(2)[OF Cons.prems(1)] r(1) this] show ?case by (simp add: r(2))
  qed simp
  from this[of "[]"] assms show ?thesis by simp
qed

theorem reach_is_last_eight_witness:
  "bit (np_reach (pr_ntp (snd (peer_run [demo_pass] demo_peer)))) 0 \<longleftrightarrow> fst (peer_run [demo_pass] demo_peer) ! 0"
proof -
  obtain oks p' where r: "peer_run [demo_pass] demo_peer = (oks, p')" by fastforce
  then have "length oks = 1" by (auto simp: Let_def)
  then show ?thesis
    using reach_is_last_eight[OF _ _ r, of 0] r
    by (cases oks) (simp_all add: demo_peer_def mk_NtpPeer_def default_NtpPeerInfo_def Let_def)
qed

section \<open>Looking the name up again\<close>

text \<open>An answer that gives no reason to move: a failed lookup, one that still holds the address
  in use, or one no address of which can be connected to.\<close>

definition no_reason_to_move :: "PassInput \<Rightarrow> NtpPeer \<Rightarrow> bool" where
  "no_reason_to_move i p \<longleftrightarrow>
     (case pi_lookup i of Inl _ \<Rightarrow> True
      | Inr as \<Rightarrow> list_ex (\<lambda>a. ad_text a = pr_resolvedText p) as \<or> \<not> list_ex ad_connects as)"

lemma look_again_bounds: "\<not> literal \<Longrightarrow> 30 \<le> look_again literal ttl \<and> look_again literal ttl \<le> 3600"
  using clamp_bounds[of 30 3600 "real_of_int ttl"] by (simp add: look_again_def kMinResolveSec_def kReresolveSec_def)

lemma find_none: "find P xs = None \<longleftrightarrow> \<not> list_ex P xs"
  by (auto simp: find_None_iff list_ex_iff)

text \<open>
  A lookup does not disturb a connection that works: with the socket open, when the
  resolver fails, or still lists the address in use, or lists none that can be reached, the
  connection, the clock filter and the offset history stay as they are, and the next lookup
  is due no sooner than half a minute and, for a name, no later than an hour from now.
\<close>

theorem lookup_keeps_connection:
  assumes "pr_open p" "no_reason_to_move i p" "connectPeer i p = (ok, err, p')"
  shows "pr_open p' \<and> pr_resolvedText p' = pr_resolvedText p \<and> pr_filter p' = pr_filter p \<and> pr_offsets p' = pr_offsets p
    \<and> pi_mono i + 30 \<le> pr_resolveDueAt p' \<and> (pr_literal p \<or> pr_resolveDueAt p' \<le> pi_mono i + 3600)"
proof -
  have due: "30 \<le> look_again l t \<and> (l \<or> look_again l t \<le> 3600)" for l t
    using look_again_bounds[of l t] by (cases l) (auto simp: look_again_def)
  have upd: "pr_resolveDueAt (ntp_upd f q) = pr_resolveDueAt q" for f q by (simp add: ntp_upd_def snap_upd_def)
  show ?thesis
  proof (cases "pi_lookup i")
    case (Inl e)
    then show ?thesis using assms(1,3) by (auto simp: connectPeer_def Let_def kResolveRetrySec_def)
  next
    case (Inr ads)
    show ?thesis
    proof (cases ads)
      case Nil
      then show ?thesis using Inr assms(1,3) by (auto simp: connectPeer_def Let_def kResolveRetrySec_def)
    next
      case (Cons a0 ads')
      have nm: "list_ex (\<lambda>a. ad_text a = pr_resolvedText p) ads \<or> \<not> list_ex ad_connects ads"
        using assms(2) Inr by (simp add: no_reason_to_move_def)
      show ?thesis
      proof (cases "list_ex (\<lambda>a. ad_text a = pr_resolvedText p) ads")
        case True
        then show ?thesis
          using assms(1,3) Inr Cons due[of "pr_literal p" "if pr_literal p then - 1 else pi_ttl i"]
          by (auto simp: connectPeer_def Let_def upd)
      next
        case False
        then have "find ad_connects ads = None" using nm by (simp add: find_none)
        then show ?thesis
          using False assms(1,3) Inr Cons by (auto simp: connectPeer_def Let_def kResolveRetrySec_def)
      qed
    qed
  qed
qed

theorem lookup_keeps_connection_witness:
  "pr_open (snd (snd (connectPeer demo_pass demo_peer))) \<and> 40 \<le> pr_resolveDueAt (snd (snd (connectPeer demo_pass demo_peer)))"
proof -
  obtain ok err p' where c: "connectPeer demo_pass demo_peer = (ok, err, p')" by (metis prod_cases3)
  have "pr_open demo_peer" "no_reason_to_move demo_pass demo_peer" "pi_mono demo_pass = 10"
    by (simp_all add: demo_peer_def demo_pass_def no_reason_to_move_def)
  with lookup_keeps_connection[OF _ _ c] show ?thesis by (simp add: c)
qed

section \<open>Where the code departs from its account\<close>


definition denied_peer :: NtpPeer where
  "denied_peer = ntp_upd (\<lambda>n. n\<lparr>np_stopped := True\<rparr>) demo_peer\<lparr>pr_active := True, pr_resolveDueAt := 100\<rparr>"


text \<open>
  A RATE kiss can speed a peer up: the configuration allows intervals up to 4096 seconds, but
  the backoff is capped at 1024, so a peer polled every 2048 is then polled every 1024.
\<close>

lemma rate_kiss_speeds_up:
  "let p = demo_peer\<lparr>pr_cfg := demo_source\<lparr>nc_pollSeconds := 2048\<rparr>\<rparr>
   in poll_interval p = 2048 \<and> poll_interval (snd (take_kiss demo_kiss p)) = 1024"
  by (simp add: take_kiss_def demo_kiss_fields poll_interval_def demo_peer_def mk_NtpPeer_def kMaxBackoffPollSec_def clamp_def Let_def)

end
