(* ===== verification/Frame_Voter.thy ===== *)
theory Frame_Voter
  imports Civil_Time
begin

text \<open>
  The vote over a window of decoded minutes, \<^verbatim>\<open>src/src/clock/TimeFrameVoter.h\<close> and
  \<^verbatim>\<open>TimeFrameVoter.cpp\<close>: each frame of sixty symbols is decoded by the station's field maps,
  brought forward to the newest minute, and voted on bit by bit; the gates of \<^verbatim>\<open>lockVerdict\<close> decide
  whether the result may be served. The whole class is modelled. The two arrays of a frame are
  lists of sixty; the arrays indexed by field are functions of \<open>FieldIndex\<close>; the reference clock
  the configuration may hold is a flag, and what it reads an argument of the methods that read it.

  The results are in \<^verbatim>\<open>Voter_Properties\<close>.
\<close>

section \<open>Data\<close>

datatype ClockSymbol = Unknown | Zero | One | Marker

datatype ClockLockRefusal = NoRefusal | QualityFloor | Plausibility | Staleness | Contested

datatype FieldIndex = FieldMinutes | FieldHours | FieldDoy | FieldYear

definition all_fields :: "FieldIndex list" where
  "all_fields = [FieldMinutes, FieldHours, FieldDoy, FieldYear]"

record ClockBitWeight =
  bw_second :: int
  bw_weight :: int

type_synonym ClockFieldMap = "ClockBitWeight list"

record VoterConfig =
  vc_fields :: "FieldIndex \<Rightarrow> ClockFieldMap"
  vc_markerSeconds :: "int list"
  vc_window :: nat
  vc_minFramesForLock :: int
  vc_agingFactor :: real
  vc_minBitConfidence :: real
  vc_minLockQuality :: real
  vc_plausibilityBoundMinutes :: int
  vc_haveReference :: bool
  vc_maxNewestValidAge :: int

record Frame =
  fr_symbols :: "ClockSymbol list"
  fr_confidence :: "real list"

record TimeFrameVoter =
  tv_cfg :: VoterConfig
  tv_frames :: "Frame list"

record Bit =
  bit_symbol :: ClockSymbol
  bit_confidence :: real

record NormalizedFrame =
  nf_age :: nat
  nf_valid :: bool
  nf_meanConfidence :: real
  nf_ext :: TimeFields
  nf_bits :: "FieldIndex \<Rightarrow> Bit list"

record Resolution =
  rn_value :: TimeFields
  rn_quality :: real

text \<open>\<^verbatim>\<open>TimeFields{}\<close>.\<close>

definition no_TimeFields :: TimeFields where
  "no_TimeFields = \<lparr>tf_minute = -1, tf_hour = -1, tf_doy = -1, tf_year2 = -1\<rparr>"

text \<open>\<^verbatim>\<open>rawByField\<close> and \<^verbatim>\<open>extByField\<close>.\<close>

fun tf_get :: "TimeFields \<Rightarrow> FieldIndex \<Rightarrow> int" where
  "tf_get t FieldMinutes = tf_minute t"
| "tf_get t FieldHours = tf_hour t"
| "tf_get t FieldDoy = tf_doy t"
| "tf_get t FieldYear = tf_year2 t"

definition tf_of :: "(FieldIndex \<Rightarrow> int) \<Rightarrow> TimeFields" where
  "tf_of v = \<lparr>tf_minute = v FieldMinutes, tf_hour = v FieldHours, tf_doy = v FieldDoy, tf_year2 = v FieldYear\<rparr>"

section \<open>Calendar\<close>

definition agedWeight :: "real \<Rightarrow> real \<Rightarrow> nat \<Rightarrow> real" where
  "agedWeight confidence agingFactor age = max confidence (1 / 100) * agingFactor ^ age"

definition isLeapYear2 :: "int \<Rightarrow> bool" where
  "isLeapYear2 year2 \<longleftrightarrow>
     (let y = 2000 + year2 in y smod 4 = 0 \<and> (y smod 100 \<noteq> 0 \<or> y smod 400 = 0))"

definition year_len :: "int \<Rightarrow> int" where
  "year_len year2 = (if isLeapYear2 year2 then 366 else 365)"

definition minutesSince2000 :: "TimeFields \<Rightarrow> int" where
  "minutesSince2000 t =
     (let days = sum_list (map year_len [0..tf_year2 t - 1]) + (tf_doy t - 1)
      in (days * 24 + tf_hour t) * 60 + tf_minute t)"

text \<open>The loop that carries days into years.\<close>

function wrap_doy :: "int \<Rightarrow> int \<Rightarrow> int \<times> int" where
  "wrap_doy doy year2 =
     (if year_len year2 < doy then wrap_doy (doy - year_len year2) ((year2 + 1) smod 100)
      else (doy, year2))"
  by pat_completeness auto

termination
  by (relation "measure (\<lambda>(doy, _). nat doy)") (auto simp: year_len_def split: if_splits)

declare wrap_doy.simps [simp del]

definition advanceMinutes :: "TimeFields \<Rightarrow> int \<Rightarrow> TimeFields" where
  "advanceMinutes t minutes =
     (let minute = tf_minute t + minutes;
          hour = tf_hour t + minute sdiv 60;
          carryDays = hour sdiv 24;
          (doy, year2) = wrap_doy (tf_doy t + carryDays) (tf_year2 t)
      in \<lparr>tf_minute = minute smod 60, tf_hour = hour smod 24, tf_doy = doy, tf_year2 = year2\<rparr>)"

section \<open>The window\<close>

definition mk_TimeFrameVoter :: "VoterConfig \<Rightarrow> TimeFrameVoter" where
  "mk_TimeFrameVoter cfg = \<lparr>tv_cfg = cfg, tv_frames = []\<rparr>"

definition setPlausibility :: "bool \<Rightarrow> int \<Rightarrow> TimeFrameVoter \<Rightarrow> TimeFrameVoter" where
  "setPlausibility haveReference boundMinutes v =
     v\<lparr>tv_cfg := (tv_cfg v)\<lparr>vc_haveReference := haveReference, vc_plausibilityBoundMinutes := boundMinutes\<rparr>\<rparr>"

definition addFrame :: "ClockSymbol list \<Rightarrow> real list \<Rightarrow> TimeFrameVoter \<Rightarrow> TimeFrameVoter" where
  "addFrame symbols confidence v =
     (let frames = tv_frames v @ [\<lparr>fr_symbols = symbols, fr_confidence = confidence\<rparr>]
      in v\<lparr>tv_frames := drop (length frames - vc_window (tv_cfg v)) frames\<rparr>)"

definition voter_reset :: "TimeFrameVoter \<Rightarrow> TimeFrameVoter" where
  "voter_reset v = v\<lparr>tv_frames := []\<rparr>"

definition frameCount :: "TimeFrameVoter \<Rightarrow> int" where
  "frameCount v = int (length (tv_frames v))"

definition windowSize :: "TimeFrameVoter \<Rightarrow> int" where
  "windowSize v = int (vc_window (tv_cfg v))"

section \<open>Normalised frames\<close>

definition sec_ok :: "int \<Rightarrow> bool" where
  "sec_ok s \<longleftrightarrow> 0 \<le> s \<and> s < 60"

definition decodeField :: "VoterConfig \<Rightarrow> Frame \<Rightarrow> FieldIndex \<Rightarrow> int" where
  "decodeField cfg f fld =
     fold (\<lambda>bw value. if sec_ok (bw_second bw) \<and> fr_symbols f ! nat (bw_second bw) = One
                      then value + bw_weight bw else value) (vc_fields cfg fld) 0"

definition decodeMinutes :: "VoterConfig \<Rightarrow> Frame \<Rightarrow> int" where
  "decodeMinutes cfg f = decodeField cfg f FieldMinutes"

text \<open>
  The greedy encoder. \<^verbatim>\<open>std::sort\<close> may leave bits of equal weight in any order; here they keep theirs.
\<close>

fun encode_loop :: "ClockFieldMap \<Rightarrow> nat list \<Rightarrow> int \<Rightarrow> ClockSymbol list \<Rightarrow> ClockSymbol list" where
  "encode_loop m [] rem bits = bits"
| "encode_loop m (k # ks) rem bits =
     (if 0 < bw_weight (m ! k) \<and> bw_weight (m ! k) \<le> rem
      then encode_loop m ks (rem - bw_weight (m ! k)) (bits[k := One])
      else encode_loop m ks rem bits)"

definition encode_order :: "ClockFieldMap \<Rightarrow> nat list" where
  "encode_order m = sort_key (\<lambda>k. - bw_weight (m ! k)) [0..<length m]"

definition encodeField :: "ClockFieldMap \<Rightarrow> int \<Rightarrow> ClockSymbol list" where
  "encodeField m value = encode_loop m (encode_order m) value (replicate (length m) Zero)"

text \<open>The running minimum that starts at -1 for \<open>nothing yet\<close>.\<close>

definition low_conf :: "real list \<Rightarrow> real" where
  "low_conf cs = fold (\<lambda>c lo. if lo < 0 then c else min lo c) cs (-1)"

definition in_map_confidences :: "VoterConfig \<Rightarrow> Frame \<Rightarrow> FieldIndex \<Rightarrow> real list" where
  "in_map_confidences cfg f fld =
     map (\<lambda>bw. fr_confidence f ! nat (bw_second bw)) (filter (\<lambda>bw. sec_ok (bw_second bw)) (vc_fields cfg fld))"

definition fieldMinConf :: "VoterConfig \<Rightarrow> Frame \<Rightarrow> FieldIndex \<Rightarrow> real" where
  "fieldMinConf cfg f fld =
     (let lo = low_conf (in_map_confidences cfg f fld) in max (if lo < 0 then 0 else lo) (1 / 100))"

definition rawFields :: "VoterConfig \<Rightarrow> Frame \<Rightarrow> TimeFields" where
  "rawFields cfg f = tf_of (decodeField cfg f)"

definition fields_in_range :: "TimeFields \<Rightarrow> bool" where
  "fields_in_range t \<longleftrightarrow>
     0 \<le> tf_minute t \<and> tf_minute t \<le> 59 \<and> 0 \<le> tf_hour t \<and> tf_hour t \<le> 23 \<and>
     1 \<le> tf_doy t \<and> tf_doy t \<le> 366 \<and> 0 \<le> tf_year2 t \<and> tf_year2 t \<le> 99"

definition rangeValid :: "TimeFields \<Rightarrow> bool" where
  "rangeValid t \<longleftrightarrow> fields_in_range t \<and> \<not> (tf_doy t = 366 \<and> \<not> isLeapYear2 (tf_year2 t))"

definition meanConfidence :: "VoterConfig \<Rightarrow> Frame \<Rightarrow> real" where
  "meanConfidence cfg f =
     (let cs = concat (map (in_map_confidences cfg f) all_fields)
      in if cs = [] then 0 else sum_list cs / real (length cs))"

text \<open>A second's confidence, or its symbol, when the map's second is one of the frame's.\<close>

definition conf_at :: "Frame \<Rightarrow> int \<Rightarrow> real" where
  "conf_at f s = (if sec_ok s then fr_confidence f ! nat s else 0)"

definition symbol_at :: "Frame \<Rightarrow> int \<Rightarrow> ClockSymbol" where
  "symbol_at f s = (if sec_ok s then fr_symbols f ! nat s else Unknown)"

definition invalid_bits :: "VoterConfig \<Rightarrow> Frame \<Rightarrow> FieldIndex \<Rightarrow> Bit list" where
  "invalid_bits cfg f fld =
     map (\<lambda>bw. \<lparr>bit_symbol = Unknown, bit_confidence = conf_at f (bw_second bw)\<rparr>) (vc_fields cfg fld)"

definition valid_bits :: "VoterConfig \<Rightarrow> Frame \<Rightarrow> TimeFields \<Rightarrow> TimeFields \<Rightarrow> FieldIndex \<Rightarrow> Bit list" where
  "valid_bits cfg f raw ext fld =
     (if tf_get ext fld = tf_get raw fld
      then map (\<lambda>bw. \<lparr>bit_symbol = symbol_at f (bw_second bw), bit_confidence = conf_at f (bw_second bw)\<rparr>)
             (vc_fields cfg fld)
      else let w = fieldMinConf cfg f fld
           in map (\<lambda>s. \<lparr>bit_symbol = s, bit_confidence = w\<rparr>) (encodeField (vc_fields cfg fld) (tf_get ext fld)))"

definition normalize_frame :: "VoterConfig \<Rightarrow> nat \<Rightarrow> Frame \<Rightarrow> NormalizedFrame" where
  "normalize_frame cfg age f =
     (let raw = rawFields cfg f
      in if \<not> rangeValid raw
         then \<lparr>nf_age = age, nf_valid = False, nf_meanConfidence = 0, nf_ext = no_TimeFields,
               nf_bits = invalid_bits cfg f\<rparr>
         else let ext = advanceMinutes raw (int age)
              in \<lparr>nf_age = age, nf_valid = True, nf_meanConfidence = meanConfidence cfg f, nf_ext = ext,
                  nf_bits = valid_bits cfg f raw ext\<rparr>)"

definition buildNormalizedFrames :: "TimeFrameVoter \<Rightarrow> NormalizedFrame list" where
  "buildNormalizedFrames v =
     (let n = length (tv_frames v)
      in map (\<lambda>(i, f). normalize_frame (tv_cfg v) (n - 1 - i) f) (enumerate 0 (tv_frames v)))"

section \<open>The vote\<close>

record BitStat =
  bs_w0 :: real
  bs_w1 :: real
  bs_c0 :: real
  bs_c1 :: real
  bs_participation :: real

definition bitCoherent :: "BitStat \<Rightarrow> bool" where
  "bitCoherent b \<longleftrightarrow>
     bs_c0 b = bs_c1 b \<or> (bs_w0 b < bs_w1 b) = (bs_c0 b < bs_c1 b)"

definition bitMargin :: "BitStat \<Rightarrow> real" where
  "bitMargin b =
     (let total = bs_w0 b + bs_w1 b
      in if 0 < total then (max (bs_w0 b) (bs_w1 b) - min (bs_w0 b) (bs_w1 b)) / (total + 1 / 10 ^ 6) else 0)"

text \<open>The sums of one bit over the window: what votes \<open>s\<close> weighs, with and without confidence, and at best.\<close>

definition side :: "ClockSymbol \<Rightarrow> Bit \<Rightarrow> real \<Rightarrow> real" where
  "side s b x = (if bit_symbol b = s then x else 0)"

definition confW :: "real \<Rightarrow> NormalizedFrame \<Rightarrow> Bit \<Rightarrow> real" where
  "confW aging nf b = max (bit_confidence b) (1 / 100) * aging ^ nf_age nf"

definition bitStat :: "VoterConfig \<Rightarrow> NormalizedFrame list \<Rightarrow> FieldIndex \<Rightarrow> nat \<Rightarrow> BitStat" where
  "bitStat cfg frames fld k =
     (let aging = vc_agingFactor cfg; bit = (\<lambda>nf. nf_bits nf fld ! k);
          w = (\<lambda>s. sum_list (map (\<lambda>nf. side s (bit nf) (confW aging nf (bit nf))) frames));
          c = (\<lambda>s. sum_list (map (\<lambda>nf. side s (bit nf) (aging ^ nf_age nf)) frames));
          pPot = sum_list (map (\<lambda>nf. confW aging nf (bit nf)) frames);
          pAct = w One + w Zero
      in \<lparr>bs_w0 = w Zero, bs_w1 = w One, bs_c0 = c Zero, bs_c1 = c One,
          bs_participation = (if 0 < pPot then pAct / pPot else 0)\<rparr>)"

definition bestConf :: "NormalizedFrame list \<Rightarrow> FieldIndex \<Rightarrow> nat \<Rightarrow> ClockSymbol \<Rightarrow> real" where
  "bestConf frames fld k s =
     fold (\<lambda>nf best. let b = nf_bits nf fld ! k
                     in if bit_symbol b = s then max best (bit_confidence b) else best) frames 0"

definition bitTrust :: "VoterConfig \<Rightarrow> NormalizedFrame list \<Rightarrow> FieldIndex \<Rightarrow> nat \<Rightarrow> real" where
  "bitTrust cfg frames fld k =
     (let s = bitStat cfg frames fld k;
          winnerBest = bestConf frames fld k (if bs_w0 s < bs_w1 s then One else Zero);
          certified = (vc_minBitConfidence cfg \<le> 0 \<or> vc_minBitConfidence cfg \<le> winnerBest)
      in if certified then bitMargin s * bs_participation s else 0)"

fun addHeld :: "int \<Rightarrow> real \<Rightarrow> (int \<times> real) list \<Rightarrow> (int \<times> real) list" where
  "addHeld value weight [] = [(value, weight)]"
| "addHeld value weight ((x, w) # held) =
     (if x = value then (x, w + weight) # held else (x, w) # addHeld value weight held)"

definition heldWeight :: "VoterConfig \<Rightarrow> FieldIndex \<Rightarrow> NormalizedFrame \<Rightarrow> real" where
  "heldWeight cfg fld nf =
     (let fmin = low_conf (map bit_confidence (nf_bits nf fld))
      in agedWeight (if fmin < 0 then 0 else fmin) (vc_agingFactor cfg) (nf_age nf))"

definition heldValues :: "VoterConfig \<Rightarrow> NormalizedFrame list \<Rightarrow> FieldIndex \<Rightarrow> (int \<times> real) list" where
  "heldValues cfg frames fld =
     fold (\<lambda>nf held. if nf_valid nf then addHeld (tf_get (nf_ext nf) fld) (heldWeight cfg fld nf) held else held)
       frames []"

text \<open>The heaviest held value, its weight and the runner-up's.\<close>

definition top_two :: "(int \<times> real) list \<Rightarrow> int \<times> real \<times> real" where
  "top_two held =
     fold (\<lambda>(x, w) (topValue, topW, runnerW).
        if topW < w then (x, w, topW) else if runnerW < w then (topValue, topW, w) else (topValue, topW, runnerW))
       held (0, 0, 0)"

definition composeValue :: "VoterConfig \<Rightarrow> NormalizedFrame list \<Rightarrow> FieldIndex \<Rightarrow> int" where
  "composeValue cfg frames fld =
     fold (\<lambda>k value. let s = bitStat cfg frames fld k
                     in if bs_w0 s < bs_w1 s then value + bw_weight (vc_fields cfg fld ! k) else value)
       [0..<length (vc_fields cfg fld)] 0"

definition coherent_bits :: "VoterConfig \<Rightarrow> NormalizedFrame list \<Rightarrow> FieldIndex \<Rightarrow> nat list" where
  "coherent_bits cfg frames fld =
     filter (\<lambda>k. bitCoherent (bitStat cfg frames fld k)) [0..<length (vc_fields cfg fld)]"

definition minCoherentTrust :: "VoterConfig \<Rightarrow> NormalizedFrame list \<Rightarrow> FieldIndex \<Rightarrow> real" where
  "minCoherentTrust cfg frames fld =
     fold (\<lambda>k t. min t (bitTrust cfg frames fld k)) (coherent_bits cfg frames fld) 1"

definition resolveField :: "VoterConfig \<Rightarrow> NormalizedFrame list \<Rightarrow> FieldIndex \<Rightarrow> int \<times> real" where
  "resolveField cfg frames fld =
     (let held = heldValues cfg frames fld;
          allCoherent = (length (coherent_bits cfg frames fld) = length (vc_fields cfg fld));
          compose = composeValue cfg frames fld;
          trust = minCoherentTrust cfg frames fld;
          (topValue, topW, runnerW) = top_two held;
          totalHeld = sum_list (map snd held);
          valueMargin = (topW - runnerW) / (totalHeld + 1 / 10 ^ 6);
          composeHeld = list_ex (\<lambda>hv. fst hv = compose) held
      in if allCoherent \<and> composeHeld then (compose, trust) else (topValue, min valueMargin trust))"

text \<open>The frame the range guard falls back on.\<close>

definition fallback_frame :: "VoterConfig \<Rightarrow> NormalizedFrame list \<Rightarrow> NormalizedFrame option" where
  "fallback_frame cfg frames =
     fst (fold (\<lambda>nf (best, bestWeight).
        let w = agedWeight (nf_meanConfidence nf) (vc_agingFactor cfg) (nf_age nf)
        in if nf_valid nf \<and> bestWeight < w then (Some nf, w) else (best, bestWeight)) frames (None, -1))"

definition computeResolution :: "TimeFrameVoter \<Rightarrow> Resolution" where
  "computeResolution v =
     (let cfg = tv_cfg v; frames = buildNormalizedFrames v
      in if frames = [] then \<lparr>rn_value = no_TimeFields, rn_quality = 0\<rparr>
         else let res = resolveField cfg frames;
                  voted = tf_of (fst \<circ> res)
              in if \<not> fields_in_range voted
                 then \<lparr>rn_value = (case fallback_frame cfg frames of Some nf \<Rightarrow> nf_ext nf | None \<Rightarrow> no_TimeFields),
                       rn_quality = 0\<rparr>
                 else \<lparr>rn_value = voted,
                       rn_quality = min (min (snd (res FieldMinutes)) (snd (res FieldHours)))
                                        (min (snd (res FieldDoy)) (snd (res FieldYear)))\<rparr>)"

definition votedTimestamp :: "TimeFrameVoter \<Rightarrow> TimeFields" where
  "votedTimestamp v = rn_value (computeResolution v)"

definition votedField :: "TimeFrameVoter \<Rightarrow> FieldIndex \<Rightarrow> int" where
  "votedField v fld = (if tv_frames v = [] then -1 else tf_get (votedTimestamp v) fld)"

definition lastFrameMinute :: "TimeFrameVoter \<Rightarrow> int" where
  "lastFrameMinute v = (if tv_frames v = [] then -1 else decodeMinutes (tv_cfg v) (last (tv_frames v)))"

section \<open>The lock\<close>

fun increments :: "int list \<Rightarrow> int" where
  "increments (prev # cur # ms) = (if (prev + 1) smod 60 = cur then 1 else 0) + increments (cur # ms)"
| "increments ms = 0"

text \<open>Two range-valid frames that name different times.\<close>

definition contested :: "NormalizedFrame list \<Rightarrow> bool" where
  "contested frames =
     (case filter nf_valid frames of [] \<Rightarrow> False
      | first # rest \<Rightarrow> list_ex (\<lambda>nf. minutesSince2000 (nf_ext nf) \<noteq> minutesSince2000 (nf_ext first)) rest)"

definition fieldMargin :: "VoterConfig \<Rightarrow> NormalizedFrame list \<Rightarrow> FieldIndex \<Rightarrow> real" where
  "fieldMargin cfg frames fld =
     sum_list (map (\<lambda>k.
       let w = (\<lambda>s. sum_list (map (\<lambda>nf. let b = nf_bits nf fld ! k
                 in side s b (agedWeight (bit_confidence b) (vc_agingFactor cfg) (nf_age nf))) frames))
       in max (w Zero) (w One) - min (w Zero) (w One)) [0..<length (vc_fields cfg fld)])"

definition plausible :: "VoterConfig \<Rightarrow> TimeFields \<Rightarrow> TimeFields \<Rightarrow> bool" where
  "plausible cfg ref value \<longleftrightarrow>
     \<not> (0 < vc_plausibilityBoundMinutes cfg \<and> vc_haveReference cfg) \<or> \<not> fields_in_range ref \<or>
     \<bar>minutesSince2000 value - minutesSince2000 ref\<bar> \<le> vc_plausibilityBoundMinutes cfg"

definition fresh :: "VoterConfig \<Rightarrow> NormalizedFrame list \<Rightarrow> bool" where
  "fresh cfg frames \<longleftrightarrow>
     vc_maxNewestValidAge cfg < 0 \<or> list_ex (\<lambda>nf. nf_valid nf \<and> int (nf_age nf) \<le> vc_maxNewestValidAge cfg) frames"

definition lockVerdict :: "TimeFields \<Rightarrow> TimeFrameVoter \<Rightarrow> bool \<times> ClockLockRefusal" where
  "lockVerdict ref v =
     (let cfg = tv_cfg v; n = int (length (tv_frames v)) in
      if n < vc_minFramesForLock cfg then (False, NoRefusal)
      else let frames = buildNormalizedFrames v in
      if increments (map (decodeMinutes cfg) (tv_frames v)) < vc_minFramesForLock cfg - 1
      then if \<not> fresh cfg frames then (False, Staleness)
           else if contested frames then (False, Contested) else (False, NoRefusal)
      else if frames = [] \<or> \<not> fresh cfg frames then (False, Staleness)
      else if list_ex (\<lambda>fld. \<not> 0 < fieldMargin cfg frames fld) [FieldHours, FieldDoy, FieldYear]
      then (False, Contested)
      else if 0 < vc_minLockQuality cfg \<and> rn_quality (computeResolution v) < vc_minLockQuality cfg
      then (False, QualityFloor)
      else if \<not> plausible cfg ref (rn_value (computeResolution v)) then (False, Plausibility)
      else (True, NoRefusal))"

definition locked :: "TimeFields \<Rightarrow> TimeFrameVoter \<Rightarrow> bool" where
  "locked ref v = fst (lockVerdict ref v)"

definition lockRefusal :: "TimeFields \<Rightarrow> TimeFrameVoter \<Rightarrow> ClockLockRefusal" where
  "lockRefusal ref v = snd (lockVerdict ref v)"

text \<open>A floating-point division by a \<^verbatim>\<open>minFramesForLock\<close> of zero gives infinity, which saturates.\<close>

definition lockConfidence :: "TimeFrameVoter \<Rightarrow> real" where
  "lockConfidence v =
     (let n = int (length (tv_frames v)); least = vc_minFramesForLock (tv_cfg v)
      in if n < least then 0
         else if buildNormalizedFrames v = [] then 0
         else let saturation = (if least = 0 then 1 else min 1 (of_int n / (2 * of_int least)))
              in clamp (rn_quality (computeResolution v) * saturation) 0 1)"

end
