(* ===== verification/Station_Frames.thy ===== *)
theory Station_Frames
  imports Frame_Voter
begin

text \<open>
  How the decoders of \<^verbatim>\<open>src/src/clock\<close> use the voter: the field map of each station, the voter's
  configuration, and the frame a decoder makes of a minute it has decoded. WWV is voted on as it is
  broadcast (\<^verbatim>\<open>WwvDecoder.cpp\<close>), and so is WWVB (\<^verbatim>\<open>WwvbDecoder.cpp\<close>). DCF77, MSF and Allouis broadcast
  local time: their decoders convert a minute to UTC and hand the voter a frame in WWVB's layout
  (\<^verbatim>\<open>Dcf77Decoder.cpp\<close>, \<^verbatim>\<open>MsfDecoder.cpp\<close>, \<^verbatim>\<open>AllouisDecoder.cpp\<close>, each with its own copy of the maps).
\<close>

section \<open>Field maps\<close>

definition bw :: "int \<Rightarrow> int \<Rightarrow> ClockBitWeight" where
  "bw s w = \<lparr>bw_second = s, bw_weight = w\<rparr>"

definition kMin :: ClockFieldMap where
  "kMin = [bw 10 1, bw 11 2, bw 12 4, bw 13 8, bw 15 10, bw 16 20, bw 17 40]"

definition kHr :: ClockFieldMap where
  "kHr = [bw 20 1, bw 21 2, bw 22 4, bw 23 8, bw 25 10, bw 26 20]"

definition kDoy :: ClockFieldMap where
  "kDoy = [bw 30 1, bw 31 2, bw 32 4, bw 33 8, bw 35 10, bw 36 20, bw 37 40, bw 38 80, bw 40 100, bw 41 200]"

definition kYr :: ClockFieldMap where
  "kYr = [bw 4 1, bw 5 2, bw 6 4, bw 7 8, bw 51 10, bw 52 20, bw 53 40, bw 54 80]"

definition kVMin :: ClockFieldMap where
  "kVMin = [bw 1 40, bw 2 20, bw 3 10, bw 5 8, bw 6 4, bw 7 2, bw 8 1]"

definition kVHour :: ClockFieldMap where
  "kVHour = [bw 12 20, bw 13 10, bw 15 8, bw 16 4, bw 17 2, bw 18 1]"

definition kVDoy :: ClockFieldMap where
  "kVDoy = [bw 22 200, bw 23 100, bw 25 80, bw 26 40, bw 27 20, bw 28 10, bw 30 8, bw 31 4, bw 32 2, bw 33 1]"

definition kVYear :: ClockFieldMap where
  "kVYear = [bw 45 80, bw 46 40, bw 47 20, bw 48 10, bw 50 8, bw 51 4, bw 52 2, bw 53 1]"

definition kVoterMarkers :: "int list" where
  "kVoterMarkers = [0, 9, 19, 29, 39, 49, 59]"

text \<open>\<^verbatim>\<open>c.fields[...] = ...\<close> for the four fields.\<close>

fun four_maps :: "ClockFieldMap \<Rightarrow> ClockFieldMap \<Rightarrow> ClockFieldMap \<Rightarrow> ClockFieldMap \<Rightarrow> FieldIndex \<Rightarrow> ClockFieldMap" where
  "four_maps a b c d FieldMinutes = a"
| "four_maps a b c d FieldHours = b"
| "four_maps a b c d FieldDoy = c"
| "four_maps a b c d FieldYear = d"

section \<open>Configurations\<close>

definition default_VoterConfig :: VoterConfig where
  "default_VoterConfig = \<lparr>vc_fields = \<lambda>_. [], vc_markerSeconds = [], vc_window = 8, vc_minFramesForLock = 2,
     vc_agingFactor = 9 / 10, vc_minBitConfidence = 0, vc_minLockQuality = 0, vc_plausibilityBoundMinutes = 0,
     vc_haveReference = False, vc_maxNewestValidAge = 3\<rparr>"

definition wwv_voterConfig :: VoterConfig where
  "wwv_voterConfig = default_VoterConfig\<lparr>vc_fields := four_maps kMin kHr kDoy kYr, vc_markerSeconds := [9, 19, 29, 39, 49, 59],
     vc_window := 8, vc_minFramesForLock := 2, vc_agingFactor := 9 / 10, vc_minBitConfidence := 5 / 100, vc_minLockQuality := 5 / 100\<rparr>"

definition wwvb_voterConfig :: VoterConfig where
  "wwvb_voterConfig = default_VoterConfig\<lparr>vc_fields := four_maps
       [bw 1 40, bw 2 20, bw 3 10, bw 5 8, bw 6 4, bw 7 2, bw 8 1]
       [bw 12 20, bw 13 10, bw 15 8, bw 16 4, bw 17 2, bw 18 1]
       [bw 22 200, bw 23 100, bw 25 80, bw 26 40, bw 27 20, bw 28 10, bw 30 8, bw 31 4, bw 32 2, bw 33 1]
       [bw 45 80, bw 46 40, bw 47 20, bw 48 10, bw 50 8, bw 51 4, bw 52 2, bw 53 1],
     vc_markerSeconds := [0, 9, 19, 29, 39, 49, 59], vc_minBitConfidence := 5 / 100, vc_minLockQuality := 5 / 100\<rparr>"

definition dcf77_voterConfig :: VoterConfig where
  "dcf77_voterConfig = default_VoterConfig\<lparr>vc_fields := four_maps kVMin kVHour kVDoy kVYear,
     vc_markerSeconds := kVoterMarkers, vc_minBitConfidence := 5 / 100, vc_minLockQuality := 5 / 100\<rparr>"

definition msf_voterConfig :: VoterConfig where
  "msf_voterConfig = default_VoterConfig\<lparr>vc_fields := four_maps kVMin kVHour kVDoy kVYear,
     vc_markerSeconds := kVoterMarkers, vc_minBitConfidence := 5 / 100, vc_minLockQuality := 5 / 100\<rparr>"

definition allouis_voterConfig :: VoterConfig where
  "allouis_voterConfig = default_VoterConfig\<lparr>vc_fields := four_maps kVMin kVHour kVDoy kVYear,
     vc_markerSeconds := kVoterMarkers, vc_minBitConfidence := 5 / 100, vc_minLockQuality := 5 / 100\<rparr>"

section \<open>Synthetic frames\<close>

text \<open>The lambda \<^verbatim>\<open>encode\<close>: the value's bits, heaviest first, each with the field's confidence.\<close>

fun syn_encode :: "int \<Rightarrow> ClockFieldMap \<Rightarrow> real \<Rightarrow> Frame \<Rightarrow> Frame" where
  "syn_encode v [] c f = f"
| "syn_encode v (b # m) c f =
     (let one = bw_weight b \<le> v; s = nat (bw_second b)
      in syn_encode (if one then v - bw_weight b else v) m c
           (f\<lparr>fr_symbols := (fr_symbols f)[s := if one then One else Zero], fr_confidence := (fr_confidence f)[s := c]\<rparr>))"

definition blank_frame :: Frame where
  "blank_frame = \<lparr>fr_symbols = fold (\<lambda>m syms. syms[nat m := Marker]) kVoterMarkers (replicate 60 Unknown),
     fr_confidence = replicate 60 0\<rparr>"

text \<open>
  The frame of a minute: blank when it did not decode; otherwise its UTC fields, each with a
  confidence. MSF and Allouis give all four the same, DCF77 the minute and the hour their own.
\<close>

definition synthetic_frame :: "(TimeFields \<times> (FieldIndex \<Rightarrow> real)) option \<Rightarrow> Frame" where
  "synthetic_frame dec =
     (case dec of None \<Rightarrow> blank_frame
      | Some (utc, c) \<Rightarrow>
          syn_encode (tf_year2 utc) kVYear (c FieldYear)
            (syn_encode (tf_doy utc) kVDoy (c FieldDoy)
              (syn_encode (tf_hour utc) kVHour (c FieldHours)
                (syn_encode (tf_minute utc) kVMin (c FieldMinutes) blank_frame))))"

end
