(* ===== verification/Voter_Properties.thy ===== *)
theory Voter_Properties
  imports Station_Frames
begin

text \<open>
  What the vote promises: minutes advance as the Gregorian calendar does; re-encoding a value gives
  bits that decode to it; the voted time is, field by field, one that a range-valid frame of the
  window names for the newest minute, and the one that the heavier camp names when the camps are
  unequal; and a lock means recent, consecutive and uncontested evidence within the configured
  distance of the reference clock.
\<close>

section \<open>The calendar\<close>

text \<open>The instant a timestamp names.\<close>

definition utc_of :: "TimeFields \<Rightarrow> int" where
  "utc_of t = utcMsFromFields (tf_year2 t) (tf_doy t) (tf_hour t) (tf_minute t)"

abbreviation new_year :: "int \<Rightarrow> int" where
  "new_year y \<equiv> daysFromCivil (2000 + y) 1 1"

lemma isLeapYear2_iff: "-2000 \<le> y \<Longrightarrow> isLeapYear2 y \<longleftrightarrow> leap_year (2000 + y)"
  by (simp add: isLeapYear2_def leap_year_def Let_def smod_nonneg)

lemma year_len_bounds: "365 \<le> year_len y" "year_len y \<le> 366"
  by (simp_all add: year_len_def)

lemma new_year_next:
  assumes "-2000 \<le> y"
  shows "new_year (y + 1) = new_year y + year_len y"
  using year_day0_next[of "2000 + y - 1"] assms
  by (simp add: daysFromCivil_day0 shifted_year_def year_len_def isLeapYear2_iff add.assoc[symmetric])

lemma sum_year_lens:
  assumes "0 \<le> y"
  shows "sum_list (map year_len [0..y - 1]) = new_year y - new_year 0"
  using assms
proof (induction y rule: int_ge_induct)
  case (step y)
  have "[0..y + 1 - 1] = [0..y - 1] @ [y]" using step.hyps upto_rec2[of 0 y] by simp
  with step new_year_next[of y] show ?case by simp
qed simp

lemma minutesSince2000_utc:
  assumes "0 \<le> tf_year2 t"
  shows "minutesSince2000 t * 60000 = utc_of t - utcMsFromFields 0 1 0 0"
  using sum_year_lens[OF assms] by (simp add: minutesSince2000_def utc_of_def utcMsFromFields_def Let_def algebra_simps)

lemma wrap_doy_valid:
  assumes "wrap_doy doy y = (d', y')" "1 \<le> doy" "0 \<le> y" "y \<le> 99"
  shows "1 \<le> d' \<and> d' \<le> year_len y' \<and> 0 \<le> y' \<and> y' \<le> 99"
  using assms
proof (induction doy y rule: wrap_doy.induct)
  case (1 doy y)
  show ?case
  proof (cases "year_len y < doy")
    case True
    have "0 \<le> (y + 1) smod 100 \<and> (y + 1) smod 100 \<le> 99" using 1 by (simp add: smod_nonneg)
    with True 1 show ?thesis by (simp add: wrap_doy.simps[of doy y])
  next
    case False
    with 1 show ?thesis by (simp add: wrap_doy.simps[of doy y])
  qed
qed

lemma wrap_doy_days:
  assumes "wrap_doy doy y = (d', y')" "1 \<le> doy" "0 \<le> y" "y \<le> 99" "new_year y + doy \<le> new_year 100"
  shows "new_year y' + d' = new_year y + doy"
  using assms
proof (induction doy y rule: wrap_doy.induct)
  case (1 doy y)
  show ?case
  proof (cases "year_len y < doy")
    case True
    have n: "new_year (y + 1) = new_year y + year_len y" using new_year_next[of y] 1 by simp
    have "y \<noteq> 99" using 1(6) n True by auto
    then have "(y + 1) smod 100 = y + 1" using 1 by (simp add: smod_nonneg)
    with True 1 n \<open>y \<noteq> 99\<close> show ?thesis by (simp add: wrap_doy.simps[of doy y])
  next
    case False
    with 1 show ?thesis by (simp add: wrap_doy.simps[of doy y])
  qed
qed

lemma rangeValid_iff:
  "rangeValid t \<longleftrightarrow> 0 \<le> tf_minute t \<and> tf_minute t \<le> 59 \<and> 0 \<le> tf_hour t \<and> tf_hour t \<le> 23 \<and>
     1 \<le> tf_doy t \<and> tf_doy t \<le> year_len (tf_year2 t) \<and> 0 \<le> tf_year2 t \<and> tf_year2 t \<le> 99"
  by (auto simp: rangeValid_def fields_in_range_def year_len_def)

lemma advance_parts:
  assumes "rangeValid t" "0 \<le> k"
  obtains d y where "wrap_doy (tf_doy t + (tf_hour t * 60 + tf_minute t + k) div 1440) (tf_year2 t) = (d, y)"
    "advanceMinutes t k = \<lparr>tf_minute = (tf_hour t * 60 + tf_minute t + k) mod 60,
       tf_hour = (tf_hour t * 60 + tf_minute t + k) div 60 mod 24, tf_doy = d, tf_year2 = y\<rparr>"
proof -
  obtain d y where w: "wrap_doy (tf_doy t + (tf_hour t * 60 + tf_minute t + k) div 1440) (tf_year2 t) = (d, y)" by fastforce
  have nn: "0 \<le> tf_minute t" "0 \<le> tf_hour t" using assms by (auto simp: rangeValid_iff)
  define m where "m = tf_minute t + k"
  have m0: "0 \<le> m" using nn assms by (simp add: m_def)
  have s: "tf_hour t * 60 + tf_minute t + k = m + tf_hour t * 60" by (simp add: m_def)
  have h: "tf_hour t + m div 60 = (m + tf_hour t * 60) div 60" by simp
  have q: "(m + tf_hour t * 60) div 60 div 24 = (m + tf_hour t * 60) div 1440" by (simp add: div_mult2_eq[symmetric])
  have h0: "0 \<le> tf_hour t + m div 60" using nn m0 by (simp add: pos_imp_zdiv_nonneg_iff)
  have "advanceMinutes t k = \<lparr>tf_minute = m mod 60, tf_hour = (tf_hour t + m div 60) mod 24, tf_doy = d, tf_year2 = y\<rparr>"
    using w m0 h0 unfolding advanceMinutes_def s h[symmetric] q[symmetric]
    by (simp add: Let_def m_def[symmetric] sdiv_nonneg smod_nonneg)
  then show thesis using that[OF w] unfolding s h by simp
qed

lemma advance_valid:
  assumes "rangeValid t" "0 \<le> k"
  shows "rangeValid (advanceMinutes t k)"
proof -
  obtain d y where w: "wrap_doy (tf_doy t + (tf_hour t * 60 + tf_minute t + k) div 1440) (tf_year2 t) = (d, y)"
    and a: "advanceMinutes t k = \<lparr>tf_minute = (tf_hour t * 60 + tf_minute t + k) mod 60,
       tf_hour = (tf_hour t * 60 + tf_minute t + k) div 60 mod 24, tf_doy = d, tf_year2 = y\<rparr>"
    using advance_parts[OF assms] by blast
  have t: "0 \<le> tf_minute t" "0 \<le> tf_hour t" "1 \<le> tf_doy t" "0 \<le> tf_year2 t" "tf_year2 t \<le> 99"
    using assms by (auto simp: rangeValid_iff)
  have "0 \<le> (tf_hour t * 60 + tf_minute t + k) div 1440" using t assms by (simp add: pos_imp_zdiv_nonneg_iff)
  with wrap_doy_valid[OF w] t show ?thesis by (simp add: rangeValid_iff a) (smt (verit) pos_mod_bound pos_mod_sign)
qed

lemma advance_utc:
  assumes "rangeValid t" "0 \<le> k" "utc_of t + k * 60000 < utcMsFromFields 100 1 0 0"
  shows "utc_of (advanceMinutes t k) = utc_of t + k * 60000"
proof -
  define s where "s = tf_hour t * 60 + tf_minute t + k"
  obtain d y where w: "wrap_doy (tf_doy t + s div 1440) (tf_year2 t) = (d, y)"
    and a: "advanceMinutes t k = \<lparr>tf_minute = s mod 60, tf_hour = s div 60 mod 24, tf_doy = d, tf_year2 = y\<rparr>"
    using advance_parts[OF assms(1,2)] unfolding s_def by blast
  have t: "0 \<le> tf_minute t" "0 \<le> tf_hour t" "1 \<le> tf_doy t" "0 \<le> tf_year2 t" "tf_year2 t \<le> 99"
    using assms by (auto simp: rangeValid_iff)
  have s0: "0 \<le> s div 1440" using t assms by (simp add: s_def pos_imp_zdiv_nonneg_iff)
  have before: "utc_of t + k * 60000 = ((new_year (tf_year2 t) + (tf_doy t - 1)) * 1440 + s) * 60000"
    by (simp add: utc_of_def utcMsFromFields_def s_def Let_def algebra_simps)
  then have "(new_year (tf_year2 t) + (tf_doy t - 1)) * 1440 + s < new_year 100 * 1440"
    using assms(3) by (simp add: utcMsFromFields_def)
  then have "new_year (tf_year2 t) + (tf_doy t + s div 1440) \<le> new_year 100"
    using mult_div_mod_eq[of 1440 s] pos_mod_sign[of 1440 s] by simp
  from wrap_doy_days[OF w _ t(4,5) this] t(3) s0
  have days: "new_year y + d = new_year (tf_year2 t) + (tf_doy t + s div 1440)" by simp
  have "s = 1440 * (s div 1440) + s mod 1440" by simp
  moreover have "s mod 1440 = 60 * (s div 60 mod 24) + s mod 60"
    using zmod_zmult2_eq[of 24 s 60] by simp
  ultimately have "utc_of (advanceMinutes t k) = ((new_year (tf_year2 t) + (tf_doy t - 1)) * 1440 + s) * 60000"
    using days by (simp add: utc_of_def utcMsFromFields_def a Let_def algebra_simps)
  with before show ?thesis by simp
qed

lemma advance_zero:
  assumes "rangeValid t"
  shows "advanceMinutes t 0 = t"
proof -
  have "wrap_doy (tf_doy t) (tf_year2 t) = (tf_doy t, tf_year2 t)"
    using assms by (simp add: wrap_doy.simps[of "tf_doy t"] rangeValid_iff)
  moreover have "tf_hour t div 24 = 0" "tf_minute t div 60 = 0" using assms by (simp_all add: rangeValid_iff)
  ultimately show ?thesis using assms by (simp add: advanceMinutes_def Let_def sdiv_nonneg smod_nonneg rangeValid_iff)
qed

text \<open>
  Bringing a frame forward is calendar arithmetic: from any date a broadcast can name, moving on
  by any number of minutes that stays within the century of the two-digit year gives a date a
  broadcast can name, and the instant it names, by the daemon's own conversion to UTC, is exactly
  that many minutes later. Leap years and every carry are covered.
\<close>

theorem advance_is_calendar:
  assumes "rangeValid t" "0 \<le> k" "utc_of t + k * 60000 < utcMsFromFields 100 1 0 0"
  shows "rangeValid (advanceMinutes t k) \<and> utc_of (advanceMinutes t k) = utc_of t + k * 60000"
  using advance_valid[OF assms(1,2)] advance_utc[OF assms] by simp

theorem advance_is_calendar_witness:
  "rangeValid (advanceMinutes \<lparr>tf_minute = 58, tf_hour = 23, tf_doy = 366, tf_year2 = 24\<rparr> 3)
   \<and> utc_of (advanceMinutes \<lparr>tf_minute = 58, tf_hour = 23, tf_doy = 366, tf_year2 = 24\<rparr> 3)
     = utc_of \<lparr>tf_minute = 58, tf_hour = 23, tf_doy = 366, tf_year2 = 24\<rparr> + 3 * 60000"
proof (rule advance_is_calendar)
  show "rangeValid \<lparr>tf_minute = 58, tf_hour = 23, tf_doy = 366, tf_year2 = 24\<rparr>" by code_simp
  show "utc_of \<lparr>tf_minute = 58, tf_hour = 23, tf_doy = 366, tf_year2 = 24\<rparr> + 3 * 60000 < utcMsFromFields 100 1 0 0"
    by code_simp
qed simp

section \<open>Re-encoding a field\<close>

text \<open>The value a list of bits stands for under a field map.\<close>

definition bits_value :: "ClockFieldMap \<Rightarrow> ClockSymbol list \<Rightarrow> int" where
  "bits_value m bits = (\<Sum>k = 0..<length m. if bits ! k = One then bw_weight (m ! k) else 0)"

text \<open>
  Weights that reach every value up to their sum: none exceeds by more than one what the lighter
  ones add up to. The binary-coded decimal weights of all stations are of this kind.
\<close>

fun complete_weights :: "int list \<Rightarrow> bool" where
  "complete_weights [] = True"
| "complete_weights (w # ws) = (0 < w \<and> w \<le> 1 + sum_list ws \<and> complete_weights ws)"

definition complete_map :: "ClockFieldMap \<Rightarrow> bool" where
  "complete_map m = complete_weights (map (\<lambda>k. bw_weight (m ! k)) (encode_order m))"

definition map_total :: "ClockFieldMap \<Rightarrow> int" where
  "map_total m = sum_list (map bw_weight m)"

lemma encode_loop_length [simp]: "length (encode_loop m ks rem bits) = length bits"
  by (induction m ks rem bits rule: encode_loop.induct) auto

lemma encode_loop_other: "k \<notin> set ks \<Longrightarrow> encode_loop m ks rem bits ! k = bits ! k"
  by (induction m ks rem bits rule: encode_loop.induct) auto

lemma encode_loop_binary:
  "set bits \<subseteq> {Zero, One} \<Longrightarrow> set (encode_loop m ks rem bits) \<subseteq> {Zero, One}"
proof (induction m ks rem bits rule: encode_loop.induct)
  case (2 m k ks rem bits)
  have "set (bits[k := One]) \<subseteq> {Zero, One}" using 2(3) set_update_subset_insert[of bits k One] by blast
  with 2 show ?case by simp
qed simp

lemma bits_value_set:
  assumes "k < length m" "length bits = length m" "bits ! k = Zero"
  shows "bits_value m (bits[k := One]) = bits_value m bits + bw_weight (m ! k)"
proof -
  let ?f = "\<lambda>b j. if b ! j = One then bw_weight (m ! j) else 0"
  have "bits_value m (bits[k := One]) = ?f (bits[k := One]) k + (\<Sum>j \<in> {0..<length m} - {k}. ?f (bits[k := One]) j)"
    unfolding bits_value_def using assms(1) by (subst sum.remove[of _ k]) auto
  also have "(\<Sum>j \<in> {0..<length m} - {k}. ?f (bits[k := One]) j) = (\<Sum>j \<in> {0..<length m} - {k}. ?f bits j)"
    by (rule sum.cong) auto
  also have "\<dots> = bits_value m bits - ?f bits k"
    unfolding bits_value_def using assms(1) by (subst sum.remove[of "{0..<length m}" k]) auto
  finally show ?thesis using assms by simp
qed

lemma complete_sum_nonneg: "complete_weights ws \<Longrightarrow> 0 \<le> sum_list ws"
  by (induction ws) auto

lemma encode_loop_value:
  assumes "complete_weights (map (\<lambda>k. bw_weight (m ! k)) ks)" "0 \<le> rem" "rem \<le> sum_list (map (\<lambda>k. bw_weight (m ! k)) ks)"
    "distinct ks" "\<forall>k \<in> set ks. k < length m \<and> bits ! k = Zero" "length bits = length m"
  shows "bits_value m (encode_loop m ks rem bits) = bits_value m bits + rem"
  using assms
proof (induction m ks rem bits rule: encode_loop.induct)
  case (2 m k ks rem bits)
  have k: "k < length m" "bits ! k = Zero" "k \<notin> set ks" using 2(6,7) by auto
  show ?case
  proof (cases "bw_weight (m ! k) \<le> rem")
    case True
    have "bits_value m (encode_loop m ks (rem - bw_weight (m ! k)) (bits[k := One]))
        = bits_value m (bits[k := One]) + (rem - bw_weight (m ! k))"
      using 2 True k by (intro 2(1)) (auto simp: nth_list_update)
    with True 2(3) bits_value_set[OF k(1) 2(8) k(2)] show ?thesis by simp
  next
    case False
    then have "bits_value m (encode_loop m ks rem bits) = bits_value m bits + rem"
      using 2 by (intro 2(2)) auto
    with False show ?thesis by simp
  qed
qed simp

lemma encode_order_props [simp]: "distinct (encode_order m)" "set (encode_order m) = {0..<length m}"
  by (simp_all add: encode_order_def)

lemma encode_order_total: "sum_list (map (\<lambda>k. bw_weight (m ! k)) (encode_order m)) = map_total m"
proof -
  have "sum_list (map (\<lambda>k. bw_weight (m ! k)) (encode_order m)) = sum_list (map (\<lambda>k. bw_weight (m ! k)) [0..<length m])"
    by (simp add: sum_list_distinct_conv_sum_set)
  also have "map (\<lambda>k. bw_weight (m ! k)) [0..<length m] = map bw_weight m"
    by (rule nth_equalityI) auto
  finally show ?thesis by (simp add: map_total_def)
qed

lemma encodeField_length [simp]: "length (encodeField m x) = length m"
  by (simp add: encodeField_def)

lemma encodeField_binary: "k < length m \<Longrightarrow> encodeField m x ! k \<in> {Zero, One}"
proof -
  assume "k < length m"
  moreover have "set (encodeField m x) \<subseteq> {Zero, One}"
    unfolding encodeField_def by (rule encode_loop_binary) auto
  ultimately show ?thesis by (metis encodeField_length nth_mem subsetD)
qed

lemma encodeField_value:
  assumes "complete_map m" "0 \<le> x" "x \<le> map_total m"
  shows "bits_value m (encodeField m x) = x"
proof -
  have "bits_value m (replicate (length m) Zero) = 0" by (simp add: bits_value_def)
  with encode_loop_value[of m "encode_order m" x "replicate (length m) Zero"] assms
  show ?thesis by (simp add: encodeField_def complete_map_def encode_order_total)
qed

lemma fold_add_sum: "fold (\<lambda>x (acc::int). if P x then acc + f x else acc) xs a = a + sum_list (map (\<lambda>x. if P x then f x else 0) xs)"
  by (induction xs arbitrary: a) auto

lemma decodeField_sum:
  "decodeField cfg f fld = sum_list (map (\<lambda>bw. if symbol_at f (bw_second bw) = One then bw_weight bw else 0) (vc_fields cfg fld))"
proof -
  have "decodeField cfg f fld = 0 + sum_list (map (\<lambda>bw. if sec_ok (bw_second bw) \<and> fr_symbols f ! nat (bw_second bw) = One
      then bw_weight bw else 0) (vc_fields cfg fld))"
    unfolding decodeField_def by (rule fold_add_sum)
  also have "map (\<lambda>bw. if sec_ok (bw_second bw) \<and> fr_symbols f ! nat (bw_second bw) = One then bw_weight bw else 0) (vc_fields cfg fld)
      = map (\<lambda>bw. if symbol_at f (bw_second bw) = One then bw_weight bw else 0) (vc_fields cfg fld)"
    by (simp add: symbol_at_def)
  finally show ?thesis by simp
qed

lemma decode_encoded:
  assumes "complete_map (vc_fields cfg fld)" "0 \<le> x" "x \<le> map_total (vc_fields cfg fld)"
    "map (\<lambda>bw. symbol_at f (bw_second bw)) (vc_fields cfg fld) = encodeField (vc_fields cfg fld) x"
  shows "decodeField cfg f fld = x"
proof -
  let ?m = "vc_fields cfg fld"
  have "decodeField cfg f fld = (\<Sum>k = 0..<length ?m. if symbol_at f (bw_second (?m ! k)) = One then bw_weight (?m ! k) else 0)"
    by (simp add: decodeField_sum sum_list_sum_nth)
  also have "\<dots> = bits_value ?m (encodeField ?m x)"
    unfolding bits_value_def assms(4)[symmetric] by (rule sum.cong) auto
  finally show ?thesis using encodeField_value[OF assms(1-3)] by simp
qed

section \<open>Held values\<close>

lemma agedWeight_pos: "0 < a \<Longrightarrow> 0 < agedWeight c a n"
  by (simp add: agedWeight_def less_max_iff_disj)

lemma heldWeight_pos: "0 < vc_agingFactor cfg \<Longrightarrow> 0 < heldWeight cfg fld nf"
  by (simp add: heldWeight_def Let_def agedWeight_pos)

lemma addHeld_keys: "fst ` set (addHeld x w h) = insert x (fst ` set h)"
  by (induction x w h rule: addHeld.induct) auto

lemma addHeld_distinct: "distinct (map fst h) \<Longrightarrow> distinct (map fst (addHeld x w h))"
proof (induction x w h rule: addHeld.induct)
  case (2 x w y u h)
  have "y \<notin> fst ` set (addHeld x w h)" if "y \<noteq> x" using 2(2) that by (auto simp: addHeld_keys)
  with 2 show ?case by auto
qed simp

definition weight_of :: "int \<Rightarrow> (int \<times> real) list \<Rightarrow> real" where
  "weight_of x h = sum_list (map (\<lambda>(y, w). if y = x then w else 0) h)"

lemma weight_of_simps [simp]:
  "weight_of x [] = 0" "weight_of x ((y, w) # h) = (if y = x then w else 0) + weight_of x h"
  by (simp_all add: weight_of_def)

lemma weight_of_addHeld: "weight_of y (addHeld x w h) = weight_of y h + (if x = y then w else 0)"
  by (induction x w h rule: addHeld.induct) auto

lemma weight_of_key: "weight_of x h \<noteq> 0 \<Longrightarrow> x \<in> fst ` set h"
  by (induction h) (auto split: if_splits)

lemma weight_of_member: "distinct (map fst h) \<Longrightarrow> (x, w) \<in> set h \<Longrightarrow> weight_of x h = w"
proof (induction h)
  case (Cons p h)
  have z: "weight_of x h = 0" if "x \<notin> fst ` set h" for x
    unfolding weight_of_def using that by (induction h) (auto simp: image_iff)
  from Cons show ?case by (cases p) (auto simp: z image_iff)
qed simp

definition voters :: "FieldIndex \<Rightarrow> int \<Rightarrow> NormalizedFrame \<Rightarrow> bool" where
  "voters fld x nf \<longleftrightarrow> nf_valid nf \<and> tf_get (nf_ext nf) fld = x"

lemma heldValues_snoc:
  "heldValues cfg (frames @ [nf]) fld =
     (if nf_valid nf then addHeld (tf_get (nf_ext nf) fld) (heldWeight cfg fld nf) (heldValues cfg frames fld)
      else heldValues cfg frames fld)"
  by (simp add: heldValues_def)

lemma heldValues_distinct: "distinct (map fst (heldValues cfg frames fld))"
  by (induction frames rule: rev_induct) (auto simp: heldValues_snoc addHeld_distinct heldValues_def[of _ "[]"])

lemma heldValues_keys: "fst ` set (heldValues cfg frames fld) = {tf_get (nf_ext nf) fld |nf. nf \<in> set frames \<and> nf_valid nf}"
  by (induction frames rule: rev_induct) (auto simp: heldValues_snoc addHeld_keys heldValues_def[of _ "[]"])

lemma heldValues_weight:
  "weight_of x (heldValues cfg frames fld) = sum_list (map (heldWeight cfg fld) (filter (voters fld x) frames))"
  by (induction frames rule: rev_induct) (auto simp: heldValues_snoc weight_of_addHeld voters_def heldValues_def[of _ "[]"])

lemma addHeld_pos: "\<forall>p \<in> set h. 0 < snd p \<Longrightarrow> 0 < w \<Longrightarrow> \<forall>p \<in> set (addHeld x w h). 0 < snd p"
  by (induction x w h rule: addHeld.induct) auto

lemma heldValues_pos:
  assumes "0 < vc_agingFactor cfg"
  shows "\<forall>p \<in> set (heldValues cfg frames fld). 0 < snd p"
proof (induction frames rule: rev_induct)
  case (snoc nf frames)
  then show ?case using addHeld_pos[OF _ heldWeight_pos[OF assms]] by (simp add: heldValues_snoc)
qed (simp add: heldValues_def)

lemma top_two_snoc:
  "top_two (h @ [p]) = (case (p, top_two h) of ((x, w), (topValue, topW, runnerW)) \<Rightarrow>
     if topW < w then (x, w, topW) else if runnerW < w then (topValue, topW, w) else (topValue, topW, runnerW))"
  by (simp add: top_two_def split: prod.splits)

lemma top_two_max:
  assumes "top_two h = (x, w, r)" "h \<noteq> []" "\<forall>p \<in> set h. 0 < snd p"
  shows "(x, w) \<in> set h \<and> (\<forall>p \<in> set h. snd p \<le> w)"
  using assms
proof (induction h arbitrary: x w r rule: rev_induct)
  case (snoc p h)
  show ?case
  proof (cases "h = []")
    case True
    with snoc.prems show ?thesis by (cases p) (auto simp: top_two_def split: if_splits)
  next
    case False
    obtain x' w' r' where t: "top_two h = (x', w', r')" by (cases "top_two h") auto
    with snoc.IH[OF t False] snoc.prems(3) have "(x', w') \<in> set h \<and> (\<forall>p \<in> set h. snd p \<le> w')" by auto
    with snoc.prems(1) t show ?thesis by (cases p) (fastforce simp: top_two_snoc split: if_splits)
  qed
qed simp

lemma resolveField_held:
  assumes "0 < vc_agingFactor cfg" "nf \<in> set frames" "nf_valid nf"
  shows "\<exists>nf \<in> set frames. voters fld (fst (resolveField cfg frames fld)) nf"
proof -
  let ?h = "heldValues cfg frames fld"
  obtain x w r where t: "top_two ?h = (x, w, r)" by (cases "top_two ?h") auto
  have ne: "?h \<noteq> []" using heldValues_keys[of cfg frames fld] assms(2,3) by auto
  have "x \<in> fst ` set ?h" using top_two_max[OF t ne heldValues_pos[OF assms(1)]] by force
  then have "fst (resolveField cfg frames fld) \<in> fst ` set ?h"
    by (force simp: resolveField_def Let_def t list_ex_iff)
  then show ?thesis unfolding heldValues_keys voters_def by auto
qed

section \<open>The voted time\<close>

lemma length_buildNormalizedFrames [simp]: "length (buildNormalizedFrames v) = length (tv_frames v)"
  by (simp add: buildNormalizedFrames_def Let_def)

lemma buildNormalizedFrames_nth:
  "i < length (tv_frames v) \<Longrightarrow>
     buildNormalizedFrames v ! i = normalize_frame (tv_cfg v) (length (tv_frames v) - 1 - i) (tv_frames v ! i)"
  by (simp add: buildNormalizedFrames_def Let_def nth_enumerate_eq)

lemma normalize_frame_simps:
  "nf_valid (normalize_frame cfg n f) \<longleftrightarrow> rangeValid (rawFields cfg f)"
  "nf_age (normalize_frame cfg n f) = n"
  "rangeValid (rawFields cfg f) \<Longrightarrow> nf_ext (normalize_frame cfg n f) = advanceMinutes (rawFields cfg f) (int n)"
  by (simp_all add: normalize_frame_def Let_def)

lemma fallback_fold:
  assumes "0 < vc_agingFactor cfg"
  defines "step \<equiv> \<lambda>nf (best, bestWeight).
        let w = agedWeight (nf_meanConfidence nf) (vc_agingFactor cfg) (nf_age nf)
        in if nf_valid nf \<and> bestWeight < w then (Some nf, w) else (best, bestWeight)"
  shows "(case fold step frames (None, -1) of
     (None, w) \<Rightarrow> w = -1 \<and> filter nf_valid frames = [] | (Some nf, w) \<Rightarrow> nf \<in> set frames \<and> nf_valid nf)"
proof (induction frames rule: rev_induct)
  case (snoc nf frames)
  obtain b w where f: "fold step frames (None, -1) = (b, w)" by fastforce
  have "- 1 < agedWeight (nf_meanConfidence nf) (vc_agingFactor cfg) (nf_age nf)"
    using agedWeight_pos[OF assms(1), of "nf_meanConfidence nf" "nf_age nf"] by linarith
  with snoc f show ?case by (cases b) (auto simp: step_def Let_def)
qed simp

lemma fallback_frame_valid:
  assumes "0 < vc_agingFactor cfg" "nf \<in> set frames" "nf_valid nf"
  obtains nf' where "fallback_frame cfg frames = Some nf'" "nf' \<in> set frames" "nf_valid nf'"
proof -
  have "filter nf_valid frames \<noteq> []" using assms(2,3) by (auto simp: filter_empty_conv)
  with fallback_fold[OF assms(1), of frames] that show thesis
    unfolding fallback_frame_def by (auto split: prod.splits option.splits)
qed

lemma voted_held:
  assumes "0 < vc_agingFactor (tv_cfg v)" "nf \<in> set (buildNormalizedFrames v)" "nf_valid nf"
  shows "\<exists>nf \<in> set (buildNormalizedFrames v). voters fld (tf_get (votedTimestamp v) fld) nf"
proof -
  let ?fs = "buildNormalizedFrames v"
  have ne: "?fs \<noteq> []" using assms(2) by auto
  obtain nf' where fb: "fallback_frame (tv_cfg v) ?fs = Some nf'" "nf' \<in> set ?fs" "nf_valid nf'"
    using fallback_frame_valid[OF assms] .
  show ?thesis
  proof (cases "fields_in_range (tf_of (fst \<circ> resolveField (tv_cfg v) ?fs))")
    case True
    then have "tf_get (votedTimestamp v) fld = fst (resolveField (tv_cfg v) ?fs fld)"
      using ne by (cases fld) (simp_all add: votedTimestamp_def computeResolution_def Let_def tf_of_def)
    with resolveField_held[OF assms] show ?thesis by simp
  next
    case False
    then have "votedTimestamp v = nf_ext nf'"
      using ne fb by (simp add: votedTimestamp_def computeResolution_def Let_def)
    with fb show ?thesis by (auto simp: voters_def)
  qed
qed

text \<open>
  C35: No phantom times: as long as one frame of the window decodes to a possible date, every field
  of the voted timestamp is the value that some such frame, brought forward to the newest minute,
  names. The bits of different frames are never put together into a value nobody sent. In
  particular the vote is exact whenever the frames that decode at all agree.
\<close>

theorem voted_fields_were_held:
  assumes "0 < vc_agingFactor (tv_cfg v)" "i < length (tv_frames v)" "rangeValid (rawFields (tv_cfg v) (tv_frames v ! i))"
  shows "\<exists>j < length (tv_frames v). rangeValid (rawFields (tv_cfg v) (tv_frames v ! j)) \<and>
     tf_get (votedTimestamp v) fld =
     tf_get (advanceMinutes (rawFields (tv_cfg v) (tv_frames v ! j)) (int (length (tv_frames v) - 1 - j))) fld"
proof -
  let ?fs = "buildNormalizedFrames v"
  have "?fs ! i \<in> set ?fs" using assms(2) by (intro nth_mem) simp
  moreover have "nf_valid (?fs ! i)" using assms by (simp add: buildNormalizedFrames_nth normalize_frame_simps)
  ultimately obtain nf where "nf \<in> set ?fs" "voters fld (tf_get (votedTimestamp v) fld) nf"
    using voted_held[OF assms(1)] by blast
  then obtain j where "j < length (tv_frames v)" "voters fld (tf_get (votedTimestamp v) fld) (?fs ! j)"
    by (auto simp: in_set_conv_nth)
  then show ?thesis by (auto simp: voters_def buildNormalizedFrames_nth normalize_frame_simps)
qed

section \<open>The heavier camp\<close>

text \<open>A frame that names the time \<open>T\<close> for the newest minute, in every bit of every field.\<close>

definition spells :: "VoterConfig \<Rightarrow> TimeFields \<Rightarrow> NormalizedFrame \<Rightarrow> bool" where
  "spells cfg T nf \<longleftrightarrow> nf_valid nf \<and> nf_ext nf = T \<and>
     list_all (\<lambda>fld. map bit_symbol (nf_bits nf fld) = encodeField (vc_fields cfg fld) (tf_get T fld)) all_fields"

text \<open>
  The frames that name \<open>T\<close> outweigh the others: on every bit, the weakest bits of the former weigh
  more than everything the latter say.
\<close>

definition outweighs :: "VoterConfig \<Rightarrow> NormalizedFrame list \<Rightarrow> TimeFields \<Rightarrow> bool" where
  "outweighs cfg frames T \<longleftrightarrow>
     list_all (\<lambda>fld. list_all (\<lambda>k.
        sum_list (map (\<lambda>nf. confW (vc_agingFactor cfg) nf (nf_bits nf fld ! k)) (filter (\<lambda>nf. \<not> spells cfg T nf) frames))
        < sum_list (map (heldWeight cfg fld) (filter (spells cfg T) frames))) [0..<length (vc_fields cfg fld)]) all_fields"

text \<open>Field maps that can hold the time, with at least one bit each.\<close>

definition fits :: "VoterConfig \<Rightarrow> TimeFields \<Rightarrow> bool" where
  "fits cfg T \<longleftrightarrow> fields_in_range T \<and> list_all (\<lambda>fld. complete_map (vc_fields cfg fld) \<and> vc_fields cfg fld \<noteq> [] \<and>
     tf_get T fld \<le> map_total (vc_fields cfg fld)) all_fields"

lemma set_all_fields [simp]: "set all_fields = UNIV"
proof -
  have "fld \<in> set all_fields" for fld by (cases fld) (simp_all add: all_fields_def)
  then show ?thesis by auto
qed

lemma all_fields_iff: "list_all P all_fields \<longleftrightarrow> (\<forall>fld. P fld)"
  by (simp add: list_all_iff)

lemma fits_field:
  assumes "fits cfg T"
  shows "complete_map (vc_fields cfg fld)" "vc_fields cfg fld \<noteq> []" "0 \<le> tf_get T fld" "tf_get T fld \<le> map_total (vc_fields cfg fld)"
proof -
  have r: "fields_in_range T" and m: "\<forall>fld. complete_map (vc_fields cfg fld) \<and> vc_fields cfg fld \<noteq> [] \<and>
     tf_get T fld \<le> map_total (vc_fields cfg fld)" using assms by (auto simp: fits_def all_fields_iff)
  from m show "complete_map (vc_fields cfg fld)" "vc_fields cfg fld \<noteq> []" "tf_get T fld \<le> map_total (vc_fields cfg fld)"
    by blast+
  from r show "0 \<le> tf_get T fld" by (cases fld) (simp_all add: fields_in_range_def)
qed

lemma low_conf_acc:
  assumes "\<forall>c \<in> set cs. 0 \<le> c" "0 \<le> a"
  shows "fold (\<lambda>c lo. if lo < 0 then c else min lo c) cs a \<le> a \<and> 0 \<le> fold (\<lambda>c lo. if lo < 0 then c else min lo c) cs a
    \<and> (\<forall>c \<in> set cs. fold (\<lambda>c lo. if lo < 0 then c else min lo c) cs a \<le> (c :: real))"
  using assms
proof (induction cs arbitrary: a)
  case (Cons c cs)
  then have "0 \<le> min a c" by simp
  with Cons.IH[OF _ this] Cons.prems show ?case by (auto simp: not_less)
qed simp

lemma low_conf_le:
  assumes "\<forall>c \<in> set cs. 0 \<le> c" "c \<in> set cs"
  shows "0 \<le> low_conf cs \<and> low_conf cs \<le> c"
  using assms
proof (cases cs)
  case (Cons a as)
  with assms low_conf_acc[of as a] show ?thesis by (auto simp: low_conf_def)
qed simp

lemma heldWeight_le:
  assumes "0 < vc_agingFactor cfg" "\<forall>b \<in> set (nf_bits nf fld). 0 \<le> bit_confidence b" "k < length (nf_bits nf fld)"
  shows "heldWeight cfg fld nf \<le> confW (vc_agingFactor cfg) nf (nf_bits nf fld ! k)"
proof -
  have "low_conf (map bit_confidence (nf_bits nf fld)) \<le> bit_confidence (nf_bits nf fld ! k)"
    "0 \<le> low_conf (map bit_confidence (nf_bits nf fld))"
    using low_conf_le[of "map bit_confidence (nf_bits nf fld)" "bit_confidence (nf_bits nf fld ! k)"] assms(2,3) by auto
  then show ?thesis
    using assms(1) by (auto simp: heldWeight_def Let_def agedWeight_def confW_def intro!: mult_right_mono)
qed

lemma confW_pos: "0 < a \<Longrightarrow> 0 < confW a nf b"
  by (simp add: confW_def less_max_iff_disj)

lemma sum_list_filter_mono:
  fixes f g :: "'a \<Rightarrow> real"
  assumes "\<And>x. x \<in> set xs \<Longrightarrow> P x \<Longrightarrow> Q x \<and> f x \<le> g x" "\<And>x. x \<in> set xs \<Longrightarrow> Q x \<Longrightarrow> 0 \<le> g x"
  shows "sum_list (map f (filter P xs)) \<le> sum_list (map g (filter Q xs))"
  unfolding sum_list_map_filter'
  by (rule sum_list_mono) (use assms in auto)

lemma side_sum: "sum_list (map (\<lambda>nf. side s (b nf) (w nf)) xs) = sum_list (map w (filter (\<lambda>nf. bit_symbol (b nf) = s) xs))"
  by (simp add: side_def sum_list_map_filter')

text \<open>Frames as \<^verbatim>\<open>buildNormalizedFrames\<close> makes them from arrays of confidences that are not negative.\<close>

definition frames_ok :: "VoterConfig \<Rightarrow> NormalizedFrame list \<Rightarrow> bool" where
  "frames_ok cfg frames \<longleftrightarrow> list_all (\<lambda>nf. list_all (\<lambda>fld. length (nf_bits nf fld) = length (vc_fields cfg fld) \<and>
     list_all (\<lambda>b. 0 \<le> bit_confidence b) (nf_bits nf fld)) all_fields) frames"

lemma frames_okD:
  assumes "frames_ok cfg frames" "nf \<in> set frames"
  shows "length (nf_bits nf fld) = length (vc_fields cfg fld)" "\<forall>b \<in> set (nf_bits nf fld). 0 \<le> bit_confidence b"
  using assms by (auto simp: frames_ok_def all_fields_iff list_all_iff)

lemma spells_bit:
  assumes "spells cfg T nf" "k < length (vc_fields cfg fld)"
  shows "bit_symbol (nf_bits nf fld ! k) = encodeField (vc_fields cfg fld) (tf_get T fld) ! k"
proof -
  have e: "map bit_symbol (nf_bits nf fld) = encodeField (vc_fields cfg fld) (tf_get T fld)"
    using assms(1) by (simp add: spells_def all_fields_iff)
  then have "length (nf_bits nf fld) = length (vc_fields cfg fld)" by (metis encodeField_length length_map)
  with e assms(2) show ?thesis by (metis nth_map)
qed

text \<open>On every bit the camp's side wins.\<close>

lemma camp_bit:
  assumes ok: "frames_ok cfg frames" and a: "0 < vc_agingFactor cfg" and o: "outweighs cfg frames T"
    and k: "k < length (vc_fields cfg fld)"
  shows "(bs_w0 (bitStat cfg frames fld k) < bs_w1 (bitStat cfg frames fld k))
     \<longleftrightarrow> encodeField (vc_fields cfg fld) (tf_get T fld) ! k = One"
proof -
  let ?e = "encodeField (vc_fields cfg fld) (tf_get T fld) ! k"
  let ?w = "\<lambda>nf. confW (vc_agingFactor cfg) nf (nf_bits nf fld ! k)"
  let ?W = "\<lambda>s. sum_list (map ?w (filter (\<lambda>nf. bit_symbol (nf_bits nf fld ! k) = s) frames))"
  have pos: "0 \<le> ?w nf" for nf using confW_pos[OF a, of nf] by (simp add: less_imp_le)
  have "?W s \<le> sum_list (map ?w (filter (\<lambda>nf. \<not> spells cfg T nf) frames))" if "s \<noteq> ?e" for s
    using that spells_bit[OF _ k] by (intro sum_list_filter_mono) (auto simp: pos)
  moreover have "sum_list (map (heldWeight cfg fld) (filter (spells cfg T) frames)) \<le> ?W ?e"
    using frames_okD[OF ok] heldWeight_le[OF a] k spells_bit[OF _ k] by (intro sum_list_filter_mono) (auto simp: pos)
  moreover have "sum_list (map ?w (filter (\<lambda>nf. \<not> spells cfg T nf) frames))
      < sum_list (map (heldWeight cfg fld) (filter (spells cfg T) frames))"
    using o k by (simp add: outweighs_def all_fields_iff list_all_iff)
  ultimately have "?W s < ?W ?e" if "s \<noteq> ?e" for s using that by fastforce
  from this[of Zero] this[of One] encodeField_binary[OF k, of "tf_get T fld"] show ?thesis
    by (auto simp: bitStat_def Let_def side_sum)
qed

lemma camp_held:
  assumes ok: "frames_ok cfg frames" and a: "0 < vc_agingFactor cfg" and o: "outweighs cfg frames T"
    and ft: "fits cfg T" and t: "top_two (heldValues cfg frames fld) = (x, w, r)"
  shows "x = tf_get T fld"
proof (rule ccontr)
  let ?h = "heldValues cfg frames fld" and ?m = "vc_fields cfg fld"
  assume "x \<noteq> tf_get T fld"
  have k: "0 < length ?m" using fits_field(2)[OF ft, of fld] by simp
  let ?bad = "sum_list (map (\<lambda>nf. confW (vc_agingFactor cfg) nf (nf_bits nf fld ! 0)) (filter (\<lambda>nf. \<not> spells cfg T nf) frames))"
  let ?good = "sum_list (map (heldWeight cfg fld) (filter (spells cfg T) frames))"
  have lt: "?bad < ?good" using o k by (simp add: outweighs_def all_fields_iff list_all_iff)
  have bad: "weight_of y ?h \<le> ?bad" if "y \<noteq> tf_get T fld" for y
    unfolding heldValues_weight using that frames_okD[OF ok] heldWeight_le[OF a] k
    by (intro sum_list_filter_mono) (auto simp: voters_def spells_def less_imp_le confW_pos[OF a])
  have good: "?good \<le> weight_of (tf_get T fld) ?h"
    unfolding heldValues_weight by (intro sum_list_filter_mono) (auto simp: voters_def spells_def less_imp_le heldWeight_pos[OF a])
  have "0 \<le> ?bad" using confW_pos[OF a] by (intro sum_list_nonneg) (auto simp: less_imp_le)
  with lt good have "weight_of (tf_get T fld) ?h \<noteq> 0" by linarith
  then have "tf_get T fld \<in> fst ` set ?h" by (rule weight_of_key)
  then obtain u where u: "(tf_get T fld, u) \<in> set ?h" by auto
  then have "?h \<noteq> []" by auto
  from top_two_max[OF t this heldValues_pos[OF a]] u have "(x, w) \<in> set ?h" "u \<le> w" by auto
  with weight_of_member[OF heldValues_distinct] u have "weight_of x ?h = w" "weight_of (tf_get T fld) ?h = u" by auto
  with bad[OF \<open>x \<noteq> tf_get T fld\<close>] good lt \<open>u \<le> w\<close> show False by linarith
qed

lemma composeValue_sum:
  "composeValue cfg frames fld = (\<Sum>k = 0..<length (vc_fields cfg fld).
     if bs_w0 (bitStat cfg frames fld k) < bs_w1 (bitStat cfg frames fld k) then bw_weight (vc_fields cfg fld ! k) else 0)"
  unfolding composeValue_def Let_def fold_add_sum by (simp add: sum_list_distinct_conv_sum_set)

lemma camp_resolves:
  assumes "frames_ok cfg frames" "0 < vc_agingFactor cfg" "outweighs cfg frames T" "fits cfg T"
  shows "fst (resolveField cfg frames fld) = tf_get T fld"
proof -
  let ?m = "vc_fields cfg fld"
  obtain x w r where t: "top_two (heldValues cfg frames fld) = (x, w, r)" by (cases "top_two (heldValues cfg frames fld)") auto
  have "composeValue cfg frames fld = bits_value ?m (encodeField ?m (tf_get T fld))"
    unfolding composeValue_sum bits_value_def using camp_bit[OF assms(1-3)] by (intro sum.cong) auto
  also have "\<dots> = tf_get T fld" using encodeField_value fits_field[OF assms(4)] by blast
  finally show ?thesis using camp_held[OF assms t] by (auto simp: resolveField_def Let_def t)
qed

lemma tf_of_get: "tf_of (tf_get T) = T"
  by (simp add: tf_of_def)

text \<open>Frames as they come: sixty confidences, none negative.\<close>

definition arrays_ok :: "TimeFrameVoter \<Rightarrow> bool" where
  "arrays_ok v \<longleftrightarrow> list_all (\<lambda>f. length (fr_confidence f) = 60 \<and> length (fr_symbols f) = 60 \<and> list_all (\<lambda>c. 0 \<le> c) (fr_confidence f)) (tv_frames v)"

lemma conf_at_nonneg:
  assumes "length (fr_confidence f) = 60" "list_all (\<lambda>c. 0 \<le> c) (fr_confidence f)"
  shows "0 \<le> conf_at f s"
  using assms by (auto simp: conf_at_def sec_ok_def list_all_length)

lemma normalize_frame_ok:
  assumes "length (fr_confidence f) = 60" "list_all (\<lambda>c. 0 \<le> c) (fr_confidence f)"
  shows "length (nf_bits (normalize_frame cfg n f) fld) = length (vc_fields cfg fld)"
    and "\<forall>b \<in> set (nf_bits (normalize_frame cfg n f) fld). 0 \<le> bit_confidence b"
  using conf_at_nonneg[OF assms]
  by (auto simp: normalize_frame_def Let_def invalid_bits_def valid_bits_def fieldMinConf_def)

lemma frames_ok_build: "arrays_ok v \<Longrightarrow> frames_ok (tv_cfg v) (buildNormalizedFrames v)"
proof -
  assume a: "arrays_ok v"
  have "length (nf_bits nf fld) = length (vc_fields (tv_cfg v) fld) \<and> (\<forall>b \<in> set (nf_bits nf fld). 0 \<le> bit_confidence b)"
    if nf: "nf \<in> set (buildNormalizedFrames v)" for nf fld
  proof -
    obtain i where i: "i < length (tv_frames v)" "nf = buildNormalizedFrames v ! i"
      using nf by (auto simp: in_set_conv_nth)
    have "length (fr_confidence (tv_frames v ! i)) = 60" "list_all (\<lambda>c. 0 \<le> c) (fr_confidence (tv_frames v ! i))"
      using a i(1) by (auto simp: arrays_ok_def list_all_length)
    then show ?thesis using normalize_frame_ok i by (simp add: buildNormalizedFrames_nth)
  qed
  then show ?thesis by (simp add: frames_ok_def list_all_iff)
qed

lemma camp_voted:
  assumes "arrays_ok v" "0 < vc_agingFactor (tv_cfg v)" "fits (tv_cfg v) T"
    "outweighs (tv_cfg v) (buildNormalizedFrames v) T"
  shows "votedTimestamp v = T"
proof -
  let ?fs = "buildNormalizedFrames v" and ?cfg = "tv_cfg v"
  have r: "fst (resolveField ?cfg ?fs fld) = tf_get T fld" for fld
    using camp_resolves[OF frames_ok_build assms(2,4,3)] assms(1) .
  then have "fst \<circ> resolveField ?cfg ?fs = tf_get T" by auto
  moreover have "0 < length (vc_fields ?cfg FieldDoy)" using fits_field(2)[OF assms(3)] by simp
  then have "?fs \<noteq> []" using assms(4) unfolding outweighs_def all_fields_iff list_all_iff by fastforce
  ultimately show ?thesis
    using assms(3) by (simp add: votedTimestamp_def computeResolution_def Let_def tf_of_get fits_def)
qed

text \<open>
  A corrupted minority does not move the vote. If the frames that name a time for the newest
  minute outweigh all the others on every bit, by the weakest of their own bits, the voted
  timestamp is that time, whatever the others hold: misread bits, other dates or garbage.
\<close>

theorem heavier_camp_wins:
  assumes "arrays_ok v" "0 < vc_agingFactor (tv_cfg v)" "fits (tv_cfg v) T"
    "outweighs (tv_cfg v) (buildNormalizedFrames v) T"
  shows "votedTimestamp v = T"
  using assms by (rule camp_voted)

text \<open>A window across a new year, its middle frame misread with less confidence.\<close>

definition sample_time :: TimeFields where
  "sample_time = \<lparr>tf_minute = 1, tf_hour = 0, tf_doy = 1, tf_year2 = 26\<rparr>"

definition sample_frames :: "Frame list" where
  "sample_frames =
     [synthetic_frame (Some (\<lparr>tf_minute = 59, tf_hour = 23, tf_doy = 365, tf_year2 = 25\<rparr>, \<lambda>_. 1 / 2)),
      synthetic_frame (Some (\<lparr>tf_minute = 19, tf_hour = 3, tf_doy = 101, tf_year2 = 45\<rparr>, \<lambda>_. 1 / 10)),
      synthetic_frame (Some (sample_time, \<lambda>_. 1 / 2))]"

definition sample_window :: TimeFrameVoter where
  "sample_window = \<lparr>tv_cfg = dcf77_voterConfig, tv_frames = sample_frames\<rparr>"

lemma sample_outweighs: "outweighs dcf77_voterConfig (buildNormalizedFrames sample_window) sample_time"
proof -
  let ?c = dcf77_voterConfig and ?n = "\<lambda>i. normalize_frame dcf77_voterConfig (2 - i) (sample_frames ! i)"
  have b: "buildNormalizedFrames sample_window = [?n 0, ?n 1, ?n 2]"
    by (simp add: buildNormalizedFrames_def sample_window_def sample_frames_def numeral_2_eq_2)
  have s: "spells ?c sample_time (?n 0)" "\<not> spells ?c sample_time (?n 1)" "spells ?c sample_time (?n 2)" by code_simp+
  have a: "0 < vc_agingFactor ?c" by code_simp
  have "list_all (\<lambda>fld. 1 / 2 \<le> heldWeight ?c fld (?n 2)) all_fields" by code_simp
  then have good: "1 / 2 < heldWeight ?c fld (?n 0) + heldWeight ?c fld (?n 2)" for fld
    using heldWeight_pos[OF a, of fld "?n 0"] unfolding all_fields_iff by (smt (verit))
  have "list_all (\<lambda>fld. list_all (\<lambda>k. confW (vc_agingFactor ?c) (?n 1) (nf_bits (?n 1) fld ! k) \<le> 1 / 2)
      [0..<length (vc_fields ?c fld)]) all_fields" by code_simp
  then have bad: "confW (vc_agingFactor ?c) (?n 1) (nf_bits (?n 1) fld ! k) \<le> 1 / 2" if "k < length (vc_fields ?c fld)" for fld k
    using that unfolding all_fields_iff list_all_iff by simp
  have "confW (vc_agingFactor ?c) (?n 1) (nf_bits (?n 1) fld ! k) < heldWeight ?c fld (?n 0) + heldWeight ?c fld (?n 2)"
    if "k < length (vc_fields ?c fld)" for fld k using order_le_less_trans[OF bad[OF that] good] .
  then show ?thesis unfolding outweighs_def all_fields_iff list_all_iff b using s by (simp del: One_nat_def)
qed

theorem heavier_camp_wins_witness: "votedTimestamp sample_window = sample_time"
proof (rule heavier_camp_wins)
  show "arrays_ok sample_window" by code_simp
  show "0 < vc_agingFactor (tv_cfg sample_window)" by code_simp
  show "fits (tv_cfg sample_window) sample_time" by code_simp
  show "outweighs (tv_cfg sample_window) (buildNormalizedFrames sample_window) sample_time"
    using sample_outweighs by (simp add: sample_window_def)
qed

theorem voted_fields_were_held_witness:
  "\<exists>j < length (tv_frames sample_window). rangeValid (rawFields (tv_cfg sample_window) (tv_frames sample_window ! j)) \<and>
     tf_get (votedTimestamp sample_window) FieldDoy =
     tf_get (advanceMinutes (rawFields (tv_cfg sample_window) (tv_frames sample_window ! j))
       (int (length (tv_frames sample_window) - 1 - j))) FieldDoy"
proof (rule voted_fields_were_held)
  show "0 < vc_agingFactor (tv_cfg sample_window)" by code_simp
  show "0 < length (tv_frames sample_window)" by code_simp
  show "rangeValid (rawFields (tv_cfg sample_window) (tv_frames sample_window ! 0))" by code_simp
qed

end
