(* ===== verification/Voter_Lock.thy ===== *)
theory Voter_Lock
  imports Voter_Properties
begin

text \<open>
  What a lock means: the gates of \<^verbatim>\<open>TimeFrameVoter::lockVerdict\<close>. A locked window holds consecutive
  minutes, one of them recent and possible as a date, and its time is near the reference clock;
  a window whose bits are agreed only by noise does not lock; a window of clean consecutive
  minutes does. A lemma at the end shows a window whose vote names a day its year does not have.
\<close>

section \<open>What a lock means\<close>

lemma locked_gates:
  assumes "locked ref v"
  shows "vc_minFramesForLock (tv_cfg v) \<le> int (length (tv_frames v))"
    "vc_minFramesForLock (tv_cfg v) - 1 \<le> increments (map (decodeMinutes (tv_cfg v)) (tv_frames v))"
    "fresh (tv_cfg v) (buildNormalizedFrames v)"
    "\<And>fld. fld \<in> {FieldHours, FieldDoy, FieldYear} \<Longrightarrow> 0 < fieldMargin (tv_cfg v) (buildNormalizedFrames v) fld"
    "0 < vc_minLockQuality (tv_cfg v) \<Longrightarrow> vc_minLockQuality (tv_cfg v) \<le> rn_quality (computeResolution v)"
    "plausible (tv_cfg v) ref (votedTimestamp v)"
  using assms by (auto simp: locked_def lockVerdict_def votedTimestamp_def Let_def split: if_splits)

lemma invalid_no_vote:
  assumes "nf \<in> set (buildNormalizedFrames v)" "\<not> nf_valid nf" "k < length (vc_fields (tv_cfg v) fld)"
  shows "bit_symbol (nf_bits nf fld ! k) = Unknown"
proof -
  obtain i where "i < length (tv_frames v)" "nf = buildNormalizedFrames v ! i" using assms(1) by (auto simp: in_set_conv_nth)
  with assms(2,3) show ?thesis
    by (simp add: buildNormalizedFrames_nth normalize_frame_def Let_def invalid_bits_def split: if_splits)
qed

lemma side_sum_zero:
  assumes "\<And>nf. nf \<in> set frames \<Longrightarrow> bit_symbol (b nf) \<noteq> s"
  shows "sum_list (map (\<lambda>nf. side s (b nf) (w nf)) frames) = 0"
  unfolding side_sum using assms by (simp add: filter_False)

lemma margin_needs_valid:
  assumes "0 < fieldMargin (tv_cfg v) (buildNormalizedFrames v) fld"
  shows "\<exists>nf \<in> set (buildNormalizedFrames v). nf_valid nf"
proof (rule ccontr)
  assume n: "\<not> ?thesis"
  have z: "sum_list (map (\<lambda>nf. side s (nf_bits nf fld ! k) (w nf)) (buildNormalizedFrames v)) = 0"
    if "k < length (vc_fields (tv_cfg v) fld)" "s \<noteq> Unknown" for k s w
    using n invalid_no_vote that by (intro side_sum_zero) auto
  have "fieldMargin (tv_cfg v) (buildNormalizedFrames v) fld = sum_list (map (\<lambda>_. 0) [0..<length (vc_fields (tv_cfg v) fld)])"
    unfolding fieldMargin_def Let_def by (intro arg_cong[where f = sum_list] map_cong) (simp_all add: z)
  with assms show False by simp
qed

lemma locked_valid_frame:
  assumes "locked ref v"
  obtains nf where "nf \<in> set (buildNormalizedFrames v)" "nf_valid nf"
  using margin_needs_valid locked_gates(4)[OF assms, of FieldHours] by blast

lemma built_ext_valid:
  assumes "nf \<in> set (buildNormalizedFrames v)" "nf_valid nf"
  shows "rangeValid (nf_ext nf)"
proof -
  obtain i where "i < length (tv_frames v)" "nf = buildNormalizedFrames v ! i" using assms(1) by (auto simp: in_set_conv_nth)
  with assms(2) advance_valid show ?thesis by (simp add: buildNormalizedFrames_nth normalize_frame_simps)
qed

lemma voted_in_range:
  assumes "0 < vc_agingFactor (tv_cfg v)" "nf \<in> set (buildNormalizedFrames v)" "nf_valid nf"
  shows "fields_in_range (votedTimestamp v)"
proof -
  have ne: "buildNormalizedFrames v \<noteq> []" using assms(2) by auto
  obtain nf' where "fallback_frame (tv_cfg v) (buildNormalizedFrames v) = Some nf'"
    "nf' \<in> set (buildNormalizedFrames v)" "nf_valid nf'" using fallback_frame_valid[OF assms] .
  then have "fields_in_range (nf_ext nf')" using built_ext_valid by (auto simp: rangeValid_def)
  with ne \<open>fallback_frame _ _ = _\<close> show ?thesis by (simp add: votedTimestamp_def computeResolution_def Let_def)
qed

text \<open>
  C34: What a lock certifies. A locked voter holds at least the configured number of frames, enough
  adjacent ones a minute apart; one of its newest frames decodes to a possible date, so a window
  is never carried on by stale frames while garbage arrives; the voted fields are in range; and
  where a reference clock is armed, the instant voted is within the configured number of minutes
  of it.
\<close>

theorem lock_certifies:
  assumes "locked ref v" "0 < vc_agingFactor (tv_cfg v)" "0 \<le> vc_maxNewestValidAge (tv_cfg v)"
    "vc_haveReference (tv_cfg v)" "0 < vc_plausibilityBoundMinutes (tv_cfg v)" "fields_in_range ref"
  shows "vc_minFramesForLock (tv_cfg v) \<le> int (length (tv_frames v))
    \<and> vc_minFramesForLock (tv_cfg v) - 1 \<le> increments (map (decodeMinutes (tv_cfg v)) (tv_frames v))
    \<and> (\<exists>i < length (tv_frames v). rangeValid (rawFields (tv_cfg v) (tv_frames v ! i))
         \<and> int (length (tv_frames v) - 1 - i) \<le> vc_maxNewestValidAge (tv_cfg v))
    \<and> fields_in_range (votedTimestamp v)
    \<and> \<bar>utc_of (votedTimestamp v) - utc_of ref\<bar> \<le> vc_plausibilityBoundMinutes (tv_cfg v) * 60000"
proof (intro conjI)
  note g = locked_gates[OF assms(1)]
  show "vc_minFramesForLock (tv_cfg v) \<le> int (length (tv_frames v))"
    "vc_minFramesForLock (tv_cfg v) - 1 \<le> increments (map (decodeMinutes (tv_cfg v)) (tv_frames v))" by (fact g)+
  obtain nf where nf: "nf \<in> set (buildNormalizedFrames v)" "nf_valid nf" "int (nf_age nf) \<le> vc_maxNewestValidAge (tv_cfg v)"
    using g(3) assms(3) by (auto simp: fresh_def list_ex_iff)
  then obtain i where "i < length (tv_frames v)" "nf = buildNormalizedFrames v ! i" by (auto simp: in_set_conv_nth)
  with nf show "\<exists>i < length (tv_frames v). rangeValid (rawFields (tv_cfg v) (tv_frames v ! i))
         \<and> int (length (tv_frames v) - 1 - i) \<le> vc_maxNewestValidAge (tv_cfg v)"
    by (auto simp: buildNormalizedFrames_nth normalize_frame_simps)
  show r: "fields_in_range (votedTimestamp v)" using voted_in_range[OF assms(2) nf(1,2)] .
  have "\<bar>minutesSince2000 (votedTimestamp v) - minutesSince2000 ref\<bar> \<le> vc_plausibilityBoundMinutes (tv_cfg v)"
    using g(6) assms(4-6) by (simp add: plausible_def)
  then have "\<bar>minutesSince2000 (votedTimestamp v) * 60000 - minutesSince2000 ref * 60000\<bar> \<le> vc_plausibilityBoundMinutes (tv_cfg v) * 60000"
    by linarith
  then show "\<bar>utc_of (votedTimestamp v) - utc_of ref\<bar> \<le> vc_plausibilityBoundMinutes (tv_cfg v) * 60000"
    using r assms(6) by (simp add: minutesSince2000_utc fields_in_range_def)
qed

section \<open>Noise\<close>

lemma fold_min_le: "fold (\<lambda>k t. min t (f k)) ks (a::real) \<le> a"
proof (induction ks arbitrary: a)
  case (Cons k ks)
  from this[of "min a (f k)"] show ?case by simp
qed simp

lemma fold_min_le_elem: "k \<in> set ks \<Longrightarrow> fold (\<lambda>k t. min t (f k)) ks (a::real) \<le> f k"
proof (induction ks arbitrary: a)
  case (Cons j ks)
  have "fold (\<lambda>k t. min t (f k)) ks (min a (f j)) \<le> f j" using fold_min_le[of f ks "min a (f j)"] by simp
  with Cons show ?case by auto
qed simp

lemma fold_min_ge: "b \<le> a \<Longrightarrow> \<forall>k \<in> set ks. b \<le> f k \<Longrightarrow> (b::real) \<le> fold (\<lambda>k t. min t (f k)) ks a"
  by (induction ks arbitrary: a) auto

lemma resolveField_quality_le: "snd (resolveField cfg frames fld) \<le> minCoherentTrust cfg frames fld"
  by (auto simp: resolveField_def Let_def split: prod.splits)

lemma resolution_quality_le:
  assumes "minCoherentTrust (tv_cfg v) (buildNormalizedFrames v) fld \<le> 0"
  shows "rn_quality (computeResolution v) \<le> 0"
proof -
  have "snd (resolveField (tv_cfg v) (buildNormalizedFrames v) fld) \<le> 0"
    using resolveField_quality_le[of "tv_cfg v" "buildNormalizedFrames v" fld] assms by linarith
  then show ?thesis by (cases fld) (auto simp: computeResolution_def Let_def min_le_iff_disj)
qed

lemma side_sum_pos_iff:
  assumes "\<And>nf. 0 < w nf"
  shows "0 < sum_list (map (\<lambda>nf. side s (b nf) (w nf)) frames) \<longleftrightarrow> (\<exists>nf \<in> set frames. bit_symbol (b nf) = s)"
proof -
  let ?xs = "filter (\<lambda>nf. bit_symbol (b nf) = s) frames"
  have "?xs \<noteq> [] \<Longrightarrow> 0 < sum_list (map w ?xs)" using sum_list_pos_real[of "map w ?xs"] assms by auto
  moreover have "?xs = [] \<Longrightarrow> sum_list (map w ?xs) = 0" by simp
  ultimately have "0 < sum_list (map w ?xs) \<longleftrightarrow> ?xs \<noteq> []" by fastforce
  then show ?thesis unfolding side_sum by (simp add: filter_empty_conv)
qed

lemma unanimous_coherent:
  assumes "0 < vc_agingFactor cfg" "s \<in> {Zero, One}"
    "\<And>nf. nf \<in> set frames \<Longrightarrow> bit_symbol (nf_bits nf fld ! k) \<in> {s, Unknown, Marker}"
  shows "bitCoherent (bitStat cfg frames fld k)"
proof -
  have other: "sum_list (map (\<lambda>nf. side s' (nf_bits nf fld ! k) (w nf)) frames) = 0" if "s' \<in> {Zero, One}" "s' \<noteq> s" for s' w
    using that by (intro side_sum_zero) (metis assms(3) ClockSymbol.distinct insertE singletonD)
  have iff: "0 < sum_list (map (\<lambda>nf. side s (nf_bits nf fld ! k) (confW (vc_agingFactor cfg) nf (nf_bits nf fld ! k))) frames)
      \<longleftrightarrow> 0 < sum_list (map (\<lambda>nf. side s (nf_bits nf fld ! k) (vc_agingFactor cfg ^ nf_age nf)) frames)"
    using side_sum_pos_iff[of "\<lambda>nf. confW (vc_agingFactor cfg) nf (nf_bits nf fld ! k)" s "\<lambda>nf. nf_bits nf fld ! k" frames]
      side_sum_pos_iff[of "\<lambda>nf. vc_agingFactor cfg ^ nf_age nf" s "\<lambda>nf. nf_bits nf fld ! k" frames] assms(1)
    by (simp add: confW_pos)
  have nn: "0 \<le> sum_list (map (\<lambda>nf. side s (nf_bits nf fld ! k) (w nf)) frames)" if "\<And>nf. 0 < w nf" for w
    using that by (intro sum_list_nonneg) (auto simp: side_def less_imp_le)
  from assms(2) other iff nn[of "\<lambda>nf. vc_agingFactor cfg ^ nf_age nf"]
    nn[of "\<lambda>nf. confW (vc_agingFactor cfg) nf (nf_bits nf fld ! k)"] assms(1)
  show ?thesis by (auto simp: bitCoherent_def bitStat_def Let_def confW_pos)
qed

lemma bestConf_below:
  assumes "0 < c" "\<And>nf. nf \<in> set frames \<Longrightarrow> bit_confidence (nf_bits nf fld ! k) < c"
  shows "bestConf frames fld k s < c"
proof -
  have "fold (\<lambda>nf best. let b = nf_bits nf fld ! k in if bit_symbol b = s then max best (bit_confidence b) else best) frames a < c"
    if "a < c" for a using assms(2) that
  proof (induction frames arbitrary: a)
    case (Cons nf frames)
    then have "(let b = nf_bits nf fld ! k in if bit_symbol b = s then max a (bit_confidence b) else a) < c" by (simp add: Let_def)
    with Cons show ?case by simp
  qed simp
  with assms(1) show ?thesis by (simp add: bestConf_def)
qed

text \<open>
  Unanimity of noise is not evidence: with both floors armed, if there is a bit of any field that
  the whole window reads alike, but never with the confidence the floor asks for, the voter does
  not lock, however much the frames agree.
\<close>

theorem noise_never_locks:
  assumes "0 < vc_minBitConfidence (tv_cfg v)" "0 < vc_minLockQuality (tv_cfg v)" "0 < vc_agingFactor (tv_cfg v)"
    "k < length (vc_fields (tv_cfg v) fld)" "s \<in> {Zero, One}"
    "\<forall>nf \<in> set (buildNormalizedFrames v). bit_symbol (nf_bits nf fld ! k) \<in> {s, Unknown, Marker}
       \<and> bit_confidence (nf_bits nf fld ! k) < vc_minBitConfidence (tv_cfg v)"
  shows "\<not> locked ref v"
proof
  let ?cfg = "tv_cfg v" and ?fs = "buildNormalizedFrames v"
  assume "locked ref v"
  have "bitCoherent (bitStat ?cfg ?fs fld k)" using unanimous_coherent[OF assms(3,5)] assms(6) by blast
  then have "k \<in> set (coherent_bits ?cfg ?fs fld)" using assms(4) by (simp add: coherent_bits_def)
  moreover have "bitTrust ?cfg ?fs fld k = 0"
  proof -
    have "bestConf ?fs fld k s' < vc_minBitConfidence ?cfg" for s' using bestConf_below[OF assms(1)] assms(6) by blast
    then have "\<not> vc_minBitConfidence ?cfg \<le> bestConf ?fs fld k s'" for s' by (simp add: not_le)
    with assms(1) show ?thesis by (simp add: bitTrust_def Let_def)
  qed
  ultimately have "minCoherentTrust ?cfg ?fs fld \<le> 0"
    unfolding minCoherentTrust_def by (metis fold_min_le_elem)
  then have "rn_quality (computeResolution v) \<le> 0" by (rule resolution_quality_le)
  with locked_gates(5)[OF \<open>locked ref v\<close> assms(2)] assms(2) show False by linarith
qed

text \<open>Two minutes in which every bit is read alike, and weakly.\<close>

definition weak_window :: TimeFrameVoter where
  "weak_window = \<lparr>tv_cfg = dcf77_voterConfig, tv_frames =
     [synthetic_frame (Some (\<lparr>tf_minute = 0, tf_hour = 0, tf_doy = 1, tf_year2 = 6\<rparr>, \<lambda>_. 1 / 50)),
      synthetic_frame (Some (\<lparr>tf_minute = 1, tf_hour = 0, tf_doy = 1, tf_year2 = 6\<rparr>, \<lambda>_. 1 / 50))]\<rparr>"

theorem noise_never_locks_witness: "\<not> locked \<lparr>tf_minute = 1, tf_hour = 0, tf_doy = 1, tf_year2 = 6\<rparr> weak_window"
proof (rule noise_never_locks)
  show "0 < vc_minBitConfidence (tv_cfg weak_window)" "0 < vc_minLockQuality (tv_cfg weak_window)"
    "0 < vc_agingFactor (tv_cfg weak_window)" by code_simp+
  show "3 < length (vc_fields (tv_cfg weak_window) FieldYear)" by code_simp
  show "Zero \<in> {Zero, One}" by simp
  show "\<forall>nf \<in> set (buildNormalizedFrames weak_window). bit_symbol (nf_bits nf FieldYear ! 3) \<in> {Zero, Unknown, Marker}
       \<and> bit_confidence (nf_bits nf FieldYear ! 3) < vc_minBitConfidence (tv_cfg weak_window)" by code_simp
qed

section \<open>Clean minutes\<close>

text \<open>The statistics of a bit on which every frame votes alike.\<close>

lemma unanimous_stat:
  assumes "0 < vc_agingFactor cfg" "frames \<noteq> []" "s \<in> {Zero, One}" "\<And>nf. nf \<in> set frames \<Longrightarrow> bit_symbol (nf_bits nf fld ! k) = s"
  defines "W \<equiv> sum_list (map (\<lambda>nf. confW (vc_agingFactor cfg) nf (nf_bits nf fld ! k)) frames)"
  shows "bs_w0 (bitStat cfg frames fld k) = (if s = Zero then W else 0)" "bs_w1 (bitStat cfg frames fld k) = (if s = One then W else 0)"
    "bs_participation (bitStat cfg frames fld k) = 1" "0 < W"
proof -
  have f: "filter (\<lambda>nf. bit_symbol (nf_bits nf fld ! k) = s) frames = frames" using assms(4) by (simp add: filter_id_conv)
  have n: "filter (\<lambda>nf. bit_symbol (nf_bits nf fld ! k) = s') frames = []" if "s' \<noteq> s" for s' using assms(4) that by (auto simp: filter_empty_conv)
  show pos: "0 < W" unfolding W_def using assms(1,2) by (intro sum_list_pos_real) (auto simp: confW_pos)
  show "bs_w0 (bitStat cfg frames fld k) = (if s = Zero then W else 0)" "bs_w1 (bitStat cfg frames fld k) = (if s = One then W else 0)"
    "bs_participation (bitStat cfg frames fld k) = 1"
    using assms(3) f n pos by (auto simp: bitStat_def Let_def side_sum W_def[symmetric])
qed

lemma bestConf_ge:
  assumes "nf \<in> set frames" "bit_symbol (nf_bits nf fld ! k) = s"
  shows "bit_confidence (nf_bits nf fld ! k) \<le> bestConf frames fld k s"
proof -
  let ?f = "\<lambda>nf best. let b = nf_bits nf fld ! k in if bit_symbol b = s then max best (bit_confidence b) else best"
  have up: "a \<le> fold ?f xs a" for a xs
  proof (induction xs arbitrary: a)
    case (Cons x xs)
    then show ?case using order_trans[OF _ Cons[of "?f x a"]] by (simp add: Let_def)
  qed simp
  have "bit_confidence (nf_bits nf fld ! k) \<le> fold ?f frames a" for a using assms
  proof (induction frames arbitrary: a)
    case (Cons x xs)
    show ?case
    proof (cases "x = nf")
      case True
      have "bit_confidence (nf_bits nf fld ! k) \<le> ?f x a" using True Cons.prems by (simp add: Let_def)
      also have "\<dots> \<le> fold ?f xs (?f x a)" by (rule up)
      finally show ?thesis by simp
    qed (use Cons in simp)
  qed simp
  then show ?thesis by (simp add: bestConf_def)
qed

lemma margin_saturates: "1 / 100 \<le> (W::real) \<Longrightarrow> 9999 / 10000 \<le> W / (W + 1 / 10 ^ 6)"
  by (simp add: field_simps)

text \<open>A window all of whose frames name \<open>T\<close>, the newest of them with confidence.\<close>

definition clean_window :: "VoterConfig \<Rightarrow> NormalizedFrame list \<Rightarrow> TimeFields \<Rightarrow> bool" where
  "clean_window cfg frames T \<longleftrightarrow> frames \<noteq> [] \<and> list_all (spells cfg T) frames \<and> nf_age (last frames) = 0 \<and>
     list_all (\<lambda>fld. list_all (\<lambda>b. vc_minBitConfidence cfg \<le> bit_confidence b) (nf_bits (last frames) fld)) all_fields"

lemma clean_bit:
  assumes "clean_window cfg frames T" "nf \<in> set frames" "k < length (vc_fields cfg fld)"
  shows "bit_symbol (nf_bits nf fld ! k) = encodeField (vc_fields cfg fld) (tf_get T fld) ! k"
  using assms spells_bit by (auto simp: clean_window_def list_all_iff)

lemma clean_trust:
  assumes a: "0 < vc_agingFactor cfg" and cw: "clean_window cfg frames T" and k: "k < length (vc_fields cfg fld)"
    and ok: "frames_ok cfg frames"
  shows "9999 / 10000 \<le> bitTrust cfg frames fld k"
proof -
  let ?s = "encodeField (vc_fields cfg fld) (tf_get T fld) ! k" and ?l = "last frames"
  define W where "W = sum_list (map (\<lambda>nf. confW (vc_agingFactor cfg) nf (nf_bits nf fld ! k)) frames)"
  have ne: "frames \<noteq> []" and age: "nf_age ?l = 0" using cw by (simp_all add: clean_window_def)
  note u = unanimous_stat[OF a ne encodeField_binary[OF k, of "tf_get T fld"] clean_bit[OF cw _ k], folded W_def]
  have s: "?s \<in> {Zero, One}" using encodeField_binary[OF k] .
  have l: "k < length (nf_bits ?l fld)" using frames_okD(1)[OF ok last_in_set[OF ne]] k by simp
  have "confW (vc_agingFactor cfg) ?l (nf_bits ?l fld ! k) \<le> W"
    unfolding W_def using ne a by (intro member_le_sum_list) (auto simp: less_imp_le confW_pos image_iff intro!: bexI[of _ ?l])
  moreover have "1 / 100 \<le> confW (vc_agingFactor cfg) ?l (nf_bits ?l fld ! k)" using age by (simp add: confW_def)
  ultimately have "9999 / 10000 \<le> W / (W + 1 / 10 ^ 6)" by (intro margin_saturates) linarith
  moreover have "bitMargin (bitStat cfg frames fld k) = W / (W + 1 / 10 ^ 6)"
    using u s by (auto simp: bitMargin_def Let_def)
  moreover have "vc_minBitConfidence cfg \<le> bit_confidence (nf_bits ?l fld ! k)"
    using cw nth_mem[OF l] by (simp add: clean_window_def list_all_iff)
  then have "vc_minBitConfidence cfg \<le> bestConf frames fld k ?s"
    using bestConf_ge[OF last_in_set[OF ne], of fld k ?s] clean_bit[OF cw last_in_set[OF ne] k] by simp
  ultimately show ?thesis using u s by (auto simp: bitTrust_def Let_def)
qed

lemma clean_outweighs:
  assumes "0 < vc_agingFactor cfg" "clean_window cfg frames T"
  shows "outweighs cfg frames T"
proof -
  have e: "filter (\<lambda>nf. \<not> spells cfg T nf) frames = []" "filter (spells cfg T) frames = frames" "frames \<noteq> []"
    using assms(2) by (auto simp: clean_window_def list_all_iff filter_empty_conv filter_id_conv)
  have "0 < sum_list (map (heldWeight cfg fld) frames)" for fld
    using assms(1) e(3) by (intro sum_list_pos_real) (auto simp: heldWeight_pos)
  then show ?thesis by (simp add: outweighs_def all_fields_iff list_all_iff e)
qed

lemma clean_quality:
  assumes a: "0 < vc_agingFactor cfg" and cw: "clean_window cfg frames T" and ok: "frames_ok cfg frames" and ft: "fits cfg T"
  shows "9999 / 10000 \<le> snd (resolveField cfg frames fld)"
proof -
  let ?m = "vc_fields cfg fld"
  have coh: "bitCoherent (bitStat cfg frames fld k)" if "k < length ?m" for k
    using unanimous_coherent[OF a encodeField_binary[OF that, of "tf_get T fld"]] clean_bit[OF cw _ that] by blast
  then have all: "length (coherent_bits cfg frames fld) = length ?m" by (simp add: coherent_bits_def filter_id_conv)
  have "composeValue cfg frames fld = bits_value ?m (encodeField ?m (tf_get T fld))"
    unfolding composeValue_sum bits_value_def using camp_bit[OF ok a clean_outweighs[OF a cw]] by (intro sum.cong) auto
  then have "composeValue cfg frames fld = tf_get T fld" using encodeField_value fits_field[OF ft] by simp
  moreover have "tf_get T fld \<in> fst ` set (heldValues cfg frames fld)"
  proof -
    have "last frames \<in> set frames" "spells cfg T (last frames)"
      using cw last_in_set[of frames] by (auto simp: clean_window_def list_all_iff)
    then show ?thesis unfolding heldValues_keys by (auto simp: spells_def)
  qed
  ultimately have "snd (resolveField cfg frames fld) = minCoherentTrust cfg frames fld"
    using all by (auto simp: resolveField_def Let_def list_ex_iff split: prod.splits)
  moreover have "9999 / 10000 \<le> minCoherentTrust cfg frames fld"
    unfolding minCoherentTrust_def using clean_trust[OF a cw _ ok] by (intro fold_min_ge) (auto simp: coherent_bits_def)
  ultimately show ?thesis by simp
qed

lemma fieldMargin_stat:
  "fieldMargin cfg frames fld = sum_list (map (\<lambda>k. max (bs_w0 (bitStat cfg frames fld k)) (bs_w1 (bitStat cfg frames fld k))
     - min (bs_w0 (bitStat cfg frames fld k)) (bs_w1 (bitStat cfg frames fld k))) [0..<length (vc_fields cfg fld)])"
  by (simp add: fieldMargin_def bitStat_def Let_def agedWeight_def confW_def)

lemma clean_margin:
  assumes a: "0 < vc_agingFactor cfg" and cw: "clean_window cfg frames T" and ft: "fits cfg T"
  shows "0 < fieldMargin cfg frames fld"
proof -
  have ne: "frames \<noteq> []" using cw by (simp add: clean_window_def)
  have "0 < max (bs_w0 (bitStat cfg frames fld k)) (bs_w1 (bitStat cfg frames fld k))
     - min (bs_w0 (bitStat cfg frames fld k)) (bs_w1 (bitStat cfg frames fld k))" if k: "k < length (vc_fields cfg fld)" for k
    using unanimous_stat[OF a ne encodeField_binary[OF k] clean_bit[OF cw _ k]] encodeField_binary[OF k, of "tf_get T fld"] by auto
  then show ?thesis unfolding fieldMargin_stat using fits_field(2)[OF ft, of fld]
    by (intro sum_list_pos_real) auto
qed

lemma increments_all:
  assumes "ms \<noteq> []" "\<And>i. Suc i < length ms \<Longrightarrow> (ms ! i + 1) smod 60 = ms ! Suc i"
  shows "increments ms = int (length ms) - 1"
  using assms
proof (induction ms rule: increments.induct)
  case (1 prev cur ms)
  have "(prev + 1) smod 60 = cur" using 1(3)[of 0] by simp
  moreover have "increments (cur # ms) = int (length (cur # ms)) - 1"
  proof (rule 1(1))
    fix i assume "Suc i < length (cur # ms)"
    then show "((cur # ms) ! i + 1) smod 60 = (cur # ms) ! Suc i" using 1(3)[of "Suc i"] by simp
  qed simp
  ultimately show ?case by simp
qed simp_all

lemma mod_shift: "(a + c) mod 60 = (b + c) mod (60::int) \<Longrightarrow> a mod 60 = b mod 60"
  by (metis add_diff_cancel_right' mod_diff_left_eq)

lemma advance_minute:
  assumes "rangeValid t" "0 \<le> k"
  shows "tf_minute (advanceMinutes t k) = (tf_minute t + k) mod 60"
proof -
  have "tf_minute (advanceMinutes t k) = (tf_hour t * 60 + (tf_minute t + k)) mod 60"
    by (rule advance_parts[OF assms]) (simp add: add.assoc)
  then show ?thesis by simp
qed

lemma clean_increments:
  assumes "clean_window (tv_cfg v) (buildNormalizedFrames v) T"
  shows "increments (map (decodeMinutes (tv_cfg v)) (tv_frames v)) = int (length (tv_frames v)) - 1"
proof -
  let ?n = "length (tv_frames v)" and ?raw = "\<lambda>i. rawFields (tv_cfg v) (tv_frames v ! i)"
  have at: "rangeValid (?raw i) \<and> advanceMinutes (?raw i) (int (?n - 1 - i)) = T" if "i < ?n" for i
    using assms that nth_mem[of i "buildNormalizedFrames v"]
    by (auto simp: clean_window_def list_all_iff spells_def buildNormalizedFrames_nth normalize_frame_simps)
  have minute: "(tf_minute (?raw i) + int (?n - 1 - i)) mod 60 = tf_minute T" if "i < ?n" for i
    using at[OF that] advance_minute[of "?raw i" "int (?n - 1 - i)"] by simp
  have step: "(tf_minute (?raw i) + 1) smod 60 = tf_minute (?raw (Suc i))" if i: "Suc i < ?n" for i
  proof -
    have "int (?n - 1 - i) = 1 + int (?n - 1 - Suc i)" "i < ?n" using i by simp_all
    with minute[of i] have "(tf_minute (?raw i) + (1 + int (?n - 1 - Suc i))) mod 60 = tf_minute T" by (simp only:)
    then have "(tf_minute (?raw i) + 1 + int (?n - 1 - Suc i)) mod 60 = (tf_minute (?raw (Suc i)) + int (?n - 1 - Suc i)) mod 60"
      unfolding minute[OF i] by (simp only: add.assoc)
    from mod_shift[OF this] have "(tf_minute (?raw i) + 1) mod 60 = tf_minute (?raw (Suc i)) mod 60" .
    then show ?thesis using at[of i] at[OF i] i by (simp add: rangeValid_iff smod_nonneg)
  qed
  have dm: "decodeMinutes (tv_cfg v) f = tf_minute (rawFields (tv_cfg v) f)" for f
    by (simp add: decodeMinutes_def rawFields_def tf_of_def)
  have ne: "tv_frames v \<noteq> []" using assms by (auto simp: clean_window_def buildNormalizedFrames_def)
  show ?thesis using increments_all[of "map (decodeMinutes (tv_cfg v)) (tv_frames v)"] ne step by (simp add: dm)
qed

lemma clean_minutes_lock:
  assumes "arrays_ok v" "0 < vc_agingFactor (tv_cfg v)" "fits (tv_cfg v) T" "clean_window (tv_cfg v) (buildNormalizedFrames v) T"
    "vc_minFramesForLock (tv_cfg v) \<le> int (length (tv_frames v))" "vc_minLockQuality (tv_cfg v) \<le> 9999 / 10000"
    "plausible (tv_cfg v) ref T"
  shows "locked ref v \<and> votedTimestamp v = T"
proof -
  let ?cfg = "tv_cfg v" and ?fs = "buildNormalizedFrames v"
  have ok: "frames_ok ?cfg ?fs" using frames_ok_build[OF assms(1)] .
  have T: "votedTimestamp v = T" using camp_voted[OF assms(1-3) clean_outweighs[OF assms(2,4)]] .
  have ne: "?fs \<noteq> []" "nf_valid (last ?fs)" "nf_age (last ?fs) = 0"
    using assms(4) last_in_set[of ?fs] by (auto simp: clean_window_def list_all_iff spells_def)
  then have fr: "fresh ?cfg ?fs" unfolding fresh_def list_ex_iff using last_in_set[OF ne(1)] by (cases "vc_maxNewestValidAge ?cfg < 0") auto
  have "fst \<circ> resolveField ?cfg ?fs = tf_get T" using camp_resolves[OF ok assms(2) clean_outweighs[OF assms(2,4)] assms(3)] by auto
  then have "9999 / 10000 \<le> rn_quality (computeResolution v)"
    using ne(1) assms(3) clean_quality[OF assms(2,4) ok assms(3)]
    by (simp add: computeResolution_def Let_def tf_of_get fits_def)
  then have "\<not> rn_quality (computeResolution v) < vc_minLockQuality ?cfg" using assms(6) by linarith
  then have "locked ref v"
    using assms(5,7) clean_increments[OF assms(4)] ne(1) fr clean_margin[OF assms(2,4,3)] T
    by (simp add: locked_def lockVerdict_def Let_def votedTimestamp_def)
  with T show ?thesis by simp
qed

section \<open>A day the year does not have\<close>

text \<open>
  The guard after the vote checks each field alone. When the day and the year are taken from
  different frames, the voted date can be day 366 of a year that has 365, which the check of the
  frames themselves excludes.
\<close>

definition split_config :: VoterConfig where
  "split_config = default_VoterConfig\<lparr>vc_fields := four_maps [bw 1 1] [bw 2 1] [bw 3 365, bw 4 1] [bw 5 24, bw 6 1]\<rparr>"

definition split_window :: TimeFrameVoter where
  "split_window = \<lparr>tv_cfg = split_config, tv_frames =
     [\<lparr>fr_symbols = [Marker, Zero, Zero, Zero, One, One, One] @ replicate 53 Unknown,
       fr_confidence = [1, 1, 1, 1 / 10, 1 / 10, 1, 1] @ replicate 53 0\<rparr>,
      \<lparr>fr_symbols = [Marker, One, Zero, One, One, One, Zero] @ replicate 53 Unknown,
       fr_confidence = [1, 1, 1, 1, 1, 1 / 10, 1 / 10] @ replicate 53 0\<rparr>]\<rparr>"

lemma voted_day_missing: "\<not> rangeValid (votedTimestamp split_window)"
proof -
  have "votedTimestamp split_window = \<lparr>tf_minute = 1, tf_hour = 0, tf_doy = 366, tf_year2 = 25\<rparr>" by code_simp
  moreover have "\<not> rangeValid \<lparr>tf_minute = 1, tf_hour = 0, tf_doy = 366, tf_year2 = 25\<rparr>" by code_simp
  ultimately show ?thesis by simp
qed

end
