(* ===== verification/Station_Lock.thy ===== *)
theory Station_Lock
  imports Voter_Lock
begin

text \<open>
  From a station's minutes to a lock: the frame a decoder makes of a minute is read back by the voter
  as that minute, and consecutive minutes decoded above the confidence floor lock the voter on the
  newest of them, whatever came before the window.
\<close>

section \<open>Greedy bits\<close>

fun greedy :: "int list \<Rightarrow> int \<Rightarrow> ClockSymbol list" where
  "greedy [] v = []"
| "greedy (w # ws) v = (if w \<le> v then One # greedy ws (v - w) else Zero # greedy ws v)"

lemma encode_loop_greedy:
  assumes "i \<le> length m" "length bits = length m" "\<And>k. i \<le> k \<Longrightarrow> k < length m \<Longrightarrow> bits ! k = Zero" "\<forall>b \<in> set m. 0 < bw_weight b"
  shows "encode_loop m [i..<length m] rem bits = take i bits @ greedy (map bw_weight (drop i m)) rem"
  using assms
proof (induction "length m - i" arbitrary: i bits rem)
  case (Suc d)
  then have i: "i < length m" by simp
  have IH: "encode_loop m [Suc i..<length m] rem' bits' = take (Suc i) bits' @ greedy (map bw_weight (drop (Suc i) m)) rem'"
    if "length bits' = length m" "\<And>k. Suc i \<le> k \<Longrightarrow> k < length m \<Longrightarrow> bits' ! k = Zero" for rem' bits'
    using Suc(1)[of "Suc i" bits' rem'] Suc(2,6) i that by simp
  have d: "drop i m = m ! i # drop (Suc i) m" "[i..<length m] = i # [Suc i..<length m]"
    using i by (simp_all add: Cons_nth_drop_Suc upt_conv_Cons)
  have pos: "0 < bw_weight (m ! i)" using Suc(6) i by simp
  have "take (Suc i) bits = take i bits @ [Zero]" "take (Suc i) (bits[i := One]) = take i bits @ [One]"
    using i Suc(4,5) by (simp_all add: take_Suc_conv_app_nth)
  then show ?case using IH[of bits rem] IH[of "bits[i := One]" "rem - bw_weight (m ! i)"] Suc(4,5) pos by (simp add: d)
qed simp

lemma encodeField_greedy:
  assumes "encode_order m = [0..<length m]" "\<forall>b \<in> set m. 0 < bw_weight b"
  shows "encodeField m x = greedy (map bw_weight m) x"
  using encode_loop_greedy[of 0 m "replicate (length m) Zero" x] assms by (simp add: encodeField_def)

section \<open>What a synthetic frame holds\<close>

abbreviation secs :: "ClockFieldMap \<Rightarrow> nat list" where
  "secs m \<equiv> map (\<lambda>b. nat (bw_second b)) m"

lemma syn_encode_lengths [simp]:
  "length (fr_symbols (syn_encode v m c f)) = length (fr_symbols f)"
  "length (fr_confidence (syn_encode v m c f)) = length (fr_confidence f)"
  by (induction v m c f rule: syn_encode.induct) (auto simp: Let_def)

lemma syn_encode_other:
  assumes "s \<notin> set (secs m)"
  shows "fr_symbols (syn_encode v m c f) ! s = fr_symbols f ! s" "fr_confidence (syn_encode v m c f) ! s = fr_confidence f ! s"
  using assms by (induction v m c f rule: syn_encode.induct) (auto simp: Let_def)

lemma syn_encode_own:
  assumes "distinct (secs m)" "\<forall>s \<in> set (secs m). s < length (fr_symbols f) \<and> s < length (fr_confidence f)"
  shows "map (\<lambda>s. fr_symbols (syn_encode v m c f) ! s) (secs m) = greedy (map bw_weight m) v"
    and "\<forall>s \<in> set (secs m). fr_confidence (syn_encode v m c f) ! s = c"
  using assms
proof (induction v m c f rule: syn_encode.induct)
  case (2 v b m c f)
  let ?s = "nat (bw_second b)"
  { case 1 with 2 syn_encode_other(1)[of ?s m] show ?case by (auto simp: Let_def) }
  { case 2 with "2.IH" syn_encode_other(2)[of ?s m] show ?case by (auto simp: Let_def) }
qed simp_all

text \<open>The maps of the synthetic layout, as one function.\<close>

abbreviation vmap :: "FieldIndex \<Rightarrow> ClockFieldMap" where
  "vmap \<equiv> four_maps kVMin kVHour kVDoy kVYear"

lemma vmap_facts:
  "distinct (secs (vmap fld))" "list_all (\<lambda>s. s < 60) (secs (vmap fld))" "list_all (\<lambda>b. sec_ok (bw_second b)) (vmap fld)"
  "encode_order (vmap fld) = [0..<length (vmap fld)]" "list_all (\<lambda>b. 0 < bw_weight b) (vmap fld)" "complete_map (vmap fld)"
  by (cases fld; simp; code_simp)+

lemma vmap_disjoint: "fld \<noteq> fld' \<Longrightarrow> s \<in> set (secs (vmap fld)) \<Longrightarrow> s \<notin> set (secs (vmap fld'))"
  by (cases fld; cases fld'; simp add: kVMin_def kVHour_def kVDoy_def kVYear_def bw_def; fastforce)

lemma vmap_total:
  "map_total (vmap FieldMinutes) = 85" "map_total (vmap FieldHours) = 45" "map_total (vmap FieldDoy) = 465" "map_total (vmap FieldYear) = 165"
  by (simp; code_simp)+

lemma blank_lengths: "length (fr_symbols blank_frame) = 60" "length (fr_confidence blank_frame) = 60"
  by code_simp+

definition holds :: "Frame \<Rightarrow> FieldIndex \<Rightarrow> int \<Rightarrow> real \<Rightarrow> bool" where
  "holds f fld x c \<longleftrightarrow> map (\<lambda>s. fr_symbols f ! s) (secs (vmap fld)) = greedy (map bw_weight (vmap fld)) x
     \<and> (\<forall>s \<in> set (secs (vmap fld)). fr_confidence f ! s = c)"

lemma holds_written:
  assumes "length (fr_symbols f) = 60" "length (fr_confidence f) = 60"
  shows "holds (syn_encode x (vmap fld) c f) fld x c"
  using syn_encode_own[OF vmap_facts(1), of fld f] vmap_facts(2)[of fld] assms unfolding holds_def list_all_iff by simp

lemma holds_kept:
  assumes "fld \<noteq> fld'"
  shows "holds (syn_encode y (vmap fld') d f) fld x c \<longleftrightarrow> holds f fld x c"
proof -
  have "s \<notin> set (secs (vmap fld'))" if "s \<in> set (secs (vmap fld))" for s using vmap_disjoint[OF assms that] .
  note o = syn_encode_other[OF this]
  have "map (\<lambda>s. fr_symbols (syn_encode y (vmap fld') d f) ! s) (secs (vmap fld)) = map (\<lambda>s. fr_symbols f ! s) (secs (vmap fld))"
    using o(1) by (intro map_cong) auto
  moreover have "(\<forall>s \<in> set (secs (vmap fld)). fr_confidence (syn_encode y (vmap fld') d f) ! s = c)
      \<longleftrightarrow> (\<forall>s \<in> set (secs (vmap fld)). fr_confidence f ! s = c)"
    using o(2) by (intro ball_cong) auto
  ultimately show ?thesis by (simp only: holds_def)
qed

lemma synthetic_Some:
  "synthetic_frame (Some (utc, c)) =
     syn_encode (tf_get utc FieldYear) (vmap FieldYear) (c FieldYear)
       (syn_encode (tf_get utc FieldDoy) (vmap FieldDoy) (c FieldDoy)
         (syn_encode (tf_get utc FieldHours) (vmap FieldHours) (c FieldHours)
           (syn_encode (tf_get utc FieldMinutes) (vmap FieldMinutes) (c FieldMinutes) blank_frame)))"
  by (simp add: synthetic_frame_def)

lemma synthetic_lengths [simp]:
  "length (fr_symbols (synthetic_frame (Some (utc, c)))) = 60" "length (fr_confidence (synthetic_frame (Some (utc, c)))) = 60"
  unfolding synthetic_Some by (simp_all add: blank_lengths del: four_maps.simps)

lemma synthetic_holds: "holds (synthetic_frame (Some (utc, c))) fld (tf_get utc fld) (c fld)"
  unfolding synthetic_Some
  by (cases fld; simp add: holds_kept holds_written blank_lengths del: four_maps.simps tf_get.simps)

lemma blank_confidence: "\<forall>c \<in> set (fr_confidence blank_frame). c = 0"
  by (simp add: blank_frame_def)

lemma syn_encode_conf_nonneg:
  "0 \<le> c \<Longrightarrow> list_all (\<lambda>c. 0 \<le> c) (fr_confidence f) \<Longrightarrow> list_all (\<lambda>c. 0 \<le> c) (fr_confidence (syn_encode v m c f))"
proof (induction v m c f rule: syn_encode.induct)
  case (2 v b m c f)
  have "list_all (\<lambda>c. 0 \<le> c) ((fr_confidence f)[nat (bw_second b) := c])"
    using 2(2,3) set_update_subset_insert[of "fr_confidence f" "nat (bw_second b)" c] by (auto simp: list_all_iff)
  with 2 show ?case by (simp add: Let_def)
qed simp

lemma synthetic_conf_nonneg:
  "(\<And>fld. 0 \<le> c fld) \<Longrightarrow> list_all (\<lambda>c. 0 \<le> c) (fr_confidence (synthetic_frame (Some (utc, c))))"
  unfolding synthetic_Some using blank_confidence by (intro syn_encode_conf_nonneg) (auto simp: list_all_iff)

lemma synthetic_bits:
  assumes "vc_fields cfg = vmap"
  shows "map (\<lambda>b. symbol_at (synthetic_frame (Some (utc, c))) (bw_second b)) (vc_fields cfg fld) = encodeField (vc_fields cfg fld) (tf_get utc fld)"
    and "b \<in> set (vc_fields cfg fld) \<Longrightarrow> conf_at (synthetic_frame (Some (utc, c))) (bw_second b) = c fld"
proof -
  let ?f = "synthetic_frame (Some (utc, c))"
  have ok: "sec_ok (bw_second b)" if "b \<in> set (vmap fld)" for b using vmap_facts(3)[of fld] that by (simp add: list_all_iff)
  have "map (\<lambda>b. symbol_at ?f (bw_second b)) (vmap fld) = map (\<lambda>s. fr_symbols ?f ! s) (secs (vmap fld))"
    using ok by (simp add: symbol_at_def del: four_maps.simps)
  also have "\<dots> = encodeField (vmap fld) (tf_get utc fld)"
    using synthetic_holds[of utc c fld] encodeField_greedy[OF vmap_facts(4), of fld] vmap_facts(5)[of fld]
    by (simp add: holds_def list_all_iff)
  finally show "map (\<lambda>b. symbol_at ?f (bw_second b)) (vc_fields cfg fld) = encodeField (vc_fields cfg fld) (tf_get utc fld)"
    by (simp add: assms)
  show "b \<in> set (vc_fields cfg fld) \<Longrightarrow> conf_at ?f (bw_second b) = c fld"
    using synthetic_holds[of utc c fld] ok[of b] by (auto simp: holds_def conf_at_def assms)
qed

lemma fits_vmap:
  assumes "vc_fields cfg = vmap" "rangeValid T"
  shows "fits cfg T"
proof -
  have "vmap fld \<noteq> []" for fld by (cases fld) (simp_all add: kVMin_def kVHour_def kVDoy_def kVYear_def)
  moreover have "tf_get T fld \<le> map_total (vmap fld)" for fld
    using assms(2) year_len_bounds(2)[of "tf_year2 T"] by (cases fld) (auto simp: rangeValid_iff vmap_total simp del: four_maps.simps)
  ultimately show ?thesis using assms vmap_facts(6) by (simp add: fits_def all_fields_iff rangeValid_def)
qed

section \<open>Consecutive minutes\<close>

lemma new_year_mono:
  assumes "y \<le> z" "0 \<le> y"
  shows "new_year y \<le> new_year z"
  using assms(1)
proof (induction z rule: int_ge_induct)
  case (step z)
  then show ?case using new_year_next[of z] year_len_bounds(1)[of z] assms(2) by simp
qed simp

lemma day_inj:
  assumes "new_year y + d = new_year z + e" "1 \<le> d" "d \<le> year_len y" "1 \<le> e" "e \<le> year_len z" "0 \<le> y" "0 \<le> z"
  shows "y = z \<and> d = e"
proof -
  have "\<not> a < b" if "new_year a + x = new_year b + w" "x \<le> year_len a" "1 \<le> w" "0 \<le> a" for a b x w
    using that new_year_next[of a] new_year_mono[of "a + 1" b] by linarith
  from this[OF assms(1,3,4,6)] this[OF assms(1)[symmetric] assms(5,2,7)] have "y = z" by simp
  with assms(1) show ?thesis by simp
qed

lemma digit_inj:
  assumes "a * n + x = b * n + (y::int)" "0 \<le> x" "x < n" "0 \<le> y" "y < n"
  shows "a = b \<and> x = y"
proof -
  have "(a * n + x) div n = a" "(b * n + y) div n = b" using assms(2-5) by simp_all
  with assms(1) show ?thesis by simp
qed

text \<open>A date is determined by its instant.\<close>

lemma utc_of_inj:
  assumes "utc_of s = utc_of t" "rangeValid s" "rangeValid t"
  shows "s = t"
proof -
  let ?d = "\<lambda>t. new_year (tf_year2 t) + tf_doy t - 1" and ?m = "\<lambda>t. tf_hour t * 60 + tf_minute t"
  have m: "0 \<le> ?m t \<and> ?m t < 1440" if "rangeValid t" for t using that by (auto simp: rangeValid_iff)
  have u: "utc_of t = (?d t * 1440 + ?m t) * 60000" for t by (simp add: utc_of_def utcMsFromFields_def Let_def algebra_simps)
  have "?d s * 1440 + ?m s = ?d t * 1440 + ?m t" using assms(1) unfolding u by simp
  then have "?d s = ?d t \<and> ?m s = ?m t" using m[OF assms(2)] m[OF assms(3)] by (intro digit_inj) auto
  moreover from this have "tf_year2 s = tf_year2 t \<and> tf_doy s = tf_doy t"
    using assms(2,3) by (intro day_inj) (auto simp: rangeValid_iff)
  moreover have "tf_hour s = tf_hour t \<and> tf_minute s = tf_minute t"
    using calculation(1) assms(2,3) by (intro digit_inj) (auto simp: rangeValid_iff)
  ultimately show ?thesis by simp
qed

lemma advance_add:
  assumes "rangeValid t" "0 \<le> a" "0 \<le> b" "utc_of t + (a + b) * 60000 < utcMsFromFields 100 1 0 0"
  shows "advanceMinutes (advanceMinutes t a) b = advanceMinutes t (a + b)"
proof -
  have "utc_of t + a * 60000 < utcMsFromFields 100 1 0 0" using assms(3,4) by simp
  note u = advance_utc[OF assms(1,2) this]
  have "utc_of (advanceMinutes (advanceMinutes t a) b) = utc_of t + (a + b) * 60000"
    using advance_utc[OF advance_valid[OF assms(1,2)] assms(3)] u assms(4) by (simp add: algebra_simps)
  moreover have "utc_of (advanceMinutes t (a + b)) = utc_of t + (a + b) * 60000"
    using advance_utc[OF assms(1) _ assms(4)] assms(2,3) by simp
  ultimately show ?thesis using assms advance_valid by (intro utc_of_inj) simp_all
qed

text \<open>Feeding frames one after another.\<close>

definition feed :: "Frame list \<Rightarrow> TimeFrameVoter \<Rightarrow> TimeFrameVoter" where
  "feed fs v = fold (\<lambda>f. addFrame (fr_symbols f) (fr_confidence f)) fs v"

lemma drop_window:
  "drop (length (drop (length xs - w) xs @ [f]) - w) (drop (length xs - w) xs @ [f]) = drop (length (xs @ [f]) - w) (xs @ [f])"
proof -
  have "drop (length xs - w) xs @ [f] = drop (length xs - w) (xs @ [f])" by simp
  moreover have "length (drop (length xs - w) (xs @ [f])) - w + (length xs - w) = length (xs @ [f]) - w" by auto
  ultimately show ?thesis by (simp only: drop_drop)
qed

lemma feed_window:
  assumes "length (tv_frames v) \<le> vc_window (tv_cfg v)"
  shows "tv_cfg (feed fs v) = tv_cfg v
    \<and> tv_frames (feed fs v) = drop (length (tv_frames v @ fs) - vc_window (tv_cfg v)) (tv_frames v @ fs)"
proof (induction fs rule: rev_induct)
  case Nil
  then show ?case using assms by (simp add: feed_def)
next
  case (snoc f fs)
  have "feed (fs @ [f]) v = addFrame (fr_symbols f) (fr_confidence f) (feed fs v)" by (simp add: feed_def)
  moreover have "\<lparr>fr_symbols = fr_symbols f, fr_confidence = fr_confidence f\<rparr> = f" by simp
  ultimately show ?case
    using snoc drop_window[of "tv_frames v @ fs" "vc_window (tv_cfg v)" f] by (simp add: addFrame_def Let_def del: length_append drop_append length_drop)
qed

text \<open>The frame a decoder hands over for the minute \<open>i\<close> after \<open>t\<close>.\<close>

definition minute_frame :: "TimeFields \<Rightarrow> (nat \<Rightarrow> FieldIndex \<Rightarrow> real) \<Rightarrow> nat \<Rightarrow> Frame" where
  "minute_frame t c i = synthetic_frame (Some (advanceMinutes t (int i), c i))"

definition station_voter :: "int \<Rightarrow> TimeFields \<Rightarrow> (nat \<Rightarrow> FieldIndex \<Rightarrow> real) \<Rightarrow> nat \<Rightarrow> TimeFrameVoter" where
  "station_voter bound t c n =
     feed (map (minute_frame t c) [0..<n]) (setPlausibility True bound (mk_TimeFrameVoter dcf77_voterConfig))"

lemma station_voter_parts:
  "tv_frames (station_voter bound t c n) = map (minute_frame t c) [n - 8..<n]"
  "vc_fields (tv_cfg (station_voter bound t c n)) = vmap" "vc_agingFactor (tv_cfg (station_voter bound t c n)) = 9 / 10"
  "vc_minBitConfidence (tv_cfg (station_voter bound t c n)) = 5 / 100" "vc_minLockQuality (tv_cfg (station_voter bound t c n)) = 5 / 100"
  "vc_minFramesForLock (tv_cfg (station_voter bound t c n)) = 2" "vc_plausibilityBoundMinutes (tv_cfg (station_voter bound t c n)) = bound"
  "vc_haveReference (tv_cfg (station_voter bound t c n))"
  using feed_window[of "setPlausibility True bound (mk_TimeFrameVoter dcf77_voterConfig)"]
  by (auto simp: station_voter_def setPlausibility_def mk_TimeFrameVoter_def dcf77_voterConfig_def default_VoterConfig_def drop_map)

lemma synthetic_raw:
  assumes "vc_fields cfg = vmap" "rangeValid utc"
  shows "rawFields cfg (synthetic_frame (Some (utc, c))) = utc"
proof -
  have "decodeField cfg (synthetic_frame (Some (utc, c))) fld = tf_get utc fld" for fld
    using fits_field[OF fits_vmap[OF assms]] synthetic_bits(1)[OF assms(1)] by (intro decode_encoded) auto
  then have "decodeField cfg (synthetic_frame (Some (utc, c))) = tf_get utc" by auto
  then show ?thesis by (simp add: rawFields_def tf_of_get)
qed

lemma synthetic_spells:
  assumes "vc_fields cfg = vmap" "rangeValid utc"
  shows "spells cfg (advanceMinutes utc (int k)) (normalize_frame cfg k (synthetic_frame (Some (utc, c))))"
proof -
  have "map bit_symbol (valid_bits cfg (synthetic_frame (Some (utc, c))) utc (advanceMinutes utc (int k)) fld)
      = encodeField (vc_fields cfg fld) (tf_get (advanceMinutes utc (int k)) fld)" for fld
    using synthetic_bits(1)[OF assms(1), of utc c fld] by (simp add: valid_bits_def Let_def comp_def)
  then show ?thesis using synthetic_raw[OF assms] assms(2) by (simp add: spells_def normalize_frame_def Let_def all_fields_iff)
qed

lemma synthetic_newest_confidence:
  assumes "vc_fields cfg = vmap" "rangeValid utc" "b \<in> set (nf_bits (normalize_frame cfg 0 (synthetic_frame (Some (utc, c)))) fld)"
  shows "bit_confidence b = c fld"
proof -
  have "advanceMinutes utc 0 = utc" using advance_zero[OF assms(2)] .
  then show ?thesis using assms synthetic_raw[OF assms(1,2)] synthetic_bits(2)[OF assms(1)]
    by (auto simp: normalize_frame_def Let_def valid_bits_def)
qed

lemma station_frames_spell:
  fixes c :: "nat \<Rightarrow> FieldIndex \<Rightarrow> real" and bound :: int
  assumes "rangeValid t" "1 \<le> n" "utc_of t + int n * 60000 < utcMsFromFields 100 1 0 0" "j < min n 8"
  defines "v \<equiv> station_voter bound t c n"
  shows "spells (tv_cfg v) (advanceMinutes t (int n - 1)) (buildNormalizedFrames v ! j)"
proof -
  let ?i = "n - 8 + j"
  have len: "length (tv_frames v) = min n 8" by (simp add: v_def station_voter_parts(1))
  have i: "?i < n" "min n 8 - 1 - j = n - 1 - ?i" using assms(4) by auto
  have "tv_frames v ! j = minute_frame t c ?i" using i(1) by (simp add: v_def station_voter_parts(1))
  then have nf: "buildNormalizedFrames v ! j = normalize_frame (tv_cfg v) (n - 1 - ?i) (synthetic_frame (Some (advanceMinutes t (int ?i), c ?i)))"
    using assms(4) len i(2) by (simp add: buildNormalizedFrames_nth minute_frame_def)
  have "int ?i + int (n - 1 - ?i) = int n - 1" using i(1) by simp
  moreover have "advanceMinutes (advanceMinutes t (int ?i)) (int (n - 1 - ?i)) = advanceMinutes t (int ?i + int (n - 1 - ?i))"
    using assms(1,3) i(1) by (intro advance_add) simp_all
  ultimately have "advanceMinutes (advanceMinutes t (int ?i)) (int (n - 1 - ?i)) = advanceMinutes t (int n - 1)" by simp
  then show ?thesis
    using synthetic_spells[of "tv_cfg v" "advanceMinutes t (int ?i)" "n - 1 - ?i" "c ?i"] advance_valid[OF assms(1)] station_voter_parts(2)
    unfolding nf by (simp add: v_def)
qed

lemma station_window_clean:
  fixes c :: "nat \<Rightarrow> FieldIndex \<Rightarrow> real" and bound :: int
  assumes "rangeValid t" "1 \<le> n" "utc_of t + int n * 60000 < utcMsFromFields 100 1 0 0" "\<And>fld. 5 / 100 \<le> c (n - 1) fld"
  defines "v \<equiv> station_voter bound t c n"
  shows "clean_window (tv_cfg v) (buildNormalizedFrames v) (advanceMinutes t (int n - 1))"
proof -
  let ?fs = "buildNormalizedFrames v"
  have len: "length ?fs = min n 8" by (simp add: v_def station_voter_parts(1))
  have "0 < length ?fs" unfolding len using assms(2) by simp
  then have ne: "?fs \<noteq> []" by blast
  have "list_all (spells (tv_cfg v) (advanceMinutes t (int n - 1))) ?fs"
    unfolding list_all_length len using station_frames_spell[OF assms(1-3)] by (simp add: v_def)
  moreover have l: "last ?fs = normalize_frame (tv_cfg v) 0 (synthetic_frame (Some (advanceMinutes t (int (n - 1)), c (n - 1))))"
  proof -
    have "last ?fs = ?fs ! (min n 8 - 1)" using ne len by (simp add: last_conv_nth)
    moreover have "tv_frames v ! (min n 8 - 1) = minute_frame t c (n - 1)" using assms(2) by (simp add: v_def station_voter_parts(1)) (auto simp: min_def)
    moreover have "min n 8 - 1 < length (tv_frames v)" "length (tv_frames v) - 1 - (min n 8 - 1) = 0" using len assms(2) by auto
    ultimately show ?thesis using buildNormalizedFrames_nth[of "min n 8 - 1" v] by (simp only: minute_frame_def)
  qed
  moreover have "vc_minBitConfidence (tv_cfg v) \<le> bit_confidence b" if "b \<in> set (nf_bits (last ?fs) fld)" for b fld
  proof -
    have "vc_fields (tv_cfg v) = vmap" "vc_minBitConfidence (tv_cfg v) = 5 / 100" by (simp_all add: v_def station_voter_parts)
    moreover have "rangeValid (advanceMinutes t (int (n - 1)))" using advance_valid[OF assms(1)] by simp
    ultimately show ?thesis using that assms(4)[of fld] synthetic_newest_confidence unfolding l by fastforce
  qed
  ultimately show ?thesis using ne by (simp add: clean_window_def list_all_iff normalize_frame_simps)
qed

lemma station_locks:
  assumes "rangeValid t" "2 \<le> n" "utc_of t + int n * 60000 < utcMsFromFields 100 1 0 0"
    "\<And>i fld. 0 \<le> c i fld" "\<And>fld. 5 / 100 \<le> c (n - 1) fld" "fields_in_range ref"
    "\<bar>utc_of t + (int n - 1) * 60000 - utc_of ref\<bar> \<le> bound * 60000"
  shows "locked ref (station_voter bound t c n) \<and> votedTimestamp (station_voter bound t c n) = advanceMinutes t (int n - 1)"
proof (rule clean_minutes_lock)
  let ?v = "station_voter bound t c n" and ?T = "advanceMinutes t (int n - 1)"
  note parts = station_voter_parts
  have "list_all (\<lambda>c. 0 \<le> c) (fr_confidence (minute_frame t c i))" for i
    unfolding minute_frame_def using synthetic_conf_nonneg[OF assms(4)] .
  moreover have "length (fr_confidence (minute_frame t c i)) = 60" "length (fr_symbols (minute_frame t c i)) = 60" for i
    by (simp_all add: minute_frame_def)
  ultimately show "arrays_ok ?v" by (simp add: arrays_ok_def parts(1) list.pred_map comp_def list.pred_True)
  show "fits (tv_cfg ?v) ?T" using fits_vmap parts(2) advance_valid[OF assms(1)] assms(2) by simp
  show "clean_window (tv_cfg ?v) (buildNormalizedFrames ?v) ?T"
    using station_window_clean[where c = c, OF assms(1) _ assms(3,5)] assms(2) by simp
  show "vc_minFramesForLock (tv_cfg ?v) \<le> int (length (tv_frames ?v))" using assms(2) by (simp add: parts)
  have "utc_of ?T = utc_of t + (int n - 1) * 60000" "rangeValid ?T"
    using advance_utc[OF assms(1)] advance_valid[OF assms(1)] assms(2,3) by simp_all
  with assms(6,7) have "\<bar>minutesSince2000 ?T * 60000 - minutesSince2000 ref * 60000\<bar> \<le> bound * 60000"
    by (simp add: minutesSince2000_utc rangeValid_iff fields_in_range_def)
  then show "plausible (tv_cfg ?v) ref ?T" by (simp add: plausible_def parts) linarith
qed (simp_all add: station_voter_parts)

text \<open>
  Consecutive minutes lock the voter. From the second minute on, whatever the number fed since,
  a voter given a station's minutes in a row locks and names the newest minute, if that minute was
  read above the confidence floor and lies within the plausibility bound of the reference clock.
  Hours, days and years may roll over anywhere in between.
\<close>

theorem station_minutes_lock:
  assumes "rangeValid t" "2 \<le> n" "utc_of t + int n * 60000 < utcMsFromFields 100 1 0 0"
    "\<And>i fld. 0 \<le> c i fld" "\<And>fld. 5 / 100 \<le> c (n - 1) fld" "fields_in_range ref"
    "\<bar>utc_of t + (int n - 1) * 60000 - utc_of ref\<bar> \<le> bound * 60000"
  shows "locked ref (station_voter bound t c n) \<and> votedTimestamp (station_voter bound t c n) = advanceMinutes t (int n - 1)"
  using assms by (rule station_locks)

theorem station_minutes_lock_witness:
  "locked \<lparr>tf_minute = 2, tf_hour = 0, tf_doy = 1, tf_year2 = 25\<rparr>
     (station_voter 1440 \<lparr>tf_minute = 58, tf_hour = 23, tf_doy = 366, tf_year2 = 24\<rparr> (\<lambda>_ _. 1 / 2) 12)
   \<and> votedTimestamp (station_voter 1440 \<lparr>tf_minute = 58, tf_hour = 23, tf_doy = 366, tf_year2 = 24\<rparr> (\<lambda>_ _. 1 / 2) 12)
     = advanceMinutes \<lparr>tf_minute = 58, tf_hour = 23, tf_doy = 366, tf_year2 = 24\<rparr> (int 12 - 1)"
proof (rule station_minutes_lock)
  show "rangeValid \<lparr>tf_minute = 58, tf_hour = 23, tf_doy = 366, tf_year2 = 24\<rparr>" by code_simp
  show "utc_of \<lparr>tf_minute = 58, tf_hour = 23, tf_doy = 366, tf_year2 = 24\<rparr> + int 12 * 60000 < utcMsFromFields 100 1 0 0" by code_simp
  show "fields_in_range \<lparr>tf_minute = 2, tf_hour = 0, tf_doy = 1, tf_year2 = 25\<rparr>" by code_simp
  show "\<bar>utc_of \<lparr>tf_minute = 58, tf_hour = 23, tf_doy = 366, tf_year2 = 24\<rparr> + (int 12 - 1) * 60000
      - utc_of \<lparr>tf_minute = 2, tf_hour = 0, tf_doy = 1, tf_year2 = 25\<rparr>\<bar> \<le> 1440 * 60000" by code_simp
qed simp_all

text \<open>The gates hold of such a window.\<close>

definition new_year_window :: TimeFrameVoter where
  "new_year_window = station_voter 1440 \<lparr>tf_minute = 58, tf_hour = 23, tf_doy = 366, tf_year2 = 24\<rparr> (\<lambda>_ _. 1 / 2) 4"

definition new_year_reference :: TimeFields where
  "new_year_reference = \<lparr>tf_minute = 2, tf_hour = 0, tf_doy = 1, tf_year2 = 25\<rparr>"

lemma new_year_locked: "locked new_year_reference new_year_window"
proof -
  let ?t = "\<lparr>tf_minute = 58, tf_hour = 23, tf_doy = 366, tf_year2 = 24\<rparr>"
  have "rangeValid ?t" "utc_of ?t + int 4 * 60000 < utcMsFromFields 100 1 0 0" "fields_in_range new_year_reference"
    "\<bar>utc_of ?t + (int 4 - 1) * 60000 - utc_of new_year_reference\<bar> \<le> 1440 * 60000" by code_simp+
  then show ?thesis unfolding new_year_window_def by (intro station_locks[THEN conjunct1]) simp_all
qed

theorem lock_certifies_witness:
  "vc_minFramesForLock (tv_cfg new_year_window) \<le> int (length (tv_frames new_year_window))
    \<and> vc_minFramesForLock (tv_cfg new_year_window) - 1 \<le> increments (map (decodeMinutes (tv_cfg new_year_window)) (tv_frames new_year_window))
    \<and> (\<exists>i < length (tv_frames new_year_window). rangeValid (rawFields (tv_cfg new_year_window) (tv_frames new_year_window ! i))
         \<and> int (length (tv_frames new_year_window) - 1 - i) \<le> vc_maxNewestValidAge (tv_cfg new_year_window))
    \<and> fields_in_range (votedTimestamp new_year_window)
    \<and> \<bar>utc_of (votedTimestamp new_year_window) - utc_of new_year_reference\<bar> \<le> vc_plausibilityBoundMinutes (tv_cfg new_year_window) * 60000"
proof (rule lock_certifies[OF new_year_locked])
  show "0 < vc_agingFactor (tv_cfg new_year_window)" "0 \<le> vc_maxNewestValidAge (tv_cfg new_year_window)"
    "vc_haveReference (tv_cfg new_year_window)" "0 < vc_plausibilityBoundMinutes (tv_cfg new_year_window)"
    "fields_in_range new_year_reference" by code_simp+
qed

end
