(* ===== verification/Clock_Events.thy ===== *)
theory Clock_Events
  imports Frame_Voter
begin

text \<open>
  What a decoder tells the source that owns it, from \<^verbatim>\<open>src/src/clock/TimeFrameVoter.h\<close>: the arguments of
  the four callbacks and the diagnostics. The envelope a second carries for the display, and the
  figures of the diagnostics nothing acts on, are left out. An edge position before rounding is
  \<open>None\<close> where the source has a NaN.
\<close>

datatype ClockLockState = LsNoSignal | LsAcquiring | LsLocked

datatype ClockStation = StUnknown | StWwv | StWwvh | StWwvb | StDcf77 | StMsf | StAllouis

record ClockSecondInfo =
  si_edgeSample :: int
  si_edgeSampleExact :: "real option"
  si_edgeMeasured :: bool
  si_edgeServable :: bool
  si_symbol :: ClockSymbol
  si_confidence :: real
  si_secondOfFrame :: int

record ClockFrameInfo =
  fi_minute :: int
  fi_hour :: int
  fi_doy :: int
  fi_year2 :: int
  fi_dut1Tenths :: int
  fi_dst1 :: bool
  fi_dst2 :: bool
  fi_leapPending :: bool
  fi_frameConfidence :: real
  fi_frameStartSample :: int
  fi_station :: ClockStation

definition default_ClockFrameInfo :: ClockFrameInfo where
  "default_ClockFrameInfo = \<lparr>fi_minute = -1, fi_hour = -1, fi_doy = -1, fi_year2 = -1, fi_dut1Tenths = 0, fi_dst1 = False,
     fi_dst2 = False, fi_leapPending = False, fi_frameConfidence = 0, fi_frameStartSample = 0, fi_station = StUnknown\<rparr>"

record ClockTimeInfo =
  ti_minute :: int
  ti_hour :: int
  ti_doy :: int
  ti_year2 :: int
  ti_quality :: real
  ti_lastEdgeSample :: int
  ti_lastEdgeSampleExact :: "real option"
  ti_lastEdgeSecondOfFrame :: int
  ti_station :: ClockStation

record ClockDecoderDiagnostics =
  dd_toneDetected :: bool
  dd_phaseLocked :: bool
  dd_anchored :: bool
  dd_framesInWindow :: int
  dd_windowSize :: int
  dd_refusalReason :: ClockLockRefusal
  dd_pmLocked :: bool
  dd_timingFromPm :: bool
  dd_tickTiming :: bool

text \<open>The callbacks, in the order a decoder makes them.\<close>

datatype ClockEvent = StateChanged ClockLockState | OnSecond ClockSecondInfo | OnFrame ClockFrameInfo | OnTime ClockTimeInfo

end
