(* ===== verification/Msf_Decoder.thy ===== *)
theory Msf_Decoder
  imports Station_Frames Clock_Events
begin

text \<open>
  The MSF decoder above the signal processing, \<^verbatim>\<open>src/src/clock/MsfDecoder.cpp\<close>: the tracker of second
  edges, the seconds collected into a minute, the minute's structure and time code, and the lock.
  What the signal processing reads of a second, where its edge was measured and how the second was
  classified, is an argument of \<open>msf_processSecond\<close>. The callbacks made are logged in the state, oldest
  first. The carrier search, the filters and the classification itself are not modelled.
\<close>

section \<open>Constants\<close>

definition kStructConf :: real where "kStructConf = 50 / 100"
definition kSyncConf :: real where "kSyncConf = 60 / 100"
definition kIdBitMinConf :: real where "kIdBitMinConf = 10 / 100"
definition kIdMeanConf :: real where "kIdMeanConf = 40 / 100"
definition kBitMinConf :: real where "kBitMinConf = 5 / 100"
definition kTrkAlpha :: real where "kTrkAlpha = 1 / 8"
definition kTrkWarm :: int where "kTrkWarm = 8"
definition kTrkAlphaMin :: real where "kTrkAlphaMin = 1 / 32"
definition kTrkOutlierSec :: real where "kTrkOutlierSec = 2 / 1000"
definition kReseedSec :: real where "kReseedSec = 1 / 1000"
definition kReseedWindow :: nat where "kReseedWindow = 15"
definition kReseedSig :: real where "kReseedSig = 4"
definition kMaxBlindSeconds :: int where "kMaxBlindSeconds = 90"
definition kMaxUnconfirmedMinutes :: int where "kMaxUnconfirmedMinutes = 2"
definition kFrameCap :: int where "kFrameCap = 62"

definition kTrkNoiseRefSec :: real where "kTrkNoiseRefSec = 1 / 10000"
definition msf_kWarmEnv :: int where "msf_kWarmEnv = 200"
definition msf_kEdgeLook :: int where "msf_kEdgeLook = 12"
definition msf_kEnvCap :: int where "msf_kEnvCap = 1024"

definition kIdentifier :: "int list" where
  "kIdentifier = [0, 1, 1, 1, 1, 1, 1, 0]"

section \<open>The edge tracker\<close>

record EdgeTracker =
  et_valid :: bool
  et_edge :: real
  et_period :: real
  et_count :: int
  et_outliers :: int
  et_resVar :: real
  et_noiseRef :: real

definition mk_EdgeTracker :: EdgeTracker where
  "mk_EdgeTracker = \<lparr>et_valid = False, et_edge = 0, et_period = 0, et_count = 0, et_outliers = 0, et_resVar = 0, et_noiseRef = 1\<rparr>"

definition et_reset :: "EdgeTracker \<Rightarrow> EdgeTracker" where
  "et_reset k = k\<lparr>et_valid := False, et_count := 0, et_outliers := 0, et_resVar := 0\<rparr>"

definition et_alpha :: "EdgeTracker \<Rightarrow> real" where
  "et_alpha k =
     (let rms = sqrt (et_resVar k)
      in if \<not> et_noiseRef k < rms then kTrkAlpha else max kTrkAlphaMin (kTrkAlpha * et_noiseRef k / rms))"

definition et_update :: "bool \<Rightarrow> real \<Rightarrow> real \<Rightarrow> real \<Rightarrow> EdgeTracker \<Rightarrow> EdgeTracker" where
  "et_update measured raw nominal tol k =
     (if \<not> et_valid k then
        (if \<not> measured then k
         else k\<lparr>et_edge := raw, et_period := nominal, et_valid := True, et_count := 1, et_outliers := 0\<rparr>)
      else
        let pred = et_edge k + et_period k
        in if \<not> measured then k\<lparr>et_edge := pred\<rparr>
           else
             let r = raw - pred
             in if tol < \<bar>r\<bar> then
                  (if 3 \<le> et_outliers k + 1
                   then k\<lparr>et_edge := raw, et_period := nominal, et_count := 1, et_outliers := 0, et_resVar := 0\<rparr>
                   else k\<lparr>et_outliers := et_outliers k + 1, et_edge := pred\<rparr>)
                else
                  let n = et_count k + 1;
                      k = k\<lparr>et_outliers := 0, et_count := n,
                            et_resVar := et_resVar k + (if n \<le> 16 then 1 / of_int n else 1 / 16) * (r * r - et_resVar k)\<rparr>;
                      a = et_alpha k;
                      k = k\<lparr>et_edge := pred + max (1 / of_int n) a * r\<rparr>
                  in if kTrkWarm < n
                     then k\<lparr>et_period := clamp (et_period k + 1 / 2 * a * a * r) (nominal * (1 - 2 / 10 ^ 4)) (nominal * (1 + 2 / 10 ^ 4))\<rparr>
                     else k)"

section \<open>State\<close>

record MsfSec =
  ms_edge :: int
  ms_edgeExact :: "real option"
  ms_read :: bool
  ms_marker :: bool
  ms_markConf :: real
  ms_a :: int
  ms_b :: int
  ms_aConf :: real
  ms_bConf :: real
  ms_cut :: bool

definition default_MsfSec :: MsfSec where
  "default_MsfSec = \<lparr>ms_edge = 0, ms_edgeExact = None, ms_read = False, ms_marker = False, ms_markConf = 0, ms_a = 0, ms_b = 0,
     ms_aConf = 0, ms_bConf = 0, ms_cut = True\<rparr>"

definition confMarker :: "MsfSec \<Rightarrow> real \<Rightarrow> bool" where
  "confMarker r c \<longleftrightarrow> ms_read r \<and> ms_marker r \<and> c \<le> ms_markConf r"

record MsfDecoded =
  mx_minute :: int
  mx_hour :: int
  mx_day :: int
  mx_month :: int
  mx_year2 :: int
  mx_wday :: int
  mx_summer :: bool
  mx_summerSoon :: bool
  mx_dut1Tenths :: int
  mx_utc :: TimeFields
  mx_utcMs :: int

text \<open>The frame is an array of \<^verbatim>\<open>kFrameCap\<close> seconds.\<close>

record MsfDecoder =
  md_sr :: int
  md_decim :: int
  md_voter :: TimeFrameVoter
  md_lockState :: ClockLockState
  md_segValid :: bool
  md_segEdge :: real
  md_scanPos :: int
  md_blindSeconds :: int
  md_trk :: EdgeTracker
  md_wideOff :: "real list"
  md_hist :: "MsfSec list"
  md_anchored :: bool
  md_sofNext :: int
  md_frame :: "MsfSec list"
  md_frFilled :: int
  md_frStart :: int
  md_haveLastFrame :: bool
  md_lastFrameStart :: int
  md_lastFrameLen :: int
  md_lastFrameFrom :: int
  md_unconfirmedRun :: int
  md_haveVoted :: bool
  md_votedMinute :: int
  md_votedHour :: int
  md_votedDoy :: int
  md_votedYear :: int
  md_votedQuality :: real
  md_out :: "ClockEvent list"

definition msf_emit :: "ClockEvent \<Rightarrow> MsfDecoder \<Rightarrow> MsfDecoder" where
  "msf_emit ev d = d\<lparr>md_out := md_out d @ [ev]\<rparr>"

definition msf_setLockState :: "ClockLockState \<Rightarrow> MsfDecoder \<Rightarrow> MsfDecoder" where
  "msf_setLockState st d =
     (if st \<noteq> md_lockState d then msf_emit (StateChanged st) (d\<lparr>md_lockState := st\<rparr>) else d)"

definition blank_seconds :: "MsfSec list" where
  "blank_seconds = replicate (nat kFrameCap) default_MsfSec"

definition msf_dropAnchor :: "MsfDecoder \<Rightarrow> MsfDecoder" where
  "msf_dropAnchor d = d\<lparr>md_anchored := False, md_sofNext := 0, md_haveVoted := False, md_frame := blank_seconds,
     md_frFilled := 0, md_frStart := 0, md_unconfirmedRun := 0\<rparr>"

definition msf_demote :: "MsfDecoder \<Rightarrow> MsfDecoder" where
  "msf_demote d =
     (let d = d\<lparr>md_haveVoted := False\<rparr>
      in if md_lockState d = LsLocked then msf_setLockState LsAcquiring d else d)"

definition msf_startFrame :: "MsfSec \<Rightarrow> MsfDecoder \<Rightarrow> MsfDecoder" where
  "msf_startFrame r d =
     d\<lparr>md_frame := blank_seconds[0 := r], md_frFilled := 1, md_frStart := ms_edge r, md_sofNext := 1\<rparr>"

section \<open>The identifier\<close>

text \<open>The loop over the eight seconds, with the sum so far.\<close>

fun identifier_loop :: "(MsfSec \<times> int) list \<Rightarrow> real \<Rightarrow> real option" where
  "identifier_loop [] acc = Some acc"
| "identifier_loop ((r, v) # rs) acc =
     (if \<not> ms_read r \<or> \<not> ms_cut r \<or> ms_aConf r < kIdBitMinConf then None
      else if confMarker r kStructConf then None
      else if ms_a r \<noteq> v then None
      else identifier_loop rs (acc + ms_aConf r))"

definition identifierAt :: "MsfSec list \<Rightarrow> bool" where
  "identifierAt rs =
     (case identifier_loop (zip rs kIdentifier) 0 of None \<Rightarrow> False | Some acc \<Rightarrow> 8 * kIdMeanConf \<le> acc)"

definition identifierInHist :: "MsfDecoder \<Rightarrow> bool" where
  "identifierInHist d =
     (if length (md_hist d) < 8 then False else identifierAt (drop (length (md_hist d) - 8) (md_hist d)))"

definition identifierEndsAt :: "int \<Rightarrow> MsfDecoder \<Rightarrow> bool" where
  "identifierEndsAt lst d =
     (if lst < 7 \<or> md_frFilled d \<le> lst then False else identifierAt (take 8 (drop (nat (lst - 7)) (md_frame d))))"

section \<open>The time code\<close>

text \<open>Bit A or B of second \<open>p\<close> in a minute of \<open>n\<close> seconds, with its confidence, if it can be read.\<close>

definition bitAt :: "int \<Rightarrow> int \<Rightarrow> bool \<Rightarrow> MsfDecoder \<Rightarrow> (int \<times> real) option" where
  "bitAt n p isA d =
     (let fromEnd = (if isA then 17 \<le> p else 52 \<le> p);
          idx = (if fromEnd then p + (n - 60) else p)
      in if idx < 1 \<or> md_frFilled d \<le> idx then None
         else let r = md_frame d ! nat idx
              in if \<not> ms_read r \<or> \<not> ms_cut r \<or> confMarker r kStructConf then None
                 else let c = (if isA then ms_aConf r else ms_bConf r)
                      in if kBitMinConf \<le> c then Some (if isA then ms_a r else ms_b r, c) else None)"

text \<open>The bits of a run of seconds, and the least confidence with \<open>m\<close>.\<close>

fun bits_from :: "int \<Rightarrow> bool \<Rightarrow> MsfDecoder \<Rightarrow> int list \<Rightarrow> real \<Rightarrow> (int list \<times> real) option" where
  "bits_from n isA d [] m = Some ([], m)"
| "bits_from n isA d (p # ps) m =
     (case bitAt n p isA d of
        None \<Rightarrow> None
      | Some (v, c) \<Rightarrow> (case bits_from n isA d ps (min m c) of None \<Rightarrow> None | Some (bits, m) \<Rightarrow> Some (v # bits, m)))"

text \<open>The code of a minute on its own: \<open>A\<close> reads bit A of seconds 17 to 51, \<open>B\<close> bit B of 53 to 58.\<close>

definition oddOk :: "(int \<Rightarrow> int) \<Rightarrow> (int \<Rightarrow> int) \<Rightarrow> int \<Rightarrow> int \<Rightarrow> int \<Rightarrow> bool" where
  "oddOk A B lo hi pb \<longleftrightarrow> (B pb + sum_list (map A [lo..hi])) mod 2 = 1"

definition msb :: "(int \<Rightarrow> int) \<Rightarrow> int \<Rightarrow> int list \<Rightarrow> int" where
  "msb A base weights = sum_list (map2 (\<lambda>p w. A p * w) [base..base + int (length weights) - 1] weights)"

definition digitsOk :: "(int \<Rightarrow> int) \<Rightarrow> int \<Rightarrow> int \<Rightarrow> bool" where
  "digitsOk A base tensBits \<longleftrightarrow> fold (\<lambda>i u. u * 2 + A (base + tensBits + i)) [0..3] 0 \<le> 9"

definition dut1_of :: "(int \<times> real) option list \<Rightarrow> int" where
  "dut1_of bits =
     (let set_bit = (\<lambda>b. case b of Some (v, c) \<Rightarrow> v \<noteq> 0 | None \<Rightarrow> False);
          pos = int (length (filter set_bit (take 8 bits))); neg = int (length (filter set_bit (drop 8 bits)))
      in if 0 < pos \<and> neg = 0 then pos else if 0 < neg \<and> pos = 0 then - neg else 0)"

definition msf_code :: "(int \<Rightarrow> int) \<Rightarrow> (int \<Rightarrow> int) \<Rightarrow> int \<Rightarrow> MsfDecoded option" where
  "msf_code A B dut1 =
     (if \<not> oddOk A B 17 24 54 \<or> \<not> oddOk A B 25 35 55 \<or> \<not> oddOk A B 36 38 56 \<or> \<not> oddOk A B 39 51 57 then None
      else if \<not> digitsOk A 17 4 \<or> \<not> digitsOk A 25 1 \<or> \<not> digitsOk A 30 2 \<or> \<not> digitsOk A 39 2 \<or> \<not> digitsOk A 45 3 then None
      else
        let year2 = msb A 17 [80, 40, 20, 10, 8, 4, 2, 1];
            month = msb A 25 [10, 8, 4, 2, 1];
            day = msb A 30 [20, 10, 8, 4, 2, 1];
            wday = msb A 36 [4, 2, 1];
            hour = msb A 39 [20, 10, 8, 4, 2, 1];
            minute = msb A 45 [40, 20, 10, 8, 4, 2, 1]
        in if 59 < minute \<or> 23 < hour \<or> month < 1 \<or> 12 < month \<or> day < 1 \<or> 6 < wday then None
           else
             let days = daysFromCivil (2000 + year2) month day;
                 (cy, cm, cd) = civilFromDays days
             in if cm \<noteq> month \<or> cd \<noteq> day then None
                else if floorMod (days + 4) 7 \<noteq> wday then None
                else
                  let summer = (B 58 = 1); summerSoon = (B 53 = 1);
                      nextLocalMin = days * 1440 + hour * 60 + minute;
                      s0UtcMin = nextLocalMin - (if summer then 60 else 0) - 1;
                      utcMs = s0UtcMin * 60000
                  in Some \<lparr>mx_minute = minute, mx_hour = hour, mx_day = day, mx_month = month, mx_year2 = year2, mx_wday = wday,
                           mx_summer = summer, mx_summerSoon = summerSoon, mx_dut1Tenths = dut1, mx_utc = hostNowFields utcMs,
                           mx_utcMs = utcMs\<rparr>)"

definition nth_from :: "int \<Rightarrow> int list \<Rightarrow> int \<Rightarrow> int" where
  "nth_from base xs p = (if base \<le> p \<and> p < base + int (length xs) then xs ! nat (p - base) else 0)"

definition msf_decode :: "int \<Rightarrow> MsfDecoder \<Rightarrow> (MsfDecoded \<times> real) option" where
  "msf_decode n d =
     (case bits_from n True d [17..51] 1 of
        None \<Rightarrow> None
      | Some (abits, m) \<Rightarrow>
          (case bits_from n False d [53..58] m of
             None \<Rightarrow> None
           | Some (bbits, m) \<Rightarrow>
               (case msf_code (nth_from 17 abits) (nth_from 53 bbits) (dut1_of (map (\<lambda>p. bitAt n p False d) [1..16])) of
                  None \<Rightarrow> None | Some x \<Rightarrow> Some (x, m))))"

section \<open>The end of a minute\<close>

text \<open>Seconds of the identifier that read clearly wrong.\<close>

definition idWrong :: "int \<Rightarrow> MsfDecoder \<Rightarrow> nat" where
  "idWrong n d =
     length (filter (\<lambda>j. 1 \<le> n - 8 + j \<and>
        (let r = md_frame d ! nat (n - 8 + j)
         in ms_read r \<and> ms_cut r \<and> kStructConf \<le> ms_aConf r \<and> ms_a r \<noteq> kIdentifier ! nat j)) [0..7])"

definition strayMarks :: "int \<Rightarrow> MsfDecoder \<Rightarrow> nat" where
  "strayMarks n d = length (filter (\<lambda>j. confMarker (md_frame d ! nat j) kStructConf) [1..n - 1])"

definition msf_frame_info :: "MsfDecoder \<Rightarrow> (MsfDecoded \<times> real) option \<Rightarrow> ClockFrameInfo" where
  "msf_frame_info d dec =
     (let fi = default_ClockFrameInfo\<lparr>fi_frameStartSample := md_frStart d, fi_station := StMsf\<rparr>
      in case dec of None \<Rightarrow> fi
         | Some (x, m) \<Rightarrow>
             fi\<lparr>fi_minute := tf_minute (mx_utc x), fi_hour := tf_hour (mx_utc x), fi_doy := tf_doy (mx_utc x), fi_year2 := tf_year2 (mx_utc x),
                fi_dut1Tenths := mx_dut1Tenths x, fi_dst1 := mx_summer x, fi_dst2 := mx_summer x, fi_frameConfidence := m\<rparr>)"

text \<open>The frame goes to the voter, and the voter decides the lock; \<open>ref\<close> is the reference clock.\<close>

definition msf_vote :: "TimeFields \<Rightarrow> int \<Rightarrow> bool \<Rightarrow> (MsfDecoded \<times> real) option \<Rightarrow> MsfDecoder \<Rightarrow> MsfDecoder" where
  "msf_vote ref n confirmed dec d0 =
     (let frame = synthetic_frame (map_option (\<lambda>(x, m). (mx_utc x, \<lambda>_. m)) dec);
          d = msf_emit (OnFrame (msf_frame_info d0 dec)) d0;
          P = (if et_valid (md_trk d) then et_period (md_trk d) else of_int (md_sr d));
          consecutive = (md_haveLastFrame d
             \<and> \<bar>of_int (md_frStart d - md_lastFrameStart d) - of_int (md_lastFrameLen d) * P\<bar> \<le> 25 / 100 * of_int (md_sr d));
          voter = addFrame (fr_symbols frame) (fr_confidence frame) (if \<not> consecutive then voter_reset (md_voter d) else md_voter d);
          d = d\<lparr>md_haveLastFrame := True, md_lastFrameStart := md_frStart d, md_lastFrameLen := n, md_voter := voter\<rparr>;
          certified = locked ref voter;
          d = (if certified
               then d\<lparr>md_votedMinute := votedField voter FieldMinutes, md_votedHour := votedField voter FieldHours,
                      md_votedDoy := votedField voter FieldDoy, md_votedYear := votedField voter FieldYear,
                      md_votedQuality := lockConfidence voter\<rparr>
               else d)
      in if certified \<and> confirmed \<and> n = 60 then msf_setLockState LsLocked (d\<lparr>md_haveVoted := True\<rparr>) else msf_demote d)"

text \<open>Is the minute where it is thought to be?\<close>

definition msf_contradicted :: "int \<Rightarrow> MsfDecoder \<Rightarrow> bool" where
  "msf_contradicted n d \<longleftrightarrow> 0 < strayMarks n d \<or> 2 \<le> idWrong n d"

definition msf_confirmed :: "int \<Rightarrow> bool \<Rightarrow> MsfDecoder \<Rightarrow> bool" where
  "msf_confirmed n endMarker d \<longleftrightarrow> n \<le> md_frFilled d \<and> \<not> msf_contradicted n d
     \<and> (identifierEndsAt (n - 1) d \<or> confMarker (md_frame d ! 0) kSyncConf \<and> endMarker)"

definition msf_finalizeFrame :: "TimeFields \<Rightarrow> int \<Rightarrow> bool \<Rightarrow> MsfDecoder \<Rightarrow> MsfDecoder" where
  "msf_finalizeFrame ref n endMarker d =
     (let contradicted = msf_contradicted n d;
          confirmed = msf_confirmed n endMarker d;
          d = (if \<not> contradicted \<and> \<not> confirmed then d\<lparr>md_unconfirmedRun := md_unconfirmedRun d + 1\<rparr> else d)
      in if contradicted \<or> \<not> confirmed \<and> kMaxUnconfirmedMinutes < md_unconfirmedRun d
         then (msf_demote (msf_dropAnchor d))\<lparr>md_haveLastFrame := False\<rparr>
         else
           let d = (if confirmed then d\<lparr>md_unconfirmedRun := 0\<rparr> else d);
               dec = (if confirmed then msf_decode n d else None)
           in msf_vote ref n confirmed dec (d\<lparr>md_lastFrameFrom := (if dec \<noteq> None then 1 else 0)\<rparr>))"

section \<open>One second\<close>

text \<open>After a minute is finalized at \<open>r\<close>: the number of \<open>r\<close> in its minute, -1 when the anchor is gone.\<close>

definition msf_afterFinalize :: "MsfSec \<Rightarrow> MsfDecoder \<Rightarrow> int \<times> MsfDecoder" where
  "msf_afterFinalize r d =
     (if \<not> md_anchored d \<and> \<not> confMarker r kStructConf then (-1, d)
      else (0, msf_startFrame r (d\<lparr>md_anchored := True\<rparr>)))"

definition msf_unanchored :: "MsfSec \<Rightarrow> MsfDecoder \<Rightarrow> int \<times> MsfDecoder" where
  "msf_unanchored r d =
     (if confMarker r kSyncConf then (0, msf_startFrame r (d\<lparr>md_anchored := True\<rparr>))
      else if identifierInHist d then (59, d\<lparr>md_anchored := True, md_sofNext := 0, md_frFilled := 0\<rparr>)
      else (-1, d))"

definition msf_anchored_second :: "TimeFields \<Rightarrow> MsfSec \<Rightarrow> MsfDecoder \<Rightarrow> int \<times> MsfDecoder" where
  "msf_anchored_second ref r d =
     (let sof = md_sofNext d
      in if sof = 0 then (sof, msf_startFrame r d)
         else if 59 \<le> sof \<and> confMarker r kStructConf then msf_afterFinalize r (msf_finalizeFrame ref sof True d)
         else if sof < 59 \<and> confMarker r kStructConf
         then (0, msf_startFrame r ((msf_demote d)\<lparr>md_haveLastFrame := False, md_unconfirmedRun := 0\<rparr>))
         else if 60 \<le> sof \<and> identifierEndsAt (sof - 1) d then msf_afterFinalize r (msf_finalizeFrame ref sof False d)
         else if kFrameCap - 1 \<le> sof then (-1, msf_demote (msf_dropAnchor d))
         else
           let d = d\<lparr>md_frame := (md_frame d)[nat sof := r], md_frFilled := sof + 1, md_sofNext := sof + 1\<rparr>
           in if 58 \<le> sof \<and> sof \<le> 60 \<and> identifierEndsAt sof d
              then let d = msf_finalizeFrame ref (sof + 1) False d
                   in (sof, if md_anchored d then d\<lparr>md_sofNext := 0\<rparr> else d)
              else (sof, d))"

definition msf_second_info :: "MsfSec \<Rightarrow> bool \<Rightarrow> int \<Rightarrow> ClockSecondInfo" where
  "msf_second_info r measured sof =
     \<lparr>si_edgeSample = ms_edge r, si_edgeSampleExact = ms_edgeExact r, si_edgeMeasured = measured, si_edgeServable = True,
      si_symbol = (if \<not> ms_read r then Unknown else if ms_marker r then Marker else if ms_a r \<noteq> 0 then One else Zero),
      si_confidence = (if ms_marker r then ms_markConf r else min (ms_markConf r) (ms_aConf r)), si_secondOfFrame = sof\<rparr>"

definition msf_time_info :: "MsfSec \<Rightarrow> int \<Rightarrow> MsfDecoder \<Rightarrow> ClockTimeInfo" where
  "msf_time_info r sof d =
     \<lparr>ti_minute = md_votedMinute d, ti_hour = md_votedHour d, ti_doy = md_votedDoy d, ti_year2 = md_votedYear d,
      ti_quality = md_votedQuality d, ti_lastEdgeSample = ms_edge r, ti_lastEdgeSampleExact = ms_edgeExact r,
      ti_lastEdgeSecondOfFrame = sof, ti_station = StMsf\<rparr>"

definition msf_handleSecond :: "TimeFields \<Rightarrow> MsfSec \<Rightarrow> bool \<Rightarrow> MsfDecoder \<Rightarrow> MsfDecoder" where
  "msf_handleSecond ref r measured d =
     (let (sof, d) = (if \<not> md_anchored d then msf_unanchored r d else msf_anchored_second ref r d);
          d = msf_emit (OnSecond (msf_second_info r measured sof)) d
      in if md_lockState d = LsLocked \<and> md_haveVoted d \<and> 0 \<le> sof \<and> sof < 60
         then msf_emit (OnTime (msf_time_info r sof d)) d else d)"

text \<open>
  What the signal processing gives for a second: the fine search at the prediction and whether there
  is keying, the wide search with its significance, the envelope's edge near the prediction, and the
  second classified at an edge.
\<close>

record MsfMeasure =
  mm_fine :: "real option"
  mm_haveContrast :: bool
  mm_wide :: "(real \<times> real) option"
  mm_near :: "real option"
  mm_classify :: "real \<Rightarrow> MsfSec"

text \<open>The wide search's offsets, and where the tracker is re-seeded when their median is far off.\<close>

definition msf_reseed :: "real \<Rightarrow> MsfMeasure \<Rightarrow> MsfDecoder \<Rightarrow> real option \<times> MsfDecoder" where
  "msf_reseed pred m d =
     (case mm_wide m of
        None \<Rightarrow> (None, d)
      | Some (wideEdge, sig) \<Rightarrow>
          if sig < kReseedSig then (None, d)
          else
            let off = md_wideOff d @ [wideEdge - pred];
                off = (if kReseedWindow < length off then tl off else off);
                d = d\<lparr>md_wideOff := off\<rparr>
            in if length off \<noteq> kReseedWindow then (None, d)
               else let med = sort off ! (length off div 2)
                    in if kReseedSec * of_int (md_sr d) < \<bar>med\<bar>
                       then (Some (pred + med), d\<lparr>md_trk := et_reset (md_trk d), md_wideOff := []\<rparr>) else (None, d))"

definition msf_processSecond :: "TimeFields \<Rightarrow> MsfMeasure \<Rightarrow> MsfDecoder \<Rightarrow> MsfDecoder" where
  "msf_processSecond ref m d =
     (let pred = md_segEdge d;
          warm = (et_valid (md_trk d) \<and> kTrkWarm < et_count (md_trk d));
          fine = (if warm \<and> mm_haveContrast m then mm_fine m else None);
          (reseed, d) = (if warm then msf_reseed pred m d else (None, d));
          found = (if reseed \<noteq> None then reseed else if fine \<noteq> None then fine else mm_near m);
          trk = md_trk d;
          d = d\<lparr>md_trk := et_update (found \<noteq> None) (case found of Some e \<Rightarrow> e | None \<Rightarrow> 0)
                   (if et_valid trk then et_period trk else of_int (md_sr d))
                   (if warm then kTrkOutlierSec * of_int (md_sr d) else of_int (md_decim d)) trk,
                 md_blindSeconds := (if found \<noteq> None then 0 else md_blindSeconds d + 1)\<rparr>;
          edge = (if et_valid (md_trk d) then et_edge (md_trk d) else pred);
          r = (mm_classify m edge)\<lparr>ms_edge := llround edge, ms_edgeExact := Some edge\<rparr>;
          hist = md_hist d @ [r];
          d = d\<lparr>md_hist := (if 16 < length hist then tl hist else hist)\<rparr>;
          d = msf_handleSecond ref r (found \<noteq> None) d;
          d = d\<lparr>md_segEdge := (if et_valid (md_trk d) then et_edge (md_trk d) + et_period (md_trk d) else edge + of_int (md_sr d))\<rparr>
      in if kMaxBlindSeconds \<le> md_blindSeconds d
         then let d = (if md_lockState d = LsLocked then msf_setLockState LsAcquiring d else d)
              in (msf_dropAnchor (d\<lparr>md_segValid := False, md_scanPos := 0, md_blindSeconds := 0, md_trk := et_reset (md_trk d)\<rparr>))\<lparr>md_hist := []\<rparr>
         else d)"

section \<open>The decoder's life\<close>

text \<open>\<^verbatim>\<open>reset\<close>, less the filters and the carrier search; the voter is emptied by the next frame.\<close>

definition msf_reset :: "MsfDecoder \<Rightarrow> MsfDecoder" where
  "msf_reset d =
     msf_setLockState LsNoSignal
       ((msf_dropAnchor (d\<lparr>md_segValid := False, md_segEdge := 0, md_scanPos := 0, md_blindSeconds := 0,
           md_trk := et_reset (md_trk d), md_wideOff := [], md_hist := []\<rparr>))
        \<lparr>md_haveLastFrame := False, md_lastFrameStart := 0, md_lastFrameLen := 60, md_lastFrameFrom := 0\<rparr>)"

definition mk_MsfDecoder :: "int \<Rightarrow> MsfDecoder" where
  "mk_MsfDecoder sampleRateHz =
     (let sr = (if 0 < sampleRateHz then sampleRateHz else 12000)
      in msf_reset \<lparr>md_sr = sr, md_decim = max 1 (llround (of_int sr / 100)), md_voter = mk_TimeFrameVoter msf_voterConfig,
           md_lockState = LsNoSignal, md_segValid = False, md_segEdge = 0, md_scanPos = 0, md_blindSeconds = 0,
           md_trk = mk_EdgeTracker, md_wideOff = [], md_hist = [], md_anchored = False, md_sofNext = 0, md_frame = blank_seconds,
           md_frFilled = 0, md_frStart = 0, md_haveLastFrame = False, md_lastFrameStart = 0, md_lastFrameLen = 60,
           md_lastFrameFrom = 0, md_unconfirmedRun = 0, md_haveVoted = False, md_votedMinute = -1, md_votedHour = -1,
           md_votedDoy = -1, md_votedYear = -1, md_votedQuality = 0, md_out = []\<rparr>)"

definition msf_setPlausibility :: "bool \<Rightarrow> int \<Rightarrow> MsfDecoder \<Rightarrow> MsfDecoder" where
  "msf_setPlausibility haveReference boundMinutes d = d\<lparr>md_voter := setPlausibility haveReference boundMinutes (md_voter d)\<rparr>"

text \<open>The carrier is found.\<close>

definition msf_startSteady :: "MsfDecoder \<Rightarrow> MsfDecoder" where
  "msf_startSteady d =
     msf_setLockState LsAcquiring (d\<lparr>md_trk := (md_trk d)\<lparr>et_noiseRef := kTrkNoiseRefSec * of_int (md_sr d)\<rparr>\<rparr>)"

text \<open>The scan for a first edge; \<open>isFallingEdge\<close> and \<open>edgeSampleAt\<close> read the envelope.\<close>

fun seed_loop :: "(int \<Rightarrow> bool) \<Rightarrow> (int \<Rightarrow> real) \<Rightarrow> int list \<Rightarrow> MsfDecoder \<Rightarrow> MsfDecoder" where
  "seed_loop isFallingEdge edgeSampleAt [] d = d"
| "seed_loop isFallingEdge edgeSampleAt (i # is) d =
     (let d = d\<lparr>md_scanPos := i\<rparr>
      in if isFallingEdge i then d\<lparr>md_segValid := True, md_segEdge := edgeSampleAt i, md_hist := []\<rparr>
         else seed_loop isFallingEdge edgeSampleAt is d)"

definition msf_trySeed :: "int \<Rightarrow> bool \<Rightarrow> (int \<Rightarrow> bool) \<Rightarrow> (int \<Rightarrow> real) \<Rightarrow> MsfDecoder \<Rightarrow> MsfDecoder" where
  "msf_trySeed envCount haveContrast isFallingEdge edgeSampleAt d =
     (if envCount < msf_kWarmEnv \<or> \<not> haveContrast then d
      else let lo = max (max (md_scanPos d) 9) (envCount - msf_kEnvCap + 9)
           in seed_loop isFallingEdge edgeSampleAt [lo..envCount - msf_kEdgeLook - 1] d)"

definition msf_station :: "MsfDecoder \<Rightarrow> ClockStation" where
  "msf_station d = (if md_lockState d = LsNoSignal then StUnknown else StMsf)"

end
