(* ===== verification/Parity_Code.thy ===== *)
theory Parity_Code
  imports Ntp_Prelude
begin

text \<open>
  What a time code with parity bits promises, whatever its layout: a minute that decodes no longer
  does with one covered bit turned, and of the two values of an unread bit at most one decodes. The
  three stations that send parity bits provide it (\<^verbatim>\<open>Msf_Properties\<close>, \<^verbatim>\<open>Eu_Code\<close>).
\<close>

unbundle bit_operations_syntax

section \<open>Sums of bits\<close>

lemma sum_list_update_at:
  assumes "distinct xs" "p \<in> set xs"
  shows "sum_list (map (f(p := v)) xs) = sum_list (map f xs) - f p + (v::int)"
  using assms
proof (induction xs)
  case (Cons x xs)
  show ?case
  proof (cases "p = x")
    case True
    then have same: "map (f(p := v)) xs = map f xs" using Cons.prems by auto
    show ?thesis unfolding list.map sum_list.Cons same using True by simp
  qed (use Cons in auto)
qed simp

text \<open>Exclusive or keeps the parity of the sum.\<close>

lemma xor_fold_mod_2: "fold (\<lambda>s p. p XOR b s) xs a mod 2 = (a + sum_list (map b xs)) mod (2::int)"
proof (induction xs arbitrary: a)
  case (Cons x xs)
  have "(a XOR b x) mod 2 = (a + b x) mod 2" by (simp add: mod_2_eq_odd even_xor_iff)
  then have "((a XOR b x) + sum_list (map b xs)) mod 2 = (a + b x + sum_list (map b xs)) mod 2" by (intro mod_add_cong) simp_all
  then show ?case using Cons.IH[of "a XOR b x"] by (simp add: add.assoc)
qed simp

section \<open>The interface\<close>

locale parity_code =
  fixes decode :: "('p \<Rightarrow> int) \<Rightarrow> 'a option" and groups :: "'p list list" and residue :: int
  assumes groups_distinct: "g \<in> set groups \<Longrightarrow> distinct g"
    and checked: "decode b = Some x \<Longrightarrow> g \<in> set groups \<Longrightarrow> sum_list (map b g) mod 2 = residue"
begin

lemma misread_refused:
  assumes "decode b = Some x" "g \<in> set groups" "p \<in> set g"
  shows "decode (b(p := 1 - b p)) = None"
proof (rule ccontr)
  assume "decode (b(p := 1 - b p)) \<noteq> None"
  then have "(sum_list (map b g) - b p + (1 - b p)) mod 2 = residue"
    using checked[OF _ assms(2)] sum_list_update_at[OF groups_distinct[OF assms(2)] assms(3), of b "1 - b p"] by force
  moreover have "sum_list (map b g) mod 2 = residue" using checked[OF assms(1,2)] .
  moreover have "(s - v + (1 - v)) mod 2 \<noteq> s mod 2" for s v :: int by presburger
  ultimately show False by metis
qed

lemma one_filling:
  assumes "decode (b(p := u)) = Some x" "decode (b(p := v)) = Some y" "g \<in> set groups" "p \<in> set g" "u \<in> {0, 1}" "v \<in> {0, 1}"
  shows "u = v"
proof (rule ccontr)
  assume "u \<noteq> v"
  then have "v = 1 - u" using assms(5,6) by auto
  then have "decode (b(p := v)) = None" using misread_refused[OF assms(1,3,4)] by simp
  with assms(2) show False by simp
qed

end

end
