(* ===== verification/Msf_Properties.thy ===== *)
theory Msf_Properties
  imports Msf_Decoder Station_Lock Parity_Code
begin

text \<open>
  What the MSF decoder makes of a minute's code. A reference encoder of the code the station sends is
  inverted by \<open>msf_code\<close> for every minute of the century, and a minute with one bit misread is refused.
\<close>

section \<open>The code as it is sent\<close>

definition nbits :: "nat \<Rightarrow> int \<Rightarrow> int list" where
  "nbits k v = map (\<lambda>i. v div 2 ^ (k - 1 - i) mod 2) [0..<k]"

text \<open>A two-digit number: \<open>k\<close> bits of tens, four of units.\<close>

definition bcd :: "nat \<Rightarrow> int \<Rightarrow> int list" where
  "bcd k v = nbits k (v div 10) @ nbits 4 (v mod 10)"

definition odd_parity :: "int list \<Rightarrow> int" where
  "odd_parity bits = (1 + sum_list bits) mod 2"

text \<open>Bits 17A to 51A, of the local minute \<open>L\<close> counted from 1970, and 53B to 58B.\<close>

definition msf_date_bits :: "int \<Rightarrow> int list" where
  "msf_date_bits L = (let (y, m, d) = civilFromDays (L div 1440) in bcd 1 m @ bcd 2 d)"

definition msf_year_bits :: "int \<Rightarrow> int list" where
  "msf_year_bits L = bcd 4 (fst (civilFromDays (L div 1440)) - 2000)"

definition msf_wday_bits :: "int \<Rightarrow> int list" where
  "msf_wday_bits L = nbits 3 ((L div 1440 + 4) mod 7)"

definition msf_time_bits :: "int \<Rightarrow> int list" where
  "msf_time_bits L = bcd 2 (L mod 1440 div 60) @ bcd 3 (L mod 60)"

definition msf_A_bits :: "int \<Rightarrow> int list" where
  "msf_A_bits L = msf_year_bits L @ msf_date_bits L @ msf_wday_bits L @ msf_time_bits L"

definition msf_B_bits :: "int \<Rightarrow> bool \<Rightarrow> bool \<Rightarrow> int list" where
  "msf_B_bits L soon summer =
     [of_bool soon, odd_parity (msf_year_bits L), odd_parity (msf_date_bits L), odd_parity (msf_wday_bits L),
      odd_parity (msf_time_bits L), of_bool summer]"

text \<open>The century a two-digit year stands for.\<close>

definition msf_century :: "int \<Rightarrow> bool" where
  "msf_century L \<longleftrightarrow> 10957 * 1440 \<le> L \<and> L < 47482 * 1440"

section \<open>Decoding inverts it\<close>

lemma halving: "u div 2 mod 2 * 2 + u mod 2 = u - u div 4 * (4::int)" "u div 4 mod 2 * 4 = u div 4 * 4 - u div 8 * (8::int)"
proof -
  have "u div 4 = u div 2 div 2" "u div 8 = u div 4 div 2" by (simp_all add: zdiv_zmult2_eq[symmetric])
  then show "u div 2 mod 2 * 2 + u mod 2 = u - u div 4 * 4" "u div 4 mod 2 * 4 = u div 4 * 4 - u div 8 * 8"
    by (simp_all add: minus_mult_div_eq_mod[symmetric] algebra_simps)
qed

lemma nibble_value:
  assumes "0 \<le> u" "u < 16"
  shows "u div 8 mod 2 * 8 + u div 4 mod 2 * 4 + u div 2 mod 2 * 2 + u mod 2 = (u::int)"
proof -
  have "u div 8 mod 2 = u div 8" using assms by (intro mod_pos_pos_trivial) auto
  then show ?thesis using halving[of u] by linarith
qed

lemma nbits_lengths: "length (nbits k v) = k" by (simp add: nbits_def)

lemma nbits_expand:
  "nbits 1 v = [v mod 2]" "nbits 2 v = [v div 2 mod 2, v mod 2]" "nbits 3 v = [v div 4 mod 2, v div 2 mod 2, v mod 2]"
  "nbits 4 v = [v div 8 mod 2, v div 4 mod 2, v div 2 mod 2, v mod 2]"
  by (simp_all add: nbits_def upt_rec)

text \<open>A run of seconds reads the bits of its group.\<close>

lemma nth_from_slice:
  assumes "lo = b + int (length xs)" "hi - lo + 1 = int (length ys)"
  shows "map (nth_from b (xs @ ys @ zs)) [lo..hi] = ys"
proof (rule nth_equalityI)
  show "length (map (nth_from b (xs @ ys @ zs)) [lo..hi]) = length ys" using assms by simp
  show "map (nth_from b (xs @ ys @ zs)) [lo..hi] ! i = ys ! i" if "i < length (map (nth_from b (xs @ ys @ zs)) [lo..hi])" for i
    using that assms by (auto simp: nth_from_def nth_append nat_add_distrib)
qed

lemma group_lengths [simp]:
  "length (msf_year_bits L) = 8" "length (msf_date_bits L) = 11" "length (msf_wday_bits L) = 3" "length (msf_time_bits L) = 13"
  by (simp_all add: msf_year_bits_def msf_date_bits_def msf_wday_bits_def msf_time_bits_def bcd_def nbits_lengths split: prod.splits)

lemma msf_groups:
  "map (nth_from 17 (msf_A_bits L)) [17..24] = msf_year_bits L"
  "map (nth_from 17 (msf_A_bits L)) [25..35] = msf_date_bits L"
  "map (nth_from 17 (msf_A_bits L)) [36..38] = msf_wday_bits L"
  "map (nth_from 17 (msf_A_bits L)) [39..51] = msf_time_bits L"
  using nth_from_slice[of 17 17 "[]" 24] nth_from_slice[of 25 17 "msf_year_bits L" 35 "msf_date_bits L"]
    nth_from_slice[of 36 17 "msf_year_bits L @ msf_date_bits L" 38 "msf_wday_bits L"]
    nth_from_slice[of 39 17 "msf_year_bits L @ msf_date_bits L @ msf_wday_bits L" 51 "msf_time_bits L" "[]"]
  by (simp_all add: msf_A_bits_def)

lemma msf_B_at:
  "nth_from 53 (msf_B_bits L soon summer) 53 = of_bool soon"
  "nth_from 53 (msf_B_bits L soon summer) 54 = odd_parity (msf_year_bits L)"
  "nth_from 53 (msf_B_bits L soon summer) 55 = odd_parity (msf_date_bits L)"
  "nth_from 53 (msf_B_bits L soon summer) 56 = odd_parity (msf_wday_bits L)"
  "nth_from 53 (msf_B_bits L soon summer) 57 = odd_parity (msf_time_bits L)"
  "nth_from 53 (msf_B_bits L soon summer) 58 = of_bool summer"
  by (simp_all add: nth_from_def msf_B_bits_def)

lemma odd_parity_odd: "(odd_parity bits + sum_list bits) mod 2 = 1"
  unfolding odd_parity_def by presburger

lemma msf_parity:
  fixes L :: int and soon summer :: bool
  defines "A \<equiv> nth_from 17 (msf_A_bits L)" and "B \<equiv> nth_from 53 (msf_B_bits L soon summer)"
  shows "oddOk A B 17 24 54 \<and> oddOk A B 25 35 55 \<and> oddOk A B 36 38 56 \<and> oddOk A B 39 51 57"
  by (simp only: oddOk_def A_def B_def msf_groups msf_B_at odd_parity_odd)

text \<open>The bits one by one.\<close>

lemma msf_A_at:
  fixes L :: int
  defines "A \<equiv> nth_from 17 (msf_A_bits L)" and "y \<equiv> fst (civilFromDays (L div 1440)) - 2000"
    and "m \<equiv> fst (snd (civilFromDays (L div 1440)))" and "d \<equiv> snd (snd (civilFromDays (L div 1440)))"
    and "w \<equiv> (L div 1440 + 4) mod 7" and "h \<equiv> L mod 1440 div 60" and "n \<equiv> L mod 60"
  shows "[A 17, A 18, A 19, A 20] = nbits 4 (y div 10)" "[A 21, A 22, A 23, A 24] = nbits 4 (y mod 10)"
    "[A 25] = nbits 1 (m div 10)" "[A 26, A 27, A 28, A 29] = nbits 4 (m mod 10)"
    "[A 30, A 31] = nbits 2 (d div 10)" "[A 32, A 33, A 34, A 35] = nbits 4 (d mod 10)"
    "[A 36, A 37, A 38] = nbits 3 w"
    "[A 39, A 40] = nbits 2 (h div 10)" "[A 41, A 42, A 43, A 44] = nbits 4 (h mod 10)"
    "[A 45, A 46, A 47] = nbits 3 (n div 10)" "[A 48, A 49, A 50, A 51] = nbits 4 (n mod 10)"
proof -
  have up: "[17..24] = [17, 18, 19, 20, 21, 22, 23, 24::int]" "[25..35] = [25, 26, 27, 28, 29, 30, 31, 32, 33, 34, 35::int]"
    "[36..38] = [36, 37, 38::int]" "[39..51] = [39, 40, 41, 42, 43, 44, 45, 46, 47, 48, 49, 50, 51::int]" by (simp_all add: upto_rec1)
  note g = msf_groups[of L, folded A_def, unfolded up list.map]
  show "[A 17, A 18, A 19, A 20] = nbits 4 (y div 10)" "[A 21, A 22, A 23, A 24] = nbits 4 (y mod 10)"
    using g(1) by (simp_all only: msf_year_bits_def bcd_def y_def nbits_expand append.simps list.inject)
  show "[A 25] = nbits 1 (m div 10)" "[A 26, A 27, A 28, A 29] = nbits 4 (m mod 10)"
    "[A 30, A 31] = nbits 2 (d div 10)" "[A 32, A 33, A 34, A 35] = nbits 4 (d mod 10)"
    using g(2) by (simp_all only: msf_date_bits_def bcd_def m_def d_def nbits_expand split_beta append.simps list.inject Let_def)
  show "[A 36, A 37, A 38] = nbits 3 w" using g(3) by (simp add: msf_wday_bits_def w_def)
  show "[A 39, A 40] = nbits 2 (h div 10)" "[A 41, A 42, A 43, A 44] = nbits 4 (h mod 10)"
    "[A 45, A 46, A 47] = nbits 3 (n div 10)" "[A 48, A 49, A 50, A 51] = nbits 4 (n mod 10)"
    using g(4) by (simp_all only: msf_time_bits_def bcd_def h_def n_def nbits_expand append.simps list.inject)
qed

lemma nbits_value:
  "[a] = nbits 1 u \<Longrightarrow> 0 \<le> u \<Longrightarrow> u < 2 \<Longrightarrow> a = u"
  "[a, b] = nbits 2 u \<Longrightarrow> 0 \<le> u \<Longrightarrow> u < 4 \<Longrightarrow> a * 2 + b = u"
  "[a, b, c] = nbits 3 u \<Longrightarrow> 0 \<le> u \<Longrightarrow> u < 8 \<Longrightarrow> a * 4 + b * 2 + c = u"
  "[a, b, c, e] = nbits 4 u \<Longrightarrow> 0 \<le> u \<Longrightarrow> u < 16 \<Longrightarrow> a * 8 + b * 4 + c * 2 + e = u"
proof -
  have small: "u < k \<Longrightarrow> 0 \<le> u \<Longrightarrow> u div k = 0" for k :: int by (rule div_pos_pos_trivial)
  show "[a] = nbits 1 u \<Longrightarrow> 0 \<le> u \<Longrightarrow> u < 2 \<Longrightarrow> a = u" by (simp only: nbits_expand list.inject mod_pos_pos_trivial)
  show "[a, b] = nbits 2 u \<Longrightarrow> 0 \<le> u \<Longrightarrow> u < 4 \<Longrightarrow> a * 2 + b = u"
    using halving(1)[of u] small[of 4] by (simp only: nbits_expand list.inject; linarith)
  show "[a, b, c] = nbits 3 u \<Longrightarrow> 0 \<le> u \<Longrightarrow> u < 8 \<Longrightarrow> a * 4 + b * 2 + c = u"
    using halving[of u] small[of 8] by (simp only: nbits_expand list.inject; linarith)
  show "[a, b, c, e] = nbits 4 u \<Longrightarrow> 0 \<le> u \<Longrightarrow> u < 16 \<Longrightarrow> a * 8 + b * 4 + c * 2 + e = u"
    using nibble_value[of u] by (simp only: nbits_expand list.inject)
qed

lemma msb_expand:
  "msb A 17 [80, 40, 20, 10, 8, 4, 2, 1] = 10 * (A 17 * 8 + A 18 * 4 + A 19 * 2 + A 20) + (A 21 * 8 + A 22 * 4 + A 23 * 2 + A 24)"
  "msb A 25 [10, 8, 4, 2, 1] = 10 * A 25 + (A 26 * 8 + A 27 * 4 + A 28 * 2 + A 29)"
  "msb A 30 [20, 10, 8, 4, 2, 1] = 10 * (A 30 * 2 + A 31) + (A 32 * 8 + A 33 * 4 + A 34 * 2 + A 35)"
  "msb A 36 [4, 2, 1] = A 36 * 4 + A 37 * 2 + A 38"
  "msb A 39 [20, 10, 8, 4, 2, 1] = 10 * (A 39 * 2 + A 40) + (A 41 * 8 + A 42 * 4 + A 43 * 2 + A 44)"
  "msb A 45 [40, 20, 10, 8, 4, 2, 1] = 10 * (A 45 * 4 + A 46 * 2 + A 47) + (A 48 * 8 + A 49 * 4 + A 50 * 2 + A 51)"
  by (simp_all add: msb_def upto_rec1)

lemma digitsOk_expand:
  "digitsOk A 17 4 \<longleftrightarrow> A 21 * 8 + A 22 * 4 + A 23 * 2 + A 24 \<le> 9" "digitsOk A 25 1 \<longleftrightarrow> A 26 * 8 + A 27 * 4 + A 28 * 2 + A 29 \<le> 9"
  "digitsOk A 30 2 \<longleftrightarrow> A 32 * 8 + A 33 * 4 + A 34 * 2 + A 35 \<le> 9" "digitsOk A 39 2 \<longleftrightarrow> A 41 * 8 + A 42 * 4 + A 43 * 2 + A 44 \<le> 9"
  "digitsOk A 45 3 \<longleftrightarrow> A 48 * 8 + A 49 * 4 + A 50 * 2 + A 51 \<le> 9"
  by (simp_all add: digitsOk_def upto_rec1 algebra_simps)

lemma msf_fields:
  fixes L :: int
  assumes "civilFromDays (L div 1440) = (2000 + y, m, d)" "0 \<le> y" "y \<le> 99" "1 \<le> m" "m \<le> 12" "1 \<le> d" "d \<le> 31"
  defines "A \<equiv> nth_from 17 (msf_A_bits L)"
  shows "msb A 17 [80, 40, 20, 10, 8, 4, 2, 1] = y" "msb A 25 [10, 8, 4, 2, 1] = m" "msb A 30 [20, 10, 8, 4, 2, 1] = d"
    "msb A 36 [4, 2, 1] = (L div 1440 + 4) mod 7" "msb A 39 [20, 10, 8, 4, 2, 1] = L mod 1440 div 60"
    "msb A 45 [40, 20, 10, 8, 4, 2, 1] = L mod 60"
    "digitsOk A 17 4 \<and> digitsOk A 25 1 \<and> digitsOk A 30 2 \<and> digitsOk A 39 2 \<and> digitsOk A 45 3"
proof -
  let ?h = "L mod 1440 div 60" and ?n = "L mod 60"
  have b: "0 \<le> ?h" "?h < 24" "0 \<le> ?n" "?n < 60" by (auto simp: div_less_iff_less_mult intro!: pos_imp_zdiv_nonneg_iff[THEN iffD2])
  have ten: "0 \<le> v div 10" "v div 10 < k" "0 \<le> v mod 10" "v mod 10 < 16" "v mod 10 \<le> 9" if "0 \<le> v" "v < 10 * k" for v k :: int
    using that pos_mod_bound[of 10 v] by (auto simp: div_less_iff_less_mult pos_imp_zdiv_nonneg_iff simp del: pos_mod_bound)
  have "2000 + y - 2000 = y" by simp
  note at = msf_A_at[of L, folded A_def, unfolded assms(1) fst_conv snd_conv this]
  have ty: "0 \<le> y" "y < 10 * 16" and tm: "0 \<le> m" "m < 10 * 2" and td: "0 \<le> d" "d < 10 * 4"
    and th: "0 \<le> ?h" "?h < 10 * 4" and tn: "0 \<le> ?n" "?n < 10 * 8" using b assms(2-7) by simp_all
  have y: "A 17 * 8 + A 18 * 4 + A 19 * 2 + A 20 = y div 10" "A 21 * 8 + A 22 * 4 + A 23 * 2 + A 24 = y mod 10"
    by (rule nbits_value(4)[OF at(1) ten(1,2)[OF ty]] nbits_value(4)[OF at(2) ten(3,4)[OF ty]])+
  have m: "A 25 = m div 10" "A 26 * 8 + A 27 * 4 + A 28 * 2 + A 29 = m mod 10"
    by (rule nbits_value(1)[OF at(3) ten(1,2)[OF tm]] nbits_value(4)[OF at(4) ten(3,4)[OF tm]])+
  have d: "A 30 * 2 + A 31 = d div 10" "A 32 * 8 + A 33 * 4 + A 34 * 2 + A 35 = d mod 10"
    by (rule nbits_value(2)[OF at(5) ten(1,2)[OF td]] nbits_value(4)[OF at(6) ten(3,4)[OF td]])+
  have h: "A 39 * 2 + A 40 = ?h div 10" "A 41 * 8 + A 42 * 4 + A 43 * 2 + A 44 = ?h mod 10"
    by (rule nbits_value(2)[OF at(8) ten(1,2)[OF th]] nbits_value(4)[OF at(9) ten(3,4)[OF th]])+
  have n: "A 45 * 4 + A 46 * 2 + A 47 = ?n div 10" "A 48 * 8 + A 49 * 4 + A 50 * 2 + A 51 = ?n mod 10"
    by (rule nbits_value(3)[OF at(10) ten(1,2)[OF tn]] nbits_value(4)[OF at(11) ten(3,4)[OF tn]])+
  show "msb A 17 [80, 40, 20, 10, 8, 4, 2, 1] = y" "msb A 25 [10, 8, 4, 2, 1] = m" "msb A 30 [20, 10, 8, 4, 2, 1] = d"
    "msb A 39 [20, 10, 8, 4, 2, 1] = ?h" "msb A 45 [40, 20, 10, 8, 4, 2, 1] = ?n"
    unfolding msb_expand y m d h n by (rule mult_div_mod_eq)+
  show "msb A 36 [4, 2, 1] = (L div 1440 + 4) mod 7" 
    unfolding msb_expand using pos_mod_bound[of 7 "L div 1440 + 4"] by (intro nbits_value(3)[OF at(7)]) (simp, linarith)
  show "digitsOk A 17 4 \<and> digitsOk A 25 1 \<and> digitsOk A 30 2 \<and> digitsOk A 39 2 \<and> digitsOk A 45 3"
    unfolding digitsOk_expand y m d h n using ten(5)[OF ty] ten(5)[OF tm] ten(5)[OF td] ten(5)[OF th] ten(5)[OF tn] by (intro conjI)
qed

text \<open>The year a day belongs to.\<close>

lemma jan1_next: "daysFromCivil (Y + 1) 1 1 = daysFromCivil Y 1 1 + (if leap_year Y then 366 else 365)"
  using year_day0_next[of "Y - 1"] by (simp add: daysFromCivil_day0 shifted_year_def)

lemma jan1_mono: "Y \<le> Z \<Longrightarrow> daysFromCivil Y 1 1 \<le> daysFromCivil Z 1 1"
proof (induction Z rule: int_ge_induct)
  case (step Z)
  then show ?case using jan1_next[of Z] by (simp split: if_splits)
qed simp

lemma civil_year_bounds:
  assumes "civil_date y m d" "daysFromCivil Y 1 1 \<le> daysFromCivil y m d" "daysFromCivil y m d < daysFromCivil Z 1 1"
  shows "Y \<le> y" "y < Z"
proof -
  have "\<not> y + 1 \<le> Y" using day_of_year(2)[OF assms(1)] assms(2) jan1_mono[of "y + 1" Y] jan1_next[of y] by linarith
  then show "Y \<le> y" by simp
  have "\<not> Z \<le> y" using day_of_year(1)[OF assms(1)] assms(3) jan1_mono[of Z y] by linarith
  then show "y < Z" by simp
qed

lemma century_days: "daysFromCivil 2000 1 1 = 10957" "daysFromCivil 2100 1 1 = 47482"
  by code_simp+

lemma century_date:
  assumes "10957 \<le> z" "z < 47482"
  obtains y m d where "civilFromDays z = (2000 + y, m, d)" "0 \<le> y" "y \<le> 99" "civil_date (2000 + y) m d" "daysFromCivil (2000 + y) m d = z"
proof -
  have "day_range z" using assms by (simp add: day_range_def)
  then obtain Y m d where c: "civilFromDays z = (Y, m, d)" "civil_date Y m d" "daysFromCivil Y m d = z"
    by (rule civilFromDays_decompose)
  have "2000 \<le> Y" "Y < 2100" using civil_year_bounds[OF c(2), of 2000 2100] c(3) assms unfolding century_days by simp_all
  with c show thesis using that[of "Y - 2000" m d] by simp
qed

lemma msf_code_of:
  assumes "oddOk A B 17 24 54 \<and> oddOk A B 25 35 55 \<and> oddOk A B 36 38 56 \<and> oddOk A B 39 51 57"
    "digitsOk A 17 4 \<and> digitsOk A 25 1 \<and> digitsOk A 30 2 \<and> digitsOk A 39 2 \<and> digitsOk A 45 3"
    "msb A 17 [80, 40, 20, 10, 8, 4, 2, 1] = y" "msb A 25 [10, 8, 4, 2, 1] = m" "msb A 30 [20, 10, 8, 4, 2, 1] = d"
    "msb A 36 [4, 2, 1] = (D + 4) mod 7" "msb A 39 [20, 10, 8, 4, 2, 1] = h" "msb A 45 [40, 20, 10, 8, 4, 2, 1] = n"
    "civilFromDays D = (2000 + y, m, d)" "daysFromCivil (2000 + y) m d = D" "1 \<le> m" "m \<le> 12" "1 \<le> d" "h \<le> 23" "n \<le> 59" "(D + 4) mod 7 \<le> 6"
  shows "msf_code A B dut1 = Some \<lparr>mx_minute = n, mx_hour = h, mx_day = d, mx_month = m, mx_year2 = y, mx_wday = (D + 4) mod 7,
     mx_summer = (B 58 = 1), mx_summerSoon = (B 53 = 1), mx_dut1Tenths = dut1,
     mx_utc = hostNowFields ((D * 1440 + h * 60 + n - (if B 58 = 1 then 60 else 0) - 1) * 60000),
     mx_utcMs = (D * 1440 + h * 60 + n - (if B 58 = 1 then 60 else 0) - 1) * 60000\<rparr>"
  unfolding msf_code_def assms(3-8) using assms(1,2,9-16) by (simp add: floorMod_eq_mod Let_def)

lemma msf_decodes:
  assumes "msf_century L"
  shows "\<exists>x. msf_code (nth_from 17 (msf_A_bits L)) (nth_from 53 (msf_B_bits L soon summer)) dut1 = Some x
    \<and> mx_utcMs x = (L - (if summer then 60 else 0) - 1) * 60000 \<and> mx_utc x = hostNowFields (mx_utcMs x)
    \<and> (2000 + mx_year2 x, mx_month x, mx_day x) = civilFromDays (L div 1440) \<and> mx_hour x = L mod 1440 div 60
    \<and> mx_minute x = L mod 60 \<and> mx_summer x = summer \<and> mx_summerSoon x = soon \<and> mx_dut1Tenths x = dut1"
proof -
  have "10957 \<le> L div 1440" "L div 1440 < 47482"
    using assms zdiv_mono1[of "10957 * 1440" L 1440] by (auto simp: msf_century_def div_less_iff_less_mult)
  then obtain y m d where c: "civilFromDays (L div 1440) = (2000 + y, m, d)" "0 \<le> y" "y \<le> 99" "civil_date (2000 + y) m d"
    "daysFromCivil (2000 + y) m d = L div 1440" by (rule century_date)
  have md: "1 \<le> m" "m \<le> 12" "1 \<le> d" "d \<le> 31" using c(4) month_length_le[of "2000 + y" m] by (auto simp: civil_date_def split: if_splits)
  have t: "L mod 1440 div 60 \<le> 23" "L mod 60 \<le> 59" "(L div 1440 + 4) mod 7 \<le> 6"
    using pos_mod_bound[of 1440 L] pos_mod_bound[of 60 L] pos_mod_bound[of 7 "L div 1440 + 4"]
    by (simp_all add: div_less_iff_less_mult zle_diff1_eq[symmetric] del: pos_mod_bound)
  have "L mod 1440 mod 60 = L mod 60" by (simp add: mod_mod_cancel)
  then have u: "L div 1440 * 1440 + L mod 1440 div 60 * 60 + L mod 60 = L"
    using mult_div_mod_eq[of 60 "L mod 1440"] mult_div_mod_eq[of 1440 L] by linarith
  note f = msf_fields[OF c(1-3) md]
  show ?thesis unfolding msf_code_of[OF msf_parity f(7) f(1-6) c(1,5) md(1-3) t] u msf_B_at by (simp add: c(1))
qed

text \<open>
  C21: The MSF code is read back. For every minute of the century, in winter and in summer, the code
  the station sends decodes: the date, the hour, the minute and the flags are those encoded, and the
  time taken is the UTC of the minute the code was sent in, one minute before the local time it
  names and an hour behind it in summer.
\<close>

theorem msf_code_roundtrip:
  assumes "msf_century L"
  shows "\<exists>x. msf_code (nth_from 17 (msf_A_bits L)) (nth_from 53 (msf_B_bits L soon summer)) dut1 = Some x
    \<and> mx_utcMs x = (L - (if summer then 60 else 0) - 1) * 60000 \<and> mx_utc x = hostNowFields (mx_utcMs x)
    \<and> (2000 + mx_year2 x, mx_month x, mx_day x) = civilFromDays (L div 1440) \<and> mx_hour x = L mod 1440 div 60
    \<and> mx_minute x = L mod 60 \<and> mx_summer x = summer \<and> mx_summerSoon x = soon \<and> mx_dut1Tenths x = dut1"
  using assms by (rule msf_decodes)

text \<open>The first minute of a leap day, in winter: 00:00 on 29 February 2028 names 23:59 UTC the day before.\<close>

theorem msf_code_roundtrip_witness:
  "\<exists>x. msf_code (nth_from 17 (msf_A_bits 30592800)) (nth_from 53 (msf_B_bits 30592800 False False)) 0 = Some x
    \<and> mx_utcMs x = (30592800 - (if False then 60 else 0) - 1) * 60000 \<and> mx_utc x = hostNowFields (mx_utcMs x)
    \<and> (2000 + mx_year2 x, mx_month x, mx_day x) = civilFromDays (30592800 div 1440) \<and> mx_hour x = 30592800 mod 1440 div 60
    \<and> mx_minute x = 30592800 mod 60 \<and> mx_summer x = False \<and> mx_summerSoon x = False \<and> mx_dut1Tenths x = 0"
  by (rule msf_code_roundtrip) (simp add: msf_century_def)

section \<open>A misread bit\<close>

text \<open>The code as a parity code: bits A are \<open>Inl\<close>, bits B \<open>Inr\<close>, each group with its parity bit.\<close>

definition msf_groups_of :: "(int + int) list list" where
  "msf_groups_of = [Inr 54 # map Inl [17..24], Inr 55 # map Inl [25..35], Inr 56 # map Inl [36..38], Inr 57 # map Inl [39..51]]"

definition msf_bits :: "int \<Rightarrow> (int + int \<Rightarrow> int) \<Rightarrow> MsfDecoded option" where
  "msf_bits dut1 b = msf_code (\<lambda>p. b (Inl p)) (\<lambda>p. b (Inr p)) dut1"

lemma msf_code_parity:
  assumes "msf_code A B dut1 = Some x"
  shows "oddOk A B 17 24 54" "oddOk A B 25 35 55" "oddOk A B 36 38 56" "oddOk A B 39 51 57"
  using assms by (auto simp: msf_code_def split: if_splits)

lemma oddOk_group: "oddOk (\<lambda>p. b (Inl p)) (\<lambda>p. b (Inr p)) lo hi pb \<longleftrightarrow> sum_list (map b (Inr pb # map Inl [lo..hi])) mod 2 = 1"
  by (simp add: oddOk_def comp_def)

interpretation msf: parity_code "msf_bits dut1" msf_groups_of 1
proof
  show "distinct g" if "g \<in> set msf_groups_of" for g
    using that by (auto simp: msf_groups_of_def distinct_map simp del: upto_rec_numeral)
  show "sum_list (map b g) mod 2 = 1" if "msf_bits dut1 b = Some x" "g \<in> set msf_groups_of" for b x g
    using msf_code_parity[OF that(1)[unfolded msf_bits_def]] that(2)
    unfolding oddOk_group msf_groups_of_def by auto
qed

lemma msf_code_none: "msf_code A B dut1 = None \<longleftrightarrow> msf_code A B dut1' = None"
  by (simp add: msf_code_def Let_def split: prod.splits)

text \<open>
  A minute with one bit misread is not decoded. If a minute's code decodes, then with any one
  time-code bit, 17A to 51A, or any one parity bit, 54B to 57B, read the other way, it does not.
\<close>

theorem msf_misread_refused:
  assumes "msf_code A B dut1 = Some x"
    "17 \<le> p \<and> p \<le> 51 \<and> A' = A(p := 1 - A p) \<and> B' = B \<or> 54 \<le> p \<and> p \<le> 57 \<and> A' = A \<and> B' = B(p := 1 - B p)"
  shows "msf_code A' B' dut1' = None"
proof -
  let ?b = "case_sum A B"
  have some: "msf_bits dut1 ?b = Some x" using assms(1) by (simp add: msf_bits_def)
  obtain q g where q: "g \<in> set msf_groups_of" "q \<in> set g" "msf_bits dut1 (?b(q := 1 - ?b q)) = msf_code A' B' dut1"
  proof (cases "p \<le> 51")
    case True
    then have "A' = A(p := 1 - A p)" "B' = B" "17 \<le> p" using assms(2) by auto
    then have "msf_bits dut1 (?b(Inl p := 1 - ?b (Inl p))) = msf_code A' B' dut1" by (simp add: msf_bits_def fun_upd_def cong: if_cong)
    moreover have "\<exists>g \<in> set msf_groups_of. Inl p \<in> set g"
      using True \<open>17 \<le> p\<close> unfolding msf_groups_of_def by (simp del: upto_rec_numeral add: image_iff) arith
    ultimately show ?thesis using that by blast
  next
    case False
    then have "A' = A" "B' = B(p := 1 - B p)" "54 \<le> p" "p \<le> 57" using assms(2) by auto
    then have "msf_bits dut1 (?b(Inr p := 1 - ?b (Inr p))) = msf_code A' B' dut1" by (simp add: msf_bits_def fun_upd_def cong: if_cong)
    moreover have "\<exists>g \<in> set msf_groups_of. Inr p \<in> set g"
      using \<open>54 \<le> p\<close> \<open>p \<le> 57\<close> unfolding msf_groups_of_def by (simp del: upto_rec_numeral add: image_iff) arith
    ultimately show ?thesis using that by blast
  qed
  then show ?thesis using msf.misread_refused[OF some q(1,2)] msf_code_none[of A' B' dut1 dut1'] by simp
qed

text \<open>12:00 on 1 July 2025, summer time, with the bit 30A misread.\<close>

definition july_code :: "int \<Rightarrow> int" where "july_code = nth_from 17 (msf_A_bits 29189520)"

definition july_flags :: "int \<Rightarrow> int" where "july_flags = nth_from 53 (msf_B_bits 29189520 False True)"

theorem msf_misread_refused_witness: "msf_code (july_code(30 := 1 - july_code 30)) july_flags 0 = None"
proof -
  have "msf_century 29189520" by (simp add: msf_century_def)
  from msf_decodes[OF this] obtain x where "msf_code july_code july_flags 0 = Some x" unfolding july_code_def july_flags_def by blast
  then show ?thesis by (rule msf_misread_refused[where p = 30]) simp
qed

end
