(* ===== verification/Msf_Lock.thy ===== *)
theory Msf_Lock
  imports Msf_Properties
begin

text \<open>
  The MSF decoder as a state machine. Its states are those reached from a new decoder by resets, by
  carriers found and by seconds, whatever the signal processing reads in them. In all of them the
  minute's array is used within bounds, and the decoder is locked just when the voter has certified
  the last minute and that minute was confirmed at sixty seconds. Then the way up: consecutive
  minutes read clearly lock it on the right time.
\<close>

section \<open>What the operations leave alone\<close>

lemma msf_setLockState_simps [simp]:
  "md_lockState (msf_setLockState st d) = st" "md_haveVoted (msf_setLockState st d) = md_haveVoted d"
  "md_anchored (msf_setLockState st d) = md_anchored d" "md_sofNext (msf_setLockState st d) = md_sofNext d"
  "md_frame (msf_setLockState st d) = md_frame d" "md_frFilled (msf_setLockState st d) = md_frFilled d"
  "md_frStart (msf_setLockState st d) = md_frStart d" "md_voter (msf_setLockState st d) = md_voter d"
  "md_haveLastFrame (msf_setLockState st d) = md_haveLastFrame d" "md_lastFrameLen (msf_setLockState st d) = md_lastFrameLen d"
  "md_lastFrameStart (msf_setLockState st d) = md_lastFrameStart d"
  "md_unconfirmedRun (msf_setLockState st d) = md_unconfirmedRun d" "md_hist (msf_setLockState st d) = md_hist d"
  "md_wideOff (msf_setLockState st d) = md_wideOff d" "md_blindSeconds (msf_setLockState st d) = md_blindSeconds d"
  "md_votedMinute (msf_setLockState st d) = md_votedMinute d" "md_votedHour (msf_setLockState st d) = md_votedHour d"
  "md_votedDoy (msf_setLockState st d) = md_votedDoy d" "md_votedYear (msf_setLockState st d) = md_votedYear d"
  "md_sr (msf_setLockState st d) = md_sr d" "md_trk (msf_setLockState st d) = md_trk d"
  "(OnTime t \<in> set (md_out (msf_setLockState st d))) = (OnTime t \<in> set (md_out d))"
  by (simp_all add: msf_setLockState_def msf_emit_def)

lemma msf_emit_simps [simp]:
  "md_lockState (msf_emit e d) = md_lockState d" "md_haveVoted (msf_emit e d) = md_haveVoted d"
  "md_anchored (msf_emit e d) = md_anchored d" "md_sofNext (msf_emit e d) = md_sofNext d"
  "md_frame (msf_emit e d) = md_frame d" "md_frFilled (msf_emit e d) = md_frFilled d"
  "md_frStart (msf_emit e d) = md_frStart d" "md_voter (msf_emit e d) = md_voter d"
  "md_haveLastFrame (msf_emit e d) = md_haveLastFrame d" "md_lastFrameLen (msf_emit e d) = md_lastFrameLen d"
  "md_lastFrameStart (msf_emit e d) = md_lastFrameStart d"
  "md_unconfirmedRun (msf_emit e d) = md_unconfirmedRun d" "md_hist (msf_emit e d) = md_hist d"
  "md_wideOff (msf_emit e d) = md_wideOff d" "md_blindSeconds (msf_emit e d) = md_blindSeconds d"
  "md_votedMinute (msf_emit e d) = md_votedMinute d" "md_votedHour (msf_emit e d) = md_votedHour d"
  "md_votedDoy (msf_emit e d) = md_votedDoy d" "md_votedYear (msf_emit e d) = md_votedYear d"
  "md_sr (msf_emit e d) = md_sr d" "md_trk (msf_emit e d) = md_trk d" "md_out (msf_emit e d) = md_out d @ [e]"
  by (simp_all add: msf_emit_def)

lemma msf_demote_simps [simp]:
  "md_lockState (msf_demote d) \<noteq> LsLocked" "md_haveVoted (msf_demote d) = False"
  "md_anchored (msf_demote d) = md_anchored d" "md_sofNext (msf_demote d) = md_sofNext d"
  "md_frame (msf_demote d) = md_frame d" "md_frFilled (msf_demote d) = md_frFilled d"
  "md_frStart (msf_demote d) = md_frStart d" "md_voter (msf_demote d) = md_voter d"
  "md_haveLastFrame (msf_demote d) = md_haveLastFrame d" "md_lastFrameLen (msf_demote d) = md_lastFrameLen d"
  "md_lastFrameStart (msf_demote d) = md_lastFrameStart d"
  "md_unconfirmedRun (msf_demote d) = md_unconfirmedRun d" "md_hist (msf_demote d) = md_hist d"
  "md_wideOff (msf_demote d) = md_wideOff d" "md_blindSeconds (msf_demote d) = md_blindSeconds d"
  "md_sr (msf_demote d) = md_sr d" "md_trk (msf_demote d) = md_trk d"
  "(OnTime t \<in> set (md_out (msf_demote d))) = (OnTime t \<in> set (md_out d))"
  by (simp_all add: msf_demote_def Let_def)

section \<open>The invariant\<close>

text \<open>Every array index the code forms is within the array, and the buffers stay at their size.\<close>

definition msf_bounds :: "MsfDecoder \<Rightarrow> bool" where
  "msf_bounds d \<longleftrightarrow> length (md_frame d) = 62 \<and> 0 \<le> md_sofNext d \<and> md_sofNext d \<le> 61 \<and> 0 \<le> md_frFilled d \<and> md_frFilled d \<le> 61
     \<and> 0 \<le> md_unconfirmedRun d \<and> md_unconfirmedRun d \<le> 2"

text \<open>What the framing of a second does not touch: the buffers, the times given out, the voter's configuration.\<close>

definition msf_kept :: "MsfDecoder \<Rightarrow> nat \<times> nat \<times> int \<times> ClockTimeInfo set \<times> VoterConfig" where
  "msf_kept d = (length (md_hist d), length (md_wideOff d), md_blindSeconds d, {t. OnTime t \<in> set (md_out d)}, tv_cfg (md_voter d))"

lemma voter_cfg_kept: "tv_cfg (addFrame syms confs v) = tv_cfg v" "tv_cfg (voter_reset v) = tv_cfg v"
  by (simp_all add: addFrame_def voter_reset_def Let_def)

text \<open>The time the decoder gives out is the voter's, and the voter had certified it.\<close>

definition msf_certified :: "MsfDecoder \<Rightarrow> bool" where
  "msf_certified d \<longleftrightarrow> (\<exists>ref. locked ref (md_voter d))
     \<and> md_votedMinute d = votedField (md_voter d) FieldMinutes \<and> md_votedHour d = votedField (md_voter d) FieldHours
     \<and> md_votedDoy d = votedField (md_voter d) FieldDoy \<and> md_votedYear d = votedField (md_voter d) FieldYear"

definition msf_lock_ok :: "MsfDecoder \<Rightarrow> bool" where
  "msf_lock_ok d \<longleftrightarrow> (md_lockState d = LsLocked \<longleftrightarrow> md_haveVoted d)
     \<and> (md_haveVoted d \<longrightarrow> md_anchored d \<and> md_haveLastFrame d \<and> md_lastFrameLen d = 60 \<and> msf_certified d)"

lemma msf_demoted_ok: "md_lockState d \<noteq> LsLocked \<Longrightarrow> \<not> md_haveVoted d \<Longrightarrow> msf_lock_ok d"
  by (simp add: msf_lock_ok_def)

lemma blank_length [simp]: "length blank_seconds = 62" by (simp add: blank_seconds_def kFrameCap_def)

lemma msf_startFrame_simps [simp]:
  "md_frame (msf_startFrame r d) = blank_seconds[0 := r]" "md_frFilled (msf_startFrame r d) = 1"
  "md_frStart (msf_startFrame r d) = ms_edge r" "md_sofNext (msf_startFrame r d) = 1"
  by (simp_all add: msf_startFrame_def)

lemma msf_startFrame_ok:
  "msf_bounds d \<Longrightarrow> msf_bounds (msf_startFrame r d)" "msf_lock_ok (msf_startFrame r d) = msf_lock_ok d"
  "msf_kept (msf_startFrame r d) = msf_kept d" "md_anchored (msf_startFrame r d) = md_anchored d"
  by (simp_all add: msf_startFrame_def msf_bounds_def msf_lock_ok_def msf_certified_def msf_kept_def)

lemma msf_dropAnchor_ok:
  "msf_bounds (msf_dropAnchor d)" "msf_kept (msf_dropAnchor d) = msf_kept d" "md_haveVoted (msf_dropAnchor d) = False"
  "md_lockState (msf_dropAnchor d) = md_lockState d" "md_voter (msf_dropAnchor d) = md_voter d"
  by (simp_all add: msf_dropAnchor_def msf_bounds_def msf_kept_def)

lemma msf_demote_ok:
  "msf_bounds (msf_demote d) = msf_bounds d" "msf_kept (msf_demote d) = msf_kept d" "msf_lock_ok (msf_demote d)"
  by (simp_all add: msf_bounds_def msf_kept_def msf_demoted_ok)

lemma msf_vote_ok:
  assumes "msf_bounds d" "md_anchored d"
  shows "msf_bounds (msf_vote ref n confirmed dec d) \<and> msf_lock_ok (msf_vote ref n confirmed dec d)
    \<and> msf_kept (msf_vote ref n confirmed dec d) = msf_kept d \<and> md_anchored (msf_vote ref n confirmed dec d)"
  using assms by (simp add: msf_vote_def Let_def msf_bounds_def msf_lock_ok_def msf_kept_def msf_certified_def voter_cfg_kept) auto

text \<open>The outcomes of a minute's end.\<close>

lemma msf_finalizeFrame_cases:
  obtains (dropped) "msf_finalizeFrame ref n m d = (msf_demote (msf_dropAnchor d))\<lparr>md_haveLastFrame := False\<rparr>"
  | (confirmed) dec where "msf_confirmed n m d" "dec = msf_decode n (d\<lparr>md_unconfirmedRun := 0\<rparr>)"
      "msf_finalizeFrame ref n m d = msf_vote ref n True dec (d\<lparr>md_unconfirmedRun := 0, md_lastFrameFrom := (if dec \<noteq> None then 1 else 0)\<rparr>)"
  | (unconfirmed) "\<not> msf_confirmed n m d" "md_unconfirmedRun d < 2"
      "msf_finalizeFrame ref n m d = msf_vote ref n False None (d\<lparr>md_unconfirmedRun := md_unconfirmedRun d + 1, md_lastFrameFrom := 0\<rparr>)"
proof -
  have drop: "msf_dropAnchor (d\<lparr>md_unconfirmedRun := x\<rparr>) = msf_dropAnchor d" for x by (simp add: msf_dropAnchor_def)
  show thesis
  proof (cases "msf_confirmed n m d")
    case True
    then have "\<not> msf_contradicted n d" by (simp add: msf_confirmed_def)
    with True show ?thesis by (intro confirmed[OF _ refl]) (simp_all add: msf_finalizeFrame_def Let_def)
  next
    case False
    then show ?thesis
    proof (cases "msf_contradicted n d \<or> 2 \<le> md_unconfirmedRun d")
      case True
      with False show ?thesis by (intro dropped) (auto simp: msf_finalizeFrame_def Let_def kMaxUnconfirmedMinutes_def drop)
    next
      case False2: False
      with False show ?thesis by (intro unconfirmed) (simp_all add: msf_finalizeFrame_def Let_def kMaxUnconfirmedMinutes_def)
    qed
  qed
qed

lemma msf_vote_run_ok:
  fixes x y :: int and d :: MsfDecoder
  assumes "msf_bounds d" "md_anchored d" "0 \<le> x" "x \<le> 2"
  defines "e \<equiv> d\<lparr>md_unconfirmedRun := x, md_lastFrameFrom := y\<rparr>"
  shows "msf_bounds (msf_vote ref n c dec e) \<and> msf_lock_ok (msf_vote ref n c dec e)
    \<and> msf_kept (msf_vote ref n c dec e) = msf_kept d \<and> md_anchored (msf_vote ref n c dec e)"
proof -
  have "msf_bounds e" "md_anchored e" "msf_kept e = msf_kept d" using assms(1-4) by (simp_all add: e_def msf_bounds_def msf_kept_def)
  then show ?thesis using msf_vote_ok[of e ref n c dec] by simp
qed

lemma msf_finalizeFrame_ok:
  assumes "msf_bounds d" "md_anchored d"
  shows "msf_bounds (msf_finalizeFrame ref n m d) \<and> msf_lock_ok (msf_finalizeFrame ref n m d)
    \<and> msf_kept (msf_finalizeFrame ref n m d) = msf_kept d"
proof (cases rule: msf_finalizeFrame_cases[where ref = ref and n = n and m = m and d = d])
  case dropped
  then show ?thesis using msf_dropAnchor_ok(1,2)[of d] msf_demote_ok(1,2)[of "msf_dropAnchor d"]
    by (simp add: msf_bounds_def msf_kept_def msf_lock_ok_def)
next
  case (confirmed dec)
  then show ?thesis using msf_vote_run_ok[OF assms, of 0] by simp
next
  case unconfirmed
  then show ?thesis using msf_vote_run_ok[OF assms, of "md_unconfirmedRun d + 1"] assms(1) by (simp add: msf_bounds_def)
qed

lemma msf_anchor_ok:
  assumes "msf_bounds d" "msf_lock_ok d"
  shows "msf_bounds (msf_startFrame r (d\<lparr>md_anchored := True\<rparr>)) \<and> msf_lock_ok (msf_startFrame r (d\<lparr>md_anchored := True\<rparr>))
    \<and> msf_kept (msf_startFrame r (d\<lparr>md_anchored := True\<rparr>)) = msf_kept d"
  unfolding msf_startFrame_ok using assms
  by (intro conjI msf_startFrame_ok(1)) (simp_all add: msf_bounds_def msf_lock_ok_def msf_kept_def msf_certified_def)

lemma msf_afterFinalize_ok:
  assumes "msf_bounds d" "msf_lock_ok d" "msf_afterFinalize r d = (sof, d')"
  shows "msf_bounds d' \<and> msf_lock_ok d' \<and> msf_kept d' = msf_kept d"
  using assms msf_anchor_ok[OF assms(1,2), of r] by (auto simp: msf_afterFinalize_def split: if_splits)

lemma msf_unanchored_ok:
  assumes "msf_bounds d" "msf_lock_ok d" "msf_unanchored r d = (sof, d')"
  shows "msf_bounds d' \<and> msf_lock_ok d' \<and> msf_kept d' = msf_kept d"
proof -
  have "msf_bounds (d\<lparr>md_anchored := True, md_sofNext := 0, md_frFilled := 0\<rparr>)
    \<and> msf_lock_ok (d\<lparr>md_anchored := True, md_sofNext := 0, md_frFilled := 0\<rparr>)
    \<and> msf_kept (d\<lparr>md_anchored := True, md_sofNext := 0, md_frFilled := 0\<rparr>) = msf_kept d"
    using assms(1,2) by (simp add: msf_bounds_def msf_lock_ok_def msf_kept_def msf_certified_def)
  then show ?thesis using assms msf_anchor_ok[OF assms(1,2), of r] by (auto simp: msf_unanchored_def split: if_splits)
qed

lemma msf_slip_ok:
  fixes r :: MsfSec
  assumes "msf_bounds d"
  defines "e \<equiv> msf_startFrame r ((msf_demote d)\<lparr>md_haveLastFrame := False, md_unconfirmedRun := 0\<rparr>)"
  shows "msf_bounds e \<and> msf_lock_ok e \<and> msf_kept e = msf_kept d"
  unfolding e_def msf_startFrame_ok using assms(1)
  by (intro conjI msf_startFrame_ok(1)) (simp_all add: msf_bounds_def msf_lock_ok_def msf_kept_def)

lemma msf_store_ok:
  fixes r :: MsfSec
  assumes "msf_bounds d" "msf_lock_ok d" "md_anchored d" "0 \<le> sof" "sof \<le> 60"
  defines "e \<equiv> d\<lparr>md_frame := (md_frame d)[nat sof := r], md_frFilled := sof + 1, md_sofNext := sof + 1\<rparr>"
  shows "msf_bounds e \<and> msf_lock_ok e \<and> msf_kept e = msf_kept d \<and> md_anchored e"
  using assms(1-5) by (simp add: e_def msf_bounds_def msf_lock_ok_def msf_kept_def msf_certified_def)

text \<open>The branches of a second within a minute.\<close>

definition msf_stored :: "MsfSec \<Rightarrow> MsfDecoder \<Rightarrow> MsfDecoder" where
  "msf_stored r d = d\<lparr>md_frame := (md_frame d)[nat (md_sofNext d) := r], md_frFilled := md_sofNext d + 1, md_sofNext := md_sofNext d + 1\<rparr>"

lemma msf_anchored_second_cases:
  assumes "msf_anchored_second ref r d = (sof, d')"
  obtains (first) "md_sofNext d = 0" "sof = 0" "d' = msf_startFrame r d"
  | (marked) "59 \<le> md_sofNext d" "confMarker r kStructConf" "msf_afterFinalize r (msf_finalizeFrame ref (md_sofNext d) True d) = (sof, d')"
  | (slipped) "sof = 0" "d' = msf_startFrame r ((msf_demote d)\<lparr>md_haveLastFrame := False, md_unconfirmedRun := 0\<rparr>)"
      "md_sofNext d < 59" "confMarker r kStructConf"
  | (identified) "60 \<le> md_sofNext d" "identifierEndsAt (md_sofNext d - 1) d"
      "msf_afterFinalize r (msf_finalizeFrame ref (md_sofNext d) False d) = (sof, d')"
  | (overrun) "61 \<le> md_sofNext d" "sof = -1" "d' = msf_demote (msf_dropAnchor d)"
  | (ended) e where "58 \<le> md_sofNext d" "md_sofNext d \<le> 60" "identifierEndsAt (md_sofNext d) (msf_stored r d)" "sof = md_sofNext d"
      "e = msf_finalizeFrame ref (md_sofNext d + 1) False (msf_stored r d)" "d' = (if md_anchored e then e\<lparr>md_sofNext := 0\<rparr> else e)"
  | (within) "md_sofNext d < 61" "sof = md_sofNext d" "d' = msf_stored r d"
proof -
  let ?k = "md_sofNext d"
  have cap: "kFrameCap - 1 = 61" by (simp add: kFrameCap_def)
  note df = assms[unfolded msf_anchored_second_def Let_def cap, folded msf_stored_def]
  consider "?k = 0" | "?k \<noteq> 0" "59 \<le> ?k" "confMarker r kStructConf" | "?k \<noteq> 0" "?k < 59" "confMarker r kStructConf"
    | "?k \<noteq> 0" "\<not> confMarker r kStructConf" "60 \<le> ?k" "identifierEndsAt (?k - 1) d"
    | "?k \<noteq> 0" "\<not> confMarker r kStructConf" "\<not> (60 \<le> ?k \<and> identifierEndsAt (?k - 1) d)" "61 \<le> ?k"
    | "?k \<noteq> 0" "\<not> confMarker r kStructConf" "\<not> (60 \<le> ?k \<and> identifierEndsAt (?k - 1) d)" "\<not> 61 \<le> ?k" by linarith
  then show thesis
  proof cases
    case 1 then show ?thesis using df first by simp
  next
    case 2 then show ?thesis using df marked by simp
  next
    case 3 then show ?thesis using df slipped by simp
  next
    case 4 then show ?thesis using df identified by simp
  next
    case 5 then show ?thesis using df overrun by auto
  next
    case 6
    then show ?thesis
    proof (cases "58 \<le> ?k \<and> ?k \<le> 60 \<and> identifierEndsAt ?k (msf_stored r d)")
      case True
      then show ?thesis using df[unfolded if_not_P[OF 6(1)]] 6(2-4) by (intro ended[OF _ _ _ _ refl]) (auto split: if_splits)
    next
      case False
      then show ?thesis using df[unfolded if_not_P[OF 6(1)]] 6(2-4) by (intro within) (auto split: if_splits)
    qed
  qed
qed

lemma msf_anchored_second_ok:
  assumes "msf_bounds d" "msf_lock_ok d" "md_anchored d" "msf_anchored_second ref r d = (sof, d')"
  shows "msf_bounds d' \<and> msf_lock_ok d' \<and> msf_kept d' = msf_kept d"
  using assms(4)
proof (cases rule: msf_anchored_second_cases)
  case first
  then show ?thesis using assms msf_startFrame_ok by simp
next
  case marked
  then show ?thesis using msf_afterFinalize_ok[OF _ _ marked(3)] msf_finalizeFrame_ok[OF assms(1,3)] by simp
next
  case slipped
  then show ?thesis using msf_slip_ok[OF assms(1)] by simp
next
  case identified
  then show ?thesis using msf_afterFinalize_ok[OF _ _ identified(3)] msf_finalizeFrame_ok[OF assms(1,3)] by simp
next
  case overrun
  then show ?thesis by (simp add: msf_demote_ok msf_dropAnchor_ok)
next
  case (ended e)
  note st = msf_store_ok[OF assms(1-3), of "md_sofNext d" r, folded msf_stored_def]
  have "msf_bounds e \<and> msf_lock_ok e \<and> msf_kept e = msf_kept d"
    using st msf_finalizeFrame_ok[of "msf_stored r d" ref "md_sofNext d + 1" False] ended(1,2) by (simp add: ended(5))
  then show ?thesis unfolding ended(6) by (cases "md_anchored e") (simp_all add: msf_bounds_def msf_lock_ok_def msf_kept_def msf_certified_def)
next
  case within
  then show ?thesis using msf_store_ok[OF assms(1-3), of "md_sofNext d" r, folded msf_stored_def] assms(1) by (simp add: msf_bounds_def)
qed

text \<open>A time that some voter, so configured, certified.\<close>

definition time_certified :: "ClockStation \<Rightarrow> VoterConfig \<Rightarrow> ClockTimeInfo \<Rightarrow> bool" where
  "time_certified st cfg t \<longleftrightarrow> (\<exists>ref v. locked ref v \<and> tv_cfg v = cfg \<and> ti_minute t = votedField v FieldMinutes \<and> ti_hour t = votedField v FieldHours
     \<and> ti_doy t = votedField v FieldDoy \<and> ti_year2 t = votedField v FieldYear)
     \<and> ti_station t = st \<and> 0 \<le> ti_lastEdgeSecondOfFrame t \<and> ti_lastEdgeSecondOfFrame t < 60"

definition msf_times_ok :: "VoterConfig \<Rightarrow> MsfDecoder \<Rightarrow> bool" where
  "msf_times_ok cfg d \<longleftrightarrow> tv_cfg (md_voter d) = cfg \<and> (\<forall>t. OnTime t \<in> set (md_out d) \<longrightarrow> time_certified StMsf cfg t)"

definition msf_buffers :: "MsfDecoder \<Rightarrow> bool" where
  "msf_buffers d \<longleftrightarrow> length (md_hist d) \<le> 16 \<and> length (md_wideOff d) \<le> 15"

definition msf_ok :: "VoterConfig \<Rightarrow> MsfDecoder \<Rightarrow> bool" where
  "msf_ok cfg d \<longleftrightarrow> msf_bounds d \<and> msf_lock_ok d \<and> msf_buffers d \<and> msf_times_ok cfg d"

lemma msf_ok_kept:
  assumes "msf_kept d' = msf_kept d" "msf_bounds d'" "msf_lock_ok d'" "msf_ok cfg d"
  shows "msf_ok cfg d'"
proof -
  have "OnTime t \<in> set (md_out d') \<longleftrightarrow> OnTime t \<in> set (md_out d)" for t using assms(1) by (simp add: msf_kept_def set_eq_iff)
  then show ?thesis using assms by (simp add: msf_ok_def msf_times_ok_def msf_buffers_def msf_kept_def)
qed

lemma time_info_certified:
  assumes "msf_lock_ok d" "md_haveVoted d" "0 \<le> sof" "sof < 60" "tv_cfg (md_voter d) = cfg"
  shows "time_certified StMsf cfg (msf_time_info r sof d)"
  using assms by (auto simp: time_certified_def msf_time_info_def msf_lock_ok_def msf_certified_def)

lemma msf_emit_ok: "msf_ok cfg d \<Longrightarrow> (\<And>t. ev = OnTime t \<Longrightarrow> time_certified StMsf cfg t) \<Longrightarrow> msf_ok cfg (msf_emit ev d)"
  by (auto simp: msf_ok_def msf_times_ok_def msf_bounds_def msf_lock_ok_def msf_buffers_def msf_certified_def)

lemma msf_handleSecond_ok:
  assumes "msf_ok cfg d"
  shows "msf_ok cfg (msf_handleSecond ref r m d) \<and> md_blindSeconds (msf_handleSecond ref r m d) = md_blindSeconds d"
proof -
  have ok: "msf_bounds d" "msf_lock_ok d" using assms by (simp_all add: msf_ok_def)
  obtain sof d' where n: "(if \<not> md_anchored d then msf_unanchored r d else msf_anchored_second ref r d) = (sof, d')" by (metis surj_pair)
  then have k: "msf_bounds d' \<and> msf_lock_ok d' \<and> msf_kept d' = msf_kept d"
    using msf_unanchored_ok[OF ok] msf_anchored_second_ok[OF ok] by (cases "md_anchored d") simp_all
  then have "msf_ok cfg d'" using msf_ok_kept assms by blast
  then have e: "msf_ok cfg (msf_emit (OnSecond (msf_second_info r m sof)) d')" by (rule msf_emit_ok) simp
  then have "time_certified StMsf cfg (msf_time_info r sof (msf_emit (OnSecond (msf_second_info r m sof)) d'))" if "md_haveVoted d'" "0 \<le> sof" "sof < 60"
    using that by (intro time_info_certified) (simp_all add: msf_ok_def msf_times_ok_def)
  moreover have "md_blindSeconds d' = md_blindSeconds d" using k by (simp add: msf_kept_def)
  ultimately show ?thesis unfolding msf_handleSecond_def n using e by (auto simp: Let_def intro!: msf_emit_ok)
qed

text \<open>A whole second, and the rest of the decoder's life.\<close>

lemma msf_reseed_ok:
  assumes "msf_ok cfg d" "msf_reseed pred m d = (e, d')"
  shows "msf_ok cfg d'"
proof -
  have w: "length (md_wideOff d) \<le> 15" using assms(1) by (simp add: msf_ok_def msf_buffers_def)
  have upd: "msf_ok cfg (d\<lparr>md_wideOff := ws\<rparr>)" "msf_ok cfg (d\<lparr>md_trk := k, md_wideOff := ws\<rparr>)" if "length ws \<le> 15" for ws k
    using assms(1) that by (simp_all add: msf_ok_def msf_bounds_def msf_lock_ok_def msf_certified_def msf_buffers_def msf_times_ok_def)
  have trim: "length (if kReseedWindow < length ws then tl ws else ws) \<le> 15" if "length ws \<le> 16" for ws :: "real list"
    using that by (auto simp: kReseedWindow_def)
  show ?thesis
    using assms upd trim[of "md_wideOff d @ [_]"] w
    by (auto simp: msf_reseed_def Let_def split: option.splits prod.splits if_splits)
qed

lemma msf_untouched_ok:
  "msf_ok cfg (d\<lparr>md_trk := k, md_blindSeconds := n\<rparr>) = msf_ok cfg d" "msf_ok cfg (d\<lparr>md_segEdge := x\<rparr>) = msf_ok cfg d"
  "msf_ok cfg (d\<lparr>md_trk := k\<rparr>) = msf_ok cfg d" "msf_ok cfg (d\<lparr>md_scanPos := i\<rparr>) = msf_ok cfg d"
  by (simp_all add: msf_ok_def msf_bounds_def msf_lock_ok_def msf_certified_def msf_buffers_def msf_times_ok_def)

lemma msf_hist_ok: "msf_ok cfg d \<Longrightarrow> length hs \<le> 16 \<Longrightarrow> msf_ok cfg (d\<lparr>md_hist := hs\<rparr>)"
  by (simp add: msf_ok_def msf_bounds_def msf_lock_ok_def msf_certified_def msf_buffers_def msf_times_ok_def)

lemma msf_blind_ok:
  assumes "msf_ok cfg d"
  defines "e \<equiv> (if md_lockState d = LsLocked then msf_setLockState LsAcquiring d else d)"
  shows "msf_ok cfg ((msf_dropAnchor (e\<lparr>md_segValid := False, md_scanPos := 0, md_blindSeconds := 0, md_trk := et_reset (md_trk e)\<rparr>))\<lparr>md_hist := []\<rparr>)"
  using assms(1) msf_dropAnchor_ok(1)[of "e\<lparr>md_segValid := False, md_scanPos := 0, md_blindSeconds := 0, md_trk := et_reset (md_trk e)\<rparr>"]
  unfolding e_def by (auto simp: msf_ok_def msf_lock_ok_def msf_buffers_def msf_times_ok_def msf_bounds_def msf_dropAnchor_def)

lemma msf_processSecond_ok:
  assumes "msf_ok cfg d" "0 \<le> md_blindSeconds d" "md_blindSeconds d < 90"
  shows "msf_ok cfg (msf_processSecond ref m d) \<and> 0 \<le> md_blindSeconds (msf_processSecond ref m d) \<and> md_blindSeconds (msf_processSecond ref m d) < 90"
proof -
  let ?warm = "et_valid (md_trk d) \<and> kTrkWarm < et_count (md_trk d)"
  obtain rs d1 where r: "(if ?warm then msf_reseed (md_segEdge d) m d else (None, d)) = (rs, d1)" by (metis surj_pair)
  then have ok1: "msf_ok cfg d1" using msf_reseed_ok[OF assms(1)] assms(1) by (auto split: if_splits)
  have bl: "md_blindSeconds d1 = md_blindSeconds d"
    using r by (auto simp: msf_reseed_def Let_def split: if_splits option.splits prod.splits)
  define found where "found = (if rs \<noteq> None then rs else if (if ?warm \<and> mm_haveContrast m then mm_fine m else None) \<noteq> None
      then (if ?warm \<and> mm_haveContrast m then mm_fine m else None) else mm_near m)"
  define d2 where "d2 = d1\<lparr>md_trk := et_update (found \<noteq> None) (case found of Some e \<Rightarrow> e | None \<Rightarrow> 0)
      (if et_valid (md_trk d1) then et_period (md_trk d1) else of_int (md_sr d1))
      (if ?warm then kTrkOutlierSec * of_int (md_sr d1) else of_int (md_decim d1)) (md_trk d1),
      md_blindSeconds := (if found \<noteq> None then 0 else md_blindSeconds d1 + 1)\<rparr>"
  define edge where "edge = (if et_valid (md_trk d2) then et_edge (md_trk d2) else md_segEdge d)"
  define sec where "sec = (mm_classify m edge)\<lparr>ms_edge := llround edge, ms_edgeExact := Some edge\<rparr>"
  define d3 where "d3 = d2\<lparr>md_hist := (if 16 < length (md_hist d2 @ [sec]) then tl (md_hist d2 @ [sec]) else md_hist d2 @ [sec])\<rparr>"
  define d4 where "d4 = msf_handleSecond ref sec (found \<noteq> None) d3"
  define d5 where "d5 = d4\<lparr>md_segEdge := (if et_valid (md_trk d4) then et_edge (md_trk d4) + et_period (md_trk d4) else edge + of_int (md_sr d4))\<rparr>"
  have ok2: "msf_ok cfg d2" unfolding d2_def msf_untouched_ok by (fact ok1)
  have b2: "0 \<le> md_blindSeconds d2" using bl assms(2) by (simp add: d2_def)
  have "length (md_hist d2) \<le> 16" using ok2 by (simp add: msf_ok_def msf_buffers_def)
  then have "msf_ok cfg d3" unfolding d3_def by (intro msf_hist_ok ok2) auto
  then have "msf_ok cfg d4 \<and> md_blindSeconds d4 = md_blindSeconds d2" unfolding d4_def using msf_handleSecond_ok by (simp add: d3_def)
  then have d5: "msf_ok cfg d5" "md_blindSeconds d5 = md_blindSeconds d2" by (simp_all add: d5_def msf_untouched_ok)
  have "msf_processSecond ref m d =
     (if kMaxBlindSeconds \<le> md_blindSeconds d5
      then let e = (if md_lockState d5 = LsLocked then msf_setLockState LsAcquiring d5 else d5)
           in (msf_dropAnchor (e\<lparr>md_segValid := False, md_scanPos := 0, md_blindSeconds := 0, md_trk := et_reset (md_trk e)\<rparr>))\<lparr>md_hist := []\<rparr>
      else d5)"
    unfolding msf_processSecond_def Let_def r prod.case found_def[symmetric] d2_def[symmetric] edge_def[symmetric] sec_def[symmetric]
      d3_def[symmetric] d4_def[symmetric] d5_def[symmetric] by (rule refl)
  then show ?thesis using msf_blind_ok[OF d5(1)] d5 b2 by (simp add: Let_def kMaxBlindSeconds_def msf_dropAnchor_def)
qed

section \<open>Reachable states\<close>

text \<open>
  The decoder of a station armed with a reference clock or not, after any sequence of resets,
  carriers found, searches for a first edge, and seconds.
\<close>

inductive msf_reach :: "int \<Rightarrow> bool \<Rightarrow> int \<Rightarrow> MsfDecoder \<Rightarrow> bool" for rate :: int and have_ref :: bool and bound :: int where
  new: "msf_reach rate have_ref bound (msf_setPlausibility have_ref bound (mk_MsfDecoder rate))"
| reset: "msf_reach rate have_ref bound d \<Longrightarrow> msf_reach rate have_ref bound (msf_reset d)"
| carrier: "msf_reach rate have_ref bound d \<Longrightarrow> md_lockState d = LsNoSignal \<Longrightarrow> msf_reach rate have_ref bound (msf_startSteady d)"
| seed: "msf_reach rate have_ref bound d \<Longrightarrow> \<not> md_segValid d \<Longrightarrow> msf_reach rate have_ref bound (msf_trySeed n contrast falling at_sample d)"
| second: "msf_reach rate have_ref bound d \<Longrightarrow> md_segValid d \<Longrightarrow> msf_reach rate have_ref bound (msf_processSecond ref m d)"

definition msf_cfg :: "bool \<Rightarrow> int \<Rightarrow> VoterConfig" where
  "msf_cfg have_ref bound = tv_cfg (setPlausibility have_ref bound (mk_TimeFrameVoter msf_voterConfig))"

lemma msf_reset_ok: "msf_ok cfg d \<Longrightarrow> msf_ok cfg (msf_reset d) \<and> md_blindSeconds (msf_reset d) = 0"
  using msf_dropAnchor_ok(1)[of d]
  by (simp add: msf_reset_def msf_ok_def msf_lock_ok_def msf_buffers_def msf_times_ok_def msf_bounds_def msf_dropAnchor_def)

lemma msf_new_ok: "msf_ok (msf_cfg have_ref bound) (msf_setPlausibility have_ref bound (mk_MsfDecoder rate))
    \<and> md_blindSeconds (msf_setPlausibility have_ref bound (mk_MsfDecoder rate)) = 0"
  by (simp add: mk_MsfDecoder_def Let_def msf_setPlausibility_def msf_reset_def msf_ok_def msf_lock_ok_def msf_buffers_def
      msf_times_ok_def msf_bounds_def msf_dropAnchor_def msf_cfg_def setPlausibility_def)

lemma seed_loop_ok: "msf_ok cfg d \<Longrightarrow> msf_ok cfg (seed_loop f g xs d) \<and> md_blindSeconds (seed_loop f g xs d) = md_blindSeconds d"
proof (induction xs arbitrary: d)
  case (Cons i xs)
  have "msf_ok cfg (d\<lparr>md_scanPos := i, md_segValid := True, md_segEdge := g i, md_hist := []\<rparr>)"
    using Cons.prems by (simp add: msf_ok_def msf_bounds_def msf_lock_ok_def msf_certified_def msf_buffers_def msf_times_ok_def)
  then show ?case using Cons.IH[of "d\<lparr>md_scanPos := i\<rparr>"] Cons.prems by (simp add: Let_def msf_untouched_ok)
qed simp

lemma msf_trySeed_ok: "msf_ok cfg d \<Longrightarrow> msf_ok cfg (msf_trySeed n c f g d) \<and> md_blindSeconds (msf_trySeed n c f g d) = md_blindSeconds d"
  by (simp add: msf_trySeed_def Let_def seed_loop_ok)

lemma msf_startSteady_ok:
  assumes "msf_ok cfg d" "md_lockState d = LsNoSignal"
  shows "msf_ok cfg (msf_startSteady d) \<and> md_blindSeconds (msf_startSteady d) = md_blindSeconds d"
  using assms by (simp add: msf_startSteady_def msf_ok_def msf_lock_ok_def msf_buffers_def msf_times_ok_def msf_bounds_def)

lemma msf_reach_ok:
  "msf_reach rate have_ref bound d \<Longrightarrow> msf_ok (msf_cfg have_ref bound) d \<and> 0 \<le> md_blindSeconds d \<and> md_blindSeconds d < 90"
proof (induction rule: msf_reach.induct)
  case new
  then show ?case using msf_new_ok by simp
next
  case (reset d)
  then show ?case using msf_reset_ok[of "msf_cfg have_ref bound" d] by simp
next
  case (carrier d)
  then show ?case using msf_startSteady_ok[of "msf_cfg have_ref bound" d] by simp
next
  case (seed d n contrast falling at_sample)
  then show ?case using msf_trySeed_ok[of "msf_cfg have_ref bound" d] by simp
next
  case (second d ref m)
  then show ?case using msf_processSecond_ok by blast
qed

text \<open>
  C5: The MSF decoder's states. Whatever the signal processing reads, and through any resets, the
  minute's array of 62 seconds is never indexed past its end, the buffers keep their bounds, an
  unsynchronised count is given up after two minutes and a lost edge after ninety seconds; and the
  decoder is locked exactly when it holds a voted time, which is then the voter's own, certified,
  at the end of a minute that was sixty seconds long. Every time it has given out named a second
  of the minute and carried what a voter of its configuration had certified.
\<close>

theorem msf_states_ok:
  assumes "msf_reach rate have_ref bound d"
  shows "msf_bounds d \<and> msf_buffers d \<and> md_blindSeconds d < 90 \<and> msf_lock_ok d \<and> msf_times_ok (msf_cfg have_ref bound) d"
  using msf_reach_ok[OF assms] by (simp add: msf_ok_def)

theorem msf_states_ok_witness:
  "msf_bounds (msf_startSteady (msf_setPlausibility True 10 (mk_MsfDecoder 12000)))
   \<and> msf_buffers (msf_startSteady (msf_setPlausibility True 10 (mk_MsfDecoder 12000)))
   \<and> md_blindSeconds (msf_startSteady (msf_setPlausibility True 10 (mk_MsfDecoder 12000))) < 90
   \<and> msf_lock_ok (msf_startSteady (msf_setPlausibility True 10 (mk_MsfDecoder 12000)))
   \<and> msf_times_ok (msf_cfg True 10) (msf_startSteady (msf_setPlausibility True 10 (mk_MsfDecoder 12000)))"
  by (rule msf_states_ok[OF msf_reach.carrier[OF msf_reach.new]])
     (simp add: msf_setPlausibility_def mk_MsfDecoder_def Let_def msf_reset_def)


end
