(* ===== verification/Msf_Minutes.thy ===== *)
theory Msf_Minutes
  imports Msf_Lock
begin

text \<open>
  From MSF's seconds to a lock: minutes that read clearly are collected, ended by their identifier,
  decoded and voted on, and from the second of them on the decoder is locked on the minute it has
  just heard.
\<close>

section \<open>Clear seconds\<close>

text \<open>Second \<open>j\<close> of a minute that names the local minute \<open>L\<close>: no marker, and both bits as sent.\<close>

definition clear_second :: "int \<Rightarrow> bool \<Rightarrow> bool \<Rightarrow> nat \<Rightarrow> MsfSec \<Rightarrow> bool" where
  "clear_second L soon summer j r \<longleftrightarrow>
     ms_read r \<and> ms_cut r \<and> \<not> confMarker r kStructConf \<and> 4 / 10 \<le> ms_aConf r \<and> 5 / 100 \<le> ms_bConf r
     \<and> (17 \<le> j \<and> j \<le> 51 \<longrightarrow> ms_a r = msf_A_bits L ! (j - 17)) \<and> (52 \<le> j \<longrightarrow> ms_a r = kIdentifier ! (j - 52))
     \<and> (53 \<le> j \<and> j \<le> 58 \<longrightarrow> ms_b r = msf_B_bits L soon summer ! (j - 53))"

definition clear_frame :: "int \<Rightarrow> bool \<Rightarrow> bool \<Rightarrow> int \<Rightarrow> MsfDecoder \<Rightarrow> bool" where
  "clear_frame L soon summer k d \<longleftrightarrow> md_frFilled d = k \<and> length (md_frame d) = 62
     \<and> (\<forall>j. 1 \<le> j \<longrightarrow> int j < k \<longrightarrow> clear_second L soon summer j (md_frame d ! j))"

lemma clear_frame_at: "clear_frame L soon summer k d \<Longrightarrow> 1 \<le> j \<Longrightarrow> int j < k \<Longrightarrow> clear_second L soon summer j (md_frame d ! j)"
  by (simp add: clear_frame_def)

section \<open>The identifier\<close>

lemma identifier_window:
  assumes "length f = 62"
  shows "take 8 (drop 52 f) = [f ! 52, f ! 53, f ! 54, f ! 55, f ! 56, f ! 57, f ! 58, f ! 59]"
    "take 8 (drop 51 f) = [f ! 51, f ! 52, f ! 53, f ! 54, f ! 55, f ! 56, f ! 57, f ! 58]"
  using assms by (auto intro!: nth_equalityI simp: less_Suc_eq numeral_eq_Suc)

lemma clear_id:
  assumes "clear_frame L soon summer 60 d" "52 \<le> j" "j < 60"
  shows "ms_read (md_frame d ! j)" "ms_cut (md_frame d ! j)" "\<not> confMarker (md_frame d ! j) kStructConf"
    "4 / 10 \<le> ms_aConf (md_frame d ! j)" "ms_a (md_frame d ! j) = kIdentifier ! (j - 52)"
  using clear_frame_at[OF assms(1), of j] assms(2,3) by (simp_all add: clear_second_def)

lemma identifier_ends:
  assumes "clear_frame L soon summer 60 d"
  shows "identifierEndsAt 59 d"
proof -
  note c = clear_id[OF assms]
  have f: "md_frFilled d = 60" "length (md_frame d) = 62" using assms by (simp_all add: clear_frame_def)
  have "kIdBitMinConf \<le> ms_aConf (md_frame d ! j)" if "52 \<le> j" "j < 60" for j using c(4)[OF that] by (simp add: kIdBitMinConf_def)
  note lo = this
  have "8 * kIdMeanConf \<le> ms_aConf (md_frame d ! 52) + ms_aConf (md_frame d ! 53) + ms_aConf (md_frame d ! 54) + ms_aConf (md_frame d ! 55)
      + ms_aConf (md_frame d ! 56) + ms_aConf (md_frame d ! 57) + ms_aConf (md_frame d ! 58) + ms_aConf (md_frame d ! 59)"
    using c(4)[of 52] c(4)[of 53] c(4)[of 54] c(4)[of 55] c(4)[of 56] c(4)[of 57] c(4)[of 58] c(4)[of 59] by (simp add: kIdMeanConf_def)
  then show ?thesis
    using c(1-3) lo c(5)[of 52] c(5)[of 53] c(5)[of 54] c(5)[of 55] c(5)[of 56] c(5)[of 57] c(5)[of 58] c(5)[of 59]
    by (simp add: identifierEndsAt_def f identifierAt_def identifier_window[OF f(2)] kIdentifier_def not_less)
qed

text \<open>A second earlier it is not there: its first bit is 0 and its second 1.\<close>

lemma identifier_not_yet:
  assumes "clear_frame L soon summer 59 d"
  shows "\<not> identifierEndsAt 58 d"
proof -
  have f: "length (md_frame d) = 62" using assms by (simp add: clear_frame_def)
  have "ms_a (md_frame d ! 52) = 0" using clear_frame_at[OF assms, of 52] by (simp add: clear_second_def kIdentifier_def)
  then show ?thesis by (simp add: identifierEndsAt_def identifierAt_def identifier_window[OF f] kIdentifier_def)
qed

lemma clear_confirmed:
  assumes "clear_frame L soon summer 60 d"
  shows "msf_confirmed 60 m d"
proof -
  have "filter (\<lambda>j. confMarker (md_frame d ! nat j) kStructConf) [1..59] = []"
    using clear_frame_at[OF assms, of "nat _"] by (auto simp: filter_empty_conv clear_second_def)
  moreover have "ms_a (md_frame d ! nat (52 + j)) = kIdentifier ! nat j" if "0 \<le> j" "j \<le> 7" for j
    using clear_id(5)[OF assms, of "nat (52 + j)"] that by (simp add: nat_add_distrib)
  then have "filter (\<lambda>j. 1 \<le> 60 - 8 + j \<and> (let r = md_frame d ! nat (60 - 8 + j)
         in ms_read r \<and> ms_cut r \<and> kStructConf \<le> ms_aConf r \<and> ms_a r \<noteq> kIdentifier ! nat j)) [0..7] = []"
    by (auto simp: filter_empty_conv Let_def)
  ultimately have "\<not> msf_contradicted 60 d" by (simp add: msf_contradicted_def strayMarks_def idWrong_def)
  then show ?thesis using identifier_ends[OF assms] assms by (simp add: msf_confirmed_def clear_frame_def)
qed

section \<open>The code of a clear minute\<close>

lemma bits_from_clear:
  assumes "\<And>p. p \<in> set ps \<Longrightarrow> \<exists>c. bitAt n p isA d = Some (f p, c) \<and> lo \<le> c" "lo \<le> m"
  shows "\<exists>m'. bits_from n isA d ps m = Some (map f ps, m') \<and> lo \<le> m'"
  using assms
proof (induction ps arbitrary: m)
  case (Cons p ps)
  obtain c where c: "bitAt n p isA d = Some (f p, c)" "lo \<le> c" using Cons.prems(1)[of p] by auto
  obtain m' where "bits_from n isA d ps (min m c) = Some (map f ps, m')" "lo \<le> m'"
    using Cons.IH[of "min m c"] Cons.prems c(2) by auto
  with c show ?case by simp
qed simp

lemma bitAt_clear:
  assumes "clear_frame L soon summer 60 d" "1 \<le> p" "p \<le> 58"
  shows "bitAt 60 p True d = Some (ms_a (md_frame d ! nat p), ms_aConf (md_frame d ! nat p))"
    "bitAt 60 p False d = Some (ms_b (md_frame d ! nat p), ms_bConf (md_frame d ! nat p))"
    "5 / 100 \<le> ms_aConf (md_frame d ! nat p)" "5 / 100 \<le> ms_bConf (md_frame d ! nat p)"
proof -
  have r: "clear_second L soon summer (nat p) (md_frame d ! nat p)" using clear_frame_at[OF assms(1), of "nat p"] assms(2,3) by simp
  then show lo: "5 / 100 \<le> ms_aConf (md_frame d ! nat p)" "5 / 100 \<le> ms_bConf (md_frame d ! nat p)" by (simp_all add: clear_second_def)
  have "md_frFilled d = 60" using assms(1) by (simp add: clear_frame_def)
  then show "bitAt 60 p True d = Some (ms_a (md_frame d ! nat p), ms_aConf (md_frame d ! nat p))"
    "bitAt 60 p False d = Some (ms_b (md_frame d ! nat p), ms_bConf (md_frame d ! nat p))"
    using r lo assms(2,3) by (simp_all add: bitAt_def Let_def clear_second_def kBitMinConf_def)
qed

lemma map_upto_eq:
  assumes "hi - lo + 1 = int (length xs)" "\<And>i. i < length xs \<Longrightarrow> f (lo + int i) = xs ! i"
  shows "map f [lo..hi] = xs"
  using assms by (intro nth_equalityI) simp_all

lemma clear_A_bits:
  assumes "clear_frame L soon summer 60 d"
  shows "map (\<lambda>p. ms_a (md_frame d ! nat p)) [17..51] = msf_A_bits L"
proof (rule map_upto_eq)
  show "51 - 17 + 1 = int (length (msf_A_bits L))" by (simp add: msf_A_bits_def)
  show "ms_a (md_frame d ! nat (17 + int i)) = msf_A_bits L ! i" if "i < length (msf_A_bits L)" for i
    using clear_frame_at[OF assms, of "17 + i"] that by (simp add: clear_second_def nat_add_distrib msf_A_bits_def)
qed

lemma clear_B_bits:
  assumes "clear_frame L soon summer 60 d"
  shows "map (\<lambda>p. ms_b (md_frame d ! nat p)) [53..58] = msf_B_bits L soon summer"
proof (rule map_upto_eq)
  show "58 - 53 + 1 = int (length (msf_B_bits L soon summer))" by (simp add: msf_B_bits_def)
  show "ms_b (md_frame d ! nat (53 + int i)) = msf_B_bits L soon summer ! i" if "i < length (msf_B_bits L soon summer)" for i
  proof -
    have "i \<le> 5" using that by (simp add: msf_B_bits_def)
    then show ?thesis using clear_frame_at[OF assms, of "53 + i"] by (simp add: clear_second_def nat_add_distrib)
  qed
qed

lemma clear_decodes:
  assumes "clear_frame L soon summer 60 d" "msf_century L"
  obtains x m where "msf_decode 60 d = Some (x, m)" "5 / 100 \<le> m" "mx_utc x = hostNowFields ((L - (if summer then 60 else 0) - 1) * 60000)"
proof -
  note at = bitAt_clear[OF assms(1)]
  have "\<exists>m. bits_from 60 True d [17..51] 1 = Some (map (\<lambda>p. ms_a (md_frame d ! nat p)) [17..51], m) \<and> 5 / 100 \<le> m"
    using at(1,3) by (intro bits_from_clear) (simp_all only: set_upto atLeastAtMost_iff, auto)
  then obtain m where a: "bits_from 60 True d [17..51] 1 = Some (msf_A_bits L, m)" "5 / 100 \<le> m" unfolding clear_A_bits[OF assms(1)] by blast
  have "\<exists>m'. bits_from 60 False d [53..58] m = Some (map (\<lambda>p. ms_b (md_frame d ! nat p)) [53..58], m') \<and> 5 / 100 \<le> m'"
    using at(2,4) a(2) by (intro bits_from_clear) (simp_all only: set_upto atLeastAtMost_iff, auto)
  then obtain m' where b: "bits_from 60 False d [53..58] m = Some (msf_B_bits L soon summer, m')" "5 / 100 \<le> m'"
    unfolding clear_B_bits[OF assms(1)] by blast
  let ?dut = "dut1_of (map (\<lambda>p. bitAt 60 p False d) [1..16])"
  obtain x where "msf_code (nth_from 17 (msf_A_bits L)) (nth_from 53 (msf_B_bits L soon summer)) ?dut = Some x"
    "mx_utcMs x = (L - (if summer then 60 else 0) - 1) * 60000" "mx_utc x = hostNowFields (mx_utcMs x)"
    using msf_decodes[OF assms(2), of soon summer ?dut] by blast
  with a b show thesis by (intro that[of x m']) (simp_all only: msf_decode_def option.case prod.case)
qed

section \<open>A clear minute\<close>

text \<open>What a clear second leaves alone, and the state \<open>k\<close> seconds into a minute begun at \<open>start\<close>.\<close>

definition msf_rest :: "MsfDecoder \<Rightarrow> TimeFrameVoter \<times> bool \<times> int \<times> int \<times> EdgeTracker \<times> int" where
  "msf_rest d = (md_voter d, md_haveLastFrame d, md_lastFrameStart d, md_lastFrameLen d, md_trk d, md_sr d)"

definition filling :: "int \<Rightarrow> bool \<Rightarrow> bool \<Rightarrow> int \<Rightarrow> int \<Rightarrow> MsfDecoder \<Rightarrow> bool" where
  "filling L soon summer start k d \<longleftrightarrow> md_anchored d \<and> md_sofNext d = k \<and> clear_frame L soon summer k d \<and> md_frStart d = start"

lemma handleSecond_anchored:
  fixes m :: bool
  assumes "md_anchored d" "msf_anchored_second ref r d = (sof, d')"
  defines "e \<equiv> msf_handleSecond ref r m d"
  shows "msf_rest e = msf_rest d'" "md_anchored e = md_anchored d'" "md_sofNext e = md_sofNext d'" "md_frame e = md_frame d'"
    "md_frFilled e = md_frFilled d'" "md_frStart e = md_frStart d'" "md_lockState e = md_lockState d'" "md_haveVoted e = md_haveVoted d'"
  using assms(1,2) by (simp_all add: e_def msf_handleSecond_def Let_def msf_rest_def)

lemma clear_stored:
  assumes "filling L soon summer start k d" "1 \<le> k" "k \<le> 59" "clear_second L soon summer (nat k) r"
  shows "filling L soon summer start (k + 1) (msf_stored r d)" "msf_rest (msf_stored r d) = msf_rest d"
proof -
  have "clear_second L soon summer j ((md_frame d)[nat k := r] ! j)" if "1 \<le> j" "int j < k + 1" for j
    using that assms clear_frame_at[of L soon summer k d j] by (cases "j = nat k") (auto simp: filling_def clear_frame_def)
  then show "filling L soon summer start (k + 1) (msf_stored r d)" "msf_rest (msf_stored r d) = msf_rest d"
    using assms(1) by (simp_all add: filling_def clear_frame_def msf_stored_def msf_rest_def)
qed

lemma anchored_second_plain:
  fixes r :: MsfSec and d :: MsfDecoder and ref :: TimeFields
  assumes "\<not> confMarker r kStructConf" "1 \<le> md_sofNext d" "md_sofNext d < 60"
  defines "e \<equiv> msf_finalizeFrame ref (md_sofNext d + 1) False (msf_stored r d)"
  shows "msf_anchored_second ref r d =
    (md_sofNext d, if 58 \<le> md_sofNext d \<and> identifierEndsAt (md_sofNext d) (msf_stored r d)
       then if md_anchored e then e\<lparr>md_sofNext := 0\<rparr> else e else msf_stored r d)"
proof -
  have cap: "kFrameCap - 1 = 61" by (simp add: kFrameCap_def)
  show ?thesis unfolding msf_anchored_second_def Let_def cap msf_stored_def[symmetric] e_def[symmetric] using assms(1-3) by simp
qed

lemma clear_second_within:
  assumes "filling L soon summer start k d" "1 \<le> k" "k \<le> 58" "clear_second L soon summer (nat k) r"
  shows "filling L soon summer start (k + 1) (msf_handleSecond ref r m d)" "msf_rest (msf_handleSecond ref r m d) = msf_rest d"
proof -
  note st = clear_stored[OF assms(1,2) _ assms(4)]
  have d: "md_anchored d" "md_sofNext d = k" using assms(1) by (simp_all add: filling_def)
  have "\<not> (58 \<le> k \<and> identifierEndsAt k (msf_stored r d))"
    using st(1) identifier_not_yet[of L soon summer "msf_stored r d"] assms(3) by (auto simp: filling_def)
  note plain = if_not_P[OF this]
  have "\<not> confMarker r kStructConf" "1 \<le> md_sofNext d" "md_sofNext d < 60" using assms(2-4) by (simp_all add: d(2) clear_second_def)
  from anchored_second_plain[OF this, of ref] have "msf_anchored_second ref r d = (k, msf_stored r d)" unfolding d(2) plain .
  note h = handleSecond_anchored[OF d(1) this, of m]
  show "filling L soon summer start (k + 1) (msf_handleSecond ref r m d)" "msf_rest (msf_handleSecond ref r m d) = msf_rest d"
    using st assms(3) unfolding filling_def clear_frame_def h by simp_all
qed

text \<open>The last second: the minute is ended by its identifier, decoded and voted on.\<close>

definition next_voter :: "int \<Rightarrow> MsfDecoder \<Rightarrow> TimeFrameVoter" where
  "next_voter start d =
     (if md_haveLastFrame d
         \<and> \<bar>of_int (start - md_lastFrameStart d) - of_int (md_lastFrameLen d) * (if et_valid (md_trk d) then et_period (md_trk d) else of_int (md_sr d))\<bar>
           \<le> 25 / 100 * of_int (md_sr d)
      then md_voter d else voter_reset (md_voter d))"

lemma next_voter_cong: "msf_rest d = msf_rest d' \<Longrightarrow> next_voter start d = next_voter start d'"
  by (simp only: next_voter_def msf_rest_def prod.inject)

lemma clear_vote:
  fixes x :: MsfDecoded and c :: real and ref :: TimeFields
  assumes "md_anchored d"
  defines "v \<equiv> (let f = synthetic_frame (Some (mx_utc x, \<lambda>_. c)) in addFrame (fr_symbols f) (fr_confidence f) (next_voter (md_frStart d) d))"
    and "e \<equiv> msf_vote ref 60 True (Some (x, c)) d"
  shows "msf_rest e = (v, True, md_frStart d, 60, md_trk d, md_sr d)" "md_anchored e"
    "locked ref v \<Longrightarrow> md_lockState e = LsLocked \<and> md_haveVoted e \<and> md_votedMinute e = votedField v FieldMinutes
       \<and> md_votedHour e = votedField v FieldHours \<and> md_votedDoy e = votedField v FieldDoy \<and> md_votedYear e = votedField v FieldYear"
  using assms(1) by (simp_all add: e_def v_def msf_vote_def Let_def msf_rest_def next_voter_def if_distrib)

text \<open>The frame of a clear minute, added to the voter.\<close>

definition voted_on :: "int \<Rightarrow> bool \<Rightarrow> real \<Rightarrow> int \<Rightarrow> MsfDecoder \<Rightarrow> TimeFrameVoter" where
  "voted_on L summer c start d =
     (let f = synthetic_frame (Some (hostNowFields ((L - (if summer then 60 else 0) - 1) * 60000), \<lambda>_. c))
      in addFrame (fr_symbols f) (fr_confidence f) (next_voter start d))"

definition on_the_minute :: "TimeFrameVoter \<Rightarrow> MsfDecoder \<Rightarrow> bool" where
  "on_the_minute v e \<longleftrightarrow> md_lockState e = LsLocked \<and> md_haveVoted e \<and> md_votedMinute e = votedField v FieldMinutes
     \<and> md_votedHour e = votedField v FieldHours \<and> md_votedDoy e = votedField v FieldDoy \<and> md_votedYear e = votedField v FieldYear"

lemma clear_second_last:
  assumes "filling L soon summer start 59 d" "clear_second L soon summer 59 r" "msf_century L"
  obtains c where "5 / 100 \<le> c" "msf_rest (msf_handleSecond ref r m d) = (voted_on L summer c start d, True, start, 60, md_trk d, md_sr d)"
    "md_anchored (msf_handleSecond ref r m d)" "md_sofNext (msf_handleSecond ref r m d) = 0"
    "locked ref (voted_on L summer c start d) \<Longrightarrow> on_the_minute (voted_on L summer c start d) (msf_handleSecond ref r m d)
       \<and> last (md_out (msf_handleSecond ref r m d)) = OnTime (msf_time_info r 59 (msf_handleSecond ref r m d))"
proof -
  let ?s = "msf_stored r d"
  have st: "filling L soon summer start 60 ?s" "msf_rest ?s = msf_rest d" using clear_stored[OF assms(1), of r] assms(2) by simp_all
  have d: "md_anchored d" "md_sofNext d = 59" using assms(1) by (simp_all add: filling_def)
  have cf: "clear_frame L soon summer 60 ?s" "md_frStart ?s = start" "md_anchored ?s" using st(1) by (simp_all add: filling_def)
  have run: "clear_frame L soon summer 60 (?s\<lparr>md_unconfirmedRun := 0\<rparr>)" using cf(1) by (simp add: clear_frame_def)
  obtain x c where x: "msf_decode 60 (?s\<lparr>md_unconfirmedRun := 0\<rparr>) = Some (x, c)" "5 / 100 \<le> c"
    "mx_utc x = hostNowFields ((L - (if summer then 60 else 0) - 1) * 60000)" by (rule clear_decodes[OF run assms(3)])
  define e where "e = msf_finalizeFrame ref 60 False ?s"
  have conf: "msf_confirmed 60 False ?s" using clear_confirmed[OF cf(1)] .
  then have "\<not> msf_contradicted 60 ?s" by (simp add: msf_confirmed_def)
  then have e: "e = msf_vote ref 60 True (Some (x, c)) (?s\<lparr>md_unconfirmedRun := 0, md_lastFrameFrom := 1\<rparr>)"
    unfolding e_def msf_finalizeFrame_def Let_def using conf x(1) by simp
  let ?d = "?s\<lparr>md_unconfirmedRun := 0, md_lastFrameFrom := 1\<rparr>" and ?v = "voted_on L summer c start d"
  have rest: "msf_rest ?d = msf_rest d" "md_frStart ?d = start" "md_anchored ?d" using st(2) cf(2,3) by (simp_all add: msf_rest_def)
  then have nv: "next_voter start ?d = next_voter start d" "md_trk ?d = md_trk d" "md_sr ?d = md_sr d"
    using next_voter_cong[OF rest(1)] by (simp_all add: msf_rest_def)
  note cv = clear_vote[OF rest(3), where ref = ref and x = x and c = c, folded e, unfolded rest(2) nv x(3), folded voted_on_def]
  have "59 = md_sofNext d" by (simp add: d)
  have "\<not> confMarker r kStructConf" "1 \<le> md_sofNext d" "md_sofNext d < 60" using assms(2) by (simp_all add: d(2) clear_second_def)
  from anchored_second_plain[OF this, of ref] have a: "msf_anchored_second ref r d = (59, e\<lparr>md_sofNext := 0\<rparr>)"
    using identifier_ends[OF cf(1)] cv(2) by (simp add: d(2) e_def)
  note h = handleSecond_anchored[OF d(1) a, of m]
  show thesis
  proof (rule that[OF x(2)])
    show "msf_rest (msf_handleSecond ref r m d) = (?v, True, start, 60, md_trk d, md_sr d)" unfolding h using cv(1) by (simp add: msf_rest_def)
    show "md_anchored (msf_handleSecond ref r m d)" "md_sofNext (msf_handleSecond ref r m d) = 0" unfolding h using cv(2) by simp_all
    show "on_the_minute ?v (msf_handleSecond ref r m d)
       \<and> last (md_out (msf_handleSecond ref r m d)) = OnTime (msf_time_info r 59 (msf_handleSecond ref r m d))" if "locked ref ?v"
      unfolding msf_handleSecond_def using cv(3)[OF that] a d(1) by (simp add: Let_def on_the_minute_def msf_time_info_def msf_emit_def)
  qed
qed

section \<open>The UTC of a minute\<close>

lemma utc_of_century:
  assumes "rangeValid t"
  shows "10957 \<le> new_year (tf_year2 t) + tf_doy t - 1" "new_year (tf_year2 t) + tf_doy t - 1 < 47482"
  using assms new_year_next[of "tf_year2 t"] jan1_mono[of 2000 "2000 + tf_year2 t"] jan1_mono[of "2000 + (tf_year2 t + 1)" 2100]
  unfolding century_days by (simp_all add: rangeValid_iff)

lemma hostNowFields_utc_of:
  assumes "rangeValid t"
  shows "hostNowFields (utc_of t) = t"
proof -
  let ?z = "new_year (tf_year2 t) + tf_doy t - 1" and ?s = "tf_hour t * 60 + tf_minute t"
  have s: "0 \<le> ?s" "?s < 1440" using assms by (auto simp: rangeValid_iff)
  have u: "utc_of t = ((?z * 1440 + ?s) * 60) * 1000" by (simp add: utc_of_def utcMsFromFields_def Let_def algebra_simps)
  have day: "floorDiv (floorDiv (utc_of t) 1000) 86400 = ?z"
  proof -
    have "floorDiv (utc_of t) 1000 = ?z * 86400 + ?s * 60" unfolding u by (simp add: floorDiv_eq_div)
    moreover have "?s * 60 div 86400 = 0" using s by (intro div_pos_pos_trivial) auto
    ultimately show ?thesis by (simp add: floorDiv_eq_div div_mult_self3)
  qed
  obtain y m d where c: "civilFromDays ?z = (2000 + y, m, d)" "0 \<le> y" "y \<le> 99" using century_date[OF utc_of_century[OF assms]] by metis
  have dr: "day_range ?z" using utc_of_century[OF assms] by (simp add: day_range_def)
  have "2000 \<le> 2000 + y" "2000 + y \<le> 2099" using c by simp_all
  note parts = hostNowFields_parts[of "utc_of t" "2000 + y" m d, unfolded day, OF dr c(1) this]
  obtain D H M S where h: "utc_of t div 1000 = 86400 * D + (3600 * H + (60 * M + S))"
    "0 \<le> H" "H < 24" "0 \<le> M" "M < 60" "0 \<le> S" "S < 60" "civil_date (2000 + y) m d" "daysFromCivil (2000 + y) m d = D"
    "hostNowFields (utc_of t) = \<lparr>tf_minute = M, tf_hour = H, tf_doy = D - daysFromCivil (2000 + y) 1 1 + 1, tf_year2 = 2000 + y - 2000\<rparr>"
    by (rule parts)
  have "utc_of (hostNowFields (utc_of t)) = ((D * 1440 + H * 60 + M) * 60) * 1000"
    unfolding h(10) by (simp add: utc_of_def utcMsFromFields_def Let_def algebra_simps)
  moreover have "(?z * 1440 + ?s) * 60 + 0 = (D * 1440 + H * 60 + M) * 60 + S" using h(1) unfolding u by simp
  then have "?z * 1440 + ?s = D * 1440 + H * 60 + M" using digit_inj[of "?z * 1440 + ?s" 60 0 "D * 1440 + H * 60 + M" S, OF _ order_refl zero_less_numeral h(6,7)] by blast
  ultimately have "utc_of (hostNowFields (utc_of t)) = utc_of t" by (simp only: u)
  moreover have "rangeValid (hostNowFields (utc_of t))"
    using h(2-5) day_of_year[OF h(8)] c(2,3) by (simp add: h(9,10) rangeValid_iff year_len_def isLeapYear2_iff split: if_splits)
  ultimately show ?thesis using utc_of_inj assms by blast
qed

section \<open>Minutes in a row\<close>

text \<open>What is heard of second \<open>j\<close> of minute \<open>i\<close>: the reference clock then, the second read, whether its edge was measured.\<close>

type_synonym heard = "nat \<Rightarrow> nat \<Rightarrow> TimeFields \<times> MsfSec \<times> bool"

definition msf_feed :: "TimeFields \<times> MsfSec \<times> bool \<Rightarrow> MsfDecoder \<Rightarrow> MsfDecoder" where
  "msf_feed i d = (case i of (ref, r, m) \<Rightarrow> msf_handleSecond ref r m d)"

abbreviation sec_of :: "heard \<Rightarrow> nat \<Rightarrow> nat \<Rightarrow> MsfSec" where "sec_of h i j \<equiv> fst (snd (h i j))"

definition hear_minute :: "heard \<Rightarrow> nat \<Rightarrow> MsfDecoder \<Rightarrow> MsfDecoder" where
  "hear_minute h i d = fold (\<lambda>j. msf_feed (h i j)) [0..<60] d"

definition hear_minutes :: "heard \<Rightarrow> nat \<Rightarrow> MsfDecoder \<Rightarrow> MsfDecoder" where
  "hear_minutes h n d = fold (hear_minute h) [0..<n] d"

text \<open>The local minute named in the \<open>i\<close>th minute from \<open>t\<close>: the one that follows it.\<close>

definition local_minute :: "TimeFields \<Rightarrow> (nat \<Rightarrow> bool) \<Rightarrow> nat \<Rightarrow> int" where
  "local_minute t summer i = utc_of t div 60000 + int i + 1 + (if summer i then 60 else 0)"

definition clear_minute :: "TimeFields \<Rightarrow> (nat \<Rightarrow> bool) \<Rightarrow> (nat \<Rightarrow> bool) \<Rightarrow> heard \<Rightarrow> nat \<Rightarrow> bool" where
  "clear_minute t soon summer h i \<longleftrightarrow> msf_century (local_minute t summer i)
     \<and> list_all (\<lambda>j. clear_second (local_minute t summer i) (soon i) (summer i) j (sec_of h i j)) [1..<60]"

lemma filling_within:
  assumes "filling L soon summer start 1 d" "\<And>j. 1 \<le> j \<Longrightarrow> j < 60 \<Longrightarrow> clear_second L soon summer j (sec_of h i j)" "1 \<le> k" "k \<le> 59"
  shows "filling L soon summer start (int k) (fold (\<lambda>j. msf_feed (h i j)) [1..<k] d) \<and> msf_rest (fold (\<lambda>j. msf_feed (h i j)) [1..<k] d) = msf_rest d"
  using assms(3,4)
proof (induction k rule: nat_induct_at_least)
  case base
  then show ?case using assms(1) by simp
next
  case (Suc k)
  let ?d = "fold (\<lambda>j. msf_feed (h i j)) [1..<k] d"
  obtain ref r m where hr: "h i k = (ref, r, m)" by (metis surj_pair)
  have "clear_second L soon summer (nat (int k)) r" using assms(2)[of k] Suc by (simp add: hr)
  then have "filling L soon summer start (int k + 1) (msf_handleSecond ref r m ?d)" "msf_rest (msf_handleSecond ref r m ?d) = msf_rest ?d"
    using clear_second_within[of L soon summer start "int k" ?d r ref m] Suc by simp_all
  moreover have "msf_feed (h i k) = msf_handleSecond ref r m" by (simp add: fun_eq_iff msf_feed_def hr)
  ultimately show ?case using Suc by (simp add: add.commute)
qed

definition at_minute_start :: "MsfSec \<Rightarrow> MsfDecoder \<Rightarrow> bool" where
  "at_minute_start r d \<longleftrightarrow> (if md_anchored d then md_sofNext d = 0 else confMarker r kSyncConf)"

lemma minute_begins:
  assumes "at_minute_start r d"
  shows "filling L soon summer (ms_edge r) 1 (msf_handleSecond ref r m d)" "msf_rest (msf_handleSecond ref r m d) = msf_rest d"
proof -
  have "(if \<not> md_anchored d then msf_unanchored r d else msf_anchored_second ref r d) = (0, msf_startFrame r (d\<lparr>md_anchored := True\<rparr>))"
    using assms by (auto simp: at_minute_start_def msf_unanchored_def msf_anchored_second_def Let_def msf_startFrame_def split: if_splits)
  then show "filling L soon summer (ms_edge r) 1 (msf_handleSecond ref r m d)" "msf_rest (msf_handleSecond ref r m d) = msf_rest d"
    by (simp_all add: msf_handleSecond_def Let_def filling_def clear_frame_def msf_rest_def msf_startFrame_def)
qed

lemma minute_heard:
  assumes "at_minute_start (sec_of h i 0) d" "clear_minute t soon summer h i"
  obtains c where "5 / 100 \<le> c"
    "msf_rest (hear_minute h i d) = (voted_on (local_minute t summer i) (summer i) c (ms_edge (sec_of h i 0)) d, True, ms_edge (sec_of h i 0), 60, md_trk d, md_sr d)"
    "md_anchored (hear_minute h i d)" "md_sofNext (hear_minute h i d) = 0"
    "locked (fst (h i 59)) (voted_on (local_minute t summer i) (summer i) c (ms_edge (sec_of h i 0)) d) \<Longrightarrow>
       on_the_minute (voted_on (local_minute t summer i) (summer i) c (ms_edge (sec_of h i 0)) d) (hear_minute h i d)
       \<and> last (md_out (hear_minute h i d)) = OnTime (msf_time_info (sec_of h i 59) 59 (hear_minute h i d))"
proof -
  let ?L = "local_minute t summer i" and ?start = "ms_edge (sec_of h i 0)"
  obtain ref0 r0 m0 where h0: "h i 0 = (ref0, r0, m0)" by (metis surj_pair)
  obtain ref r m where h59: "h i 59 = (ref, r, m)" by (metis surj_pair)
  have clear: "clear_second ?L (soon i) (summer i) j (sec_of h i j)" if "1 \<le> j" "j < 60" for j
    using assms(2) that by (simp add: clear_minute_def list_all_iff)
  define d1 where "d1 = msf_feed (h i 0) d"
  define d2 where "d2 = fold (\<lambda>j. msf_feed (h i j)) [1..<59] d1"
  have d1: "filling ?L (soon i) (summer i) ?start 1 d1" "msf_rest d1 = msf_rest d"
    using minute_begins[of r0 d] assms(1) by (simp_all add: d1_def msf_feed_def h0)
  then have d2: "filling ?L (soon i) (summer i) ?start 59 d2" "msf_rest d2 = msf_rest d"
    using filling_within[where h = h and i = i and k = 59, OF d1(1) clear] by (simp_all add: d2_def)
  have "[0..<60] = 0 # [1..<59] @ [59]" by (simp add: upt_rec)
  then have run: "hear_minute h i d = msf_handleSecond ref r m d2" by (simp add: hear_minute_def d2_def d1_def msf_feed_def h59)
  have v: "voted_on ?L (summer i) c ?start d2 = voted_on ?L (summer i) c ?start d" for c
    using next_voter_cong[OF d2(2)] by (simp add: voted_on_def)
  have "md_trk d2 = md_trk d" "md_sr d2 = md_sr d" using d2(2) by (simp_all add: msf_rest_def)
  note same = this
  have "clear_second ?L (soon i) (summer i) 59 r" "msf_century ?L" using clear[of 59] assms(2) by (simp_all add: h59 clear_minute_def)
  then show thesis
    by (rule clear_second_last[OF d2(1), where ref = ref and m = m]) (auto simp: run[symmetric] v same h59 intro: that)
qed

text \<open>The voter after \<open>k\<close> clear minutes.\<close>

lemma msf_voter_is_station: "\<lparr>tv_cfg = msf_cfg True bound, tv_frames = []\<rparr> = setPlausibility True bound (mk_TimeFrameVoter dcf77_voterConfig)"
  by (simp add: msf_cfg_def setPlausibility_def mk_TimeFrameVoter_def msf_voterConfig_def dcf77_voterConfig_def)

lemma station_voter_Suc:
  "station_voter bound t c (Suc k) = addFrame (fr_symbols (minute_frame t c k)) (fr_confidence (minute_frame t c k)) (station_voter bound t c k)"
  by (simp add: station_voter_def feed_def)

lemma station_voter_cong: "(\<And>i. i < k \<Longrightarrow> c i = c' i) \<Longrightarrow> station_voter bound t c k = station_voter bound t c' k"
proof -
  assume "\<And>i. i < k \<Longrightarrow> c i = c' i"
  then have "map (minute_frame t c) [0..<k] = map (minute_frame t c') [0..<k]" by (auto simp: minute_frame_def)
  then show ?thesis by (simp only: station_voter_def)
qed

lemma minute_utc:
  assumes "rangeValid t" "utc_of t + int n * 60000 < utcMsFromFields 100 1 0 0" "i < n"
  shows "hostNowFields ((local_minute t summer i - (if summer i then 60 else 0) - 1) * 60000) = advanceMinutes t (int i)"
proof -
  have "utc_of t = utc_of t div 60000 * 60000" by (simp add: utc_of_def utcMsFromFields_def Let_def)
  then have "(local_minute t summer i - (if summer i then 60 else 0) - 1) * 60000 = utc_of t + int i * 60000" by (simp add: local_minute_def algebra_simps)
  moreover have "utc_of (advanceMinutes t (int i)) = utc_of t + int i * 60000" using assms by (intro advance_utc) simp_all
  ultimately show ?thesis using hostNowFields_utc_of[of "advanceMinutes t (int i)"] advance_valid[OF assms(1), of "int i"] by simp
qed

definition spaced :: "heard \<Rightarrow> nat \<Rightarrow> MsfDecoder \<Rightarrow> bool" where
  "spaced h n d \<longleftrightarrow> list_all (\<lambda>i. \<bar>of_int (ms_edge (sec_of h (Suc i) 0) - ms_edge (sec_of h i 0))
       - 60 * (if et_valid (md_trk d) then et_period (md_trk d) else of_int (md_sr d))\<bar> \<le> 25 / 100 * of_int (md_sr d)) [0..<n - 1]"

definition after_minutes :: "int \<Rightarrow> TimeFields \<Rightarrow> heard \<Rightarrow> (nat \<Rightarrow> FieldIndex \<Rightarrow> real) \<Rightarrow> nat \<Rightarrow> MsfDecoder \<Rightarrow> MsfDecoder \<Rightarrow> bool" where
  "after_minutes bound t h c k d e \<longleftrightarrow> md_anchored e \<and> md_sofNext e = 0
     \<and> msf_rest e = (station_voter bound t c k, True, ms_edge (sec_of h (k - 1) 0), 60, md_trk d, md_sr d)"

text \<open>One more minute.\<close>

lemma minute_added:
  assumes "rangeValid t" "utc_of t + int n * 60000 < utcMsFromFields 100 1 0 0" "k < n"
    "at_minute_start (sec_of h k 0) e" "clear_minute t soon summer h k" "md_trk e = md_trk d" "md_sr e = md_sr d"
    "next_voter (ms_edge (sec_of h k 0)) e = station_voter bound t c k"
  obtains m where "5 / 100 \<le> m" "after_minutes bound t h (c(k := \<lambda>_. m)) (Suc k) d (hear_minute h k e)"
    "locked (fst (h k 59)) (station_voter bound t (c(k := \<lambda>_. m)) (Suc k)) \<longrightarrow>
       on_the_minute (station_voter bound t (c(k := \<lambda>_. m)) (Suc k)) (hear_minute h k e)
       \<and> last (md_out (hear_minute h k e)) = OnTime (msf_time_info (sec_of h k 59) 59 (hear_minute h k e))"
proof -
  have v: "voted_on (local_minute t summer k) (summer k) m (ms_edge (sec_of h k 0)) e = station_voter bound t (c(k := \<lambda>_. m)) (Suc k)" for m
    unfolding voted_on_def minute_utc[OF assms(1-3)] assms(8) station_voter_Suc station_voter_cong[of k "c(k := \<lambda>_. m)" c, simplified]
    by (simp add: minute_frame_def Let_def)
  show thesis
    by (rule minute_heard[OF assms(4,5)]) (auto simp: v assms(6,7) after_minutes_def intro: that)
qed

lemma minutes_heard:
  assumes "rangeValid t" "utc_of t + int n * 60000 < utcMsFromFields 100 1 0 0" "at_minute_start (sec_of h 0 0) d" "\<not> md_haveLastFrame d"
    "tv_cfg (md_voter d) = msf_cfg True bound" "list_all (clear_minute t soon summer h) [0..<n]" "spaced h n d" "1 \<le> k" "k \<le> n"
  shows "\<exists>c. (\<forall>i fld. 5 / 100 \<le> c i fld) \<and> after_minutes bound t h c k d (hear_minutes h k d)
    \<and> (locked (fst (h (k - 1) 59)) (station_voter bound t c k) \<longrightarrow> on_the_minute (station_voter bound t c k) (hear_minutes h k d)
        \<and> last (md_out (hear_minutes h k d)) = OnTime (msf_time_info (sec_of h (k - 1) 59) 59 (hear_minutes h k d)))"
  using assms(8,9)
proof (induction k rule: nat_induct_at_least)
  case base
  let ?c = "\<lambda>_ _. 1 :: real"
  have "(md_voter d)\<lparr>tv_frames := []\<rparr> = \<lparr>tv_cfg = msf_cfg True bound, tv_frames = []\<rparr>" using assms(5) by (cases "md_voter d") simp
  then have nv: "next_voter (ms_edge (sec_of h 0 0)) d = station_voter bound t ?c 0"
    using assms(4) msf_voter_is_station[of bound] by (simp add: next_voter_def voter_reset_def station_voter_def feed_def)
  have cl: "clear_minute t soon summer h 0" "0 < n" using assms(6) base by (simp_all add: list_all_iff)
  have run: "hear_minutes h (Suc 0) d = hear_minute h 0 d" by (simp add: hear_minutes_def)
  obtain m where m: "5 / 100 \<le> m" "after_minutes bound t h (?c(0 := \<lambda>_. m)) (Suc 0) d (hear_minute h 0 d)"
    "locked (fst (h 0 59)) (station_voter bound t (?c(0 := \<lambda>_. m)) (Suc 0)) \<longrightarrow>
       on_the_minute (station_voter bound t (?c(0 := \<lambda>_. m)) (Suc 0)) (hear_minute h 0 d)
       \<and> last (md_out (hear_minute h 0 d)) = OnTime (msf_time_info (sec_of h 0 59) 59 (hear_minute h 0 d))"
    by (rule minute_added[where h = h and k = 0, OF assms(1,2) cl(2) assms(3) cl(1) refl refl nv])
  have all: "\<forall>i fld. 5 / 100 \<le> (?c(0 := \<lambda>_. m)) i fld" using m(1) by simp
  show ?case unfolding One_nat_def run diff_self_eq_0 using all m(2,3) by (intro exI[of _ "?c(0 := \<lambda>_. m)"] conjI)
next
  case (Suc k)
  then obtain c where c: "\<And>i fld. 5 / 100 \<le> c i fld" "after_minutes bound t h c k d (hear_minutes h k d)" by auto
  let ?e = "hear_minutes h k d"
  have e: "md_anchored ?e" "md_sofNext ?e = 0" "md_voter ?e = station_voter bound t c k" "md_haveLastFrame ?e" "md_lastFrameLen ?e = 60"
    "md_lastFrameStart ?e = ms_edge (sec_of h (k - 1) 0)" "md_trk ?e = md_trk d" "md_sr ?e = md_sr d"
    using c(2) by (simp_all add: after_minutes_def msf_rest_def)
  have "k - 1 < n - 1" "Suc (k - 1) = k" using Suc by auto
  then have "\<bar>of_int (ms_edge (sec_of h k 0) - ms_edge (sec_of h (k - 1) 0))
       - 60 * (if et_valid (md_trk d) then et_period (md_trk d) else of_int (md_sr d))\<bar> \<le> 25 / 100 * (of_int (md_sr d) :: real)"
    using assms(7) unfolding spaced_def list_all_iff by (metis atLeastLessThan_iff atLeast_upt lessThan_iff zero_le)
  then have nv: "next_voter (ms_edge (sec_of h k 0)) ?e = station_voter bound t c k" by (simp only: next_voter_def e) simp
  have cl: "clear_minute t soon summer h k" "k < n" using assms(6) Suc by (simp_all add: list_all_iff)
  have st: "at_minute_start (sec_of h k 0) ?e" using e(1,2) by (simp add: at_minute_start_def)
  have run: "hear_minutes h (Suc k) d = hear_minute h k ?e" by (simp add: hear_minutes_def)
  obtain m where m: "5 / 100 \<le> m" "after_minutes bound t h (c(k := \<lambda>_. m)) (Suc k) d (hear_minute h k ?e)"
    "locked (fst (h k 59)) (station_voter bound t (c(k := \<lambda>_. m)) (Suc k)) \<longrightarrow>
       on_the_minute (station_voter bound t (c(k := \<lambda>_. m)) (Suc k)) (hear_minute h k ?e)
       \<and> last (md_out (hear_minute h k ?e)) = OnTime (msf_time_info (sec_of h k 59) 59 (hear_minute h k ?e))"
    by (rule minute_added[where h = h and k = k, OF assms(1,2) cl(2) st cl(1) e(7,8) nv])
  have all: "\<forall>i fld. 5 / 100 \<le> (c(k := \<lambda>_. m)) i fld" using m(1) c(1) by simp
  show ?case unfolding run diff_Suc_1 using all m(2,3) by (intro exI[of _ "c(k := \<lambda>_. m)"] conjI)
qed

text \<open>
  C4: Clear minutes lock the MSF decoder on the right time. Let it hear minutes in a row from the UTC
  minute \<open>t\<close>, a minute apart on the tracker's period, every second but the markers read with the bits
  the station sends in it, and the first minute begun at a marker. From the second minute on, at its
  last second, the decoder is locked, the time it holds is the minute it has just heard, which began
  at the edge recorded as the frame's start, and that time is what it has just given out, for this
  second, the 59th. The clocks may go forward or back, and the year may end, on the way. The
  reference clock of the daemon has only to lie within the plausibility bound.
\<close>

theorem msf_minutes_lock:
  assumes "rangeValid t" "2 \<le> n" "utc_of t + int n * 60000 < utcMsFromFields 100 1 0 0" "at_minute_start (sec_of h 0 0) d"
    "\<not> md_haveLastFrame d" "tv_cfg (md_voter d) = msf_cfg True bound" "list_all (clear_minute t soon summer h) [0..<n]" "spaced h n d"
    "fields_in_range (fst (h (n - 1) 59))" "\<bar>utc_of t + (int n - 1) * 60000 - utc_of (fst (h (n - 1) 59))\<bar> \<le> bound * 60000"
  defines "e \<equiv> hear_minutes h n d" and "T \<equiv> advanceMinutes t (int n - 1)"
  shows "md_lockState e = LsLocked \<and> md_lastFrameStart e = ms_edge (sec_of h (n - 1) 0)
    \<and> (\<exists>ti. last (md_out e) = OnTime ti \<and> \<lparr>tf_minute = ti_minute ti, tf_hour = ti_hour ti, tf_doy = ti_doy ti, tf_year2 = ti_year2 ti\<rparr> = T
         \<and> ti_lastEdgeSecondOfFrame ti = 59 \<and> ti_lastEdgeSample ti = ms_edge (sec_of h (n - 1) 59))"
proof -
  have "1 \<le> n" using assms(2) by simp
  from minutes_heard[OF assms(1,3,4,5,6,7,8) this order_refl] obtain c where c: "\<And>i fld. 5 / 100 \<le> c i fld" "after_minutes bound t h c n d e"
    "locked (fst (h (n - 1) 59)) (station_voter bound t c n) \<Longrightarrow> on_the_minute (station_voter bound t c n) e
       \<and> last (md_out e) = OnTime (msf_time_info (sec_of h (n - 1) 59) 59 e)" unfolding e_def by blast
  have "0 \<le> c i fld" for i fld using c(1)[of i fld] by simp
  from station_locks[OF assms(1-3) this c(1) assms(9,10)] have lk: "locked (fst (h (n - 1) 59)) (station_voter bound t c n)"
    and T: "votedTimestamp (station_voter bound t c n) = T" unfolding T_def by simp_all
  have "tv_frames (station_voter bound t c n) \<noteq> []" using assms(2) by (simp add: station_voter_parts)
  then have "votedField (station_voter bound t c n) fld = tf_get T fld" for fld using T by (simp add: votedField_def)
  then show ?thesis using c(3)[OF lk] c(2) by (simp add: on_the_minute_def msf_time_info_def after_minutes_def msf_rest_def)
qed

text \<open>Seconds as they are sent, all read clearly.\<close>

definition sent_second :: "int \<Rightarrow> bool \<Rightarrow> bool \<Rightarrow> nat \<Rightarrow> int \<Rightarrow> MsfSec" where
  "sent_second L soon summer j e = \<lparr>ms_edge = e, ms_edgeExact = None, ms_read = True, ms_marker = (j = 0), ms_markConf = 1,
     ms_a = (if 17 \<le> j \<and> j \<le> 51 then msf_A_bits L ! (j - 17) else if 52 \<le> j then kIdentifier ! (j - 52) else 0),
     ms_b = (if 53 \<le> j \<and> j \<le> 58 then msf_B_bits L soon summer ! (j - 53) else 0), ms_aConf = 1, ms_bConf = 1, ms_cut = True\<rparr>"

lemma sent_clear: "1 \<le> j \<Longrightarrow> clear_second L soon summer j (sent_second L soon summer j e)"
  by (simp add: clear_second_def sent_second_def confMarker_def)

text \<open>Three minutes over the end of 2024, to a new decoder, the reference clock six minutes fast.\<close>

definition new_years_eve :: TimeFields where
  "new_years_eve = \<lparr>tf_minute = 58, tf_hour = 23, tf_doy = 366, tf_year2 = 24\<rparr>"

definition new_year_heard :: heard where
  "new_year_heard i j = (\<lparr>tf_minute = 6, tf_hour = 0, tf_doy = 1, tf_year2 = 25\<rparr>,
     sent_second (local_minute new_years_eve (\<lambda>_. False) i) False False j (12000 * (60 * int i + int j)), True)"

definition new_msf :: MsfDecoder where
  "new_msf = msf_setPlausibility True 10 (mk_MsfDecoder 12000)"

lemma new_msf_parts:
  "md_anchored new_msf = False" "md_haveLastFrame new_msf = False" "tv_cfg (md_voter new_msf) = msf_cfg True 10" "md_trk new_msf = et_reset mk_EdgeTracker"
  "md_sr new_msf = 12000"
  by (simp_all add: new_msf_def mk_MsfDecoder_def Let_def msf_setPlausibility_def msf_reset_def msf_dropAnchor_def msf_cfg_def setPlausibility_def)

theorem msf_minutes_lock_witness:
  "md_lockState (hear_minutes new_year_heard 3 new_msf) = LsLocked
   \<and> md_lastFrameStart (hear_minutes new_year_heard 3 new_msf) = ms_edge (sec_of new_year_heard (3 - 1) 0)
   \<and> (\<exists>ti. last (md_out (hear_minutes new_year_heard 3 new_msf)) = OnTime ti
       \<and> \<lparr>tf_minute = ti_minute ti, tf_hour = ti_hour ti, tf_doy = ti_doy ti, tf_year2 = ti_year2 ti\<rparr> = advanceMinutes new_years_eve (int 3 - 1)
       \<and> ti_lastEdgeSecondOfFrame ti = 59 \<and> ti_lastEdgeSample ti = ms_edge (sec_of new_year_heard (3 - 1) 59))"
proof (rule msf_minutes_lock)
  show "rangeValid new_years_eve" "utc_of new_years_eve + int 3 * 60000 < utcMsFromFields 100 1 0 0" by code_simp+
  show "at_minute_start (sec_of new_year_heard 0 0) new_msf"
    by (simp add: at_minute_start_def new_msf_parts new_year_heard_def sent_second_def confMarker_def kSyncConf_def)
  have "utc_of new_years_eve div 60000 = 28928158" by code_simp
  then show "list_all (clear_minute new_years_eve (\<lambda>_. False) (\<lambda>_. False) new_year_heard) [0..<3]"
    by (simp add: list_all_iff clear_minute_def new_year_heard_def sent_clear msf_century_def local_minute_def)
  show "spaced new_year_heard 3 new_msf"
    by (simp add: spaced_def list_all_iff new_msf_parts et_reset_def mk_EdgeTracker_def new_year_heard_def sent_second_def)
  show "fields_in_range (fst (new_year_heard (3 - 1) 59))" by (simp add: new_year_heard_def fields_in_range_def)
  have "utc_of new_years_eve + (int 3 - 1) * 60000 = 1735689600000" "utc_of \<lparr>tf_minute = 6, tf_hour = 0, tf_doy = 1, tf_year2 = 25\<rparr> = 1735689960000"
    by code_simp+
  then show "\<bar>utc_of new_years_eve + (int 3 - 1) * 60000 - utc_of (fst (new_year_heard (3 - 1) 59))\<bar> \<le> 10 * 60000" by (simp add: new_year_heard_def)
qed (simp_all add: new_msf_parts)

end
