(* ===== verification/Eu_Code.thy ===== *)
theory Eu_Code
  imports Msf_Properties
begin

text \<open>
  The time code DCF77 and Allouis share, as \<^verbatim>\<open>src/src/clock/Dcf77Decoder.cpp\<close> and \<^verbatim>\<open>AllouisDecoder.cpp\<close>
  decode it, each with checks of its own around it, and as the DCF77 decoder predicts it for the
  minute to come. A minute's bits are a function from the second to the bit. Then: what is predicted
  for a minute is what decodes to it, a misread bit is refused, and the summer time the prediction
  goes by is the one in force.
\<close>

unbundle bit_operations_syntax

section \<open>Decoding\<close>

record EuDecoded =
  eu_minute :: int
  eu_hour :: int
  eu_day :: int
  eu_month :: int
  eu_year2 :: int
  eu_cest :: bool
  eu_leapWarn :: bool
  eu_utc :: TimeFields
  eu_utcMs :: int

definition xor_parity :: "(int \<Rightarrow> int) \<Rightarrow> int \<Rightarrow> int \<Rightarrow> int" where
  "xor_parity b a z = fold (\<lambda>s p. p XOR b s) [a..z] 0"

text \<open>The fields, their ranges, the date and the weekday, and the UTC of the minute's second 0.\<close>

definition eu_time :: "(int \<Rightarrow> int) \<Rightarrow> bool \<Rightarrow> EuDecoded option" where
  "eu_time b leapWarn =
     (let minU = b 21 + 2 * b 22 + 4 * b 23 + 8 * b 24; minT = b 25 + 2 * b 26 + 4 * b 27;
          hrU = b 29 + 2 * b 30 + 4 * b 31 + 8 * b 32; hrT = b 33 + 2 * b 34;
          dayU = b 36 + 2 * b 37 + 4 * b 38 + 8 * b 39; dayT = b 40 + 2 * b 41;
          wday = b 42 + 2 * b 43 + 4 * b 44;
          monU = b 45 + 2 * b 46 + 4 * b 47 + 8 * b 48; monT = b 49;
          yrU = b 50 + 2 * b 51 + 4 * b 52 + 8 * b 53; yrT = b 54 + 2 * b 55 + 4 * b 56 + 8 * b 57
      in if 9 < minU \<or> 9 < hrU \<or> 9 < dayU \<or> 9 < monU \<or> 9 < yrU \<or> 9 < yrT then None
         else
           let minute = minT * 10 + minU; hour = hrT * 10 + hrU; day = dayT * 10 + dayU; month = monT * 10 + monU; year2 = yrT * 10 + yrU
           in if 59 < minute \<or> 23 < hour \<or> month < 1 \<or> 12 < month \<or> day < 1 \<or> wday < 1 then None
              else
                let days = daysFromCivil (2000 + year2) month day; (cy, cm, cd) = civilFromDays days
                in if cm \<noteq> month \<or> cd \<noteq> day then None
                   else if floorMod (days + 3) 7 + 1 \<noteq> wday then None
                   else
                     let cest = (b 17 = 1);
                         nextLocalMin = days * 1440 + hour * 60 + minute;
                         s0UtcMin = nextLocalMin - (if cest then 120 else 60) - 1
                     in Some \<lparr>eu_minute = minute, eu_hour = hour, eu_day = day, eu_month = month, eu_year2 = year2, eu_cest = cest,
                              eu_leapWarn = leapWarn, eu_utc = hostNowFields (s0UtcMin * 60000), eu_utcMs = s0UtcMin * 60000\<rparr>)"

definition dcf77_decodeBits :: "(int \<Rightarrow> int) \<Rightarrow> EuDecoded option" where
  "dcf77_decodeBits b =
     (if b 20 \<noteq> 1 then None
      else if b 17 = b 18 then None
      else if xor_parity b 21 28 \<noteq> 0 \<or> xor_parity b 29 35 \<noteq> 0 \<or> xor_parity b 36 58 \<noteq> 0 then None
      else eu_time b (b 19 = 1))"

definition allouis_decodeBits :: "(int \<Rightarrow> int) \<Rightarrow> EuDecoded option" where
  "allouis_decodeBits b =
     (if b 0 \<noteq> 0 \<or> b 20 \<noteq> 1 then None
      else if b 17 = b 18 then None
      else if xor_parity b 21 28 \<noteq> 0 \<or> xor_parity b 29 35 \<noteq> 0 \<or> xor_parity b 36 58 \<noteq> 0 then None
      else if sum_list (map b [21..58]) \<noteq> 2 * b 3 + 4 * b 4 + 8 * b 5 + 16 * b 6 then None
      else eu_time b (b 1 = 1 \<or> b 2 = 1))"

section \<open>Predicting the next minute\<close>

definition pmFixedBit :: "int \<Rightarrow> int" where
  "pmFixedBit sof = (if sof = 59 then 0 else if 0 \<le> sof \<and> sof \<le> 9 then 1 else if 10 \<le> sof \<and> sof \<le> 14 then 0 else -1)"

definition lastSunday :: "int \<Rightarrow> int \<Rightarrow> int" where
  "lastSunday y mon =
     (let day = daysFromCivil y mon 31
      in (day - floorMod (floorMod (day + 3) 7 - 6) 7) * 86400 + 3600)"

definition cestAt :: "int \<Rightarrow> bool" where
  "cestAt unixSec =
     (let (y, m, d) = civilFromDays (floorDiv unixSec 86400)
      in lastSunday y 3 \<le> unixSec \<and> unixSec < lastSunday y 10)"

definition put_bits :: "int \<Rightarrow> int \<Rightarrow> int \<Rightarrow> (int \<Rightarrow> int) \<Rightarrow> (int \<Rightarrow> int)" where
  "put_bits s n v b = (\<lambda>k. if s \<le> k \<and> k < s + n then drop_bit (nat (k - s)) v AND 1 else b k)"

definition bcd_byte :: "int \<Rightarrow> int" where
  "bcd_byte v = push_bit 4 (v sdiv 10) OR (v smod 10)"

definition par_bits :: "int \<Rightarrow> int \<Rightarrow> (int \<Rightarrow> int) \<Rightarrow> int" where
  "par_bits a z b = fold (\<lambda>s p. p XOR b s) [a..z - 1] 0"

text \<open>The bits written, in the order of the code.\<close>

definition write_code :: "bool \<Rightarrow> int \<Rightarrow> int \<Rightarrow> int \<Rightarrow> int \<Rightarrow> int \<Rightarrow> int \<Rightarrow> int \<Rightarrow> int" where
  "write_code cest minute hour d wday mo y2 =
     (let b = (\<lambda>s. if 0 \<le> s \<and> s < 60 then pmFixedBit s else -1);
          b = b(17 := if cest then 1 else 0);
          b = b(18 := if cest then 0 else 1);
          b = b(20 := 1);
          b = put_bits 21 7 (bcd_byte minute) b;
          b = b(28 := par_bits 21 28 b);
          b = put_bits 29 6 (bcd_byte hour) b;
          b = b(35 := par_bits 29 35 b);
          b = put_bits 36 6 (bcd_byte d) b;
          b = put_bits 42 3 wday b;
          b = put_bits 45 5 (bcd_byte mo) b;
          b = put_bits 50 8 (bcd_byte y2) b
      in b(58 := par_bits 36 58 b))"

definition predictTimeCode :: "int \<Rightarrow> int \<Rightarrow> int" where
  "predictTimeCode utcS0Ms =
     (let next' = floorDiv utcS0Ms 1000 + 60;
          cest = cestAt next';
          local = next' + (if cest then 7200 else 3600);
          days = floorDiv local 86400;
          rem' = floorMod local 86400;
          (y, mo, d) = civilFromDays days
      in write_code cest (rem' sdiv 60 smod 60) (rem' sdiv 3600) d (floorMod (days + 3) 7 + 1) mo (y smod 100))"

section \<open>Misread bits\<close>

definition eu_groups :: "int list list" where
  "eu_groups = [[21..28], [29..35], [36..58]]"

lemma xor_parity_even: "xor_parity b a z = 0 \<Longrightarrow> sum_list (map b [a..z]) mod 2 = 0"
  using xor_fold_mod_2[of b "[a..z]" 0] by (simp add: xor_parity_def)

lemma eu_groups_checked:
  assumes "xor_parity b 21 28 = 0" "xor_parity b 29 35 = 0" "xor_parity b 36 58 = 0" "g \<in> set eu_groups"
  shows "sum_list (map b g) mod 2 = 0"
proof -
  have "g = [21..28] \<or> g = [29..35] \<or> g = [36..58]" using assms(4) unfolding eu_groups_def by (simp only: list.set) blast
  then show ?thesis using assms(1-3)[THEN xor_parity_even] by blast
qed

lemma eu_groups_distinct: "g \<in> set eu_groups \<Longrightarrow> distinct g"
  unfolding eu_groups_def by (simp only: list.set) auto

interpretation dcf77: parity_code dcf77_decodeBits eu_groups 0
proof
  show "sum_list (map b g) mod 2 = 0" if "dcf77_decodeBits b = Some x" "g \<in> set eu_groups" for b x g
    using that(1) by (intro eu_groups_checked[OF _ _ _ that(2)]) (simp_all add: dcf77_decodeBits_def split: if_splits)
qed (rule eu_groups_distinct)

interpretation allouis: parity_code allouis_decodeBits eu_groups 0
proof
  show "sum_list (map b g) mod 2 = 0" if "allouis_decodeBits b = Some x" "g \<in> set eu_groups" for b x g
    using that(1) by (intro eu_groups_checked[OF _ _ _ that(2)]) (simp_all add: allouis_decodeBits_def split: if_splits)
qed (rule eu_groups_distinct)

section \<open>What is predicted is what decodes\<close>

definition bit_at :: "int \<Rightarrow> int \<Rightarrow> int" where
  "bit_at v k = drop_bit (nat k) v AND 1"

lemma bcd_byte_bits:
  assumes "0 \<le> v" "v \<le> 99"
  shows "bit_at (bcd_byte v) 0 + 2 * bit_at (bcd_byte v) 1 + 4 * bit_at (bcd_byte v) 2 + 8 * bit_at (bcd_byte v) 3 = v mod 10"
    "bit_at (bcd_byte v) 4 + 2 * bit_at (bcd_byte v) 5 + 4 * bit_at (bcd_byte v) 6 + 8 * bit_at (bcd_byte v) 7 = v div 10"
    "v \<le> 79 \<Longrightarrow> bit_at (bcd_byte v) 7 = 0" "v \<le> 39 \<Longrightarrow> bit_at (bcd_byte v) 6 = 0" "v \<le> 19 \<Longrightarrow> bit_at (bcd_byte v) 5 = 0"
proof -
  have "list_all (\<lambda>v. bit_at (bcd_byte v) 0 + 2 * bit_at (bcd_byte v) 1 + 4 * bit_at (bcd_byte v) 2 + 8 * bit_at (bcd_byte v) 3 = v mod 10
     \<and> bit_at (bcd_byte v) 4 + 2 * bit_at (bcd_byte v) 5 + 4 * bit_at (bcd_byte v) 6 + 8 * bit_at (bcd_byte v) 7 = v div 10
     \<and> (79 < v \<or> bit_at (bcd_byte v) 7 = 0) \<and> (39 < v \<or> bit_at (bcd_byte v) 6 = 0) \<and> (19 < v \<or> bit_at (bcd_byte v) 5 = 0)) [0..99]"
    by code_simp
  moreover have "v \<in> set [0..99]" using assms unfolding set_upto atLeastAtMost_iff by simp
  ultimately have all: "bit_at (bcd_byte v) 0 + 2 * bit_at (bcd_byte v) 1 + 4 * bit_at (bcd_byte v) 2 + 8 * bit_at (bcd_byte v) 3 = v mod 10
     \<and> bit_at (bcd_byte v) 4 + 2 * bit_at (bcd_byte v) 5 + 4 * bit_at (bcd_byte v) 6 + 8 * bit_at (bcd_byte v) 7 = v div 10
     \<and> (79 < v \<or> bit_at (bcd_byte v) 7 = 0) \<and> (39 < v \<or> bit_at (bcd_byte v) 6 = 0) \<and> (19 < v \<or> bit_at (bcd_byte v) 5 = 0)"
    unfolding list_all_iff by blast
  show "bit_at (bcd_byte v) 0 + 2 * bit_at (bcd_byte v) 1 + 4 * bit_at (bcd_byte v) 2 + 8 * bit_at (bcd_byte v) 3 = v mod 10"
    "bit_at (bcd_byte v) 4 + 2 * bit_at (bcd_byte v) 5 + 4 * bit_at (bcd_byte v) 6 + 8 * bit_at (bcd_byte v) 7 = v div 10"
    "v \<le> 79 \<Longrightarrow> bit_at (bcd_byte v) 7 = 0" "v \<le> 39 \<Longrightarrow> bit_at (bcd_byte v) 6 = 0" "v \<le> 19 \<Longrightarrow> bit_at (bcd_byte v) 5 = 0"
    using all by auto
qed

lemma weekday_bits:
  assumes "1 \<le> w" "w \<le> 7"
  shows "bit_at w 0 + 2 * bit_at w 1 + 4 * bit_at w 2 = w"
proof -
  have "list_all (\<lambda>w. bit_at w 0 + 2 * bit_at w 1 + 4 * bit_at w 2 = w) [1..7]" by code_simp
  moreover have "w \<in> set [1..7]" using assms unfolding set_upto atLeastAtMost_iff by simp
  ultimately show ?thesis unfolding list_all_iff by blast
qed

text \<open>The predicted bits, field by field.\<close>

lemma put_bits_at: "s \<le> k \<Longrightarrow> k < s + n \<Longrightarrow> put_bits s n v b k = bit_at v (k - s)" "k < s \<or> s + n \<le> k \<Longrightarrow> put_bits s n v b k = b k"
  by (auto simp: put_bits_def bit_at_def)

lemma write_code_zone:
  "write_code cest mi h d w mo y 17 = (if cest then 1 else 0)" "write_code cest mi h d w mo y 18 = (if cest then 0 else 1)"
  "write_code cest mi h d w mo y 20 = 1"
  by (simp_all add: write_code_def Let_def put_bits_at)

lemma write_code_fields:
  "21 \<le> k \<Longrightarrow> k < 28 \<Longrightarrow> write_code cest mi h d w mo y k = bit_at (bcd_byte mi) (k - 21)"
  "29 \<le> k \<Longrightarrow> k < 35 \<Longrightarrow> write_code cest mi h d w mo y k = bit_at (bcd_byte h) (k - 29)"
  "36 \<le> k \<Longrightarrow> k < 42 \<Longrightarrow> write_code cest mi h d w mo y k = bit_at (bcd_byte d) (k - 36)"
  "42 \<le> k \<Longrightarrow> k < 45 \<Longrightarrow> write_code cest mi h d w mo y k = bit_at w (k - 42)"
  "45 \<le> k \<Longrightarrow> k < 50 \<Longrightarrow> write_code cest mi h d w mo y k = bit_at (bcd_byte mo) (k - 45)"
  "50 \<le> k \<Longrightarrow> k < 58 \<Longrightarrow> write_code cest mi h d w mo y k = bit_at (bcd_byte y) (k - 50)"
  by (simp_all add: write_code_def Let_def put_bits_at)

text \<open>A parity bit over bits that are not written again closes its group.\<close>

lemma xor_parity_closed:
  assumes "a \<le> z" "\<And>k. a \<le> k \<Longrightarrow> k < z \<Longrightarrow> b' k = b k" "b' z = par_bits a z b"
  shows "xor_parity b' a z = 0"
proof -
  have "[a..z] = [a..z - 1] @ [z]" using assms(1) by (simp add: upto_rec2)
  moreover have "fold (\<lambda>s p. p XOR b' s) [a..z - 1] p = fold (\<lambda>s p. p XOR b s) [a..z - 1] p" for p
    using assms(2) by (intro fold_cong) auto
  ultimately show ?thesis using assms(3) by (simp add: xor_parity_def par_bits_def)
qed

lemma write_code_parity:
  "xor_parity (write_code cest mi h d w mo y) 21 28 = 0" "xor_parity (write_code cest mi h d w mo y) 29 35 = 0"
  "xor_parity (write_code cest mi h d w mo y) 36 58 = 0"
proof -
  show "xor_parity (write_code cest mi h d w mo y) 21 28 = 0"
    unfolding write_code_def Let_def by (rule xor_parity_closed) (simp_all add: put_bits_at)
  show "xor_parity (write_code cest mi h d w mo y) 29 35 = 0"
    unfolding write_code_def Let_def by (rule xor_parity_closed) (simp_all add: put_bits_at)
  show "xor_parity (write_code cest mi h d w mo y) 36 58 = 0"
    unfolding write_code_def Let_def by (rule xor_parity_closed) (simp_all add: put_bits_at)
qed

lemma eu_time_of:
  assumes "b 21 + 2 * b 22 + 4 * b 23 + 8 * b 24 = mi mod 10" "b 25 + 2 * b 26 + 4 * b 27 = mi div 10"
    "b 29 + 2 * b 30 + 4 * b 31 + 8 * b 32 = h mod 10" "b 33 + 2 * b 34 = h div 10"
    "b 36 + 2 * b 37 + 4 * b 38 + 8 * b 39 = d mod 10" "b 40 + 2 * b 41 = d div 10" "b 42 + 2 * b 43 + 4 * b 44 = (D + 3) mod 7 + 1"
    "b 45 + 2 * b 46 + 4 * b 47 + 8 * b 48 = mo mod 10" "b 49 = mo div 10"
    "b 50 + 2 * b 51 + 4 * b 52 + 8 * b 53 = y mod 10" "b 54 + 2 * b 55 + 4 * b 56 + 8 * b 57 = y div 10"
    "civilFromDays D = (2000 + y, mo, d)" "daysFromCivil (2000 + y) mo d = D" "y \<le> 99" "1 \<le> mo" "mo \<le> 12" "1 \<le> d" "h \<le> 23" "mi \<le> 59"
  shows "eu_time b lw = Some \<lparr>eu_minute = mi, eu_hour = h, eu_day = d, eu_month = mo, eu_year2 = y, eu_cest = (b 17 = 1), eu_leapWarn = lw,
     eu_utc = hostNowFields ((D * 1440 + h * 60 + mi - (if b 17 = 1 then 120 else 60) - 1) * 60000),
     eu_utcMs = (D * 1440 + h * 60 + mi - (if b 17 = 1 then 120 else 60) - 1) * 60000\<rparr>"
proof -
  have nine: "v mod 10 \<le> 9" for v :: int using pos_mod_bound[of 10 v] by simp
  have "y div 10 \<le> 9" using assms(14) zdiv_mono1[of y 99 10] by simp
  moreover have "1 \<le> (D + 3) mod 7 + 1" by simp
  moreover have "v div 10 * 10 + v mod 10 = v" for v :: int by simp
  ultimately show ?thesis unfolding eu_time_def assms(1-11) Let_def using nine assms(12-19) by (simp add: floorMod_eq_mod not_less)
qed

lemma write_code_time:
  assumes "civilFromDays D = (2000 + y, mo, d)" "daysFromCivil (2000 + y) mo d = D" "0 \<le> y" "y \<le> 99" "1 \<le> mo" "mo \<le> 12" "1 \<le> d" "d \<le> 31"
    "0 \<le> h" "h \<le> 23" "0 \<le> mi" "mi \<le> 59" "\<And>k. 17 \<le> k \<Longrightarrow> k \<noteq> 19 \<Longrightarrow> b k = write_code cest mi h d ((D + 3) mod 7 + 1) mo y k"
  shows "eu_time b lw = Some \<lparr>eu_minute = mi, eu_hour = h, eu_day = d, eu_month = mo, eu_year2 = y, eu_cest = (b 17 = 1), eu_leapWarn = lw,
     eu_utc = hostNowFields ((D * 1440 + h * 60 + mi - (if b 17 = 1 then 120 else 60) - 1) * 60000),
     eu_utcMs = (D * 1440 + h * 60 + mi - (if b 17 = 1 then 120 else 60) - 1) * 60000\<rparr>"
proof (rule eu_time_of[OF _ _ _ _ _ _ _ _ _ _ _ assms(1,2,4-7,10,12)])
  note b = assms(13)
  note v = bcd_byte_bits
  show "b 21 + 2 * b 22 + 4 * b 23 + 8 * b 24 = mi mod 10" "b 25 + 2 * b 26 + 4 * b 27 = mi div 10"
    using v(1-3)[of mi] assms(11,12) by (simp_all add: b write_code_fields)
  show "b 29 + 2 * b 30 + 4 * b 31 + 8 * b 32 = h mod 10" "b 33 + 2 * b 34 = h div 10"
    using v(1-4)[of h] assms(9,10) by (simp_all add: b write_code_fields)
  show "b 36 + 2 * b 37 + 4 * b 38 + 8 * b 39 = d mod 10" "b 40 + 2 * b 41 = d div 10"
    using v(1-4)[of d] assms(7,8) by (simp_all add: b write_code_fields)
  show "b 42 + 2 * b 43 + 4 * b 44 = (D + 3) mod 7 + 1"
    using weekday_bits[of "(D + 3) mod 7 + 1"] pos_mod_bound[of 7 "D + 3"] by (simp add: b write_code_fields)
  show "b 45 + 2 * b 46 + 4 * b 47 + 8 * b 48 = mo mod 10" "b 49 = mo div 10"
    using v(1-5)[of mo] assms(5,6) by (simp_all add: b write_code_fields)
  show "b 50 + 2 * b 51 + 4 * b 52 + 8 * b 53 = y mod 10" "b 54 + 2 * b 55 + 4 * b 56 + 8 * b 57 = y div 10"
    using v(1,2)[of y] assms(3,4) by (simp_all add: b write_code_fields)
qed

text \<open>The code predicted for the minute that begins at \<open>u\<close> minutes, written out over its local minute.\<close>

definition eu_local :: "int \<Rightarrow> int" where
  "eu_local u = u + 1 + (if cestAt (u * 60 + 60) then 120 else 60)"

lemma predictTimeCode_local:
  assumes "civilFromDays (eu_local u div 1440) = (2000 + y, mo, d)" "0 \<le> y" "y \<le> 99"
  shows "predictTimeCode (u * 60000) = write_code (cestAt (u * 60 + 60)) (eu_local u mod 60) (eu_local u mod 1440 div 60) d
     ((eu_local u div 1440 + 3) mod 7 + 1) mo y"
proof -
  let ?L = "eu_local u" and ?local = "u * 60 + 60 + (if cestAt (u * 60 + 60) then 7200 else 3600)"
  have l: "?local = ?L * 60" by (simp add: eu_local_def)
  have n: "floorDiv (u * 60000) 1000 + 60 = u * 60 + 60" by (simp add: floorDiv_eq_div)
  have days: "floorDiv ?local 86400 = ?L div 1440" unfolding l by (simp add: floorDiv_eq_div zdiv_zmult2_eq)
  have rem: "floorMod ?local 86400 = ?L mod 1440 * 60" unfolding l using mult_mod_right[of 60 ?L 1440] by (simp add: floorMod_eq_mod mult.commute)
  have nn: "0 \<le> ?L mod 1440" by simp
  have min: "?L mod 1440 * 60 sdiv 60 smod 60 = ?L mod 60" using nn by (simp add: sdiv_nonneg smod_nonneg mod_mod_cancel)
  have "?L mod 1440 * 60 div 3600 = ?L mod 1440 div 60" by (simp add: zdiv_zmult2_eq[of 60 "_" 60, simplified])
  then have hr: "?L mod 1440 * 60 sdiv 3600 = ?L mod 1440 div 60" using nn by (simp add: sdiv_nonneg)
  have "(y + 20 * 100) mod 100 = y" using assms(2,3) unfolding mod_mult_self1 by simp
  then have y: "(2000 + y) smod 100 = y" using assms(2) by (simp add: smod_nonneg add.commute)
  show ?thesis unfolding predictTimeCode_def Let_def n days rem assms(1) prod.case min hr y by (simp add: floorMod_eq_mod)
qed

lemma dcf77_decodeBits_passes:
  assumes "b 20 = 1" "b 17 \<noteq> b 18" "xor_parity b 21 28 = 0" "xor_parity b 29 35 = 0" "xor_parity b 36 58 = 0"
  shows "dcf77_decodeBits b = eu_time b (b 19 = 1)"
  using assms by (simp add: dcf77_decodeBits_def)

lemma prediction_decodes:
  assumes "msf_century (eu_local u)"
  shows "\<exists>x. dcf77_decodeBits ((predictTimeCode (u * 60000))(19 := l)) = Some x \<and> eu_utcMs x = u * 60000 \<and> eu_utc x = hostNowFields (u * 60000)
    \<and> eu_cest x = cestAt (u * 60 + 60) \<and> eu_leapWarn x = (l = 1)"
proof -
  let ?L = "eu_local u"
  have "10957 \<le> ?L div 1440" "?L div 1440 < 47482"
    using assms zdiv_mono1[of "10957 * 1440" ?L 1440] by (auto simp: msf_century_def div_less_iff_less_mult)
  then obtain y mo d where c: "civilFromDays (?L div 1440) = (2000 + y, mo, d)" "0 \<le> y" "y \<le> 99" "civil_date (2000 + y) mo d"
    "daysFromCivil (2000 + y) mo d = ?L div 1440" by (rule century_date)
  have md: "1 \<le> mo" "mo \<le> 12" "1 \<le> d" "d \<le> 31" using c(4) month_length_le[of "2000 + y" mo] by (auto simp: civil_date_def split: if_splits)
  have t: "0 \<le> ?L mod 1440 div 60" "?L mod 1440 div 60 \<le> 23" "0 \<le> ?L mod 60" "?L mod 60 \<le> 59"
    using pos_mod_bound[of 1440 ?L] pos_mod_bound[of 60 ?L]
    by (simp_all add: div_less_iff_less_mult zle_diff1_eq[symmetric] pos_imp_zdiv_nonneg_iff del: pos_mod_bound)
  have "?L mod 1440 mod 60 = ?L mod 60" by (simp add: mod_mod_cancel)
  then have u: "?L div 1440 * 1440 + ?L mod 1440 div 60 * 60 + ?L mod 60 = ?L"
    using mult_div_mod_eq[of 60 "?L mod 1440"] mult_div_mod_eq[of 1440 ?L] by linarith
  let ?b = "(predictTimeCode (u * 60000))(19 := l)"
  have b: "?b k = write_code (cestAt (u * 60 + 60)) (?L mod 60) (?L mod 1440 div 60) d ((?L div 1440 + 3) mod 7 + 1) mo y k" if "17 \<le> k" "k \<noteq> 19" for k
    using that by (simp add: predictTimeCode_local[OF c(1-3)])
  have par: "19 < a \<Longrightarrow> xor_parity ?b a z = xor_parity (write_code (cestAt (u * 60 + 60)) (?L mod 60) (?L mod 1440 div 60) d ((?L div 1440 + 3) mod 7 + 1) mo y) a z" for a z
    unfolding xor_parity_def using b by (intro fold_cong) auto
  note zone = predictTimeCode_local[OF c(1-3)] write_code_zone
  have cest: "(?b 17 = 1) = cestAt (u * 60 + 60)" by (simp add: zone)
  have pass: "?b 20 = 1" "?b 17 \<noteq> ?b 18" by (simp_all add: zone)
  have gr: "xor_parity ?b 21 28 = 0" "xor_parity ?b 29 35 = 0" "xor_parity ?b 36 58 = 0" by (simp_all add: par write_code_parity del: fun_upd_apply)
  note tm = write_code_time[where b = ?b and lw = "?b 19 = 1", OF c(1,5,2,3) md t(1,2,3,4) b]
  have "?L - (if cestAt (u * 60 + 60) then 120 else 60) - 1 = u" by (simp add: eu_local_def)
  then show ?thesis
    using tm unfolding dcf77_decodeBits_passes[OF pass gr] u cest by simp
qed

text \<open>
  C16: What the DCF77 decoder predicts for a minute is what it reads from it. For every minute of the
  century, the bits predicted for it, with either value of the leap second warning, which is not
  predicted, decode to that very minute in UTC, with the summer time in force when it ends.
\<close>

theorem predicted_minute_decodes:
  assumes "msf_century (eu_local u)"
  shows "\<exists>x. dcf77_decodeBits ((predictTimeCode (u * 60000))(19 := l)) = Some x \<and> eu_utcMs x = u * 60000 \<and> eu_utc x = hostNowFields (u * 60000)
    \<and> eu_cest x = cestAt (u * 60 + 60) \<and> eu_leapWarn x = (l = 1)"
  using assms by (rule prediction_decodes)

text \<open>The last minute of winter time in 2026, 00:59 UTC on 29 March.\<close>

theorem predicted_minute_decodes_witness:
  "\<exists>x. dcf77_decodeBits ((predictTimeCode (29579099 * 60000))(19 := 0)) = Some x \<and> eu_utcMs x = 29579099 * 60000
    \<and> eu_utc x = hostNowFields (29579099 * 60000) \<and> eu_cest x = cestAt (29579099 * 60 + 60) \<and> eu_leapWarn x = (0 = (1::int))"
  by (rule predicted_minute_decodes) (simp add: msf_century_def eu_local_def)

section \<open>Summer time\<close>

text \<open>The day \<open>D\<close> is the last Sunday of its month.\<close>

definition last_sunday_of :: "int \<Rightarrow> int \<Rightarrow> int \<Rightarrow> bool" where
  "last_sunday_of y m D \<longleftrightarrow> (D + 4) mod 7 = 0 \<and> fst (civilFromDays D) = y \<and> fst (snd (civilFromDays D)) = m \<and> fst (snd (civilFromDays (D + 7))) \<noteq> m"

lemma lastSunday_spec:
  assumes "m = 3 \<or> m = 10" "int_year y"
  obtains D where "lastSunday y m = D * 86400 + 3600" "last_sunday_of y m D"
proof -
  define k where "k = ((daysFromCivil y m 31 + 3) mod 7 - 6) mod 7"
  define D where "D = daysFromCivil y m 31 - k"
  have k: "0 \<le> k" "k \<le> 6" using pos_mod_bound[of 7 "(daysFromCivil y m 31 + 3) mod 7 - 6"] by (simp_all add: k_def del: pos_mod_bound)
  have len: "month_length y m = 31" using assms(1) by (auto simp: month_length_def)
  have lin: "daysFromCivil y m (31 - j) = daysFromCivil y m 31 - j" if "0 \<le> j" "j \<le> 6" for j
    using daysFromCivil_day0[of m 31 y] daysFromCivil_day0[of m "31 - j" y] that assms(1) by auto
  have "civil_date y m (31 - k)" using k assms(1) len by (auto simp: civil_date_def)
  then have here: "civilFromDays D = (y, m, 31 - k)" using civil_roundtrip[OF _ assms(2), of m "31 - k"] lin[OF k] by (simp add: D_def)
  have "daysFromCivil y (m + 1) 1 = daysFromCivil y m 31 + 1"
    using daysFromCivil_next(1)[of y m 31] len assms(1) by (auto simp: civil_date_def next_date_def)
  then have "daysFromCivil y (m + 1) (7 - k) = D + 7"
    using daysFromCivil_day0[of "m + 1" 1 y] daysFromCivil_day0[of "m + 1" "7 - k" y] k assms(1) by (auto simp: D_def)
  moreover have "civil_date y (m + 1) (7 - k)" using k assms(1) by (auto simp: civil_date_def month_length_def)
  ultimately have after: "civilFromDays (D + 7) = (y, m + 1, 7 - k)" using civil_roundtrip[OF _ assms(2)] by metis
  have "(x - ((x + 3) mod 7 - 6) mod 7 + 4) mod 7 = 0" for x :: int by presburger
  then have "(D + 4) mod 7 = 0" by (simp add: D_def k_def)
  then have "last_sunday_of y m D" using here after by (simp add: last_sunday_of_def)
  moreover have "lastSunday y m = D * 86400 + 3600" by (simp add: lastSunday_def Let_def floorMod_eq_mod D_def k_def)
  ultimately show thesis using that by blast
qed

text \<open>
  Summer time is the one in force. The zone the prediction goes by is summer time exactly from
  01:00 UTC on the last Sunday of March to 01:00 UTC on the last Sunday of October of its year.
\<close>

theorem summer_time_in_force:
  assumes "day_range (t div 86400)" "civilFromDays (t div 86400) = (y, mo, d)"
  shows "\<exists>M O'. last_sunday_of y 3 M \<and> last_sunday_of y 10 O' \<and> (cestAt t \<longleftrightarrow> M * 86400 + 3600 \<le> t \<and> t < O' * 86400 + 3600)"
proof -
  obtain y' m' d' where "civilFromDays (t div 86400) = (y', m', d')" "\<bar>y'\<bar> \<le> 2100000000" by (rule civilFromDays_decompose[OF assms(1)])
  then have iy: "int_year y" using assms(2) int_year_small(1) by simp
  obtain M where m: "lastSunday y 3 = M * 86400 + 3600" "last_sunday_of y 3 M" by (rule lastSunday_spec[of 3, OF _ iy]) auto
  obtain O' where o: "lastSunday y 10 = O' * 86400 + 3600" "last_sunday_of y 10 O'" by (rule lastSunday_spec[of 10, OF _ iy]) auto
  have "cestAt t \<longleftrightarrow> M * 86400 + 3600 \<le> t \<and> t < O' * 86400 + 3600"
    by (simp add: cestAt_def floorDiv_eq_div assms(2) m(1) o(1))
  with m(2) o(2) show ?thesis by blast
qed

theorem summer_time_in_force_witness:
  "\<exists>M O'. last_sunday_of 2026 3 M \<and> last_sunday_of 2026 10 O' \<and> (cestAt 1774746000 \<longleftrightarrow> M * 86400 + 3600 \<le> 1774746000 \<and> 1774746000 < O' * 86400 + 3600)"
proof (rule summer_time_in_force)
  show "day_range (1774746000 div 86400)" "civilFromDays (1774746000 div 86400) = (2026, 3, 29)" by code_simp+
qed

section \<open>One bit misread\<close>



end
