(* ===== verification/Dcf77_Decoder.thy ===== *)
theory Dcf77_Decoder
  imports Eu_Code Clock_Events
begin

text \<open>
  The DCF77 decoder above its two demodulators, \<^verbatim>\<open>src/src/clock/Dcf77Decoder.cpp\<close>: the seconds each
  reads, the count of seconds through the minute, the minute's structure, its time code read twice,
  the code predicted for the next minute, and the lock. What the demodulators and the trackers give
  for a second is the argument of \<open>dcf_second\<close>. The callbacks made are logged in the state, oldest
  first. The correlators, the trackers and the searches for the burst are not modelled.
\<close>

section \<open>Constants\<close>

definition dcf_kStructConf :: real where "dcf_kStructConf = 50 / 100"
definition kPmStructConf :: real where "kPmStructConf = 50 / 100"
definition dcf_kSyncConf :: real where "dcf_kSyncConf = 60 / 100"
definition kPmSyncConf :: real where "kPmSyncConf = 25 / 100"
definition kPmBitMinConf :: real where "kPmBitMinConf = 10 / 100"
definition kAmBitMinConf :: real where "kAmBitMinConf = 5 / 100"
definition dcf_kMaxBlindSeconds :: int where "dcf_kMaxBlindSeconds = 90"
definition dcf_kMaxUnconfirmedMinutes :: int where "dcf_kMaxUnconfirmedMinutes = 2"
definition kMaxStructFaults :: int where "kMaxStructFaults = 2"

section \<open>State\<close>

record DcfSec =
  ds_edge :: int
  ds_edgeExact :: "real option"
  ds_am :: ClockSymbol
  ds_amConf :: real
  ds_pmSign :: int
  ds_pmConf :: real

definition default_DcfSec :: DcfSec where
  "default_DcfSec = \<lparr>ds_edge = 0, ds_edgeExact = None, ds_am = Unknown, ds_amConf = 0, ds_pmSign = 0, ds_pmConf = 0\<rparr>"

record DcfDecoder =
  dc_sr :: int
  dc_voter :: TimeFrameVoter
  dc_lockState :: ClockLockState
  dc_polarity :: int
  dc_polarityKnown :: bool
  dc_segValid :: bool
  dc_scanPos :: int
  dc_blindSeconds :: int
  dc_hist :: "DcfSec list"
  dc_anchored :: bool
  dc_sofNext :: int
  dc_frame :: "DcfSec list"
  dc_frFilled :: int
  dc_frStart :: int
  dc_leapMinute :: bool
  dc_leapInserted :: bool
  dc_haveLastFrame :: bool
  dc_lastFrameStart :: int
  dc_lastLeapWarn :: bool
  dc_lastFrameFrom :: int
  dc_prevFrameFrom :: int
  dc_unconfirmedRun :: int
  dc_structFaults :: int
  dc_codeKnown :: bool
  dc_codeS0UtcMs :: int
  dc_codeBits :: "int \<Rightarrow> int"
  dc_haveVoted :: bool
  dc_votedMinute :: int
  dc_votedHour :: int
  dc_votedDoy :: int
  dc_votedYear :: int
  dc_votedQuality :: real
  dc_out :: "ClockEvent list"

text \<open>What surrounds a second: the reference clock, whether there is keying, the second's length, who times it.\<close>

record DcfEnv =
  env_ref :: TimeFields
  env_contrast :: bool
  env_period :: real
  env_timingFromPm :: bool

definition dcf_emit :: "ClockEvent \<Rightarrow> DcfDecoder \<Rightarrow> DcfDecoder" where
  "dcf_emit ev d = d\<lparr>dc_out := dc_out d @ [ev]\<rparr>"

definition dcf_setLockState :: "ClockLockState \<Rightarrow> DcfDecoder \<Rightarrow> DcfDecoder" where
  "dcf_setLockState st d =
     (if st \<noteq> dc_lockState d then dcf_emit (StateChanged st) (d\<lparr>dc_lockState := st\<rparr>) else d)"

definition dcf_blank :: "DcfSec list" where
  "dcf_blank = replicate 60 default_DcfSec"

definition dcf_dropAnchor :: "DcfDecoder \<Rightarrow> DcfDecoder" where
  "dcf_dropAnchor d = d\<lparr>dc_anchored := False, dc_sofNext := 0, dc_leapMinute := False, dc_leapInserted := False,
     dc_lastLeapWarn := False, dc_haveVoted := False, dc_haveLastFrame := False, dc_voter := voter_reset (dc_voter d),
     dc_frame := dcf_blank, dc_frFilled := 0, dc_unconfirmedRun := 0, dc_structFaults := 0, dc_codeKnown := False\<rparr>"

definition dcf_demote :: "DcfDecoder \<Rightarrow> DcfDecoder" where
  "dcf_demote d =
     (let d = d\<lparr>dc_haveVoted := False\<rparr>
      in if dc_lockState d = LsLocked then dcf_setLockState LsAcquiring d else d)"

section \<open>Finding the minute\<close>

definition pmBitOf :: "int \<Rightarrow> DcfSec \<Rightarrow> int" where
  "pmBitOf polarity r = (if 0 < ds_pmSign r * polarity then 0 else 1)"

text \<open>The lambda \<^verbatim>\<open>matches\<close>: the sixteen seconds with their numbers, and the sum of their confidences.\<close>

fun pm_matches :: "int \<Rightarrow> (DcfSec \<times> int) list \<Rightarrow> real \<Rightarrow> bool" where
  "pm_matches pol [] acc = (16 * kPmSyncConf \<le> acc)"
| "pm_matches pol ((h, sof) # rest) acc =
     (if ds_pmSign h = 0 \<or> ds_pmConf h < kPmBitMinConf then False
      else if pmBitOf pol h \<noteq> pmFixedBit sof then False
      else pm_matches pol rest (acc + ds_pmConf h))"

definition pmSyncHere :: "DcfDecoder \<Rightarrow> bool \<times> DcfDecoder" where
  "pmSyncHere d =
     (if length (dc_hist d) < 16 then (False, d)
      else
        let word = drop (length (dc_hist d) - 16) (dc_hist d);
            numbered = zip word (59 # [0..14]);
            s59 = hd word
        in if dcf_kSyncConf \<le> ds_amConf s59 \<and> ds_am s59 \<noteq> Marker then (False, d)
           else if dc_polarityKnown d then (pm_matches (dc_polarity d) numbered 0, d)
           else if pm_matches 1 numbered 0 then (True, d\<lparr>dc_polarity := 1, dc_polarityKnown := True\<rparr>)
           else if pm_matches (-1) numbered 0 then (True, d\<lparr>dc_polarity := -1, dc_polarityKnown := True\<rparr>)
           else (False, d))"

definition amMarkerHere :: "bool \<Rightarrow> DcfDecoder \<Rightarrow> bool" where
  "amMarkerHere haveContrast d =
     (if length (dc_hist d) < 2 \<or> \<not> haveContrast then False
      else let cur = last (dc_hist d); prev = dc_hist d ! (length (dc_hist d) - 2)
           in ds_am cur = Marker \<and> dcf_kSyncConf \<le> ds_amConf cur \<and> ds_am prev \<noteq> Marker \<and> dcf_kSyncConf \<le> ds_amConf prev)"

definition checkStructure :: "bool \<Rightarrow> DcfSec \<Rightarrow> int \<Rightarrow> DcfDecoder \<Rightarrow> DcfDecoder" where
  "checkStructure haveContrast r sof d =
     (let d = (if sof = 0 then d\<lparr>dc_structFaults := 0\<rparr> else d);
          expectMark = (sof = 59 \<and> \<not> dc_leapMinute d \<or> sof = 60);
          d = (if haveContrast \<and> dcf_kStructConf \<le> ds_amConf r \<and> (ds_am r = Marker) \<noteq> expectMark
               then d\<lparr>dc_structFaults := dc_structFaults d + 1\<rparr> else d);
          fixed = pmFixedBit sof;
          d = (if dc_polarityKnown d \<and> 0 \<le> fixed \<and> ds_pmSign r \<noteq> 0 \<and> kPmStructConf \<le> ds_pmConf r \<and> pmBitOf (dc_polarity d) r \<noteq> fixed
               then d\<lparr>dc_structFaults := dc_structFaults d + 1\<rparr> else d)
      in if kMaxStructFaults \<le> dc_structFaults d then dcf_demote d else d)"

section \<open>The time code\<close>

datatype DcfSrc = SrcAm | SrcPm

definition dcf_bitOf :: "DcfSec \<Rightarrow> DcfSrc \<Rightarrow> DcfDecoder \<Rightarrow> (int \<times> real) option" where
  "dcf_bitOf r src d =
     (if src = SrcPm
      then if ds_pmSign r = 0 \<or> \<not> dc_polarityKnown d \<or> ds_pmConf r < kPmBitMinConf then None
           else Some (pmBitOf (dc_polarity d) r, ds_pmConf r)
      else if ds_am r \<noteq> Zero \<and> ds_am r \<noteq> One then None
      else if ds_amConf r < kAmBitMinConf then None
      else Some (if ds_am r = One then 1 else 0, ds_amConf r))"

definition dcf_decode :: "DcfSrc \<Rightarrow> DcfDecoder \<Rightarrow> EuDecoded option" where
  "dcf_decode src d =
     (if list_all (\<lambda>s. dcf_bitOf (dc_frame d ! nat s) src d \<noteq> None) [15..58]
      then dcf77_decodeBits (\<lambda>s. if 15 \<le> s \<and> s \<le> 58
             then (case dcf_bitOf (dc_frame d ! nat s) src d of Some (v, c) \<Rightarrow> v | None \<Rightarrow> 0) else 0)
      else None)"

definition leapSecondPossible :: "TimeFields \<Rightarrow> bool" where
  "leapSecondPossible f =
     (if tf_minute f \<noteq> 59 \<or> tf_hour f \<noteq> 23 then False
      else isLastDayOfMonth (utcMsFromFields (tf_year2 f) (tf_doy f) (tf_hour f) (tf_minute f)))"

definition tentativeLeapMinute :: "DcfDecoder \<Rightarrow> bool" where
  "tentativeLeapMinute d =
     (let x = dcf_decode SrcPm d; x = (if x = None then dcf_decode SrcAm d else x)
      in case x of None \<Rightarrow> False | Some x \<Rightarrow> eu_leapWarn x \<and> leapSecondPossible (eu_utc x))"

definition sameMinute :: "EuDecoded \<Rightarrow> EuDecoded \<Rightarrow> bool" where
  "sameMinute a b \<longleftrightarrow> eu_utcMs a = eu_utcMs b \<and> eu_leapWarn a = eu_leapWarn b"

text \<open>Which way round the PM reads, from the fixed word.\<close>

definition polarity_fits :: "int \<Rightarrow> DcfDecoder \<Rightarrow> bool" where
  "polarity_fits pol d =
     (let read = filter (\<lambda>s. 0 \<le> pmFixedBit s \<and> ds_pmSign (dc_frame d ! nat s) \<noteq> 0 \<and> kPmSyncConf \<le> ds_pmConf (dc_frame d ! nat s)) [0..59];
          hits = filter (\<lambda>s. pmBitOf pol (dc_frame d ! nat s) = pmFixedBit s) read
      in 14 \<le> length hits \<and> length hits = length read)"

definition learnPolarity :: "DcfDecoder \<Rightarrow> DcfDecoder" where
  "learnPolarity d =
     (if dc_polarityKnown d then d
      else if polarity_fits 1 d then d\<lparr>dc_polarity := 1, dc_polarityKnown := True\<rparr>
      else if polarity_fits (-1) d then d\<lparr>dc_polarity := -1, dc_polarityKnown := True\<rparr>
      else d)"

section \<open>The end of a minute\<close>

text \<open>The fixed word as PM read it, right and clearly wrong, and AM's marks where none belong.\<close>

definition pmMatch :: "DcfDecoder \<Rightarrow> nat" where
  "pmMatch d = length (filter (\<lambda>s. let r = dc_frame d ! nat s
     in dc_polarityKnown d \<and> 0 \<le> pmFixedBit s \<and> ds_pmSign r \<noteq> 0 \<and> pmBitOf (dc_polarity d) r = pmFixedBit s \<and> kPmSyncConf \<le> ds_pmConf r) [0..59])"

definition pmMismatch :: "DcfDecoder \<Rightarrow> nat" where
  "pmMismatch d = length (filter (\<lambda>s. let r = dc_frame d ! nat s
     in dc_polarityKnown d \<and> 0 \<le> pmFixedBit s \<and> ds_pmSign r \<noteq> 0 \<and> pmBitOf (dc_polarity d) r \<noteq> pmFixedBit s \<and> kPmStructConf \<le> ds_pmConf r) [0..59])"

definition amStrayMarks :: "DcfDecoder \<Rightarrow> nat" where
  "amStrayMarks d = length (filter (\<lambda>s. dcf_kStructConf \<le> ds_amConf (dc_frame d ! nat s) \<and> ds_am (dc_frame d ! nat s) = Marker) [0..58])"

definition s59Expect :: "DcfDecoder \<Rightarrow> ClockSymbol" where
  "s59Expect d = (if dc_leapMinute d then Zero else Marker)"

definition s59Read :: "DcfDecoder \<Rightarrow> bool" where
  "s59Read d \<longleftrightarrow> dcf_kStructConf \<le> ds_amConf (dc_frame d ! 59) \<and> ds_am (dc_frame d ! 59) \<noteq> Unknown"

definition amStrong :: "DcfDecoder \<Rightarrow> bool" where
  "amStrong d \<longleftrightarrow> s59Read d \<and> ds_am (dc_frame d ! 59) = s59Expect d"

definition pmStrong :: "DcfDecoder \<Rightarrow> bool" where
  "pmStrong d \<longleftrightarrow> 12 \<le> pmMatch d \<and> pmMismatch d = 0"

definition dcf_contradicted :: "DcfDecoder \<Rightarrow> bool" where
  "dcf_contradicted d =
     (let s59Wrong = (s59Read d \<and> (ds_am (dc_frame d ! 59) = Marker) \<noteq> (s59Expect d = Marker));
          amContra = (s59Wrong \<or> \<not> amStrong d \<and> 0 < amStrayMarks d);
          pmContra = (0 < pmMismatch d)
      in amContra \<and> \<not> pmStrong d \<or> pmContra \<and> \<not> amStrong d)"

definition dcf_confirmed :: "DcfDecoder \<Rightarrow> bool" where
  "dcf_confirmed d \<longleftrightarrow> 60 \<le> dc_frFilled d \<and> (amStrong d \<or> pmStrong d) \<and> \<not> dcf_contradicted d"

text \<open>Which decode is used, whether both agreed, and where the frame came from.\<close>

definition dcf_use :: "EuDecoded option \<Rightarrow> EuDecoded option \<Rightarrow> (EuDecoded \<times> DcfSrc) option \<times> bool \<times> int" where
  "dcf_use pm am =
     (case pm of
        Some p \<Rightarrow> (case am of
            Some a \<Rightarrow> if sameMinute p a then (Some (p, SrcPm), True, 3) else (None, False, 4)
          | None \<Rightarrow> (Some (p, SrcPm), False, 2))
      | None \<Rightarrow> (case am of Some a \<Rightarrow> (Some (a, SrcAm), False, 1) | None \<Rightarrow> (None, False, 0)))"

definition dcf_conf :: "DcfSrc \<Rightarrow> int \<Rightarrow> DcfDecoder \<Rightarrow> real" where
  "dcf_conf src s d = (case dcf_bitOf (dc_frame d ! nat s) src d of Some (v, c) \<Rightarrow> c | None \<Rightarrow> 0)"

definition groupConf :: "bool \<Rightarrow> DcfSrc \<Rightarrow> int \<Rightarrow> int \<Rightarrow> DcfDecoder \<Rightarrow> real" where
  "groupConf both src a z d =
     fold (\<lambda>s c. min c (if both then max (dcf_conf SrcPm s d) (dcf_conf SrcAm s d) else dcf_conf src s d)) [a..z] 1"

definition field_confs :: "bool \<Rightarrow> DcfSrc \<Rightarrow> DcfDecoder \<Rightarrow> FieldIndex \<Rightarrow> real" where
  "field_confs both src d =
     (let cMin = groupConf both src 21 28 d; cHour = groupConf both src 29 35 d; cDate = groupConf both src 36 58 d; cZone = groupConf both src 17 18 d;
          cUtcHour = min (min cMin cHour) cZone; cUtcDate = min (min (min cMin cHour) cZone) cDate
      in (\<lambda>f. case f of FieldMinutes \<Rightarrow> cMin | FieldHours \<Rightarrow> cUtcHour | FieldDoy \<Rightarrow> cUtcDate | FieldYear \<Rightarrow> cUtcDate))"

definition dcf_frame_info :: "DcfDecoder \<Rightarrow> (EuDecoded \<times> (FieldIndex \<Rightarrow> real)) option \<Rightarrow> ClockFrameInfo" where
  "dcf_frame_info d dec =
     (let fi = default_ClockFrameInfo\<lparr>fi_frameStartSample := dc_frStart d, fi_station := StDcf77\<rparr>
      in case dec of None \<Rightarrow> fi
         | Some (x, c) \<Rightarrow>
             fi\<lparr>fi_minute := tf_minute (eu_utc x), fi_hour := tf_hour (eu_utc x), fi_doy := tf_doy (eu_utc x), fi_year2 := tf_year2 (eu_utc x),
                fi_leapPending := eu_leapWarn x, fi_dst1 := eu_cest x, fi_dst2 := eu_cest x, fi_frameConfidence := c FieldDoy\<rparr>)"

text \<open>What the next minute will carry, from this one or, when it was not read, from the last that was.\<close>

definition dcf_predict :: "EuDecoded option \<Rightarrow> DcfDecoder \<Rightarrow> DcfDecoder" where
  "dcf_predict dec d =
     (if dec \<noteq> None \<or> dc_codeKnown d
      then let ms = (case dec of Some x \<Rightarrow> eu_utcMs x + 60000 | None \<Rightarrow> dc_codeS0UtcMs d + 60000)
           in d\<lparr>dc_codeS0UtcMs := ms, dc_codeKnown := True, dc_codeBits := predictTimeCode ms\<rparr>
      else d)"

definition dcf_vote :: "DcfEnv \<Rightarrow> bool \<Rightarrow> (EuDecoded \<times> (FieldIndex \<Rightarrow> real)) option \<Rightarrow> DcfDecoder \<Rightarrow> DcfDecoder" where
  "dcf_vote env confirmed dec d0 =
     (let frame = synthetic_frame (map_option (\<lambda>(x, c). (eu_utc x, c)) dec);
          d = dcf_emit (OnFrame (dcf_frame_info d0 dec)) d0;
          gap = (if dc_leapInserted d then 61 else 60) * env_period env;
          consecutive = (dc_haveLastFrame d \<and> \<bar>of_int (dc_frStart d - dc_lastFrameStart d) - gap\<bar> \<le> 25 / 100 * of_int (dc_sr d));
          voter = addFrame (fr_symbols frame) (fr_confidence frame) (if \<not> consecutive then voter_reset (dc_voter d) else dc_voter d);
          d = d\<lparr>dc_leapInserted := False, dc_haveLastFrame := True, dc_lastFrameStart := dc_frStart d, dc_voter := voter\<rparr>;
          certified = locked (env_ref env) voter;
          d = (if certified
               then d\<lparr>dc_votedMinute := votedField voter FieldMinutes, dc_votedHour := votedField voter FieldHours,
                      dc_votedDoy := votedField voter FieldDoy, dc_votedYear := votedField voter FieldYear,
                      dc_votedQuality := lockConfidence voter\<rparr>
               else d);
          leapNext = (dc_leapMinute d
             \<or> (case dec of Some (x, c) \<Rightarrow> (eu_leapWarn x \<or> dc_lastLeapWarn d) \<and> leapSecondPossible (eu_utc x) | None \<Rightarrow> False));
          d = d\<lparr>dc_lastLeapWarn := (case dec of Some (x, c) \<Rightarrow> eu_leapWarn x | None \<Rightarrow> False)\<rparr>
      in if certified \<and> confirmed \<and> \<not> leapNext then dcf_setLockState LsLocked (d\<lparr>dc_haveVoted := True\<rparr>) else dcf_demote d)"

definition dcf_finalizeFrame :: "DcfEnv \<Rightarrow> DcfDecoder \<Rightarrow> DcfDecoder" where
  "dcf_finalizeFrame env d =
     (let d = learnPolarity d;
          contradicted = dcf_contradicted d;
          confirmed = dcf_confirmed d;
          d = (if \<not> contradicted \<and> 60 \<le> dc_frFilled d \<and> \<not> confirmed then d\<lparr>dc_unconfirmedRun := dc_unconfirmedRun d + 1\<rparr> else d)
      in if contradicted \<or> dc_frFilled d < 60 \<or> \<not> confirmed \<and> dcf_kMaxUnconfirmedMinutes < dc_unconfirmedRun d
         then dcf_demote (dcf_dropAnchor d)
         else
           let d = (if confirmed then d\<lparr>dc_unconfirmedRun := 0\<rparr> else d);
               (used, both, from_where) = dcf_use (if confirmed then dcf_decode SrcPm d else None) (if confirmed then dcf_decode SrcAm d else None);
               d = d\<lparr>dc_prevFrameFrom := dc_lastFrameFrom d, dc_lastFrameFrom := from_where\<rparr>;
               d = dcf_predict (map_option fst used) d
           in dcf_vote env confirmed (map_option (\<lambda>(x, src). (x, field_confs both src d)) used) d)"

section \<open>One second\<close>

definition dcf_second_info :: "DcfEnv \<Rightarrow> DcfSec \<Rightarrow> bool \<Rightarrow> int \<Rightarrow> ClockSecondInfo" where
  "dcf_second_info env r measured sof =
     \<lparr>si_edgeSample = ds_edge r, si_edgeSampleExact = ds_edgeExact r, si_edgeMeasured = measured, si_edgeServable = env_timingFromPm env,
      si_symbol = ds_am r, si_confidence = ds_amConf r, si_secondOfFrame = sof\<rparr>"

definition dcf_time_info :: "DcfSec \<Rightarrow> int \<Rightarrow> DcfDecoder \<Rightarrow> ClockTimeInfo" where
  "dcf_time_info r sof d =
     \<lparr>ti_minute = dc_votedMinute d, ti_hour = dc_votedHour d, ti_doy = dc_votedDoy d, ti_year2 = dc_votedYear d,
      ti_quality = dc_votedQuality d, ti_lastEdgeSample = ds_edge r, ti_lastEdgeSampleExact = ds_edgeExact r,
      ti_lastEdgeSecondOfFrame = sof, ti_station = StDcf77\<rparr>"

text \<open>The number of the second and whether it is recorded; without an anchor, and with one.\<close>

definition dcf_unanchored :: "DcfEnv \<Rightarrow> DcfDecoder \<Rightarrow> int \<times> bool \<times> DcfDecoder" where
  "dcf_unanchored env d =
     (let (sync, d) = pmSyncHere d
      in if sync then
           let s0 = length (dc_hist d) - 15
           in (14, True, d\<lparr>dc_anchored := True, dc_sofNext := 15, dc_frStart := ds_edge (dc_hist d ! s0), dc_frFilled := 14,
                 dc_frame := take 14 (drop s0 (dc_hist d)) @ drop 14 (dc_frame d)\<rparr>)
         else if amMarkerHere (env_contrast env) d then (59, False, d\<lparr>dc_anchored := True, dc_sofNext := 0\<rparr>)
         else (-1, False, d))"

definition dcf_anchored_second :: "DcfEnv \<Rightarrow> DcfSec \<Rightarrow> DcfDecoder \<Rightarrow> int \<times> bool \<times> DcfDecoder" where
  "dcf_anchored_second env r d =
     (let sof = dc_sofNext d;
          d = (if sof = 0 then d\<lparr>dc_frStart := ds_edge r, dc_frFilled := 0\<rparr> else d);
          d = (if dc_lockState d = LsLocked then checkStructure (env_contrast env) r sof d else d)
      in if sof = 60 then (sof, False, d\<lparr>dc_leapInserted := True, dc_sofNext := 0\<rparr>)
         else (sof, True, d\<lparr>dc_sofNext := sof + 1\<rparr>))"

definition dcf_record :: "DcfEnv \<Rightarrow> DcfSec \<Rightarrow> int \<Rightarrow> DcfDecoder \<Rightarrow> DcfDecoder" where
  "dcf_record env r sof d =
     (let d = d\<lparr>dc_frame := (dc_frame d)[nat sof := r], dc_frFilled := dc_frFilled d + 1\<rparr>;
          d = (if sof = 58 then d\<lparr>dc_leapMinute := tentativeLeapMinute d\<rparr> else d)
      in if sof = 59
         then let d = dcf_finalizeFrame env d
              in if dc_anchored d then d\<lparr>dc_sofNext := (if dc_leapMinute d then 60 else 0)\<rparr> else d
         else d)"

definition dcf_handleSecond :: "DcfEnv \<Rightarrow> DcfSec \<Rightarrow> bool \<Rightarrow> DcfDecoder \<Rightarrow> DcfDecoder" where
  "dcf_handleSecond env r measured d =
     (let (sof, recorded, d) = (if \<not> dc_anchored d then dcf_unanchored env d else dcf_anchored_second env r d);
          d = dcf_emit (OnSecond (dcf_second_info env r measured sof)) d;
          d = (if recorded then dcf_record env r sof d else d)
      in if dc_lockState d = LsLocked \<and> dc_haveVoted d then dcf_emit (OnTime (dcf_time_info r sof d)) d else d)"

text \<open>The part of \<^verbatim>\<open>processSecond\<close> after the second has been read; \<open>heard\<close>: AM or PM measured its edge.\<close>

definition dcf_second :: "DcfEnv \<Rightarrow> DcfSec \<Rightarrow> bool \<Rightarrow> bool \<Rightarrow> DcfDecoder \<Rightarrow> DcfDecoder" where
  "dcf_second env r measured heard d =
     (let d = d\<lparr>dc_blindSeconds := (if heard then 0 else dc_blindSeconds d + 1)\<rparr>;
          hist = dc_hist d @ [r];
          d = d\<lparr>dc_hist := (if 64 < length hist then tl hist else hist)\<rparr>;
          d = dcf_handleSecond env r measured d
      in if dcf_kMaxBlindSeconds \<le> dc_blindSeconds d
         then let d = (if dc_lockState d = LsLocked then dcf_setLockState LsAcquiring d else d)
              in (dcf_dropAnchor (d\<lparr>dc_segValid := False, dc_scanPos := 0, dc_blindSeconds := 0\<rparr>))\<lparr>dc_hist := []\<rparr>
         else d)"

text \<open>The PM bit a second should carry, when it can be known.\<close>

definition predictedPmBit :: "int \<Rightarrow> DcfDecoder \<Rightarrow> int" where
  "predictedPmBit sof d =
     (if sof < 0 \<or> 59 < sof then -1
      else if 0 \<le> pmFixedBit sof then pmFixedBit sof
      else if dc_codeKnown d then dc_codeBits d sof else -1)"

section \<open>The decoder's life\<close>

definition dcf_reset :: "DcfDecoder \<Rightarrow> DcfDecoder" where
  "dcf_reset d =
     dcf_setLockState LsNoSignal
       ((dcf_dropAnchor (d\<lparr>dc_segValid := False, dc_scanPos := 0, dc_blindSeconds := 0, dc_polarity := 1, dc_polarityKnown := False, dc_hist := []\<rparr>))
        \<lparr>dc_haveLastFrame := False, dc_lastFrameStart := 0, dc_lastFrameFrom := 0, dc_prevFrameFrom := 0\<rparr>)"

definition mk_Dcf77Decoder :: "int \<Rightarrow> DcfDecoder" where
  "mk_Dcf77Decoder sampleRateHz =
     dcf_reset \<lparr>dc_sr = (if 0 < sampleRateHz then sampleRateHz else 12000), dc_voter = mk_TimeFrameVoter dcf77_voterConfig,
       dc_lockState = LsNoSignal, dc_polarity = 1, dc_polarityKnown = False, dc_segValid = False, dc_scanPos = 0, dc_blindSeconds = 0,
       dc_hist = [], dc_anchored = False, dc_sofNext = 0, dc_frame = dcf_blank, dc_frFilled = 0, dc_frStart = 0, dc_leapMinute = False,
       dc_leapInserted = False, dc_haveLastFrame = False, dc_lastFrameStart = 0, dc_lastLeapWarn = False, dc_lastFrameFrom = 0,
       dc_prevFrameFrom = 0, dc_unconfirmedRun = 0, dc_structFaults = 0, dc_codeKnown = False, dc_codeS0UtcMs = 0, dc_codeBits = (\<lambda>_. 0),
       dc_haveVoted = False, dc_votedMinute = -1, dc_votedHour = -1, dc_votedDoy = -1, dc_votedYear = -1, dc_votedQuality = 0, dc_out = []\<rparr>"

definition dcf_setPlausibility :: "bool \<Rightarrow> int \<Rightarrow> DcfDecoder \<Rightarrow> DcfDecoder" where
  "dcf_setPlausibility haveReference boundMinutes d = d\<lparr>dc_voter := setPlausibility haveReference boundMinutes (dc_voter d)\<rparr>"

definition dcf_startSteady :: "DcfDecoder \<Rightarrow> DcfDecoder" where
  "dcf_startSteady d = dcf_setLockState LsAcquiring d"

end
