(* ===== verification/Dcf77_Tracking.thy ===== *)
theory Dcf77_Tracking
  imports Dcf77_Decoder
begin

text \<open>
  How the DCF77 decoder keeps hold of the second, \<^verbatim>\<open>src/src/clock/Dcf77Decoder.cpp\<close>: the two edge
  trackers, the evidence that holds a phase-modulation (PM) lock through a weak stretch, what a new
  PM lock does to the count of seconds, and the whole of a second, \<open>dcf_processSecond\<close>, which feeds
  the framing of \<open>Dcf77_Decoder\<close>. What the correlator, the envelope and the aided search give for the
  second is the argument \<open>DcfMeas\<close>.
\<close>

section \<open>Constants\<close>

definition kChipSec :: real where "kChipSec = 120 / 77500"
definition kPmStartSec :: real where "kPmStartSec = 15500 / 77500"
definition kPmMinSnr :: real where "kPmMinSnr = 4"
definition kPmMissLimit :: int where "kPmMissLimit = 10"
definition kPmFullConfSnr :: real where "kPmFullConfSnr = 12"
definition kResegTolSec :: real where "kResegTolSec = 30 / 1000"
definition kPmHoldWindow :: int where "kPmHoldWindow = 30"
definition kPmHoldCoherent :: real where "kPmHoldCoherent = 25 / 10"
definition kPmHoldPowerK :: real where "kPmHoldPowerK = 35 / 10"
definition kPmEvClip :: real where "kPmEvClip = 4"
definition kPeriodLearnSeconds :: int where "kPeriodLearnSeconds = 32"
definition dcf_kTrkAlpha :: real where "dcf_kTrkAlpha = 1 / 8"
definition dcf_kTrkBeta :: real where "dcf_kTrkBeta = 1 / 128"
definition dcf_kTrkWarm :: int where "dcf_kTrkWarm = 8"
definition dcf_kWarmEnv :: int where "dcf_kWarmEnv = 200"
definition dcf_kEnvCap :: int where "dcf_kEnvCap = 1024"
definition dcf_kEdgeLook :: int where "dcf_kEdgeLook = 12"

section \<open>The edge tracker\<close>

record DcfTracker =
  dt_valid :: bool
  dt_edge :: real
  dt_period :: real
  dt_count :: int
  dt_outliers :: int

definition mk_DcfTracker :: DcfTracker where
  "mk_DcfTracker = \<lparr>dt_valid = False, dt_edge = 0, dt_period = 0, dt_count = 0, dt_outliers = 0\<rparr>"

definition dt_reset :: "DcfTracker \<Rightarrow> DcfTracker" where
  "dt_reset k = k\<lparr>dt_valid := False, dt_count := 0, dt_outliers := 0\<rparr>"

definition dt_update :: "bool \<Rightarrow> real \<Rightarrow> real \<Rightarrow> real \<Rightarrow> DcfTracker \<Rightarrow> DcfTracker" where
  "dt_update measured raw nominal tol k =
     (if \<not> dt_valid k then
        (if \<not> measured then k
         else k\<lparr>dt_edge := raw, dt_period := nominal, dt_valid := True, dt_count := 1, dt_outliers := 0\<rparr>)
      else
        let pred = dt_edge k + dt_period k
        in if \<not> measured then k\<lparr>dt_edge := pred\<rparr>
           else
             let r = raw - pred
             in if tol < \<bar>r\<bar> then
                  (if 3 \<le> dt_outliers k + 1
                   then k\<lparr>dt_edge := raw, dt_period := nominal, dt_count := 1, dt_outliers := 0\<rparr>
                   else k\<lparr>dt_outliers := dt_outliers k + 1, dt_edge := pred\<rparr>)
                else
                  let n = dt_count k + 1;
                      k = k\<lparr>dt_outliers := 0, dt_count := n, dt_edge := pred + max (1 / of_int n) dcf_kTrkAlpha * r\<rparr>
                  in if dcf_kTrkWarm < n
                     then k\<lparr>dt_period := clamp (dt_period k + dcf_kTrkBeta * r) (nominal * (1 - 2 / 10 ^ 4)) (nominal * (1 + 2 / 10 ^ 4))\<rparr>
                     else k)"

definition dt_nudge :: "real \<Rightarrow> real \<Rightarrow> real \<Rightarrow> DcfTracker \<Rightarrow> DcfTracker" where
  "dt_nudge raw w nominal k =
     (let pred = dt_edge k + dt_period k;
          r = raw - pred
      in k\<lparr>dt_edge := pred + w * dcf_kTrkAlpha * r,
           dt_period := clamp (dt_period k + w * dcf_kTrkBeta * r) (nominal * (1 - 2 / 10 ^ 4)) (nominal * (1 + 2 / 10 ^ 4))\<rparr>)"

section \<open>State\<close>

record PmEv =
  pe_z2 :: real
  pe_e :: real
  pe_known :: bool

record AidPending =
  ap_valid :: bool
  ap_burst :: real
  ap_sign :: int

definition no_AidPending :: AidPending where
  "no_AidPending = \<lparr>ap_valid = False, ap_burst = 0, ap_sign = 0\<rparr>"

record DcfTrack =
  tk_segEdge :: real
  tk_amTrk :: DcfTracker
  tk_pmTrk :: DcfTracker
  tk_pmLocked :: bool
  tk_pmMiss :: int
  tk_pmEv :: "PmEv list"
  tk_pmHolding :: bool
  tk_timingFromPm :: bool
  tk_periodKnown :: bool
  tk_periodLearnt :: real
  tk_amMinusPm :: real
  tk_amMinusPmHave :: bool
  tk_aidPending :: AidPending
  tk_pmRefusedLocks :: int
  tk_pmAidedLocks :: int

text \<open>The decoder: its framing and its tracking.\<close>

record Dcf77 =
  dx_fr :: DcfDecoder
  dx_tk :: DcfTrack

text \<open>
  What the demodulators give for a second: the cut AM found near the prediction, PM's peak (measured
  or not, its place, its correlation and SNR), the correlation at any other place, AM's reading of
  the second that starts at an edge, and a lock found by the aided search with its period, sign and score.
\<close>

record DcfMeas =
  dm_ref :: TimeFields
  dm_contrast :: bool
  dm_amEdge :: "real option"
  dm_pmMeas :: bool
  dm_pmTau :: real
  dm_pmC :: real
  dm_pmSnr :: real
  dm_corrAt :: "real \<Rightarrow> real"
  dm_classify :: "real \<Rightarrow> ClockSymbol \<times> real"
  dm_aided :: "(real \<times> real \<times> int \<times> real) option"

definition dcf_period :: "int \<Rightarrow> DcfTrack \<Rightarrow> real" where
  "dcf_period sr k =
     (if tk_pmLocked k \<and> dt_valid (tk_pmTrk k) then dt_period (tk_pmTrk k)
      else if dt_valid (tk_amTrk k) then dt_period (tk_amTrk k) else of_int sr)"

section \<open>PM held through weak stretches\<close>

definition pushPmEvidence :: "real \<Rightarrow> real \<Rightarrow> int \<Rightarrow> DcfDecoder \<Rightarrow> PmEv list \<Rightarrow> PmEv list" where
  "pushPmEvidence C snr sof d evs =
     (if C = 0 then evs
      else
        let bit' = (if dc_polarityKnown d then predictedPmBit sof d else -1);
            sign = (if 0 \<le> C then 1 else -1) * of_int (dc_polarity d) * (if bit' = 0 then 1 else -1);
            e = \<lparr>pe_z2 = min (snr * snr) (kPmEvClip * kPmEvClip), pe_e = (if 0 \<le> bit' then sign * min snr kPmEvClip else 0), pe_known = (0 \<le> bit')\<rparr>;
            evs = evs @ [e]
        in drop (length evs - nat kPmHoldWindow) evs)"

definition pmHoldEvidence :: "int \<Rightarrow> PmEv list \<Rightarrow> bool" where
  "pmHoldEvidence pmMiss evs =
     (let w = min (length evs) (nat (min pmMiss kPmHoldWindow));
          win = drop (length evs - w) evs;
          n = length win;
          z2 = sum_list (map pe_z2 win);
          nk = length (filter pe_known win);
          se = sum_list (map pe_e (filter pe_known win))
      in if nat kPmMissLimit \<le> nk \<and> kPmHoldCoherent \<le> se / sqrt (of_nat nk) then True
         else nat kPmMissLimit \<le> n \<and> of_nat n + kPmHoldPowerK * sqrt (2 * of_nat n) \<le> z2)"

definition pmNudge :: "(real \<Rightarrow> real) \<Rightarrow> real \<Rightarrow> real \<Rightarrow> real \<Rightarrow> int \<Rightarrow> real \<Rightarrow> DcfDecoder \<Rightarrow> DcfTracker \<Rightarrow> DcfTracker" where
  "pmNudge corrAt tau C snr sof P d k =
     (let tc = kChipSec * P;
          h = tc / 2;
          bit' = (if dc_polarityKnown d then predictedPmBit sof d else -1);
          sign = (if 0 \<le> bit' then of_int (dc_polarity d) * (if bit' = 0 then 1 else -1) else (if 0 \<le> C then 1 else -1));
          E = sign * corrAt (tau - h);
          L = sign * corrAt (tau + h)
      in if \<not> 0 < E + L then dt_update False 0 P tc k
         else
           let eps = clamp ((E - L) / (E + L) * (tc - h)) (- h) h;
               w = min 1 ((snr / kPmMinSnr) * (snr / kPmMinSnr))
           in dt_nudge (tau - eps - kPmStartSec * P) w (of_int (dc_sr d)) k)"

section \<open>A new PM lock\<close>

definition amDecoding :: "DcfDecoder \<Rightarrow> bool" where
  "amDecoding d \<longleftrightarrow> dc_anchored d \<and> (dc_lastFrameFrom d = 1 \<or> dc_lastFrameFrom d = 3 \<or> dc_prevFrameFrom d = 1 \<or> dc_prevFrameFrom d = 3)"

definition dcf_pmLockAt :: "real \<Rightarrow> real \<Rightarrow> Dcf77 \<Rightarrow> Dcf77" where
  "dcf_pmLockAt tau P x =
     (let d = dx_fr x;
          k = (dx_tk x)\<lparr>tk_pmLocked := True, tk_pmMiss := 0, tk_pmEv := [], tk_aidPending := no_AidPending, tk_pmTrk := dt_reset (tk_pmTrk (dx_tk x))\<rparr>;
          pmEdge = tau - kPmStartSec * P
      in if \<not> dc_segValid d
         then \<lparr>dx_fr = d\<lparr>dc_segValid := True, dc_hist := []\<rparr>, dx_tk = k\<lparr>tk_segEdge := pmEdge, tk_amTrk := dt_reset (tk_amTrk k)\<rparr>\<rparr>
         else
           let cand = pmEdge + P * of_int (llround ((tk_segEdge k - pmEdge) / P));
               far = (kResegTolSec * of_int (dc_sr d) < \<bar>cand - tk_segEdge k\<bar>)
           in if far \<and> amDecoding d then \<lparr>dx_fr = d, dx_tk = k\<lparr>tk_pmLocked := False, tk_pmRefusedLocks := tk_pmRefusedLocks k + 1\<rparr>\<rparr>
              else if far
              then let d = (if dc_lockState d = LsLocked then dcf_setLockState LsAcquiring d else d)
                   in \<lparr>dx_fr = (dcf_dropAnchor d)\<lparr>dc_hist := []\<rparr>, dx_tk = k\<lparr>tk_amTrk := dt_reset (tk_amTrk k), tk_segEdge := cand\<rparr>\<rparr>
              else \<lparr>dx_fr = d, dx_tk = k\<lparr>tk_segEdge := cand\<rparr>\<rparr>)"

text \<open>The end of the aided search, once a place, a period, a sign and a score have won.\<close>

definition dcf_aidedLock :: "real \<times> real \<times> int \<times> real \<Rightarrow> Dcf77 \<Rightarrow> Dcf77" where
  "dcf_aidedLock won x =
     (let (tau, P, sign, bestScore) = won;
          x = dcf_pmLockAt tau P x
      in if \<not> tk_pmLocked (dx_tk x) then x
         else
           let d = (if \<not> dc_polarityKnown (dx_fr x) then (dx_fr x)\<lparr>dc_polarity := sign, dc_polarityKnown := True\<rparr> else dx_fr x);
               t = dt_update True (tau + P - kPmStartSec * P) P (kChipSec * P) (tk_pmTrk (dx_tk x));
               t = t\<lparr>dt_count := clamp (trunc ((bestScore / kPmMinSnr) * (bestScore / kPmMinSnr))) 1 dcf_kTrkWarm\<rparr>
           in \<lparr>dx_fr = d, dx_tk = (dx_tk x)\<lparr>tk_pmTrk := t, tk_pmAidedLocks := tk_pmAidedLocks (dx_tk x) + 1\<rparr>\<rparr>)"

section \<open>One second\<close>

definition dcf_decim :: "int \<Rightarrow> int" where
  "dcf_decim sr = max 1 (llround (of_int sr / 100))"

definition dcf_sofHere :: "DcfDecoder \<Rightarrow> int" where
  "dcf_sofHere d = (if dc_anchored d then dc_sofNext d else -1)"

text \<open>The first part: PM's evidence for the second, and whether its lock is kept.\<close>

definition dcf_pmEvidence :: "DcfMeas \<Rightarrow> DcfDecoder \<Rightarrow> DcfTrack \<Rightarrow> DcfTrack" where
  "dcf_pmEvidence m d k =
     (if \<not> tk_pmLocked k then k
      else
        let k = k\<lparr>tk_pmEv := pushPmEvidence (dm_pmC m) (dm_pmSnr m) (dcf_sofHere d) d (tk_pmEv k)\<rparr>
        in if dm_pmMeas m then k\<lparr>tk_pmMiss := 0\<rparr>
           else
             let k = k\<lparr>tk_pmMiss := tk_pmMiss k + 1\<rparr>
             in if kPmMissLimit \<le> tk_pmMiss k \<and> \<not> pmHoldEvidence (tk_pmMiss k) (tk_pmEv k)
                then k\<lparr>tk_pmLocked := False, tk_pmTrk := dt_reset (tk_pmTrk k), tk_pmEv := []\<rparr> else k)"

text \<open>The second: the trackers brought to this second. \<open>P\<close> is the period before it.\<close>

definition dcf_track :: "DcfMeas \<Rightarrow> DcfDecoder \<Rightarrow> DcfTrack \<Rightarrow> DcfTrack" where
  "dcf_track m d k0 =
     (let P = dcf_period (dc_sr d) k0;
          sr = of_int (dc_sr d);
          pmMeas = (tk_pmLocked k0 \<and> dm_pmMeas m);
          k = dcf_pmEvidence m d k0;
          k = k\<lparr>tk_pmHolding := (tk_pmLocked k \<and> kPmMissLimit \<le> tk_pmMiss k)\<rparr>;
          pmEdge = dm_pmTau m - kPmStartSec * P;
          t = tk_pmTrk k;
          nominal = (if dt_valid t then P else sr);
          t = (if pmMeas \<or> \<not> dt_valid t \<or> \<not> 0 < dm_pmSnr m then dt_update pmMeas pmEdge nominal (kChipSec * P) t
               else pmNudge (dm_corrAt m) (dm_pmTau m) (dm_pmC m) (dm_pmSnr m) (dcf_sofHere d) P d t);
          k = (if tk_pmLocked k then k\<lparr>tk_pmTrk := t\<rparr> else k);
          k = (if tk_pmLocked k \<and> dt_valid t \<and> kPeriodLearnSeconds \<le> dt_count t then k\<lparr>tk_periodKnown := True, tk_periodLearnt := dt_period t\<rparr> else k);
          a = tk_amTrk k;
          amEdge = (case dm_amEdge m of Some e \<Rightarrow> e | None \<Rightarrow> 0);
          k = k\<lparr>tk_amTrk := dt_update (dm_amEdge m \<noteq> None) amEdge (if dt_valid a then dt_period a else sr) (of_int (dcf_decim (dc_sr d))) a\<rparr>;
          diff = (amEdge - pmEdge) * 1000 / sr;
          k = (if pmMeas \<and> dm_amEdge m \<noteq> None
               then k\<lparr>tk_amMinusPm := (if tk_amMinusPmHave k then tk_amMinusPm k + 5 / 100 * (diff - tk_amMinusPm k) else diff), tk_amMinusPmHave := True\<rparr>
               else k)
      in k\<lparr>tk_timingFromPm := (tk_pmLocked k \<and> dt_valid (tk_pmTrk k))\<rparr>)"

text \<open>What was read in the second, at the edge the trackers give.\<close>

definition dcf_edge :: "real \<Rightarrow> DcfTrack \<Rightarrow> real" where
  "dcf_edge pred k = (if tk_timingFromPm k then dt_edge (tk_pmTrk k) else if dt_valid (tk_amTrk k) then dt_edge (tk_amTrk k) else pred)"

definition dcf_secRec :: "DcfMeas \<Rightarrow> bool \<Rightarrow> real \<Rightarrow> DcfSec" where
  "dcf_secRec m pmWas edge =
     (let (sym, conf) = dm_classify m edge
      in \<lparr>ds_edge = llround edge, ds_edgeExact = Some edge, ds_am = sym, ds_amConf = conf,
          ds_pmSign = (if pmWas \<and> 0 < dm_pmSnr m then (if 0 \<le> dm_pmC m then 1 else -1) else 0),
          ds_pmConf = (if pmWas \<and> 0 < dm_pmSnr m then clamp (dm_pmSnr m / kPmFullConfSnr) 0 1 else 0)\<rparr>)"

definition dcf_processSecond :: "DcfMeas \<Rightarrow> Dcf77 \<Rightarrow> Dcf77" where
  "dcf_processSecond m x =
     (let d = dx_fr x; k0 = dx_tk x;
          P = dcf_period (dc_sr d) k0;
          pred = tk_segEdge k0;
          sofHere = dcf_sofHere d;
          pmMeas = (tk_pmLocked k0 \<and> dm_pmMeas m);
          k = dcf_track m d k0;
          edge = dcf_edge pred k;
          measured = (if tk_timingFromPm k then pmMeas else dm_amEdge m \<noteq> None);
          env = \<lparr>env_ref = dm_ref m, env_contrast = dm_contrast m, env_period = dcf_period (dc_sr d) k, env_timingFromPm = tk_timingFromPm k\<rparr>;
          d = dcf_second env (dcf_secRec m (tk_pmLocked k0) edge) measured (dm_amEdge m \<noteq> None \<or> pmMeas) d;
          k = k\<lparr>tk_segEdge := (if tk_timingFromPm k then dt_edge (tk_pmTrk k) + dt_period (tk_pmTrk k)
                 else if dt_valid (tk_amTrk k) then dt_edge (tk_amTrk k) + dt_period (tk_amTrk k) else edge + of_int (dc_sr d))\<rparr>;
          k = (if dc_segValid d then k else k\<lparr>tk_amTrk := dt_reset (tk_amTrk k)\<rparr>);
          x = \<lparr>dx_fr = d, dx_tk = k\<rparr>;
          x = (case dm_aided m of Some won \<Rightarrow> if ap_valid (tk_aidPending k) \<and> \<not> tk_pmLocked k then dcf_aidedLock won x else x | None \<Rightarrow> x);
          d = dx_fr x; k = (dx_tk x)\<lparr>tk_aidPending := no_AidPending\<rparr>;
          bit' = predictedPmBit sofHere d;
          k = (if tk_pmLocked k \<or> \<not> dc_segValid d then k
               else if \<not> tk_timingFromPm k \<and> dt_valid (tk_amTrk k) \<and> 0 \<le> sofHere \<and> 0 \<le> bit'
               then k\<lparr>tk_aidPending := \<lparr>ap_valid = True, ap_burst = edge + kPmStartSec * P, ap_sign = (if bit' = 0 then 1 else -1)\<rparr>\<rparr>
               else k)
      in \<lparr>dx_fr = d, dx_tk = k\<rparr>)"

section \<open>The decoder's life\<close>

fun dcf_seed_loop :: "(int \<Rightarrow> bool) \<Rightarrow> (int \<Rightarrow> real) \<Rightarrow> int list \<Rightarrow> Dcf77 \<Rightarrow> Dcf77" where
  "dcf_seed_loop isFallingEdge edgeSampleAt [] x = x"
| "dcf_seed_loop isFallingEdge edgeSampleAt (i # is) x =
     (let x = x\<lparr>dx_fr := (dx_fr x)\<lparr>dc_scanPos := i\<rparr>\<rparr>
      in if isFallingEdge i
         then \<lparr>dx_fr = (dx_fr x)\<lparr>dc_segValid := True, dc_hist := []\<rparr>, dx_tk = (dx_tk x)\<lparr>tk_segEdge := edgeSampleAt i\<rparr>\<rparr>
         else dcf_seed_loop isFallingEdge edgeSampleAt is x)"

definition dcf_trySeedAm :: "int \<Rightarrow> bool \<Rightarrow> (int \<Rightarrow> bool) \<Rightarrow> (int \<Rightarrow> real) \<Rightarrow> Dcf77 \<Rightarrow> Dcf77" where
  "dcf_trySeedAm envCount haveContrast isFallingEdge edgeSampleAt x =
     (if envCount < dcf_kWarmEnv \<or> \<not> haveContrast then x
      else let lo = max (max (dc_scanPos (dx_fr x)) 9) (envCount - dcf_kEnvCap + 9)
           in dcf_seed_loop isFallingEdge edgeSampleAt [lo..envCount - dcf_kEdgeLook - 1] x)"

definition dcf77_reset :: "Dcf77 \<Rightarrow> Dcf77" where
  "dcf77_reset x =
     \<lparr>dx_fr = dcf_reset (dx_fr x),
      dx_tk = (dx_tk x)\<lparr>tk_segEdge := 0, tk_amTrk := dt_reset (tk_amTrk (dx_tk x)), tk_pmTrk := dt_reset (tk_pmTrk (dx_tk x)), tk_pmLocked := False,
        tk_pmMiss := 0, tk_pmEv := [], tk_pmHolding := False, tk_aidPending := no_AidPending, tk_pmAidedLocks := 0, tk_periodKnown := False,
        tk_periodLearnt := 0, tk_amMinusPm := 0, tk_amMinusPmHave := False, tk_timingFromPm := False, tk_pmRefusedLocks := 0\<rparr>\<rparr>"

definition mk_Dcf77 :: "int \<Rightarrow> bool \<Rightarrow> int \<Rightarrow> Dcf77" where
  "mk_Dcf77 sampleRateHz haveReference boundMinutes =
     \<lparr>dx_fr = dcf_setPlausibility haveReference boundMinutes (mk_Dcf77Decoder sampleRateHz),
      dx_tk = \<lparr>tk_segEdge = 0, tk_amTrk = mk_DcfTracker, tk_pmTrk = mk_DcfTracker, tk_pmLocked = False, tk_pmMiss = 0, tk_pmEv = [],
        tk_pmHolding = False, tk_timingFromPm = False, tk_periodKnown = False, tk_periodLearnt = 0, tk_amMinusPm = 0, tk_amMinusPmHave = False,
        tk_aidPending = no_AidPending, tk_pmRefusedLocks = 0, tk_pmAidedLocks = 0\<rparr>\<rparr>"

definition dcf77_station :: "Dcf77 \<Rightarrow> ClockStation" where
  "dcf77_station x = (if dc_lockState (dx_fr x) = LsNoSignal then StUnknown else StDcf77)"

end
