(* ===== verification/Dcf77_Hold.thy ===== *)
theory Dcf77_Hold
  imports Dcf77_Tracking
begin

text \<open>
  What holds a PM lock through a weak stretch. One strong second among seconds of noise does not,
  whichever of the two tests it passes through; a burst too weak to be measured in any one second
  does, as long as the bits it carries are known.
\<close>

definition hold_window :: "int \<Rightarrow> PmEv list \<Rightarrow> PmEv list" where
  "hold_window pmMiss evs = drop (length evs - min (length evs) (nat (min pmMiss kPmHoldWindow))) evs"

definition ev_clipped :: "PmEv list \<Rightarrow> bool" where
  "ev_clipped = list_all (\<lambda>e. pe_z2 e \<le> 16 \<and> pe_e e \<le> 4)"

lemma pushPmEvidence_clipped:
  assumes "ev_clipped evs" "0 \<le> snr" "dc_polarity d \<in> {1, -1}"
  shows "ev_clipped (pushPmEvidence C snr sof d evs)"
proof -
  have "list_all P (drop n xs)" if "list_all P xs" for P n and xs :: "PmEv list"
    using that by (metis append_take_drop_id list_all_append)
  then show ?thesis using assms by (auto simp: pushPmEvidence_def ev_clipped_def Let_def kPmEvClip_def)
qed

lemma pushPmEvidence_length: "length evs \<le> 30 \<Longrightarrow> length (pushPmEvidence C snr sof d evs) \<le> 30"
  by (auto simp: pushPmEvidence_def Let_def kPmHoldWindow_def)

lemma pmHoldEvidence_window:
  fixes w :: "PmEv list"
  assumes "hold_window pmMiss evs = w"
  shows "pmHoldEvidence pmMiss evs \<longleftrightarrow>
    10 \<le> length (filter pe_known w) \<and> 25 / 10 \<le> sum_list (map pe_e (filter pe_known w)) / sqrt (of_nat (length (filter pe_known w)))
    \<or> 10 \<le> length w \<and> of_nat (length w) + 35 / 10 * sqrt (2 * of_nat (length w)) \<le> sum_list (map pe_z2 w)"
  using assms by (simp add: pmHoldEvidence_def hold_window_def Let_def kPmMissLimit_def kPmHoldCoherent_def kPmHoldPowerK_def) blast

text \<open>Ten seconds of noise at its mean leave 15 for one second to make up, and the test asks for more.\<close>

lemma power_margin:
  assumes "10 \<le> n"
  shows "of_nat n + 15 < of_nat n + 35 / 10 * sqrt (2 * real n)"
proof -
  have "(30 / 7)\<^sup>2 < 2 * real n" using assms by (simp add: power2_eq_square)
  then have "30 / 7 < sqrt (2 * real n)" by (rule real_less_rsqrt)
  then show ?thesis by simp
qed

lemma sum_list_bounded: "(\<And>x. x \<in> set xs \<Longrightarrow> f x \<le> c) \<Longrightarrow> sum_list (map f xs) \<le> c * real (length xs)" for f :: "'a \<Rightarrow> real"
  by (induction xs) (force simp: algebra_simps)+

lemma crash_not_held:
  assumes "hold_window pmMiss evs = us @ c # vs" "pe_z2 c \<le> 16" "pe_e c \<le> 4"
    "\<And>e. e \<in> set (us @ vs) \<Longrightarrow> pe_z2 e \<le> 1 \<and> pe_e e \<le> 0"
  shows "\<not> pmHoldEvidence pmMiss evs"
proof -
  let ?w = "us @ c # vs"
  define n where "n = length ?w"
  have "sum_list (map pe_z2 us) \<le> real (length us)" "sum_list (map pe_z2 vs) \<le> real (length vs)"
    using sum_list_bounded[of us pe_z2 1] sum_list_bounded[of vs pe_z2 1] assms(4) by simp_all
  then have "sum_list (map pe_z2 ?w) \<le> of_nat n + 15" using assms(2) by (simp add: n_def)
  then have power: "\<not> (10 \<le> n \<and> of_nat n + 35 / 10 * sqrt (2 * of_nat n) \<le> sum_list (map pe_z2 ?w))" using power_margin[of n] by linarith
  define nk where "nk = length (filter pe_known ?w)"
  have "sum_list (map pe_e (filter pe_known us)) \<le> 0" "sum_list (map pe_e (filter pe_known vs)) \<le> 0"
    using sum_list_bounded[of "filter pe_known us" pe_e 0] sum_list_bounded[of "filter pe_known vs" pe_e 0] assms(4) by simp_all
  then have se: "sum_list (map pe_e (filter pe_known ?w)) \<le> 4" using assms(3) by simp
  have "\<not> 25 / 10 \<le> sum_list (map pe_e (filter pe_known ?w)) / sqrt (of_nat nk)" if "10 \<le> nk"
  proof -
    have "3\<^sup>2 \<le> real nk" using that by simp
    then have "3 \<le> sqrt (of_nat nk)" by (rule real_le_rsqrt)
    then have "25 / 10 * 3 \<le> 25 / 10 * sqrt (of_nat nk)" by simp
    with se have "sum_list (map pe_e (filter pe_known ?w)) < 25 / 10 * sqrt (of_nat nk)" by linarith
    moreover have "0 < sqrt (of_nat nk)" using \<open>3 \<le> sqrt (of_nat nk)\<close> by linarith
    ultimately show ?thesis by (simp only: pos_le_divide_eq not_le)
  qed
  with power show ?thesis unfolding pmHoldEvidence_window[OF assms(1)] n_def nk_def by blast
qed

lemma weak_burst_is_held:
  assumes "10 \<le> pmMiss" "10 \<le> length evs" "\<And>e. e \<in> set (hold_window pmMiss evs) \<Longrightarrow> pe_known e \<and> 8 / 10 \<le> pe_e e"
  shows "pmHoldEvidence pmMiss evs"
proof -
  let ?w = "hold_window pmMiss evs"
  have n: "10 \<le> length ?w" using assms(1,2) by (auto simp: hold_window_def kPmHoldWindow_def)
  have all: "filter pe_known ?w = ?w" using assms(3) by (simp add: filter_id_conv)
  have "sum_list (map (\<lambda>e. - pe_e e) ?w) \<le> - (8 / 10) * real (length ?w)" using sum_list_bounded[of ?w "\<lambda>e. - pe_e e" "- (8 / 10)"] assms(3) by fastforce
  then have se: "8 / 10 * real (length ?w) \<le> sum_list (map pe_e ?w)" by (simp add: uminus_sum_list_map[unfolded comp_def, symmetric])
  have "(25 / 8)\<^sup>2 \<le> real (length ?w)" using n by (simp add: power2_eq_square)
  then have r: "25 / 8 \<le> sqrt (real (length ?w))" by (rule real_le_rsqrt)
  have "8 / 10 * real (length ?w) = 8 / 10 * sqrt (real (length ?w)) * sqrt (real (length ?w))" by simp
  then have "25 / 10 * sqrt (real (length ?w)) \<le> sum_list (map pe_e ?w)"
    using se mult_right_mono[of "25 / 10" "8 / 10 * sqrt (real (length ?w))" "sqrt (real (length ?w))"] r by simp
  moreover have "0 < sqrt (real (length ?w))" using r by linarith
  ultimately have "25 / 10 \<le> sum_list (map pe_e ?w) / sqrt (real (length ?w))" by (simp add: pos_le_divide_eq)
  then show ?thesis unfolding pmHoldEvidence_window[OF refl] all using n by blast
qed

section \<open>The lock\<close>


text \<open>Nine seconds of noise, then a second at a hundred times it.\<close>

definition noise_ev :: PmEv where "noise_ev = \<lparr>pe_z2 = 1, pe_e = 0, pe_known = False\<rparr>"

definition demo_meas :: "real \<Rightarrow> real \<Rightarrow> DcfMeas" where
  "demo_meas C snr = \<lparr>dm_ref = \<lparr>tf_minute = 0, tf_hour = 0, tf_doy = 1, tf_year2 = 26\<rparr>, dm_contrast = False, dm_amEdge = None, dm_pmMeas = False,
     dm_pmTau = 0, dm_pmC = C, dm_pmSnr = snr, dm_corrAt = (\<lambda>_. 0), dm_classify = (\<lambda>_. (Unknown, 0)), dm_aided = None\<rparr>"

definition demo_track :: "PmEv list \<Rightarrow> DcfTrack" where
  "demo_track evs = (dx_tk (mk_Dcf77 12000 True 10))\<lparr>tk_pmLocked := True, tk_pmMiss := 9, tk_pmEv := evs\<rparr>"


text \<open>
  A DCF77 phase lock is kept on a burst too weak to be measured. Through ten or more seconds
  with no measurement, if the bits of the weak stretch are known and each second agrees with its
  bit by as little as 0.8 of the noise, the lock is kept.
\<close>

theorem weak_burst_keeps_lock:
  assumes "tk_pmLocked k" "9 \<le> tk_pmMiss k"
    "10 \<le> length (pushPmEvidence (dm_pmC m) (dm_pmSnr m) (dcf_sofHere d) d (tk_pmEv k))"
    "\<And>e. e \<in> set (hold_window (tk_pmMiss k + 1) (pushPmEvidence (dm_pmC m) (dm_pmSnr m) (dcf_sofHere d) d (tk_pmEv k))) \<Longrightarrow> pe_known e \<and> 8 / 10 \<le> pe_e e"
  shows "tk_pmLocked (dcf_track m d k)"
proof -
  have "pmHoldEvidence (tk_pmMiss k + 1) (pushPmEvidence (dm_pmC m) (dm_pmSnr m) (dcf_sofHere d) d (tk_pmEv k))"
    using assms by (intro weak_burst_is_held) simp_all
  then have "tk_pmLocked (dcf_pmEvidence m d k)" using assms(1) by (simp add: dcf_pmEvidence_def Let_def)
  then show ?thesis by (simp add: dcf_track_def Let_def)
qed

text \<open>Nine weak seconds, then second 0 of a minute, whose bit is 1, at the noise's own level.\<close>

definition weak_ev :: PmEv where "weak_ev = \<lparr>pe_z2 = 1, pe_e = 8 / 10, pe_known = True\<rparr>"

definition demo_anchored :: DcfDecoder where
  "demo_anchored = (dx_fr (mk_Dcf77 12000 True 10))\<lparr>dc_anchored := True, dc_sofNext := 0, dc_polarityKnown := True, dc_polarity := 1\<rparr>"

theorem weak_burst_keeps_lock_witness:
  "tk_pmLocked (dcf_track (demo_meas (-1) 1) demo_anchored (demo_track (replicate 9 weak_ev)))"
proof -
  have p: "pushPmEvidence (dm_pmC (demo_meas (-1) 1)) (dm_pmSnr (demo_meas (-1) 1)) (dcf_sofHere demo_anchored) demo_anchored (tk_pmEv (demo_track (replicate 9 weak_ev)))
    = replicate 9 weak_ev @ [\<lparr>pe_z2 = 1, pe_e = 1, pe_known = True\<rparr>]"
    by (simp add: pushPmEvidence_def demo_track_def demo_meas_def demo_anchored_def dcf_sofHere_def predictedPmBit_def pmFixedBit_def Let_def kPmEvClip_def kPmHoldWindow_def)
  show ?thesis
  proof (rule weak_burst_keeps_lock)
    fix e :: PmEv
    show "pe_known e \<and> 8 / 10 \<le> pe_e e" if "e \<in> set (hold_window (tk_pmMiss (demo_track (replicate 9 weak_ev)) + 1)
      (pushPmEvidence (dm_pmC (demo_meas (-1) 1)) (dm_pmSnr (demo_meas (-1) 1)) (dcf_sofHere demo_anchored) demo_anchored (tk_pmEv (demo_track (replicate 9 weak_ev)))))"
      using that unfolding p hold_window_def by (auto dest!: in_set_dropD simp: weak_ev_def)
  qed (unfold p, simp_all add: demo_track_def)
qed

section \<open>The bound on the period\<close>

text \<open>
  The clamp on the tracked period is around the nominal period the caller gives, and for a running
  amplitude tracker the caller gives the tracked period itself: one step moves it by at most
  200 parts per million, but nothing bounds where many steps take it. \<open>steady_late n r tol k\<close> is the tracker
  after \<open>n\<close> measurements that each come \<open>r\<close> after the second was expected.
\<close>

primrec steady_late :: "nat \<Rightarrow> real \<Rightarrow> real \<Rightarrow> DcfTracker \<Rightarrow> DcfTracker" where
  "steady_late 0 r tol k = k"
| "steady_late (Suc n) r tol k = (let k = steady_late n r tol k in dt_update True (dt_edge k + dt_period k + r) (dt_period k) tol k)"

lemma steady_late_step:
  assumes "dt_valid k" "dcf_kTrkWarm \<le> dt_count k" "0 \<le> r" "r \<le> tol" "r / 128 \<le> 2 / 10 ^ 4 * dt_period k"
  shows "dt_valid (dt_update True (dt_edge k + dt_period k + r) (dt_period k) tol k)"
    "dt_count (dt_update True (dt_edge k + dt_period k + r) (dt_period k) tol k) = dt_count k + 1"
    "dt_period (dt_update True (dt_edge k + dt_period k + r) (dt_period k) tol k) = dt_period k + r / 128"
  using assms by (simp_all add: dt_update_def Let_def dcf_kTrkBeta_def algebra_simps)



end
