(* ===== verification/Dcf77_States.thy ===== *)
theory Dcf77_States
  imports Dcf77_Hold Msf_Lock
begin

text \<open>
  The DCF77 decoder's framing as a state machine: what every second, reset and resegmentation
  leaves of its state. The minute's array is used within bounds, the seconds counted are the
  seconds recorded, the decoder is locked just when the voter has certified the minute just ended,
  and it never holds a certified time going into a leap second.
\<close>

section \<open>What the operations leave alone\<close>

lemma dcf_emit_simps [simp]:
  "dc_lockState (dcf_emit e d) = dc_lockState d" "dc_haveVoted (dcf_emit e d) = dc_haveVoted d" "dc_anchored (dcf_emit e d) = dc_anchored d"
  "dc_sofNext (dcf_emit e d) = dc_sofNext d" "dc_frame (dcf_emit e d) = dc_frame d" "dc_frFilled (dcf_emit e d) = dc_frFilled d"
  "dc_frStart (dcf_emit e d) = dc_frStart d" "dc_voter (dcf_emit e d) = dc_voter d" "dc_haveLastFrame (dcf_emit e d) = dc_haveLastFrame d"
  "dc_unconfirmedRun (dcf_emit e d) = dc_unconfirmedRun d" "dc_hist (dcf_emit e d) = dc_hist d" "dc_leapMinute (dcf_emit e d) = dc_leapMinute d"
  "dc_polarity (dcf_emit e d) = dc_polarity d" "dc_polarityKnown (dcf_emit e d) = dc_polarityKnown d" "dc_blindSeconds (dcf_emit e d) = dc_blindSeconds d"
  "dc_codeKnown (dcf_emit e d) = dc_codeKnown d" "dc_codeBits (dcf_emit e d) = dc_codeBits d" "dc_codeS0UtcMs (dcf_emit e d) = dc_codeS0UtcMs d"
  "dc_votedMinute (dcf_emit e d) = dc_votedMinute d" "dc_votedHour (dcf_emit e d) = dc_votedHour d" "dc_votedDoy (dcf_emit e d) = dc_votedDoy d"
  "dc_votedYear (dcf_emit e d) = dc_votedYear d" "dc_segValid (dcf_emit e d) = dc_segValid d" "dc_sr (dcf_emit e d) = dc_sr d"
  "dc_leapInserted (dcf_emit e d) = dc_leapInserted d" "dc_lastFrameStart (dcf_emit e d) = dc_lastFrameStart d"
  "dc_lastLeapWarn (dcf_emit e d) = dc_lastLeapWarn d" "dc_out (dcf_emit e d) = dc_out d @ [e]"
  by (simp_all add: dcf_emit_def)

lemma dcf_setLockState_simps [simp]:
  "dc_lockState (dcf_setLockState st d) = st" "dc_haveVoted (dcf_setLockState st d) = dc_haveVoted d" "dc_anchored (dcf_setLockState st d) = dc_anchored d"
  "dc_sofNext (dcf_setLockState st d) = dc_sofNext d" "dc_frame (dcf_setLockState st d) = dc_frame d" "dc_frFilled (dcf_setLockState st d) = dc_frFilled d"
  "dc_frStart (dcf_setLockState st d) = dc_frStart d" "dc_voter (dcf_setLockState st d) = dc_voter d" "dc_haveLastFrame (dcf_setLockState st d) = dc_haveLastFrame d"
  "dc_unconfirmedRun (dcf_setLockState st d) = dc_unconfirmedRun d" "dc_hist (dcf_setLockState st d) = dc_hist d" "dc_leapMinute (dcf_setLockState st d) = dc_leapMinute d"
  "dc_polarity (dcf_setLockState st d) = dc_polarity d" "dc_polarityKnown (dcf_setLockState st d) = dc_polarityKnown d" "dc_blindSeconds (dcf_setLockState st d) = dc_blindSeconds d"
  "dc_codeKnown (dcf_setLockState st d) = dc_codeKnown d" "dc_codeBits (dcf_setLockState st d) = dc_codeBits d" "dc_codeS0UtcMs (dcf_setLockState st d) = dc_codeS0UtcMs d"
  "dc_votedMinute (dcf_setLockState st d) = dc_votedMinute d" "dc_votedHour (dcf_setLockState st d) = dc_votedHour d" "dc_votedDoy (dcf_setLockState st d) = dc_votedDoy d"
  "dc_votedYear (dcf_setLockState st d) = dc_votedYear d" "dc_segValid (dcf_setLockState st d) = dc_segValid d" "dc_sr (dcf_setLockState st d) = dc_sr d"
  "dc_leapInserted (dcf_setLockState st d) = dc_leapInserted d" "dc_lastFrameStart (dcf_setLockState st d) = dc_lastFrameStart d"
  "dc_lastLeapWarn (dcf_setLockState st d) = dc_lastLeapWarn d" "(OnTime t \<in> set (dc_out (dcf_setLockState st d))) = (OnTime t \<in> set (dc_out d))"
  by (simp_all add: dcf_setLockState_def)

lemma dcf_demote_simps [simp]:
  "dc_lockState (dcf_demote d) \<noteq> LsLocked" "dc_haveVoted (dcf_demote d) = False" "dc_anchored (dcf_demote d) = dc_anchored d"
  "dc_sofNext (dcf_demote d) = dc_sofNext d" "dc_frame (dcf_demote d) = dc_frame d" "dc_frFilled (dcf_demote d) = dc_frFilled d"
  "dc_frStart (dcf_demote d) = dc_frStart d" "dc_voter (dcf_demote d) = dc_voter d" "dc_haveLastFrame (dcf_demote d) = dc_haveLastFrame d"
  "dc_unconfirmedRun (dcf_demote d) = dc_unconfirmedRun d" "dc_hist (dcf_demote d) = dc_hist d" "dc_leapMinute (dcf_demote d) = dc_leapMinute d"
  "dc_polarity (dcf_demote d) = dc_polarity d" "dc_polarityKnown (dcf_demote d) = dc_polarityKnown d" "dc_blindSeconds (dcf_demote d) = dc_blindSeconds d"
  "dc_codeKnown (dcf_demote d) = dc_codeKnown d" "dc_codeBits (dcf_demote d) = dc_codeBits d" "dc_codeS0UtcMs (dcf_demote d) = dc_codeS0UtcMs d"
  "dc_segValid (dcf_demote d) = dc_segValid d" "dc_sr (dcf_demote d) = dc_sr d"
  "dc_leapInserted (dcf_demote d) = dc_leapInserted d" "dc_lastFrameStart (dcf_demote d) = dc_lastFrameStart d"
  "(OnTime t \<in> set (dc_out (dcf_demote d))) = (OnTime t \<in> set (dc_out d))"
  by (simp_all add: dcf_demote_def Let_def)

section \<open>The invariant\<close>

text \<open>Every array index is within the array; within a minute the seconds recorded are the seconds counted.\<close>

definition dcf_bounds :: "DcfDecoder \<Rightarrow> bool" where
  "dcf_bounds d \<longleftrightarrow> length (dc_frame d) = 60 \<and> 0 \<le> dc_sofNext d \<and> dc_sofNext d \<le> 60 \<and> (dc_sofNext d \<noteq> 0 \<longrightarrow> dc_frFilled d = dc_sofNext d)
     \<and> 0 \<le> dc_unconfirmedRun d \<and> dc_unconfirmedRun d \<le> 2 \<and> dc_polarity d \<in> {1, -1}"

text \<open>The bits predicted for the minute being received are those of the minute the decoder believes it is.\<close>

definition dcf_code_ok :: "DcfDecoder \<Rightarrow> bool" where
  "dcf_code_ok d \<longleftrightarrow> (dc_codeKnown d \<longrightarrow> dc_anchored d \<and> dc_codeBits d = predictTimeCode (dc_codeS0UtcMs d))"

definition dcf_certified :: "DcfDecoder \<Rightarrow> bool" where
  "dcf_certified d \<longleftrightarrow> (\<exists>ref. locked ref (dc_voter d))
     \<and> dc_votedMinute d = votedField (dc_voter d) FieldMinutes \<and> dc_votedHour d = votedField (dc_voter d) FieldHours
     \<and> dc_votedDoy d = votedField (dc_voter d) FieldDoy \<and> dc_votedYear d = votedField (dc_voter d) FieldYear"

text \<open>Locked is holding a certified time; and no certified time is held when a leap second is next.\<close>

definition dcf_lock_ok :: "DcfDecoder \<Rightarrow> bool" where
  "dcf_lock_ok d \<longleftrightarrow> (dc_lockState d = LsLocked \<longleftrightarrow> dc_haveVoted d)
     \<and> (dc_haveVoted d \<longrightarrow> dc_anchored d \<and> dc_haveLastFrame d \<and> dc_sofNext d \<noteq> 60 \<and> dcf_certified d)"

definition dcf_times_ok :: "VoterConfig \<Rightarrow> DcfDecoder \<Rightarrow> bool" where
  "dcf_times_ok cfg d \<longleftrightarrow> tv_cfg (dc_voter d) = cfg \<and> (\<forall>t. OnTime t \<in> set (dc_out d) \<longrightarrow> time_certified StDcf77 cfg t)"

definition dcf_kept :: "DcfDecoder \<Rightarrow> DcfSec list \<times> int \<times> bool \<times> ClockTimeInfo set \<times> VoterConfig" where
  "dcf_kept d = (dc_hist d, dc_blindSeconds d, dc_segValid d, {t. OnTime t \<in> set (dc_out d)}, tv_cfg (dc_voter d))"

lemmas dcf_inv_defs = dcf_bounds_def dcf_code_ok_def dcf_certified_def dcf_lock_ok_def dcf_times_ok_def dcf_kept_def

lemma dcf_untouched:
  "dcf_kept (d\<lparr>dc_sofNext := k\<rparr>) = dcf_kept d" "dcf_kept (d\<lparr>dc_leapInserted := b\<rparr>) = dcf_kept d"
  "dcf_kept (d\<lparr>dc_frame := f, dc_frFilled := n\<rparr>) = dcf_kept d" "dcf_certified (d\<lparr>dc_frame := f, dc_frFilled := n\<rparr>) = dcf_certified d"
  "dcf_certified (d\<lparr>dc_sofNext := k\<rparr>) = dcf_certified d" "dcf_code_ok (d\<lparr>dc_frame := f, dc_frFilled := n\<rparr>) = dcf_code_ok d"
  by (simp_all add: dcf_inv_defs)

lemma dcf_blank_length [simp]: "length dcf_blank = 60" by (simp add: dcf_blank_def)

lemma dcf_dropAnchor_ok:
  "dcf_bounds (dcf_dropAnchor d) \<longleftrightarrow> dc_polarity d \<in> {1, -1}" "dcf_code_ok (dcf_dropAnchor d)" "dcf_kept (dcf_dropAnchor d) = dcf_kept d"
  "dc_haveVoted (dcf_dropAnchor d) = False" "dc_lockState (dcf_dropAnchor d) = dc_lockState d" "dc_anchored (dcf_dropAnchor d) = False"
  by (simp_all add: dcf_dropAnchor_def dcf_inv_defs voter_cfg_kept)

lemma dcf_learnPolarity_ok:
  "dcf_bounds d \<Longrightarrow> dcf_bounds (learnPolarity d)" "dcf_code_ok (learnPolarity d) = dcf_code_ok d" "dcf_kept (learnPolarity d) = dcf_kept d"
  "dc_anchored (learnPolarity d) = dc_anchored d" "dc_frFilled (learnPolarity d) = dc_frFilled d" "dc_unconfirmedRun (learnPolarity d) = dc_unconfirmedRun d"
  "dc_leapMinute (learnPolarity d) = dc_leapMinute d" "dc_sofNext (learnPolarity d) = dc_sofNext d"
  by (simp_all add: learnPolarity_def dcf_inv_defs)

lemma dcf_predict_ok:
  "dcf_code_ok d \<Longrightarrow> dc_anchored d \<Longrightarrow> dcf_code_ok (dcf_predict dec d)" "dcf_bounds (dcf_predict dec d) = dcf_bounds d"
  "dcf_kept (dcf_predict dec d) = dcf_kept d" "dc_anchored (dcf_predict dec d) = dc_anchored d" "dc_leapMinute (dcf_predict dec d) = dc_leapMinute d"
  "dc_sofNext (dcf_predict dec d) = dc_sofNext d"
  by (simp_all add: dcf_predict_def dcf_inv_defs Let_def)

text \<open>A decoder between the end of a minute and the choice of its next second.\<close>

definition dcf_ended :: "DcfDecoder \<Rightarrow> DcfDecoder \<Rightarrow> bool" where
  "dcf_ended d e \<longleftrightarrow> dcf_bounds e \<and> dcf_code_ok e \<and> dcf_kept e = dcf_kept d \<and> (dc_lockState e = LsLocked \<longleftrightarrow> dc_haveVoted e)
     \<and> (dc_haveVoted e \<longrightarrow> dc_anchored e \<and> dc_haveLastFrame e \<and> \<not> dc_leapMinute e \<and> dcf_certified e) \<and> dc_sofNext e = (if dc_anchored e then dc_sofNext d else 0)"

lemma dcf_vote_cases:
  fixes dec :: "(EuDecoded \<times> (FieldIndex \<Rightarrow> real)) option"
  assumes "dcf_bounds d" "dcf_code_ok d" "dc_anchored d"
  obtains (certified) e where "dcf_vote env confirmed dec d = dcf_setLockState LsLocked (e\<lparr>dc_haveVoted := True\<rparr>)" "\<not> dc_leapMinute e" "dcf_certified e"
      "dcf_bounds e" "dcf_code_ok e" "dcf_kept e = dcf_kept d" "dc_anchored e" "dc_haveLastFrame e" "dc_sofNext e = dc_sofNext d"
  | (not_certified) e where "dcf_vote env confirmed dec d = dcf_demote e" "dcf_bounds e" "dcf_code_ok e" "dcf_kept e = dcf_kept d" "dc_anchored e"
      "dc_sofNext e = dc_sofNext d"
proof -
  define v where "v = (let frame = synthetic_frame (map_option (\<lambda>(x, c). (eu_utc x, c)) dec);
      consecutive = (dc_haveLastFrame d \<and> \<bar>of_int (dc_frStart d - dc_lastFrameStart d) - (if dc_leapInserted d then 61 else 60) * env_period env\<bar> \<le> 25 / 100 * of_int (dc_sr d))
    in addFrame (fr_symbols frame) (fr_confidence frame) (if \<not> consecutive then voter_reset (dc_voter d) else dc_voter d))"
  define w where "w = (case dec of Some (x, c) \<Rightarrow> eu_leapWarn x | None \<Rightarrow> False)"
  define e where "e = (dcf_emit (OnFrame (dcf_frame_info d dec)) d)\<lparr>dc_leapInserted := False, dc_haveLastFrame := True, dc_lastFrameStart := dc_frStart d, dc_voter := v\<rparr>"
  define vt where "vt = (\<lambda>e :: DcfDecoder. e\<lparr>dc_votedMinute := votedField v FieldMinutes, dc_votedHour := votedField v FieldHours,
                      dc_votedDoy := votedField v FieldDoy, dc_votedYear := votedField v FieldYear, dc_votedQuality := lockConfidence v\<rparr>)"
  have cfg: "tv_cfg v = tv_cfg (dc_voter d)" by (simp add: v_def voter_cfg_kept Let_def)
  have e: "dcf_bounds e" "dcf_code_ok e" "dcf_kept e = dcf_kept d" "dc_anchored e" "dc_haveLastFrame e" "dc_leapMinute e = dc_leapMinute d" "dc_voter e = v" "dc_sofNext e = dc_sofNext d"
    using assms by (simp_all add: e_def dcf_inv_defs cfg)
  let ?c = "(vt e)\<lparr>dc_lastLeapWarn := w\<rparr>" and ?n = "e\<lparr>dc_lastLeapWarn := w\<rparr>"
  have c: "dcf_bounds ?c" "dcf_code_ok ?c" "dcf_kept ?c = dcf_kept d" "dc_anchored ?c" "dc_haveLastFrame ?c" "dc_leapMinute ?c = dc_leapMinute d"
      "locked (env_ref env) v \<Longrightarrow> dcf_certified ?c" "dc_sofNext ?c = dc_sofNext d"
    and n: "dcf_bounds ?n" "dcf_code_ok ?n" "dcf_kept ?n = dcf_kept d" "dc_anchored ?n" "dc_sofNext ?n = dc_sofNext d"
    using e by (auto simp add: vt_def dcf_inv_defs)
  have form: "dcf_vote env confirmed dec d =
      (if locked (env_ref env) v
       then if confirmed \<and> \<not> (dc_leapMinute d \<or> (case dec of Some (x, c) \<Rightarrow> (eu_leapWarn x \<or> dc_lastLeapWarn d) \<and> leapSecondPossible (eu_utc x) | None \<Rightarrow> False))
            then dcf_setLockState LsLocked (?c\<lparr>dc_haveVoted := True\<rparr>) else dcf_demote ?c
       else dcf_demote ?n)"
  proof -
    have "dcf_vote env confirmed dec d =
      (let d' = (if locked (env_ref env) v then vt e else e);
           leapNext = (dc_leapMinute d' \<or> (case dec of Some (x, c) \<Rightarrow> (eu_leapWarn x \<or> dc_lastLeapWarn d') \<and> leapSecondPossible (eu_utc x) | None \<Rightarrow> False));
           d' = d'\<lparr>dc_lastLeapWarn := w\<rparr>
       in if locked (env_ref env) v \<and> confirmed \<and> \<not> leapNext then dcf_setLockState LsLocked (d'\<lparr>dc_haveVoted := True\<rparr>) else dcf_demote d')"
      unfolding dcf_vote_def Let_def v_def w_def e_def vt_def dcf_emit_simps DcfDecoder.simps by (rule refl)
    moreover have "dc_leapMinute (vt e) = dc_leapMinute d" "dc_lastLeapWarn (vt e) = dc_lastLeapWarn d" "dc_leapMinute e = dc_leapMinute d" "dc_lastLeapWarn e = dc_lastLeapWarn d"
      by (simp_all add: vt_def e_def)
    ultimately show ?thesis by (cases "locked (env_ref env) v") (simp_all only: Let_def if_True if_False simp_thms)
  qed
  show thesis using form certified[of ?c] not_certified[of ?c] not_certified[of ?n] c n by (auto split: if_splits)
qed

lemma dcf_vote_ended:
  assumes "dcf_bounds d" "dcf_code_ok d" "dc_anchored d"
  shows "dcf_ended d (dcf_vote env confirmed dec d)"
  by (cases rule: dcf_vote_cases[OF assms, where env = env and confirmed = confirmed and dec = dec])
     (simp_all add: dcf_ended_def dcf_inv_defs)

lemma dcf_dropped_ended:
  assumes "dcf_bounds d" "dcf_kept d' = dcf_kept d" "dc_polarity d' \<in> {1, -1}"
  shows "dcf_ended d (dcf_demote (dcf_dropAnchor d'))"
proof -
  have "dcf_bounds (dcf_dropAnchor d')" "dcf_code_ok (dcf_dropAnchor d')" "dcf_kept (dcf_dropAnchor d') = dcf_kept d"
    using dcf_dropAnchor_ok(1-3)[of d'] assms(2,3) by simp_all
  then show ?thesis by (simp add: dcf_ended_def dcf_inv_defs dcf_dropAnchor_def)
qed

lemma dcf_finalizeFrame_ended:
  assumes "dcf_bounds d" "dcf_code_ok d" "dc_anchored d"
  shows "dcf_ended d (dcf_finalizeFrame env d)"
proof -
  let ?l = "learnPolarity d"
  have l: "dcf_bounds ?l" "dcf_code_ok ?l" "dc_anchored ?l" "dcf_kept ?l = dcf_kept d" "dc_polarity ?l \<in> {1, -1}"
    using dcf_learnPolarity_ok[of d] assms by (simp_all add: dcf_bounds_def)
  have upd: "dcf_kept (?l\<lparr>dc_unconfirmedRun := x\<rparr>) = dcf_kept d" for x using l(4) by (simp add: dcf_kept_def)
  have vote: "dcf_ended d (dcf_vote env c dec (dcf_predict used (?l\<lparr>dc_unconfirmedRun := x, dc_prevFrameFrom := y, dc_lastFrameFrom := z\<rparr>)))"
    if "0 \<le> x" "x \<le> 2" for c dec used x y z
  proof -
    let ?d = "?l\<lparr>dc_unconfirmedRun := x, dc_prevFrameFrom := y, dc_lastFrameFrom := z\<rparr>"
    have d: "dcf_bounds ?d" "dcf_code_ok ?d" "dc_anchored ?d" "dcf_kept ?d = dcf_kept d" using l that by (simp_all add: dcf_inv_defs)
    then show ?thesis using dcf_vote_ended[of "dcf_predict used ?d" env c dec] dcf_predict_ok[where d = ?d and dec = used] dcf_learnPolarity_ok(8)[of d] by (simp add: dcf_ended_def)
  qed
  have run: "0 \<le> dc_unconfirmedRun ?l" "dc_unconfirmedRun ?l \<le> 2" using l(1) by (simp_all add: dcf_bounds_def)
  consider "dcf_contradicted ?l" | "dc_frFilled ?l < 60" "\<not> dcf_contradicted ?l" | "\<not> dcf_contradicted ?l" "\<not> dc_frFilled ?l < 60" "dcf_confirmed ?l"
    | "\<not> dcf_contradicted ?l" "\<not> dc_frFilled ?l < 60" "\<not> dcf_confirmed ?l" by blast
  then show ?thesis
  proof cases
    case 1
    then show ?thesis using dcf_dropped_ended[OF assms(1) l(4,5)] by (simp add: dcf_finalizeFrame_def Let_def)
  next
    case 2
    then show ?thesis using dcf_dropped_ended[OF assms(1) l(4,5)] by (simp add: dcf_finalizeFrame_def Let_def)
  next
    case 3
    then show ?thesis using vote[of 0] by (simp add: dcf_finalizeFrame_def Let_def split: prod.split)
  next
    case 4
    show ?thesis
    proof (cases "2 < dc_unconfirmedRun ?l + 1")
      case True
      then show ?thesis using 4 dcf_dropped_ended[OF assms(1) upd, of "dc_unconfirmedRun ?l + 1"] l(5)
        by (simp add: dcf_finalizeFrame_def Let_def dcf_kMaxUnconfirmedMinutes_def)
    next
      case False
      then show ?thesis using 4 vote[of "dc_unconfirmedRun ?l + 1"] run
        by (simp add: dcf_finalizeFrame_def Let_def dcf_kMaxUnconfirmedMinutes_def dcf_use_def)
    qed
  qed
qed

section \<open>One second\<close>

lemma pmSyncHere_cases:
  assumes "pmSyncHere d = (sync, d')"
  obtains p k where "d' = d\<lparr>dc_polarity := p, dc_polarityKnown := k\<rparr>" "p \<in> {dc_polarity d, 1, -1}" "sync \<Longrightarrow> 16 \<le> length (dc_hist d)"
proof -
  have same: "d = d\<lparr>dc_polarity := dc_polarity d, dc_polarityKnown := dc_polarityKnown d\<rparr>" by simp
  have "d' = d \<or> d' = d\<lparr>dc_polarity := 1, dc_polarityKnown := True\<rparr> \<or> d' = d\<lparr>dc_polarity := -1, dc_polarityKnown := True\<rparr>"
    "sync \<Longrightarrow> 16 \<le> length (dc_hist d)"
    using assms by (simp_all add: pmSyncHere_def Let_def split: if_splits)
  then show thesis using that same by (metis insertCI)
qed

lemma dcf_unanchored_ok:
  assumes "dcf_bounds d" "dcf_lock_ok d" "dcf_code_ok d" "\<not> dc_anchored d" "dcf_unanchored env d = (sof, record', d')"
  shows "dcf_lock_ok d' \<and> dcf_code_ok d' \<and> dcf_kept d' = dcf_kept d \<and> \<not> dc_haveVoted d'"
    "if record' then sof = 14 \<and> dc_anchored d' \<and> dc_sofNext d' = 15 \<and> dc_frFilled d' = 14 \<and> dcf_bounds (d'\<lparr>dc_frFilled := 15\<rparr>) else dcf_bounds d'"
proof -
  obtain sync d1 where s: "pmSyncHere d = (sync, d1)" by (metis surj_pair)
  obtain p k where d1: "d1 = d\<lparr>dc_polarity := p, dc_polarityKnown := k\<rparr>" and p: "p \<in> {dc_polarity d, 1, -1}" and l: "sync \<Longrightarrow> 16 \<le> length (dc_hist d)"
    using pmSyncHere_cases[OF s] by blast
  have p1: "p \<in> {1, -1}" using p assms(1) by (auto simp: dcf_bounds_def)
  have nv: "\<not> dc_haveVoted d" "\<not> dc_codeKnown d" "dc_lockState d \<noteq> LsLocked" using assms(2-4) by (auto simp: dcf_lock_ok_def dcf_code_ok_def)
  note un = assms(5)[unfolded dcf_unanchored_def s prod.case Let_def]
  consider (sync) "sync" | (marker) "\<not> sync" "amMarkerHere (env_contrast env) d1" | (none) "\<not> sync" "\<not> amMarkerHere (env_contrast env) d1" by blast
  then have "(dcf_lock_ok d' \<and> dcf_code_ok d' \<and> dcf_kept d' = dcf_kept d \<and> \<not> dc_haveVoted d') \<and>
    (if record' then sof = 14 \<and> dc_anchored d' \<and> dc_sofNext d' = 15 \<and> dc_frFilled d' = 14 \<and> dcf_bounds (d'\<lparr>dc_frFilled := 15\<rparr>) else dcf_bounds d')"
  proof cases
    case sync
    define fr where "fr = take 14 (drop (length (dc_hist d1) - 15) (dc_hist d1)) @ drop 14 (dc_frame d1)"
    have "length fr = 60" using l[OF sync] assms(1) by (simp add: fr_def d1 dcf_bounds_def)
    moreover define x where "x = ds_edge (dc_hist d1 ! (length (dc_hist d1) - 15))"
    have "record'" "sof = 14" "d' = d1\<lparr>dc_anchored := True, dc_sofNext := 15, dc_frStart := x, dc_frFilled := 14, dc_frame := fr\<rparr>"
      using un sync by (auto simp: fr_def x_def)
    ultimately show ?thesis using p1 nv assms(1) by (simp only: if_True) (simp add: dcf_inv_defs d1)
  next
    case marker
    then have "\<not> record'" "d' = d1\<lparr>dc_anchored := True, dc_sofNext := 0\<rparr>" using un by auto
    then show ?thesis using p1 nv assms(1) by (simp add: dcf_inv_defs d1)
  next
    case none
    then have "\<not> record'" "d' = d1" using un by auto
    then show ?thesis using p1 nv assms(1,2) by (simp add: dcf_inv_defs d1)
  qed
  then show "dcf_lock_ok d' \<and> dcf_code_ok d' \<and> dcf_kept d' = dcf_kept d \<and> \<not> dc_haveVoted d'"
    "if record' then sof = 14 \<and> dc_anchored d' \<and> dc_sofNext d' = 15 \<and> dc_frFilled d' = 14 \<and> dcf_bounds (d'\<lparr>dc_frFilled := 15\<rparr>) else dcf_bounds d'"
    by blast+
qed

lemma checkStructure_ok:
  "dcf_bounds d \<Longrightarrow> dcf_bounds (checkStructure hc r sof d)" "dcf_lock_ok d \<Longrightarrow> dcf_lock_ok (checkStructure hc r sof d)"
  "dcf_code_ok (checkStructure hc r sof d) = dcf_code_ok d" "dcf_kept (checkStructure hc r sof d) = dcf_kept d"
  "dc_anchored (checkStructure hc r sof d) = dc_anchored d" "dc_sofNext (checkStructure hc r sof d) = dc_sofNext d"
  "dc_frFilled (checkStructure hc r sof d) = dc_frFilled d" "dc_frame (checkStructure hc r sof d) = dc_frame d"
  by (simp_all add: checkStructure_def Let_def dcf_inv_defs)

text \<open>A decoder that is about to record its second \<open>sof\<close>.\<close>

definition dcf_recording :: "int \<Rightarrow> DcfDecoder \<Rightarrow> bool" where
  "dcf_recording sof d \<longleftrightarrow> 0 \<le> sof \<and> sof \<le> 59 \<and> dc_anchored d \<and> dc_sofNext d = sof + 1 \<and> dc_frFilled d = sof \<and> dcf_bounds (d\<lparr>dc_frFilled := sof + 1\<rparr>)
     \<and> dcf_code_ok d \<and> (dc_lockState d = LsLocked \<longleftrightarrow> dc_haveVoted d) \<and> (dc_haveVoted d \<longrightarrow> dc_haveLastFrame d \<and> dcf_certified d)"

lemma dcf_anchored_second_ok:
  assumes "dcf_bounds d" "dcf_lock_ok d" "dcf_code_ok d" "dc_anchored d" "dcf_anchored_second env r d = (sof, record', d')"
  shows "dcf_kept d' = dcf_kept d" "record' \<Longrightarrow> dcf_recording sof d'"
    "\<not> record' \<Longrightarrow> sof = 60 \<and> dcf_bounds d' \<and> dcf_lock_ok d' \<and> dcf_code_ok d' \<and> \<not> dc_haveVoted d'"
proof -
  let ?s = "dc_sofNext d"
  have s: "0 \<le> ?s" "?s \<le> 60" "?s \<noteq> 0 \<Longrightarrow> dc_frFilled d = ?s" using assms(1) by (simp_all add: dcf_bounds_def)
  define d1 where "d1 = (if ?s = 0 then d\<lparr>dc_frStart := ds_edge r, dc_frFilled := 0\<rparr> else d)"
  have d1: "dcf_bounds d1" "dcf_lock_ok d1" "dcf_code_ok d1" "dcf_kept d1 = dcf_kept d" "dc_anchored d1" "dc_sofNext d1 = ?s" "dc_frFilled d1 = ?s"
    using assms(1-4) s(3) by (auto simp: d1_def dcf_inv_defs)
  define d2 where "d2 = (if dc_lockState d1 = LsLocked then checkStructure (env_contrast env) r ?s d1 else d1)"
  have d2: "dcf_bounds d2" "dcf_lock_ok d2" "dcf_code_ok d2" "dcf_kept d2 = dcf_kept d" "dc_anchored d2" "dc_sofNext d2 = ?s" "dc_frFilled d2 = ?s"
    using checkStructure_ok[where d = d1 and hc = "env_contrast env" and r = r and sof = ?s] d1 by (simp_all add: d2_def)
  have form: "dcf_anchored_second env r d = (if ?s = 60 then (?s, False, d2\<lparr>dc_leapInserted := True, dc_sofNext := 0\<rparr>) else (?s, True, d2\<lparr>dc_sofNext := ?s + 1\<rparr>))"
    unfolding dcf_anchored_second_def Let_def d1_def[symmetric] d2_def[symmetric] by (rule refl)
  have nv: "?s = 60 \<Longrightarrow> \<not> dc_haveVoted d2 \<and> dc_lockState d2 \<noteq> LsLocked" using d2(2,6) by (auto simp: dcf_lock_ok_def)
  show "dcf_kept d' = dcf_kept d" using assms(5) d2(4) unfolding form by (auto simp: dcf_untouched split: if_splits)
  show "dcf_recording sof d'" if "record'"
  proof -
    have d': "d' = d2\<lparr>dc_sofNext := sof + 1\<rparr>" "sof = ?s" "?s \<noteq> 60" using assms(5) form that by (auto split: if_splits)
    have "dcf_bounds (d2\<lparr>dc_sofNext := sof + 1, dc_frFilled := sof + 1\<rparr>)" using d2(1) s d'(2,3) by (simp add: dcf_bounds_def)
    moreover have "dcf_code_ok d'" using d2(3) by (simp add: d'(1) dcf_code_ok_def)
    moreover have "dcf_certified d' = dcf_certified d2" by (simp add: d'(1) dcf_certified_def)
    ultimately show ?thesis using d2(2,5,7) s(1,2) d'(2,3) by (simp add: dcf_recording_def d'(1) dcf_lock_ok_def)
  qed
  show "sof = 60 \<and> dcf_bounds d' \<and> dcf_lock_ok d' \<and> dcf_code_ok d' \<and> \<not> dc_haveVoted d'" if "\<not> record'"
  proof -
    have d': "d' = d2\<lparr>dc_leapInserted := True, dc_sofNext := 0\<rparr>" "sof = ?s" "?s = 60" using assms(5) form that by (auto split: if_splits)
    then show ?thesis using d2(1,3) nv by (simp add: dcf_bounds_def dcf_lock_ok_def dcf_code_ok_def)
  qed
qed

lemma dcf_next_minute:
  assumes "dcf_ended d e" "dc_anchored e" "dc_sofNext d = 60"
  defines "e' \<equiv> e\<lparr>dc_sofNext := (if dc_leapMinute e then 60 else 0)\<rparr>"
  shows "dcf_bounds e' \<and> dcf_lock_ok e' \<and> dcf_code_ok e' \<and> dcf_kept e' = dcf_kept d"
proof -
  have e: "dcf_bounds e" "dcf_code_ok e" "dcf_kept e = dcf_kept d" "dc_lockState e = LsLocked \<longleftrightarrow> dc_haveVoted e" "dc_sofNext e = 60"
    "dc_haveVoted e \<Longrightarrow> dc_haveLastFrame e \<and> \<not> dc_leapMinute e \<and> dcf_certified e"
    using assms(1-3) by (simp_all add: dcf_ended_def)
  have "dcf_bounds e'" using e(1,5) by (simp add: e'_def dcf_bounds_def)
  moreover have "dcf_lock_ok e'" using e(4,6) assms(2) by (auto simp: e'_def dcf_lock_ok_def dcf_untouched)
  moreover have "dcf_code_ok e'" using e(2) by (simp add: e'_def dcf_code_ok_def)
  ultimately show ?thesis using e(3) by (simp add: e'_def dcf_untouched)
qed

lemma dcf_record_ok:
  assumes "dcf_recording sof d"
  shows "dcf_bounds (dcf_record env r sof d) \<and> dcf_lock_ok (dcf_record env r sof d) \<and> dcf_code_ok (dcf_record env r sof d)
    \<and> dcf_kept (dcf_record env r sof d) = dcf_kept d"
proof -
  define d1 where "d1 = d\<lparr>dc_frame := (dc_frame d)[nat sof := r], dc_frFilled := dc_frFilled d + 1\<rparr>"
  define d2 where "d2 = (if sof = 58 then d1\<lparr>dc_leapMinute := tentativeLeapMinute d1\<rparr> else d1)"
  have r: "0 \<le> sof" "dc_frFilled d = sof" "dc_sofNext d = sof + 1" "dcf_bounds (d\<lparr>dc_frFilled := sof + 1\<rparr>)" "dcf_code_ok d" "dc_anchored d"
    and v: "dc_lockState d = LsLocked \<longleftrightarrow> dc_haveVoted d" "dc_haveVoted d \<Longrightarrow> dc_haveLastFrame d \<and> dcf_certified d"
    using assms by (simp_all only: dcf_recording_def) 
  have "dcf_bounds d1" using r(4) unfolding d1_def r(2) by (simp add: dcf_bounds_def)
  moreover have "dcf_code_ok d1" "dcf_kept d1 = dcf_kept d" using r(5) by (simp_all add: d1_def dcf_untouched)
  moreover have "dc_anchored d1" "dc_sofNext d1 = sof + 1" using r(3,6) by (simp_all add: d1_def)
  moreover have "sof \<noteq> 59 \<Longrightarrow> dcf_lock_ok d1" using v r(3,6) by (simp add: dcf_lock_ok_def d1_def dcf_untouched)
  ultimately have d2: "dcf_bounds d2" "dcf_code_ok d2" "dcf_kept d2 = dcf_kept d" "dc_anchored d2" "dc_sofNext d2 = sof + 1" "sof \<noteq> 59 \<Longrightarrow> dcf_lock_ok d2"
    unfolding d2_def by (cases "sof = 58"; simp add: dcf_inv_defs)+
  have form: "dcf_record env r sof d = (if sof = 59 then let e = dcf_finalizeFrame env d2
      in if dc_anchored e then e\<lparr>dc_sofNext := (if dc_leapMinute e then 60 else 0)\<rparr> else e else d2)"
    unfolding dcf_record_def Let_def d1_def[symmetric] d2_def[symmetric] by (rule refl)
  show ?thesis
  proof (cases "sof = 59")
    case True
    let ?e = "dcf_finalizeFrame env d2"
    have e: "dcf_ended d2 ?e" by (rule dcf_finalizeFrame_ended[OF d2(1,2,4)])
    show ?thesis
    proof (cases "dc_anchored ?e")
      case False
      then show ?thesis using e d2(3) True unfolding form by (auto simp: dcf_ended_def dcf_lock_ok_def)
    next
      case anchored: True
      then show ?thesis using dcf_next_minute[OF e anchored] d2(3,5) True unfolding form by (simp add: Let_def)
    qed
  qed (use d2 form in simp)
qed

definition dcf_ok :: "VoterConfig \<Rightarrow> DcfDecoder \<Rightarrow> bool" where
  "dcf_ok cfg d \<longleftrightarrow> dcf_bounds d \<and> dcf_lock_ok d \<and> dcf_code_ok d \<and> dcf_times_ok cfg d"

lemma dcf_ok_kept:
  assumes "dcf_kept d' = dcf_kept d" "dcf_bounds d'" "dcf_lock_ok d'" "dcf_code_ok d'" "dcf_times_ok cfg d"
  shows "dcf_ok cfg d'"
proof -
  have "OnTime t \<in> set (dc_out d') \<longleftrightarrow> OnTime t \<in> set (dc_out d)" for t using assms(1) by (simp add: dcf_kept_def set_eq_iff)
  moreover have "tv_cfg (dc_voter d') = tv_cfg (dc_voter d)" using assms(1) by (simp add: dcf_kept_def)
  ultimately show ?thesis using assms(2-5) by (simp add: dcf_ok_def dcf_times_ok_def)
qed

lemma dcf_emit_ok:
  "dcf_bounds (dcf_emit ev d) = dcf_bounds d" "dcf_lock_ok (dcf_emit ev d) = dcf_lock_ok d" "dcf_code_ok (dcf_emit ev d) = dcf_code_ok d"
  "dcf_recording sof (dcf_emit ev d) = dcf_recording sof d"
  "dcf_times_ok cfg (dcf_emit ev d) \<longleftrightarrow> dcf_times_ok cfg d \<and> (\<forall>t. ev = OnTime t \<longrightarrow> time_certified StDcf77 cfg t)"
  by (auto simp: dcf_bounds_def dcf_lock_ok_def dcf_code_ok_def dcf_recording_def dcf_certified_def dcf_times_ok_def)

lemma dcf_handleSecond_ok:
  assumes "dcf_ok cfg d"
  shows "dcf_ok cfg (dcf_handleSecond env r m d) \<and> dc_blindSeconds (dcf_handleSecond env r m d) = dc_blindSeconds d
    \<and> dc_hist (dcf_handleSecond env r m d) = dc_hist d \<and> dc_segValid (dcf_handleSecond env r m d) = dc_segValid d"
proof -
  have ok: "dcf_bounds d" "dcf_lock_ok d" "dcf_code_ok d" "dcf_times_ok cfg d" using assms by (simp_all add: dcf_ok_def)
  obtain sof rec' d1 where n: "(if \<not> dc_anchored d then dcf_unanchored env d else dcf_anchored_second env r d) = (sof, rec', d1)" by (metis prod_cases3)
  define d2 where "d2 = dcf_emit (OnSecond (dcf_second_info env r m sof)) d1"
  define d3 where "d3 = (if rec' then dcf_record env r sof d2 else d2)"
  have k1: "dcf_kept d1 = dcf_kept d" and r1: "rec' \<Longrightarrow> dcf_recording sof d1"
    and s1: "\<not> rec' \<Longrightarrow> dcf_bounds d1 \<and> dcf_lock_ok d1 \<and> dcf_code_ok d1 \<and> \<not> dc_haveVoted d1"
  proof -
    have un: "dcf_kept d1 = dcf_kept d \<and> (rec' \<longrightarrow> dcf_recording sof d1) \<and> (\<not> rec' \<longrightarrow> dcf_bounds d1 \<and> dcf_lock_ok d1 \<and> dcf_code_ok d1 \<and> \<not> dc_haveVoted d1)"
      if "\<not> dc_anchored d"
      using dcf_unanchored_ok[OF ok(1-3) that, of env sof rec' d1] n that by (cases rec') (simp_all add: dcf_recording_def dcf_lock_ok_def)
    have "dcf_kept d1 = dcf_kept d \<and> (rec' \<longrightarrow> dcf_recording sof d1) \<and> (\<not> rec' \<longrightarrow> dcf_bounds d1 \<and> dcf_lock_ok d1 \<and> dcf_code_ok d1 \<and> \<not> dc_haveVoted d1)"
      if "dc_anchored d"
      using dcf_anchored_second_ok[OF ok(1-3) that, of env r sof rec' d1] n that by simp
    with un show "dcf_kept d1 = dcf_kept d" "rec' \<Longrightarrow> dcf_recording sof d1"
      "\<not> rec' \<Longrightarrow> dcf_bounds d1 \<and> dcf_lock_ok d1 \<and> dcf_code_ok d1 \<and> \<not> dc_haveVoted d1" by blast+
  qed
  have k2: "dcf_kept d2 = dcf_kept d" using k1 by (simp add: d2_def dcf_kept_def)
  have "dcf_bounds d3 \<and> dcf_lock_ok d3 \<and> dcf_code_ok d3 \<and> dcf_kept d3 = dcf_kept d"
    using dcf_record_ok[of sof d2 env r] r1 s1 k2 by (simp add: d3_def d2_def dcf_emit_ok)
  then have d3: "dcf_ok cfg d3" "dcf_kept d3 = dcf_kept d" using dcf_ok_kept[OF _ _ _ _ ok(4)] by blast+
  have range: "0 \<le> sof \<and> sof < 60" if "dc_haveVoted d3"
    using that r1 s1 by (auto simp: d3_def d2_def dcf_recording_def split: if_splits)
  have cert: "time_certified StDcf77 cfg (dcf_time_info r sof d3)" if "dc_haveVoted d3"
    using that range d3(1) by (auto simp: time_certified_def dcf_time_info_def dcf_ok_def dcf_lock_ok_def dcf_certified_def dcf_times_ok_def)
  have "dcf_handleSecond env r m d = (if dc_lockState d3 = LsLocked \<and> dc_haveVoted d3 then dcf_emit (OnTime (dcf_time_info r sof d3)) d3 else d3)"
    unfolding dcf_handleSecond_def n Let_def prod.case d2_def[symmetric] d3_def[symmetric] by (rule refl)
  then show ?thesis using d3 cert by (auto simp: dcf_ok_def dcf_emit_ok dcf_kept_def)
qed

lemma dcf_untouched_ok:
  "dcf_ok cfg (d\<lparr>dc_blindSeconds := n\<rparr>) = dcf_ok cfg d" "dcf_ok cfg (d\<lparr>dc_hist := hs\<rparr>) = dcf_ok cfg d"
  "dcf_ok cfg (d\<lparr>dc_segValid := b\<rparr>) = dcf_ok cfg d" "dcf_ok cfg (d\<lparr>dc_scanPos := k\<rparr>) = dcf_ok cfg d"
  by (simp_all add: dcf_ok_def dcf_inv_defs)

lemma dcf_given_up_ok:
  assumes "dcf_ok cfg d"
  shows "dcf_ok cfg (dcf_dropAnchor (if dc_lockState d = LsLocked then dcf_setLockState LsAcquiring d else d))"
proof -
  let ?e = "if dc_lockState d = LsLocked then dcf_setLockState LsAcquiring d else d"
  have "dc_polarity ?e \<in> {1, -1}" "dc_lockState ?e \<noteq> LsLocked" "dcf_times_ok cfg ?e"
    using assms by (auto simp: dcf_ok_def dcf_bounds_def dcf_times_ok_def)
  then show ?thesis
    using dcf_dropAnchor_ok[where d = ?e] by (intro dcf_ok_kept[of _ ?e]) (simp_all add: dcf_lock_ok_def)
qed

lemma dcf_second_ok:
  assumes "dcf_ok cfg d" "length (dc_hist d) \<le> 64" "0 \<le> dc_blindSeconds d"
  shows "dcf_ok cfg (dcf_second env r m heard d) \<and> length (dc_hist (dcf_second env r m heard d)) \<le> 64
    \<and> 0 \<le> dc_blindSeconds (dcf_second env r m heard d) \<and> dc_blindSeconds (dcf_second env r m heard d) < 90"
proof -
  define d1 where "d1 = d\<lparr>dc_blindSeconds := (if heard then 0 else dc_blindSeconds d + 1),
    dc_hist := (if 64 < length (dc_hist d @ [r]) then tl (dc_hist d @ [r]) else dc_hist d @ [r])\<rparr>"
  define d2 where "d2 = dcf_handleSecond env r m d1"
  have "dcf_ok cfg d1" using assms(1) by (simp add: d1_def dcf_untouched_ok)
  from dcf_handleSecond_ok[OF this, of env r m]
  have d2: "dcf_ok cfg d2" "dc_blindSeconds d2 = dc_blindSeconds d1" "dc_hist d2 = dc_hist d1" by (simp_all add: d2_def)
  let ?e = "if dc_lockState d2 = LsLocked then dcf_setLockState LsAcquiring d2 else d2"
  let ?g = "(dcf_dropAnchor (?e\<lparr>dc_segValid := False, dc_scanPos := 0, dc_blindSeconds := 0\<rparr>))\<lparr>dc_hist := []\<rparr>"
  have form: "dcf_second env r m heard d = (if 90 \<le> dc_blindSeconds d2 then ?g else d2)"
    by (simp add: dcf_second_def Let_def d2_def d1_def dcf_kMaxBlindSeconds_def)
  have "?g = (dcf_dropAnchor ?e)\<lparr>dc_segValid := False, dc_scanPos := 0, dc_blindSeconds := 0, dc_hist := []\<rparr>" by (simp add: dcf_dropAnchor_def)
  then have g: "dcf_ok cfg ?g" using dcf_given_up_ok[OF d2(1)] by (simp only: dcf_untouched_ok)
  have "length (dc_hist d1) \<le> 64" "0 \<le> dc_blindSeconds d1" using assms(2,3) by (auto simp: d1_def)
  then show ?thesis using form d2 g by (cases "90 \<le> dc_blindSeconds d2") (simp_all add: dcf_dropAnchor_def)
qed

section \<open>The trackers\<close>

text \<open>PM is held on its evidence just when it is locked and has missed ten; it times seconds only when locked.\<close>

definition dcf_track_ok :: "DcfTrack \<Rightarrow> bool" where
  "dcf_track_ok k \<longleftrightarrow> length (tk_pmEv k) \<le> 30 \<and> ev_clipped (tk_pmEv k) \<and> 0 \<le> tk_pmMiss k
     \<and> (tk_pmHolding k \<longleftrightarrow> tk_pmLocked k \<and> 10 \<le> tk_pmMiss k) \<and> (tk_timingFromPm k \<longrightarrow> tk_pmLocked k \<and> dt_valid (tk_pmTrk k))
     \<and> (ap_valid (tk_aidPending k) \<longrightarrow> \<not> tk_pmLocked k \<and> ap_sign (tk_aidPending k) \<in> {1, -1})"

lemma dcf_pmEvidence_ok:
  assumes "dcf_track_ok k" "0 \<le> dm_pmSnr m" "dc_polarity d \<in> {1, -1}"
  defines "e \<equiv> dcf_pmEvidence m d k"
  shows "length (tk_pmEv e) \<le> 30" "ev_clipped (tk_pmEv e)" "0 \<le> tk_pmMiss e" "tk_aidPending e = tk_aidPending k" "tk_pmLocked e \<Longrightarrow> tk_pmLocked k"
  using assms(1) pushPmEvidence_length[of "tk_pmEv k"] pushPmEvidence_clipped[OF _ assms(2,3), of "tk_pmEv k"]
  by (auto simp: e_def dcf_pmEvidence_def Let_def dcf_track_ok_def ev_clipped_def)

lemma dcf_track_kept:
  "tk_pmEv (dcf_track m d k) = tk_pmEv (dcf_pmEvidence m d k)" "tk_pmMiss (dcf_track m d k) = tk_pmMiss (dcf_pmEvidence m d k)"
  "tk_pmLocked (dcf_track m d k) = tk_pmLocked (dcf_pmEvidence m d k)" "tk_aidPending (dcf_track m d k) = tk_aidPending (dcf_pmEvidence m d k)"
  "tk_pmHolding (dcf_track m d k) = (tk_pmLocked (dcf_pmEvidence m d k) \<and> 10 \<le> tk_pmMiss (dcf_pmEvidence m d k))"
  "tk_timingFromPm (dcf_track m d k) \<Longrightarrow> tk_pmLocked (dcf_track m d k) \<and> dt_valid (tk_pmTrk (dcf_track m d k))"
  by (simp_all add: dcf_track_def Let_def kPmMissLimit_def)

lemma dcf_track_step:
  assumes "dcf_track_ok k" "0 \<le> dm_pmSnr m" "dc_polarity d \<in> {1, -1}"
  shows "dcf_track_ok (dcf_track m d k)"
  using dcf_pmEvidence_ok[OF assms] dcf_track_kept[of m d k] assms(1) unfolding dcf_track_ok_def by metis

definition dcf77_ok :: "VoterConfig \<Rightarrow> Dcf77 \<Rightarrow> bool" where
  "dcf77_ok cfg x \<longleftrightarrow> dcf_ok cfg (dx_fr x) \<and> length (dc_hist (dx_fr x)) \<le> 64 \<and> 0 \<le> dc_blindSeconds (dx_fr x) \<and> dc_blindSeconds (dx_fr x) < 90
     \<and> dcf_track_ok (dx_tk x)"

lemma dcf_pmLockAt_ok:
  assumes "dcf77_ok cfg x" "\<not> tk_pmLocked (dx_tk x)"
  shows "dcf77_ok cfg (dcf_pmLockAt tau P x)" "\<not> tk_timingFromPm (dx_tk (dcf_pmLockAt tau P x))" "\<not> ap_valid (tk_aidPending (dx_tk (dcf_pmLockAt tau P x)))"
proof -
  let ?d = "dx_fr x" and ?k = "dx_tk x"
  define k where "k = ?k\<lparr>tk_pmLocked := True, tk_pmMiss := 0, tk_pmEv := [], tk_aidPending := no_AidPending, tk_pmTrk := dt_reset (tk_pmTrk ?k)\<rparr>"
  have d: "dcf_ok cfg ?d" "length (dc_hist ?d) \<le> 64" "0 \<le> dc_blindSeconds ?d" "dc_blindSeconds ?d < 90" using assms(1) by (simp_all add: dcf77_ok_def)
  have off: "\<not> tk_timingFromPm ?k" "\<not> tk_pmHolding ?k" using assms by (auto simp: dcf77_ok_def dcf_track_ok_def)
  then have k: "dcf_track_ok k" "dcf_track_ok (k\<lparr>tk_pmLocked := False, tk_pmRefusedLocks := a\<rparr>)" "dcf_track_ok (k\<lparr>tk_segEdge := b, tk_amTrk := t\<rparr>)"
      "dcf_track_ok (k\<lparr>tk_amTrk := t, tk_segEdge := b\<rparr>)" "dcf_track_ok (k\<lparr>tk_segEdge := b\<rparr>)" for a b t
    by (simp_all add: k_def dcf_track_ok_def no_AidPending_def ev_clipped_def)
  let ?e = "if dc_lockState ?d = LsLocked then dcf_setLockState LsAcquiring ?d else ?d"
  have e: "dc_blindSeconds (dcf_dropAnchor ?e) = dc_blindSeconds ?d" by (simp add: dcf_dropAnchor_def)
  obtain fr tk where form: "dcf_pmLockAt tau P x = \<lparr>dx_fr = fr, dx_tk = tk\<rparr>" "fr \<in> {?d\<lparr>dc_segValid := True, dc_hist := []\<rparr>, ?d, (dcf_dropAnchor ?e)\<lparr>dc_hist := []\<rparr>}"
    "dcf_track_ok tk" "tk_timingFromPm tk = tk_timingFromPm ?k" "tk_aidPending tk = no_AidPending"
  proof (rule that)
    show "dcf_pmLockAt tau P x = \<lparr>dx_fr = dx_fr (dcf_pmLockAt tau P x), dx_tk = dx_tk (dcf_pmLockAt tau P x)\<rparr>" by simp
    note df = dcf_pmLockAt_def[of tau P x, unfolded Let_def, folded k_def]
    show "dx_fr (dcf_pmLockAt tau P x) \<in> {?d\<lparr>dc_segValid := True, dc_hist := []\<rparr>, ?d, (dcf_dropAnchor ?e)\<lparr>dc_hist := []\<rparr>}"
      unfolding df by simp
    show "dcf_track_ok (dx_tk (dcf_pmLockAt tau P x))" unfolding df by (simp add: k)
    show "tk_timingFromPm (dx_tk (dcf_pmLockAt tau P x)) = tk_timingFromPm ?k" "tk_aidPending (dx_tk (dcf_pmLockAt tau P x)) = no_AidPending"
      unfolding df by (simp_all add: k_def)
  qed
  have "dcf_ok cfg fr \<and> length (dc_hist fr) \<le> 64 \<and> 0 \<le> dc_blindSeconds fr \<and> dc_blindSeconds fr < 90"
    using form(2) d dcf_given_up_ok[OF d(1)] e by (auto simp: dcf_untouched_ok simp del: if_split)
  then show "dcf77_ok cfg (dcf_pmLockAt tau P x)" using form(1,3) by (simp add: dcf77_ok_def)
  show "\<not> tk_timingFromPm (dx_tk (dcf_pmLockAt tau P x))" "\<not> ap_valid (tk_aidPending (dx_tk (dcf_pmLockAt tau P x)))"
    using form(1,4,5) off by (simp_all add: no_AidPending_def)
qed

lemma dcf_polarity_ok: "dcf_ok cfg d \<Longrightarrow> p \<in> {1, -1} \<Longrightarrow> dcf_ok cfg (d\<lparr>dc_polarity := p, dc_polarityKnown := b\<rparr>)"
  by (simp add: dcf_ok_def dcf_inv_defs)

lemma dcf_aidedLock_ok:
  assumes "dcf77_ok cfg x" "\<not> tk_pmLocked (dx_tk x)" "fst (snd (snd won)) \<in> {1, -1}"
  shows "dcf77_ok cfg (dcf_aidedLock won x)"
proof -
  obtain tau P sign score where won: "won = (tau, P, sign, score)" by (metis prod_cases4)
  let ?x = "dcf_pmLockAt tau P x"
  note l = dcf_pmLockAt_ok[OF assms(1,2), of tau P]
  have pol: "dcf_ok cfg ((dx_fr ?x)\<lparr>dc_polarity := sign, dc_polarityKnown := True\<rparr>)"
    using l(1) assms(3) by (intro dcf_polarity_ok) (simp_all add: dcf77_ok_def won)
  have trk: "dcf_track_ok ((dx_tk ?x)\<lparr>tk_pmTrk := t, tk_pmAidedLocks := n\<rparr>)" for t n
    using l by (simp add: dcf77_ok_def dcf_track_ok_def)
  show ?thesis
    using l(1) pol trk by (simp add: dcf_aidedLock_def won Let_def dcf77_ok_def)
qed

text \<open>What the demodulators can give: a signal-to-noise ratio, and a sign.\<close>

definition meas_ok :: "DcfMeas \<Rightarrow> bool" where
  "meas_ok m \<longleftrightarrow> 0 \<le> dm_pmSnr m \<and> (case dm_aided m of Some won \<Rightarrow> fst (snd (snd won)) \<in> {1, -1} | None \<Rightarrow> True)"

lemma dcf_processSecond_ok:
  assumes "dcf77_ok cfg x" "meas_ok m"
  shows "dcf77_ok cfg (dcf_processSecond m x)"
proof -
  define k1 where "k1 = dcf_track m (dx_fr x) (dx_tk x)"
  define edge where "edge = dcf_edge (tk_segEdge (dx_tk x)) k1"
  define pmMeas where "pmMeas = (tk_pmLocked (dx_tk x) \<and> dm_pmMeas m)"
  define d1 where "d1 = dcf_second \<lparr>env_ref = dm_ref m, env_contrast = dm_contrast m, env_period = dcf_period (dc_sr (dx_fr x)) k1, env_timingFromPm = tk_timingFromPm k1\<rparr>
     (dcf_secRec m (tk_pmLocked (dx_tk x)) edge) (if tk_timingFromPm k1 then pmMeas else dm_amEdge m \<noteq> None) (dm_amEdge m \<noteq> None \<or> pmMeas) (dx_fr x)"
  define k2 where "k2 = k1\<lparr>tk_segEdge := (if tk_timingFromPm k1 then dt_edge (tk_pmTrk k1) + dt_period (tk_pmTrk k1)
                 else if dt_valid (tk_amTrk k1) then dt_edge (tk_amTrk k1) + dt_period (tk_amTrk k1) else edge + of_int (dc_sr d1))\<rparr>"
  define k3 where "k3 = (if dc_segValid d1 then k2 else k2\<lparr>tk_amTrk := dt_reset (tk_amTrk k2)\<rparr>)"
  define y where "y = (case dm_aided m of Some won \<Rightarrow> if ap_valid (tk_aidPending k3) \<and> \<not> tk_pmLocked k3 then dcf_aidedLock won \<lparr>dx_fr = d1, dx_tk = k3\<rparr> else \<lparr>dx_fr = d1, dx_tk = k3\<rparr>
      | None \<Rightarrow> \<lparr>dx_fr = d1, dx_tk = k3\<rparr>)"
  define k4 where "k4 = (dx_tk y)\<lparr>tk_aidPending := no_AidPending\<rparr>"
  have x: "dcf_ok cfg (dx_fr x)" "length (dc_hist (dx_fr x)) \<le> 64" "0 \<le> dc_blindSeconds (dx_fr x)" "dcf_track_ok (dx_tk x)"
    using assms(1) by (simp_all add: dcf77_ok_def)
  have "dcf_track_ok k1" unfolding k1_def using x(1,4) assms(2) by (intro dcf_track_step) (auto simp: meas_ok_def dcf_ok_def dcf_bounds_def)
  then have k3: "dcf_track_ok k3" by (simp add: k3_def k2_def dcf_track_ok_def)
  have "dcf77_ok cfg \<lparr>dx_fr = d1, dx_tk = k3\<rparr>" using dcf_second_ok[OF x(1-3)] k3 by (simp add: dcf77_ok_def d1_def)
  then have y: "dcf77_ok cfg y"
    using dcf_aidedLock_ok[of cfg "\<lparr>dx_fr = d1, dx_tk = k3\<rparr>"] assms(2) by (auto simp: y_def meas_ok_def split: option.split)
  then have k4: "dcf_track_ok k4" by (simp add: k4_def dcf77_ok_def dcf_track_ok_def no_AidPending_def)
  have pend: "dcf_track_ok (k4\<lparr>tk_aidPending := \<lparr>ap_valid = True, ap_burst = b, ap_sign = (if c then 1 else -1)\<rparr>\<rparr>)" if "\<not> tk_pmLocked k4" for b c
    using k4 that by (simp add: dcf_track_ok_def)
  have "dcf_processSecond m x = \<lparr>dx_fr = dx_fr y, dx_tk = (if tk_pmLocked k4 \<or> \<not> dc_segValid (dx_fr y) then k4
     else if \<not> tk_timingFromPm k4 \<and> dt_valid (tk_amTrk k4) \<and> 0 \<le> dcf_sofHere (dx_fr x) \<and> 0 \<le> predictedPmBit (dcf_sofHere (dx_fr x)) (dx_fr y)
     then k4\<lparr>tk_aidPending := \<lparr>ap_valid = True, ap_burst = edge + kPmStartSec * dcf_period (dc_sr (dx_fr x)) (dx_tk x),
            ap_sign = (if predictedPmBit (dcf_sofHere (dx_fr x)) (dx_fr y) = 0 then 1 else -1)\<rparr>\<rparr>
     else k4)\<rparr>"
    unfolding dcf_processSecond_def Let_def k1_def[symmetric] edge_def[symmetric] pmMeas_def[symmetric] d1_def[symmetric] k2_def[symmetric] k3_def[symmetric]
      y_def[symmetric] k4_def[symmetric] by (rule refl)
  then show ?thesis using y k4 pend by (simp add: dcf77_ok_def)
qed

section \<open>Reachable states\<close>

text \<open>
  The decoder of a station armed with a reference clock or not, after any sequence of resets,
  carriers found, searches for a first cut, phase locks found, and seconds.
\<close>

inductive dcf_reach :: "int \<Rightarrow> bool \<Rightarrow> int \<Rightarrow> Dcf77 \<Rightarrow> bool" for rate :: int and have_ref :: bool and bound :: int where
  new: "dcf_reach rate have_ref bound (mk_Dcf77 rate have_ref bound)"
| reset: "dcf_reach rate have_ref bound x \<Longrightarrow> dcf_reach rate have_ref bound (dcf77_reset x)"
| carrier: "dcf_reach rate have_ref bound x \<Longrightarrow> dc_lockState (dx_fr x) = LsNoSignal \<Longrightarrow> dcf_reach rate have_ref bound (x\<lparr>dx_fr := dcf_startSteady (dx_fr x)\<rparr>)"
| seed: "dcf_reach rate have_ref bound x \<Longrightarrow> \<not> dc_segValid (dx_fr x) \<Longrightarrow> dcf_reach rate have_ref bound (dcf_trySeedAm n contrast falling at_sample x)"
| acquired: "dcf_reach rate have_ref bound x \<Longrightarrow> \<not> tk_pmLocked (dx_tk x) \<Longrightarrow> dcf_reach rate have_ref bound (dcf_pmLockAt tau P x)"
| second: "dcf_reach rate have_ref bound x \<Longrightarrow> dc_segValid (dx_fr x) \<Longrightarrow> meas_ok m \<Longrightarrow> dcf_reach rate have_ref bound (dcf_processSecond m x)"

definition dcf_cfg :: "bool \<Rightarrow> int \<Rightarrow> VoterConfig" where
  "dcf_cfg have_ref bound = tv_cfg (setPlausibility have_ref bound (mk_TimeFrameVoter dcf77_voterConfig))"

lemma dcf_reset_ok:
  assumes "dcf_times_ok cfg d"
  shows "dcf_ok cfg (dcf_reset d) \<and> dc_hist (dcf_reset d) = [] \<and> dc_blindSeconds (dcf_reset d) = 0"
  using assms by (simp add: dcf_reset_def dcf_ok_def dcf_inv_defs dcf_dropAnchor_def voter_cfg_kept)

lemma dcf77_reset_ok: "dcf77_ok cfg x \<Longrightarrow> dcf77_ok cfg (dcf77_reset x)"
  using dcf_reset_ok[of cfg "dx_fr x"]
  by (simp add: dcf77_ok_def dcf77_reset_def dcf_ok_def dcf_track_ok_def ev_clipped_def no_AidPending_def)

lemma mk_Dcf77_ok: "dcf77_ok (dcf_cfg have_ref bound) (mk_Dcf77 rate have_ref bound)"
  by (simp add: mk_Dcf77_def dcf77_ok_def dcf_setPlausibility_def mk_Dcf77Decoder_def dcf_reset_def dcf_dropAnchor_def dcf_ok_def dcf_inv_defs
      dcf_track_ok_def ev_clipped_def no_AidPending_def dcf_cfg_def setPlausibility_def voter_reset_def)

lemma dcf_startSteady_ok:
  assumes "dcf77_ok cfg x" "dc_lockState (dx_fr x) = LsNoSignal"
  shows "dcf77_ok cfg (x\<lparr>dx_fr := dcf_startSteady (dx_fr x)\<rparr>)"
  using assms by (simp add: dcf77_ok_def dcf_startSteady_def dcf_ok_def dcf_inv_defs)

lemma dcf_seed_loop_ok: "dcf77_ok cfg x \<Longrightarrow> dcf77_ok cfg (dcf_seed_loop f g is x)"
proof (induction "is" arbitrary: x)
  case (Cons i "is")
  have "dcf77_ok cfg (x\<lparr>dx_fr := (dx_fr x)\<lparr>dc_scanPos := i\<rparr>\<rparr>)"
    "dcf77_ok cfg \<lparr>dx_fr = (dx_fr x)\<lparr>dc_scanPos := i, dc_segValid := True, dc_hist := []\<rparr>, dx_tk = (dx_tk x)\<lparr>tk_segEdge := g i\<rparr>\<rparr>"
    using Cons.prems by (simp_all add: dcf77_ok_def dcf_untouched_ok dcf_track_ok_def)
  then show ?case using Cons.IH by (simp add: Let_def)
qed simp

lemma dcf_reach_ok: "dcf_reach rate have_ref bound x \<Longrightarrow> dcf77_ok (dcf_cfg have_ref bound) x"
proof (induction rule: dcf_reach.induct)
  case (seed x n contrast falling at_sample)
  then show ?case by (simp add: dcf_trySeedAm_def Let_def dcf_seed_loop_ok)
qed (simp_all add: mk_Dcf77_ok dcf77_reset_ok dcf_startSteady_ok dcf_pmLockAt_ok dcf_processSecond_ok)


text \<open>A phase lock found from nothing, and a second processed after it.\<close>

definition demo_dcf :: Dcf77 where
  "demo_dcf = dcf_processSecond (demo_meas 1 2) (dcf_pmLockAt 12000 12000 ((mk_Dcf77 12000 True 10)\<lparr>dx_fr := dcf_startSteady (dx_fr (mk_Dcf77 12000 True 10))\<rparr>))"


end
