(* ===== verification/Allouis_Decoder.thy ===== *)
theory Allouis_Decoder
  imports Eu_Code Clock_Events
begin

text \<open>
  The Allouis (ALS162) decoder above its correlator, \<^verbatim>\<open>src/src/clock/AllouisDecoder.cpp\<close>: the position
  code that names each second, a second read from its correlations, the count of seconds through the
  minute, the minute decoded with its unread bits filled in by its checks, the vote and the lock. What
  the correlator gives for a second is the argument of \<open>als_processSecond\<close>. The callbacks made are
  logged in the state, oldest first. The mixer, the fold that finds the first second and the
  correlator itself are not modelled. The edge tracker is line for line MSF's, \<open>EdgeTracker\<close>.
\<close>

section \<open>Constants\<close>

definition kSubSec :: real where "kSubSec = 25 / 1000"
definition kCodeSubs :: int where "kCodeSubs = 32"
definition kCodeStart :: real where "kCodeStart = 200 / 1000"
definition kSecondAfterStartSec :: real where "kSecondAfterStartSec = 5048 / 100000"
definition kMaxUnnamedSeconds :: int where "kMaxUnnamedSeconds = 30"
definition kTimeMinSig :: real where "kTimeMinSig = 5"
definition kTrkAcqOutlierSec :: real where "kTrkAcqOutlierSec = 10 / 1000"
definition als_kMaxBlindSeconds :: int where "als_kMaxBlindSeconds = 60"
definition als_kStructConf :: real where "als_kStructConf = 50 / 100"
definition als_kBitMinConf :: real where "als_kBitMinConf = 5 / 100"
definition kKeyMinSig :: real where "kKeyMinSig = 6"
definition kKeyMarginSig :: real where "kKeyMarginSig = 4"
definition als_kMaxUnconfirmedMinutes :: int where "als_kMaxUnconfirmedMinutes = 2"
definition kMaxErasures :: int where "kMaxErasures = 2"
definition kAmpGain :: real where "kAmpGain = 5 / 100"
definition kConfirmMatches :: int where "kConfirmMatches = 30"

section \<open>The position codes\<close>

text \<open>The phase's change over each 25 ms from 200 ms into the second on, for each second.\<close>

definition kCodes :: "int list list" where
  "kCodes =
    [[0, 1, -1, 0, 0, 0, 1, -1, 0, 0, 0, 0, 0, 0, 0, -1, 0, 2, 0, -2, 0, 2, 0, -2, 0, 1, 0, 0, 0, 0, 0, 0],
     [1, 0, -2, 0, 2, -1, -1, 1, 1, -1, -1, 1, 0, 1, 0, -2, 1, 0, 0, 1, -2, 0, 1, 0, 1, -1, -1, 1, 0, 0, 0, 0],
     [1, -1, 0, 0, -1, 2, 0, -1, -1, 0, 2, -1, -1, 2, 0, -1, -1, 0, 2, -1, -1, 2, 0, -1, -1, 0, 1, 0, 0, 0, 0, 0],
     [1, -1, -1, 1, 1, 0, -1, -1, 1, 0, -1, 1, 0, 0, 0, 1, 0, -2, 1, 1, -1, -1, 0, 1, 1, -1, -1, 1, 0, 0, 0, 0],
     [1, -1, 0, 1, -2, 0, 1, 0, 1, 0, -1, -1, 0, 2, 0, -1, -1, 0, 1, 1, -1, -1, 2, -1, -1, 1, 0, 0, 0, 0, 0, 0],
     [1, -1, -1, 1, 1, 0, -1, -1, 0, 1, 0, 1, 0, -2, 0, 2, 0, -2, 1, 1, -1, -1, 0, 2, -1, -1, 1, 0, 0, 0, 0, 0],
     [0, 0, 0, 0, 1, 0, -1, 0, -1, 0, 1, 1, 0, -1, -1, 1, 0, 0, 0, -1, 1, 1, 0, -1, -1, 0, 1, 0, 0, 0, 0, 0],
     [0, 0, 1, 0, -1, 0, 0, 0, 0, -1, 0, 1, 0, 0, 0, 0, 0, 0, 0, 0, 0, 1, -1, -1, 2, -1, -1, 1, 0, 0, 0, 0],
     [1, -1, 0, 1, -2, 1, 0, -1, 1, 1, -1, -1, 1, 1, 0, -1, -1, 0, 1, 1, 0, -1, -1, 0, 1, 0, 0, 0, 0, 0, 0, 0],
     [0, 1, 0, -1, -1, 0, 1, 1, 0, -1, -1, 0, 2, -1, -1, 1, 1, 0, -1, -1, 1, 1, -2, 0, 1, 0, 0, 0, 0, 0, 0, 0],
     [0, 1, 0, -1, -1, 1, 1, -2, 1, 0, -1, 1, 0, 1, -1, 0, 1, -1, 0, -1, 0, 2, -1, 0, 0, -1, 1, 0, 0, 0, 0, 0],
     [0, 1, 0, -1, 0, 0, -1, 0, 2, -1, -1, 1, 1, 0, -1, 0, -1, 0, 1, 0, 0, 0, 0, 0, 1, -1, -1, 1, 0, 0, 0, 0],
     [1, -1, -1, 2, 0, -1, -1, 0, 1, 1, -1, 0, 1, -2, 0, 1, 1, -1, -1, 1, 0, 0, 1, 0, -1, -1, 0, 1, 0, 0, 0, 0],
     [1, 0, -2, 1, 1, -2, 1, 0, -1, 2, 0, -2, 0, 1, 1, -1, 0, 0, -1, 1, 1, -1, -1, 2, 0, -2, 0, 1, 0, 0, 0, 0],
     [0, 1, -1, -1, 1, 1, 0, -1, 0, -1, 0, 2, 0, -1, 0, -1, 0, 2, -1, 0, 1, -2, 0, 2, -1, -1, 1, 0, 0, 0, 0, 0],
     [0, 0, 1, 0, -2, 1, 1, -1, 0, 0, -1, 1, 0, -1, 1, 0, 0, 0, 0, 1, 0, -2, 1, 1, -1, -1, 0, 1, 0, 0, 0, 0],
     [1, 0, -2, 0, 2, -1, 0, 1, -1, 0, 0, -1, 1, 1, -1, 0, 0, -1, 1, 1, -2, 1, 1, -2, 0, 1, 0, 0, 0, 0, 0, 0],
     [1, -1, 0, 1, -2, 0, 2, -1, 0, 1, -1, 0, 0, -1, 0, 2, 0, -1, 0, -1, 1, 0, -1, 1, 0, 0, 0, 0, 0, 0, 0, 0],
     [1, 0, -1, 0, -1, 0, 1, 1, -1, 0, 1, -2, 0, 2, -1, -1, 1, 0, 0, 1, -1, -1, 1, 0, 0, 0, 0, 0, 0, 0, 0, 0],
     [1, -1, -1, 1, 0, 1, 0, -2, 0, 1, 0, 1, -1, 0, 1, -2, 0, 2, -1, 0, 1, -2, 0, 2, -1, -1, 1, 0, 0, 0, 0, 0],
     [0, 0, 1, -1, -1, 2, -1, 0, 1, -1, 0, -1, 0, 1, 1, -1, 0, 1, -2, 1, 1, -1, 0, -1, 0, 1, 0, 0, 0, 0, 0, 0],
     [1, -1, -1, 2, -1, 0, 0, -1, 1, 0, 1, 0, -1, -1, 0, 2, 0, -2, 0, 2, 0, -1, 0, -1, 1, 0, -1, 1, 0, 0, 0, 0],
     [0, 0, 0, 0, 1, 0, -1, 0, 0, 0, 0, 0, -1, 1, 1, -2, 1, 0, 0, 1, -1, -1, 0, 2, 0, -2, 0, 1, 0, 0, 0, 0],
     [0, 0, 0, 0, 1, -1, 0, 0, 0, 1, -2, 1, 0, -1, 2, 0, -1, -1, 1, 1, -2, 1, 1, -1, 0, -1, 0, 1, 0, 0, 0, 0],
     [1, 0, -2, 0, 1, 0, 0, 0, 1, 0, -2, 0, 2, 0, -1, 0, 0, -1, 1, 0, 0, 1, -2, 1, 1, -2, 0, 1, 0, 0, 0, 0],
     [1, -1, 0, 1, -2, 0, 2, -1, 0, 0, 0, 1, -2, 0, 2, -1, -1, 1, 0, 1, -1, 0, 1, -1, -1, 0, 1, 0, 0, 0, 0, 0],
     [1, 0, -2, 0, 1, 1, -1, -1, 1, 0, 1, 0, -2, 0, 2, 0, -1, -1, 1, 0, -1, 1, 1, 0, -2, 0, 1, 0, 0, 0, 0, 0],
     [1, 0, -1, -1, 1, 1, -2, 1, 0, 0, 1, -2, 0, 1, 0, 1, -1, -1, 2, 0, -1, 0, -1, 1, 1, -2, 0, 1, 0, 0, 0, 0],
     [0, 1, -1, -1, 2, 0, -2, 0, 2, 0, -1, 0, 0, 0, 0, -1, 0, 2, -1, -1, 1, 0, 1, -1, -1, 1, 0, 0, 0, 0, 0, 0],
     [1, 0, -2, 0, 2, -1, -1, 1, 0, 1, 0, -2, 0, 2, 0, -2, 1, 0, 0, 1, -2, 0, 1, 1, 0, -2, 0, 1, 0, 0, 0, 0],
     [0, 1, -1, 0, 1, -2, 0, 1, 1, 0, -2, 1, 1, -1, 0, -1, 0, 2, 0, -1, -1, 0, 2, -1, -1, 1, 0, 0, 0, 0, 0, 0],
     [0, 0, 1, 0, -2, 1, 1, -1, -1, 0, 1, 1, 0, -2, 0, 1, 0, 0, 0, 1, 0, -2, 1, 0, 0, 0, -1, 1, 0, 0, 0, 0],
     [1, 0, -1, 0, -1, 1, 0, -1, 1, 0, 0, 1, -1, 0, 1, -1, 0, 0, 0, -1, 0, 1, 1, 0, -2, 0, 1, 0, 0, 0, 0, 0],
     [0, 0, 0, 0, 1, 0, -2, 0, 2, -1, -1, 2, 0, -1, 0, 0, 0, -1, 1, 1, -1, 0, 0, 0, -1, 0, 1, 0, 0, 0, 0, 0],
     [0, 0, 0, 1, 0, -1, 0, 0, -1, 0, 1, 0, 1, 0, -2, 1, 0, 0, 1, -1, 0, -1, 0, 1, 1, -1, -1, 1, 0, 0, 0, 0],
     [1, -1, 0, 1, -1, 0, 0, 0, -1, 0, 2, -1, 0, 0, 0, 0, -1, 1, 0, 0, 0, 1, -1, 0, 0, -1, 1, 0, 0, 0, 0, 0],
     [1, -1, -1, 1, 0, 1, -1, -1, 1, 1, -1, -1, 1, 0, 1, 0, -2, 1, 0, 0, 1, -1, -1, 0, 1, 0, 0, 0, 0, 0, 0, 0],
     [0, 1, 0, -2, 1, 1, -1, 0, 0, 0, -1, 0, 2, -1, -1, 1, 1, 0, -2, 0, 1, 1, -1, -1, 1, 0, 0, 0, 0, 0, 0, 0],
     [0, 1, 0, -1, -1, 1, 1, -2, 0, 2, -1, -1, 1, 1, -1, 0, 1, -1, 0, -1, 0, 2, -1, -1, 1, 0, 0, 0, 0, 0, 0, 0],
     [0, 1, 0, -1, 0, 0, -1, 0, 2, -1, -1, 1, 1, -1, -1, 1, 1, 0, -1, 0, 0, 0, 0, 0, -1, 0, 1, 0, 0, 0, 0, 0],
     [0, 1, 0, -1, -1, 1, 1, -2, 1, 1, -1, 0, -1, 0, 2, -1, -1, 1, 0, 1, 0, -2, 1, 0, -1, 1, 0, 0, 0, 0, 0, 0],
     [1, 0, -1, -1, 1, 0, -1, 2, 0, -1, -1, 1, 1, -2, 0, 2, -1, -1, 2, 0, -2, 0, 2, 0, -1, -1, 0, 1, 0, 0, 0, 0],
     [1, 0, -1, 0, -1, 0, 2, 0, -2, 0, 2, -1, 0, 1, -1, 0, 0, 0, 0, -1, 1, 0, -1, 1, 1, -1, -1, 1, 0, 0, 0, 0],
     [0, 1, -1, -1, 2, 0, -2, 0, 2, -1, 0, 0, 0, 0, 0, 1, -2, 1, 0, -1, 1, 0, 0, 0, 1, -1, -1, 1, 0, 0, 0, 0],
     [0, 1, 0, -1, 0, 0, -1, 1, 1, -2, 1, 0, -1, 2, 0, -2, 0, 1, 0, 0, 0, 0, 0, 1, -1, -1, 1, 0, 0, 0, 0, 0],
     [1, -1, -1, 1, 1, -1, -1, 2, 0, -2, 0, 2, -1, -1, 1, 1, 0, -2, 1, 1, -2, 0, 2, 0, -2, 0, 1, 0, 0, 0, 0, 0],
     [0, 0, 1, 0, -2, 0, 1, 0, 1, 0, -2, 1, 0, -1, 2, -1, 0, 1, -1, -1, 1, 1, -2, 1, 1, -2, 0, 1, 0, 0, 0, 0],
     [1, 0, -1, -1, 1, 0, 0, 1, -2, 1, 0, -1, 2, 0, -2, 1, 0, -1, 2, 0, -2, 1, 0, 0, 1, -2, 0, 1, 0, 0, 0, 0],
     [1, -1, -1, 2, -1, -1, 2, 0, -2, 0, 2, 0, -1, 0, 0, 0, -1, 1, 1, -2, 1, 0, -1, 1, 1, -1, -1, 1, 0, 0, 0, 0],
     [0, 0, 1, 0, -2, 0, 1, 0, 1, -1, 0, 0, 0, 0, 0, 1, -1, 0, 0, -1, 1, 1, -1, 0, -1, 0, 1, 0, 0, 0, 0, 0],
     [1, -1, -1, 1, 0, 0, 0, 1, -1, 0, 1, -1, -1, 0, 2, 0, -2, 1, 0, 0, 0, -1, 1, 0, 0, 0, 0, 0, 0, 0, 0, 0],
     [1, 0, -1, -1, 1, 1, -1, 0, 0, 0, 0, -1, 1, 0, -1, 2, -1, -1, 2, 0, -1, -1, 1, 1, -1, -1, 0, 1, 0, 0, 0, 0],
     [0, 1, 0, -1, -1, 0, 2, 0, -2, 0, 1, 1, -1, -1, 1, 1, 0, -1, 0, -1, 1, 0, -1, 1, 1, -1, -1, 1, 0, 0, 0, 0],
     [1, 0, -1, -1, 0, 1, 1, 0, -2, 1, 0, 0, 0, 0, 0, 0, 0, -1, 2, -1, 0, 0, 0, 0, -1, 1, 0, 0, 0, 0, 0, 0],
     [0, 0, 1, -1, 0, 1, -2, 0, 2, -1, -1, 2, -1, 0, 0, 0, 0, -1, 2, 0, -1, 0, -1, 1, 0, -1, 1, 0, 0, 0, 0, 0],
     [0, 0, 0, 0, 0, 0, 0, 1, -1, -1, 2, 0, -2, 0, 1, 0, 0, 1, -1, 0, 0, -1, 2, -1, 0, 0, -1, 1, 0, 0, 0, 0],
     [0, 0, 1, 0, -2, 1, 0, 0, 1, -1, -1, 1, 0, 0, 1, -2, 1, 1, -1, -1, 0, 1, 0, 1, 0, -2, 0, 1, 0, 0, 0, 0],
     [1, 0, -1, 0, -1, 1, 0, -1, 2, -1, -1, 2, -1, -1, 2, -1, 0, 1, -1, -1, 0, 1, 0, 0, 1, -1, -1, 1, 0, 0, 0, 0],
     [1, 0, -2, 0, 2, 0, -2, 0, 2, 0, -2, 0, 2, 0, -2, 0, 2, 0, -2, 0, 1, 0, 0, 0, 0, 0, 0, 0, 0, 0, 0, 0],
     [0, 0, 0, 0, 0, 0, 0, 0, 0, 0, 0, 0, 0, 0, 0, 0, 0, 0, 0, 0, 0, 0, 0, 0, 0, 0, 0, 0, 0, 0, 0, 0]]"

text \<open>The data excursion's phase, and a second's position code's phase, at a time into them.\<close>

definition excursion :: "real \<Rightarrow> real" where
  "excursion t =
     (if t < 0 \<or> 4 * kSubSec \<le> t then 0
      else let u = t / kSubSec in if u < 1 then u else if u < 3 then 2 - u else u - 4)"

definition codePhase :: "int \<Rightarrow> real \<Rightarrow> real" where
  "codePhase s t =
     (if t < kCodeStart \<or> kCodeStart + of_int kCodeSubs * kSubSec \<le> t then 0
      else
        let u = (t - kCodeStart) / kSubSec;
            k = trunc u;
            c = kCodes ! nat s
        in of_int (sum_list (take (nat k) c)) + of_int (c ! nat k) * (u - of_int k))"

section \<open>State\<close>

record AlsSec =
  as_edge :: int
  as_edgeExact :: "real option"
  as_read :: bool
  as_marker :: bool
  as_markConf :: real
  as_bit :: int
  as_bitConf :: real
  as_key :: int
  as_keySig :: real
  as_expSig :: real
  as_timeSig :: real

definition default_AlsSec :: AlsSec where
  "default_AlsSec = \<lparr>as_edge = 0, as_edgeExact = None, as_read = False, as_marker = False, as_markConf = 0, as_bit = 0, as_bitConf = 0,
     as_key = -1, as_keySig = 0, as_expSig = 0, as_timeSig = 0\<rparr>"

record AlsDecoder =
  al_sr :: int
  al_voter :: TimeFrameVoter
  al_lockState :: ClockLockState
  al_unnamedRun :: int
  al_segValid :: bool
  al_segEdge :: real
  al_trk :: EdgeTracker
  al_blindSeconds :: int
  al_timing :: bool
  al_lastTimeSig :: real
  al_amp :: real
  al_ampHave :: bool
  al_hist :: "AlsSec list"
  al_anchored :: bool
  al_sofNext :: int
  al_frame :: "AlsSec list"
  al_frFilled :: int
  al_frStart :: int
  al_frMatches :: int
  al_frMismatches :: int
  al_slipRun :: int
  al_haveLastFrame :: bool
  al_lastFrameStart :: int
  al_lastLeapWarn :: bool
  al_lastFrameFrom :: int
  al_unconfirmedRun :: int
  al_haveVoted :: bool
  al_votedMinute :: int
  al_votedHour :: int
  al_votedDoy :: int
  al_votedYear :: int
  al_votedQuality :: real
  al_out :: "ClockEvent list"

text \<open>
  What the correlator gives for a second: whether its phase could be measured, the two data
  excursions with their noise, the score of each second's position code, the carrier's presence, and
  the timing correlation for a second taken to be \<open>sof\<close> with a bit, searched narrowly or not.
\<close>

record AlsMeas =
  am_ref :: TimeFields
  am_ready :: bool
  am_a1 :: real
  am_a2 :: real
  am_sA :: real
  am_score :: "real list"
  am_carrierPresent :: bool
  am_timeSecond :: "int \<Rightarrow> int \<Rightarrow> bool \<Rightarrow> real \<times> real"

definition als_emit :: "ClockEvent \<Rightarrow> AlsDecoder \<Rightarrow> AlsDecoder" where
  "als_emit ev d = d\<lparr>al_out := al_out d @ [ev]\<rparr>"

definition als_setLockState :: "ClockLockState \<Rightarrow> AlsDecoder \<Rightarrow> AlsDecoder" where
  "als_setLockState st d =
     (if st \<noteq> al_lockState d then als_emit (StateChanged st) (d\<lparr>al_lockState := st\<rparr>) else d)"

definition als_blank :: "AlsSec list" where
  "als_blank = replicate 60 default_AlsSec"

definition als_dropAnchor :: "AlsDecoder \<Rightarrow> AlsDecoder" where
  "als_dropAnchor d = d\<lparr>al_anchored := False, al_sofNext := 0, al_haveVoted := False, al_frame := als_blank, al_frFilled := 0, al_frStart := 0,
     al_frMatches := 0, al_frMismatches := 0, al_slipRun := 0, al_unconfirmedRun := 0, al_lastLeapWarn := False\<rparr>"

definition als_demote :: "AlsDecoder \<Rightarrow> AlsDecoder" where
  "als_demote d =
     (let d = d\<lparr>al_haveVoted := False\<rparr>
      in if al_lockState d = LsLocked then als_setLockState LsAcquiring d else d)"

definition als_anchorAt :: "int \<Rightarrow> AlsSec \<Rightarrow> AlsDecoder \<Rightarrow> AlsDecoder" where
  "als_anchorAt sof r d =
     d\<lparr>al_anchored := True, al_frMatches := 0, al_frMismatches := 0, al_slipRun := 0, al_frame := als_blank, al_frFilled := 0,
       al_frStart := (if sof = 0 then as_edge r else al_frStart d), al_sofNext := sof\<rparr>"

text \<open>The part of \<^verbatim>\<open>restartAcquisition\<close> outside the fold.\<close>

definition als_restartAcquisition :: "AlsDecoder \<Rightarrow> AlsDecoder" where
  "als_restartAcquisition d =
     d\<lparr>al_segValid := False, al_segEdge := 0, al_trk := et_reset (al_trk d), al_blindSeconds := 0, al_unnamedRun := 0\<rparr>"

section \<open>The minute's bits\<close>

text \<open>The bits read, the seconds unread in order, and the weakest bit read from 17 on.\<close>

fun als_read_bits :: "AlsDecoder \<Rightarrow> int list \<Rightarrow> (int \<Rightarrow> int) \<Rightarrow> int list \<Rightarrow> real \<Rightarrow> ((int \<Rightarrow> int) \<times> int list \<times> real) option" where
  "als_read_bits d [] b unread minConf = Some (b, unread, minConf)"
| "als_read_bits d (s # ss) b unread minConf =
     (let r = al_frame d ! nat s
      in if \<not> as_read r then None
         else if as_marker r \<or> as_bitConf r < als_kBitMinConf
         then if kMaxErasures < int (length (unread @ [s])) then None else als_read_bits d ss b (unread @ [s]) minConf
         else als_read_bits d ss (b(s := as_bit r)) unread (if 17 \<le> s then min minConf (as_bitConf r) else minConf))"

text \<open>Every value of the unread bits, tried: the one that passes every check, if there is just one.\<close>

definition als_fill :: "int list \<Rightarrow> nat \<Rightarrow> (int \<Rightarrow> int) \<Rightarrow> int \<Rightarrow> int" where
  "als_fill unread m b = fold (\<lambda>i b. b(unread ! i := int (drop_bit i m mod 2))) [0..<length unread] b"

fun als_try :: "int list \<Rightarrow> nat list \<Rightarrow> (int \<Rightarrow> int) \<Rightarrow> EuDecoded option \<Rightarrow> EuDecoded option" where
  "als_try unread [] b found = found"
| "als_try unread (m # ms) b found =
     (let b = als_fill unread m b
      in case allouis_decodeBits b of
           None \<Rightarrow> als_try unread ms b found
         | Some t \<Rightarrow> if found \<noteq> None then None else als_try unread ms b (Some t))"

definition als_decode :: "AlsDecoder \<Rightarrow> (EuDecoded \<times> real) option" where
  "als_decode d =
     (case als_read_bits d [0..58] (\<lambda>_. 0) [] 1 of
        None \<Rightarrow> None
      | Some (b, unread, minConf) \<Rightarrow>
          (case als_try unread [0..<2 ^ length unread] b None of
             None \<Rightarrow> None
           | Some x \<Rightarrow> Some (x, if unread \<noteq> [] then minConf * (if length unread = 1 then 7 / 10 else 5 / 10) else minConf)))"

section \<open>The end of a minute\<close>

definition als_leapSecondPossible :: "TimeFields \<Rightarrow> bool" where
  "als_leapSecondPossible f =
     (if tf_minute f \<noteq> 59 \<or> tf_hour f \<noteq> 23 then False
      else isLastDayOfMonth (utcMsFromFields (tf_year2 f) (tf_doy f) (tf_hour f) (tf_minute f)))"

definition als_contradicted :: "AlsDecoder \<Rightarrow> bool" where
  "als_contradicted d \<longleftrightarrow> 1 < al_frMismatches d"

definition als_confirmed :: "AlsDecoder \<Rightarrow> bool" where
  "als_confirmed d \<longleftrightarrow> 60 \<le> al_frFilled d \<and> kConfirmMatches \<le> al_frMatches d \<and> \<not> als_contradicted d"

definition als_frame_info :: "AlsDecoder \<Rightarrow> (EuDecoded \<times> real) option \<Rightarrow> ClockFrameInfo" where
  "als_frame_info d dec =
     (let fi = default_ClockFrameInfo\<lparr>fi_frameStartSample := al_frStart d, fi_station := StAllouis\<rparr>
      in case dec of None \<Rightarrow> fi
         | Some (x, c) \<Rightarrow>
             fi\<lparr>fi_minute := tf_minute (eu_utc x), fi_hour := tf_hour (eu_utc x), fi_doy := tf_doy (eu_utc x), fi_year2 := tf_year2 (eu_utc x),
                fi_leapPending := eu_leapWarn x, fi_dst1 := eu_cest x, fi_dst2 := eu_cest x, fi_frameConfidence := c\<rparr>)"

definition als_vote :: "TimeFields \<Rightarrow> bool \<Rightarrow> (EuDecoded \<times> real) option \<Rightarrow> AlsDecoder \<Rightarrow> AlsDecoder" where
  "als_vote ref confirmed dec d0 =
     (let frame = synthetic_frame (map_option (\<lambda>(x, c). (eu_utc x, \<lambda>_. c)) dec);
          d = als_emit (OnFrame (als_frame_info d0 dec)) d0;
          P = (if et_valid (al_trk d) then et_period (al_trk d) else of_int (al_sr d));
          consecutive = (al_haveLastFrame d \<and> \<bar>of_int (al_frStart d - al_lastFrameStart d) - 60 * P\<bar> \<le> 25 / 100 * of_int (al_sr d));
          voter = addFrame (fr_symbols frame) (fr_confidence frame) (if \<not> consecutive then voter_reset (al_voter d) else al_voter d);
          d = d\<lparr>al_haveLastFrame := True, al_lastFrameStart := al_frStart d, al_voter := voter\<rparr>;
          certified = locked ref voter;
          d = (if certified
               then d\<lparr>al_votedMinute := votedField voter FieldMinutes, al_votedHour := votedField voter FieldHours,
                      al_votedDoy := votedField voter FieldDoy, al_votedYear := votedField voter FieldYear,
                      al_votedQuality := lockConfidence voter\<rparr>
               else d);
          leapNext = (case dec of Some (x, c) \<Rightarrow> (eu_leapWarn x \<or> al_lastLeapWarn d) \<and> als_leapSecondPossible (eu_utc x) | None \<Rightarrow> False);
          d = d\<lparr>al_lastLeapWarn := (case dec of Some (x, c) \<Rightarrow> eu_leapWarn x | None \<Rightarrow> False)\<rparr>;
          d = (if certified \<and> confirmed \<and> \<not> leapNext then als_setLockState LsLocked (d\<lparr>al_haveVoted := True\<rparr>) else als_demote d)
      in d\<lparr>al_frMatches := 0, al_frMismatches := 0\<rparr>)"

definition als_finalizeFrame :: "TimeFields \<Rightarrow> AlsDecoder \<Rightarrow> AlsDecoder" where
  "als_finalizeFrame ref d =
     (let contradicted = als_contradicted d;
          confirmed = als_confirmed d;
          d = (if \<not> contradicted \<and> \<not> confirmed then d\<lparr>al_unconfirmedRun := al_unconfirmedRun d + 1\<rparr> else d)
      in if contradicted \<or> \<not> confirmed \<and> als_kMaxUnconfirmedMinutes < al_unconfirmedRun d
         then (als_demote d)\<lparr>al_haveLastFrame := False, al_frMatches := 0, al_frMismatches := 0\<rparr>
         else
           let d = (if confirmed then d\<lparr>al_unconfirmedRun := 0\<rparr> else d);
               dec = (if confirmed then als_decode d else None)
           in als_vote ref confirmed dec (d\<lparr>al_lastFrameFrom := (if dec \<noteq> None then 2 else 0)\<rparr>))"

section \<open>One second\<close>

definition als_second_info :: "AlsSec \<Rightarrow> bool \<Rightarrow> int \<Rightarrow> ClockSecondInfo" where
  "als_second_info r measured sof =
     \<lparr>si_edgeSample = as_edge r, si_edgeSampleExact = as_edgeExact r, si_edgeMeasured = measured, si_edgeServable = True,
      si_symbol = (if \<not> as_read r then Unknown else if as_marker r then Marker else if as_bit r \<noteq> 0 then One else Zero),
      si_confidence = (if as_marker r then as_markConf r else as_bitConf r), si_secondOfFrame = sof\<rparr>"

definition als_time_info :: "AlsSec \<Rightarrow> int \<Rightarrow> AlsDecoder \<Rightarrow> ClockTimeInfo" where
  "als_time_info r sof d =
     \<lparr>ti_minute = al_votedMinute d, ti_hour = al_votedHour d, ti_doy = al_votedDoy d, ti_year2 = al_votedYear d,
      ti_quality = al_votedQuality d, ti_lastEdgeSample = as_edge r, ti_lastEdgeSampleExact = as_edgeExact r,
      ti_lastEdgeSecondOfFrame = sof, ti_station = StAllouis\<rparr>"

text \<open>Two seconds in a row that name themselves, one after the other, anchor the count.\<close>

definition als_unanchored :: "AlsSec \<Rightarrow> AlsDecoder \<Rightarrow> AlsDecoder" where
  "als_unanchored r d =
     (if length (al_hist d) < 2 then d
      else let p = al_hist d ! (length (al_hist d) - 2)
           in if 0 \<le> as_key r \<and> 0 \<le> as_key p \<and> as_key r = as_key p + 1 then als_anchorAt (as_key r) r d
              else if as_key r = 0 \<and> as_marker p \<and> als_kStructConf \<le> as_markConf p then als_anchorAt 0 r d
              else d)"

text \<open>A second of an anchored minute: does it name itself as expected? Two running that name another are followed.\<close>

definition als_anchored_second :: "AlsSec \<Rightarrow> AlsDecoder \<Rightarrow> int \<times> AlsDecoder" where
  "als_anchored_second r d =
     (let sof = al_sofNext d;
          d = (if sof = 0 then d\<lparr>al_frStart := as_edge r, al_frFilled := 0, al_frMatches := 0, al_frMismatches := 0\<rparr> else d);
          (sof, d) =
            (if sof < 59 then
               (if 0 \<le> as_key r \<and> as_key r \<noteq> sof then
                  let d = d\<lparr>al_frMismatches := al_frMismatches d + 1, al_slipRun := al_slipRun d + 1\<rparr>
                  in if 2 \<le> al_slipRun d
                     then let d = als_anchorAt (as_key r) r ((als_demote d)\<lparr>al_haveLastFrame := False\<rparr>);
                              sof = as_key r
                          in (sof, if sof = 0 then d\<lparr>al_frStart := as_edge r\<rparr> else d)
                     else (sof, d)
                else (sof, d\<lparr>al_slipRun := 0, al_frMatches := (if 3 \<le> as_expSig r then al_frMatches d + 1 else al_frMatches d)\<rparr>))
             else if \<not> as_marker r \<and> als_kStructConf \<le> as_markConf r then (sof, d\<lparr>al_frMismatches := al_frMismatches d + 1\<rparr>)
             else (sof, d));
          d = (if 0 \<le> sof \<and> sof < 60 then d\<lparr>al_frame := (al_frame d)[nat sof := r], al_frFilled := max (al_frFilled d) (sof + 1)\<rparr> else d)
      in (sof, d\<lparr>al_sofNext := (sof + 1) smod 60\<rparr>))"

definition als_handleSecond :: "TimeFields \<Rightarrow> AlsSec \<Rightarrow> bool \<Rightarrow> AlsDecoder \<Rightarrow> AlsDecoder" where
  "als_handleSecond ref r measured d =
     (let d = (if \<not> al_anchored d then als_unanchored r d else d);
          (sof, d) = (if al_anchored d then als_anchored_second r d else (-1, d));
          d = als_emit (OnSecond (als_second_info r measured sof)) d;
          d = (if al_anchored d \<and> sof = 59 then als_finalizeFrame ref d else d)
      in if al_lockState d = LsLocked \<and> al_haveVoted d \<and> 0 \<le> sof then als_emit (OnTime (als_time_info r sof d)) d else d)"

text \<open>Which second this is, by its position code: the best and the next best of the scores.\<close>

fun best_two :: "(int \<times> real) list \<Rightarrow> (int \<times> real) option \<Rightarrow> (int \<times> real) option \<Rightarrow> (int \<times> real) option \<times> (int \<times> real) option" where
  "best_two [] best second = (best, second)"
| "best_two ((s, sc) # rest) best second =
     (if best = None \<or> snd (the best) < sc then best_two rest (Some (s, sc)) best
      else if second = None \<or> snd (the second) < sc then best_two rest best (Some (s, sc))
      else best_two rest best second)"

definition als_key :: "real list \<Rightarrow> (int \<times> real) option" where
  "als_key score =
     (case best_two (zip [0..58] score) None None of
        (Some (b, sb), Some (_, ss)) \<Rightarrow> if kKeyMinSig \<le> sb \<and> kKeyMarginSig \<le> sb - ss then Some (b, sb) else None
      | _ \<Rightarrow> None)"

definition als_confOf :: "real \<Rightarrow> real" where
  "als_confOf z = clamp ((z - 1) / 5) 0 1"

text \<open>The second, read: its symbol, its name, and the score of the name expected.\<close>

definition als_secRec :: "AlsMeas \<Rightarrow> AlsDecoder \<Rightarrow> AlsSec" where
  "als_secRec m d =
     (let A = (if al_ampHave d then al_amp d else max (am_a1 m) 0);
          marker = (am_a1 m < 1 / 2 * A);
          expect = (if al_anchored d then al_sofNext d else -1)
      in \<lparr>as_edge = 0, as_edgeExact = None, as_read = (0 < A), as_marker = marker,
          as_markConf = als_confOf (\<bar>am_a1 m - 1 / 2 * A\<bar> / am_sA m),
          as_bit = (if 1 / 2 * A < am_a2 m then 1 else 0),
          as_bitConf = (if marker then 0 else als_confOf (\<bar>am_a2 m - 1 / 2 * A\<bar> / am_sA m)),
          as_key = (case als_key (am_score m) of Some (s, sc) \<Rightarrow> s | None \<Rightarrow> -1),
          as_keySig = (case als_key (am_score m) of Some (s, sc) \<Rightarrow> sc | None \<Rightarrow> 0),
          as_expSig = (if 0 \<le> expect \<and> expect < 59 then am_score m ! nat expect else 0),
          as_timeSig = 0\<rparr>)"

text \<open>The excursion's amplitude, learnt from every second known to carry one.\<close>

definition als_expect :: "AlsDecoder \<Rightarrow> int" where
  "als_expect d = (if al_anchored d then al_sofNext d else -1)"

definition als_learnAmp :: "AlsMeas \<Rightarrow> AlsSec \<Rightarrow> AlsDecoder \<Rightarrow> AlsDecoder" where
  "als_learnAmp m r d =
     (if 0 \<le> als_expect d \<and> als_expect d < 59 \<or> 0 \<le> as_key r
      then d\<lparr>al_amp := (if al_ampHave d then al_amp d + kAmpGain * (am_a1 m - al_amp d) else am_a1 m), al_ampHave := True\<rparr> else d)"

text \<open>The second timed, and the tracker brought to it: whether it was measured, and the second with its edge.\<close>

definition als_timed :: "AlsMeas \<Rightarrow> AlsSec \<Rightarrow> AlsDecoder \<Rightarrow> bool \<times> AlsSec \<times> AlsDecoder" where
  "als_timed m r d =
     (let pred = al_segEdge d;
          sofT = (if 0 \<le> als_expect d then als_expect d else if 0 \<le> as_key r then as_key r
                  else if as_marker r \<and> als_kStructConf \<le> as_markConf r then 59 else -1);
          warm = (et_valid (al_trk d) \<and> kTrkWarm < et_count (al_trk d));
          (tsig, edgeMeas) = (if sofT \<noteq> 59 \<and> (\<not> as_marker r \<or> as_markConf r < als_kStructConf)
             then am_timeSecond m sofT (if als_kStructConf \<le> as_bitConf r then as_bit r else 0) warm else (0, pred));
          meas = (kTimeMinSig \<le> tsig);
          trk = et_update meas edgeMeas (if et_valid (al_trk d) then et_period (al_trk d) else of_int (al_sr d))
                  ((if warm then kTrkOutlierSec else kTrkAcqOutlierSec) * of_int (al_sr d)) (al_trk d);
          exact = (if et_valid trk then et_edge trk else pred) + kSecondAfterStartSec * of_int (al_sr d)
      in (meas, r\<lparr>as_timeSig := tsig, as_edgeExact := Some exact, as_edge := llround exact\<rparr>,
          d\<lparr>al_lastTimeSig := (if meas then tsig else al_lastTimeSig d), al_trk := trk,
            al_blindSeconds := (if meas then 0 else al_blindSeconds d + 1), al_timing := (et_valid trk \<and> meas)\<rparr>))"

text \<open>Nothing timed, or no second named, for too long: the second is looked for again.\<close>

definition als_giveUp :: "AlsDecoder \<Rightarrow> AlsDecoder" where
  "als_giveUp d =
     (if als_kMaxBlindSeconds \<le> al_blindSeconds d \<or> kMaxUnnamedSeconds \<le> al_unnamedRun d
      then let d = (if al_lockState d = LsLocked then als_setLockState LsAcquiring d else d)
           in als_restartAcquisition ((als_dropAnchor d)\<lparr>al_hist := []\<rparr>)
      else d)"

definition als_processSecond :: "AlsMeas \<Rightarrow> AlsDecoder \<Rightarrow> AlsDecoder" where
  "als_processSecond m d =
     (let pred = al_segEdge d
      in if \<not> am_ready m then d\<lparr>al_segEdge := al_segEdge d + of_int (al_sr d)\<rparr>
         else
           let r = als_secRec m d;
               (meas, r, d) = als_timed m r (als_learnAmp m r d);
               hist = al_hist d @ [r];
               d = d\<lparr>al_hist := (if 8 < length hist then tl hist else hist)\<rparr>;
               d = als_handleSecond (am_ref m) r meas d;
               d = d\<lparr>al_segEdge := (if et_valid (al_trk d) then et_edge (al_trk d) + et_period (al_trk d) else pred + of_int (al_sr d))\<rparr>;
               named = (0 \<le> as_key r \<or> \<not> am_carrierPresent m \<or> al_anchored d \<and> al_sofNext d = 0)
           in als_giveUp (d\<lparr>al_unnamedRun := (if named then 0 else al_unnamedRun d + 1)\<rparr>))"

section \<open>The decoder's life\<close>

definition als_reset :: "AlsDecoder \<Rightarrow> AlsDecoder" where
  "als_reset d =
     als_setLockState LsNoSignal
       ((als_dropAnchor ((als_restartAcquisition d)\<lparr>al_amp := 1, al_ampHave := False, al_lastTimeSig := 0, al_hist := []\<rparr>))
        \<lparr>al_haveLastFrame := False, al_lastFrameStart := 0, al_lastFrameFrom := 0\<rparr>)"

definition mk_AllouisDecoder :: "int \<Rightarrow> AlsDecoder" where
  "mk_AllouisDecoder sampleRateHz =
     als_reset \<lparr>al_sr = (if 0 < sampleRateHz then sampleRateHz else 12000), al_voter = mk_TimeFrameVoter allouis_voterConfig, al_lockState = LsNoSignal,
       al_unnamedRun = 0, al_segValid = False, al_segEdge = 0, al_trk = mk_EdgeTracker, al_blindSeconds = 0, al_timing = False, al_lastTimeSig = 0,
       al_amp = 1, al_ampHave = False, al_hist = [], al_anchored = False, al_sofNext = 0, al_frame = als_blank, al_frFilled = 0, al_frStart = 0,
       al_frMatches = 0, al_frMismatches = 0, al_slipRun = 0, al_haveLastFrame = False, al_lastFrameStart = 0, al_lastLeapWarn = False,
       al_lastFrameFrom = 0, al_unconfirmedRun = 0, al_haveVoted = False, al_votedMinute = -1, al_votedHour = -1, al_votedDoy = -1, al_votedYear = -1,
       al_votedQuality = 0, al_out = []\<rparr>"

definition als_setPlausibility :: "bool \<Rightarrow> int \<Rightarrow> AlsDecoder \<Rightarrow> AlsDecoder" where
  "als_setPlausibility haveReference boundMinutes d = d\<lparr>al_voter := setPlausibility haveReference boundMinutes (al_voter d)\<rparr>"

text \<open>The end of the fold, when it has found the second at \<open>edge\<close>.\<close>

definition als_found :: "real \<Rightarrow> AlsDecoder \<Rightarrow> AlsDecoder" where
  "als_found edge d = d\<lparr>al_segValid := True, al_segEdge := edge, al_trk := et_reset (al_trk d), al_blindSeconds := 0\<rparr>"

definition als_startSteady :: "AlsDecoder \<Rightarrow> AlsDecoder" where
  "als_startSteady d =
     als_setLockState LsAcquiring (d\<lparr>al_trk := (al_trk d)\<lparr>et_noiseRef := kTrkNoiseRefSec * of_int (al_sr d)\<rparr>\<rparr>)"

definition als_station :: "AlsDecoder \<Rightarrow> ClockStation" where
  "als_station d = (if al_lockState d = LsNoSignal then StUnknown else StAllouis)"

end
