(* ===== verification/Allouis_Properties.thy ===== *)
theory Allouis_Properties
  imports Allouis_Decoder
begin

text \<open>
  What the Allouis decoder's reading of a minute can be trusted for: bits that could not be read are
  filled in only with what was sent, and which of them can be filled at all; the name a second gives
  itself stands clear of every other; and the position codes leave the end of every second quiet.
\<close>

section \<open>The bits read\<close>

text \<open>Second \<open>s\<close> of the minute was heard, but its bit not clearly.\<close>

definition als_unread :: "AlsDecoder \<Rightarrow> int \<Rightarrow> bool" where
  "als_unread d s \<longleftrightarrow> as_marker (al_frame d ! nat s) \<or> as_bitConf (al_frame d ! nat s) < als_kBitMinConf"

definition erased :: "AlsDecoder \<Rightarrow> int list" where
  "erased d = filter (als_unread d) [0..58]"

text \<open>The minute was sent as \<open>B\<close>: every second was heard, and what was clearly read of it is right.\<close>

definition als_heard :: "(int \<Rightarrow> int) \<Rightarrow> AlsDecoder \<Rightarrow> bool" where
  "als_heard B d \<longleftrightarrow> (\<forall>s. 0 \<le> s \<longrightarrow> s \<le> 58 \<longrightarrow> as_read (al_frame d ! nat s) \<and> B s \<in> {0, 1} \<and> (\<not> als_unread d s \<longrightarrow> as_bit (al_frame d ! nat s) = B s))"

lemma als_read_bits_step:
  "als_read_bits d (s # ss) b u c =
     (if \<not> as_read (al_frame d ! nat s) then None
      else if als_unread d s then (if 2 < length (u @ [s]) then None else als_read_bits d ss b (u @ [s]) c)
      else als_read_bits d ss (b(s := as_bit (al_frame d ! nat s))) u (if 17 \<le> s then min c (as_bitConf (al_frame d ! nat s)) else c))"
  by (simp add: als_unread_def Let_def kMaxErasures_def)

lemma als_read_bits_heard:
  assumes "\<And>s. s \<in> set ss \<Longrightarrow> as_read (al_frame d ! nat s)" "distinct ss" "length (u @ filter (als_unread d) ss) \<le> 2"
  shows "\<exists>c'. als_read_bits d ss b u c =
    Some (\<lambda>s. if s \<in> set ss \<and> \<not> als_unread d s then as_bit (al_frame d ! nat s) else b s, u @ filter (als_unread d) ss, c')"
  using assms
proof (induction ss arbitrary: b u c)
  case (Cons s ss)
  show ?case
  proof (cases "als_unread d s")
    case True
    then obtain c' where "als_read_bits d ss b (u @ [s]) c =
        Some (\<lambda>t. if t \<in> set ss \<and> \<not> als_unread d t then as_bit (al_frame d ! nat t) else b t, (u @ [s]) @ filter (als_unread d) ss, c')"
      using Cons.IH[of "u @ [s]" b c] Cons.prems by auto
    with True Cons.prems show ?thesis by (auto simp: als_read_bits_step fun_eq_iff simp del: als_read_bits.simps)
  next
    case False
    then obtain c' where "als_read_bits d ss (b(s := as_bit (al_frame d ! nat s))) u (if 17 \<le> s then min c (as_bitConf (al_frame d ! nat s)) else c) =
        Some (\<lambda>t. if t \<in> set ss \<and> \<not> als_unread d t then as_bit (al_frame d ! nat t) else (b(s := as_bit (al_frame d ! nat s))) t, u @ filter (als_unread d) ss, c')"
      using Cons.IH[of u "b(s := as_bit (al_frame d ! nat s))"] Cons.prems False by (auto simp del: fun_upd_apply)
    with False Cons.prems show ?thesis by (auto simp: als_read_bits_step fun_eq_iff simp del: als_read_bits.simps)
  qed
qed simp

lemma eu_time_cong:
  assumes "\<And>s. 17 \<le> s \<Longrightarrow> s \<le> 57 \<Longrightarrow> s \<noteq> 19 \<Longrightarrow> b s = b' s"
  shows "eu_time b w = eu_time b' w"
proof -
  have "b 17 = b' 17" "b 21 = b' 21" "b 22 = b' 22" "b 23 = b' 23" "b 24 = b' 24" "b 25 = b' 25" "b 26 = b' 26" "b 27 = b' 27" "b 29 = b' 29" "b 30 = b' 30" "b 31 = b' 31" "b 32 = b' 32" "b 33 = b' 33" "b 34 = b' 34"
    "b 36 = b' 36" "b 37 = b' 37" "b 38 = b' 38" "b 39 = b' 39" "b 40 = b' 40" "b 41 = b' 41" "b 42 = b' 42" "b 43 = b' 43" "b 44 = b' 44" "b 45 = b' 45" "b 46 = b' 46" "b 47 = b' 47" "b 48 = b' 48" "b 49 = b' 49" "b 50 = b' 50" "b 51 = b' 51" "b 52 = b' 52" "b 53 = b' 53" "b 54 = b' 54" "b 55 = b' 55" "b 56 = b' 56" "b 57 = b' 57"
    by (simp_all add: assms)
  then show ?thesis unfolding eu_time_def by (simp only:)
qed

lemma als_decode_bits_cong:
  assumes "\<And>s. 0 \<le> s \<Longrightarrow> s \<le> 58 \<Longrightarrow> b s = b' s"
  shows "allouis_decodeBits b = allouis_decodeBits b'"
proof -
  have "xor_parity b a z = xor_parity b' a z" if "0 \<le> a" "z \<le> 58" for a z
    unfolding xor_parity_def using assms that by (intro fold_cong) auto
  moreover have S: "sum_list (map b [21..58]) = sum_list (map b' [21..58])" using assms by (intro arg_cong[where f = sum_list] map_cong) auto
  moreover have "eu_time b = eu_time b'" using eu_time_cong[of b b'] assms by (simp add: fun_eq_iff)
  ultimately show ?thesis by (simp add: allouis_decodeBits_def assms S del: upto_rec_numeral)
qed

section \<open>The bits filled in\<close>

lemma als_fill_upto:
  assumes "distinct u" "n \<le> length u"
  shows "fold (\<lambda>i b. b(u ! i := int (drop_bit i m mod 2))) [0..<n] b s = (if s \<in> set (take n u) then int (drop_bit (THE i. i < n \<and> u ! i = s) m mod 2) else b s)"
  using assms(2)
proof (induction n)
  case (Suc n)
  have t: "set (take (Suc n) u) = insert (u ! n) (set (take n u))" using Suc.prems by (simp add: take_Suc_conv_app_nth)
  have nin: "u ! n \<notin> set (take n u)" using assms(1) Suc.prems by (auto simp: in_set_conv_nth nth_eq_iff_index_eq)
  show ?case
  proof (cases "s = u ! n")
    case True
    have "(THE i. i < Suc n \<and> u ! i = s) = n" using True assms(1) Suc.prems by (intro the_equality) (auto simp: nth_eq_iff_index_eq)
    with True t show ?thesis by simp
  next
    case False
    then have "(i < Suc n \<and> u ! i = s) = (i < n \<and> u ! i = s)" for i by (auto simp: less_Suc_eq)
    with False t Suc show ?thesis by simp
  qed
qed simp

lemma als_fill_at:
  assumes "distinct u"
  shows "i < length u \<Longrightarrow> als_fill u m b (u ! i) = int (drop_bit i m mod 2)" "s \<notin> set u \<Longrightarrow> als_fill u m b s = b s"
proof -
  assume i: "i < length u"
  have "(THE j. j < length u \<and> u ! j = u ! i) = i" using i assms by (intro the_equality) (auto simp: nth_eq_iff_index_eq)
  then show "als_fill u m b (u ! i) = int (drop_bit i m mod 2)" using i by (simp add: als_fill_def als_fill_upto[OF assms order_refl])
qed (simp add: als_fill_def als_fill_upto[OF assms order_refl])

lemma als_fill_again:
  assumes "distinct u"
  shows "als_fill u m (als_fill u m' b) = als_fill u m b"
proof
  fix s show "als_fill u m (als_fill u m' b) s = als_fill u m b s"
    by (cases "s \<in> set u") (auto simp: in_set_conv_nth als_fill_at[OF assms])
qed

text \<open>Of the fillings tried, the one that decodes is returned if no other does.\<close>

lemma als_try_spec:
  assumes "distinct u"
  shows "als_try u ms b found =
    (case (if found = None then [] else [the found]) @ List.map_filter (\<lambda>m. allouis_decodeBits (als_fill u m b)) ms of [x] \<Rightarrow> Some x | _ \<Rightarrow> None)"
proof (induction ms arbitrary: b found)
  case Nil
  then show ?case by (cases found) (simp_all add: List.map_filter_def)
next
  case (Cons m ms)
  show ?case using Cons.IH[of "als_fill u m b"]
    by (cases found; cases "allouis_decodeBits (als_fill u m b)")
       (simp_all add: map_filter_simps als_fill_again[OF assms] Let_def split: list.split)
qed

text \<open>The fillings of a minute heard as \<open>B\<close> are \<open>B\<close> with its unread bits replaced; one of them is \<open>B\<close> itself.\<close>

lemma als_decode_fillings:
  assumes "als_heard B d" "length (erased d) \<le> 2"
  shows "map_option fst (als_decode d) =
    (case List.map_filter (\<lambda>m. allouis_decodeBits (als_fill (erased d) m B)) [0..<2 ^ length (erased d)] of [x] \<Rightarrow> Some x | _ \<Rightarrow> None)"
proof -
  let ?b = "\<lambda>s. if s \<in> set [0..58] \<and> \<not> als_unread d s then as_bit (al_frame d ! nat s) else 0"
  have "\<exists>c. als_read_bits d [0..58] (\<lambda>_. 0) [] 1 = Some (?b, [] @ filter (als_unread d) [0..58], c)"
    using assms by (intro als_read_bits_heard) (auto simp: als_heard_def erased_def simp del: upto_rec_numeral)
  then obtain c where r: "als_read_bits d [0..58] (\<lambda>_. 0) [] 1 = Some (?b, erased d, c)" by (auto simp: erased_def)
  have dist: "distinct (erased d)" by (simp add: erased_def del: upto_rec_numeral)
  have "allouis_decodeBits (als_fill (erased d) m ?b) = allouis_decodeBits (als_fill (erased d) m B)" for m
  proof (rule als_decode_bits_cong)
    fix s :: int assume s: "0 \<le> s" "s \<le> 58"
    show "als_fill (erased d) m ?b s = als_fill (erased d) m B s"
    proof (cases "s \<in> set (erased d)")
      case True
      then show ?thesis by (auto simp: in_set_conv_nth als_fill_at[OF dist])
    next
      case False
      then have "\<not> als_unread d s" using s by (auto simp: erased_def simp del: upto_rec_numeral)
      then show ?thesis using False s assms(1) by (simp add: als_fill_at(2)[OF dist] als_heard_def)
    qed
  qed
  then show ?thesis unfolding als_decode_def r option.case prod.case by (simp add: als_try_spec[OF dist] split: option.split)
qed

lemma als_fill_none: "als_fill [] m B = B" by (simp add: als_fill_def)

lemma als_fill_one: "als_fill [p] 0 B = B(p := 0)" "als_fill [p] (Suc 0) B = B(p := 1)" by (simp_all add: als_fill_def)

lemma als_fill_sent:
  assumes "distinct u" "length u \<le> 2" "\<And>s. s \<in> set u \<Longrightarrow> B s \<in> {0, 1}"
  shows "\<exists>m < 2 ^ length u. als_fill u m B = B"
proof -
  consider "u = []" | p where "u = [p]" | p q where "u = [p, q]" using assms(2) by (cases u rule: list.exhaust) (auto simp: length_Suc_conv le_Suc_eq numeral_2_eq_2)
  then show ?thesis
  proof cases
    case (2 p)
    then show ?thesis using assms(3)[of p] by (intro exI[of _ "nat (B p)"]) (auto simp: als_fill_def fun_eq_iff)
  next
    case (3 p q)
    then show ?thesis using assms(1) assms(3)[of p] assms(3)[of q]
      by (intro exI[of _ "nat (B p + 2 * B q)"]) (auto simp: als_fill_def fun_eq_iff)
  qed (simp add: als_fill_none)
qed

text \<open>The minute before 00:01 on 1 January 2026, legal time in France, with bit \<open>p\<close> too weak to read.\<close>

definition demo_B :: "int \<Rightarrow> int" where
  "demo_B s = (if s \<in> set [5, 18, 20, 21, 28, 36, 44, 45, 51, 52, 55] then 1 else 0)"

definition demo_als :: "int set \<Rightarrow> AlsDecoder" where
  "demo_als weak = (mk_AllouisDecoder 12000)\<lparr>al_frame :=
     map (\<lambda>s. default_AlsSec\<lparr>as_read := True, as_bit := (if s \<in> weak then 0 else demo_B s), as_bitConf := (if s \<in> weak then 0 else 1)\<rparr>) [0..59]\<rparr>"

lemma demo_B_decodes: "\<exists>x. allouis_decodeBits demo_B = Some x"
proof -
  have "allouis_decodeBits demo_B \<noteq> None" by code_simp
  then show ?thesis by blast
qed

lemma demo_als_frame: "0 \<le> s \<Longrightarrow> s \<le> 58 \<Longrightarrow> al_frame (demo_als weak) ! nat s =
    default_AlsSec\<lparr>as_read := True, as_bit := (if s \<in> weak then 0 else demo_B s), as_bitConf := (if s \<in> weak then 0 else 1)\<rparr>"
  by (simp add: demo_als_def del: upto_rec_numeral)

lemma demo_als_unread: "0 \<le> s \<Longrightarrow> s \<le> 58 \<Longrightarrow> als_unread (demo_als weak) s \<longleftrightarrow> s \<in> weak"
  by (simp add: als_unread_def demo_als_frame default_AlsSec_def als_kBitMinConf_def)

lemma demo_als_heard: "als_heard demo_B (demo_als weak)"
  by (simp add: als_heard_def demo_als_unread demo_als_frame demo_B_def)

lemma demo_als_erased: "erased (demo_als weak) = filter (\<lambda>s. s \<in> weak) [0..58]"
  unfolding erased_def by (intro filter_cong) (simp_all add: demo_als_unread del: upto_rec_numeral)



section \<open>One bit unread\<close>

text \<open>The bits no check covers: the leap second warnings, and the bits that carry nothing of the time.\<close>

definition no_check :: "int \<Rightarrow> bool" where
  "no_check p \<longleftrightarrow> p = 1 \<or> p = 2 \<or> 7 \<le> p \<and> p \<le> 16 \<or> p = 19"

lemma flip_unchecked:
  assumes "allouis_decodeBits B \<noteq> None" "no_check p"
  shows "allouis_decodeBits (B(p := v)) \<noteq> None"
proof -
  let ?b = "B(p := v)"
  have p: "p \<noteq> 0" "p \<noteq> 3" "p \<noteq> 4" "p \<noteq> 5" "p \<noteq> 6" "p \<noteq> 17" "p \<noteq> 18" "p \<noteq> 20" "p < 21" using assms(2) by (auto simp: no_check_def)
  have par: "xor_parity ?b a z = xor_parity B a z" if "21 \<le> a" for a z
    unfolding xor_parity_def using that p(9) by (intro fold_cong) auto
  have ones: "sum_list (map ?b [21..58]) = sum_list (map B [21..58])"
    using p(9) by (intro arg_cong[where f = sum_list] map_cong) auto
  have time: "eu_time ?b w = eu_time B w" for w using assms(2) by (intro eu_time_cong) (auto simp: no_check_def)
  have "eu_time B w = None \<longleftrightarrow> eu_time B w' = None" for w w' by (simp add: eu_time_def Let_def split: prod.split)
  note free = this
  have "B 0 = 0" "B 20 = 1" "B 17 \<noteq> B 18" "xor_parity B 21 28 = 0" "xor_parity B 29 35 = 0" "xor_parity B 36 58 = 0"
    "sum_list (map B [21..58]) = 2 * B 3 + 4 * B 4 + 8 * B 5 + 16 * B 6" "eu_time B (B 1 = 1 \<or> B 2 = 1) \<noteq> None"
    using assms(1) unfolding allouis_decodeBits_def by (metis (full_types))+
  moreover from this(8) have "eu_time B (?b 1 = 1 \<or> ?b 2 = 1) \<noteq> None"
    using free[of "?b 1 = 1 \<or> ?b 2 = 1" "B 1 = 1 \<or> B 2 = 1"] by (simp only: not_False_eq_True)
  ultimately show ?thesis using p by (simp add: allouis_decodeBits_def par ones time del: upto_rec_numeral)
qed

lemma flip_checked:
  assumes "allouis_decodeBits B = Some x" "0 \<le> p" "p \<le> 58" "\<not> no_check p" "B 17 \<in> {0, 1}" "B 18 \<in> {0, 1}" "B p \<in> {0, 1}"
  shows "allouis_decodeBits (B(p := 1 - B p)) = None"
proof (cases "21 \<le> p")
  case True
  then have "\<exists>g \<in> set eu_groups. p \<in> set g" using assms(3) unfolding eu_groups_def by (simp only: list.set bex_simps set_upto atLeastAtMost_iff) auto
  then show ?thesis using allouis.misread_refused[OF assms(1)] by blast
next
  case False
  have ok: "B 0 = 0" "B 20 = 1" "B 17 \<noteq> B 18" "sum_list (map B [21..58]) = 2 * B 3 + 4 * B 4 + 8 * B 5 + 16 * B 6"
    using assms(1) by (simp_all add: allouis_decodeBits_def split: if_splits del: upto_rec_numeral)
  have ones: "sum_list (map (B(p := v)) [21..58]) = sum_list (map B [21..58])" for v
    using False by (intro arg_cong[where f = sum_list] map_cong) auto
  have "p = 0 \<or> p = 20 \<or> p = 17 \<or> p = 18 \<or> p = 3 \<or> p = 4 \<or> p = 5 \<or> p = 6" using assms(2,3,4) False by (auto simp: no_check_def)
  then show ?thesis using ok assms(5-7) by (elim disjE) (auto simp: allouis_decodeBits_def ones simp del: upto_rec_numeral)
qed

text \<open>
  C20: Which unread bit costs an Allouis minute. When all but one bit of a minute that was sent
  correctly is read, and read right, the minute is decoded as sent, unless that bit is one no check
  covers: a leap second warning, bits 1 and 2, or one of the bits 7 to 16 and 19, which carry nothing
  of the time. Both values of such a bit pass, and the minute is refused as ambiguous.
\<close>

theorem one_unread_bit:
  assumes "als_heard B d" "erased d = [p]" "allouis_decodeBits B = Some x"
  shows "map_option fst (als_decode d) = (if no_check p then None else Some x)"
proof -
  have "p \<in> set (erased d)" by (simp add: assms(2))
  then have p: "0 \<le> p" "p \<le> 58" unfolding erased_def by (simp_all del: upto_rec_numeral)
  have b: "B s \<in> {0, 1}" if "0 \<le> s" "s \<le> 58" for s using assms(1) that by (simp add: als_heard_def)
  have two: "[0..<2 ^ length [p]] = [0, Suc 0]" by (simp add: upt_rec)
  have sent: "B(p := B p) = B" by simp
  have f: "map_option fst (als_decode d) =
     (case List.map_filter id [allouis_decodeBits (B(p := 0)), allouis_decodeBits (B(p := 1))] of [x] \<Rightarrow> Some x | _ \<Rightarrow> None)"
    using als_decode_fillings[OF assms(1)] unfolding assms(2) two by (simp add: List.map_filter_def als_fill_one)
  have pv: "B p = 0 \<or> B p = 1" using b[OF p] by auto
  show ?thesis
  proof (cases "no_check p")
    case True
    have "\<exists>y z. allouis_decodeBits (B(p := 0)) = Some y \<and> allouis_decodeBits (B(p := 1)) = Some z"
      using flip_unchecked[OF _ True, of B] assms(3) by auto
    then show ?thesis using f True by (auto simp: List.map_filter_def)
  next
    case False
    have "allouis_decodeBits (B(p := 1 - B p)) = None" using flip_checked[OF assms(3) p False] b p by simp
    moreover have "allouis_decodeBits (B(p := B p)) = Some x" by (simp add: assms(3))
    ultimately show ?thesis using f False pv by (auto simp: List.map_filter_def simp del: fun_upd_triv)
  qed
qed

theorem one_unread_bit_witness:
  "map_option fst (als_decode (demo_als {30})) = Some (the (allouis_decodeBits demo_B)) \<and> map_option fst (als_decode (demo_als {10})) = None"
proof -
  obtain x where x: "allouis_decodeBits demo_B = Some x" using demo_B_decodes by blast
  have "erased (demo_als {30}) = [30]" "erased (demo_als {10}) = [10]" unfolding demo_als_erased by code_simp+
  then show ?thesis
    using one_unread_bit[OF demo_als_heard _ x, of "{30}" 30] one_unread_bit[OF demo_als_heard _ x, of "{10}" 10] by (simp add: x no_check_def)
qed

section \<open>The name of a second\<close>

definition two_best :: "(int \<times> real) set \<Rightarrow> (int \<times> real) option \<Rightarrow> (int \<times> real) option \<Rightarrow> bool" where
  "two_best S best second \<longleftrightarrow>
     (case best of None \<Rightarrow> S = {} \<and> second = None
      | Some x \<Rightarrow> x \<in> S \<and> (\<forall>z \<in> S. snd z \<le> snd x)
          \<and> (case second of None \<Rightarrow> S = {x} | Some y \<Rightarrow> y \<in> S \<and> fst y \<noteq> fst x \<and> (\<forall>z \<in> S. fst z \<noteq> fst x \<longrightarrow> snd z \<le> snd y)))"

lemma best_two_top:
  assumes "two_best S best second" "distinct (map fst xs)" "fst ` S \<inter> fst ` set xs = {}"
  shows "case best_two xs best second of (b, s) \<Rightarrow> two_best (S \<union> set xs) b s"
  using assms
proof (induction xs arbitrary: S best second)
  case (Cons x xs)
  obtain t st where x: "x = (t, st)" by (cases x)
  have new: "fst z \<noteq> t" if "z \<in> S" for z using Cons.prems(3) that by (auto simp: x)
  have rest: "fst ` insert x S \<inter> fst ` set xs = {}" using Cons.prems(2,3) by (auto simp: x)
  have S: "S \<union> set (x # xs) = insert x S \<union> set xs" by auto
  note IH = Cons.IH[OF _ _ rest]
  show ?case
  proof (cases "best = None \<or> snd (the best) < st")
    case True
    have "two_best (insert x S) (Some x) best"
    proof (cases best)
      case None
      then show ?thesis using Cons.prems(1) by (simp add: two_best_def)
    next
      case (Some u)
      then have u: "u \<in> S" "\<And>z. z \<in> S \<Longrightarrow> snd z \<le> snd u" "snd u < st" using Cons.prems(1) True by (auto simp: two_best_def)
      then have "\<forall>z \<in> insert x S. snd z \<le> snd x" by (auto simp: x dest!: u(2))
      moreover have "u \<in> insert x S" "fst u \<noteq> fst x" "\<forall>z \<in> insert x S. fst z \<noteq> fst x \<longrightarrow> snd z \<le> snd u" using u(1,2) new by (auto simp: x)
      ultimately show ?thesis by (simp add: two_best_def Some)
    qed
    then show ?thesis using IH Cons.prems(2) True unfolding S by (simp add: x)
  next
    case F: False
    then obtain u where u: "best = Some u" "st \<le> snd u" by auto
    show ?thesis
    proof (cases "second = None \<or> snd (the second) < st")
      case True
      have "two_best (insert x S) best (Some x)"
      proof -
        have b: "u \<in> S" "\<forall>z \<in> insert x S. snd z \<le> snd u" using Cons.prems(1) u by (auto simp: two_best_def x)
        then have ux: "fst x \<noteq> fst u" using new[OF b(1)] by (simp add: x)
        have "\<forall>z \<in> insert x S. fst z \<noteq> fst u \<longrightarrow> snd z \<le> snd x"
        proof (cases second)
          case None
          then show ?thesis using Cons.prems(1) u by (simp add: two_best_def)
        next
          case (Some y)
          then have "snd y < snd x" "\<forall>z \<in> S. fst z \<noteq> fst u \<longrightarrow> snd z \<le> snd y" using Cons.prems(1) u True by (auto simp: two_best_def x)
          then show ?thesis by force
        qed
        with b ux show ?thesis by (simp add: two_best_def u(1))
      qed
      then show ?thesis using IH Cons.prems(2) True F u(1) unfolding S by (simp add: x)
    next
      case False
      then have "two_best (insert x S) best second"
        using Cons.prems(1) u new by (cases second) (auto simp: two_best_def x)
      then show ?thesis using IH Cons.prems(2) False F u(1) unfolding S by (auto simp: x)
    qed
  qed
qed simp

text \<open>
  A second's position code names it only when it stands clear. Of the scores of the fifty-nine
  codes, the second named is the one that scores six sigma or more and four sigma more than every
  other code; and when there is such a second it is named.
\<close>

theorem position_code_names:
  assumes "length score = 59"
  shows "als_key score = Some (s, v) \<longleftrightarrow>
    0 \<le> s \<and> s \<le> 58 \<and> v = score ! nat s \<and> 6 \<le> v \<and> (\<forall>t. 0 \<le> t \<longrightarrow> t \<le> 58 \<longrightarrow> t \<noteq> s \<longrightarrow> score ! nat t \<le> v - 4)"
proof -
  let ?xs = "zip [0..58] score"
  have len: "length [0..58::int] = 59" by simp
  have fsts: "map fst ?xs = [0..58]" using assms len by (simp only: map_fst_zip)
  have mem: "(t, w) \<in> set ?xs \<longleftrightarrow> 0 \<le> t \<and> t \<le> 58 \<and> w = score ! nat t" for t w
  proof
    assume "(t, w) \<in> set ?xs"
    then obtain i where i: "i < 59" "[0..58] ! i = t" "score ! i = w" using assms len by (auto simp: in_set_zip simp del: upto_rec_numeral)
    moreover have "[0..58::int] ! i = int i" using i(1) by (simp add: nth_upto)
    ultimately show "0 \<le> t \<and> t \<le> 58 \<and> w = score ! nat t" by auto
  next
    assume t: "0 \<le> t \<and> t \<le> 58 \<and> w = score ! nat t"
    then have "nat t < 59" "[0..58] ! nat t = t" by (auto simp: nth_upto nat_less_iff)
    then show "(t, w) \<in> set ?xs" using assms len t by (auto simp: in_set_zip simp del: upto_rec_numeral intro!: exI[of _ "nat t"])
  qed
  obtain b c where r: "best_two ?xs None None = (b, c)" by (metis surj_pair)
  have "two_best ({} \<union> set ?xs) b c"
    using best_two_top[of "{}" None None ?xs] fsts r by (simp add: two_best_def del: upto_rec_numeral)
  then have top: "two_best (set ?xs) b c" by simp
  have two: "(0, score ! 0) \<in> set ?xs" "(1, score ! 1) \<in> set ?xs" unfolding mem by simp_all
  obtain x y where bc: "b = Some x" "c = Some y"
    using top two by (auto simp: two_best_def split: option.splits)
  have x: "x \<in> set ?xs" "y \<in> set ?xs" "fst y \<noteq> fst x" "\<And>z. z \<in> set ?xs \<Longrightarrow> snd z \<le> snd x" "\<And>z. z \<in> set ?xs \<Longrightarrow> fst z \<noteq> fst x \<Longrightarrow> snd z \<le> snd y"
    using top bc by (auto simp: two_best_def)
  have key: "als_key score = (if 6 \<le> snd x \<and> 4 \<le> snd x - snd y then Some x else None)"
    unfolding als_key_def r bc by (simp add: kKeyMinSig_def kKeyMarginSig_def split: prod.split)
  obtain s1 v1 s2 v2 where xy: "x = (s1, v1)" "y = (s2, v2)" by (metis surj_pair)
  have s1: "0 \<le> s1" "s1 \<le> 58" "v1 = score ! nat s1" and s2: "0 \<le> s2" "s2 \<le> 58" "v2 = score ! nat s2" "s2 \<noteq> s1"
    using x(1-3) unfolding xy mem by simp_all
  have le: "score ! nat t \<le> v1" "t \<noteq> s1 \<Longrightarrow> score ! nat t \<le> v2" if "0 \<le> t" "t \<le> 58" for t
    using x(4,5)[of "(t, score ! nat t)"] that unfolding xy mem by simp_all
  show ?thesis
  proof
    assume "als_key score = Some (s, v)"
    then have "6 \<le> v1" "4 \<le> v1 - v2" "s = s1" "v = v1" using key by (auto simp: xy split: if_splits)
    then show "0 \<le> s \<and> s \<le> 58 \<and> v = score ! nat s \<and> 6 \<le> v \<and> (\<forall>t. 0 \<le> t \<longrightarrow> t \<le> 58 \<longrightarrow> t \<noteq> s \<longrightarrow> score ! nat t \<le> v - 4)"
      using s1 le(2) by fastforce
  next
    assume a: "0 \<le> s \<and> s \<le> 58 \<and> v = score ! nat s \<and> 6 \<le> v \<and> (\<forall>t. 0 \<le> t \<longrightarrow> t \<le> 58 \<longrightarrow> t \<noteq> s \<longrightarrow> score ! nat t \<le> v - 4)"
    have "s = s1"
    proof (rule ccontr)
      assume "s \<noteq> s1"
      then have "v1 \<le> v - 4" "v \<le> v1" using a s1 le(1)[of s] by auto
      then show False by simp
    qed
    moreover from this have "v2 \<le> v - 4" using a s2 by auto
    ultimately show "als_key score = Some (s, v)" using key a s1(3) by (simp add: xy)
  qed
qed

text \<open>Second 7 at ten sigma and every other code at one.\<close>

theorem position_code_names_witness: "als_key ((replicate 59 1)[7 := 10]) = Some (7, 10)"
proof -
  have "(replicate 59 (1::real))[7 := 10] ! nat t \<le> 10 - 4" if "0 \<le> t" "t \<le> 58" "t \<noteq> (7::int)" for t
    using that by (simp add: nth_list_update nat_less_iff)
  then show ?thesis by (subst position_code_names) (simp_all add: nth_list_update)
qed

section \<open>The quiet end of a second\<close>

lemma codes_end:
  "list_all (\<lambda>c. length c = 32 \<and> sum_list (take 28 c) = 0 \<and> drop 28 c = [0, 0, 0, 0]) kCodes" "length kCodes = 60" "distinct kCodes"
  by code_simp+

text \<open>
  Every Allouis second ends quiet. From 900 ms on, where the decoder takes the carrier's phase,
  neither the two data excursions nor any second's position code moves it; and no two seconds have
  the same position code.
\<close>

theorem second_ends_quiet:
  assumes "0 \<le> s" "s \<le> 59" "9 / 10 \<le> t"
  shows "codePhase s t = 0 \<and> excursion t = 0 \<and> excursion (t - 4 * kSubSec) = 0 \<and> distinct kCodes"
proof -
  let ?c = "kCodes ! nat s"
  have "?c \<in> set kCodes" using codes_end(2) assms(1,2) by (intro nth_mem) (simp add: nat_less_iff)
  then have c: "length ?c = 32" "sum_list (take 28 ?c) = 0" "drop 28 ?c = [0, 0, 0, 0]" using codes_end(1) by (simp_all add: list_all_iff)
  have "codePhase s t = 0"
  proof (cases "t < 1")
    case True
    define u where "u = (t - kCodeStart) / kSubSec"
    have u: "28 \<le> u" "u < 32" using assms(3) True by (simp_all add: u_def kCodeStart_def kSubSec_def)
    then have k: "28 \<le> trunc u" "trunc u \<le> 31" by (simp_all add: trunc_def le_floor_iff floor_le_iff)
    then obtain j where j: "nat (trunc u) = 28 + j" "j < 4" using le_Suc_ex[of 28 "nat (trunc u)"] by force
    have "sum_list (take (28 + j) ?c) = sum_list (take 28 ?c) + sum_list (take j (drop 28 ?c))" by (simp add: take_add)
    then have "sum_list (take (nat (trunc u)) ?c) = 0" using c j by (auto simp: less_Suc_eq numeral_eq_Suc)
    moreover have "?c ! nat (trunc u) = drop 28 ?c ! j" using c(1) j by simp
    then have "?c ! nat (trunc u) = 0" using c(3) j(2) by (auto simp: less_Suc_eq numeral_eq_Suc)
    ultimately show ?thesis by (simp add: codePhase_def Let_def u_def[symmetric])
  next
    case False
    then show ?thesis by (simp add: codePhase_def kCodeStart_def kCodeSubs_def kSubSec_def)
  qed
  then show ?thesis using assms(3) codes_end(3) by (simp add: excursion_def kSubSec_def)
qed

theorem second_ends_quiet_witness: "codePhase 17 (95 / 100) = 0 \<and> excursion (95 / 100) = 0 \<and> excursion (95 / 100 - 4 * kSubSec) = 0 \<and> distinct kCodes"
  by (rule second_ends_quiet) simp_all

end
