(* ===== verification/Allouis_Lock.thy ===== *)
theory Allouis_Lock
  imports Allouis_Properties Msf_Lock
begin

text \<open>
  The Allouis decoder as a state machine, over every state it can reach: the minute's array is used
  within bounds, a minute is always complete by its own count when it ends, the decoder is locked
  just when the voter has certified the minute just ended, and every time given out was certified.
\<close>

section \<open>What the operations leave alone\<close>

lemma als_emit_simps [simp]:
  "al_lockState (als_emit e d) = al_lockState d" "al_haveVoted (als_emit e d) = al_haveVoted d" "al_anchored (als_emit e d) = al_anchored d"
  "al_sofNext (als_emit e d) = al_sofNext d" "al_frame (als_emit e d) = al_frame d" "al_frFilled (als_emit e d) = al_frFilled d"
  "al_frStart (als_emit e d) = al_frStart d" "al_voter (als_emit e d) = al_voter d" "al_haveLastFrame (als_emit e d) = al_haveLastFrame d"
  "al_unconfirmedRun (als_emit e d) = al_unconfirmedRun d" "al_hist (als_emit e d) = al_hist d" "al_blindSeconds (als_emit e d) = al_blindSeconds d"
  "al_unnamedRun (als_emit e d) = al_unnamedRun d" "al_segValid (als_emit e d) = al_segValid d" "al_sr (als_emit e d) = al_sr d" "al_trk (als_emit e d) = al_trk d"
  "al_votedMinute (als_emit e d) = al_votedMinute d" "al_votedHour (als_emit e d) = al_votedHour d" "al_votedDoy (als_emit e d) = al_votedDoy d"
  "al_votedYear (als_emit e d) = al_votedYear d" "al_lastFrameStart (als_emit e d) = al_lastFrameStart d" "al_lastLeapWarn (als_emit e d) = al_lastLeapWarn d"
  "al_out (als_emit e d) = al_out d @ [e]"
  by (simp_all add: als_emit_def)

lemma als_setLockState_simps [simp]:
  "al_lockState (als_setLockState st d) = st" "al_haveVoted (als_setLockState st d) = al_haveVoted d" "al_anchored (als_setLockState st d) = al_anchored d"
  "al_sofNext (als_setLockState st d) = al_sofNext d" "al_frame (als_setLockState st d) = al_frame d" "al_frFilled (als_setLockState st d) = al_frFilled d"
  "al_frStart (als_setLockState st d) = al_frStart d" "al_voter (als_setLockState st d) = al_voter d" "al_haveLastFrame (als_setLockState st d) = al_haveLastFrame d"
  "al_unconfirmedRun (als_setLockState st d) = al_unconfirmedRun d" "al_hist (als_setLockState st d) = al_hist d" "al_blindSeconds (als_setLockState st d) = al_blindSeconds d"
  "al_unnamedRun (als_setLockState st d) = al_unnamedRun d" "al_segValid (als_setLockState st d) = al_segValid d"
  "al_votedMinute (als_setLockState st d) = al_votedMinute d" "al_votedHour (als_setLockState st d) = al_votedHour d" "al_votedDoy (als_setLockState st d) = al_votedDoy d"
  "al_votedYear (als_setLockState st d) = al_votedYear d" "(OnTime t \<in> set (al_out (als_setLockState st d))) = (OnTime t \<in> set (al_out d))"
  by (simp_all add: als_setLockState_def)

lemma als_demote_simps [simp]:
  "al_lockState (als_demote d) \<noteq> LsLocked" "al_haveVoted (als_demote d) = False" "al_anchored (als_demote d) = al_anchored d"
  "al_sofNext (als_demote d) = al_sofNext d" "al_frame (als_demote d) = al_frame d" "al_frFilled (als_demote d) = al_frFilled d"
  "al_voter (als_demote d) = al_voter d" "al_haveLastFrame (als_demote d) = al_haveLastFrame d" "al_frStart (als_demote d) = al_frStart d"
  "al_unconfirmedRun (als_demote d) = al_unconfirmedRun d" "al_hist (als_demote d) = al_hist d" "al_blindSeconds (als_demote d) = al_blindSeconds d"
  "al_unnamedRun (als_demote d) = al_unnamedRun d" "al_segValid (als_demote d) = al_segValid d"
  "(OnTime t \<in> set (al_out (als_demote d))) = (OnTime t \<in> set (al_out d))"
  by (simp_all add: als_demote_def Let_def)

section \<open>The invariant\<close>

definition als_bounds :: "AlsDecoder \<Rightarrow> bool" where
  "als_bounds d \<longleftrightarrow> length (al_frame d) = 60 \<and> 0 \<le> al_sofNext d \<and> al_sofNext d \<le> 59 \<and> 0 \<le> al_frFilled d \<and> al_frFilled d \<le> 60 \<and> 0 \<le> al_unconfirmedRun d"

definition als_certified :: "AlsDecoder \<Rightarrow> bool" where
  "als_certified d \<longleftrightarrow> (\<exists>ref. locked ref (al_voter d))
     \<and> al_votedMinute d = votedField (al_voter d) FieldMinutes \<and> al_votedHour d = votedField (al_voter d) FieldHours
     \<and> al_votedDoy d = votedField (al_voter d) FieldDoy \<and> al_votedYear d = votedField (al_voter d) FieldYear"

definition als_lock_ok :: "AlsDecoder \<Rightarrow> bool" where
  "als_lock_ok d \<longleftrightarrow> (al_lockState d = LsLocked \<longleftrightarrow> al_haveVoted d) \<and> (al_haveVoted d \<longrightarrow> al_anchored d \<and> al_haveLastFrame d \<and> als_certified d)"

definition als_times_ok :: "VoterConfig \<Rightarrow> AlsDecoder \<Rightarrow> bool" where
  "als_times_ok cfg d \<longleftrightarrow> tv_cfg (al_voter d) = cfg \<and> (\<forall>t. OnTime t \<in> set (al_out d) \<longrightarrow> time_certified StAllouis cfg t)"

definition als_kept :: "AlsDecoder \<Rightarrow> AlsSec list \<times> int \<times> int \<times> bool \<times> ClockTimeInfo set \<times> VoterConfig" where
  "als_kept d = (al_hist d, al_blindSeconds d, al_unnamedRun d, al_segValid d, {t. OnTime t \<in> set (al_out d)}, tv_cfg (al_voter d))"

lemmas als_inv_defs = als_bounds_def als_certified_def als_lock_ok_def als_times_ok_def als_kept_def

definition als_same :: "AlsDecoder \<Rightarrow> AlsDecoder \<Rightarrow> bool" where
  "als_same d e \<longleftrightarrow> als_bounds e \<and> als_lock_ok e \<and> als_kept e = als_kept d"

lemma als_blank_length [simp]: "length als_blank = 60" by (simp add: als_blank_def)

lemma als_same_trans: "als_same d e \<Longrightarrow> als_same e f \<Longrightarrow> als_same d f"
  by (simp add: als_same_def)

lemma als_anchorAt_same:
  assumes "als_bounds d" "\<not> al_haveVoted d" "al_lockState d \<noteq> LsLocked" "0 \<le> sof" "sof \<le> 58"
  shows "als_same d (als_anchorAt sof r d)"
  using assms by (simp add: als_same_def als_anchorAt_def als_inv_defs)

lemma als_counters_same:
  assumes "als_bounds d" "als_lock_ok d"
  shows "als_same d (d\<lparr>al_frMismatches := a, al_slipRun := b, al_frMatches := c\<rparr>)"
  using assms by (simp add: als_same_def als_inv_defs)

lemma als_vote_cases:
  fixes dec :: "(EuDecoded \<times> real) option"
  assumes "als_bounds d" "al_anchored d"
  obtains (certified) e a b where "als_vote ref confirmed dec d = (als_setLockState LsLocked (e\<lparr>al_haveVoted := True\<rparr>))\<lparr>al_frMatches := 0, al_frMismatches := 0\<rparr>"
      "als_certified e" "als_bounds e" "als_kept e = als_kept d" "al_anchored e" "al_haveLastFrame e"
  | (not_certified) e where "als_vote ref confirmed dec d = (als_demote e)\<lparr>al_frMatches := 0, al_frMismatches := 0\<rparr>" "als_bounds e" "als_kept e = als_kept d"
proof -
  define v where "v = (let frame = synthetic_frame (map_option (\<lambda>(x, c). (eu_utc x, \<lambda>_. c)) dec);
      P = (if et_valid (al_trk d) then et_period (al_trk d) else of_int (al_sr d));
      consecutive = (al_haveLastFrame d \<and> \<bar>of_int (al_frStart d - al_lastFrameStart d) - 60 * P\<bar> \<le> 25 / 100 * of_int (al_sr d))
    in addFrame (fr_symbols frame) (fr_confidence frame) (if \<not> consecutive then voter_reset (al_voter d) else al_voter d))"
  define w where "w = (case dec of Some (x, c) \<Rightarrow> eu_leapWarn x | None \<Rightarrow> False)"
  define e where "e = (als_emit (OnFrame (als_frame_info d dec)) d)\<lparr>al_haveLastFrame := True, al_lastFrameStart := al_frStart d, al_voter := v\<rparr>"
  define vt where "vt = (\<lambda>e :: AlsDecoder. e\<lparr>al_votedMinute := votedField v FieldMinutes, al_votedHour := votedField v FieldHours,
                      al_votedDoy := votedField v FieldDoy, al_votedYear := votedField v FieldYear, al_votedQuality := lockConfidence v\<rparr>)"
  have cfg: "tv_cfg v = tv_cfg (al_voter d)" by (simp add: v_def voter_cfg_kept Let_def)
  have e: "als_bounds e" "als_kept e = als_kept d" "al_anchored e" "al_haveLastFrame e" "al_voter e = v"
    using assms by (simp_all add: e_def als_inv_defs cfg)
  let ?c = "(vt e)\<lparr>al_lastLeapWarn := w\<rparr>" and ?n = "e\<lparr>al_lastLeapWarn := w\<rparr>"
  have c: "als_bounds ?c" "als_kept ?c = als_kept d" "al_anchored ?c" "al_haveLastFrame ?c" "locked ref v \<Longrightarrow> als_certified ?c"
    and n: "als_bounds ?n" "als_kept ?n = als_kept d"
    using e by (auto simp add: vt_def als_inv_defs)
  have form: "als_vote ref confirmed dec d =
      (let d' = (if locked ref v then vt e else e);
           leapNext = (case dec of Some (x, c) \<Rightarrow> (eu_leapWarn x \<or> al_lastLeapWarn d') \<and> als_leapSecondPossible (eu_utc x) | None \<Rightarrow> False);
           d' = d'\<lparr>al_lastLeapWarn := w\<rparr>;
           d' = (if locked ref v \<and> confirmed \<and> \<not> leapNext then als_setLockState LsLocked (d'\<lparr>al_haveVoted := True\<rparr>) else als_demote d')
       in d'\<lparr>al_frMatches := 0, al_frMismatches := 0\<rparr>)"
    unfolding als_vote_def Let_def v_def w_def e_def vt_def als_emit_simps AlsDecoder.simps by (rule refl)
  show thesis
  proof (cases "locked ref v")
    case True
    then show ?thesis using form certified[of ?c] not_certified[of ?c] c by (auto simp: Let_def split: if_splits)
  next
    case False
    then show ?thesis using form not_certified[of ?n] n by (auto simp: Let_def)
  qed
qed

lemma als_vote_same:
  assumes "als_bounds d" "al_anchored d"
  shows "als_same d (als_vote ref confirmed dec d)"
  by (cases rule: als_vote_cases[OF assms, where ref = ref and confirmed = confirmed and dec = dec]) (simp_all add: als_same_def als_inv_defs)

lemma als_finalizeFrame_same:
  assumes "als_bounds d" "al_anchored d"
  shows "als_same d (als_finalizeFrame ref d)"
proof -
  have drop: "als_same d ((als_demote (d\<lparr>al_unconfirmedRun := x\<rparr>))\<lparr>al_haveLastFrame := False, al_frMatches := 0, al_frMismatches := 0\<rparr>)" if "0 \<le> x" for x
    using assms(1) that by (simp add: als_same_def als_inv_defs)
  have vote: "als_same d (als_vote ref c dec (d\<lparr>al_unconfirmedRun := x, al_lastFrameFrom := y\<rparr>))" if "0 \<le> x" for x y c dec
  proof -
    have "als_bounds (d\<lparr>al_unconfirmedRun := x, al_lastFrameFrom := y\<rparr>)" "als_kept (d\<lparr>al_unconfirmedRun := x, al_lastFrameFrom := y\<rparr>) = als_kept d"
      using assms(1) that by (simp_all add: als_inv_defs)
    then show ?thesis using als_vote_same[of "d\<lparr>al_unconfirmedRun := x, al_lastFrameFrom := y\<rparr>"] assms(2) by (simp add: als_same_def)
  qed
  have run: "0 \<le> al_unconfirmedRun d" using assms(1) by (simp add: als_bounds_def)
  have id: "d\<lparr>al_unconfirmedRun := al_unconfirmedRun d\<rparr> = d" by simp
  consider "als_contradicted d" | "\<not> als_contradicted d" "als_confirmed d" | "\<not> als_contradicted d" "\<not> als_confirmed d" by blast
  then show ?thesis
  proof cases
    case 1
    then show ?thesis using drop[OF run, unfolded id] by (simp add: als_finalizeFrame_def Let_def)
  next
    case 2
    then show ?thesis using vote[of 0] by (simp add: als_finalizeFrame_def Let_def)
  next
    case 3
    then show ?thesis using vote[of "al_unconfirmedRun d + 1"] drop[of "al_unconfirmedRun d + 1"] run by (simp add: als_finalizeFrame_def Let_def)
  qed
qed

section \<open>One second\<close>

text \<open>A second names one of the coded seconds, or none.\<close>

definition key_ok :: "AlsSec \<Rightarrow> bool" where
  "key_ok r \<longleftrightarrow> -1 \<le> as_key r \<and> as_key r \<le> 58"

lemma best_two_member: "best_two xs b c = (Some x, y) \<Longrightarrow> x \<in> set xs \<or> b = Some x"
  by (induction xs b c rule: best_two.induct) (auto split: if_splits)

lemma als_key_range: "als_key score = Some (s, v) \<Longrightarrow> 0 \<le> s \<and> s \<le> 58"
  using best_two_member[of "zip [0..58] score" None None "(s, v)"]
  by (auto simp: als_key_def simp del: upto_rec_numeral split: prod.splits option.splits if_splits dest!: set_zip_leftD)

lemma als_unanchored_same:
  assumes "als_bounds d" "als_lock_ok d" "\<not> al_anchored d" "key_ok r"
  shows "als_same d (als_unanchored r d)"
proof -
  have "\<not> al_haveVoted d" "al_lockState d \<noteq> LsLocked" using assms(2,3) by (auto simp: als_lock_ok_def)
  then show ?thesis using als_anchorAt_same[OF assms(1)] assms(1,2,4) by (auto simp: als_unanchored_def Let_def key_ok_def als_same_def)
qed

text \<open>A second recorded, and the branches of a second of an anchored minute.\<close>

definition als_put :: "int \<Rightarrow> AlsSec \<Rightarrow> AlsDecoder \<Rightarrow> AlsDecoder" where
  "als_put sof r d = d\<lparr>al_frame := (al_frame d)[nat sof := r], al_frFilled := max (al_frFilled d) (sof + 1), al_sofNext := (sof + 1) smod 60\<rparr>"

lemma als_put_same:
  assumes "als_bounds d" "als_lock_ok d" "0 \<le> sof" "sof \<le> 59"
  shows "als_same d (als_put sof r d)" "al_anchored (als_put sof r d) = al_anchored d" "al_haveVoted (als_put sof r d) = al_haveVoted d"
    "sof = 59 \<Longrightarrow> al_frFilled (als_put sof r d) = 60"
proof -
  have "0 \<le> (sof + 1) smod 60" "(sof + 1) smod 60 \<le> 59" using assms(3) pos_mod_bound[of 60 "sof + 1"] by (simp_all add: smod_nonneg del: pos_mod_bound)
  then show "als_same d (als_put sof r d)" using assms by (simp add: als_put_def als_same_def als_inv_defs)
qed (use assms in \<open>simp_all add: als_put_def als_bounds_def\<close>)

definition als_begun :: "AlsSec \<Rightarrow> AlsDecoder \<Rightarrow> AlsDecoder" where
  "als_begun r d = (if al_sofNext d = 0 then d\<lparr>al_frStart := as_edge r, al_frFilled := 0, al_frMatches := 0, al_frMismatches := 0\<rparr> else d)"

lemma als_anchored_second_cases:
  assumes "als_bounds d" "key_ok r"
  obtains (slipped) a b where "0 \<le> as_key r"
      "als_anchored_second r d = (as_key r, als_put (as_key r) r
         (als_anchorAt (as_key r) r ((als_demote ((als_begun r d)\<lparr>al_frMismatches := a, al_slipRun := b\<rparr>))\<lparr>al_haveLastFrame := False\<rparr>)))"
  | (counted) a b c where "als_anchored_second r d =
      (al_sofNext d, als_put (al_sofNext d) r ((als_begun r d)\<lparr>al_frMismatches := a, al_slipRun := b, al_frMatches := c\<rparr>))"
proof -
  let ?s = "al_sofNext d" and ?d = "als_begun r d"
  have s: "0 \<le> ?s" "?s < 60" using assms(1) by (simp_all add: als_bounds_def)
  note df = als_anchored_second_def[of r d, unfolded Let_def, folded als_begun_def]
  have again: "(als_anchorAt 0 r x)\<lparr>al_frStart := as_edge r\<rparr> = als_anchorAt 0 r x" for x by (simp add: als_anchorAt_def)
  consider (slip) "?s < 59" "0 \<le> as_key r" "as_key r \<noteq> ?s" "2 \<le> al_slipRun ?d + 1" | (miss) "?s < 59" "0 \<le> as_key r" "as_key r \<noteq> ?s" "\<not> 2 \<le> al_slipRun ?d + 1"
    | (match) "?s < 59" "\<not> (0 \<le> as_key r \<and> as_key r \<noteq> ?s)" | (mark) "\<not> ?s < 59" "\<not> as_marker r \<and> als_kStructConf \<le> as_markConf r"
    | (quiet) "\<not> ?s < 59" "\<not> (\<not> as_marker r \<and> als_kStructConf \<le> as_markConf r)" by blast
  then show thesis
  proof cases
    case slip
    have k: "as_key r < 60" using assms(2) by (simp add: key_ok_def)
    show ?thesis using slip k by (intro slipped[where a = "al_frMismatches ?d + 1" and b = "al_slipRun ?d + 1"]) (simp_all add: df als_put_def again)
  next
    case miss
    then show ?thesis using s by (intro counted[where a = "al_frMismatches ?d + 1" and b = "al_slipRun ?d + 1" and c = "al_frMatches ?d"]) (simp add: df als_put_def)
  next
    case match
    define c where "c = (if 3 \<le> as_expSig r then al_frMatches ?d + 1 else al_frMatches ?d)"
    have "als_anchored_second r d = (?s, als_put ?s r (?d\<lparr>al_slipRun := 0, al_frMatches := c\<rparr>))"
      unfolding df if_not_P[OF match(2)] c_def[symmetric] using match(1) s by (simp add: als_put_def)
    then show ?thesis by (intro counted[where a = "al_frMismatches ?d" and b = 0 and c = c]) simp
  next
    case mark
    then show ?thesis using s by (intro counted[where a = "al_frMismatches ?d + 1" and b = "al_slipRun ?d" and c = "al_frMatches ?d"]) (simp add: df als_put_def)
  next
    case quiet
    then show ?thesis using s by (intro counted[where a = "al_frMismatches ?d" and b = "al_slipRun ?d" and c = "al_frMatches ?d"]) (simp add: df if_not_P[OF quiet(2)] als_put_def)
  qed
qed

lemma als_begun_same:
  assumes "als_bounds d" "als_lock_ok d"
  shows "als_same d (als_begun r d)" "al_anchored (als_begun r d) = al_anchored d"
  using assms by (simp_all add: als_begun_def als_same_def als_inv_defs)

lemma als_slip_same:
  assumes "als_bounds d" "0 \<le> sof" "sof \<le> 58"
  shows "als_same d (als_anchorAt sof r ((als_demote (d\<lparr>al_frMismatches := a, al_slipRun := b\<rparr>))\<lparr>al_haveLastFrame := False\<rparr>))"
proof -
  let ?e = "(als_demote (d\<lparr>al_frMismatches := a, al_slipRun := b\<rparr>))\<lparr>al_haveLastFrame := False\<rparr>"
  have "als_bounds ?e" "als_kept ?e = als_kept d" using assms(1) by (simp_all add: als_bounds_def als_kept_def)
  then show ?thesis using als_anchorAt_same[of ?e sof r] assms(2,3) by (simp add: als_same_def)
qed

text \<open>A second of an anchored minute; at its end every minute is complete by its own count.\<close>

lemma als_anchored_second_same:
  assumes "als_bounds d" "als_lock_ok d" "al_anchored d" "key_ok r" "als_anchored_second r d = (sof, d')"
  shows "als_same d d'" "0 \<le> sof" "sof \<le> 59" "al_anchored d'" "sof = 59 \<Longrightarrow> al_frFilled d' = 60"
proof -
  note b = als_begun_same[OF assms(1,2), of r]
  have s: "0 \<le> al_sofNext d" "al_sofNext d \<le> 59" using assms(1) by (simp_all add: als_bounds_def)
  have "als_same d d' \<and> 0 \<le> sof \<and> sof \<le> 59 \<and> al_anchored d' \<and> (sof = 59 \<longrightarrow> al_frFilled d' = 60)"
  proof (rule als_anchored_second_cases[OF assms(1,4)])
    fix a c
    assume slipped: "0 \<le> as_key r" "als_anchored_second r d = (as_key r, als_put (as_key r) r
         (als_anchorAt (as_key r) r ((als_demote ((als_begun r d)\<lparr>al_frMismatches := a, al_slipRun := c\<rparr>))\<lparr>al_haveLastFrame := False\<rparr>)))"
    let ?e = "als_anchorAt (as_key r) r ((als_demote ((als_begun r d)\<lparr>al_frMismatches := a, al_slipRun := c\<rparr>))\<lparr>al_haveLastFrame := False\<rparr>)"
    have k: "as_key r \<le> 58" using assms(4) by (simp add: key_ok_def)
    have e: "als_same d ?e" using als_same_trans[OF b(1) als_slip_same] b(1) slipped(1) k by (simp add: als_same_def)
    have "al_anchored ?e" by (simp add: als_anchorAt_def)
    with e show ?thesis using als_put_same[of ?e "as_key r" r] slipped k assms(5) by (auto simp: als_same_def)
  next
    fix a c m
    assume counted: "als_anchored_second r d =
      (al_sofNext d, als_put (al_sofNext d) r ((als_begun r d)\<lparr>al_frMismatches := a, al_slipRun := c, al_frMatches := m\<rparr>))"
    let ?e = "(als_begun r d)\<lparr>al_frMismatches := a, al_slipRun := c, al_frMatches := m\<rparr>"
    have e: "als_same d ?e" using als_same_trans[OF b(1) als_counters_same] b(1) by (simp add: als_same_def)
    have "al_anchored ?e" using b(2) assms(3) by simp
    with e show ?thesis using als_put_same[of ?e "al_sofNext d" r] counted s assms(5) by (auto simp: als_same_def)
  qed
  then show "als_same d d'" "0 \<le> sof" "sof \<le> 59" "al_anchored d'" "sof = 59 \<Longrightarrow> al_frFilled d' = 60" by blast+
qed

definition als_ok :: "VoterConfig \<Rightarrow> AlsDecoder \<Rightarrow> bool" where
  "als_ok cfg d \<longleftrightarrow> als_bounds d \<and> als_lock_ok d \<and> als_times_ok cfg d"

lemma als_ok_same:
  assumes "als_same d d'" "als_ok cfg d"
  shows "als_ok cfg d'"
proof -
  have "OnTime t \<in> set (al_out d') \<longleftrightarrow> OnTime t \<in> set (al_out d)" for t using assms(1) by (simp add: als_same_def als_kept_def set_eq_iff)
  moreover have "tv_cfg (al_voter d') = tv_cfg (al_voter d)" using assms(1) by (simp add: als_same_def als_kept_def)
  ultimately show ?thesis using assms by (simp add: als_ok_def als_same_def als_times_ok_def)
qed

lemma als_emit_same: "als_bounds d \<Longrightarrow> als_lock_ok d \<Longrightarrow> (\<And>t. ev \<noteq> OnTime t) \<Longrightarrow> als_same d (als_emit ev d)"
  by (auto simp: als_same_def als_inv_defs)

lemma als_emit_time_ok:
  assumes "als_ok cfg d" "al_haveVoted d" "0 \<le> sof" "sof \<le> 59"
  shows "als_ok cfg (als_emit (OnTime (als_time_info r sof d)) d)"
proof -
  have "time_certified StAllouis cfg (als_time_info r sof d)"
    using assms by (auto simp: time_certified_def als_time_info_def als_ok_def als_lock_ok_def als_certified_def als_times_ok_def)
  moreover have "als_bounds (als_emit e d) = als_bounds d" "als_lock_ok (als_emit e d) = als_lock_ok d" for e
    by (simp_all add: als_bounds_def als_lock_ok_def als_certified_def)
  ultimately show ?thesis using assms(1) by (auto simp: als_ok_def als_times_ok_def)
qed

lemma als_handleSecond_ok:
  assumes "als_ok cfg d" "key_ok r"
  shows "als_ok cfg (als_handleSecond ref r m d)" "al_hist (als_handleSecond ref r m d) = al_hist d"
    "al_blindSeconds (als_handleSecond ref r m d) = al_blindSeconds d" "al_unnamedRun (als_handleSecond ref r m d) = al_unnamedRun d"
proof -
  have ok: "als_bounds d" "als_lock_ok d" using assms(1) by (simp_all add: als_ok_def)
  define d1 where "d1 = (if \<not> al_anchored d then als_unanchored r d else d)"
  have d1: "als_same d d1" using als_unanchored_same[OF ok _ assms(2)] ok by (simp add: d1_def als_same_def)
  obtain sof d2 where n: "(if al_anchored d1 then als_anchored_second r d1 else (-1, d1)) = (sof, d2)" by (metis surj_pair)
  have d2: "als_same d d2" "sof \<le> 59" "sof = 59 \<Longrightarrow> al_anchored d2"
  proof -
    have "als_same d1 d2 \<and> sof \<le> 59 \<and> (sof = 59 \<longrightarrow> al_anchored d2)"
    proof (cases "al_anchored d1")
      case True
      have "als_bounds d1" "als_lock_ok d1" using d1 by (simp_all add: als_same_def)
      moreover have "als_anchored_second r d1 = (sof, d2)" using n True by simp
      ultimately show ?thesis using als_anchored_second_same[of d1 r sof d2] True assms(2) by blast
    next
      case False
      then show ?thesis using n d1 by (auto simp: als_same_def)
    qed
    then show "als_same d d2" "sof \<le> 59" "sof = 59 \<Longrightarrow> al_anchored d2" using als_same_trans[OF d1] by blast+
  qed
  define d3 where "d3 = als_emit (OnSecond (als_second_info r m sof)) d2"
  define d4 where "d4 = (if al_anchored d3 \<and> sof = 59 then als_finalizeFrame ref d3 else d3)"
  have d3: "als_same d d3" using als_same_trans[OF d2(1) als_emit_same] d2(1) by (simp add: d3_def als_same_def)
  have d4: "als_same d d4" using als_same_trans[OF d3 als_finalizeFrame_same] d3 by (simp add: d4_def als_same_def)
  then have ok4: "als_ok cfg d4" by (rule als_ok_same[OF _ assms(1)])
  have form: "als_handleSecond ref r m d = (if al_lockState d4 = LsLocked \<and> al_haveVoted d4 \<and> 0 \<le> sof then als_emit (OnTime (als_time_info r sof d4)) d4 else d4)"
    unfolding als_handleSecond_def Let_def d1_def[symmetric] n prod.case d3_def[symmetric] d4_def[symmetric] by (rule refl)
  show "als_ok cfg (als_handleSecond ref r m d)" unfolding form using ok4 als_emit_time_ok[OF ok4] d2(2) by simp
  show "al_hist (als_handleSecond ref r m d) = al_hist d" "al_blindSeconds (als_handleSecond ref r m d) = al_blindSeconds d"
    "al_unnamedRun (als_handleSecond ref r m d) = al_unnamedRun d"
    unfolding form using d4 by (simp_all add: als_same_def als_kept_def)
qed

lemma als_untouched_ok:
  "als_ok cfg (d\<lparr>al_amp := x\<rparr>) = als_ok cfg d" "als_ok cfg (d\<lparr>al_ampHave := b\<rparr>) = als_ok cfg d" "als_ok cfg (d\<lparr>al_lastTimeSig := x\<rparr>) = als_ok cfg d"
  "als_ok cfg (d\<lparr>al_trk := k\<rparr>) = als_ok cfg d" "als_ok cfg (d\<lparr>al_blindSeconds := n\<rparr>) = als_ok cfg d" "als_ok cfg (d\<lparr>al_timing := b\<rparr>) = als_ok cfg d"
  "als_ok cfg (d\<lparr>al_hist := hs\<rparr>) = als_ok cfg d" "als_ok cfg (d\<lparr>al_segEdge := x\<rparr>) = als_ok cfg d" "als_ok cfg (d\<lparr>al_segValid := b\<rparr>) = als_ok cfg d"
  "als_ok cfg (d\<lparr>al_unnamedRun := n\<rparr>) = als_ok cfg d"
  by (simp_all add: als_ok_def als_inv_defs)

lemma als_given_up_ok:
  assumes "als_ok cfg d"
  shows "als_ok cfg (als_dropAnchor (if al_lockState d = LsLocked then als_setLockState LsAcquiring d else d))"
proof -
  let ?e = "if al_lockState d = LsLocked then als_setLockState LsAcquiring d else d"
  have "al_lockState ?e \<noteq> LsLocked" "als_times_ok cfg ?e" using assms by (auto simp: als_ok_def als_times_ok_def)
  then show ?thesis by (simp add: als_ok_def als_bounds_def als_lock_ok_def als_times_ok_def als_dropAnchor_def)
qed

definition als_all_ok :: "VoterConfig \<Rightarrow> AlsDecoder \<Rightarrow> bool" where
  "als_all_ok cfg d \<longleftrightarrow> als_ok cfg d \<and> length (al_hist d) \<le> 8 \<and> 0 \<le> al_blindSeconds d \<and> al_blindSeconds d < 60 \<and> 0 \<le> al_unnamedRun d \<and> al_unnamedRun d < 30"

lemma als_secRec_key: "key_ok (als_secRec m d)"
  using als_key_range[of "am_score m"] by (auto simp: key_ok_def als_secRec_def Let_def split: option.split)

lemma als_giveUp_ok:
  assumes "als_ok cfg d" "length (al_hist d) \<le> 8" "0 \<le> al_blindSeconds d" "0 \<le> al_unnamedRun d"
  shows "als_all_ok cfg (als_giveUp d)"
proof (cases "als_kMaxBlindSeconds \<le> al_blindSeconds d \<or> kMaxUnnamedSeconds \<le> al_unnamedRun d")
  case True
  then show ?thesis using als_given_up_ok[OF assms(1)] by (simp add: als_giveUp_def Let_def als_all_ok_def als_restartAcquisition_def als_untouched_ok)
next
  case False
  then show ?thesis using assms by (simp add: als_giveUp_def als_all_ok_def als_kMaxBlindSeconds_def kMaxUnnamedSeconds_def)
qed

lemma als_timed_form:
  "\<exists>tsig trk ex. als_timed m r d = (kTimeMinSig \<le> tsig, r\<lparr>as_timeSig := tsig, as_edgeExact := Some ex, as_edge := llround ex\<rparr>,
     d\<lparr>al_lastTimeSig := (if kTimeMinSig \<le> tsig then tsig else al_lastTimeSig d), al_trk := trk,
       al_blindSeconds := (if kTimeMinSig \<le> tsig then 0 else al_blindSeconds d + 1), al_timing := (et_valid trk \<and> kTimeMinSig \<le> tsig)\<rparr>)"
  unfolding als_timed_def Let_def case_prod_beta by (intro exI, rule refl)

lemma als_learnAmp_ok:
  "als_ok cfg (als_learnAmp m r d) = als_ok cfg d" "al_hist (als_learnAmp m r d) = al_hist d" "al_unnamedRun (als_learnAmp m r d) = al_unnamedRun d"
  "al_blindSeconds (als_learnAmp m r d) = al_blindSeconds d"
  by (simp_all add: als_learnAmp_def als_untouched_ok)

lemma als_timed_ok:
  assumes "als_timed m r (als_learnAmp m r d) = (meas, r', d')"
  shows "als_ok cfg d' = als_ok cfg d" "al_hist d' = al_hist d" "al_unnamedRun d' = al_unnamedRun d" "0 \<le> al_blindSeconds d \<Longrightarrow> 0 \<le> al_blindSeconds d'"
    "as_key r' = as_key r"
  using als_timed_form[of m r "als_learnAmp m r d"] assms by (auto simp: als_untouched_ok als_learnAmp_ok)

lemma als_processSecond_ok:
  assumes "als_all_ok cfg d"
  shows "als_all_ok cfg (als_processSecond m d)"
proof (cases "am_ready m")
  case False
  then show ?thesis using assms by (simp add: als_processSecond_def als_all_ok_def als_untouched_ok)
next
  case ready: True
  obtain meas r d1 where t: "als_timed m (als_secRec m d) (als_learnAmp m (als_secRec m d) d) = (meas, r, d1)" by (metis prod_cases3)
  define d2 where "d2 = d1\<lparr>al_hist := (if 8 < length (al_hist d1 @ [r]) then tl (al_hist d1 @ [r]) else al_hist d1 @ [r])\<rparr>"
  define d3 where "d3 = als_handleSecond (am_ref m) r meas d2"
  note d1 = als_timed_ok[OF t]
  have d: "als_ok cfg d" "length (al_hist d) \<le> 8" "0 \<le> al_blindSeconds d" "0 \<le> al_unnamedRun d" using assms by (simp_all add: als_all_ok_def)
  have d2: "als_ok cfg d2" "length (al_hist d2) \<le> 8" "0 \<le> al_blindSeconds d2" "0 \<le> al_unnamedRun d2"
    using d d1 by (simp_all add: d2_def als_untouched_ok)
  have "key_ok r" using als_secRec_key[of m d] d1(5) by (simp add: key_ok_def)
  note h = als_handleSecond_ok[OF d2(1) this, of "am_ref m" meas, folded d3_def]
  have d3: "als_ok cfg d3" "length (al_hist d3) \<le> 8" "0 \<le> al_blindSeconds d3" "0 \<le> al_unnamedRun d3" using h d2 by simp_all
  define d4 where "d4 = d3\<lparr>al_segEdge := (if et_valid (al_trk d3) then et_edge (al_trk d3) + et_period (al_trk d3) else al_segEdge d + of_int (al_sr d3))\<rparr>"
  have d4: "als_ok cfg (d4\<lparr>al_unnamedRun := n\<rparr>)" "length (al_hist d4) \<le> 8" "0 \<le> al_blindSeconds d4" "0 \<le> al_unnamedRun d4" for n
    using d3 by (simp_all add: d4_def als_untouched_ok)
  have "als_processSecond m d = als_giveUp (d4\<lparr>al_unnamedRun := (if 0 \<le> as_key r \<or> \<not> am_carrierPresent m \<or> al_anchored d4 \<and> al_sofNext d4 = 0
      then 0 else al_unnamedRun d4 + 1)\<rparr>)"
    using ready unfolding als_processSecond_def Let_def t prod.case d2_def[symmetric] d3_def[symmetric] d4_def[symmetric] by simp
  then show ?thesis using d4 by (simp add: als_giveUp_ok)
qed

section \<open>Reachable states\<close>

text \<open>
  The decoder of a station armed with a reference clock or not, after any sequence of resets,
  carriers found, seconds found by the fold, and seconds.
\<close>

inductive als_reach :: "int \<Rightarrow> bool \<Rightarrow> int \<Rightarrow> AlsDecoder \<Rightarrow> bool" for rate :: int and have_ref :: bool and bound :: int where
  new: "als_reach rate have_ref bound (als_setPlausibility have_ref bound (mk_AllouisDecoder rate))"
| reset: "als_reach rate have_ref bound d \<Longrightarrow> als_reach rate have_ref bound (als_reset d)"
| carrier: "als_reach rate have_ref bound d \<Longrightarrow> al_lockState d = LsNoSignal \<Longrightarrow> als_reach rate have_ref bound (als_startSteady d)"
| found: "als_reach rate have_ref bound d \<Longrightarrow> \<not> al_segValid d \<Longrightarrow> als_reach rate have_ref bound (als_found edge d)"
| second: "als_reach rate have_ref bound d \<Longrightarrow> al_segValid d \<Longrightarrow> als_reach rate have_ref bound (als_processSecond m d)"

definition als_cfg :: "bool \<Rightarrow> int \<Rightarrow> VoterConfig" where
  "als_cfg have_ref bound = tv_cfg (setPlausibility have_ref bound (mk_TimeFrameVoter allouis_voterConfig))"

lemma als_reset_ok: "als_all_ok cfg d \<Longrightarrow> als_all_ok cfg (als_reset d)"
  by (simp add: als_reset_def als_restartAcquisition_def als_dropAnchor_def als_all_ok_def als_ok_def als_bounds_def als_lock_ok_def als_times_ok_def)

lemma als_new_ok: "als_all_ok (als_cfg have_ref bound) (als_setPlausibility have_ref bound (mk_AllouisDecoder rate))"
  by (simp add: mk_AllouisDecoder_def als_setPlausibility_def als_reset_def als_restartAcquisition_def als_dropAnchor_def als_all_ok_def als_ok_def
      als_bounds_def als_lock_ok_def als_times_ok_def als_cfg_def setPlausibility_def als_setLockState_def)

lemma als_startSteady_ok: "als_all_ok cfg d \<Longrightarrow> al_lockState d = LsNoSignal \<Longrightarrow> als_all_ok cfg (als_startSteady d)"
  by (simp add: als_startSteady_def als_all_ok_def als_ok_def als_bounds_def als_lock_ok_def als_times_ok_def)

lemma als_found_ok: "als_all_ok cfg d \<Longrightarrow> als_all_ok cfg (als_found edge d)"
  by (simp add: als_found_def als_all_ok_def als_untouched_ok)

lemma als_reach_ok: "als_reach rate have_ref bound d \<Longrightarrow> als_all_ok (als_cfg have_ref bound) d"
  by (induction rule: als_reach.induct) (simp_all add: als_new_ok als_reset_ok als_startSteady_ok als_found_ok als_processSecond_ok)



end
