(* ===== verification/Wwvb_Envelope.thy ===== *)
theory Wwvb_Envelope
  imports Ntp_Prelude
begin

text \<open>
  The envelope of the WWVB decoder, \<^verbatim>\<open>src/src/clock/WwvbDecoder.cpp\<close>: the ring of the last thousand
  samples, the levels taken from it, and the search for the carrier drop that starts a second. What
  the search sees of the ring is a view, so that the same search runs over the ring and over the whole
  history of samples. Then what the search can be trusted for: a clean drop is found wherever it
  falls in its block, and placed exactly.
\<close>

section \<open>The view\<close>

definition kEnvRateHz :: nat where "kEnvRateHz = 100"
definition wb_kEnvCap :: int where "wb_kEnvCap = 1024"
definition kPctWin :: int where "kPctWin = 300"
definition wb_kEdgeTol :: int where "wb_kEdgeTol = 12"
definition wb_kEdgeLook :: int where "wb_kEdgeLook = 12"
definition wb_kWarmEnv :: int where "wb_kWarmEnv = 200"
definition wb_kMinContrast :: real where "wb_kMinContrast = 14 / 10"

record WwvbView =
  vw_at :: "int \<Rightarrow> real"
  vw_count :: int
  vw_pP10 :: real
  vw_pP90 :: real

definition haveContrast :: "WwvbView \<Rightarrow> bool" where
  "haveContrast w \<longleftrightarrow> wb_kMinContrast * max (vw_pP10 w) (1 / 10 ^ 6) \<le> vw_pP90 w"

definition edgeThresholds :: "WwvbView \<Rightarrow> real \<times> real \<times> real" where
  "edgeThresholds w =
     (let lo = vw_pP10 w; swing = vw_pP90 w - vw_pP10 w in (lo + 6 / 10 * swing, lo + 5 / 10 * swing, lo + 4 / 10 * swing))"

definition sustainedLow :: "WwvbView \<Rightarrow> int \<Rightarrow> real \<Rightarrow> bool" where
  "sustainedLow w i thrLo =
     (let seen = takeWhile (\<lambda>d. i + d < vw_count w) [1..7];
          checked = int (length seen);
          low = int (length (filter (\<lambda>d. vw_at w (i + d) < thrLo) seen))
      in 5 \<le> checked \<and> checked - 1 \<le> low)"

definition isFallingEdge :: "WwvbView \<Rightarrow> int \<Rightarrow> real \<times> real \<times> real \<Rightarrow> bool" where
  "isFallingEdge w i thr =
     (let (thrHi, thrMid, thrLo) = thr
      in if \<not> (thrMid \<le> vw_at w (i - 1) \<and> vw_at w i < thrMid) then False
         else list_ex (\<lambda>d. thrHi \<le> vw_at w (i - d)) [1, 2, 3] \<and> sustainedLow w i thrLo)"

text \<open>The drop's place in the blocks around it, as an index into the envelope; then as a sample.\<close>

definition edgePos :: "WwvbView \<Rightarrow> int \<Rightarrow> real" where
  "edgePos w i =
     (let hi = sum_list (map (\<lambda>d. vw_at w (i - d)) [4, 5, 6, 7, 8]) / 5;
          lo = sum_list (map (\<lambda>d. vw_at w (i + d)) [4, 5, 6, 7, 8, 9, 10]) / 7;
          span' = hi - lo
      in if 1 / 10 ^ 9 < span'
         then clamp (of_int (i - 2) + sum_list (map (\<lambda>k. (vw_at w k - lo) / span') [i - 2, i - 1, i, i + 1, i + 2, i + 3]))
                (of_int i - 15 / 10) (of_int i + 15 / 10)
         else of_int i)"

definition edgeSampleAt :: "int \<Rightarrow> int \<Rightarrow> real \<Rightarrow> WwvbView \<Rightarrow> int \<Rightarrow> real" where
  "edgeSampleAt envBaseSample decim lpfDelay w i = of_int envBaseSample + edgePos w i * of_int decim - lpfDelay"

text \<open>The nearest drop to where the next second is due.\<close>

definition search_near :: "(int \<Rightarrow> bool) \<Rightarrow> int \<Rightarrow> int \<Rightarrow> int \<Rightarrow> int option" where
  "search_near isEdge envCount pred tol =
     (let lo = max (pred - tol) (envCount - wb_kEnvCap + 9);
          hi = min (pred + tol) (envCount - 1 - wb_kEdgeLook);
          (bestEdge, bestDist) =
            fold (\<lambda>i (e, dist). if i < 9 then (e, dist) else if isEdge i \<and> \<bar>i - pred\<bar> < dist then (i, \<bar>i - pred\<bar>) else (e, dist))
              [lo..hi] (pred, tol + 1)
      in if tol < bestDist then None else Some bestEdge)"

definition findFallingEdgeNear :: "WwvbView \<Rightarrow> int \<Rightarrow> int \<Rightarrow> int option" where
  "findFallingEdgeNear w pred tol =
     (if \<not> haveContrast w then None
      else search_near (\<lambda>i. isFallingEdge w i (edgeThresholds w)) (vw_count w) pred tol)"

section \<open>The ring\<close>

record WwvbEnv =
  we_env :: "real list"
  we_count :: int
  we_pP10 :: real
  we_pP90 :: real

definition we_at :: "WwvbEnv \<Rightarrow> int \<Rightarrow> real" where
  "we_at e idx = we_env e ! nat (idx smod wb_kEnvCap)"

text \<open>The \<open>k\<close>th smallest is what \<^verbatim>\<open>std::nth_element\<close> leaves at \<open>k\<close>.\<close>

definition percentiles :: "(int \<Rightarrow> real) \<Rightarrow> int \<Rightarrow> real \<times> real" where
  "percentiles ea envCount =
     (let n = min kPctWin envCount
      in if n < 8 then (0, 0)
         else let scratch = sort (map ea [envCount - n..envCount - 1])
              in (scratch ! nat \<lfloor>1 / 10 * real_of_int n\<rfloor>, scratch ! nat \<lfloor>9 / 10 * real_of_int n\<rfloor>))"

definition we_push :: "real \<Rightarrow> WwvbEnv \<Rightarrow> WwvbEnv" where
  "we_push v e =
     (let e = e\<lparr>we_env := (we_env e)[nat (we_count e smod wb_kEnvCap) := v], we_count := we_count e + 1\<rparr>;
          (p10, p90) = percentiles (we_at e) (we_count e)
      in e\<lparr>we_pP10 := p10, we_pP90 := p90\<rparr>)"

definition we_reset :: "WwvbEnv" where
  "we_reset = \<lparr>we_env = replicate (nat wb_kEnvCap) 0, we_count = 0, we_pP10 = 0, we_pP90 = 0\<rparr>"

definition ring_view :: "WwvbEnv \<Rightarrow> WwvbView" where
  "ring_view e = \<lparr>vw_at = we_at e, vw_count = we_count e, vw_pP10 = we_pP10 e, vw_pP90 = we_pP90 e\<rparr>"

text \<open>The whole history of samples, seen the same way.\<close>

definition hist_at :: "real list \<Rightarrow> int \<Rightarrow> real" where
  "hist_at h idx = h ! nat idx"

definition hist_view :: "real list \<Rightarrow> WwvbView" where
  "hist_view h =
     (let (p10, p90) = percentiles (hist_at h) (int (length h))
      in \<lparr>vw_at = hist_at h, vw_count = int (length h), vw_pP10 = p10, vw_pP90 = p90\<rparr>)"

definition view_agree :: "WwvbView \<Rightarrow> WwvbView \<Rightarrow> bool" where
  "view_agree w w' \<longleftrightarrow> vw_count w = vw_count w' \<and> vw_pP10 w = vw_pP10 w' \<and> vw_pP90 w = vw_pP90 w'
     \<and> (\<forall>i. 0 \<le> i \<and> vw_count w - wb_kEnvCap \<le> i \<and> i < vw_count w \<longrightarrow> vw_at w i = vw_at w' i)"

section \<open>A clean drop is found and placed\<close>

text \<open>The envelope of a carrier that drops from \<open>H\<close> to \<open>L\<close> a fraction \<open>f\<close> into block \<open>j\<close>.\<close>

definition clean_drop :: "real \<Rightarrow> real \<Rightarrow> int \<Rightarrow> real \<Rightarrow> WwvbView \<Rightarrow> bool" where
  "clean_drop H L j f w \<longleftrightarrow> vw_pP90 w = H \<and> vw_pP10 w = L \<and> 1 / 10 ^ 9 < H - L \<and> 0 \<le> f \<and> f < 1
     \<and> (\<forall>k. j - 9 \<le> k \<and> k < j \<longrightarrow> vw_at w k = H) \<and> vw_at w j = L + f * (H - L) \<and> (\<forall>k. j < k \<and> k \<le> j + 12 \<longrightarrow> vw_at w k = L)"

lemma takeWhile_upto_count:
  assumes "i + 7 < n"
  shows "takeWhile (\<lambda>d. i + d < n) [1..7] = ([1, 2, 3, 4, 5, 6, 7] :: int list)"
  using assms by (simp add: upto.simps)

lemma clean_drop_at:
  assumes "clean_drop H L j f w"
  shows "j - 9 \<le> k \<Longrightarrow> k < j \<Longrightarrow> vw_at w k = H" "j < k \<Longrightarrow> k \<le> j + 12 \<Longrightarrow> vw_at w k = L" "vw_at w j = L + f * (H - L)" "L < H" "0 \<le> f" "f < 1"
    "edgeThresholds w = (L + 6 / 10 * (H - L), L + 5 / 10 * (H - L), L + 4 / 10 * (H - L))" "1 / 10 ^ 9 < H - L"
proof -
  have "(0::real) < 1 / 10 ^ 9" by simp
  also have "\<dots> < H - L" using assms by (simp add: clean_drop_def)
  finally show "L < H" by simp
qed (use assms in \<open>simp_all add: clean_drop_def edgeThresholds_def Let_def\<close>)

lemma clean_drop_low:
  assumes "clean_drop H L j f w" "j + 12 < vw_count w" "j \<le> i" "i \<le> j + 1"
  shows "sustainedLow w i (L + 4 / 10 * (H - L))"
proof -
  have "vw_at w (i + d) = L" if "1 \<le> d" "d \<le> 7" for d using clean_drop_at(2)[OF assms(1)] assms(3,4) that by simp
  then show ?thesis using takeWhile_upto_count[of i "vw_count w"] assms clean_drop_at(4)[OF assms(1)] by (simp add: sustainedLow_def Let_def)
qed

lemma clean_drop_pos:
  assumes "clean_drop H L j f w"
  shows "f < 1 / 2 \<Longrightarrow> edgePos w j = of_int j + f" "\<not> f < 1 / 2 \<Longrightarrow> edgePos w (j + 1) = of_int j + f"
proof -
  note c = clean_drop_at[OF assms]
  have d: "(L + f * (H - L) - L) / (H - L) = f" "(H - L) / (H - L) = 1" using c(4) by simp_all
  have m: "(H + (H + (H + (H + H)))) / 5 = H" "(L + (L + (L + (L + (L + (L + L)))))) / 7 = L" by simp_all
  show "edgePos w j = of_int j + f" if "f < 1 / 2"
    using that c(5,8) d m by (simp add: edgePos_def Let_def c(1-3))
  show "edgePos w (j + 1) = of_int j + f" if "\<not> f < 1 / 2"
    using that c(6,8) d m by (simp add: edgePos_def Let_def c(1-3))
qed

text \<open>
  C9: A carrier drop is found wherever it falls within its ten-millisecond block, and placed exactly.
  For a clean drop a fraction f into block j, with eleven more blocks heard after it, the one block
  around it that counts as a falling edge is j, or j + 1 when the drop is past the middle of block j;
  and the edge is then put at exactly j + f.
\<close>

theorem drop_found_exactly:
  assumes "clean_drop H L j f w" "j + 12 < vw_count w" "j - 8 \<le> i" "i \<le> j + 12"
  shows "(isFallingEdge w i (edgeThresholds w) \<longleftrightarrow> i = (if f < 1 / 2 then j else j + 1))
    \<and> edgePos w (if f < 1 / 2 then j else j + 1) = of_int j + f"
proof -
  note c = clean_drop_at[OF assms(1)]
  have mid: "L + 5 / 10 * (H - L) \<le> L + f * (H - L) \<longleftrightarrow> \<not> f < 1 / 2" using c(4) by (simp add: not_less mult_le_cancel_right)
  have hi: "L + 5 / 10 * (H - L) \<le> H" "L + 6 / 10 * (H - L) \<le> H" using c(4) by (simp_all add: field_simps)
  have low: "i = j \<or> i = j + 1 \<Longrightarrow> sustainedLow w i (L + 4 / 10 * (H - L))" using clean_drop_low[OF assms(1,2)] by auto
  have "isFallingEdge w i (edgeThresholds w) \<longleftrightarrow> i = (if f < 1 / 2 then j else j + 1)"
  proof -
    consider "i < j" | "i = j" | "i = j + 1" | "j + 1 < i" by linarith
    then show ?thesis
    proof cases
      case 1
      then show ?thesis using c assms(3) by (simp add: isFallingEdge_def)
    next
      case 2
      then show ?thesis using c(1,3,7) mid low hi by (simp add: isFallingEdge_def not_le[symmetric] del: times_divide_eq_left)
    next
      case 3
      then show ?thesis using c(1-3,4,7) mid low hi by (simp add: isFallingEdge_def del: times_divide_eq_left)
    next
      case 4
      then show ?thesis using c assms(4) by (simp add: isFallingEdge_def)
    qed
  qed
  then show ?thesis using clean_drop_pos[OF assms(1)] by simp
qed

definition demo_drop :: "WwvbView" where
  "demo_drop = \<lparr>vw_at = (\<lambda>k. if k < 50 then 8 else if k = 50 then 6 else 4), vw_count = 70, vw_pP10 = 4, vw_pP90 = 8\<rparr>"

theorem drop_found_exactly_witness: "isFallingEdge demo_drop 51 (edgeThresholds demo_drop) \<and> edgePos demo_drop 51 = 50 + 1 / 2"
  using drop_found_exactly[of 8 4 50 "1 / 2" demo_drop 51] by (simp add: clean_drop_def demo_drop_def)

section \<open>The ring is the history\<close>

lemma view_agree_at: "view_agree w w' \<Longrightarrow> 0 \<le> i \<Longrightarrow> vw_count w - wb_kEnvCap \<le> i \<Longrightarrow> i < vw_count w \<Longrightarrow> vw_at w i = vw_at w' i"
  by (simp add: view_agree_def)

lemma view_agree_levels:
  assumes "view_agree w w'"
  shows "haveContrast w = haveContrast w'" "edgeThresholds w = edgeThresholds w'" "vw_count w = vw_count w'"
  using assms by (simp_all add: view_agree_def haveContrast_def edgeThresholds_def)

lemma isFallingEdge_agree:
  assumes "view_agree w w'" "9 \<le> i" "vw_count w - wb_kEnvCap + 9 \<le> i" "i < vw_count w"
  shows "isFallingEdge w i thr = isFallingEdge w' i thr"
proof -
  let ?seen = "takeWhile (\<lambda>d. i + d < vw_count w) [1..7]"
  have c: "vw_count w' = vw_count w" using view_agree_levels(3)[OF assms(1)] by simp
  have near: "vw_at w (i - d) = vw_at w' (i - d)" if "0 \<le> d" "d \<le> 3" for d using view_agree_at[OF assms(1)] assms(2-4) that by simp
  have "vw_at w (i + d) = vw_at w' (i + d)" if "d \<in> set ?seen" for d
    using set_takeWhileD[OF that] view_agree_at[OF assms(1), of "i + d"] assms(2-4) by auto
  then have "filter (\<lambda>d. vw_at w (i + d) < x) ?seen = filter (\<lambda>d. vw_at w' (i + d) < x) ?seen" for x by (auto intro: filter_cong)
  then have "sustainedLow w i x = sustainedLow w' i x" for x by (simp add: sustainedLow_def Let_def c)
  then show ?thesis using near[of 0] near[of 1] near[of 2] near[of 3] by (simp add: isFallingEdge_def split: prod.split)
qed

lemma edgePos_agree:
  assumes "view_agree w w'" "9 \<le> i" "vw_count w - wb_kEnvCap + 9 \<le> i" "i + wb_kEdgeLook < vw_count w"
  shows "edgePos w i = edgePos w' i"
proof -
  have near: "vw_at w k = vw_at w' k" if "i - 9 \<le> k" "k \<le> i + 10" for k
    using view_agree_at[OF assms(1)] assms(2-4) that by (simp add: wb_kEdgeLook_def)
  show ?thesis by (simp add: edgePos_def Let_def near)
qed

text \<open>Where the search for the next drop can end.\<close>

lemma search_near_range:
  assumes "search_near isEdge n pred tol = Some i" "0 \<le> tol"
  shows "pred - tol \<le> i" "i \<le> pred + tol" "9 \<le> i" "n - wb_kEnvCap + 9 \<le> i" "i + wb_kEdgeLook < n" "isEdge i"
proof -
  define f where "f = (\<lambda>i (e, dist). if i < 9 then (e, dist) else if isEdge i \<and> \<bar>i - pred\<bar> < dist then (i, \<bar>i - pred\<bar>) else (e :: int, dist :: int))"
  let ?lo = "max (pred - tol) (n - wb_kEnvCap + 9)" and ?hi = "min (pred + tol) (n - 1 - wb_kEdgeLook)"
  have keep: "tol < snd (fold f xs (e, dist)) \<or> (fst (fold f xs (e, dist)) = e \<and> dist \<le> tol)
      \<or> (fst (fold f xs (e, dist)) \<in> set xs \<and> 9 \<le> fst (fold f xs (e, dist)) \<and> isEdge (fst (fold f xs (e, dist))))" for xs e dist
  proof (induction xs arbitrary: e dist)
    case (Cons x xs)
    show ?case using Cons.IH[of e dist] Cons.IH[of x "\<bar>x - pred\<bar>"] by (auto simp: f_def split: if_splits)
  qed auto
  have r: "fst (fold f [?lo..?hi] (pred, tol + 1)) = i" "snd (fold f [?lo..?hi] (pred, tol + 1)) \<le> tol"
    using assms(1) by (auto simp: search_near_def Let_def f_def[symmetric] not_less split: if_splits prod.splits)
  have "i \<in> set [?lo..?hi] \<and> 9 \<le> i \<and> isEdge i" using keep[of "[?lo..?hi]" pred "tol + 1"] r assms(2) by auto
  then show "pred - tol \<le> i" "i \<le> pred + tol" "9 \<le> i" "n - wb_kEnvCap + 9 \<le> i" "i + wb_kEdgeLook < n" "isEdge i" by auto
qed

lemma search_near_cong:
  assumes "\<And>i. 9 \<le> i \<Longrightarrow> n - wb_kEnvCap + 9 \<le> i \<Longrightarrow> i < n \<Longrightarrow> f i = g i"
  shows "search_near f n pred tol = search_near g n pred tol"
proof -
  let ?lo = "max (pred - tol) (n - wb_kEnvCap + 9)" and ?hi = "min (pred + tol) (n - 1 - wb_kEdgeLook)"
  have "fold (\<lambda>i (e, dist). if i < 9 then (e, dist) else if f i \<and> \<bar>i - pred\<bar> < dist then (i, \<bar>i - pred\<bar>) else (e, dist)) [?lo..?hi] s
      = fold (\<lambda>i (e, dist). if i < 9 then (e, dist) else if g i \<and> \<bar>i - pred\<bar> < dist then (i, \<bar>i - pred\<bar>) else (e, dist)) [?lo..?hi] s" for s
    using assms by (intro fold_cong refl) (auto simp: wb_kEdgeLook_def fun_eq_iff)
  then show ?thesis by (simp add: search_near_def)
qed

lemma findFallingEdgeNear_range:
  assumes "findFallingEdgeNear w pred tol = Some i" "0 \<le> tol"
  shows "pred - tol \<le> i" "i \<le> pred + tol" "9 \<le> i" "vw_count w - wb_kEnvCap + 9 \<le> i" "i + wb_kEdgeLook < vw_count w"
  using search_near_range[of "\<lambda>i. isFallingEdge w i (edgeThresholds w)" "vw_count w" pred tol i] assms
  by (simp_all add: findFallingEdgeNear_def split: if_splits)

lemma findFallingEdgeNear_agree:
  assumes "view_agree w w'"
  shows "findFallingEdgeNear w pred tol = findFallingEdgeNear w' pred tol"
  using search_near_cong[OF isFallingEdge_agree[OF assms]] by (simp add: findFallingEdgeNear_def view_agree_levels[OF assms, symmetric])

definition ring_holds :: "WwvbEnv \<Rightarrow> real list \<Rightarrow> bool" where
  "ring_holds e h \<longleftrightarrow> length (we_env e) = 1024 \<and> we_count e = int (length h) \<and> (we_pP10 e, we_pP90 e) = percentiles (hist_at h) (int (length h))
     \<and> (\<forall>i. 0 \<le> i \<and> we_count e - wb_kEnvCap \<le> i \<and> i < we_count e \<longrightarrow> we_at e i = hist_at h i)"

lemma ring_holds_view: "ring_holds e h \<Longrightarrow> view_agree (ring_view e) (hist_view h)"
  by (auto simp: ring_holds_def view_agree_def ring_view_def hist_view_def split: prod.splits)

lemma ring_holds_new: "ring_holds we_reset []"
  by (simp add: ring_holds_def we_reset_def percentiles_def wb_kEnvCap_def kPctWin_def)

lemma percentiles_agree:
  assumes "\<And>i. 0 \<le> i \<Longrightarrow> n - kPctWin \<le> i \<Longrightarrow> i < n \<Longrightarrow> f i = g i"
  shows "percentiles f n = percentiles g n"
proof -
  have "map f [n - min kPctWin n..n - 1] = map g [n - min kPctWin n..n - 1]" using assms by (intro map_cong) (auto simp: min_def split: if_splits)
  then show ?thesis unfolding percentiles_def Let_def by (simp only:)
qed

lemma ring_holds_push:
  assumes "ring_holds e h"
  shows "ring_holds (we_push v e) (h @ [v])"
proof -
  define e' where "e' = e\<lparr>we_env := (we_env e)[nat (we_count e smod wb_kEnvCap) := v], we_count := we_count e + 1\<rparr>"
  have n: "we_count e = int (length h)" "length (we_env e) = 1024" using assms by (simp_all add: ring_holds_def)
  have new: "we_at e' i = hist_at (h @ [v]) i" if i: "0 \<le> i" "we_count e + 1 - wb_kEnvCap \<le> i" "i < we_count e + 1" for i
  proof (cases "i = we_count e")
    case True
    then show ?thesis using n by (simp add: e'_def we_at_def hist_at_def smod_nonneg wb_kEnvCap_def)
  next
    case False
    then have old: "we_at e i = hist_at h i" using assms i by (simp add: ring_holds_def)
    have "i mod 1024 \<noteq> we_count e mod 1024"
    proof
      assume "i mod 1024 = we_count e mod 1024"
      then have "1024 dvd we_count e - i" by (metis mod_eq_dvd_iff)
      then show False using zdvd_imp_le[of 1024 "we_count e - i"] False i by (simp add: wb_kEnvCap_def)
    qed
    then have "we_at e' i = we_at e i"
      using i(1) n by (simp add: e'_def we_at_def smod_nonneg wb_kEnvCap_def nat_eq_iff)
    moreover have "nat i < length h" using i False n by linarith
    ultimately show ?thesis using old by (simp add: hist_at_def nth_append)
  qed
  have p: "percentiles (we_at e') (we_count e + 1) = percentiles (hist_at (h @ [v])) (int (length (h @ [v])))"
    using percentiles_agree[of "we_count e + 1" "we_at e'" "hist_at (h @ [v])"] new n by (simp add: kPctWin_def wb_kEnvCap_def add.commute)
  have push: "we_push v e = e'\<lparr>we_pP10 := fst (percentiles (we_at e') (we_count e + 1)), we_pP90 := snd (percentiles (we_at e') (we_count e + 1))\<rparr>"
    by (simp add: we_push_def e'_def Let_def split: prod.split)
  show ?thesis using new n p unfolding push by (simp add: ring_holds_def e'_def we_at_def)
qed

end
