(* ===== verification/Wwvb_Decoder.thy ===== *)
theory Wwvb_Decoder
  imports Wwvb_Envelope Clock_Events Station_Frames Civil_Time
begin

text \<open>
  The WWVB decoder above its envelope, \<^verbatim>\<open>src/src/clock/WwvbDecoder.cpp\<close>: the matched filter that reads a
  second, the edge tracker, the count of seconds from the double marker, leap seconds, and the minute
  handed to the voter and decoded, driven by each new sample of the envelope. The callbacks made are
  logged in the state, oldest first. The tone search and the mixer that make the envelope are not
  modelled; the delay of their filter is a part of the state.
\<close>

section \<open>Reading a second\<close>

definition wb_kStructConf :: real where "wb_kStructConf = 10 / 100"
definition wb_kTrkAlpha :: real where "wb_kTrkAlpha = 1 / 8"
definition wb_kTrkBeta :: real where "wb_kTrkBeta = 1 / 128"
definition wb_kTrkWarm :: int where "wb_kTrkWarm = 8"

definition kMarkerSeconds :: "int list" where
  "kMarkerSeconds = [0, 9, 19, 29, 39, 49, 59]"

definition kSymbolLowLen :: "nat list" where
  "kSymbolLowLen = [20, 50, 80]"

definition isWwvbMarkerSecond :: "int \<Rightarrow> bool" where
  "isWwvbMarkerSecond s = List.member kMarkerSeconds s"

text \<open>The expected envelope of each symbol, its mean taken off, and its norm.\<close>

definition wb_tpl :: "nat \<Rightarrow> nat \<Rightarrow> real" where
  "wb_tpl s k =
     (let low = kSymbolLowLen ! s; e = (\<lambda>k. if k < low then 0 else 1)
      in e k - (\<Sum>j<kEnvRateHz. e j) / of_nat kEnvRateHz)"

definition wb_tplNorm :: "nat \<Rightarrow> real" where
  "wb_tplNorm s = sqrt (\<Sum>k<kEnvRateHz. wb_tpl s k * wb_tpl s k) + 1 / 10 ^ 12"

text \<open>The second's correlation with each template; the best, and its margin over the runner-up.\<close>

definition wb_corr :: "(nat \<Rightarrow> real) \<Rightarrow> nat \<Rightarrow> real" where
  "wb_corr w s =
     (let mean = (\<Sum>k<kEnvRateHz. w k) / of_nat kEnvRateHz;
          v = (\<lambda>k. w k - mean);
          vnorm = sqrt (\<Sum>k<kEnvRateHz. v k * v k) + 1 / 10 ^ 12
      in (\<Sum>k<kEnvRateHz. v k * wb_tpl s k) / (vnorm * wb_tplNorm s))"

definition wb_best :: "(nat \<Rightarrow> real) \<Rightarrow> nat" where
  "wb_best c = fold (\<lambda>s best. if c best < c s then s else best) [1, 2] 0"

definition wb_classify :: "(nat \<Rightarrow> real) \<Rightarrow> ClockSymbol \<times> real" where
  "wb_classify w =
     (let corr = wb_corr w;
          best = wb_best corr;
          runner = fold (\<lambda>s r. if s \<noteq> best \<and> r < corr s then corr s else r) [0, 1, 2] (- (10 ^ 18))
      in (if best = 0 then Zero else if best = 1 then One else Marker, max 0 (corr best - runner)))"

section \<open>State\<close>

record WwvbTrk =
  wt_valid :: bool
  wt_edge :: real
  wt_period :: real
  wt_count :: int
  wt_outliers :: int

record WwvbDec =
  wb_sr :: int
  wb_decim :: int
  wb_lpfDelay :: real
  wb_voter :: TimeFrameVoter
  wb_lockState :: ClockLockState
  wb_envBaseSample :: int
  wb_phaseKnown :: bool
  wb_curStart :: int
  wb_scanPos :: int
  wb_curEdge :: real
  wb_curEdgeMeasured :: bool
  wb_trk :: WwvbTrk
  wb_anchored :: bool
  wb_sofNext :: int
  wb_prevSym :: ClockSymbol
  wb_prevPrevSym :: ClockSymbol
  wb_havePrev :: bool
  wb_leapInserted :: bool
  wb_haveLastFields :: bool
  wb_lastFields :: TimeFields
  wb_lastLeapWarn :: bool
  wb_frSym :: "ClockSymbol list"
  wb_frConf :: "real list"
  wb_frFilledCount :: int
  wb_frStartSample :: int
  wb_haveLastFrame :: bool
  wb_lastFrameS0Env :: int
  wb_haveVoted :: bool
  wb_votedMinute :: int
  wb_votedHour :: int
  wb_votedDoy :: int
  wb_votedYear :: int
  wb_votedQuality :: real
  wb_out :: "ClockEvent list"

definition wb_emit :: "ClockEvent \<Rightarrow> WwvbDec \<Rightarrow> WwvbDec" where
  "wb_emit ev d = d\<lparr>wb_out := wb_out d @ [ev]\<rparr>"

definition wb_setLockState :: "ClockLockState \<Rightarrow> WwvbDec \<Rightarrow> WwvbDec" where
  "wb_setLockState st d =
     (if st \<noteq> wb_lockState d then wb_emit (StateChanged st) (d\<lparr>wb_lockState := st\<rparr>) else d)"

text \<open>The three places that stop certifying: the cached time is dropped, and the lock with it if it was up.\<close>

definition wb_demote :: "WwvbDec \<Rightarrow> WwvbDec" where
  "wb_demote d =
     (let d = d\<lparr>wb_haveVoted := False\<rparr>
      in if wb_lockState d = LsLocked then wb_setLockState LsAcquiring d else d)"

definition wb_trackEdge :: "bool \<Rightarrow> real \<Rightarrow> WwvbDec \<Rightarrow> WwvbTrk" where
  "wb_trackEdge measured raw d =
     (let k = wb_trk d; sr = of_int (wb_sr d)
      in if \<not> wt_valid k
         then \<lparr>wt_valid = measured, wt_edge = raw, wt_period = sr, wt_count = (if measured then 1 else 0), wt_outliers = 0\<rparr>
         else
           let pred = wt_edge k + wt_period k
           in if \<not> measured then k\<lparr>wt_edge := pred\<rparr>
              else
                let r = raw - pred
                in if of_int (wb_decim d) < \<bar>r\<bar> then
                     (if 3 \<le> wt_outliers k + 1 then k\<lparr>wt_edge := raw, wt_period := sr, wt_count := 1, wt_outliers := 0\<rparr>
                      else k\<lparr>wt_outliers := wt_outliers k + 1, wt_edge := pred\<rparr>)
                   else
                     let n = wt_count k + 1;
                         k = k\<lparr>wt_outliers := 0, wt_count := n, wt_edge := pred + max (1 / of_int n) wb_kTrkAlpha * r\<rparr>
                     in if wb_kTrkWarm < n
                        then k\<lparr>wt_period := clamp (wt_period k + wb_kTrkBeta * r) (sr * (1 - 2 / 10 ^ 4)) (sr * (1 + 2 / 10 ^ 4))\<rparr>
                        else k)"

section \<open>Counting the seconds\<close>

definition wb_leapSecondPossible :: "WwvbDec \<Rightarrow> bool" where
  "wb_leapSecondPossible d =
     (if \<not> wb_haveLastFields d then True
      else
        let f = wb_lastFields d
        in if tf_minute f \<noteq> 59 \<or> tf_hour f \<noteq> 23 then False
           else if tf_doy f < 1 \<or> 366 < tf_doy f \<or> tf_year2 f < 0 \<or> 99 < tf_year2 f then False
           else isLastDayOfMonth (utcMsFromFields (tf_year2 f) (tf_doy f) (tf_hour f) (tf_minute f)))"

definition wb_beginFrame :: "int \<Rightarrow> WwvbDec \<Rightarrow> WwvbDec" where
  "wb_beginFrame s0edge d = d\<lparr>wb_frStartSample := s0edge, wb_frFilledCount := 0, wb_frSym := replicate 60 Unknown, wb_frConf := replicate 60 0\<rparr>"

definition wb_updateSync :: "ClockSymbol \<Rightarrow> real \<Rightarrow> int \<Rightarrow> WwvbDec \<Rightarrow> int \<times> WwvbDec" where
  "wb_updateSync symb conf edgeSample d =
     (let marker = (symb = Marker);
          (sof, d) =
            (if \<not> wb_anchored d then
               (if wb_havePrev d \<and> wb_prevSym d = Marker \<and> marker
                then (0, wb_beginFrame edgeSample (d\<lparr>wb_anchored := True, wb_sofNext := 1\<rparr>))
                else (-1, d))
             else if wb_sofNext d = 1 \<and> marker \<and> wb_prevSym d = Marker \<and> wb_prevPrevSym d = Marker \<and> wb_leapSecondPossible d
             then (0, wb_beginFrame edgeSample
                    ((if wb_lockState d = LsLocked then wb_setLockState LsAcquiring (d\<lparr>wb_haveVoted := False\<rparr>) else d)
                     \<lparr>wb_leapInserted := True, wb_sofNext := 1\<rparr>))
             else
               let sof = wb_sofNext d;
                   d = (if sof = 0 then wb_beginFrame edgeSample d else d);
                   d = d\<lparr>wb_sofNext := (sof + 1) smod 60\<rparr>
               in (sof, if wb_lockState d = LsLocked \<and> wb_kStructConf \<le> conf \<and> marker \<noteq> isWwvbMarkerSecond sof
                        then wb_setLockState LsAcquiring (d\<lparr>wb_haveVoted := False\<rparr>) else d))
      in (sof, d\<lparr>wb_prevPrevSym := (if wb_havePrev d then wb_prevSym d else Unknown), wb_prevSym := symb, wb_havePrev := True\<rparr>))"

section \<open>The end of a minute\<close>

definition wb_bit :: "ClockSymbol list \<Rightarrow> int \<Rightarrow> bool" where
  "wb_bit syms s \<longleftrightarrow> syms ! nat s = One"

definition wb_field :: "ClockSymbol list \<Rightarrow> (int \<times> int) list \<Rightarrow> int" where
  "wb_field syms m = fold (\<lambda>(s, wt) v. if wb_bit syms s then v + wt else v) m 0"

definition wb_decodeFrame :: "WwvbDec \<Rightarrow> ClockFrameInfo" where
  "wb_decodeFrame d =
     (let syms = wb_frSym d;
          data = filter (\<lambda>s. \<not> isWwvbMarkerSecond s) [0..59];
          total = sum_list (map (\<lambda>s. wb_frConf d ! nat s) data);
          mag10 = (if wb_bit syms 40 then 8 else 0) + (if wb_bit syms 41 then 4 else 0) + (if wb_bit syms 42 then 2 else 0) + (if wb_bit syms 43 then 1 else 0)
      in \<lparr>fi_minute = wb_field syms [(1, 40), (2, 20), (3, 10), (5, 8), (6, 4), (7, 2), (8, 1)],
          fi_hour = wb_field syms [(12, 20), (13, 10), (15, 8), (16, 4), (17, 2), (18, 1)],
          fi_doy = wb_field syms [(22, 200), (23, 100), (25, 80), (26, 40), (27, 20), (28, 10), (30, 8), (31, 4), (32, 2), (33, 1)],
          fi_year2 = wb_field syms [(45, 80), (46, 40), (47, 20), (48, 10), (50, 8), (51, 4), (52, 2), (53, 1)],
          fi_dut1Tenths = (if wb_bit syms 37 then -1 else 1) * mag10,
          fi_dst1 = wb_bit syms 58, fi_dst2 = wb_bit syms 57, fi_leapPending = wb_bit syms 56,
          fi_frameConfidence = (if data \<noteq> [] then min 1 (max 0 (total / of_nat (length data))) else 0),
          fi_frameStartSample = wb_frStartSample d, fi_station = StWwvb\<rparr>)"

definition wb_frame_ok :: "WwvbDec \<Rightarrow> bool" where
  "wb_frame_ok d \<longleftrightarrow> 60 \<le> wb_frFilledCount d \<and> list_all (\<lambda>m. wb_frSym d ! nat m = Marker) kMarkerSeconds"

definition wb_dropAnchor :: "WwvbDec \<Rightarrow> WwvbDec" where
  "wb_dropAnchor d = wb_setLockState LsAcquiring
     (d\<lparr>wb_anchored := False, wb_havePrev := False, wb_haveLastFrame := False, wb_haveLastFields := False, wb_lastLeapWarn := False,
        wb_leapInserted := False, wb_haveVoted := False, wb_voter := voter_reset (wb_voter d)\<rparr>)"

text \<open>The voter with this minute's frame, after those of the minutes before it if it follows them.\<close>

definition wb_addFrame :: "WwvbDec \<Rightarrow> WwvbDec" where
  "wb_addFrame d =
     (let s0env = (wb_frStartSample d - wb_envBaseSample d) sdiv wb_decim d;
          gapSecs = (if wb_leapInserted d then 61 else 60);
          consecutive = (wb_haveLastFrame d \<and> \<bar>s0env - wb_lastFrameS0Env d - gapSecs * int kEnvRateHz\<bar> \<le> 2 * wb_kEdgeTol)
      in d\<lparr>wb_leapInserted := False, wb_haveLastFrame := True, wb_lastFrameS0Env := s0env,
           wb_voter := addFrame (wb_frSym d) (wb_frConf d) (if \<not> consecutive then voter_reset (wb_voter d) else wb_voter d)\<rparr>)"

definition wb_vote :: "TimeFields \<Rightarrow> ClockFrameInfo \<Rightarrow> WwvbDec \<Rightarrow> WwvbDec" where
  "wb_vote ref fi d0 =
     (let d = wb_addFrame d0;
          voter = wb_voter d;
          certified = locked ref voter;
          d = (if certified
               then d\<lparr>wb_votedMinute := votedField voter FieldMinutes, wb_votedHour := votedField voter FieldHours,
                      wb_votedDoy := votedField voter FieldDoy, wb_votedYear := votedField voter FieldYear,
                      wb_votedQuality := lockConfidence voter\<rparr>
               else d);
          d = d\<lparr>wb_lastFields := (if certified
                   then \<lparr>tf_minute = wb_votedMinute d, tf_hour = wb_votedHour d, tf_doy = wb_votedDoy d, tf_year2 = wb_votedYear d\<rparr>
                   else \<lparr>tf_minute = fi_minute fi, tf_hour = fi_hour fi, tf_doy = fi_doy fi, tf_year2 = fi_year2 fi\<rparr>),
                wb_haveLastFields := True\<rparr>;
          leapNext = ((fi_leapPending fi \<or> wb_lastLeapWarn d) \<and> wb_leapSecondPossible d);
          d = d\<lparr>wb_lastLeapWarn := fi_leapPending fi\<rparr>
      in if certified \<and> \<not> leapNext then wb_setLockState LsLocked (d\<lparr>wb_haveVoted := True\<rparr>) else wb_demote d)"

definition wb_finalizeFrame :: "TimeFields \<Rightarrow> WwvbDec \<Rightarrow> WwvbDec" where
  "wb_finalizeFrame ref d =
     (if \<not> wb_frame_ok d then wb_dropAnchor d
      else let fi = wb_decodeFrame d in wb_vote ref fi (wb_emit (OnFrame fi) d))"

definition wb_recordFrameSecond :: "TimeFields \<Rightarrow> int \<Rightarrow> ClockSymbol \<Rightarrow> real \<Rightarrow> WwvbDec \<Rightarrow> WwvbDec" where
  "wb_recordFrameSecond ref sof symb conf d =
     (let d = d\<lparr>wb_frSym := (wb_frSym d)[nat sof := symb], wb_frConf := (wb_frConf d)[nat sof := conf], wb_frFilledCount := wb_frFilledCount d + 1\<rparr>
      in if sof = 59 then wb_finalizeFrame ref d else d)"

section \<open>One second\<close>

definition wb_time_info :: "int \<Rightarrow> int \<Rightarrow> WwvbDec \<Rightarrow> ClockTimeInfo" where
  "wb_time_info edgeSample sof d =
     \<lparr>ti_minute = wb_votedMinute d, ti_hour = wb_votedHour d, ti_doy = wb_votedDoy d, ti_year2 = wb_votedYear d,
      ti_quality = wb_votedQuality d, ti_lastEdgeSample = edgeSample, ti_lastEdgeSampleExact = Some (wt_edge (wb_trk d)),
      ti_lastEdgeSecondOfFrame = sof, ti_station = StWwvb\<rparr>"

text \<open>A second read as \<open>symb\<close>: its place in the minute, its callbacks, and the time if it is certified.\<close>

definition wb_read :: "TimeFields \<Rightarrow> ClockSymbol \<Rightarrow> real \<Rightarrow> WwvbDec \<Rightarrow> WwvbDec" where
  "wb_read ref symb conf d =
     (let d = d\<lparr>wb_trk := wb_trackEdge (wb_curEdgeMeasured d) (wb_curEdge d) d\<rparr>;
          edgeSample = llround (wt_edge (wb_trk d));
          (sof, d) = wb_updateSync symb conf edgeSample d;
          d = wb_emit (OnSecond \<lparr>si_edgeSample = edgeSample, si_edgeSampleExact = Some (wt_edge (wb_trk d)), si_edgeMeasured = wb_curEdgeMeasured d,
                si_edgeServable = True, si_symbol = symb, si_confidence = conf, si_secondOfFrame = sof\<rparr>) d;
          d = (if wb_anchored d \<and> 0 \<le> sof then wb_recordFrameSecond ref sof symb conf d else d)
      in if wb_lockState d = LsLocked \<and> wb_haveVoted d then wb_emit (OnTime (wb_time_info edgeSample sof d)) d else d)"

definition wb_edgeSampleAt :: "WwvbView \<Rightarrow> WwvbDec \<Rightarrow> int \<Rightarrow> real" where
  "wb_edgeSampleAt w d = edgeSampleAt (wb_envBaseSample d) (wb_decim d) (wb_lpfDelay d) w"

definition wb_classifyAndAdvance :: "TimeFields \<Rightarrow> WwvbView \<Rightarrow> WwvbDec \<Rightarrow> WwvbDec" where
  "wb_classifyAndAdvance ref w d =
     (let (symb, conf) = wb_classify (\<lambda>k. vw_at w (wb_curStart d + int k));
          d = wb_read ref symb conf d;
          pred = wb_curStart d + int kEnvRateHz
      in case findFallingEdgeNear w pred wb_kEdgeTol of
           Some i \<Rightarrow> d\<lparr>wb_curStart := i, wb_curEdge := wb_edgeSampleAt w d i, wb_curEdgeMeasured := True\<rparr>
         | None \<Rightarrow> d\<lparr>wb_curStart := pred, wb_curEdge := wb_curEdge d + of_int (wb_sr d), wb_curEdgeMeasured := False\<rparr>)"

section \<open>One sample of the envelope\<close>

fun wb_seed_loop :: "WwvbView \<Rightarrow> int list \<Rightarrow> WwvbDec \<Rightarrow> WwvbDec" where
  "wb_seed_loop w [] d = d"
| "wb_seed_loop w (i # is) d =
     (let d = d\<lparr>wb_scanPos := i\<rparr>
      in if isFallingEdge w i (edgeThresholds w)
         then d\<lparr>wb_curStart := i, wb_curEdge := wb_edgeSampleAt w d i, wb_curEdgeMeasured := True, wb_phaseKnown := True\<rparr>
         else wb_seed_loop w is d)"

definition wb_seed_lo :: "WwvbView \<Rightarrow> WwvbDec \<Rightarrow> int" where
  "wb_seed_lo w d = max (max (wb_scanPos d) 9) (vw_count w - wb_kEnvCap + 9)"

definition wb_trySeed :: "WwvbView \<Rightarrow> WwvbDec \<Rightarrow> WwvbDec" where
  "wb_trySeed w d =
     (if vw_count w < wb_kWarmEnv \<or> \<not> haveContrast w then d
      else wb_seed_loop w [wb_seed_lo w d..vw_count w - wb_kEdgeLook - 1] d)"

text \<open>A second is ready once its own samples and those the search for the next drop needs are in.\<close>

definition wb_ready :: "WwvbView \<Rightarrow> WwvbDec \<Rightarrow> bool" where
  "wb_ready w d \<longleftrightarrow> wb_phaseKnown d \<and> wb_curStart d + int kEnvRateHz + wb_kEdgeTol + wb_kEdgeLook \<le> vw_count w"

lemma wb_emit_place [simp]:
  "wb_curStart (wb_emit ev d) = wb_curStart d" "wb_phaseKnown (wb_emit ev d) = wb_phaseKnown d" "wb_scanPos (wb_emit ev d) = wb_scanPos d"
  by (simp_all add: wb_emit_def)

lemma wb_setLockState_place [simp]:
  "wb_curStart (wb_setLockState st d) = wb_curStart d" "wb_phaseKnown (wb_setLockState st d) = wb_phaseKnown d"
  "wb_scanPos (wb_setLockState st d) = wb_scanPos d"
  by (simp_all add: wb_setLockState_def)

lemma wb_updateSync_place [simp]:
  "wb_curStart (snd (wb_updateSync symb conf e d)) = wb_curStart d" "wb_phaseKnown (snd (wb_updateSync symb conf e d)) = wb_phaseKnown d"
  by (simp_all add: wb_updateSync_def Let_def wb_beginFrame_def)

lemma wb_vote_place [simp]:
  "wb_curStart (wb_vote ref fi d) = wb_curStart d" "wb_phaseKnown (wb_vote ref fi d) = wb_phaseKnown d"
  by (simp_all add: wb_vote_def wb_demote_def wb_addFrame_def Let_def)

lemma wb_recordFrameSecond_place [simp]:
  "wb_curStart (wb_recordFrameSecond ref sof symb conf d) = wb_curStart d" "wb_phaseKnown (wb_recordFrameSecond ref sof symb conf d) = wb_phaseKnown d"
  by (simp_all add: wb_recordFrameSecond_def wb_finalizeFrame_def wb_dropAnchor_def Let_def)

lemma wb_read_place [simp]:
  "wb_curStart (wb_read ref symb conf d) = wb_curStart d" "wb_phaseKnown (wb_read ref symb conf d) = wb_phaseKnown d"
  unfolding wb_read_def Let_def case_prod_beta by simp_all

lemma wb_classifyAndAdvance_start: "wb_curStart d < wb_curStart (wb_classifyAndAdvance ref w d)"
proof (cases "findFallingEdgeNear w (wb_curStart d + 100) wb_kEdgeTol")
  case None
  then show ?thesis by (simp add: wb_classifyAndAdvance_def Let_def kEnvRateHz_def split: prod.split)
next
  case (Some i)
  then show ?thesis using findFallingEdgeNear_range(1)[OF Some]
    by (simp add: wb_classifyAndAdvance_def Let_def kEnvRateHz_def wb_kEdgeTol_def split: prod.split)
qed

text \<open>The reference clock may be asked for each second read; \<open>ref\<close> gives its answer for the second at an index.\<close>

function wb_seconds_loop :: "(int \<Rightarrow> TimeFields) \<Rightarrow> WwvbView \<Rightarrow> WwvbDec \<Rightarrow> WwvbDec" where
  "wb_seconds_loop ref w d =
     (if wb_ready w d then wb_seconds_loop ref w (wb_classifyAndAdvance (ref (wb_curStart d)) w d) else d)"
  by pat_completeness auto
termination
  by (relation "measure (\<lambda>(ref, w, d). nat (vw_count w - wb_curStart d))")
     (auto simp: wb_ready_def wb_kEdgeTol_def wb_kEdgeLook_def kEnvRateHz_def wb_classifyAndAdvance_start zless_nat_conj)

declare wb_seconds_loop.simps [simp del]

definition wb_processSeconds :: "(int \<Rightarrow> TimeFields) \<Rightarrow> WwvbView \<Rightarrow> WwvbDec \<Rightarrow> WwvbDec" where
  "wb_processSeconds ref w d =
     (let d = (if \<not> wb_phaseKnown d then wb_trySeed w d else d)
      in if \<not> wb_phaseKnown d then d else wb_seconds_loop ref w d)"

definition pushEnvelope :: "(int \<Rightarrow> TimeFields) \<Rightarrow> real \<Rightarrow> WwvbEnv \<times> WwvbDec \<Rightarrow> WwvbEnv \<times> WwvbDec" where
  "pushEnvelope ref v s = (let e = we_push v (fst s) in (e, wb_processSeconds ref (ring_view e) (snd s)))"

section \<open>The decoder's life\<close>

definition wb_startSteady :: "int \<Rightarrow> real \<Rightarrow> WwvbDec \<Rightarrow> WwvbDec" where
  "wb_startSteady samplesConsumed lpfDelay d =
     wb_setLockState LsAcquiring (d\<lparr>wb_envBaseSample := samplesConsumed, wb_lpfDelay := lpfDelay\<rparr>)"

definition wb_reset :: "WwvbDec \<Rightarrow> WwvbDec" where
  "wb_reset d = wb_setLockState LsNoSignal
     (d\<lparr>wb_envBaseSample := 0, wb_phaseKnown := False, wb_curStart := 0, wb_scanPos := 0, wb_curEdge := 0, wb_curEdgeMeasured := False,
        wb_trk := \<lparr>wt_valid = False, wt_edge = 0, wt_period = 0, wt_count = 0, wt_outliers = 0\<rparr>, wb_anchored := False, wb_sofNext := 0,
        wb_prevSym := Unknown, wb_havePrev := False, wb_prevPrevSym := Unknown, wb_frFilledCount := 0, wb_frStartSample := 0,
        wb_haveLastFrame := False, wb_lastFrameS0Env := 0, wb_leapInserted := False, wb_haveLastFields := False,
        wb_lastFields := \<lparr>tf_minute = -1, tf_hour = -1, tf_doy = -1, tf_year2 = -1\<rparr>, wb_lastLeapWarn := False, wb_haveVoted := False,
        wb_votedMinute := -1, wb_votedHour := -1, wb_votedDoy := -1, wb_votedYear := -1, wb_votedQuality := 0, wb_voter := voter_reset (wb_voter d)\<rparr>)"

definition mk_WwvbDecoder :: "int \<Rightarrow> WwvbDec" where
  "mk_WwvbDecoder sampleRateHz =
     (let sr = (if 0 < sampleRateHz then sampleRateHz else 24000)
      in wb_reset \<lparr>wb_sr = sr, wb_decim = max 1 (llround (of_int sr / 100)), wb_lpfDelay = 0, wb_voter = mk_TimeFrameVoter wwvb_voterConfig, wb_lockState = LsNoSignal,
           wb_envBaseSample = 0, wb_phaseKnown = False, wb_curStart = 0, wb_scanPos = 0, wb_curEdge = 0, wb_curEdgeMeasured = False,
           wb_trk = \<lparr>wt_valid = False, wt_edge = 0, wt_period = 0, wt_count = 0, wt_outliers = 0\<rparr>, wb_anchored = False, wb_sofNext = 0,
           wb_prevSym = Unknown, wb_prevPrevSym = Unknown, wb_havePrev = False, wb_leapInserted = False, wb_haveLastFields = False,
           wb_lastFields = \<lparr>tf_minute = -1, tf_hour = -1, tf_doy = -1, tf_year2 = -1\<rparr>, wb_lastLeapWarn = False, wb_frSym = replicate 60 Zero,
           wb_frConf = replicate 60 0, wb_frFilledCount = 0, wb_frStartSample = 0, wb_haveLastFrame = False, wb_lastFrameS0Env = 0,
           wb_haveVoted = False, wb_votedMinute = -1, wb_votedHour = -1, wb_votedDoy = -1, wb_votedYear = -1, wb_votedQuality = 0, wb_out = []\<rparr>)"

definition wb_setPlausibility :: "bool \<Rightarrow> int \<Rightarrow> WwvbDec \<Rightarrow> WwvbDec" where
  "wb_setPlausibility haveReference boundMinutes d = d\<lparr>wb_voter := setPlausibility haveReference boundMinutes (wb_voter d)\<rparr>"

definition wb_station :: "WwvbDec \<Rightarrow> ClockStation" where
  "wb_station d = (if wb_lockState d = LsNoSignal then StUnknown else StWwvb)"

end
