(* ===== verification/Wwvb_Properties.thy ===== *)
theory Wwvb_Properties
  imports Wwvb_Decoder
begin

text \<open>
  What the WWVB decoder's matched filter can be trusted for: the templates are orthogonal enough that
  a second within a tenth of its own swing of a clean one is read as what was sent.
\<close>

section \<open>The templates\<close>

lemma step_sum:
  fixes x y z :: real
  assumes "l1 \<le> l2" "l2 \<le> (100::nat)"
  shows "(\<Sum>k<100. if k < l1 then x else if k < l2 then y else z) = of_nat l1 * x + of_nat (l2 - l1) * y + of_nat (100 - l2) * z"
proof -
  let ?f = "\<lambda>k. if k < l1 then x else if k < l2 then y else z"
  have "{..<100} = {..<l1} \<union> {l1..<l2} \<union> {l2..<100}" using assms by auto
  moreover have "sum ?f ({..<l1} \<union> {l1..<l2} \<union> {l2..<100}) = sum ?f {..<l1} + sum ?f {l1..<l2} + sum ?f {l2..<100}"
    using assms(1) by (simp add: sum.union_disjoint ivl_disj_int Int_Un_distrib2 disjoint_iff)
  moreover have "sum ?f {..<l1} = (\<Sum>k<l1. x)" "sum ?f {l1..<l2} = (\<Sum>k=l1..<l2. y)" "sum ?f {l2..<100} = (\<Sum>k=l2..<100. z)"
    using assms(1) by (auto intro!: sum.cong)
  ultimately show ?thesis by simp
qed

lemma two_step_sum: "l \<le> (100::nat) \<Longrightarrow> (\<Sum>k<100. if k < l then x else y) = of_nat l * x + of_nat (100 - l) * (y::real)"
  using step_sum[of l l x x y] by (simp cong: if_cong)

lemma tail_sum:
  fixes x y :: real
  assumes "l \<le> (100::nat)" "l' \<le> 100"
  shows "(\<Sum>k<100. if k < l then 0 else if k < l' then x else y) = of_nat (l' - l) * x + of_nat (100 - max l l') * y"
proof (cases "l \<le> l'")
  case True
  then show ?thesis using step_sum[of l l' 0 x y] assms by (simp add: max_def)
next
  case False
  then have "(\<Sum>k<100. if k < l then 0 else if k < l' then x else y) = (\<Sum>k<100. if k < l then 0 else y)" by (intro sum.cong) auto
  then show ?thesis using False assms by (simp add: two_step_sum max_def)
qed

lemma wb_tpl_values:
  "wb_tpl 0 k = (if k < 20 then - (8 / 10) else 2 / 10)" "wb_tpl (Suc 0) k = (if k < 50 then - (5 / 10) else 5 / 10)" "wb_tpl 2 k = (if k < 80 then - (2 / 10) else 8 / 10)"
  by (simp_all add: wb_tpl_def kSymbolLowLen_def kEnvRateHz_def two_step_sum Let_def)

lemma wb_tpl_sums:
  "(\<Sum>k<100. wb_tpl 0 k) = 0" "(\<Sum>k<100. wb_tpl (Suc 0) k) = 0" "(\<Sum>k<100. wb_tpl 2 k) = 0"
  "(\<Sum>k<100. \<bar>wb_tpl 0 k\<bar>) = 32" "(\<Sum>k<100. \<bar>wb_tpl (Suc 0) k\<bar>) = 50" "(\<Sum>k<100. \<bar>wb_tpl 2 k\<bar>) = 32"
  unfolding wb_tpl_values if_distrib[of abs] by (simp_all add: two_step_sum)

lemma wb_tplNorms: "wb_tplNorm 0 = 4 + 1 / 10 ^ 12" "wb_tplNorm (Suc 0) = 5 + 1 / 10 ^ 12" "wb_tplNorm 2 = 4 + 1 / 10 ^ 12"
proof -
  have "(\<Sum>k<100. wb_tpl 0 k * wb_tpl 0 k) = (\<Sum>k<100::nat. if k < 20 then 64 / 100 else 4 / 100)"
    "(\<Sum>k<100. wb_tpl (Suc 0) k * wb_tpl (Suc 0) k) = (\<Sum>k<100::nat. if k < 50 then 25 / 100 else 25 / 100)"
    "(\<Sum>k<100. wb_tpl 2 k * wb_tpl 2 k) = (\<Sum>k<100::nat. if k < 80 then 4 / 100 else 64 / 100)"
    by (intro sum.cong refl; simp add: wb_tpl_values)+
  then have "(\<Sum>k<100. wb_tpl 0 k * wb_tpl 0 k) = 4\<^sup>2" "(\<Sum>k<100. wb_tpl (Suc 0) k * wb_tpl (Suc 0) k) = 5\<^sup>2" "(\<Sum>k<100. wb_tpl 2 k * wb_tpl 2 k) = 4\<^sup>2"
    by (simp_all add: two_step_sum)
  then show "wb_tplNorm 0 = 4 + 1 / 10 ^ 12" "wb_tplNorm (Suc 0) = 5 + 1 / 10 ^ 12" "wb_tplNorm 2 = 4 + 1 / 10 ^ 12"
    by (simp_all only: wb_tplNorm_def kEnvRateHz_def real_sqrt_abs abs_numeral)
qed

section \<open>A noisy second\<close>

text \<open>The envelope of a clean second of symbol \<open>s\<close>: low for its time, then up by \<open>swing\<close>.\<close>

definition wb_clean :: "nat \<Rightarrow> real \<Rightarrow> real \<Rightarrow> nat \<Rightarrow> real" where
  "wb_clean s base swing k = base + swing * (if k < kSymbolLowLen ! s then 0 else 1)"

definition wb_dot :: "(nat \<Rightarrow> real) \<Rightarrow> nat \<Rightarrow> real" where
  "wb_dot w t = (\<Sum>k<100. w k * wb_tpl t k)"

lemma wb_corr_dot:
  assumes "t < 3"
  shows "wb_corr w t = wb_dot w t / ((sqrt (\<Sum>k<100. (w k - (\<Sum>k<100. w k) / 100) * (w k - (\<Sum>k<100. w k) / 100)) + 1 / 10 ^ 12) * wb_tplNorm t)"
proof -
  have t: "t = 0 \<or> t = Suc 0 \<or> t = 2" using assms by auto
  have z: "(\<Sum>k<100. wb_tpl t k) = 0" using t wb_tpl_sums(1-3) by auto
  have "(\<Sum>k<100. (w k - c) * wb_tpl t k) = wb_dot w t" for c
    using z by (simp add: wb_dot_def left_diff_distrib sum_subtractf sum_distrib_left[symmetric])
  then show ?thesis by (simp add: wb_corr_def kEnvRateHz_def Let_def)
qed

lemma wb_clean_dots:
  "wb_dot (wb_clean 0 f b) 0 = 16 * b" "wb_dot (wb_clean 0 f b) (Suc 0) = 10 * b" "wb_dot (wb_clean 0 f b) 2 = 4 * b"
  "wb_dot (wb_clean (Suc 0) f b) 0 = 10 * b" "wb_dot (wb_clean (Suc 0) f b) (Suc 0) = 25 * b" "wb_dot (wb_clean (Suc 0) f b) 2 = 10 * b"
  "wb_dot (wb_clean 2 f b) 0 = 4 * b" "wb_dot (wb_clean 2 f b) (Suc 0) = 10 * b" "wb_dot (wb_clean 2 f b) 2 = 16 * b"
proof -
  have clean: "wb_dot (wb_clean s f b) t = f * (\<Sum>k<100. wb_tpl t k) + b * (\<Sum>k<100. if k < kSymbolLowLen ! s then 0 else wb_tpl t k)" for s t
  proof -
    have "wb_clean s f b k * wb_tpl t k = f * wb_tpl t k + b * (if k < kSymbolLowLen ! s then 0 else wb_tpl t k)" for k
      by (simp add: wb_clean_def algebra_simps)
    then show ?thesis by (simp add: wb_dot_def sum.distrib sum_distrib_left)
  qed
  show "wb_dot (wb_clean 0 f b) 0 = 16 * b" "wb_dot (wb_clean 0 f b) (Suc 0) = 10 * b" "wb_dot (wb_clean 0 f b) 2 = 4 * b"
    "wb_dot (wb_clean (Suc 0) f b) 0 = 10 * b" "wb_dot (wb_clean (Suc 0) f b) (Suc 0) = 25 * b" "wb_dot (wb_clean (Suc 0) f b) 2 = 10 * b"
    "wb_dot (wb_clean 2 f b) 0 = 4 * b" "wb_dot (wb_clean 2 f b) (Suc 0) = 10 * b" "wb_dot (wb_clean 2 f b) 2 = 16 * b"
    unfolding clean wb_tpl_sums(1-3) unfolding wb_tpl_values by (simp_all add: kSymbolLowLen_def tail_sum)
qed

lemma wb_noise_bound:
  assumes "\<And>k. k < 100 \<Longrightarrow> \<bar>w k - c k\<bar> \<le> e"
  shows "\<bar>wb_dot w t - wb_dot c t\<bar> \<le> e * (\<Sum>k<100. \<bar>wb_tpl t k\<bar>)"
proof -
  have "wb_dot w t - wb_dot c t = (\<Sum>k<100. (w k - c k) * wb_tpl t k)" by (simp add: wb_dot_def left_diff_distrib sum_subtractf)
  moreover have "\<bar>\<Sum>k<100. (w k - c k) * wb_tpl t k\<bar> \<le> (\<Sum>k<100. \<bar>(w k - c k) * wb_tpl t k\<bar>)" by (rule sum_abs)
  moreover have "(\<Sum>k<100. \<bar>(w k - c k) * wb_tpl t k\<bar>) \<le> (\<Sum>k<100. e * \<bar>wb_tpl t k\<bar>)"
    using assms by (intro sum_mono) (simp add: abs_mult mult_right_mono)
  ultimately show ?thesis by (simp only: sum_distrib_left)
qed

lemma wb_corr_less:
  assumes "s < 3" "t < 3" "wb_dot w t * wb_tplNorm s < wb_dot w s * wb_tplNorm t"
  shows "wb_corr w t < wb_corr w s"
proof -
  let ?v = "sqrt (\<Sum>k<100. (w k - (\<Sum>k<100. w k) / 100) * (w k - (\<Sum>k<100. w k) / 100)) + 1 / 10 ^ 12"
  have v: "0 < ?v" by (rule add_nonneg_pos) (simp_all add: sum_nonneg)
  have n: "0 < wb_tplNorm u" if "u < 3" for u using that wb_tplNorms by (auto simp: less_Suc_eq numeral_3_eq_3 numeral_2_eq_2)
  have "wb_dot w t / wb_tplNorm t < wb_dot w s / wb_tplNorm s"
    using assms(3) n[OF assms(1)] n[OF assms(2)] by (simp add: frac_less2 divide_less_eq less_divide_eq mult.commute)
  then have "wb_dot w t / wb_tplNorm t / ?v < wb_dot w s / wb_tplNorm s / ?v" using v by (rule divide_strict_right_mono)
  then show ?thesis unfolding wb_corr_dot[OF assms(1)] wb_corr_dot[OF assms(2)] by (simp only: divide_divide_eq_left mult.commute)
qed

text \<open>
  C10: A noisy WWVB second is read as what was sent. Whatever its level and however deep its carrier
  is cut, a second every sample of whose envelope is within a tenth of the cut of a clean second's is
  read as that second's symbol.
\<close>

theorem noisy_second_read:
  assumes "s < 3" "0 < swing" "\<And>k. k < 100 \<Longrightarrow> \<bar>w k - wb_clean s base swing k\<bar> \<le> swing / 10"
  shows "fst (wb_classify w) = [Zero, One, Marker] ! s"
proof -
  have near: "\<bar>wb_dot w t - wb_dot (wb_clean s base swing) t\<bar> \<le> swing / 10 * (\<Sum>k<100. \<bar>wb_tpl t k\<bar>)" for t
    by (rule wb_noise_bound) (rule assms(3))
  note n = near[of 0, unfolded wb_tpl_sums(4)] near[of "Suc 0", unfolded wb_tpl_sums(5)] near[of 2, unfolded wb_tpl_sums(6)]
  have win: "wb_corr w t < wb_corr w s" if "t < 3" "t \<noteq> s" for t
  proof (rule wb_corr_less[OF assms(1) that(1)])
    have "s = 0 \<or> s = Suc 0 \<or> s = 2" "t = 0 \<or> t = Suc 0 \<or> t = 2" using assms(1) that(1) by auto
    then show "wb_dot w t * wb_tplNorm s < wb_dot w s * wb_tplNorm t"
      using that(2) n[THEN abs_le_D1] n[THEN abs_le_D2] assms(2)
      by (elim disjE; simp add: wb_clean_dots wb_tplNorms field_simps)
  qed
  have "wb_best (wb_corr w) = s"
    using assms(1) win[of 0] win[of 1] win[of 2] by (auto simp: wb_best_def less_Suc_eq numeral_3_eq_3 numeral_2_eq_2)
  then show ?thesis using assms(1) by (auto simp: wb_classify_def Let_def less_Suc_eq numeral_3_eq_3)
qed

theorem noisy_second_read_witness: "fst (wb_classify (\<lambda>k. wb_clean 1 3 2 k + (if k mod 2 = 0 then 1 / 10 else - (2 / 10)))) = One"
  using noisy_second_read[of 1 2 "\<lambda>k. wb_clean 1 3 2 k + (if k mod 2 = 0 then 1 / 10 else - (2 / 10))" 3] by simp

end
