(* ===== verification/Wwvb_Ring.thy ===== *)
theory Wwvb_Ring
  imports Wwvb_Decoder
begin

text \<open>
  The WWVB decoder keeps the last 1024 samples of its envelope, and decides as if it kept them all:
  after any samples, the decoder over the ring is in the state of one that never forgets a sample.
\<close>

section \<open>A decoder that never forgets\<close>

definition pushHistory :: "(int \<Rightarrow> TimeFields) \<Rightarrow> real \<Rightarrow> real list \<times> WwvbDec \<Rightarrow> real list \<times> WwvbDec" where
  "pushHistory ref v s = (let h = fst s @ [v] in (h, wb_processSeconds ref (hist_view h) (snd s)))"

definition ring_run :: "((int \<Rightarrow> TimeFields) \<times> real) list \<Rightarrow> WwvbDec \<Rightarrow> WwvbEnv \<times> WwvbDec" where
  "ring_run xs d = fold (\<lambda>(ref, v). pushEnvelope ref v) xs (we_reset, d)"

definition history_run :: "((int \<Rightarrow> TimeFields) \<times> real) list \<Rightarrow> WwvbDec \<Rightarrow> real list \<times> WwvbDec" where
  "history_run xs d = fold (\<lambda>(ref, v). pushHistory ref v) xs ([], d)"

section \<open>What a second reads\<close>

lemma wb_corr_cong: "(\<And>k. k < 100 \<Longrightarrow> f k = g k) \<Longrightarrow> wb_corr f = wb_corr g"
  by (simp add: wb_corr_def kEnvRateHz_def fun_eq_iff)

lemma wb_classify_cong: "(\<And>k. k < 100 \<Longrightarrow> f k = g k) \<Longrightarrow> wb_classify f = wb_classify g"
  using wb_corr_cong[of f g] by (simp add: wb_classify_def)

text \<open>The second about to be read starts within the ring.\<close>

definition wb_placed :: "int \<Rightarrow> WwvbDec \<Rightarrow> bool" where
  "wb_placed n d \<longleftrightarrow> (wb_phaseKnown d \<longrightarrow> 9 \<le> wb_curStart d \<and> n - wb_kEnvCap \<le> wb_curStart d)"

lemma wb_classifyAndAdvance_agree:
  assumes "view_agree w w'" "wb_ready w d" "wb_placed (vw_count w) d"
  shows "wb_classifyAndAdvance ref w d = wb_classifyAndAdvance ref w' d"
proof -
  have start: "9 \<le> wb_curStart d" "vw_count w - wb_kEnvCap \<le> wb_curStart d" "wb_curStart d + 124 \<le> vw_count w"
    using assms(2,3) by (simp_all add: wb_ready_def wb_placed_def kEnvRateHz_def wb_kEdgeTol_def wb_kEdgeLook_def)
  have "wb_classify (\<lambda>k. vw_at w (wb_curStart d + int k)) = wb_classify (\<lambda>k. vw_at w' (wb_curStart d + int k))"
    using view_agree_at[OF assms(1)] start by (intro wb_classify_cong) simp
  moreover have "wb_edgeSampleAt w e i = wb_edgeSampleAt w' e i" if "findFallingEdgeNear w pred wb_kEdgeTol = Some i" for e i pred
    using edgePos_agree[OF assms(1)] findFallingEdgeNear_range[OF that] by (simp add: wb_edgeSampleAt_def edgeSampleAt_def wb_kEdgeTol_def)
  ultimately show ?thesis
    unfolding wb_classifyAndAdvance_def Let_def findFallingEdgeNear_agree[OF assms(1), symmetric] by (auto split: prod.split option.split)
qed

lemma wb_classifyAndAdvance_known [simp]: "wb_phaseKnown (wb_classifyAndAdvance ref w d) = wb_phaseKnown d"
  by (simp add: wb_classifyAndAdvance_def Let_def split: prod.split option.split)

lemma wb_classifyAndAdvance_placed: "wb_placed n d \<Longrightarrow> wb_placed n (wb_classifyAndAdvance ref w d)"
  using wb_classifyAndAdvance_start[of d ref w] by (auto simp: wb_placed_def)

lemma wb_seconds_loop_agree:
  assumes "view_agree w w'" "wb_placed (vw_count w) d"
  shows "wb_seconds_loop ref w d = wb_seconds_loop ref w' d"
  using assms
proof (induction ref w d rule: wb_seconds_loop.induct)
  case (1 ref w d)
  have "wb_ready w d = wb_ready w' d" using view_agree_levels(3)[OF 1(2)] by (simp add: wb_ready_def)
  then show ?case
    using 1 wb_classifyAndAdvance_agree[OF 1(2) _ 1(3)] wb_classifyAndAdvance_placed[OF 1(3)]
    by (simp add: wb_seconds_loop.simps[of ref w d] wb_seconds_loop.simps[of ref w' d])
qed

lemma wb_seconds_loop_done:
  assumes "wb_placed n d"
  shows "wb_placed n (wb_seconds_loop ref w d)" "\<not> wb_ready w (wb_seconds_loop ref w d)" "wb_phaseKnown (wb_seconds_loop ref w d) = wb_phaseKnown d"
  using assms
proof (induction ref w d rule: wb_seconds_loop.induct)
  case (1 ref w d)
  case 1 then show ?case using "1.IH"(1) wb_classifyAndAdvance_placed by (simp add: wb_seconds_loop.simps[of ref w d])
  case 2 then show ?case using "1.IH"(2) wb_classifyAndAdvance_placed by (simp add: wb_seconds_loop.simps[of ref w d])
  case 3 then show ?case using "1.IH"(3) wb_classifyAndAdvance_placed by (simp add: wb_seconds_loop.simps[of ref w d])
qed

section \<open>Seeding\<close>

lemma wb_seed_loop_agree:
  assumes "view_agree w w'" "\<forall>i \<in> set is. 9 \<le> i \<and> vw_count w - wb_kEnvCap + 9 \<le> i \<and> i + wb_kEdgeLook < vw_count w"
  shows "wb_seed_loop w is d = wb_seed_loop w' is d"
  using assms(2)
proof (induction "is" arbitrary: d)
  case (Cons i "is")
  have "i < vw_count w" using Cons.prems by (simp add: wb_kEdgeLook_def)
  then show ?case using Cons isFallingEdge_agree[OF assms(1), of i] edgePos_agree[OF assms(1), of i] view_agree_levels(2)[OF assms(1)]
    by (simp add: Let_def wb_edgeSampleAt_def edgeSampleAt_def)
qed simp

lemma wb_seed_loop_place:
  assumes "\<not> wb_phaseKnown d" "wb_phaseKnown (wb_seed_loop w is d)"
  shows "wb_curStart (wb_seed_loop w is d) \<in> set is"
  using assms by (induction w "is" d rule: wb_seed_loop.induct) (auto simp: Let_def split: if_splits)

lemma wb_trySeed_agree: "view_agree w w' \<Longrightarrow> wb_trySeed w d = wb_trySeed w' d"
  using wb_seed_loop_agree[of w w' "[wb_seed_lo w d..vw_count w - wb_kEdgeLook - 1]" d] view_agree_levels[of w w']
  by (auto simp: wb_trySeed_def wb_seed_lo_def)

lemma wb_trySeed_placed: "\<not> wb_phaseKnown d \<Longrightarrow> wb_placed (vw_count w) (wb_trySeed w d)"
  using wb_seed_loop_place[of d w "[wb_seed_lo w d..vw_count w - wb_kEdgeLook - 1]"]
  by (auto simp: wb_trySeed_def wb_placed_def wb_seed_lo_def)

section \<open>One sample\<close>

text \<open>Between samples a known second is within its window of the newest sample.\<close>

definition wb_waiting :: "int \<Rightarrow> WwvbDec \<Rightarrow> bool" where
  "wb_waiting n d \<longleftrightarrow> (wb_phaseKnown d \<longrightarrow> 9 \<le> wb_curStart d \<and> n < wb_curStart d + 124)"

lemma wb_waiting_placed: "wb_waiting n d \<Longrightarrow> wb_placed (n + 1) d"
  by (auto simp: wb_waiting_def wb_placed_def wb_kEnvCap_def)

lemma wb_processSeconds_agree:
  assumes "view_agree w w'" "wb_placed (vw_count w) d"
  shows "wb_processSeconds ref w d = wb_processSeconds ref w' d"
  using wb_trySeed_agree[OF assms(1), of d] wb_trySeed_placed[of d w] wb_seconds_loop_agree[OF assms(1)] assms(2)
  by (simp add: wb_processSeconds_def Let_def)

lemma wb_processSeconds_waiting:
  assumes "wb_placed (vw_count w) d"
  shows "wb_waiting (vw_count w) (wb_processSeconds ref w d)"
proof -
  define d' where "d' = (if \<not> wb_phaseKnown d then wb_trySeed w d else d)"
  have p: "wb_placed (vw_count w) d'" using assms wb_trySeed_placed by (simp add: d'_def)
  have "wb_processSeconds ref w d = (if \<not> wb_phaseKnown d' then d' else wb_seconds_loop ref w d')"
    by (simp add: wb_processSeconds_def d'_def)
  then show ?thesis using p wb_seconds_loop_done[OF p, where w = w and ref = ref]
    by (auto simp: wb_waiting_def wb_placed_def wb_ready_def kEnvRateHz_def wb_kEdgeTol_def wb_kEdgeLook_def)
qed

lemma view_counts [simp]: "vw_count (ring_view e) = we_count e" "vw_count (hist_view h) = int (length h)" "we_count (we_push v e) = we_count e + 1"
  by (simp_all add: ring_view_def hist_view_def we_push_def Let_def split: prod.split)

lemma pushEnvelope_waiting: "wb_waiting (we_count e) d \<Longrightarrow> pushEnvelope ref v (e, d) = (e', d') \<Longrightarrow> wb_waiting (we_count e') d'"
  using wb_processSeconds_waiting[of "ring_view (we_push v e)" d ref] wb_waiting_placed by (auto simp: pushEnvelope_def Let_def)

lemma push_agree:
  assumes "ring_holds e h" "wb_waiting (int (length h)) d"
  shows "ring_holds (fst (pushEnvelope ref v (e, d))) (fst (pushHistory ref v (h, d)))"
    "snd (pushEnvelope ref v (e, d)) = snd (pushHistory ref v (h, d))"
    "wb_waiting (int (length (fst (pushHistory ref v (h, d))))) (snd (pushHistory ref v (h, d)))"
proof -
  note r = ring_holds_push[OF assms(1), of v]
  have p: "wb_placed (int (length (h @ [v]))) d" using wb_waiting_placed[OF assms(2)] by (simp add: add.commute)
  show "ring_holds (fst (pushEnvelope ref v (e, d))) (fst (pushHistory ref v (h, d)))" using r by (simp add: pushEnvelope_def pushHistory_def Let_def)
  have "we_count e + 1 = int (length (h @ [v]))" using assms(1) by (simp add: ring_holds_def)
  then show "snd (pushEnvelope ref v (e, d)) = snd (pushHistory ref v (h, d))"
    using wb_processSeconds_agree[OF ring_holds_view[OF r]] p by (simp add: pushEnvelope_def pushHistory_def Let_def add.commute)
  show "wb_waiting (int (length (fst (pushHistory ref v (h, d))))) (snd (pushHistory ref v (h, d)))"
    using wb_processSeconds_waiting[of "hist_view (h @ [v])" d ref] p by (simp add: pushHistory_def Let_def)
qed

lemma runs_agree:
  assumes "ring_holds e h" "wb_waiting (int (length h)) d"
  shows "snd (fold (\<lambda>(ref, v). pushEnvelope ref v) xs (e, d)) = snd (fold (\<lambda>(ref, v). pushHistory ref v) xs (h, d))"
  using assms
proof (induction xs arbitrary: e h d)
  case (Cons x xs)
  obtain ref v where x: "x = (ref, v)" by (cases x)
  obtain e1 d1 where e1: "pushEnvelope ref v (e, d) = (e1, d1)" by (cases "pushEnvelope ref v (e, d)")
  obtain h1 d2 where h1: "pushHistory ref v (h, d) = (h1, d2)" by (cases "pushHistory ref v (h, d)")
  show ?case using Cons.IH[of e1 h1 d1] push_agree[OF Cons.prems, of ref v] by (simp add: x e1 h1)
qed simp

text \<open>
  C8: The WWVB envelope ring is big enough. Whatever samples arrive, and whatever the reference clock
  answers, a decoder that starts without a known second and keeps only the last 1024 envelope samples
  reads the same seconds, makes the same callbacks and is left in the same state as one that keeps
  every sample it was ever given: no level, no edge and no second is ever taken from an overwritten
  sample.
\<close>

theorem ring_is_history:
  assumes "\<not> wb_phaseKnown d"
  shows "snd (ring_run xs d) = snd (history_run xs d)"
  using runs_agree[OF ring_holds_new] assms by (simp add: ring_run_def history_run_def wb_waiting_def)

theorem ring_is_history_witness:
  "snd (ring_run (replicate 3000 (\<lambda>_. \<lparr>tf_minute = 0, tf_hour = 0, tf_doy = 1, tf_year2 = 26\<rparr>, 1)) (mk_WwvbDecoder 12000))
   = snd (history_run (replicate 3000 (\<lambda>_. \<lparr>tf_minute = 0, tf_hour = 0, tf_doy = 1, tf_year2 = 26\<rparr>, 1)) (mk_WwvbDecoder 12000))"
  by (rule ring_is_history) (simp add: mk_WwvbDecoder_def wb_reset_def Let_def)

end
