(* ===== verification/Wwvb_Lock.thy ===== *)
theory Wwvb_Lock
  imports Wwvb_Properties Wwvb_Ring Msf_Lock
begin

text \<open>
  The WWVB decoder as a state machine, over every state it can reach sample by sample: a minute handed
  to the voter has all its sixty seconds, the decoder is locked just when the voter has certified the
  minute just ended, every time given out was certified, and the tracked second keeps its length
  within 200 parts per million of the nominal one.
\<close>

section \<open>What the operations leave alone\<close>

lemma wb_emit_simps [simp]:
  "wb_lockState (wb_emit e d) = wb_lockState d" "wb_haveVoted (wb_emit e d) = wb_haveVoted d" "wb_anchored (wb_emit e d) = wb_anchored d"
  "wb_sofNext (wb_emit e d) = wb_sofNext d" "wb_frSym (wb_emit e d) = wb_frSym d" "wb_frConf (wb_emit e d) = wb_frConf d"
  "wb_frFilledCount (wb_emit e d) = wb_frFilledCount d" "wb_voter (wb_emit e d) = wb_voter d" "wb_haveLastFrame (wb_emit e d) = wb_haveLastFrame d"
  "wb_votedMinute (wb_emit e d) = wb_votedMinute d" "wb_votedHour (wb_emit e d) = wb_votedHour d" "wb_votedDoy (wb_emit e d) = wb_votedDoy d"
  "wb_votedYear (wb_emit e d) = wb_votedYear d" "wb_sr (wb_emit e d) = wb_sr d" "wb_trk (wb_emit e d) = wb_trk d" "wb_out (wb_emit e d) = wb_out d @ [e]"
  by (simp_all add: wb_emit_def)

lemma wb_setLockState_simps [simp]:
  "wb_lockState (wb_setLockState st d) = st" "wb_haveVoted (wb_setLockState st d) = wb_haveVoted d" "wb_anchored (wb_setLockState st d) = wb_anchored d"
  "wb_sofNext (wb_setLockState st d) = wb_sofNext d" "wb_frSym (wb_setLockState st d) = wb_frSym d" "wb_frConf (wb_setLockState st d) = wb_frConf d"
  "wb_frFilledCount (wb_setLockState st d) = wb_frFilledCount d" "wb_voter (wb_setLockState st d) = wb_voter d"
  "wb_haveLastFrame (wb_setLockState st d) = wb_haveLastFrame d" "wb_votedMinute (wb_setLockState st d) = wb_votedMinute d"
  "wb_votedHour (wb_setLockState st d) = wb_votedHour d" "wb_votedDoy (wb_setLockState st d) = wb_votedDoy d" "wb_votedYear (wb_setLockState st d) = wb_votedYear d"
  "wb_sr (wb_setLockState st d) = wb_sr d" "wb_trk (wb_setLockState st d) = wb_trk d"
  "(OnTime t \<in> set (wb_out (wb_setLockState st d))) = (OnTime t \<in> set (wb_out d))"
  by (simp_all add: wb_setLockState_def)

section \<open>The invariant\<close>

text \<open>The count of seconds recorded is the count of seconds passed: a minute is never partly recorded.\<close>

definition wb_bounds :: "WwvbDec \<Rightarrow> bool" where
  "wb_bounds d \<longleftrightarrow> length (wb_frSym d) = 60 \<and> length (wb_frConf d) = 60 \<and> 0 \<le> wb_sofNext d \<and> wb_sofNext d \<le> 59
     \<and> (wb_anchored d \<longrightarrow> wb_frFilledCount d = (if wb_sofNext d = 0 then 60 else wb_sofNext d))"

definition wb_certified :: "WwvbDec \<Rightarrow> bool" where
  "wb_certified d \<longleftrightarrow> (\<exists>ref. locked ref (wb_voter d))
     \<and> wb_votedMinute d = votedField (wb_voter d) FieldMinutes \<and> wb_votedHour d = votedField (wb_voter d) FieldHours
     \<and> wb_votedDoy d = votedField (wb_voter d) FieldDoy \<and> wb_votedYear d = votedField (wb_voter d) FieldYear"

definition wb_lock_ok :: "WwvbDec \<Rightarrow> bool" where
  "wb_lock_ok d \<longleftrightarrow> (wb_lockState d = LsLocked \<longleftrightarrow> wb_haveVoted d) \<and> (wb_haveVoted d \<longrightarrow> wb_anchored d \<and> wb_haveLastFrame d \<and> wb_certified d)"

definition wb_times_ok :: "VoterConfig \<Rightarrow> WwvbDec \<Rightarrow> bool" where
  "wb_times_ok cfg d \<longleftrightarrow> tv_cfg (wb_voter d) = cfg \<and> (\<forall>t. OnTime t \<in> set (wb_out d) \<longrightarrow> time_certified StWwvb cfg t)"

definition wb_period_ok :: "WwvbDec \<Rightarrow> bool" where
  "wb_period_ok d \<longleftrightarrow> 0 < wb_sr d \<and> (wt_valid (wb_trk d) \<longrightarrow> \<bar>wt_period (wb_trk d) - of_int (wb_sr d)\<bar> \<le> 2 / 10 ^ 4 * of_int (wb_sr d))"

definition wb_ok :: "VoterConfig \<Rightarrow> WwvbDec \<Rightarrow> bool" where
  "wb_ok cfg d \<longleftrightarrow> wb_bounds d \<and> wb_lock_ok d \<and> wb_times_ok cfg d \<and> wb_period_ok d"

lemmas wb_inv_defs = wb_bounds_def wb_certified_def wb_lock_ok_def wb_times_ok_def wb_period_ok_def

definition wb_kept :: "WwvbDec \<Rightarrow> ClockTimeInfo set \<times> VoterConfig \<times> int \<times> WwvbTrk" where
  "wb_kept d = ({t. OnTime t \<in> set (wb_out d)}, tv_cfg (wb_voter d), wb_sr d, wb_trk d)"

lemma wb_ok_kept:
  assumes "wb_ok cfg d" "wb_bounds e" "wb_lock_ok e" "wb_kept e = wb_kept d"
  shows "wb_ok cfg e"
proof -
  have "OnTime t \<in> set (wb_out e) \<longleftrightarrow> OnTime t \<in> set (wb_out d)" for t using assms(4) by (simp add: wb_kept_def set_eq_iff)
  moreover have "tv_cfg (wb_voter e) = tv_cfg (wb_voter d)" "wb_sr e = wb_sr d" "wb_trk e = wb_trk d" using assms(4) by (simp_all add: wb_kept_def)
  ultimately show ?thesis using assms(1-3) by (simp add: wb_ok_def wb_times_ok_def wb_period_ok_def)
qed

section \<open>The tracked second\<close>

lemma clamp_near: "(0::real) \<le> s \<Longrightarrow> \<bar>clamp x (s * (1 - 2 / 10 ^ 4)) (s * (1 + 2 / 10 ^ 4)) - s\<bar> \<le> 2 / 10 ^ 4 * s"
  unfolding abs_le_iff by (simp add: clamp_def field_simps)

lemma wb_trackEdge_ok: "wb_period_ok d \<Longrightarrow> wb_period_ok (d\<lparr>wb_trk := wb_trackEdge m raw d\<rparr>)"
  using clamp_near[of "of_int (wb_sr d)"] unfolding wb_period_ok_def wb_trackEdge_def Let_def by simp

section \<open>The end of a minute\<close>

lemma wb_demote_ok:
  assumes "wb_bounds d"
  shows "wb_bounds (wb_demote d)" "wb_lock_ok (wb_demote d)" "wb_kept (wb_demote d) = wb_kept d"
  using assms by (simp_all add: wb_demote_def Let_def wb_inv_defs wb_kept_def)

lemma wb_addFrame_ok:
  "wb_bounds (wb_addFrame d) = wb_bounds d" "wb_kept (wb_addFrame d) = wb_kept d" "wb_anchored (wb_addFrame d) = wb_anchored d" "wb_haveLastFrame (wb_addFrame d)"
  by (simp_all add: wb_addFrame_def Let_def wb_inv_defs wb_kept_def voter_cfg_kept)

lemma wb_vote_ok:
  assumes "wb_bounds d" "wb_anchored d"
  shows "wb_bounds (wb_vote ref fi d) \<and> wb_lock_ok (wb_vote ref fi d) \<and> wb_kept (wb_vote ref fi d) = wb_kept d"
proof -
  define a where "a = wb_addFrame d"
  have a: "wb_bounds a" "wb_kept a = wb_kept d" "wb_anchored a" "wb_haveLastFrame a" using assms wb_addFrame_ok by (simp_all add: a_def)
  define b where "b = a\<lparr>wb_votedMinute := votedField (wb_voter a) FieldMinutes, wb_votedHour := votedField (wb_voter a) FieldHours,
      wb_votedDoy := votedField (wb_voter a) FieldDoy, wb_votedYear := votedField (wb_voter a) FieldYear, wb_votedQuality := lockConfidence (wb_voter a)\<rparr>"
  have lock: "wb_bounds (wb_setLockState LsLocked (b\<lparr>wb_lastFields := f, wb_haveLastFields := True, wb_lastLeapWarn := w, wb_haveVoted := True\<rparr>))
      \<and> wb_lock_ok (wb_setLockState LsLocked (b\<lparr>wb_lastFields := f, wb_haveLastFields := True, wb_lastLeapWarn := w, wb_haveVoted := True\<rparr>))
      \<and> wb_kept (wb_setLockState LsLocked (b\<lparr>wb_lastFields := f, wb_haveLastFields := True, wb_lastLeapWarn := w, wb_haveVoted := True\<rparr>)) = wb_kept d"
    if "locked ref (wb_voter a)" for f w
    using that a(1,3,4) unfolding a(2)[symmetric] by (auto simp: b_def wb_inv_defs wb_kept_def)
  have drop: "wb_bounds (wb_demote (x\<lparr>wb_lastFields := f, wb_haveLastFields := True, wb_lastLeapWarn := w\<rparr>))
      \<and> wb_lock_ok (wb_demote (x\<lparr>wb_lastFields := f, wb_haveLastFields := True, wb_lastLeapWarn := w\<rparr>))
      \<and> wb_kept (wb_demote (x\<lparr>wb_lastFields := f, wb_haveLastFields := True, wb_lastLeapWarn := w\<rparr>)) = wb_kept d" if "x = a \<or> x = b" for x f w
  proof -
    have "wb_bounds (x\<lparr>wb_lastFields := f, wb_haveLastFields := True, wb_lastLeapWarn := w\<rparr>)"
      "wb_kept (x\<lparr>wb_lastFields := f, wb_haveLastFields := True, wb_lastLeapWarn := w\<rparr>) = wb_kept d"
      using that a(1) unfolding a(2)[symmetric] by (auto simp: b_def wb_inv_defs wb_kept_def)
    then show ?thesis using wb_demote_ok by simp
  qed
  show ?thesis
  proof (cases "locked ref (wb_voter a)")
    case True
    then show ?thesis using lock drop unfolding wb_vote_def Let_def a_def[symmetric] b_def[symmetric] by (simp add: b_def[symmetric])
  next
    case False
    then show ?thesis using drop unfolding wb_vote_def Let_def a_def[symmetric] by simp
  qed
qed

lemma wb_finalizeFrame_ok:
  assumes "wb_bounds d" "wb_anchored d"
  shows "wb_bounds (wb_finalizeFrame ref d) \<and> wb_lock_ok (wb_finalizeFrame ref d) \<and> wb_kept (wb_finalizeFrame ref d) = wb_kept d"
proof (cases "wb_frame_ok d")
  case True
  have "wb_bounds (wb_emit (OnFrame fi) d)" "wb_kept (wb_emit (OnFrame fi) d) = wb_kept d" for fi using assms(1) by (simp_all add: wb_inv_defs wb_kept_def)
  then show ?thesis using True wb_vote_ok[of "wb_emit (OnFrame (wb_decodeFrame d)) d"] assms(2) by (simp add: wb_finalizeFrame_def Let_def)
next
  case False
  then show ?thesis using assms(1) by (simp add: wb_finalizeFrame_def wb_dropAnchor_def wb_inv_defs wb_kept_def voter_cfg_kept)
qed

section \<open>One second\<close>

text \<open>While a second is being placed its minute's array is one second behind.\<close>

definition wb_due :: "int \<Rightarrow> WwvbDec \<Rightarrow> bool" where
  "wb_due sof d \<longleftrightarrow> wb_anchored d \<and> 0 \<le> sof \<and> sof \<le> 59 \<and> wb_sofNext d = (if sof = 59 then 0 else sof + 1) \<and> wb_frFilledCount d = sof
     \<and> length (wb_frSym d) = 60 \<and> length (wb_frConf d) = 60"

lemma next_second: "0 \<le> n \<Longrightarrow> n \<le> 59 \<Longrightarrow> (n + 1) smod 60 = (if n = 59 then 0 else n + (1 :: int))"
  by (simp add: smod_nonneg)

lemma wb_updateSync_cases:
  fixes symb :: ClockSymbol and d :: WwvbDec
  defines "prev \<equiv> \<lambda>x. x\<lparr>wb_prevPrevSym := (if wb_havePrev x then wb_prevSym x else Unknown), wb_prevSym := symb, wb_havePrev := True\<rparr>"
  obtains (unplaced) "\<not> wb_anchored d" "wb_updateSync symb conf e d = (-1, prev d)"
  | (first) "\<not> wb_anchored d" "wb_updateSync symb conf e d = (0, prev (wb_beginFrame e (d\<lparr>wb_anchored := True, wb_sofNext := 1\<rparr>)))"
  | (leap) "wb_anchored d" "wb_leapSecondPossible d" "wb_updateSync symb conf e d =
      (0, prev (wb_beginFrame e ((if wb_lockState d = LsLocked then wb_setLockState LsAcquiring (d\<lparr>wb_haveVoted := False\<rparr>) else d)\<lparr>wb_leapInserted := True, wb_sofNext := 1\<rparr>)))"
  | (counted) x where "wb_anchored d" "x = (if wb_sofNext d = 0 then wb_beginFrame e d else d)\<lparr>wb_sofNext := (wb_sofNext d + 1) smod 60\<rparr>"
      "wb_updateSync symb conf e d = (wb_sofNext d, prev x)
       \<or> wb_updateSync symb conf e d = (wb_sofNext d, prev (wb_setLockState LsAcquiring (x\<lparr>wb_haveVoted := False\<rparr>)))"
proof -
  let ?x = "(if wb_sofNext d = 0 then wb_beginFrame e d else d)\<lparr>wb_sofNext := (wb_sofNext d + 1) smod 60\<rparr>"
  consider (a) "\<not> wb_anchored d" "\<not> (wb_havePrev d \<and> wb_prevSym d = Marker \<and> symb = Marker)"
    | (b) "\<not> wb_anchored d" "wb_havePrev d \<and> wb_prevSym d = Marker \<and> symb = Marker"
    | (c) "wb_anchored d" "wb_sofNext d = 1 \<and> symb = Marker \<and> wb_prevSym d = Marker \<and> wb_prevPrevSym d = Marker \<and> wb_leapSecondPossible d"
    | (k) "wb_anchored d" "\<not> (wb_sofNext d = 1 \<and> symb = Marker \<and> wb_prevSym d = Marker \<and> wb_prevPrevSym d = Marker \<and> wb_leapSecondPossible d)" by blast
  then show thesis
  proof cases
    case a then show ?thesis by (intro unplaced) (simp_all add: wb_updateSync_def prev_def)
  next
    case b then show ?thesis by (intro first) (simp_all add: wb_updateSync_def prev_def)
  next
    case c then show ?thesis by (intro leap) (simp_all add: wb_updateSync_def prev_def)
  next
    case k
    then have "wb_updateSync symb conf e d = (wb_sofNext d, prev (if wb_lockState ?x = LsLocked \<and> wb_kStructConf \<le> conf \<and> (symb = Marker) \<noteq> isWwvbMarkerSecond (wb_sofNext d)
                        then wb_setLockState LsAcquiring (?x\<lparr>wb_haveVoted := False\<rparr>) else ?x))"
      unfolding wb_updateSync_def Let_def if_not_P[OF k(2)] prev_def by simp
    then show ?thesis using counted[OF k(1) refl] by (auto split: if_splits)
  qed
qed

lemma wb_beginFrame_simps [simp]:
  "wb_frFilledCount (wb_beginFrame e d) = 0" "length (wb_frSym (wb_beginFrame e d)) = 60" "length (wb_frConf (wb_beginFrame e d)) = 60"
  "wb_anchored (wb_beginFrame e d) = wb_anchored d" "wb_sofNext (wb_beginFrame e d) = wb_sofNext d" "wb_lock_ok (wb_beginFrame e d) = wb_lock_ok d"
  "wb_kept (wb_beginFrame e d) = wb_kept d"
  by (simp_all add: wb_beginFrame_def wb_lock_ok_def wb_certified_def wb_kept_def)

lemma wb_updateSync_ok:
  assumes "wb_bounds d" "wb_lock_ok d" "wb_updateSync symb conf e d = (sof, d')"
  shows "wb_lock_ok d' \<and> wb_kept d' = wb_kept d \<and> (if wb_anchored d' then wb_due sof d' else wb_bounds d' \<and> sof = -1)"
proof -
  let ?prev = "\<lambda>x. x\<lparr>wb_prevPrevSym := (if wb_havePrev x then wb_prevSym x else Unknown), wb_prevSym := symb, wb_havePrev := True\<rparr>"
  have prev: "wb_lock_ok (?prev x) = wb_lock_ok x" "wb_kept (?prev x) = wb_kept x" "wb_due s (?prev x) = wb_due s x" "wb_bounds (?prev x) = wb_bounds x" for x s
    by (simp_all add: wb_inv_defs wb_kept_def wb_due_def)
  have drop: "wb_lock_ok (wb_setLockState LsAcquiring (x\<lparr>wb_haveVoted := False\<rparr>))" "wb_kept (wb_setLockState LsAcquiring (x\<lparr>wb_haveVoted := False\<rparr>)) = wb_kept x" for x
    by (simp_all add: wb_lock_ok_def wb_kept_def)
  show ?thesis
  proof (cases rule: wb_updateSync_cases[where symb = symb and d = d and conf = conf and e = e])
    case unplaced
    then show ?thesis using assms prev by auto
  next
    case first
    have "wb_lock_ok (d\<lparr>wb_anchored := True, wb_sofNext := 1\<rparr>)" "wb_kept (d\<lparr>wb_anchored := True, wb_sofNext := 1\<rparr>) = wb_kept d"
      using assms(2) first(1) by (auto simp: wb_lock_ok_def wb_kept_def wb_certified_def)
    then show ?thesis using assms(3) first(2) prev by (auto simp: wb_due_def)
  next
    case leap
    let ?y = "(if wb_lockState d = LsLocked then wb_setLockState LsAcquiring (d\<lparr>wb_haveVoted := False\<rparr>) else d)"
    have y: "wb_lock_ok ?y" "wb_kept ?y = wb_kept d" "wb_anchored ?y" using assms(2) leap(1) drop by simp_all
    have "wb_lock_ok (y\<lparr>wb_leapInserted := True, wb_sofNext := 1\<rparr>) = wb_lock_ok y" "wb_kept (y\<lparr>wb_leapInserted := True, wb_sofNext := 1\<rparr>) = wb_kept y" for y
      by (simp_all add: wb_lock_ok_def wb_kept_def wb_certified_def)
    then show ?thesis using assms(3) leap(3) prev y by (auto simp: wb_due_def)
  next
    case (counted x)
    have x: "wb_due (wb_sofNext d) x" "wb_lock_ok x" "wb_kept x = wb_kept d"
      using counted(1,2) assms(1,2) next_second by (auto simp: wb_due_def wb_bounds_def wb_beginFrame_def wb_lock_ok_def wb_kept_def wb_certified_def)
    have "wb_due (wb_sofNext d) (wb_setLockState LsAcquiring (x\<lparr>wb_haveVoted := False\<rparr>))" using x(1) by (simp add: wb_due_def)
    then show ?thesis using counted(3) assms(3) prev drop x by (auto simp: wb_due_def)
  qed
qed

lemma wb_recordFrameSecond_ok:
  assumes "wb_due sof d" "wb_lock_ok d"
  shows "wb_bounds (wb_recordFrameSecond ref sof symb conf d) \<and> wb_lock_ok (wb_recordFrameSecond ref sof symb conf d)
    \<and> wb_kept (wb_recordFrameSecond ref sof symb conf d) = wb_kept d"
proof -
  define r where "r = d\<lparr>wb_frSym := (wb_frSym d)[nat sof := symb], wb_frConf := (wb_frConf d)[nat sof := conf], wb_frFilledCount := wb_frFilledCount d + 1\<rparr>"
  have r: "wb_bounds r" "wb_lock_ok r" "wb_kept r = wb_kept d" "wb_anchored r"
    using assms by (auto simp: r_def wb_due_def wb_inv_defs wb_kept_def)
  have "wb_recordFrameSecond ref sof symb conf d = (if sof = 59 then wb_finalizeFrame ref r else r)"
    unfolding wb_recordFrameSecond_def Let_def r_def[symmetric] by (rule refl)
  then show ?thesis using r wb_finalizeFrame_ok[OF r(1,4), of ref] by simp
qed

lemma wb_read_ok:
  assumes "wb_ok cfg d"
  shows "wb_ok cfg (wb_read ref symb conf d)"
proof -
  define a where "a = d\<lparr>wb_trk := wb_trackEdge (wb_curEdgeMeasured d) (wb_curEdge d) d\<rparr>"
  define es where "es = llround (wt_edge (wb_trk a))"
  have a: "wb_ok cfg a" using assms wb_trackEdge_ok[of d] by (simp add: a_def wb_ok_def wb_inv_defs)
  obtain sof b where b: "wb_updateSync symb conf es a = (sof, b)" by (cases "wb_updateSync symb conf es a")
  note u = wb_updateSync_ok[OF _ _ b]
  define si where "si = \<lparr>si_edgeSample = es, si_edgeSampleExact = Some (wt_edge (wb_trk b)), si_edgeMeasured = wb_curEdgeMeasured b,
                si_edgeServable = True, si_symbol = symb, si_confidence = conf, si_secondOfFrame = sof\<rparr>"
  define c where "c = wb_emit (OnSecond si) b"
  define e where "e = (if wb_anchored c \<and> 0 \<le> sof then wb_recordFrameSecond ref sof symb conf c else c)"
  have ok: "wb_bounds a" "wb_lock_ok a" using a by (simp_all add: wb_ok_def)
  have emit: "wb_lock_ok (wb_emit (OnSecond i) x) = wb_lock_ok x" "wb_kept (wb_emit (OnSecond i) x) = wb_kept x"
    "wb_due n (wb_emit (OnSecond i) x) = wb_due n x" "wb_bounds (wb_emit (OnSecond i) x) = wb_bounds x" for i n x
    by (simp_all add: wb_inv_defs wb_due_def wb_kept_def)
  have c: "wb_lock_ok c" "wb_kept c = wb_kept a" "wb_anchored c \<Longrightarrow> wb_due sof c" "\<not> wb_anchored c \<Longrightarrow> wb_bounds c \<and> sof = -1"
    using u[OF ok] emit by (simp_all add: c_def split: if_splits)
  have e: "wb_bounds e" "wb_lock_ok e" "wb_kept e = wb_kept a" and place: "wb_haveVoted e \<Longrightarrow> 0 \<le> sof \<and> sof \<le> 59"
    by (cases "wb_anchored c"; use c wb_recordFrameSecond_ok[of sof c ref symb conf] in \<open>auto simp: e_def wb_due_def wb_lock_ok_def\<close>)+
  have eok: "wb_ok cfg e" by (rule wb_ok_kept[OF a e])
  have "wb_read ref symb conf d = (if wb_lockState e = LsLocked \<and> wb_haveVoted e then wb_emit (OnTime (wb_time_info es sof e)) e else e)"
    unfolding wb_read_def Let_def a_def[symmetric] es_def[symmetric] b prod.case si_def[symmetric] c_def[symmetric] e_def[symmetric] by (rule refl)
  moreover have "wb_ok cfg (wb_emit (OnTime (wb_time_info es sof e)) e)" if "wb_haveVoted e"
  proof -
    have "time_certified StWwvb cfg (wb_time_info es sof e)"
      using that eok place by (auto simp: time_certified_def wb_time_info_def wb_ok_def wb_lock_ok_def wb_certified_def wb_times_ok_def)
    then show ?thesis using eok by (auto simp: wb_ok_def wb_inv_defs)
  qed
  ultimately show ?thesis using eok by simp
qed

section \<open>One sample\<close>

lemma wb_untouched_ok [simp]:
  "wb_ok cfg (d\<lparr>wb_curStart := i\<rparr>) = wb_ok cfg d" "wb_ok cfg (d\<lparr>wb_curEdge := x\<rparr>) = wb_ok cfg d" "wb_ok cfg (d\<lparr>wb_curEdgeMeasured := b\<rparr>) = wb_ok cfg d"
  "wb_ok cfg (d\<lparr>wb_phaseKnown := b\<rparr>) = wb_ok cfg d" "wb_ok cfg (d\<lparr>wb_scanPos := i\<rparr>) = wb_ok cfg d"
  by (simp_all add: wb_ok_def wb_inv_defs)

lemma wb_classifyAndAdvance_ok: "wb_ok cfg d \<Longrightarrow> wb_ok cfg (wb_classifyAndAdvance ref w d)"
  using wb_read_ok by (simp add: wb_classifyAndAdvance_def Let_def split: prod.split option.split)

lemma wb_seconds_loop_ok: "wb_ok cfg d \<Longrightarrow> wb_ok cfg (wb_seconds_loop ref w d)"
proof (induction ref w d rule: wb_seconds_loop.induct)
  case (1 ref w d)
  then show ?case using wb_classifyAndAdvance_ok by (simp add: wb_seconds_loop.simps[of ref w d])
qed

lemma wb_seed_loop_ok: "wb_ok cfg d \<Longrightarrow> wb_ok cfg (wb_seed_loop w is d)"
  by (induction w "is" d rule: wb_seed_loop.induct) (simp_all add: Let_def)

lemma wb_processSeconds_ok: "wb_ok cfg d \<Longrightarrow> wb_ok cfg (wb_processSeconds ref w d)"
  using wb_seed_loop_ok wb_seconds_loop_ok by (simp add: wb_processSeconds_def wb_trySeed_def Let_def)

section \<open>Reachable states\<close>

inductive wb_reach :: "int \<Rightarrow> bool \<Rightarrow> int \<Rightarrow> WwvbEnv \<times> WwvbDec \<Rightarrow> bool" for rate :: int and have_ref :: bool and bound :: int where
  new: "wb_reach rate have_ref bound (we_reset, wb_setPlausibility have_ref bound (mk_WwvbDecoder rate))"
| reset: "wb_reach rate have_ref bound (e, d) \<Longrightarrow> wb_reach rate have_ref bound (we_reset, wb_reset d)"
| tone: "wb_reach rate have_ref bound (e, d) \<Longrightarrow> wb_lockState d = LsNoSignal \<Longrightarrow> wb_reach rate have_ref bound (e, wb_startSteady n delay d)"
| sample: "wb_reach rate have_ref bound s \<Longrightarrow> wb_lockState (snd s) \<noteq> LsNoSignal \<Longrightarrow> wb_reach rate have_ref bound (pushEnvelope ref v s)"

definition wwvb_cfg :: "bool \<Rightarrow> int \<Rightarrow> VoterConfig" where
  "wwvb_cfg have_ref bound = tv_cfg (setPlausibility have_ref bound (mk_TimeFrameVoter wwvb_voterConfig))"

lemma wb_reset_ok: "wb_ok cfg d \<Longrightarrow> wb_ok cfg (wb_reset d)"
  by (simp add: wb_reset_def wb_ok_def wb_inv_defs voter_cfg_kept)

lemma wb_new_ok: "wb_ok (wwvb_cfg have_ref bound) (wb_setPlausibility have_ref bound (mk_WwvbDecoder rate))"
  by (simp add: mk_WwvbDecoder_def wb_setPlausibility_def wb_reset_def wb_ok_def wb_inv_defs wwvb_cfg_def setPlausibility_def voter_reset_def
      wb_setLockState_def Let_def)

lemma wb_startSteady_ok: "wb_ok cfg d \<Longrightarrow> wb_lockState d = LsNoSignal \<Longrightarrow> wb_ok cfg (wb_startSteady n delay d)"
  by (simp add: wb_startSteady_def wb_ok_def wb_inv_defs)

lemma wb_reach_ok: "wb_reach rate have_ref bound s \<Longrightarrow> wb_ok (wwvb_cfg have_ref bound) (snd s) \<and> wb_waiting (we_count (fst s)) (snd s)"
proof (induction rule: wb_reach.induct)
  case (sample s ref v)
  obtain e d where s: "s = (e, d)" by (cases s)
  obtain e' d' where s': "pushEnvelope ref v (e, d) = (e', d')" by (cases "pushEnvelope ref v (e, d)")
  then have "wb_ok (wwvb_cfg have_ref bound) d'" using sample wb_processSeconds_ok by (auto simp: s pushEnvelope_def Let_def)
  then show ?case using sample pushEnvelope_waiting[OF _ s'] by (simp add: s s')
qed (simp_all add: wb_new_ok wb_reset_ok wb_startSteady_ok, simp_all add: wb_waiting_def wb_setPlausibility_def mk_WwvbDecoder_def wb_reset_def wb_startSteady_def Let_def)

text \<open>
  The WWVB decoder's states. Whatever samples arrive, and through any resets, the minute's arrays
  of sixty are used within bounds and a minute in hand has exactly the seconds passed since it began;
  the decoder is locked exactly when it holds a voted time, which is the voter's own, certified; every
  time given out named a second of the minute and carried what a voter of its configuration had
  certified; no second waits in the envelope once the samples to read it are in; and the length of
  the tracked second stays within 200 parts per million of the nominal.
\<close>

theorem wwvb_states_ok:
  assumes "wb_reach rate have_ref bound (e, d)"
  shows "wb_bounds d \<and> wb_lock_ok d \<and> wb_times_ok (wwvb_cfg have_ref bound) d \<and> wb_waiting (we_count e) d \<and> wb_period_ok d"
  using wb_reach_ok[OF assms] by (simp add: wb_ok_def)

definition demo_wwvb :: "WwvbDec" where
  "demo_wwvb = wb_startSteady 24000 18 (wb_setPlausibility True 10 (mk_WwvbDecoder 12000))"

theorem wwvb_states_ok_witness:
  "wb_bounds demo_wwvb \<and> wb_lock_ok demo_wwvb \<and> wb_times_ok (wwvb_cfg True 10) demo_wwvb \<and> wb_waiting (we_count we_reset) demo_wwvb \<and> wb_period_ok demo_wwvb"
  unfolding demo_wwvb_def
  by (rule wwvb_states_ok[OF wb_reach.tone[OF wb_reach.new]]) (simp add: wb_setPlausibility_def mk_WwvbDecoder_def wb_reset_def wb_setLockState_def Let_def)

section \<open>Leap seconds\<close>

lemma wb_leap_sync:
  assumes "wb_anchored d" "wb_sofNext d = 1" "wb_prevSym d = Marker" "wb_prevPrevSym d = Marker" "wb_leapSecondPossible d"
  shows "wb_updateSync Marker conf e d =
    (0, (wb_beginFrame e ((if wb_lockState d = LsLocked then wb_setLockState LsAcquiring (d\<lparr>wb_haveVoted := False\<rparr>) else d)\<lparr>wb_leapInserted := True, wb_sofNext := 1\<rparr>))
       \<lparr>wb_prevPrevSym := (if wb_havePrev (if wb_lockState d = LsLocked then wb_setLockState LsAcquiring (d\<lparr>wb_haveVoted := False\<rparr>) else d) then Marker else Unknown),
         wb_prevSym := Marker, wb_havePrev := True\<rparr>)"
  using assms by (simp add: wb_updateSync_def wb_beginFrame_def wb_setLockState_def wb_emit_def)

text \<open>A minute that started 61 seconds after the last, a leap second in between, joins its window.\<close>

lemma wb_leap_window:
  assumes "wb_leapInserted d" "wb_haveLastFrame d" "\<bar>(wb_frStartSample d - wb_envBaseSample d) sdiv wb_decim d - wb_lastFrameS0Env d - 6100\<bar> \<le> 24"
  shows "wb_voter (wb_addFrame d) = addFrame (wb_frSym d) (wb_frConf d) (wb_voter d)" "\<not> wb_leapInserted (wb_addFrame d)"
  using assms by (simp_all add: wb_addFrame_def Let_def kEnvRateHz_def wb_kEdgeTol_def)


definition demo_leap :: WwvbDec where
  "demo_leap = (mk_WwvbDecoder 12000)\<lparr>wb_anchored := True, wb_sofNext := 1, wb_frFilledCount := 1, wb_prevSym := Marker, wb_prevPrevSym := Marker, wb_havePrev := True\<rparr>"

definition demo_leap_minute :: WwvbDec where
  "demo_leap_minute = (mk_WwvbDecoder 12000)\<lparr>wb_leapInserted := True, wb_haveLastFrame := True, wb_frStartSample := 732000, wb_lastFrameS0Env := 0\<rparr>"


end
