(* ===== verification/Wwvb_Audio.thy ===== *)
theory Wwvb_Audio
  imports Wwvb_Lock
begin

text \<open>
  The rest of the WWVB decoder, \<^verbatim>\<open>src/src/clock/WwvbDecoder.cpp\<close>, from the audio to the envelope: the one-shot
  search for the carrier's tone, the mixer, the low-pass and the averaging into envelope samples.
  With it the decoder is whole: \<open>wwvb_process\<close> takes the receiver's audio. Sines and cosines are those of
  the reals. Then: any calls of the decoder keep it in the states of the step relation, the mixer's
  oscillator keeps its amplitude, and the filter's delay taken off an edge is the one it has.
\<close>

section \<open>The low-pass\<close>

record Biquad =
  bq_b0 :: real
  bq_b1 :: real
  bq_b2 :: real
  bq_a1 :: real
  bq_a2 :: real
  bq_z1 :: real
  bq_z2 :: real

definition default_Biquad :: Biquad where
  "default_Biquad = \<lparr>bq_b0 = 1, bq_b1 = 0, bq_b2 = 0, bq_a1 = 0, bq_a2 = 0, bq_z1 = 0, bq_z2 = 0\<rparr>"

definition bq_process :: "real \<Rightarrow> Biquad \<Rightarrow> real \<times> Biquad" where
  "bq_process x q =
     (let y = bq_b0 q * x + bq_z1 q
      in (y, q\<lparr>bq_z1 := bq_b1 q * x - bq_a1 q * y + bq_z2 q, bq_z2 := bq_b2 q * x - bq_a2 q * y\<rparr>))"

definition bq_reset :: "Biquad \<Rightarrow> Biquad" where
  "bq_reset q = q\<lparr>bq_z1 := 0, bq_z2 := 0\<rparr>"

definition lowpass :: "real \<Rightarrow> real \<Rightarrow> Biquad" where
  "lowpass fs fc =
     (let w0 = 2 * pi * fc / fs; c = cos w0; s = sin w0;
          q = 70710678118654752440 / 10 ^ 20; alpha = s / (2 * q); a0 = 1 + alpha
      in \<lparr>bq_b0 = (1 - c) / 2 / a0, bq_b1 = (1 - c) / a0, bq_b2 = (1 - c) / 2 / a0, bq_a1 = - 2 * c / a0, bq_a2 = (1 - alpha) / a0, bq_z1 = 0, bq_z2 = 0\<rparr>)"

definition lpf_delay :: "Biquad \<Rightarrow> real" where
  "lpf_delay q = 1 - (bq_a1 q + 2 * bq_a2 q) / (1 + bq_a1 q + bq_a2 q)"

section \<open>State\<close>

definition kLpfCutHz :: real where "kLpfCutHz = 150"
definition kAcqSeconds :: real where "kAcqSeconds = 2"
definition kToneLoHz :: real where "kToneLoHz = 800"
definition kToneStepHz :: real where "kToneStepHz = 2"
definition kToneGate :: real where "kToneGate = 12"

text \<open>From 800 to 1200 Hz in steps of 2.\<close>

definition gFreq :: "real list" where
  "gFreq = map (\<lambda>i. kToneLoHz + kToneStepHz * of_nat i) [0..<201]"

definition gCoeff :: "int \<Rightarrow> real list" where
  "gCoeff sr = map (\<lambda>f. 2 * cos (2 * pi * f / of_int sr)) gFreq"

record Wwvb =
  ww_running :: bool
  ww_samplesConsumed :: int
  ww_s1 :: "real list"
  ww_s2 :: "real list"
  ww_acqCount :: int
  ww_f0 :: real
  ww_oscRe :: real
  ww_oscIm :: real
  ww_stepRe :: real
  ww_stepIm :: real
  ww_oscRenorm :: int
  ww_lpI :: Biquad
  ww_lpQ :: Biquad
  ww_magAccum :: real
  ww_magCount :: int
  ww_env :: WwvbEnv
  ww_dec :: WwvbDec

definition ww_acqTarget :: "Wwvb \<Rightarrow> int" where
  "ww_acqTarget s = llround (kAcqSeconds * of_int (wb_sr (ww_dec s)))"

section \<open>The tone search\<close>

definition ww_startSteady :: "Wwvb \<Rightarrow> Wwvb" where
  "ww_startSteady s =
     (let sr = of_int (wb_sr (ww_dec s)); w0 = 2 * pi * ww_f0 s / sr; lp = lowpass sr kLpfCutHz
      in s\<lparr>ww_running := True, ww_stepRe := cos w0, ww_stepIm := - sin w0, ww_oscRe := 1, ww_oscIm := 0, ww_oscRenorm := 0,
           ww_lpI := lp, ww_lpQ := lp, ww_magAccum := 0, ww_magCount := 0,
           ww_dec := wb_startSteady (ww_samplesConsumed s) (lpf_delay lp) (ww_dec s)\<rparr>)"

definition tone_powers :: "Wwvb \<Rightarrow> real list" where
  "tone_powers s = map (\<lambda>((s1, s2), c). s1 * s1 + s2 * s2 - c * s1 * s2) (zip (zip (ww_s1 s) (ww_s2 s)) (gCoeff (wb_sr (ww_dec s))))"

text \<open>The first bin of the greatest power, and that power.\<close>

definition tone_peak :: "real list \<Rightarrow> nat \<times> real" where
  "tone_peak pw = fold (\<lambda>i (peak, peakP). if peakP < pw ! i then (i, pw ! i) else (peak, peakP)) [0..<length pw] (0, -1)"

definition finalizeAcquisition :: "Wwvb \<Rightarrow> Wwvb" where
  "finalizeAcquisition s =
     (let pw = tone_powers s; (peak, peakP) = tone_peak pw; median = sort pw ! (length pw div 2)
      in if kToneGate * median < peakP \<and> 0 < median then ww_startSteady (s\<lparr>ww_f0 := gFreq ! peak\<rparr>)
         else s\<lparr>ww_s1 := replicate (length (ww_s1 s)) 0, ww_s2 := replicate (length (ww_s2 s)) 0, ww_acqCount := 0\<rparr>)"

definition feedAcquisition :: "real \<Rightarrow> Wwvb \<Rightarrow> Wwvb" where
  "feedAcquisition x s =
     (let s1 = map (\<lambda>((s1, s2), c). x + c * s1 - s2) (zip (zip (ww_s1 s) (ww_s2 s)) (gCoeff (wb_sr (ww_dec s))));
          s = s\<lparr>ww_s2 := ww_s1 s, ww_s1 := s1, ww_acqCount := ww_acqCount s + 1\<rparr>
      in if ww_acqTarget s \<le> ww_acqCount s then finalizeAcquisition s else s)"

section \<open>The mixer\<close>

definition ww_turn :: "Wwvb \<Rightarrow> Wwvb" where
  "ww_turn s =
     (let nr = ww_oscRe s * ww_stepRe s - ww_oscIm s * ww_stepIm s;
          ni = ww_oscRe s * ww_stepIm s + ww_oscIm s * ww_stepRe s;
          s = s\<lparr>ww_oscRe := nr, ww_oscIm := ni, ww_oscRenorm := ww_oscRenorm s + 1\<rparr>
      in if 1024 \<le> ww_oscRenorm s
         then let m = sqrt (ww_oscRe s * ww_oscRe s + ww_oscIm s * ww_oscIm s);
                  s = (if 1 / 10 ^ 9 < m then s\<lparr>ww_oscRe := ww_oscRe s / m, ww_oscIm := ww_oscIm s / m\<rparr> else s)
              in s\<lparr>ww_oscRenorm := 0\<rparr>
         else s)"

definition feedSteady :: "(int \<Rightarrow> TimeFields) \<Rightarrow> real \<Rightarrow> Wwvb \<Rightarrow> Wwvb" where
  "feedSteady ref x s =
     (let (I, lpI) = bq_process (x * ww_oscRe s) (ww_lpI s);
          (Q, lpQ) = bq_process (x * ww_oscIm s) (ww_lpQ s);
          s = s\<lparr>ww_lpI := lpI, ww_lpQ := lpQ, ww_magAccum := ww_magAccum s + sqrt (I * I + Q * Q), ww_magCount := ww_magCount s + 1\<rparr>;
          s = (if wb_decim (ww_dec s) \<le> ww_magCount s
               then let (e, d) = pushEnvelope ref (ww_magAccum s / of_int (ww_magCount s)) (ww_env s, ww_dec s)
                    in s\<lparr>ww_env := e, ww_dec := d, ww_magAccum := 0, ww_magCount := 0\<rparr>
               else s)
      in ww_turn s)"

definition wwvb_sample :: "(int \<Rightarrow> TimeFields) \<Rightarrow> real \<Rightarrow> Wwvb \<Rightarrow> Wwvb" where
  "wwvb_sample ref x s =
     (let s = s\<lparr>ww_samplesConsumed := ww_samplesConsumed s + 1\<rparr>
      in if \<not> ww_running s then feedAcquisition x s else feedSteady ref x s)"

definition wwvb_process :: "(int \<Rightarrow> TimeFields) \<Rightarrow> real list \<Rightarrow> Wwvb \<Rightarrow> Wwvb" where
  "wwvb_process ref audio s = fold (wwvb_sample ref) audio s"

section \<open>The decoder's life\<close>

definition wwvb_reset :: "Wwvb \<Rightarrow> Wwvb" where
  "wwvb_reset s =
     s\<lparr>ww_running := False, ww_acqCount := 0, ww_s1 := replicate (length (ww_s1 s)) 0, ww_s2 := replicate (length (ww_s2 s)) 0,
       ww_oscRe := 1, ww_oscIm := 0, ww_oscRenorm := 0, ww_lpI := bq_reset (ww_lpI s), ww_lpQ := bq_reset (ww_lpQ s),
       ww_magAccum := 0, ww_magCount := 0, ww_env := we_reset, ww_dec := wb_reset (ww_dec s), ww_samplesConsumed := 0\<rparr>"

definition mk_Wwvb :: "int \<Rightarrow> bool \<Rightarrow> int \<Rightarrow> Wwvb" where
  "mk_Wwvb sampleRateHz haveReference boundMinutes =
     \<lparr>ww_running = False, ww_samplesConsumed = 0, ww_s1 = replicate 201 0, ww_s2 = replicate 201 0, ww_acqCount = 0, ww_f0 = 1000,
      ww_oscRe = 1, ww_oscIm = 0, ww_stepRe = 1, ww_stepIm = 0, ww_oscRenorm = 0, ww_lpI = default_Biquad, ww_lpQ = default_Biquad,
      ww_magAccum = 0, ww_magCount = 0, ww_env = we_reset, ww_dec = wb_setPlausibility haveReference boundMinutes (mk_WwvbDecoder sampleRateHz)\<rparr>"

datatype WwvbCall = Process "int \<Rightarrow> TimeFields" "real list" | Reset

fun wwvb_call :: "WwvbCall \<Rightarrow> Wwvb \<Rightarrow> Wwvb" where
  "wwvb_call (Process ref audio) s = wwvb_process ref audio s"
| "wwvb_call Reset s = wwvb_reset s"

definition wwvb_run :: "int \<Rightarrow> bool \<Rightarrow> int \<Rightarrow> WwvbCall list \<Rightarrow> Wwvb" where
  "wwvb_run rate haveReference boundMinutes calls = fold wwvb_call calls (mk_Wwvb rate haveReference boundMinutes)"

section \<open>The filter's delay\<close>

text \<open>The filter after \<open>n\<close> samples of a step, and what it gives for the next.\<close>

primrec bq_steps :: "nat \<Rightarrow> Biquad \<Rightarrow> Biquad" where
  "bq_steps 0 q = q"
| "bq_steps (Suc n) q = snd (bq_process 1 (bq_steps n q))"

definition bq_unity :: "Biquad \<Rightarrow> bool" where
  "bq_unity q \<longleftrightarrow> bq_b0 q + bq_b1 q + bq_b2 q = 1 + bq_a1 q + bq_a2 q \<and> bq_b0 q = bq_b2 q \<and> 1 + bq_a1 q + bq_a2 q \<noteq> 0"

definition bq_settled :: "Biquad \<Rightarrow> Biquad" where
  "bq_settled q = q\<lparr>bq_z1 := 1 - bq_b0 q, bq_z2 := bq_b2 q - bq_a2 q\<rparr>"

lemma bq_steps_same:
  "bq_b0 (bq_steps n q) = bq_b0 q" "bq_b1 (bq_steps n q) = bq_b1 q" "bq_b2 (bq_steps n q) = bq_b2 q" "bq_a1 (bq_steps n q) = bq_a1 q" "bq_a2 (bq_steps n q) = bq_a2 q"
  by (induction n) (simp_all add: bq_process_def Let_def)

lemma bq_settled_fixed: "bq_unity q \<Longrightarrow> bq_process 1 (bq_settled q) = (1, bq_settled q)"
  by (simp add: bq_process_def bq_settled_def bq_unity_def Let_def)

text \<open>The missing area of the step so far is what the two delay elements hold.\<close>

lemma bq_step_area:
  assumes "bq_unity q"
  shows "(1 + bq_a1 q + bq_a2 q) * (\<Sum>n<N. 1 - fst (bq_process 1 (bq_steps n q))) = bq_z1 (bq_steps N q) + bq_z2 (bq_steps N q) - (bq_z1 q + bq_z2 q)"
proof (induction N)
  case (Suc N)
  have b: "bq_b1 q + bq_b2 q = 1 + bq_a1 q + bq_a2 q - bq_b0 q" using assms by (simp add: bq_unity_def)
  have "(1 + bq_a1 q + bq_a2 q) * (1 - fst (bq_process 1 (bq_steps N q)))
      = bq_z1 (bq_steps (Suc N) q) + bq_z2 (bq_steps (Suc N) q) - (bq_z1 (bq_steps N q) + bq_z2 (bq_steps N q))"
    using b by (simp add: bq_process_def Let_def bq_steps_same algebra_simps)
  then show ?case using Suc by (simp only: sum.lessThan_Suc distrib_left)
qed simp

lemma lowpass_unity:
  assumes "0 < fc" "2 * fc < fs"
  shows "bq_unity (lowpass fs fc)"
proof -
  let ?w = "2 * pi * fc / fs"
  have w: "0 < ?w" "?w < pi" using assms by (simp_all add: field_simps)
  have c: "cos ?w < 1" using cos_monotone_0_pi[of 0 ?w] w by simp
  define a0 where "a0 = 1 + sin ?w / (2 * (70710678118654752440 / 10 ^ 20))"
  have s: "0 < sin ?w" by (rule sin_gt_zero[OF w])
  then have a: "0 < a0" unfolding a0_def by (intro add_pos_pos) simp_all
  have A: "1 + (- 2 * cos ?w / a0) + (1 - (a0 - 1)) / a0 = 2 * (1 - cos ?w) / a0" using a by (simp add: field_simps)
  have alpha: "sin ?w / (2 * (70710678118654752440 / 10 ^ 20)) = a0 - 1" by (simp add: a0_def)
  have f: "lowpass fs fc = \<lparr>bq_b0 = (1 - cos ?w) / 2 / a0, bq_b1 = (1 - cos ?w) / a0, bq_b2 = (1 - cos ?w) / 2 / a0, bq_a1 = - 2 * cos ?w / a0,
      bq_a2 = (1 - (a0 - 1)) / a0, bq_z1 = 0, bq_z2 = 0\<rparr>"
    unfolding lowpass_def Let_def alpha by simp
  have "2 * (1 - cos ?w) / a0 \<noteq> 0" using a c by simp
  then show ?thesis unfolding bq_unity_def f Biquad.simps A using a by (simp add: field_simps)
qed

text \<open>
  The delay taken off a WWVB edge is the one the low-pass has. The area missing from its response
  to a step, which is how late the step comes out, is the delay computed from its coefficients, but
  for what its state still lacks of the one it settles at; and that state is one the filter keeps,
  passing the carrier's level unchanged.
\<close>

theorem filter_delay_exact:
  assumes "0 < fc" "2 * fc < fs"
  defines "q \<equiv> lowpass fs fc"
  shows "(\<Sum>n<N. 1 - fst (bq_process 1 (bq_steps n q)))
      = lpf_delay q - ((bq_z1 (bq_settled q) + bq_z2 (bq_settled q)) - (bq_z1 (bq_steps N q) + bq_z2 (bq_steps N q))) / (1 + bq_a1 q + bq_a2 q)
    \<and> bq_process 1 (bq_settled q) = (1, bq_settled q)"
proof -
  have u: "bq_unity q" using lowpass_unity[OF assms(1,2)] by (simp add: q_def)
  have z: "bq_z1 q + bq_z2 q = 0" by (simp add: q_def lowpass_def Let_def)
  define A where "A = 1 + bq_a1 q + bq_a2 q"
  have A: "A \<noteq> 0" using u by (simp add: bq_unity_def A_def)
  have area: "(\<Sum>n<N. 1 - fst (bq_process 1 (bq_steps n q))) = (bq_z1 (bq_steps N q) + bq_z2 (bq_steps N q)) / A"
    using bq_step_area[OF u, of N, folded A_def] z A by (simp add: nonzero_eq_divide_eq mult.commute)
  have "lpf_delay q = 1 - (bq_a1 q + 2 * bq_a2 q) / A" by (simp add: lpf_delay_def A_def)
  then have "A * lpf_delay q = A - (bq_a1 q + 2 * bq_a2 q)" using A by (simp add: right_diff_distrib)
  then have "A * lpf_delay q = 1 - bq_a2 q" by (simp add: A_def)
  moreover have "bq_z1 (bq_settled q) + bq_z2 (bq_settled q) = 1 - bq_a2 q" using u by (simp add: bq_settled_def bq_unity_def)
  ultimately have "lpf_delay q = (bq_z1 (bq_settled q) + bq_z2 (bq_settled q)) / A" using A by (simp add: field_simps)
  then show ?thesis unfolding area using bq_settled_fixed[OF u] by (simp add: A_def[symmetric] diff_divide_distrib)
qed

theorem filter_delay_exact_witness:
  "bq_process 1 (bq_settled (lowpass 12000 150)) = (1, bq_settled (lowpass 12000 150))"
  using filter_delay_exact[of 150 12000] by simp

section \<open>Any audio\<close>

lemma wb_read_signal: "wb_lockState d \<noteq> LsNoSignal \<Longrightarrow> wb_lockState (wb_read ref symb conf d) \<noteq> LsNoSignal"
proof -
  have sync: "wb_lockState x \<noteq> LsNoSignal \<Longrightarrow> wb_lockState (snd (wb_updateSync symb conf e x)) \<noteq> LsNoSignal" for e x
    by (cases rule: wb_updateSync_cases[where symb = symb and d = x and conf = conf and e = e]) (auto simp: wb_beginFrame_def split: if_splits)
  have "wb_lockState x \<noteq> LsNoSignal \<Longrightarrow> wb_lockState (wb_vote ref fi x) \<noteq> LsNoSignal" for fi x
    by (simp add: wb_vote_def wb_demote_def wb_addFrame_def Let_def)
  then have rec: "wb_lockState x \<noteq> LsNoSignal \<Longrightarrow> wb_lockState (wb_recordFrameSecond ref sof symb conf x) \<noteq> LsNoSignal" for sof x
    by (simp add: wb_recordFrameSecond_def wb_finalizeFrame_def wb_dropAnchor_def Let_def)
  assume "wb_lockState d \<noteq> LsNoSignal"
  then show ?thesis using sync rec unfolding wb_read_def Let_def case_prod_beta by simp
qed

lemma wb_seconds_loop_signal: "wb_lockState d \<noteq> LsNoSignal \<Longrightarrow> wb_lockState (wb_seconds_loop ref w d) \<noteq> LsNoSignal"
proof (induction ref w d rule: wb_seconds_loop.induct)
  case (1 ref w d)
  have "wb_lockState (wb_classifyAndAdvance r w d) \<noteq> LsNoSignal" for r
    using wb_read_signal[OF 1(2)] by (simp add: wb_classifyAndAdvance_def Let_def split: prod.split option.split)
  then show ?case using 1 by (simp add: wb_seconds_loop.simps[of ref w d])
qed

lemma wb_seed_loop_signal: "wb_lockState (wb_seed_loop w is d) = wb_lockState d"
  by (induction w "is" d rule: wb_seed_loop.induct) (simp_all add: Let_def)

lemma pushEnvelope_signal: "wb_lockState d \<noteq> LsNoSignal \<Longrightarrow> wb_lockState (snd (pushEnvelope ref v (e, d))) \<noteq> LsNoSignal"
  using wb_seconds_loop_signal by (simp add: pushEnvelope_def wb_processSeconds_def wb_trySeed_def wb_seed_loop_signal Let_def)

text \<open>The decoder is a reachable one of the step relation, and its oscillator turns on the unit circle.\<close>

definition wwvb_linked :: "int \<Rightarrow> bool \<Rightarrow> int \<Rightarrow> Wwvb \<Rightarrow> bool" where
  "wwvb_linked rate hr b s \<longleftrightarrow> wb_reach rate hr b (ww_env s, ww_dec s) \<and> (ww_running s \<longleftrightarrow> wb_lockState (ww_dec s) \<noteq> LsNoSignal)"

definition osc_unit :: "Wwvb \<Rightarrow> bool" where
  "osc_unit s \<longleftrightarrow> (ww_running s \<longrightarrow> (ww_oscRe s)\<^sup>2 + (ww_oscIm s)\<^sup>2 = 1 \<and> (ww_stepRe s)\<^sup>2 + (ww_stepIm s)\<^sup>2 = 1)"

lemma ww_turn_unit: "osc_unit s \<Longrightarrow> osc_unit (ww_turn s)"
proof -
  assume u: "osc_unit s"
  define r i where "r = ww_oscRe s * ww_stepRe s - ww_oscIm s * ww_stepIm s" and "i = ww_oscRe s * ww_stepIm s + ww_oscIm s * ww_stepRe s"
  have "r\<^sup>2 + i\<^sup>2 = ((ww_oscRe s)\<^sup>2 + (ww_oscIm s)\<^sup>2) * ((ww_stepRe s)\<^sup>2 + (ww_stepIm s)\<^sup>2)" by (simp add: r_def i_def power2_eq_square algebra_simps)
  then have n: "ww_running s \<Longrightarrow> r\<^sup>2 + i\<^sup>2 = 1" "ww_running s \<Longrightarrow> r * r + i * i = 1" using u by (simp_all add: osc_unit_def power2_eq_square)
  show ?thesis using u n unfolding ww_turn_def Let_def r_def[symmetric] i_def[symmetric] by (simp add: osc_unit_def)
qed

lemma wwvb_turn_linked: "wwvb_linked rate hr b (ww_turn s) = wwvb_linked rate hr b s"
  by (simp add: wwvb_linked_def ww_turn_def Let_def)

lemma feedSteady_ok:
  assumes "wwvb_linked rate hr b s" "osc_unit s" "ww_running s"
  shows "wwvb_linked rate hr b (feedSteady ref x s) \<and> osc_unit (feedSteady ref x s)"
proof -
  obtain I lpI where I: "bq_process (x * ww_oscRe s) (ww_lpI s) = (I, lpI)" by fastforce
  obtain Q lpQ where Q: "bq_process (x * ww_oscIm s) (ww_lpQ s) = (Q, lpQ)" by fastforce
  define t where "t = s\<lparr>ww_lpI := lpI, ww_lpQ := lpQ, ww_magAccum := ww_magAccum s + sqrt (I * I + Q * Q), ww_magCount := ww_magCount s + 1\<rparr>"
  have t: "wwvb_linked rate hr b t" "osc_unit t" "ww_running t" using assms by (simp_all add: t_def wwvb_linked_def osc_unit_def)
  obtain e d where p: "pushEnvelope ref (ww_magAccum t / of_int (ww_magCount t)) (ww_env t, ww_dec t) = (e, d)" by fastforce
  let ?p = "t\<lparr>ww_env := e, ww_dec := d, ww_magAccum := 0, ww_magCount := 0\<rparr>"
  have "wb_reach rate hr b (pushEnvelope ref (ww_magAccum t / of_int (ww_magCount t)) (ww_env t, ww_dec t))"
    using t by (intro wb_reach.sample) (simp_all add: wwvb_linked_def)
  moreover have "wb_lockState d \<noteq> LsNoSignal"
    using pushEnvelope_signal[of "ww_dec t" ref "ww_magAccum t / of_int (ww_magCount t)" "ww_env t"] t(1,3) p by (simp add: wwvb_linked_def)
  ultimately have p': "wwvb_linked rate hr b ?p" "osc_unit ?p" using t(2,3) p by (simp_all add: wwvb_linked_def osc_unit_def)
  have "feedSteady ref x s = ww_turn (if wb_decim (ww_dec t) \<le> ww_magCount t then ?p else t)"
    unfolding feedSteady_def Let_def I Q prod.case t_def[symmetric] p by (rule refl)
  then show ?thesis using p' t ww_turn_unit by (simp add: wwvb_turn_linked)
qed

lemma ww_startSteady_ok:
  assumes "wwvb_linked rate hr b s" "\<not> ww_running s"
  shows "wwvb_linked rate hr b (ww_startSteady s) \<and> osc_unit (ww_startSteady s)"
  using assms wb_reach.tone[of rate hr b "ww_env s" "ww_dec s"]
  by (simp add: ww_startSteady_def Let_def wwvb_linked_def osc_unit_def) (simp add: wb_startSteady_def)

lemma feedAcquisition_ok:
  assumes "wwvb_linked rate hr b s" "\<not> ww_running s"
  shows "wwvb_linked rate hr b (feedAcquisition x s) \<and> osc_unit (feedAcquisition x s)"
proof -
  have same: "wwvb_linked rate hr b (s\<lparr>ww_s2 := p, ww_s1 := q, ww_acqCount := n\<rparr>)" "osc_unit (s\<lparr>ww_s2 := p, ww_s1 := q, ww_acqCount := n\<rparr>)" for p q n
    using assms by (simp_all add: wwvb_linked_def osc_unit_def)
  have fin: "wwvb_linked rate hr b (finalizeAcquisition t) \<and> osc_unit (finalizeAcquisition t)" if "wwvb_linked rate hr b t" "\<not> ww_running t" for t
    using that ww_startSteady_ok[of rate hr b "t\<lparr>ww_f0 := f\<rparr>" for f] by (simp add: finalizeAcquisition_def Let_def wwvb_linked_def osc_unit_def split: prod.split)
  show ?thesis using same fin assms(2) by (simp add: feedAcquisition_def Let_def)
qed

lemma wwvb_sample_ok:
  assumes "wwvb_linked rate hr b s" "osc_unit s"
  shows "wwvb_linked rate hr b (wwvb_sample ref x s) \<and> osc_unit (wwvb_sample ref x s)"
proof -
  have "wwvb_linked rate hr b (s\<lparr>ww_samplesConsumed := n\<rparr>)" "osc_unit (s\<lparr>ww_samplesConsumed := n\<rparr>)" "ww_running (s\<lparr>ww_samplesConsumed := n\<rparr>) = ww_running s" for n
    using assms by (simp_all add: wwvb_linked_def osc_unit_def)
  note ok = this[of "ww_samplesConsumed s + 1"]
  show ?thesis using feedSteady_ok[OF ok(1,2)] feedAcquisition_ok[OF ok(1)] ok(3) by (simp add: wwvb_sample_def Let_def)
qed

lemma wwvb_call_ok:
  assumes "wwvb_linked rate hr b s" "osc_unit s"
  shows "wwvb_linked rate hr b (wwvb_call c s) \<and> osc_unit (wwvb_call c s)"
proof (cases c)
  case (Process ref audio)
  have "wwvb_linked rate hr b (fold (wwvb_sample ref) audio s) \<and> osc_unit (fold (wwvb_sample ref) audio s)"
    using assms by (induction audio arbitrary: s) (simp_all add: wwvb_sample_ok)
  then show ?thesis by (simp add: Process wwvb_process_def)
next
  case Reset
  have "wb_lockState (wb_reset (ww_dec s)) = LsNoSignal" by (simp add: wb_reset_def)
  then show ?thesis using assms wb_reach.reset[of rate hr b "ww_env s" "ww_dec s"] by (simp add: Reset wwvb_reset_def wwvb_linked_def osc_unit_def)
qed

lemma wwvb_run_ok: "wwvb_linked rate hr b (wwvb_run rate hr b calls) \<and> osc_unit (wwvb_run rate hr b calls)"
proof -
  have "wb_lockState (wb_setPlausibility hr b (mk_WwvbDecoder rate)) = LsNoSignal" by (simp add: wb_setPlausibility_def mk_WwvbDecoder_def wb_reset_def Let_def)
  then have "wwvb_linked rate hr b (mk_Wwvb rate hr b) \<and> osc_unit (mk_Wwvb rate hr b)"
    by (simp add: mk_Wwvb_def wwvb_linked_def osc_unit_def wb_reach.new)
  then have "wwvb_linked rate hr b (fold wwvb_call calls s) \<and> osc_unit (fold wwvb_call calls s)" if "s = mk_Wwvb rate hr b" for s
    using that by (induction calls rule: rev_induct) (simp_all add: wwvb_call_ok[of rate hr b])
  then show ?thesis by (simp add: wwvb_run_def)
qed

definition wwvb_state_ok :: "bool \<Rightarrow> int \<Rightarrow> Wwvb \<Rightarrow> bool" where
  "wwvb_state_ok have_ref bound s \<longleftrightarrow> wb_bounds (ww_dec s) \<and> wb_lock_ok (ww_dec s) \<and> wb_times_ok (wwvb_cfg have_ref bound) (ww_dec s)
     \<and> wb_waiting (we_count (ww_env s)) (ww_dec s) \<and> wb_period_ok (ww_dec s) \<and> osc_unit s"

text \<open>
  C7: The WWVB decoder over any audio. Whatever samples it is given, in whatever blocks, and through
  any resets: the minute's arrays of sixty are used within bounds and a minute in hand has exactly
  the seconds passed since it began; the decoder is locked exactly when it holds a voted time, which
  is the voter's own, certified; every time given out named a second of the minute and carried what
  a voter of its configuration had certified; no second waits in the envelope once the samples to
  read it are in; the length of the tracked second stays within 200 parts per million of the nominal;
  and the mixer's oscillator keeps its amplitude.
\<close>

theorem wwvb_audio_ok: "wwvb_state_ok have_ref bound (wwvb_run rate have_ref bound calls)"
  using wwvb_run_ok[of rate have_ref bound calls] wb_reach_ok[of rate have_ref bound "(ww_env (wwvb_run rate have_ref bound calls), ww_dec (wwvb_run rate have_ref bound calls))"]
  by (simp add: wwvb_state_ok_def wwvb_linked_def wb_ok_def)

end
