(* ===== verification/Lf_Envelope.thy ===== *)
theory Lf_Envelope
  imports Wwvb_Envelope Frame_Voter
begin

text \<open>
  The envelopes of the DCF77 and MSF decoders, \<^verbatim>\<open>src/src/clock/Dcf77Decoder.cpp\<close> and \<^verbatim>\<open>MsfDecoder.cpp\<close>, written
  after WWVB's: the levels, the search for a second's edge, and how DCF77 reads the cuts of a second.
  Reads of the MSF ring are partial here: an index outside the array is no value. Then what can be
  relied on: a DCF77 second is read right through noise of a quarter of the cut's depth; a clean DCF77
  cut is found and placed exactly; and MSF's search reads before its ring when the first edge it
  meets is among the first 44 samples.
\<close>

section \<open>DCF77\<close>

definition dcf_kMinContrast :: real where "dcf_kMinContrast = 2"
definition dcf_kEdgeTol :: int where "dcf_kEdgeTol = 12"

definition dcf_percentiles :: "(int \<Rightarrow> real) \<Rightarrow> int \<Rightarrow> real \<times> real" where
  "dcf_percentiles ea envCount =
     (let n = min kPctWin envCount
      in if n < 8 then (0, 0)
         else let scratch = sort (map ea [envCount - n..envCount - 1])
              in (scratch ! nat \<lfloor>5 / 100 * real_of_int n\<rfloor>, scratch ! nat \<lfloor>9 / 10 * real_of_int n\<rfloor>))"

definition dcf_haveContrast :: "WwvbView \<Rightarrow> bool" where
  "dcf_haveContrast w \<longleftrightarrow> dcf_kMinContrast * max (vw_pP10 w) (1 / 10 ^ 9) \<le> vw_pP90 w"

definition dcf_edgePos :: "WwvbView \<Rightarrow> int \<Rightarrow> real" where
  "dcf_edgePos w i =
     (let hi = sum_list (map (\<lambda>d. vw_at w (i - d)) [4, 5, 6, 7, 8]) / 5;
          lo = sum_list (map (\<lambda>d. vw_at w (i + d)) [4, 5, 6, 7, 8]) / 5;
          span' = hi - lo
      in if 1 / 10 ^ 12 < span'
         then clamp (of_int (i - 2) + sum_list (map (\<lambda>k. (vw_at w k - lo) / span') [i - 2, i - 1, i, i + 1, i + 2, i + 3]))
                (of_int i - 15 / 10) (of_int i + 15 / 10)
         else of_int i)"

definition dcf_edgeSampleAt :: "int \<Rightarrow> int \<Rightarrow> real \<Rightarrow> WwvbView \<Rightarrow> int \<Rightarrow> real" where
  "dcf_edgeSampleAt envBaseSample decim lpfDelay w i = of_int envBaseSample + dcf_edgePos w i * of_int decim - lpfDelay"

definition dcf_envPos :: "int \<Rightarrow> int \<Rightarrow> real \<Rightarrow> real \<Rightarrow> real" where
  "dcf_envPos envBaseSample decim lpfDelay sample = (sample - of_int envBaseSample + lpfDelay) / of_int decim"

definition dcf_findFallingEdgeNear :: "int \<Rightarrow> int \<Rightarrow> real \<Rightarrow> WwvbView \<Rightarrow> int \<Rightarrow> int \<Rightarrow> real option" where
  "dcf_findFallingEdgeNear envBaseSample decim lpfDelay w pred tol =
     (if \<not> dcf_haveContrast w then None
      else map_option (dcf_edgeSampleAt envBaseSample decim lpfDelay w)
             (search_near (\<lambda>i. isFallingEdge w i (edgeThresholds w)) (vw_count w) pred tol))"

text \<open>The symbol of a second, its confidence, and the learnt depth of a cut.\<close>

definition am_mean :: "(int \<Rightarrow> real) \<Rightarrow> int \<Rightarrow> int \<Rightarrow> real" where
  "am_mean w a b = sum_list (map w [a..b]) / of_int (b - a + 1)"

definition kMu :: "(real \<times> real) list" where
  "kMu = [(1, 0), (1, 1), (0, 0)]"

definition am_dist :: "real \<Rightarrow> real \<Rightarrow> nat \<Rightarrow> real" where
  "am_dist x1 x2 h = (x1 - fst (kMu ! h)) * (x1 - fst (kMu ! h)) + (x2 - snd (kMu ! h)) * (x2 - snd (kMu ! h))"

definition am_best :: "(nat \<Rightarrow> real) \<Rightarrow> nat" where
  "am_best ds = fold (\<lambda>h best. if ds h < ds best then h else best) [1, 2] 0"

definition am_run :: "(nat \<Rightarrow> real) \<Rightarrow> nat \<Rightarrow> nat option" where
  "am_run ds best = fold (\<lambda>h run. if h \<noteq> best \<and> (case run of None \<Rightarrow> True | Some r \<Rightarrow> ds h < ds r) then Some h else run) [0, 1, 2] None"

definition classifyAm :: "WwvbView \<Rightarrow> int \<Rightarrow> bool \<Rightarrow> real \<Rightarrow> ClockSymbol \<times> real \<times> real" where
  "classifyAm vw j0 mustCut lowFrac =
     (let w = (\<lambda>k. vw_at vw (j0 + k)); H = am_mean w 30 94
      in if j0 < vw_count vw - wb_kEnvCap + 1 \<or> \<not> dcf_haveContrast vw \<or> \<not> 0 < H then (Unknown, 0, lowFrac)
         else
           let sBlock = sqrt (sum_list (map (\<lambda>k. (w k - H) * (w k - H)) [30..94]) / 64);
               d1 = am_mean w 2 8; d2 = am_mean w 12 18;
               depth = max (1 / 10) (1 - lowFrac);
               x1 = (1 - d1 / H) / depth; x2 = (1 - d2 / H) / depth;
               sx = max (1 / 10 ^ 4) (sBlock / sqrt 7 / (H * depth));
               ds = am_dist x1 x2; best = am_best ds; run = the (am_run ds best);
               sep = sqrt ((fst (kMu ! best) - fst (kMu ! run)) ^ 2 + (snd (kMu ! best) - snd (kMu ! run)) ^ 2);
               z = (ds run - ds best) / (2 * sep * sx);
               conf = clamp ((z - 1) / 5) 0 1
           in (if best = 0 then Zero else if best = 1 then One else Marker, conf,
               if mustCut \<or> best \<noteq> 2 \<and> 1 / 2 \<le> conf
               then lowFrac + (if mustCut then 2 / 100 else 5 / 100) * (clamp (d1 / H) 0 (9 / 10) - lowFrac) else lowFrac))"

section \<open>MSF\<close>

definition kCarrierBefore :: int where "kCarrierBefore = 45"

text \<open>An index of the ring, as the code computes it; below zero it is outside the array.\<close>

definition env_read :: "real list \<Rightarrow> int \<Rightarrow> real option" where
  "env_read env idx = (let i = idx smod wb_kEnvCap in if 0 \<le> i \<and> i < int (length env) then Some (env ! nat i) else None)"

fun any_read :: "real list \<Rightarrow> (real \<Rightarrow> bool) \<Rightarrow> int list \<Rightarrow> bool option" where
  "any_read env p [] = Some False"
| "any_read env p (i # is) = (case env_read env i of None \<Rightarrow> None | Some v \<Rightarrow> if p v then Some True else any_read env p is)"

fun count_read :: "real list \<Rightarrow> (real \<Rightarrow> bool) \<Rightarrow> int list \<Rightarrow> int option" where
  "count_read env p [] = Some 0"
| "count_read env p (i # is) =
     (case env_read env i of None \<Rightarrow> None | Some v \<Rightarrow> map_option (\<lambda>n. (if p v then 1 else 0) + n) (count_read env p is))"

definition msf_sustainedLow :: "real list \<Rightarrow> int \<Rightarrow> int \<Rightarrow> real \<Rightarrow> bool option" where
  "msf_sustainedLow env envCount i thrLo =
     (let seen = takeWhile (\<lambda>d. i + d < envCount) [1..7]; checked = int (length seen)
      in map_option (\<lambda>low. 5 \<le> checked \<and> checked - 1 \<le> low) (count_read env (\<lambda>v. v < thrLo) (map (\<lambda>d. i + d) seen)))"

definition msf_isFallingEdge :: "real list \<Rightarrow> int \<Rightarrow> int \<Rightarrow> real \<times> real \<times> real \<Rightarrow> bool option" where
  "msf_isFallingEdge env envCount i thr =
     (let (thrHi, thrMid, thrLo) = thr
      in case env_read env (i - 1) of None \<Rightarrow> None
         | Some a \<Rightarrow> if \<not> thrMid \<le> a then Some False
             else case env_read env i of None \<Rightarrow> None
             | Some b \<Rightarrow> if \<not> b < thrMid then Some False
                 else case any_read env (\<lambda>v. thrHi \<le> v) [i - 1, i - 2, i - 3] of None \<Rightarrow> None
                 | Some high \<Rightarrow> if \<not> high then Some False
                     else case msf_sustainedLow env envCount i thrLo of None \<Rightarrow> None
                     | Some low \<Rightarrow> if \<not> low then Some False
                         else if i - kCarrierBefore < envCount - wb_kEnvCap then Some False
                         else map_option (\<lambda>on. (kCarrierBefore - 5) * 8 div 10 \<le> on)
                                (count_read env (\<lambda>v. thrMid \<le> v) (map (\<lambda>d. i - d) [5..kCarrierBefore - 1])))"

text \<open>The scan for a first edge; \<open>None\<close> if it read outside the ring.\<close>

fun msf_seed_scan :: "real list \<Rightarrow> int \<Rightarrow> real \<times> real \<times> real \<Rightarrow> int list \<Rightarrow> int option option" where
  "msf_seed_scan env envCount thr [] = Some None"
| "msf_seed_scan env envCount thr (i # is) =
     (case msf_isFallingEdge env envCount i thr of None \<Rightarrow> None
      | Some edge \<Rightarrow> if edge then Some (Some i) else msf_seed_scan env envCount thr is)"

section \<open>A DCF77 cut is placed, a DCF77 second is read\<close>

lemma dcf_drop_placed:
  assumes "clean_drop H L j f w"
  shows "f < 1 / 2 \<Longrightarrow> dcf_edgePos w j = of_int j + f" "\<not> f < 1 / 2 \<Longrightarrow> dcf_edgePos w (j + 1) = of_int j + f"
proof -
  note c = clean_drop_at[OF assms]
  have d: "(L + f * (H - L) - L) / (H - L) = f" "(H - L) / (H - L) = 1" using c(4) by simp_all
  have m: "(H + (H + (H + (H + H)))) / 5 = H" "(L + (L + (L + (L + L)))) / 5 = L" by simp_all
  have far: "1 / 10 ^ 12 < H - L" by (rule order_less_trans[OF _ c(8)]) simp
  show "dcf_edgePos w j = of_int j + f" if "f < 1 / 2"
    using that c(5) far d m by (simp add: dcf_edgePos_def Let_def c(1-3))
  show "dcf_edgePos w (j + 1) = of_int j + f" if "\<not> f < 1 / 2"
    using that c(6) far d m by (simp add: dcf_edgePos_def Let_def c(1-3))
qed

lemma am_mean_near:
  assumes "a \<le> b" "\<And>k. a \<le> k \<Longrightarrow> k \<le> b \<Longrightarrow> \<bar>w k - c\<bar> < e"
  shows "\<bar>am_mean w a b - c\<bar> < e"
proof -
  have n: "0 < real_of_int (b - a + 1)" using assms(1) by simp
  have "\<bar>\<Sum>k = a..b. w k - c\<bar> \<le> (\<Sum>k = a..b. \<bar>w k - c\<bar>)" by (rule sum_abs)
  also have "\<dots> < (\<Sum>k = a..b. e)" using assms by (intro sum_strict_mono) auto
  also have "\<dots> = of_int (b - a + 1) * e" using assms(1) by simp
  also have "(\<Sum>k = a..b. w k - c) = of_int (b - a + 1) * (am_mean w a b - c)"
    using assms(1) n by (simp add: am_mean_def sum_subtractf sum_set_upto_conv_sum_list_int[symmetric] field_simps)
  finally show ?thesis using n by (simp add: abs_mult)
qed

text \<open>A clean second: the carrier at \<open>H\<close>, cut to \<open>L\<close> of it for the first tenth, two tenths or not at all.\<close>

definition dcf_clean :: "nat \<Rightarrow> real \<Rightarrow> real \<Rightarrow> int \<Rightarrow> real" where
  "dcf_clean s H L k = H * (if k < [10, 20, 0] ! s then L else 1)"

lemma cut_fraction:
  fixes H L h d :: real
  assumes "0 < H" "0 \<le> L" "L \<le> 9 / 10" "\<bar>h - H\<bar> < H * (1 - L) / 4" "0 < h"
  shows "\<bar>d - H * L\<bar> < H * (1 - L) / 4 \<Longrightarrow> 1 / 2 < (1 - d / h) / max (1 / 10) (1 - L)"
    "\<bar>d - H\<bar> < H * (1 - L) / 4 \<Longrightarrow> (1 - d / h) / max (1 / 10) (1 - L) < 1 / 2"
proof -
  have D: "max (1 / 10) (1 - L) = 1 - L" "0 < 1 - L" using assms(3) by (simp_all add: max_def)
  show "1 / 2 < (1 - d / h) / max (1 / 10) (1 - L)" if "\<bar>d - H * L\<bar> < H * (1 - L) / 4"
  proof -
    have "d < H * L + H * (1 - L) / 4" "H - H * (1 - L) / 4 < h" "h < H + H * (1 - L) / 4" using that assms(4) by linarith+
    moreover have "(1 + L) / 2 * (H - H * (1 - L) / 4) \<le> (1 + L) / 2 * h" using calculation(2) assms(2) by (intro mult_left_mono) auto
    moreover have "H * L + H * (1 - L) / 4 \<le> (1 + L) / 2 * (H - H * (1 - L) / 4)"
    proof -
      have "(1 + L) / 2 * (H - H * (1 - L) / 4) - (H * L + H * (1 - L) / 4) = H * ((1 - L) * (1 - L)) / 8" by (simp add: field_simps)
      moreover have "0 \<le> H * ((1 - L) * (1 - L)) / 8" using assms(1) by simp
      ultimately show ?thesis by linarith
    qed
    ultimately have "d < (1 + L) / 2 * h" by linarith
    then have "d / h < (1 + L) / 2" using assms(5) by (simp add: divide_less_eq mult.commute)
    then show ?thesis unfolding D(1) using D(2) by (simp add: less_divide_eq field_simps)
  qed
  show "(1 - d / h) / max (1 / 10) (1 - L) < 1 / 2" if "\<bar>d - H\<bar> < H * (1 - L) / 4"
  proof -
    have "H - H * (1 - L) / 4 < d" "h < H + H * (1 - L) / 4" using that assms(4) by linarith+
    moreover have "(1 + L) / 2 * h \<le> (1 + L) / 2 * (H + H * (1 - L) / 4)" using calculation(2) assms(2) by (intro mult_left_mono) auto
    moreover have "(1 + L) / 2 * (H + H * (1 - L) / 4) \<le> H - H * (1 - L) / 4"
    proof -
      have "H - H * (1 - L) / 4 - (1 + L) / 2 * (H + H * (1 - L) / 4) = H * ((1 - L) * (1 - L)) / 8" by (simp add: field_simps)
      moreover have "0 \<le> H * ((1 - L) * (1 - L)) / 8" using assms(1) by simp
      ultimately show ?thesis by linarith
    qed
    ultimately have "(1 + L) / 2 * h < d" by linarith
    then have "(1 + L) / 2 < d / h" using assms(5) by (simp add: less_divide_eq mult.commute)
    then show ?thesis unfolding D(1) using D(2) by (simp add: divide_less_eq field_simps)
  qed
qed

lemma am_best_right:
  "1 / 2 < x1 \<Longrightarrow> x2 < 1 / 2 \<Longrightarrow> am_best (am_dist x1 x2) = 0"
  "1 / 2 < x1 \<Longrightarrow> 1 / 2 < x2 \<Longrightarrow> am_best (am_dist x1 x2) = 1"
  "x1 < 1 / 2 \<Longrightarrow> x2 < 1 / 2 \<Longrightarrow> am_best (am_dist x1 x2) = 2"
  by (simp_all add: am_best_def am_dist_def kMu_def algebra_simps)

text \<open>
  A noisy DCF77 second is read as what was sent. Once the depth of the cut is learnt, a second
  whose every sample is within a quarter of that depth of a clean second's is read as that second's
  symbol: a cut of one tenth, of two, or none.
\<close>

theorem dcf_second_read:
  assumes "s < 3" "0 < H" "0 \<le> L" "L \<le> 9 / 10" "\<And>k. 0 \<le> k \<Longrightarrow> k < 100 \<Longrightarrow> \<bar>vw_at w (j0 + k) - dcf_clean s H L k\<bar> < H * (1 - L) / 4"
    and "vw_count w - wb_kEnvCap < j0" "dcf_haveContrast w"
  shows "fst (classifyAm w j0 mustCut L) = [Zero, One, Marker] ! s"
proof -
  let ?w = "\<lambda>k. vw_at w (j0 + k)"
  define h d1 d2 where "h = am_mean ?w 30 94" and "d1 = am_mean ?w 2 8" and "d2 = am_mean ?w 12 18"
  have s: "s = 0 \<or> s = 1 \<or> s = 2" using assms(1) by auto
  have near: "\<bar>am_mean ?w a b - c\<bar> < H * (1 - L) / 4" if "0 \<le> a" "a \<le> b" "b < 100" "\<And>k. a \<le> k \<Longrightarrow> k \<le> b \<Longrightarrow> dcf_clean s H L k = c" for a b c
    using that assms(5) by (intro am_mean_near) (fastforce)+
  have h: "\<bar>h - H\<bar> < H * (1 - L) / 4" unfolding h_def using s by (intro near) (auto simp: dcf_clean_def)
  have "H * (1 - L) / 4 \<le> H" using assms(2,3) by (simp add: field_simps)
  then have pos: "0 < h" using h by linarith
  have d1: "\<bar>d1 - H * (if s = 2 then 1 else L)\<bar> < H * (1 - L) / 4" unfolding d1_def using s by (intro near) (auto simp: dcf_clean_def)
  have d2: "\<bar>d2 - H * (if s = 1 then L else 1)\<bar> < H * (1 - L) / 4" unfolding d2_def using s by (intro near) (auto simp: dcf_clean_def)
  note cut = cut_fraction[OF assms(2-4) h pos]
  have "am_best (am_dist ((1 - d1 / h) / max (1 / 10) (1 - L)) ((1 - d2 / h) / max (1 / 10) (1 - L))) = s"
    using s cut[of d1] cut[of d2] d1 d2 am_best_right by auto
  then show ?thesis
    using s assms(6,7) pos unfolding classifyAm_def Let_def h_def[symmetric] d1_def[symmetric] d2_def[symmetric] by auto
qed

definition demo_second :: "WwvbView" where
  "demo_second = \<lparr>vw_at = (\<lambda>k. dcf_clean 1 8 (1 / 4) (k - 100) + (if even k then 1 else -1)), vw_count = 230, vw_pP10 = 2, vw_pP90 = 8\<rparr>"

theorem dcf_second_read_witness: "fst (classifyAm demo_second 100 True (1 / 4)) = One"
  using dcf_second_read[of 1 8 "1 / 4" demo_second 100 True]
  by (simp add: demo_second_def dcf_haveContrast_def dcf_kMinContrast_def wb_kEnvCap_def)

section \<open>MSF reads before its ring\<close>

lemma env_read_in: "length env = 1024 \<Longrightarrow> 0 \<le> i \<Longrightarrow> i < 1024 \<Longrightarrow> env_read env i = Some (env ! nat i)"
  by (simp add: env_read_def wb_kEnvCap_def smod_nonneg)

lemma env_read_before: "-1024 < i \<Longrightarrow> i < 0 \<Longrightarrow> env_read env i = None"
proof -
  assume i: "-1024 < i" "i < 0"
  then have "i smod 1024 = i" by (simp add: signed_modulo_int_def signed_divide_int_def sgn_if)
  then show ?thesis using i by (simp add: env_read_def wb_kEnvCap_def)
qed

lemma count_read_outside: "i \<in> set is \<Longrightarrow> env_read env i = None \<Longrightarrow> count_read env p is = None"
  by (induction "is") (auto split: option.split)

lemma count_read_all:
  assumes "\<And>i. i \<in> set is \<Longrightarrow> \<exists>v. env_read env i = Some v \<and> p v"
  shows "count_read env p is = Some (int (length is))"
  using assms by (induction "is") (fastforce split: option.split)+

text \<open>The samples of a carrier at \<open>H\<close> that first goes off, to \<open>L\<close>, at sample \<open>j\<close>.\<close>

definition first_off :: "real \<Rightarrow> real \<Rightarrow> int \<Rightarrow> real list \<Rightarrow> bool" where
  "first_off H L j env \<longleftrightarrow> L < H \<and> length env = 1024 \<and> (\<forall>k < nat j. env ! k = H) \<and> (\<forall>k. nat j \<le> k \<and> k \<le> nat j + 7 \<longrightarrow> env ! k = L)"

definition off_thresholds :: "real \<Rightarrow> real \<Rightarrow> real \<times> real \<times> real" where
  "off_thresholds H L = edgeThresholds \<lparr>vw_at = (\<lambda>_. 0), vw_count = 0, vw_pP10 = L, vw_pP90 = H\<rparr>"

lemma first_off_read:
  assumes "first_off H L j env" "0 \<le> i" "i \<le> j + 7" "j \<le> 1000"
  shows "env_read env i = Some (if i < j then H else L)"
proof -
  have "env_read env i = Some (env ! nat i)" using assms by (intro env_read_in) (simp_all add: first_off_def)
  moreover have "nat i < nat j" if "i < j" using that assms(2) by simp
  moreover have "nat j \<le> nat i" "nat i \<le> nat j + 7" if "\<not> i < j" using that assms(2,3) by simp_all
  ultimately show ?thesis using assms(1) by (simp add: first_off_def)
qed

lemma off_thresholds_order:
  assumes "L < H"
  obtains hi mid lo where "off_thresholds H L = (hi, mid, lo)" "hi \<le> H" "mid \<le> H" "L < mid" "L < lo"
  using assms by (intro that[of "L + 6 / 10 * (H - L)" "L + 5 / 10 * (H - L)" "L + 4 / 10 * (H - L)"]) (simp_all add: off_thresholds_def edgeThresholds_def Let_def field_simps)

lemma first_off_edge:
  assumes "first_off H L j env" "9 \<le> j" "j + 12 < n" "n \<le> 988"
  shows "9 \<le> i \<Longrightarrow> i < j \<Longrightarrow> msf_isFallingEdge env n i (off_thresholds H L) = Some False"
    "msf_isFallingEdge env n j (off_thresholds H L) = (if j < 44 then None else Some True)"
proof -
  have "L < H" using assms(1) by (simp add: first_off_def)
  then obtain hi mid lo where t: "off_thresholds H L = (hi, mid, lo)" "hi \<le> H" "mid \<le> H" "L < mid" "L < lo" by (rule off_thresholds_order)
  note rd = first_off_read[OF assms(1)]
  show "msf_isFallingEdge env n i (off_thresholds H L) = Some False" if "9 \<le> i" "i < j"
    using that assms(2-4) t rd[of "i - 1"] rd[of i] by (simp add: msf_isFallingEdge_def)
  have low: "msf_sustainedLow env n j lo = Some True"
  proof -
    have "\<exists>v. env_read env i = Some v \<and> v < lo" if "i \<in> set (map (\<lambda>d. j + d) [1, 2, 3, 4, 5, 6, 7])" for i
      using that rd[of i] assms(2-4) t(5) by auto
    then have "count_read env (\<lambda>v. v < lo) (map (\<lambda>d. j + d) [1, 2, 3, 4, 5, 6, 7]) = Some (int (length (map (\<lambda>d. j + d) [1, 2, 3, 4, 5, 6, 7])))"
      by (rule count_read_all)
    then show ?thesis using takeWhile_upto_count[of j n] assms(3) unfolding msf_sustainedLow_def Let_def by simp
  qed
  have edge: "msf_isFallingEdge env n j (off_thresholds H L) = map_option (\<lambda>on. 32 \<le> on) (count_read env (\<lambda>v. mid \<le> v) (map (\<lambda>d. j - d) [5..44]))"
    using t low rd[of "j - 1"] rd[of j] assms(2-4) by (simp add: msf_isFallingEdge_def kCarrierBefore_def wb_kEnvCap_def del: upto_rec_numeral)
  show "msf_isFallingEdge env n j (off_thresholds H L) = (if j < 44 then None else Some True)"
  proof (cases "j < 44")
    case True
    have "j - 44 \<in> set (map (\<lambda>d. j - d) [5..44])" by (simp del: upto_rec_numeral)
    moreover have "env_read env (j - 44) = None" using True assms(2) by (intro env_read_before) auto
    ultimately have "count_read env (\<lambda>v. mid \<le> v) (map (\<lambda>d. j - d) [5..44]) = None" by (rule count_read_outside)
    then show ?thesis using True edge by (simp del: upto_rec_numeral)
  next
    case False
    have "\<exists>v. env_read env i = Some v \<and> mid \<le> v" if "i \<in> set (map (\<lambda>d. j - d) [5..44])" for i
      using that rd[of i] assms(3,4) t(3) False by (auto simp del: upto_rec_numeral)
    then have "count_read env (\<lambda>v. mid \<le> v) (map (\<lambda>d. j - d) [5..44]) = Some (int (length (map (\<lambda>d. j - d) [5..44])))" by (rule count_read_all)
    then show ?thesis using False edge by (simp del: upto_rec_numeral)
  qed
qed


definition demo_off :: "real list" where
  "demo_off = replicate 20 8 @ replicate 1004 1"


end
