(* ===== verification/Dcf77_Chips.thy ===== *)
theory Dcf77_Chips
  imports Dcf77_Tracking
begin

text \<open>
  The phase correlator of the DCF77 decoder, \<^verbatim>\<open>src/src/clock/Dcf77Decoder.cpp\<close>: the chip sequence, the
  correlation taken from prefix sums, the noise it is judged against, and the search for the burst
  in a second. The prefix sums themselves, over the mixed and filtered samples, are arguments. Then:
  the correlation from regrouped prefix sums is the chip by chip one, the early-late step finds the
  burst exactly, and a second's noise moves the average by a bounded factor.
\<close>

unbundle bit_operations_syntax

section \<open>The chips\<close>

definition kChips :: nat where "kChips = 512"
definition kPmNoiseAlpha :: real where "kPmNoiseAlpha = 1 / 8"
definition kPmNoiseJump :: real where "kPmNoiseJump = 4"
definition kPmStrongSnr :: real where "kPmStrongSnr = 8"

definition lfsr_step :: "32 word \<Rightarrow> 32 word" where
  "lfsr_step r = (let chip = r AND 1; r = drop_bit 1 r in if chip XOR (if r = 0 then 1 else 0) \<noteq> 0 then r XOR 0x110 else r)"

fun chips_from :: "nat \<Rightarrow> 32 word \<Rightarrow> int list" where
  "chips_from 0 r = []"
| "chips_from (Suc n) r = (if r AND 1 \<noteq> 0 then -1 else 1) # chips_from n (lfsr_step r)"

definition buildChips :: "int list" where
  "buildChips = chips_from kChips 0"

text \<open>The weights of the prefix sums the correlation reads; those of no weight are left out.\<close>

definition chip_coeffs :: "int list \<Rightarrow> (nat \<times> int) list" where
  "chip_coeffs chips =
     filter (\<lambda>(k, w). w \<noteq> 0)
       ((0, - chips ! 0) # map (\<lambda>k. (k, chips ! (k - 1) - chips ! k)) [1..<kChips] @ [(kChips, chips ! (kChips - 1))])"

section \<open>The correlation\<close>

definition prefixAt :: "real list \<Rightarrow> int \<Rightarrow> real \<Rightarrow> real" where
  "prefixAt p ringMask at' =
     (let x = at' + 1 / 2; k = \<lfloor>x\<rfloor>; a = p ! nat (k AND ringMask); b = p ! nat ((k + 1) AND ringMask)
      in a + (x - of_int k) * (b - a))"

definition corrOn :: "(nat \<times> int) list \<Rightarrow> (real \<Rightarrow> real) \<Rightarrow> real \<Rightarrow> real \<Rightarrow> real" where
  "corrOn coeffs P tau tc = fold (\<lambda>(k, w) s. s + of_int w * P (tau + of_nat k * tc)) coeffs 0"

definition burstInRing :: "int \<Rightarrow> int \<Rightarrow> real \<Rightarrow> real \<Rightarrow> bool" where
  "burstInRing prefixLo prefixHi tau tc \<longleftrightarrow> of_int prefixLo \<le> tau - 2 \<and> tau + of_nat kChips * tc + 2 \<le> of_int prefixHi"

text \<open>Early-late on the correlation's triangle, at most twice.\<close>

fun refine_loop :: "nat \<Rightarrow> (real \<Rightarrow> real) \<Rightarrow> real \<Rightarrow> real \<Rightarrow> real \<Rightarrow> real" where
  "refine_loop 0 corrAt tau tc sign = tau"
| "refine_loop (Suc n) corrAt tau tc sign =
     (let d = tc / 2; E = sign * corrAt (tau - d); L = sign * corrAt (tau + d)
      in if E + L \<le> 0 then tau
         else refine_loop n corrAt (tau - clamp ((E - L) / (E + L) * (tc - d)) (- d) d) tc sign)"

definition refine :: "(real \<Rightarrow> real) \<Rightarrow> real \<Rightarrow> real \<Rightarrow> real \<Rightarrow> real" where
  "refine corrAt tau tc sign = refine_loop 2 corrAt tau tc sign"

section \<open>The noise\<close>

record NoiseEst =
  ne_v :: real
  ne_now :: real

definition noise_update :: "real \<Rightarrow> NoiseEst \<Rightarrow> NoiseEst" where
  "noise_update inst e =
     (if inst \<le> 0 then e\<lparr>ne_now := ne_v e\<rparr>
      else if \<not> 0 < ne_v e then \<lparr>ne_v = inst, ne_now = inst\<rparr>
      else \<lparr>ne_v = ne_v e + kPmNoiseAlpha * (min inst (kPmNoiseJump * ne_v e) - ne_v e), ne_now = (if kPmNoiseJump * ne_v e < inst then inst else ne_v e)\<rparr>)"

definition noise2On :: "(real \<Rightarrow> bool) \<Rightarrow> (real \<Rightarrow> real) \<Rightarrow> real list \<Rightarrow> real" where
  "noise2On inRing corr lags =
     (let sq = map (\<lambda>t. corr t * corr t) (take 32 (filter inRing lags)); k = length sq
      in if k < 8 then -1 else max (1 / 10 ^ 30) (sort sq ! (k div 2) / (455 / 1000)))"

definition trackNoise2 :: "(real \<Rightarrow> bool) \<Rightarrow> (real \<Rightarrow> real) \<Rightarrow> real \<Rightarrow> real \<Rightarrow> real" where
  "trackNoise2 inRing corr tau tc = noise2On inRing corr (map (\<lambda>j. tau - (4 + 537 / 100 * of_nat j) * tc) [0..<24])"

definition hpBetter :: "real \<Rightarrow> real \<Rightarrow> real \<Rightarrow> bool" where
  "hpBetter hpKeep2 raw2 hp2 \<longleftrightarrow> 0 < raw2 \<and> 0 < hp2 \<and> hp2 < hpKeep2 * raw2"

section \<open>The burst of a second\<close>

text \<open>The estimates and which of the two correlations is used, after this second.\<close>

record PmNoise =
  pn_raw :: NoiseEst
  pn_hp :: NoiseEst
  pn_useHp :: bool

definition snrOf :: "PmNoise \<Rightarrow> real \<Rightarrow> real" where
  "snrOf s C = (let noise2 = (if pn_useHp s then ne_now (pn_hp s) else ne_now (pn_raw s)) in if 0 < noise2 then \<bar>C\<bar> / sqrt noise2 else 0)"

definition pm_peak :: "(real \<Rightarrow> real) \<Rightarrow> real \<Rightarrow> int \<Rightarrow> real \<times> real" where
  "pm_peak corrAt base win =
     fold (\<lambda>d (best, bestTau). let c = corrAt (base + of_int d) in if \<bar>best\<bar> < \<bar>c\<bar> then (c, base + of_int d) else (best, bestTau)) [- win..win] (0, base)"

text \<open>\<open>corrR\<close> and \<open>corrH\<close>: the correlation on the plain and on the high-passed prefix sums.\<close>

definition pmTrack :: "(real \<Rightarrow> bool) \<Rightarrow> (real \<Rightarrow> real) \<Rightarrow> (real \<Rightarrow> real) \<Rightarrow> real \<Rightarrow> bool \<Rightarrow> real \<Rightarrow> real \<Rightarrow> PmNoise \<Rightarrow> (bool \<times> real \<times> real \<times> real) \<times> PmNoise" where
  "pmTrack inRing corrR corrH hpKeep2 pmTrkValid pred P s =
     (let tc = kChipSec * P; win = \<lceil>15 / 10 * tc\<rceil>; base = of_int \<lfloor>pred\<rfloor>
      in if \<not> inRing (base - of_int win - tc) \<or> \<not> inRing (base + of_int win + tc) then ((False, pred, 0, 0), s)
         else
           let raw = noise_update (trackNoise2 inRing corrR base tc) (pn_raw s);
               hp = noise_update (trackNoise2 inRing corrH base tc) (pn_hp s);
               s = \<lparr>pn_raw = raw, pn_hp = hp, pn_useHp = hpBetter hpKeep2 (ne_v raw) (ne_v hp)\<rparr>;
               corrAt = (if pn_useHp s then corrH else corrR);
               (best, bestTau) = pm_peak corrAt base win;
               tau = refine corrAt bestTau tc (if 0 \<le> best then 1 else -1);
               C = corrAt tau; snr = snrOf s C;
               gate = (if pmTrkValid \<and> snr < kPmStrongSnr then tc / 2 else of_int win)
           in if kPmMinSnr \<le> snr \<and> \<bar>tau - pred\<bar> \<le> gate then ((True, tau, C, snr), s)
              else let C = corrAt pred in ((False, pred, C, snrOf s C), s))"

section \<open>The regrouped correlation\<close>

lemma chips_from_length: "length (chips_from n r) = n"
  by (induction n r rule: chips_from.induct) simp_all

lemma buildChips_length: "length buildChips = kChips"
  by (simp add: buildChips_def chips_from_length)

lemma fold_sum: "fold (\<lambda>(k, w) s. s + of_int w * g k) cs acc = acc + sum_list (map (\<lambda>(k, w). of_int w * g k) cs)" for g :: "nat \<Rightarrow> real"
  by (induction cs arbitrary: acc) auto

lemma sum_nonzero: "sum_list (map (\<lambda>(k, w). of_int w * g k) (filter (\<lambda>(k, w). w \<noteq> 0) cs)) = sum_list (map (\<lambda>(k, w). of_int w * g k) cs)" for g :: "nat \<Rightarrow> real"
  by (induction cs) auto

lemma summed_by_parts:
  fixes c :: "nat \<Rightarrow> int" and g :: "nat \<Rightarrow> real"
  assumes "0 < n"
  shows "(\<Sum>k<n. of_int (c k) * (g (Suc k) - g k)) = - of_int (c 0) * g 0 + (\<Sum>k = 1..<n. of_int (c (k - 1) - c k) * g k) + of_int (c (n - 1)) * g n"
  using assms
proof (induction n)
  case (Suc n)
  show ?case
  proof (cases "n = 0")
    case False
    then have "(\<Sum>k = 1..<Suc n. of_int (c (k - 1) - c k) * g k) = (\<Sum>k = 1..<n. of_int (c (k - 1) - c k) * g k) + of_int (c (n - 1) - c n) * g n" by simp
    then show ?thesis using Suc.IH False by (simp add: algebra_simps)
  qed (simp add: algebra_simps)
qed simp

text \<open>
  C19: DCF77's correlation from regrouped prefix sums is the correlation. Whatever the running sum of
  the phase, what the decoder computes, reading it only where the chip changes, is the sum over the
  512 chips of the chip times the phase summed over that chip.
\<close>

theorem regrouped_correlation:
  "corrOn (chip_coeffs buildChips) P tau tc
   = (\<Sum>k<512. of_int (buildChips ! k) * (P (tau + of_nat (Suc k) * tc) - P (tau + of_nat k * tc)))"
proof -
  define c where "c = (\<lambda>k. buildChips ! k)"
  define g where "g = (\<lambda>k. P (tau + of_nat k * tc))"
  have "corrOn (chip_coeffs buildChips) P tau tc = sum_list (map (\<lambda>(k, w). of_int w * g k) (chip_coeffs buildChips))"
    unfolding corrOn_def g_def by (simp add: fold_sum[where g = "\<lambda>k. P (tau + of_nat k * tc)"])
  also have "\<dots> = - of_int (c 0) * g 0 + sum_list (map (\<lambda>k. of_int (c (k - 1) - c k) * g k) [1..<512]) + of_int (c 511) * g 512"
    unfolding chip_coeffs_def sum_nonzero by (simp add: c_def kChips_def o_def del: upt_rec_numeral)
  also have "sum_list (map (\<lambda>k. of_int (c (k - 1) - c k) * g k) [1..<512]) = (\<Sum>k = 1..<512. of_int (c (k - 1) - c k) * g k)"
    by (simp add: sum_list_distinct_conv_sum_set del: upt_rec_numeral)
  also have "- of_int (c 0) * g 0 + \<dots> + of_int (c 511) * g 512 = (\<Sum>k<512. of_int (c k) * (g (Suc k) - g k))"
    using summed_by_parts[of 512 c g] by simp
  finally show ?thesis by (simp add: c_def g_def)
qed

text \<open>The chips begin as the comment has them.\<close>

lemma first_chips: "take 21 buildChips = [1, 1, 1, 1, 1, -1, 1, 1, 1, -1, -1, 1, 1, 1, 1, -1, 1, 1, -1, -1, -1]"
proof -
  have "take n (chips_from (n + m) r) = chips_from n r" for n m r by (induction n arbitrary: r) simp_all
  from this[of 21 491 0] have "take 21 buildChips = chips_from 21 0" by (simp add: buildChips_def kChips_def)
  also have "\<dots> = [1, 1, 1, 1, 1, -1, 1, 1, 1, -1, -1, 1, 1, 1, 1, -1, 1, 1, -1, -1, -1]" by code_simp
  finally show ?thesis .
qed

section \<open>Early-late\<close>

text \<open>The correlation near a burst at \<open>t0\<close>: a triangle one chip wide either side.\<close>

definition triangle :: "real \<Rightarrow> real \<Rightarrow> real \<Rightarrow> real \<Rightarrow> real" where
  "triangle A t0 tc t = A * (tc - \<bar>t - t0\<bar>)"

lemma refine_step:
  assumes "0 < tc" "0 < sign * A" "\<bar>tau - t0\<bar> \<le> tc / 2"
  shows "refine_loop (Suc n) (triangle A t0 tc) tau tc sign = refine_loop n (triangle A t0 tc) t0 tc sign"
proof -
  define x where "x = tau - t0"
  have x: "\<bar>x\<bar> \<le> tc / 2" using assms(3) by (simp add: x_def)
  have E: "sign * triangle A t0 tc (tau - tc / 2) = sign * A * (tc / 2 + x)" and L: "sign * triangle A t0 tc (tau + tc / 2) = sign * A * (tc / 2 - x)"
  proof -
    have "\<bar>tau - tc / 2 - t0\<bar> = tc / 2 - x" "\<bar>tau + tc / 2 - t0\<bar> = tc / 2 + x" using x unfolding x_def by linarith+
    then show "sign * triangle A t0 tc (tau - tc / 2) = sign * A * (tc / 2 + x)" "sign * triangle A t0 tc (tau + tc / 2) = sign * A * (tc / 2 - x)"
      by (simp_all add: triangle_def)
  qed
  have s: "sign * A * (tc / 2 + x) + sign * A * (tc / 2 - x) = sign * A * tc" "sign * A * (tc / 2 + x) - sign * A * (tc / 2 - x) = sign * A * (2 * x)"
    by (simp_all add: algebra_simps)
  have p: "0 < sign * A * tc" using assms(1,2) by simp
  have q: "sign * A * (2 * x) / (sign * A * tc) * (tc - tc / 2) = x" using p assms(1,2) by (cases "sign = 0"; cases "A = 0") (simp_all add: field_simps)
  have c: "clamp x (- (tc / 2)) (tc / 2) = x" using x by (intro clamp_inside) auto
  show ?thesis unfolding refine_loop.simps(2) Let_def E L s q c using p by (simp add: x_def)
qed

text \<open>
  The early-late step finds a DCF77 burst exactly. On the triangle a burst's correlation makes,
  upright or inverted, from anywhere within half a chip of it the refined place is the burst's own.
\<close>

theorem refine_exact:
  assumes "0 < tc" "0 < sign * A" "\<bar>tau - t0\<bar> \<le> tc / 2"
  shows "refine (triangle A t0 tc) tau tc sign = t0"
  using refine_step[OF assms, of 1] refine_step[OF assms(1,2), of t0 t0 0] assms(1) by (simp add: refine_def numeral_2_eq_2 del: refine_loop.simps(2))

theorem refine_exact_witness: "refine (triangle (-3) 100 18) 107 18 (-1) = 100"
  by (rule refine_exact) simp_all

section \<open>A fade\<close>

text \<open>
  One second cannot move the noise DCF77's phase is judged against far. Whatever a second's own
  estimate, the average goes up by at most three eighths of itself and down by at most an eighth; and
  a second read worse than four times the average is judged by its own figure.
\<close>

theorem noise_moves_slowly:
  assumes "0 < ne_v e"
  shows "7 / 8 * ne_v e \<le> ne_v (noise_update inst e) \<and> ne_v (noise_update inst e) \<le> 11 / 8 * ne_v e
    \<and> (0 < inst \<longrightarrow> inst \<le> 4 * ne_now (noise_update inst e))"
  using assms by (simp add: noise_update_def kPmNoiseAlpha_def kPmNoiseJump_def min_def field_simps)

theorem noise_moves_slowly_witness:
  "ne_v (noise_update 1000 \<lparr>ne_v = 8, ne_now = 8\<rparr>) \<le> 11"
  using noise_moves_slowly[of "\<lparr>ne_v = 8, ne_now = 8\<rparr>" 1000] by simp

end
