(* ===== verification/Sample_Clock.thy ===== *)
theory Sample_Clock
  imports Ntp_Prelude
begin

text \<open>
  From a sample index to the daemon clock, \<^verbatim>\<open>src/src/SampleClock.h\<close> and \<^verbatim>\<open>SampleClock.cpp\<close>: the line fitted
  to packet arrivals (\<open>SampleClock\<close>), the marks of a receiver that stamps its captures
  (\<open>CaptureClock\<close>), the watch on the host clock those stamps rest on (\<open>HostSlewGuard\<close>), and how the
  clocks are read. The deques are lists, oldest first. \<^verbatim>\<open>std::lower_bound\<close> finds the first mark that
  is not before the sample, \<^verbatim>\<open>std::nth_element\<close> the middle one in order.

  The results are in \<^verbatim>\<open>Sample_Properties\<close>.
\<close>

section \<open>Reading the clocks\<close>

text \<open>The arguments are the readings made, in order.\<close>

definition daemonBase :: "real \<Rightarrow> real \<Rightarrow> real \<Rightarrow> real" where
  "daemonBase r0 rt r1 = rt - 1 / 2 * (r0 + r1)"

definition daemonNow :: "real \<Rightarrow> real \<Rightarrow> real" where
  "daemonNow base raw = raw + base"

definition daemonMinusRealtime :: "real \<Rightarrow> real \<Rightarrow> real \<Rightarrow> real" where
  "daemonMinusRealtime d0 r d1 = 1 / 2 * (d0 + d1) - r"

definition daemonClockResolution :: "(int \<times> int) option \<Rightarrow> real" where
  "daemonClockResolution res =
     (case res of None \<Rightarrow> 1 / 10 ^ 9 | Some (sec, nsec) \<Rightarrow> of_int sec + of_int nsec * (1 / 10 ^ 9))"

section \<open>The fit to arrivals\<close>

definition kMaxPlausiblePpm :: real where "kMaxPlausiblePpm = 200"

record ClockFit =
  cf_valid :: bool
  cf_anchorSec :: real
  cf_secPerSample :: real
  cf_residualRms :: real
  cf_spanSec :: real
  cf_points :: int
  cf_slopeUncertaintySec :: real
  cf_slopeHeld :: bool

definition default_ClockFit :: ClockFit where
  "default_ClockFit = \<lparr>cf_valid = False, cf_anchorSec = 0, cf_secPerSample = 0, cf_residualRms = 0, cf_spanSec = 0,
     cf_points = 0, cf_slopeUncertaintySec = 0, cf_slopeHeld = False\<rparr>"

record EnvPoint =
  ep_sample :: int
  ep_hostSec :: real
  ep_residual :: real

record SampleClock =
  sc_rate :: int
  sc_bucketSec :: real
  sc_windowSec :: real
  sc_haveBucket :: bool
  sc_bucketBest :: EnvPoint
  sc_bucketStartSec :: real
  sc_envelope :: "EnvPoint list"
  sc_fit :: ClockFit
  sc_lastExcess :: real

definition no_point :: EnvPoint where
  "no_point = \<lparr>ep_sample = 0, ep_hostSec = 0, ep_residual = 0\<rparr>"

definition mk_SampleClock :: "int \<Rightarrow> real \<Rightarrow> real \<Rightarrow> SampleClock" where
  "mk_SampleClock sampleRate bucketSec windowSec =
     \<lparr>sc_rate = (if 0 < sampleRate then sampleRate else 12000), sc_bucketSec = bucketSec, sc_windowSec = windowSec,
      sc_haveBucket = False, sc_bucketBest = no_point, sc_bucketStartSec = 0, sc_envelope = [],
      sc_fit = default_ClockFit, sc_lastExcess = 0\<rparr>"

definition sc_setSampleRate :: "int \<Rightarrow> SampleClock \<Rightarrow> SampleClock" where
  "sc_setSampleRate rate c =
     (if rate \<le> 0 \<or> rate = sc_rate c then c
      else c\<lparr>sc_rate := rate, sc_envelope := [], sc_haveBucket := False, sc_fit := default_ClockFit\<rparr>)"

definition sc_reset :: "SampleClock \<Rightarrow> SampleClock" where
  "sc_reset c = c\<lparr>sc_envelope := [], sc_haveBucket := False, sc_fit := default_ClockFit, sc_lastExcess := 0\<rparr>"

definition refit :: "int \<Rightarrow> EnvPoint list \<Rightarrow> ClockFit" where
  "refit rate env =
     (let n = length env in
      if n < 2 then default_ClockFit
      else
        let mx = sum_list (map (\<lambda>p. of_int (ep_sample p)) env) / real n;
            my = sum_list (map ep_hostSec env) / real n;
            sxx = sum_list (map (\<lambda>p. (of_int (ep_sample p) - mx) * (of_int (ep_sample p) - mx)) env);
            sxy = sum_list (map (\<lambda>p. (of_int (ep_sample p) - mx) * (ep_hostSec p - my)) env);
            nominal = 1 / of_int rate;
            fitted = (if sxx \<le> 0 then nominal else sxy / sxx);
            held = (\<not> (nominal * (1 - kMaxPlausiblePpm * (1 / 10 ^ 6)) < fitted
                        \<and> fitted < nominal * (1 + kMaxPlausiblePpm * (1 / 10 ^ 6))));
            slope = (if held then nominal else fitted);
            anchor = my - slope * mx;
            res = (\<lambda>p. ep_hostSec p - (anchor + slope * of_int (ep_sample p)));
            ss = sum_list (map (\<lambda>p. res p * res p) env);
            rms = sqrt (ss / real n);
            dWork = \<bar>of_int (ep_sample (last env)) - mx\<bar>;
            unc = (if 2 < n \<and> 0 < sxx then sqrt (ss / real (n - 2) / sxx) * dWork else rms)
        in \<lparr>cf_valid = True, cf_anchorSec = anchor, cf_secPerSample = slope, cf_residualRms = rms,
            cf_spanSec = ep_hostSec (last env) - ep_hostSec (hd env), cf_points = int n,
            cf_slopeUncertaintySec = (if held then max unc (\<bar>fitted - nominal\<bar> * dWork) else unc),
            cf_slopeHeld = held\<rparr>)"

text \<open>The window is aged off by time, and never below two points.\<close>

fun age_off :: "real \<Rightarrow> EnvPoint list \<Rightarrow> EnvPoint list" where
  "age_off w [] = []"
| "age_off w (p # env) =
     (if 2 < length (p # env) \<and> w < ep_hostSec (last (p # env)) - ep_hostSec p then age_off w env else p # env)"

definition observe :: "int \<Rightarrow> real \<Rightarrow> SampleClock \<Rightarrow> SampleClock" where
  "observe endSample hostSec c0 =
     (let residual = hostSec - of_int endSample / of_int (sc_rate c0);
          p = \<lparr>ep_sample = endSample, ep_hostSec = hostSec, ep_residual = residual\<rparr>;
          f = sc_fit c0;
          c = (if cf_valid f then c0\<lparr>sc_lastExcess := hostSec - (cf_anchorSec f + cf_secPerSample f * of_int endSample)\<rparr> else c0)
      in if \<not> sc_haveBucket c then c\<lparr>sc_haveBucket := True, sc_bucketBest := p, sc_bucketStartSec := hostSec\<rparr>
         else
           let best = (if residual < ep_residual (sc_bucketBest c) then p else sc_bucketBest c);
               c = c\<lparr>sc_bucketBest := best\<rparr>
           in if hostSec - sc_bucketStartSec c < sc_bucketSec c then c
              else let env = age_off (sc_windowSec c) (sc_envelope c @ [best])
                   in c\<lparr>sc_envelope := env, sc_haveBucket := False, sc_fit := refit (sc_rate c) env\<rparr>)"

definition sc_hostTimeAt :: "real \<Rightarrow> SampleClock \<Rightarrow> real option" where
  "sc_hostTimeAt sample c =
     (let f = sc_fit c in if \<not> cf_valid f then None else Some (cf_anchorSec f + cf_secPerSample f * sample))"

definition lastExcessDelay :: "SampleClock \<Rightarrow> real" where
  "lastExcessDelay c = sc_lastExcess c"

section \<open>The capture clock\<close>

definition kCaptureHistorySec :: real where "kCaptureHistorySec = 900"
definition kMaxExtrapolateSec :: real where "kMaxExtrapolateSec = 2"

record Mark =
  mk_sample :: int
  mk_sec :: real

record CaptureClock =
  cc_rate :: int
  cc_marks :: "Mark list"

definition mk_CaptureClock :: "int \<Rightarrow> CaptureClock" where
  "mk_CaptureClock sampleRate = \<lparr>cc_rate = sampleRate, cc_marks = []\<rparr>"

definition cc_setSampleRate :: "int \<Rightarrow> CaptureClock \<Rightarrow> CaptureClock" where
  "cc_setSampleRate rate c = \<lparr>cc_rate = rate, cc_marks = (if rate \<noteq> cc_rate c then [] else cc_marks c)\<rparr>"

definition cc_reset :: "CaptureClock \<Rightarrow> CaptureClock" where
  "cc_reset c = c\<lparr>cc_marks := []\<rparr>"

fun forget_marks :: "int \<Rightarrow> int \<Rightarrow> Mark list \<Rightarrow> Mark list" where
  "forget_marks keep firstSample [] = []"
| "forget_marks keep firstSample (m # ms) =
     (if ms \<noteq> [] \<and> keep < firstSample - mk_sample m then forget_marks keep firstSample ms else m # ms)"

definition cc_observe :: "int \<Rightarrow> real \<Rightarrow> CaptureClock \<Rightarrow> CaptureClock" where
  "cc_observe firstSample captureSec c =
     (let old = (if cc_marks c \<noteq> [] \<and> firstSample \<le> mk_sample (last (cc_marks c)) then [] else cc_marks c);
          marks = old @ [\<lparr>mk_sample = firstSample, mk_sec = captureSec\<rparr>]
      in if cc_rate c \<le> 0 then c\<lparr>cc_marks := marks\<rparr>
         else c\<lparr>cc_marks := forget_marks (trunc (kCaptureHistorySec * of_int (cc_rate c))) firstSample marks\<rparr>)"

text \<open>The mark nearest a sample: the first that is not before it, or the one before that.\<close>

definition nearest_mark :: "real \<Rightarrow> Mark list \<Rightarrow> Mark" where
  "nearest_mark sample ms =
     (let i = length (takeWhile (\<lambda>m. of_int (mk_sample m) < sample) ms)
      in if i = 0 then ms ! 0
         else if i = length ms then ms ! (i - 1)
         else if sample - of_int (mk_sample (ms ! (i - 1))) \<le> of_int (mk_sample (ms ! i)) - sample
         then ms ! (i - 1) else ms ! i)"

definition cc_hostTimeAt :: "real \<Rightarrow> CaptureClock \<Rightarrow> real option" where
  "cc_hostTimeAt sample c =
     (if cc_marks c = [] \<or> cc_rate c \<le> 0 then None
      else let best = nearest_mark sample (cc_marks c);
               dist = (sample - of_int (mk_sample best)) / of_int (cc_rate c)
           in if kMaxExtrapolateSec < \<bar>dist\<bar> then None else Some (mk_sec best + dist))"

definition cc_marksCount :: "CaptureClock \<Rightarrow> nat" where
  "cc_marksCount c = length (cc_marks c)"

definition cc_spanSec :: "CaptureClock \<Rightarrow> real" where
  "cc_spanSec c =
     (if length (cc_marks c) < 2 \<or> cc_rate c \<le> 0 then 0
      else of_int (mk_sample (last (cc_marks c)) - mk_sample (hd (cc_marks c))) / of_int (cc_rate c))"

section \<open>The slew guard\<close>

definition kShortSec :: real where "kShortSec = 16"
definition kSlewHistorySec :: real where "kSlewHistorySec = 900"
definition kMaxDeviationPpm :: real where "kMaxDeviationPpm = 20"
definition kExposureSec :: real where "kExposureSec = 13"
definition kCrystalAllowancePpm :: real where "kCrystalAllowancePpm = 50"

record Reading =
  rd_daemonSec :: real
  rd_dmr :: real

record HostSlewGuard =
  sg_hist :: "Reading list"
  sg_deviationPpm :: "real option"
  sg_calmSince :: real

definition mk_HostSlewGuard :: HostSlewGuard where
  "mk_HostSlewGuard = \<lparr>sg_hist = [], sg_deviationPpm = None, sg_calmSince = -1\<rparr>"

definition sg_reset :: "HostSlewGuard \<Rightarrow> HostSlewGuard" where
  "sg_reset g = g\<lparr>sg_hist := [], sg_deviationPpm := None, sg_calmSince := -1\<rparr>"

fun forget_readings :: "real \<Rightarrow> Reading list \<Rightarrow> Reading list" where
  "forget_readings now [] = []"
| "forget_readings now (r # rs) =
     (if 2 < length (r # rs) \<and> kSlewHistorySec < now - rd_daemonSec r then forget_readings now rs else r # rs)"

definition slopeBetween :: "Reading \<Rightarrow> Reading \<Rightarrow> real" where
  "slopeBetween a b = (rd_dmr b - rd_dmr a) / (rd_daemonSec b - rd_daemonSec a)"

text \<open>The slopes between readings \<^verbatim>\<open>kShortSec\<close> apart, one after another through the history.\<close>

function slopes :: "Reading list \<Rightarrow> real list" where
  "slopes [] = []"
| "slopes (a # rs) =
     (case dropWhile (\<lambda>b. rd_daemonSec b - rd_daemonSec a < kShortSec) rs of
        [] \<Rightarrow> [] | b # bs \<Rightarrow> slopeBetween a b # slopes (b # bs))"
  by pat_completeness auto

termination
proof (relation "measure length")
  fix a b :: Reading and rs bs :: "Reading list"
  assume "dropWhile (\<lambda>b. rd_daemonSec b - rd_daemonSec a < kShortSec) rs = b # bs"
  then have "length (b # bs) \<le> length rs" by (metis length_dropWhile_le)
  then show "(b # bs, a # rs) \<in> measure length" by simp
qed simp

definition deviation :: "real \<Rightarrow> real list \<Rightarrow> real" where
  "deviation shortRate sl =
     (if 5 \<le> length sl then \<bar>shortRate - sort sl ! (length sl div 2)\<bar> * 10 ^ 6
      else max 0 (\<bar>shortRate\<bar> * 10 ^ 6 - kCrystalAllowancePpm))"

definition sg_sample :: "real \<Rightarrow> real \<Rightarrow> HostSlewGuard \<Rightarrow> HostSlewGuard" where
  "sg_sample daemonSec dmr g =
     (if sg_hist g \<noteq> [] \<and> daemonSec - rd_daemonSec (last (sg_hist g)) < 1 then g
      else
        let now = \<lparr>rd_daemonSec = daemonSec, rd_dmr = dmr\<rparr>;
            hist = forget_readings daemonSec (sg_hist g @ [now]);
            g = g\<lparr>sg_hist := hist\<rparr>
        in case find (\<lambda>r. daemonSec - rd_daemonSec r \<le> kShortSec) hist of
             None \<Rightarrow> g\<lparr>sg_deviationPpm := None, sg_calmSince := -1\<rparr>
           | Some from \<Rightarrow>
               if rd_daemonSec now - rd_daemonSec from < 1 / 2 * kShortSec
               then g\<lparr>sg_deviationPpm := None, sg_calmSince := -1\<rparr>
               else let d = deviation (slopeBetween from now) (slopes hist)
                    in g\<lparr>sg_deviationPpm := Some d,
                         sg_calmSince := (if kMaxDeviationPpm < d then -1
                                          else if sg_calmSince g < 0 then daemonSec else sg_calmSince g)\<rparr>)"

datatype SteadyWhy = SteadyYes | MeasuringRate | BeingSlewed real | OnlyJustSteady

definition steady :: "real \<Rightarrow> HostSlewGuard \<Rightarrow> bool \<times> SteadyWhy" where
  "steady daemonSec g =
     (case sg_deviationPpm g of
        None \<Rightarrow> (False, MeasuringRate)
      | Some d \<Rightarrow>
          if sg_calmSince g < 0 then (False, BeingSlewed d)
          else if daemonSec - sg_calmSince g < kExposureSec then (False, OnlyJustSteady)
          else (True, SteadyYes))"

end
