(* ===== verification/Sample_Properties.thy ===== *)
theory Sample_Properties
  imports Sample_Clock
begin

text \<open>
  What the clocks of \<^verbatim>\<open>SampleClock.cpp\<close> promise: late packets never bias the fit while every bucket
  holds one prompt packet; the capture clock answers from the nearest mark, within reach; the
  guard says steady only after the host clock has been calm in every reading of the exposure time.
\<close>

section \<open>Late packets\<close>

text \<open>Arrivals are pairs of the last sample of a block and the time it landed.\<close>

type_synonym arrival = "int \<times> real"

definition observe_all :: "arrival list \<Rightarrow> SampleClock \<Rightarrow> SampleClock" where
  "observe_all xs c = fold (\<lambda>(n, t). observe n t) xs c"

definition residual_of_arrival :: "int \<Rightarrow> arrival \<Rightarrow> real" where
  "residual_of_arrival rate a = snd a - of_int (fst a) / of_int rate"

text \<open>
  The buckets a run of arrivals is cut into: one opens with the first arrival after the last
  closed, and closes with the first that is a bucket's length later.
\<close>

function buckets :: "real \<Rightarrow> arrival list \<Rightarrow> arrival list list" where
  "buckets b [] = []"
| "buckets b (a # xs) =
     (case dropWhile (\<lambda>x. snd x - snd a < b) xs of
        [] \<Rightarrow> []
      | z # zs \<Rightarrow> (a # takeWhile (\<lambda>x. snd x - snd a < b) xs @ [z]) # buckets b zs)"
  by pat_completeness auto

termination
proof (relation "measure (length \<circ> snd)")
  fix b :: real and a :: arrival and xs :: "arrival list" and z :: arrival and zs :: "arrival list"
  assume "dropWhile (\<lambda>x. snd x - snd a < b) xs = z # zs"
  then have "length (z # zs) \<le> length xs" by (metis length_dropWhile_le)
  then show "((b, zs), (b, a # xs)) \<in> measure (length \<circ> snd)" by simp
qed simp

text \<open>The equations by whether the first bucket closes.\<close>

lemma buckets_open: "dropWhile (\<lambda>x. snd x - snd a < b) xs = [] \<Longrightarrow> buckets b (a # xs) = []"
  and buckets_close: "dropWhile (\<lambda>x. snd x - snd a < b) xs = z # zs \<Longrightarrow>
    buckets b (a # xs) = (a # takeWhile (\<lambda>x. snd x - snd a < b) xs @ [z]) # buckets b zs"
  by (simp_all del: dropWhile_eq_Nil_conv)

lemmas [simp del] = buckets.simps(2)

lemma buckets_subset: "bk \<in> set (buckets b xs) \<Longrightarrow> set bk \<subseteq> set xs"
proof (induction b xs rule: buckets.induct)
  case (2 b a xs)
  show ?case
  proof (cases "dropWhile (\<lambda>x. snd x - snd a < b) xs")
    case (Cons z zs)
    have "set (z # zs) \<subseteq> set xs" unfolding Cons[symmetric] by (rule dropWhile_subset)
    with 2 Cons show ?thesis by (auto simp: buckets_close dest: set_takeWhileD)
  qed (use 2 in \<open>simp add: buckets_open del: dropWhile_eq_Nil_conv\<close>)
qed simp

definition point_of :: "int \<Rightarrow> arrival \<Rightarrow> EnvPoint" where
  "point_of rate a = \<lparr>ep_sample = fst a, ep_hostSec = snd a, ep_residual = residual_of_arrival rate a\<rparr>"

text \<open>The point of an arrival none of the bucket's is faster than.\<close>

definition fastest :: "int \<Rightarrow> arrival list \<Rightarrow> EnvPoint \<Rightarrow> bool" where
  "fastest rate bk p \<longleftrightarrow> (\<exists>x \<in> set bk. p = point_of rate x \<and> (\<forall>y \<in> set bk. residual_of_arrival rate x \<le> residual_of_arrival rate y))"

lemma fastest_one: "fastest rate [a] (point_of rate a)"
  by (simp add: fastest_def)

lemma fastest_snoc:
  assumes "fastest rate bk p"
  shows "fastest rate (bk @ [a]) (if residual_of_arrival rate a < ep_residual p then point_of rate a else p)"
proof -
  obtain x where x: "x \<in> set bk" "p = point_of rate x" "\<forall>y \<in> set bk. residual_of_arrival rate x \<le> residual_of_arrival rate y"
    using assms by (auto simp: fastest_def)
  show ?thesis
  proof (cases "residual_of_arrival rate a < ep_residual p")
    case True
    with x show ?thesis by (force simp: fastest_def point_of_def)
  next
    case False
    then have "\<forall>y \<in> set (bk @ [a]). residual_of_arrival rate x \<le> residual_of_arrival rate y"
      using x by (auto simp: point_of_def)
    with x False show ?thesis by (auto simp: fastest_def)
  qed
qed

lemma age_off_subset: "set (age_off w env) \<subseteq> set env"
  by (induction w env rule: age_off.induct) auto

lemma age_off_length: "min 2 (length env) \<le> length (age_off w env)"
proof (induction w env rule: age_off.induct)
  case (2 w p env)
  then show ?case by (cases "2 < length (p # env)") auto
qed simp

text \<open>One arrival, by the state of the bucket.\<close>

lemma observe_first:
  assumes "\<not> sc_haveBucket c"
  shows "sc_haveBucket (observe n t c)" "sc_bucketStartSec (observe n t c) = t" "sc_envelope (observe n t c) = sc_envelope c"
    "sc_bucketBest (observe n t c) = point_of (sc_rate c) (n, t)"
  using assms by (auto simp: observe_def Let_def point_of_def residual_of_arrival_def)

lemma observe_config [simp]:
  "sc_rate (observe n t c) = sc_rate c" "sc_bucketSec (observe n t c) = sc_bucketSec c" "sc_windowSec (observe n t c) = sc_windowSec c"
  by (auto simp: observe_def Let_def)

lemma observe_more:
  assumes "sc_haveBucket c" "t - sc_bucketStartSec c < sc_bucketSec c"
  shows "sc_haveBucket (observe n t c)" "sc_bucketStartSec (observe n t c) = sc_bucketStartSec c" "sc_envelope (observe n t c) = sc_envelope c"
    "sc_bucketBest (observe n t c) = (if residual_of_arrival (sc_rate c) (n, t) < ep_residual (sc_bucketBest c)
       then point_of (sc_rate c) (n, t) else sc_bucketBest c)"
  using assms by (auto simp: observe_def Let_def point_of_def residual_of_arrival_def)

lemma observe_last:
  assumes "sc_haveBucket c" "\<not> t - sc_bucketStartSec c < sc_bucketSec c"
  shows "\<not> sc_haveBucket (observe n t c)"
    "sc_envelope (observe n t c) = age_off (sc_windowSec c) (sc_envelope c @
       [if residual_of_arrival (sc_rate c) (n, t) < ep_residual (sc_bucketBest c) then point_of (sc_rate c) (n, t) else sc_bucketBest c])"
  using assms by (auto simp: observe_def Let_def point_of_def residual_of_arrival_def)

text \<open>Every fit is the one through the envelope.\<close>

lemma observe_fit: "sc_fit c = refit (sc_rate c) (sc_envelope c) \<Longrightarrow> sc_fit (observe n t c) = refit (sc_rate c) (sc_envelope (observe n t c))"
  by (auto simp: observe_def Let_def)

text \<open>A bucket that has not closed.\<close>

lemma open_bucket:
  assumes "\<not> sc_haveBucket c" "\<forall>x \<in> set ys. snd x - snd a < sc_bucketSec c"
  defines "c' \<equiv> observe_all (a # ys) c"
  shows "sc_haveBucket c' \<and> sc_bucketStartSec c' = snd a \<and> sc_envelope c' = sc_envelope c \<and> sc_rate c' = sc_rate c
    \<and> sc_bucketSec c' = sc_bucketSec c \<and> sc_windowSec c' = sc_windowSec c \<and> fastest (sc_rate c) (a # ys) (sc_bucketBest c')"
  using assms(2) unfolding c'_def
proof (induction ys rule: rev_induct)
  case Nil
  show ?case using observe_first[OF assms(1)] fastest_one[of "sc_rate c" a] by (cases a) (simp add: observe_all_def)
next
  case (snoc y ys)
  define d where "d = observe_all (a # ys) c"
  have d: "sc_haveBucket d" "sc_bucketStartSec d = snd a" "sc_envelope d = sc_envelope c" "sc_rate d = sc_rate c"
    "sc_bucketSec d = sc_bucketSec c" "sc_windowSec d = sc_windowSec c" "fastest (sc_rate c) (a # ys) (sc_bucketBest d)"
    using snoc by (auto simp: d_def)
  have e: "observe_all (a # ys @ [y]) c = observe (fst y) (snd y) d" by (simp add: observe_all_def d_def case_prod_beta)
  have "snd y - sc_bucketStartSec d < sc_bucketSec d" using snoc.prems d by simp
  note o = observe_more[OF d(1) this, of "fst y"]
  have best: "sc_bucketBest (observe (fst y) (snd y) d) = (if residual_of_arrival (sc_rate c) y < ep_residual (sc_bucketBest d)
      then point_of (sc_rate c) y else sc_bucketBest d)" using o(4) d(4) by simp
  have "fastest (sc_rate c) (a # ys @ [y]) (sc_bucketBest (observe (fst y) (snd y) d))"
    unfolding best using fastest_snoc[OF d(7), of y] by (simp only: append_Cons)
  then show ?case using d o(1-3) by (simp add: e)
qed

lemma closed_bucket:
  assumes "\<not> sc_haveBucket c" "\<forall>x \<in> set ys. snd x - snd a < sc_bucketSec c" "\<not> snd z - snd a < sc_bucketSec c"
  defines "c' \<equiv> observe_all (a # ys @ [z]) c"
  obtains p where "fastest (sc_rate c) (a # ys @ [z]) p" "sc_envelope c' = age_off (sc_windowSec c) (sc_envelope c @ [p])"
    "\<not> sc_haveBucket c'" "sc_rate c' = sc_rate c" "sc_bucketSec c' = sc_bucketSec c"
proof -
  define d where "d = observe_all (a # ys) c"
  note d = open_bucket[OF assms(1,2), folded d_def]
  have e: "c' = observe (fst z) (snd z) d" by (simp add: c'_def observe_all_def d_def case_prod_beta)
  have "\<not> snd z - sc_bucketStartSec d < sc_bucketSec d" using assms(3) d by simp
  with d have o: "\<not> sc_haveBucket c'" "sc_envelope c' = age_off (sc_windowSec d) (sc_envelope d @
       [if residual_of_arrival (sc_rate d) z < ep_residual (sc_bucketBest d) then point_of (sc_rate d) z else sc_bucketBest d])"
    using observe_last[of d "snd z" "fst z"] by (simp_all add: e)
  have "fastest (sc_rate c) (a # ys @ [z]) (if residual_of_arrival (sc_rate c) z < ep_residual (sc_bucketBest d)
      then point_of (sc_rate c) z else sc_bucketBest d)"
    using fastest_snoc[of "sc_rate c" "a # ys" "sc_bucketBest d" z] d by (simp only: append_Cons)
  from that[OF this] show thesis using d o by (simp add: e)
qed

text \<open>Over a whole run: what holds of the fastest arrival of every bucket holds of the envelope.\<close>

lemma envelope_points:
  assumes "\<not> sc_haveBucket c" "\<forall>p \<in> set (sc_envelope c). P p"
    "\<And>bk p. bk \<in> set (buckets (sc_bucketSec c) xs) \<Longrightarrow> fastest (sc_rate c) bk p \<Longrightarrow> P p"
  shows "(\<forall>p \<in> set (sc_envelope (observe_all xs c)). P p)
    \<and> min 2 (length (sc_envelope c) + length (buckets (sc_bucketSec c) xs)) \<le> length (sc_envelope (observe_all xs c))
    \<and> sc_rate (observe_all xs c) = sc_rate c"
  using assms
proof (induction "sc_bucketSec c" xs arbitrary: c rule: buckets.induct)
  case (1 c)
  then show ?case by (simp add: observe_all_def)
next
  case (2 a xs c)
  let ?P = "\<lambda>x. snd x - snd a < sc_bucketSec c"
  show ?case
  proof (cases "dropWhile ?P xs")
    case Nil
    then have "\<forall>x \<in> set xs. ?P x" by (simp add: dropWhile_eq_Nil_conv)
    moreover have "buckets (sc_bucketSec c) (a # xs) = []" using Nil by (rule buckets_open)
    ultimately show ?thesis using open_bucket[OF 2(2), of xs a] 2(3) by simp
  next
    case (Cons z zs)
    let ?ys = "takeWhile ?P xs"
    have xs: "a # xs = (a # ?ys @ [z]) @ zs" using takeWhile_dropWhile_id[of ?P xs] Cons by simp
    have "\<not> ?P z" using hd_dropWhile[of ?P xs] Cons by simp
    moreover have "\<forall>x \<in> set ?ys. ?P x" by (meson set_takeWhileD)
    ultimately obtain p where p: "fastest (sc_rate c) (a # ?ys @ [z]) p"
      and c': "sc_envelope (observe_all (a # ?ys @ [z]) c) = age_off (sc_windowSec c) (sc_envelope c @ [p])"
        "\<not> sc_haveBucket (observe_all (a # ?ys @ [z]) c)" "sc_rate (observe_all (a # ?ys @ [z]) c) = sc_rate c"
        "sc_bucketSec (observe_all (a # ?ys @ [z]) c) = sc_bucketSec c"
      using closed_bucket[OF 2(2)] by metis
    let ?c = "observe_all (a # ?ys @ [z]) c"
    have b: "buckets (sc_bucketSec c) (a # xs) = (a # ?ys @ [z]) # buckets (sc_bucketSec c) zs" using Cons by (rule buckets_close)
    have "P p" using 2(4)[OF _ p] by (simp only: b list.set_intros)
    then have env: "\<forall>p \<in> set (sc_envelope ?c). P p" using 2(3) age_off_subset[of "sc_windowSec c" "sc_envelope c @ [p]"] c'(1) by auto
    have run: "observe_all (a # xs) c = observe_all zs ?c" by (simp only: xs observe_all_def fold_append comp_apply)
    have "(\<forall>p \<in> set (sc_envelope (observe_all zs ?c)). P p)
      \<and> min 2 (length (sc_envelope ?c) + length (buckets (sc_bucketSec ?c) zs)) \<le> length (sc_envelope (observe_all zs ?c))
      \<and> sc_rate (observe_all zs ?c) = sc_rate ?c"
    proof (rule 2(1)[OF Cons c'(4)[symmetric] c'(2) env])
      show "P p" if "bk \<in> set (buckets (sc_bucketSec ?c) zs)" "fastest (sc_rate ?c) bk p" for bk p
        using 2(4)[of bk p] that unfolding c'(3,4) b by simp
    qed
    with age_off_length[of "sc_envelope c @ [p]" "sc_windowSec c"] show ?thesis
      by (simp only: run c' b) auto
  qed
qed

text \<open>A fit through points on the nominal line is that line.\<close>

lemma refit_on_line:
  assumes "0 < rate" "2 \<le> length env" "\<forall>p \<in> set env. ep_hostSec p = A + of_int (ep_sample p) / of_int rate"
  shows "cf_valid (refit rate env) \<and> cf_secPerSample (refit rate env) = 1 / of_int rate \<and> cf_anchorSec (refit rate env) = A
    \<and> cf_residualRms (refit rate env) = 0"
proof -
  define n where "n = real (length env)"
  define s where "s = sum_list (map (\<lambda>p. real_of_int (ep_sample p)) env)"
  define mx where "mx = s / n"
  define my where "my = sum_list (map ep_hostSec env) / n"
  define sxx where "sxx = sum_list (map (\<lambda>p. (real_of_int (ep_sample p) - mx) * (real_of_int (ep_sample p) - mx)) env)"
  define sxy where "sxy = sum_list (map (\<lambda>p. (real_of_int (ep_sample p) - mx) * (ep_hostSec p - my)) env)"
  have n: "0 < n" using assms(2) by (cases env) (simp_all add: n_def)
  have host: "map ep_hostSec env = map (\<lambda>p. A + of_int (ep_sample p) / of_int rate) env" using assms(3) by simp
  have "sum_list (map (\<lambda>p. A + real_of_int (ep_sample p) / of_int rate) env) = n * A + s / of_int rate"
    by (simp add: sum_list_addf sum_list_triv n_def s_def sum_list_const_mult divide_inverse sum_list_mult_const)
  then have my: "my = A + mx / of_int rate" using n by (simp add: my_def mx_def host field_simps)
  have "sxy = sum_list (map (\<lambda>p. (real_of_int (ep_sample p) - mx) * (real_of_int (ep_sample p) - mx) * (1 / of_int rate)) env)"
    unfolding sxy_def using assms(3) by (intro arg_cong[where f = sum_list] map_cong) (use assms(1) in \<open>auto simp: my diff_divide_distrib algebra_simps\<close>)
  then have sxy: "sxy = sxx * (1 / of_int rate)" by (simp only: sxx_def sum_list_mult_const)
  have fitted: "(if sxx \<le> 0 then 1 / real_of_int rate else sxy / sxx) = 1 / of_int rate" by (simp add: sxy)
  have ppm: "1 / real_of_int rate * (1 - kMaxPlausiblePpm * (1 / 10 ^ 6)) < 1 / of_int rate"
    "1 / real_of_int rate < 1 / of_int rate * (1 + kMaxPlausiblePpm * (1 / 10 ^ 6))"
    using assms(1) by (simp_all add: kMaxPlausiblePpm_def field_simps)
  have anchor: "my - 1 / of_int rate * mx = A" by (simp add: my)
  have "sum_list (map (\<lambda>p. (ep_hostSec p - (A + 1 / of_int rate * of_int (ep_sample p))) * (ep_hostSec p - (A + 1 / of_int rate * of_int (ep_sample p)))) env)
    = sum_list (map (\<lambda>p. 0::real) env)"
    using assms(3) by (intro arg_cong[where f = sum_list] map_cong) auto
  then have ss: "sum_list (map (\<lambda>p. (ep_hostSec p - (A + 1 / of_int rate * of_int (ep_sample p))) * (ep_hostSec p - (A + 1 / of_int rate * of_int (ep_sample p)))) env) = 0"
    by simp
  have "\<not> length env < 2" using assms(2) by simp
  then show ?thesis unfolding refit_def Let_def n_def[symmetric] s_def[symmetric] mx_def[symmetric] my_def[symmetric]
      sxx_def[symmetric] sxy_def[symmetric] fitted
    using ppm anchor ss by simp
qed

lemma observe_all_fit:
  "sc_fit c = refit (sc_rate c) (sc_envelope c) \<Longrightarrow> sc_fit (observe_all xs c) = refit (sc_rate (observe_all xs c)) (sc_envelope (observe_all xs c))"
proof (induction xs arbitrary: c)
  case (Cons x xs)
  then show ?case using observe_fit[of c "fst x" "snd x"] by (simp add: observe_all_def case_prod_beta)
qed (simp add: observe_all_def)

lemma new_clock: "sc_fit (mk_SampleClock r b w) = refit (sc_rate (mk_SampleClock r b w)) (sc_envelope (mk_SampleClock r b w))"
  by (simp add: mk_SampleClock_def refit_def)



section \<open>The nearest mark\<close>

definition cc_ok :: "CaptureClock \<Rightarrow> bool" where
  "cc_ok c \<longleftrightarrow> sorted_wrt (<) (map mk_sample (cc_marks c))"

datatype cc_op = CcObserve int real | CcReset | CcRate int

fun cc_step :: "cc_op \<Rightarrow> CaptureClock \<Rightarrow> CaptureClock" where
  "cc_step (CcObserve n t) c = cc_observe n t c"
| "cc_step CcReset c = cc_reset c"
| "cc_step (CcRate r) c = cc_setSampleRate r c"

lemma forget_marks_suffix: "\<exists>pre. ms = pre @ forget_marks k n ms"
proof (induction k n ms rule: forget_marks.induct)
  case (2 k n m ms)
  show ?case
  proof (cases "ms \<noteq> [] \<and> k < n - mk_sample m")
    case True
    then obtain pre where "ms = pre @ forget_marks k n ms" using 2 by blast
    then have "m # ms = (m # pre) @ forget_marks k n ms" by simp
    with True show ?thesis by (metis forget_marks.simps(2))
  qed auto
qed simp

lemma sorted_suffix: "sorted_wrt (<) (map f (pre @ ms)) \<Longrightarrow> sorted_wrt (<) (map f (ms :: 'a list) :: int list)"
  by (simp add: sorted_wrt_append)

lemma sorted_snoc:
  assumes "sorted_wrt (<) (map mk_sample ms)" "ms = [] \<or> mk_sample (last ms) < n"
  shows "sorted_wrt (<) (map mk_sample (ms @ [\<lparr>mk_sample = n, mk_sec = t\<rparr>]))"
proof -
  have "mk_sample m < n" if "m \<in> set ms" for m
  proof -
    obtain i where i: "i < length ms" "m = ms ! i" using \<open>m \<in> set ms\<close> by (auto simp: in_set_conv_nth)
    have "mk_sample m \<le> mk_sample (last ms)"
    proof (cases "i = length ms - 1")
      case True
      with i show ?thesis by (cases "ms = []") (simp_all add: last_conv_nth)
    next
      case False
      with i have "i < length ms - 1" by simp
      then have "map mk_sample ms ! i < map mk_sample ms ! (length ms - 1)"
        using assms(1) i by (intro sorted_wrt_nth_less[of "(<)"]) auto
      with i show ?thesis by (cases "ms = []") (simp_all add: last_conv_nth)
    qed
    with assms(2) that show ?thesis by auto
  qed
  with assms(1) show ?thesis by (auto simp: sorted_wrt_append)
qed

lemma cc_step_ok:
  assumes "cc_ok c"
  shows "cc_ok (cc_step e c)"
proof (cases e)
  case (CcObserve n t)
  let ?old = "if cc_marks c \<noteq> [] \<and> n \<le> mk_sample (last (cc_marks c)) then [] else cc_marks c"
  have s: "sorted_wrt (<) (map mk_sample (?old @ [\<lparr>mk_sample = n, mk_sec = t\<rparr>]))"
    using assms by (intro sorted_snoc) (auto simp: cc_ok_def)
  have "sorted_wrt (<) (map mk_sample (forget_marks k n (?old @ [\<lparr>mk_sample = n, mk_sec = t\<rparr>])))" for k
    using s forget_marks_suffix[of "?old @ [\<lparr>mk_sample = n, mk_sec = t\<rparr>]" k n] sorted_suffix by metis
  with s show ?thesis by (simp add: CcObserve cc_observe_def cc_ok_def Let_def)
qed (use assms in \<open>auto simp: cc_ok_def cc_reset_def cc_setSampleRate_def\<close>)

lemma cc_run_ok: "cc_ok (fold cc_step es (mk_CaptureClock r))"
proof -
  have "cc_ok c \<Longrightarrow> cc_ok (fold cc_step es c)" for c by (induction es arbitrary: c) (auto simp: cc_step_ok)
  moreover have "cc_ok (mk_CaptureClock r)" by (simp add: cc_ok_def mk_CaptureClock_def)
  ultimately show ?thesis by blast
qed

text \<open>The cut a search for the first mark not before the sample makes.\<close>

lemma mark_cut:
  fixes s :: real
  assumes "sorted_wrt (<) (map mk_sample ms)" "j < length ms"
  defines "i \<equiv> length (takeWhile (\<lambda>m. of_int (mk_sample m) < s) ms)"
  shows "of_int (mk_sample (ms ! j)) < s \<longleftrightarrow> j < i"
proof
  assume "j < i"
  then show "of_int (mk_sample (ms ! j)) < s" unfolding i_def by (metis nth_mem set_takeWhileD takeWhile_nth)
next
  assume a: "of_int (mk_sample (ms ! j)) < s"
  show "j < i"
  proof (rule ccontr)
    assume "\<not> j < i"
    then have i: "i < length ms" "i \<le> j" using assms(2) by simp_all
    have "\<not> of_int (mk_sample (ms ! i)) < s" using nth_length_takeWhile[OF i(1)[unfolded i_def]] by (simp add: i_def)
    moreover have "mk_sample (ms ! i) \<le> mk_sample (ms ! j)"
      using i assms(1,2) sorted_wrt_nth_less[of "(<)" "map mk_sample ms" i j] by (cases "i = j") auto
    ultimately show False using a by linarith
  qed
qed

lemma mark_order:
  assumes "sorted_wrt (<) (map mk_sample ms)" "j \<le> k" "k < length ms"
  shows "mk_sample (ms ! j) \<le> mk_sample (ms ! k)"
  using sorted_wrt_nth_less[of "(<)" "map mk_sample ms" j k] assms by (cases "j = k") auto

lemma nearest_mark_nearest:
  fixes s :: real
  assumes so: "sorted_wrt (<) (map mk_sample ms)" and ne: "ms \<noteq> []"
  shows "nearest_mark s ms \<in> set ms \<and> (\<forall>m \<in> set ms. \<bar>s - of_int (mk_sample (nearest_mark s ms))\<bar> \<le> \<bar>s - of_int (mk_sample m)\<bar>)"
proof -
  define i where "i = length (takeWhile (\<lambda>m. of_int (mk_sample m) < s) ms)"
  have il: "i \<le> length ms" unfolding i_def by (rule length_takeWhile_le)
  have cut: "of_int (mk_sample (ms ! j)) < s \<longleftrightarrow> j < i" if "j < length ms" for j using mark_cut[OF so that] by (simp add: i_def)
  have below: "\<bar>s - of_int (mk_sample (ms ! (i - 1)))\<bar> \<le> \<bar>s - of_int (mk_sample (ms ! j))\<bar>" if "j < i" for j
    using cut[of j] cut[of "i - 1"] mark_order[OF so, of j "i - 1"] that il by force
  have above: "\<bar>s - of_int (mk_sample (ms ! i))\<bar> \<le> \<bar>s - of_int (mk_sample (ms ! j))\<bar>" if "i \<le> j" "j < length ms" for j
    using cut[of j] cut[of i] mark_order[OF so, of i j] that by force
  define b where "b = (if i = 0 then 0 else if i = length ms then i - 1
      else if s - of_int (mk_sample (ms ! (i - 1))) \<le> of_int (mk_sample (ms ! i)) - s then i - 1 else i)"
  have nm: "nearest_mark s ms = ms ! b" by (auto simp: nearest_mark_def Let_def i_def[symmetric] b_def)
  have bl: "b < length ms" using ne il by (auto simp: b_def)
  have "\<bar>s - of_int (mk_sample (ms ! b))\<bar> \<le> \<bar>s - of_int (mk_sample (ms ! j))\<bar>" if j: "j < length ms" for j
  proof (cases "0 < i \<and> i < length ms")
    case False
    then show ?thesis using below[of j] above[of j] j il by (auto simp: b_def)
  next
    case True
    then have "of_int (mk_sample (ms ! (i - 1))) < s" "s \<le> of_int (mk_sample (ms ! i))" using cut[of "i - 1"] cut[of i] by auto
    with True have "\<bar>s - of_int (mk_sample (ms ! b))\<bar> \<le> \<bar>s - of_int (mk_sample (ms ! (i - 1)))\<bar>"
      "\<bar>s - of_int (mk_sample (ms ! b))\<bar> \<le> \<bar>s - of_int (mk_sample (ms ! i))\<bar>" by (auto simp: b_def)
    then show ?thesis using below[of j] above[of j] j by (cases "j < i") auto
  qed
  with bl show ?thesis unfolding nm by (auto simp: in_set_conv_nth)
qed

text \<open>
  The capture clock answers from the nearest mark. After any sequence of captures, resets and
  rate changes, a sample is given a time exactly when some mark is within two seconds of it, and
  then the time is that of a mark none is nearer than, moved on at the nominal rate; so if every
  stamp was within \<open>E\<close> of the truth, the answer is.
\<close>

theorem capture_nearest:
  assumes "c = fold cc_step es (mk_CaptureClock r)" "0 < cc_rate c"
    "\<forall>m \<in> set (cc_marks c). \<bar>mk_sec m - (A + of_int (mk_sample m) / of_int (cc_rate c))\<bar> \<le> E"
  shows "case cc_hostTimeAt s c of
      Some h \<Rightarrow> \<bar>h - (A + s / of_int (cc_rate c))\<bar> \<le> E \<and>
        (\<exists>m \<in> set (cc_marks c). h = mk_sec m + (s - of_int (mk_sample m)) / of_int (cc_rate c)
           \<and> list_all (\<lambda>m'. \<bar>s - of_int (mk_sample m)\<bar> \<le> \<bar>s - of_int (mk_sample m')\<bar>) (cc_marks c))
    | None \<Rightarrow> list_all (\<lambda>m. 2 * of_int (cc_rate c) < \<bar>s - of_int (mk_sample m)\<bar>) (cc_marks c)"
proof (cases "cc_marks c = []")
  case False
  let ?r = "real_of_int (cc_rate c)" and ?b = "nearest_mark s (cc_marks c)"
  have r: "0 < ?r" using assms(2) by simp
  have "sorted_wrt (<) (map mk_sample (cc_marks c))" using cc_run_ok[of es r] by (simp add: assms(1) cc_ok_def)
  note near = nearest_mark_nearest[OF this False, of s]
  have ab: "\<bar>(s - of_int (mk_sample ?b)) / ?r\<bar> = \<bar>s - of_int (mk_sample ?b)\<bar> / ?r" using r by simp
  show ?thesis
  proof (cases "kMaxExtrapolateSec < \<bar>(s - of_int (mk_sample ?b)) / ?r\<bar>")
    case True
    then have "2 * ?r < \<bar>s - of_int (mk_sample ?b)\<bar>" using r unfolding ab kMaxExtrapolateSec_def by (simp add: pos_less_divide_eq)
    then have "list_all (\<lambda>m. 2 * ?r < \<bar>s - of_int (mk_sample m)\<bar>) (cc_marks c)" using near by (force simp: list_all_iff)
    with True False assms(2) show ?thesis by (simp add: cc_hostTimeAt_def Let_def)
  next
    case within: False
    have "\<bar>mk_sec ?b - (A + of_int (mk_sample ?b) / ?r)\<bar> \<le> E" using assms(3) near by blast
    moreover have "mk_sec ?b + (s - of_int (mk_sample ?b)) / ?r - (A + s / ?r) = mk_sec ?b - (A + of_int (mk_sample ?b) / ?r)"
      by (simp add: diff_divide_distrib)
    ultimately have "\<bar>mk_sec ?b + (s - of_int (mk_sample ?b)) / ?r - (A + s / ?r)\<bar> \<le> E" by simp
    with near within False assms(2) show ?thesis by (auto simp: cc_hostTimeAt_def Let_def list_all_iff)
  qed
qed (use assms(2) in \<open>simp add: cc_hostTimeAt_def\<close>)

theorem capture_nearest_witness:
  "case cc_hostTimeAt 12600 (fold cc_step [CcObserve 0 5, CcObserve 12000 6, CcObserve 24000 7] (mk_CaptureClock 12000)) of
      Some h \<Rightarrow> \<bar>h - (5 + 12600 / of_int 12000)\<bar> \<le> 0 \<and>
        (\<exists>m \<in> set (cc_marks (fold cc_step [CcObserve 0 5, CcObserve 12000 6, CcObserve 24000 7] (mk_CaptureClock 12000))).
           h = mk_sec m + (12600 - of_int (mk_sample m)) / of_int 12000
           \<and> list_all (\<lambda>m'. \<bar>12600 - of_int (mk_sample m)\<bar> \<le> \<bar>12600 - (of_int (mk_sample m') :: real)\<bar>)
               (cc_marks (fold cc_step [CcObserve 0 5, CcObserve 12000 6, CcObserve 24000 7] (mk_CaptureClock 12000))))
    | None \<Rightarrow> False"
proof -
  let ?c = "fold cc_step [CcObserve 0 5, CcObserve 12000 6, CcObserve 24000 7] (mk_CaptureClock 12000)"
  have tr: "trunc 10800000 = 10800000" by (simp add: trunc_nonneg)
  have c: "cc_rate ?c = 12000" "cc_marks ?c = [\<lparr>mk_sample = 0, mk_sec = 5\<rparr>, \<lparr>mk_sample = 12000, mk_sec = 6\<rparr>, \<lparr>mk_sample = 24000, mk_sec = 7\<rparr>]"
    by (simp_all add: cc_observe_def mk_CaptureClock_def kCaptureHistorySec_def tr Let_def)
  then have "\<forall>m \<in> set (cc_marks ?c). \<bar>mk_sec m - (5 + of_int (mk_sample m) / of_int (cc_rate ?c))\<bar> \<le> 0" by simp
  with capture_nearest[OF refl, of "[CcObserve 0 5, CcObserve 12000 6, CcObserve 24000 7]" 12000 5 0 12600] c
  show ?thesis by (auto split: option.splits)
qed

section \<open>Calm before steady\<close>

text \<open>A run of the guard, with the readings it took and the deviation each led to.\<close>

definition too_soon :: "real \<Rightarrow> HostSlewGuard \<Rightarrow> bool" where
  "too_soon t g \<longleftrightarrow> sg_hist g \<noteq> [] \<and> t - rd_daemonSec (last (sg_hist g)) < 1"

definition sg_take :: "real \<times> real \<Rightarrow> HostSlewGuard \<times> (real \<times> real option) list \<Rightarrow> HostSlewGuard \<times> (real \<times> real option) list" where
  "sg_take r s = (let g = sg_sample (fst r) (snd r) (fst s)
     in (g, if too_soon (fst r) (fst s) then snd s else snd s @ [(fst r, sg_deviationPpm g)]))"

definition sg_run :: "(real \<times> real) list \<Rightarrow> HostSlewGuard \<times> (real \<times> real option) list" where
  "sg_run rs = fold sg_take rs (mk_HostSlewGuard, [])"

definition calm_reading :: "real \<times> real option \<Rightarrow> bool" where
  "calm_reading r = (case snd r of Some d \<Rightarrow> d \<le> kMaxDeviationPpm | None \<Rightarrow> False)"

definition calm_inv :: "HostSlewGuard \<times> (real \<times> real option) list \<Rightarrow> bool" where
  "calm_inv s \<longleftrightarrow>
     (snd s \<noteq> [] \<longrightarrow> sg_hist (fst s) \<noteq> []) \<and> (\<forall>r \<in> set (snd s). fst r \<le> rd_daemonSec (last (sg_hist (fst s)))) \<and>
     (0 \<le> sg_calmSince (fst s) \<longrightarrow> (\<exists>r \<in> set (snd s). fst r = sg_calmSince (fst s)) \<and>
        (\<forall>r \<in> set (snd s). sg_calmSince (fst s) \<le> fst r \<longrightarrow> calm_reading r))"

lemma forget_readings_last: "rs \<noteq> [] \<Longrightarrow> forget_readings t rs \<noteq> [] \<and> last (forget_readings t rs) = last rs"
proof (induction t rs rule: forget_readings.induct)
  case (2 t r rs)
  then show ?case by (cases rs) auto
qed simp

lemma sg_sample_hist:
  assumes "\<not> too_soon t g"
  shows "sg_hist (sg_sample t x g) \<noteq> []" "rd_daemonSec (last (sg_hist (sg_sample t x g))) = t"
  using assms forget_readings_last[of "sg_hist g @ [\<lparr>rd_daemonSec = t, rd_dmr = x\<rparr>]" t]
  by (auto simp: sg_sample_def too_soon_def Let_def split: option.splits)

lemma sg_sample_calm:
  assumes "\<not> too_soon t g" "0 \<le> sg_calmSince (sg_sample t x g)"
  shows "calm_reading (t, sg_deviationPpm (sg_sample t x g))"
    "sg_calmSince (sg_sample t x g) = t \<or> 0 \<le> sg_calmSince g \<and> sg_calmSince (sg_sample t x g) = sg_calmSince g"
  using assms by (auto simp: sg_sample_def too_soon_def Let_def calm_reading_def not_less split: option.splits if_splits)

lemma sg_take_inv:
  assumes "calm_inv s"
  shows "calm_inv (sg_take r s)"
proof (cases "too_soon (fst r) (fst s)")
  case True
  then have "sg_take r s = s" by (simp add: sg_take_def sg_sample_def too_soon_def Let_def)
  with assms show ?thesis by simp
next
  case False
  obtain g tr where s: "s = (g, tr)" by (cases s)
  obtain t x where r: "r = (t, x)" by (cases r)
  let ?g = "sg_sample t x g" and ?new = "(t, sg_deviationPpm (sg_sample t x g))"
  have e: "sg_take r s = (?g, tr @ [?new])" using False by (simp add: sg_take_def s r Let_def)
  have soon: "\<not> too_soon t g" using False by (simp add: s r)
  have old: "fst q < t" if "q \<in> set tr" for q
    using assms that soon by (force simp: calm_inv_def s too_soon_def)
  note h = sg_sample_hist[OF soon, of x]
  show ?thesis
  proof (cases "0 \<le> sg_calmSince ?g")
    case True
    note c = sg_sample_calm[OF soon True]
    have "(\<exists>q \<in> set (tr @ [?new]). fst q = sg_calmSince ?g) \<and> (\<forall>q \<in> set (tr @ [?new]). sg_calmSince ?g \<le> fst q \<longrightarrow> calm_reading q)"
      using c(2)
    proof
      assume "sg_calmSince ?g = t"
      with c(1) old show ?thesis by force
    next
      assume "0 \<le> sg_calmSince g \<and> sg_calmSince ?g = sg_calmSince g"
      with c(1) assms show ?thesis by (auto simp: calm_inv_def s)
    qed
    with h old show ?thesis unfolding e by (auto simp: calm_inv_def less_imp_le)
  qed (use h old in \<open>auto simp: calm_inv_def e less_imp_le\<close>)
qed

lemma sg_run_inv: "calm_inv (sg_run rs)"
proof -
  have "calm_inv s \<Longrightarrow> calm_inv (fold sg_take rs s)" for s by (induction rs arbitrary: s) (auto simp: sg_take_inv)
  moreover have "calm_inv (mk_HostSlewGuard, [])" by (simp add: calm_inv_def mk_HostSlewGuard_def)
  ultimately show ?thesis by (simp add: sg_run_def)
qed

text \<open>
  Steady means calm for the whole exposure. After any sequence of readings, if the guard says
  the host clock is steady, then some reading at least thirteen seconds old was calm and so has
  been every one since: none of them was unmeasured or more than 20 ppm off the usual rate.
\<close>

theorem steady_means_calm:
  assumes "sg_run rs = (g, readings)" "fst (steady now g)"
  shows "\<exists>t0. t0 \<le> now - kExposureSec \<and> list_ex (\<lambda>r. fst r = t0) readings
    \<and> list_all (\<lambda>r. fst r < t0 \<or> calm_reading r) readings"
proof -
  have "0 \<le> sg_calmSince g" "sg_calmSince g \<le> now - kExposureSec"
    using assms(2) by (auto simp: steady_def split: option.splits if_splits)
  moreover have "calm_inv (g, readings)" using sg_run_inv[of rs] assms(1) by simp
  ultimately show ?thesis by (auto simp: calm_inv_def list_ex_iff list_all_iff not_le intro!: exI[of _ "sg_calmSince g"])
qed

theorem steady_means_calm_witness:
  "\<exists>t0. t0 \<le> 24 - kExposureSec \<and> list_ex (\<lambda>r. fst r = t0) (snd (sg_run [(0, 0), (8, 0), (16, 0), (24, 0)]))
    \<and> list_all (\<lambda>r. fst r < t0 \<or> calm_reading r) (snd (sg_run [(0, 0), (8, 0), (16, 0), (24, 0)]))"
proof (rule steady_means_calm)
  show "sg_run [(0, 0), (8, 0), (16, 0), (24, 0)]
      = (fst (sg_run [(0, 0), (8, 0), (16, 0), (24, 0)]), snd (sg_run [(0, 0), (8, 0), (16, 0), (24, 0)]))" by simp
  show "fst (steady 24 (fst (sg_run [(0, 0), (8, 0), (16, 0), (24, 0)])))" by code_simp
qed

end
