(* ===== verification/Propagation.thy ===== *)
theory Propagation
  imports Ntp_Prelude
begin

text \<open>
  Flight times and the doubt in them: \<^verbatim>\<open>src/src/Propagation.h\<close>, \<^verbatim>\<open>Propagation.cpp\<close>, \<^verbatim>\<open>Uncertainty.h\<close> and
  \<^verbatim>\<open>Uncertainty.cpp\<close>, with the tuning rules at the end of \<^verbatim>\<open>Config.h\<close> that say which broadcast a source
  receives. \<^verbatim>\<open>describePath\<close> and \<^verbatim>\<open>describeLfPath\<close>, texts for the status page, are left out.

  Shown here: every hop the model chooses leaves the ground at the least elevation or above it and
  no smaller number of hops would; a modelled skywave never arrives before light along the ground
  could; the tight floors are claimed only under the conditions that earn them.
\<close>

section \<open>Which broadcast\<close>

datatype Broadcast = BcWwv | BcWwvb | BcDcf77 | BcAllouis | BcLf60

definition kDcf77CarrierHz :: int where "kDcf77CarrierHz = 77500"
definition kAllouisCarrierHz :: int where "kAllouisCarrierHz = 162000"
definition kLf60CarrierHz :: int where "kLf60CarrierHz = 60000"
definition kWwvbCeilingHz :: int where "kWwvbCeilingHz = 1000000"

definition broadcastFor :: "int \<Rightarrow> int \<Rightarrow> Broadcast" where
  "broadcastFor carrierHz dialHz =
     (if carrierHz = kDcf77CarrierHz then BcDcf77
      else if carrierHz = kAllouisCarrierHz then BcAllouis
      else if carrierHz = kLf60CarrierHz \<and> dialHz = carrierHz then BcLf60
      else if dialHz < kWwvbCeilingHz then BcWwvb else BcWwv)"

definition isIqBroadcast :: "Broadcast \<Rightarrow> bool" where
  "isIqBroadcast b \<longleftrightarrow> b \<noteq> BcWwvb"

definition wwvOnlyCarrier :: "int \<Rightarrow> bool" where
  "wwvOnlyCarrier carrierHz \<longleftrightarrow> carrierHz = 20000000 \<or> carrierHz = 25000000"

section \<open>Places and distances\<close>

definition kEarthRadiusM :: real where "kEarthRadiusM = 6371000"
definition kC :: real where "kC = 299792458"
definition kPi :: real where "kPi = 314159265358979323846 / 10 ^ 20"

definition rad :: "real \<Rightarrow> real" where
  "rad deg = deg * kPi / 180"

record GeoPoint =
  gp_lat :: real
  gp_lon :: real
  gp_valid :: bool

definition default_GeoPoint :: GeoPoint where
  "default_GeoPoint = \<lparr>gp_lat = 0, gp_lon = 0, gp_valid = False\<rparr>"

definition wwvSite :: GeoPoint where
  "wwvSite = \<lparr>gp_lat = 4067806 / 10 ^ 5, gp_lon = - (10504667 / 10 ^ 5), gp_valid = True\<rparr>"
definition wwvbSite :: GeoPoint where
  "wwvbSite = \<lparr>gp_lat = 4067806 / 10 ^ 5, gp_lon = - (10504667 / 10 ^ 5), gp_valid = True\<rparr>"
definition wwvhSite :: GeoPoint where
  "wwvhSite = \<lparr>gp_lat = 2198750 / 10 ^ 5, gp_lon = - (15976306 / 10 ^ 5), gp_valid = True\<rparr>"
definition dcf77Site :: GeoPoint where
  "dcf77Site = \<lparr>gp_lat = 50015528 / 10 ^ 6, gp_lon = 9008515 / 10 ^ 6, gp_valid = True\<rparr>"
definition msfSite :: GeoPoint where
  "msfSite = \<lparr>gp_lat = 54916667 / 10 ^ 6, gp_lon = - (3250000 / 10 ^ 6), gp_valid = True\<rparr>"
definition allouisSite :: GeoPoint where
  "allouisSite = \<lparr>gp_lat = 47168056 / 10 ^ 6, gp_lon = 2200556 / 10 ^ 6, gp_valid = True\<rparr>"

definition greatCircleMeters :: "GeoPoint \<Rightarrow> GeoPoint \<Rightarrow> real" where
  "greatCircleMeters a b =
     (if \<not> gp_valid a \<or> \<not> gp_valid b then 0
      else let p1 = rad (gp_lat a); p2 = rad (gp_lat b);
               dp = rad (gp_lat b - gp_lat a); dl = rad (gp_lon b - gp_lon a);
               h = sin (dp / 2) * sin (dp / 2) + cos p1 * cos p2 * sin (dl / 2) * sin (dl / 2)
           in 2 * kEarthRadiusM * arcsin (min 1 (sqrt h)))"

section \<open>Delays\<close>

definition kGroundwaveLimitM :: real where "kGroundwaveLimitM = 300000"
definition kVirtualHeightM :: real where "kVirtualHeightM = 350000"
definition kVirtualHeightLowM :: real where "kVirtualHeightLowM = 250000"
definition kVirtualHeightHighM :: real where "kVirtualHeightHighM = 450000"
definition kMinElevationRad :: real where "kMinElevationRad = 3 * kPi / 180"
definition kLfGroundIndex :: real where "kLfGroundIndex = 10003 / 10000"

definition maxHopMeters :: "real \<Rightarrow> real \<Rightarrow> real" where
  "maxHopMeters virtualHeightM minElevationRad =
     (let Rh = kEarthRadiusM + max 1 virtualHeightM; eps = max 0 minElevationRad;
          c = min 1 (kEarthRadiusM * cos eps / Rh);
          theta = arccos c - eps
      in if 0 < theta then 2 * kEarthRadiusM * theta else 0)"

definition hopCount :: "real \<Rightarrow> real \<Rightarrow> int" where
  "hopCount distanceMeters virtualHeightM =
     (let maxHop = maxHopMeters virtualHeightM kMinElevationRad
      in if maxHop \<le> 0 then 1 else max 1 \<lceil>distanceMeters / maxHop\<rceil>)"

text \<open>The slant range of half a hop, and the delay of a mode: both loops of the source compute it.\<close>

definition slant :: "real \<Rightarrow> real \<Rightarrow> int \<Rightarrow> real" where
  "slant distanceMeters h hops =
     (let halfArc = (distanceMeters / of_int hops / 2) / kEarthRadiusM; R = kEarthRadiusM; Rh = kEarthRadiusM + h
      in sqrt (R * R + Rh * Rh - 2 * R * Rh * cos halfArc))"

definition mode_delay :: "real \<Rightarrow> real \<Rightarrow> int \<Rightarrow> real" where
  "mode_delay distanceMeters h hops = 2 * of_int hops * slant distanceMeters h hops / kC"

definition skywaveDelaySeconds :: "real \<Rightarrow> real \<Rightarrow> real" where
  "skywaveDelaySeconds distanceMeters virtualHeightM =
     (if distanceMeters \<le> 0 then 0
      else if distanceMeters < kGroundwaveLimitM then distanceMeters / kC
      else mode_delay distanceMeters virtualHeightM (hopCount distanceMeters virtualHeightM))"

definition skywaveModeSpreadSeconds :: "real \<Rightarrow> real" where
  "skywaveModeSpreadSeconds distanceMeters =
     (if distanceMeters \<le> 0 then 0
      else let model = skywaveDelaySeconds distanceMeters kVirtualHeightM
           in fold (\<lambda>h worst.
                fold (\<lambda>hops worst. max worst \<bar>mode_delay distanceMeters h hops - model\<bar>)
                  [hopCount distanceMeters h, hopCount distanceMeters h + 1] worst)
                [kVirtualHeightLowM, kVirtualHeightM, kVirtualHeightHighM] 0)"

definition lfDelaySeconds :: "real \<Rightarrow> real" where
  "lfDelaySeconds distanceMeters =
     (if distanceMeters \<le> 0 then 0 else distanceMeters * kLfGroundIndex / kC)"

section \<open>Uncertainty\<close>

definition kDelayUncertaintyFloorSec :: real where "kDelayUncertaintyFloorSec = 10 / 1000"
definition kDelayUncertaintyFraction :: real where "kDelayUncertaintyFraction = 15 / 100"
definition kDelayUncertaintyFloorLfSec :: real where "kDelayUncertaintyFloorLfSec = 1 / 1000"
definition kLfGroundwaveServiceM :: real where "kLfGroundwaveServiceM = 2000000"
definition kWwvDecoderAllowanceSec :: real where "kWwvDecoderAllowanceSec = 1 / 1000"
definition kWeightDispersionFloorSec :: real where "kWeightDispersionFloorSec = 1 / 10000"

record UncertaintyInputs =
  ui_broadcast :: Broadcast
  ui_station :: string
  ui_autoDelay :: bool
  ui_captureTimed :: bool
  ui_timedByPhase :: bool
  ui_receiver :: GeoPoint
  ui_delaySec :: real

definition lfSite :: "UncertaintyInputs \<Rightarrow> GeoPoint option" where
  "lfSite i =
     (if ui_broadcast i = BcDcf77 then Some dcf77Site
      else if ui_broadcast i = BcAllouis then Some allouisSite
      else if ui_broadcast i = BcLf60 \<and> ui_station i = ''msf'' then Some msfSite
      else None)"

definition delayUncertaintySec :: "UncertaintyInputs \<Rightarrow> real" where
  "delayUncertaintySec i =
     (let captured = (ui_autoDelay i \<and> ui_captureTimed i \<and> gp_valid (ui_receiver i));
          sharpEdge = (if ui_broadcast i = BcLf60 then True else ui_timedByPhase i)
      in if captured \<and> sharpEdge
            \<and> (case lfSite i of None \<Rightarrow> False | Some site \<Rightarrow> greatCircleMeters (ui_receiver i) site \<le> kLfGroundwaveServiceM)
         then max kDelayUncertaintyFloorLfSec (ui_delaySec i * kDelayUncertaintyFraction)
         else if captured \<and> ui_broadcast i = BcWwv \<and> (ui_station i = ''wwv'' \<or> ui_station i = ''wwvh'')
         then skywaveModeSpreadSeconds (greatCircleMeters (ui_receiver i) (if ui_station i = ''wwvh'' then wwvhSite else wwvSite))
              + kWwvDecoderAllowanceSec
         else max kDelayUncertaintyFloorSec (ui_delaySec i * kDelayUncertaintyFraction))"

definition weightDispersionSec :: "real \<Rightarrow> real" where
  "weightDispersionSec ownSec = max kWeightDispersionFloorSec ownSec"

section \<open>Hops\<close>

text \<open>
  A hop over the ground distance \<open>d\<close> leaves at elevation \<open>e\<close> or above when the reflection point lies
  on or above the ray that leaves at \<open>e\<close>: with \<open>\<theta>\<close> half the arc, \<open>R cos e \<le> (R + h) cos (\<theta> + e)\<close>.
\<close>

definition hop_clears :: "real \<Rightarrow> real \<Rightarrow> real \<Rightarrow> bool" where
  "hop_clears d h e \<longleftrightarrow>
     kEarthRadiusM * cos e \<le> (kEarthRadiusM + h) * cos (d / 2 / kEarthRadiusM + e)"

lemma elevation_range: "0 < kMinElevationRad" "kMinElevationRad < 1"
  by (simp_all add: kMinElevationRad_def kPi_def)

lemma one_le_half_pi: "(1::real) \<le> pi / 2"
  using pi_ge_two by simp

text \<open>The least hop angle, and that a hop clears exactly when it is no longer than the longest.\<close>

lemma hop_angle:
  assumes "1 \<le> h" "0 \<le> e" "e < 1"
  shows "maxHopMeters h e = 2 * kEarthRadiusM * (arccos (kEarthRadiusM * cos e / (kEarthRadiusM + h)) - e)"
    "0 < arccos (kEarthRadiusM * cos e / (kEarthRadiusM + h)) - e"
    "0 < kEarthRadiusM * cos e / (kEarthRadiusM + h)" "kEarthRadiusM * cos e / (kEarthRadiusM + h) < 1"
proof -
  let ?c = "kEarthRadiusM * cos e / (kEarthRadiusM + h)"
  have ce: "0 < cos e" using assms one_le_half_pi by (intro cos_gt_zero_pi) linarith+
  have R: "0 < kEarthRadiusM" "0 < kEarthRadiusM + h" using assms by (simp_all add: kEarthRadiusM_def)
  show pos: "0 < ?c" using ce R by simp
  have less: "?c < cos e" using ce R assms by (simp add: field_simps)
  then show one: "?c < 1" using cos_le_one[of e] by linarith
  have "e = arccos (cos e)" using assms one_le_half_pi by (intro arccos_cos[symmetric]) linarith+
  also have "\<dots> < arccos ?c" using less pos by (intro arccos_less_arccos) auto
  finally show th: "0 < arccos ?c - e" by simp
  show "maxHopMeters h e = 2 * kEarthRadiusM * (arccos ?c - e)"
    using th one assms by (simp add: maxHopMeters_def Let_def)
qed

lemma hop_clears_iff:
  assumes "1 \<le> h" "0 \<le> e" "e < 1" "0 \<le> d" "d / 2 / kEarthRadiusM + e \<le> pi"
  shows "hop_clears d h e \<longleftrightarrow> d \<le> maxHopMeters h e"
proof -
  let ?c = "kEarthRadiusM * cos e / (kEarthRadiusM + h)" and ?t = "d / 2 / kEarthRadiusM + e"
  have R: "0 < kEarthRadiusM" "0 < kEarthRadiusM + h" using assms by (simp_all add: kEarthRadiusM_def)
  note a = hop_angle[OF assms(1-3)]
  have t: "0 \<le> ?t" using R assms by simp
  have c: "\<bar>?c\<bar> \<le> 1" using a(3,4) by linarith
  have "hop_clears d h e \<longleftrightarrow> ?c \<le> cos ?t" unfolding hop_clears_def using R by (simp add: field_simps)
  also have "\<dots> \<longleftrightarrow> arccos (cos ?t) \<le> arccos ?c" using arccos_le_mono[OF _ c, of "cos ?t"] by simp
  also have "arccos (cos ?t) = ?t" using t assms(5) by (intro arccos_cos) auto
  also have "?t \<le> arccos ?c \<longleftrightarrow> d \<le> maxHopMeters h e" unfolding a(1) using R by (simp add: field_simps)
  finally show ?thesis .
qed

lemma hopCount_pos: "1 \<le> hopCount d h"
  by (simp add: hopCount_def Let_def)

lemma hopCount_least:
  assumes "1 \<le> h" "0 < n"
  shows "hopCount d h \<le> n \<longleftrightarrow> d / of_int n \<le> maxHopMeters h kMinElevationRad"
proof -
  have m: "0 < maxHopMeters h kMinElevationRad"
    using hop_angle(1,2)[of h kMinElevationRad] elevation_range assms(1) by (simp add: kEarthRadiusM_def)
  have "hopCount d h \<le> n \<longleftrightarrow> d / maxHopMeters h kMinElevationRad \<le> of_int n"
    using assms(2) m by (auto simp: hopCount_def Let_def ceiling_le_iff)
  then show ?thesis using m assms(2) by (simp add: field_simps)
qed

text \<open>
  The model takes the fewest hops the geometry can carry. For a path no longer than half way
  round the Earth and any layer height, a number of hops is at least the model's exactly when
  each of them leaves the ground at three degrees of elevation or more.
\<close>

theorem fewest_hops:
  assumes "1 \<le> h" "0 < n" "0 \<le> d" "d \<le> pi * kEarthRadiusM"
  shows "hopCount d h \<le> n \<longleftrightarrow> hop_clears (d / of_int n) h kMinElevationRad"
proof -
  have "d / of_int n \<le> d" using assms(2,3) by (simp add: divide_le_eq mult_le_cancel_left1)
  then have "d / of_int n / 2 / kEarthRadiusM \<le> pi / 2" using assms(4) by (simp add: kEarthRadiusM_def field_simps)
  then have "d / of_int n / 2 / kEarthRadiusM + kMinElevationRad \<le> pi" using elevation_range one_le_half_pi by linarith
  then show ?thesis
    using hop_clears_iff[of h kMinElevationRad "d / of_int n"] hopCount_least[OF assms(1,2), of d] elevation_range assms by simp
qed

theorem fewest_hops_witness:
  "hopCount 1000000 kVirtualHeightM \<le> hopCount 1000000 kVirtualHeightM
    \<and> hop_clears (1000000 / of_int (hopCount 1000000 kVirtualHeightM)) kVirtualHeightM kMinElevationRad"
proof -
  have "(1000000::real) \<le> 2 * kEarthRadiusM" by (simp add: kEarthRadiusM_def)
  also have "\<dots> \<le> pi * kEarthRadiusM" using pi_ge_two by (intro mult_right_mono) (simp_all add: kEarthRadiusM_def)
  finally show ?thesis
    using fewest_hops[of kVirtualHeightM "hopCount 1000000 kVirtualHeightM" 1000000]
      hopCount_pos[of 1000000 kVirtualHeightM] by (simp add: kVirtualHeightM_def)
qed

section \<open>Never before light\<close>

text \<open>A hop that clears the horizon is at least as long as the ground under it.\<close>

lemma clears_horizon:
  assumes "hop_clears d h e" "0 \<le> h" "0 \<le> e" "e < 1" "0 \<le> d" "d / 2 / kEarthRadiusM \<le> pi / 2"
  defines "t \<equiv> d / 2 / kEarthRadiusM"
  shows "kEarthRadiusM \<le> (kEarthRadiusM + h) * cos t"
proof -
  have R: "0 < kEarthRadiusM" "0 < kEarthRadiusM + h" using assms by (simp_all add: kEarthRadiusM_def)
  have t: "0 \<le> t" "t \<le> pi / 2" using R assms by (simp_all add: t_def)
  have ce: "0 < cos e" using assms one_le_half_pi by (intro cos_gt_zero_pi) linarith+
  have se: "0 \<le> sin e" using assms one_le_half_pi by (intro sin_ge_zero) linarith+
  have st: "0 \<le> sin t" using t one_le_half_pi by (intro sin_ge_zero) linarith+
  have "kEarthRadiusM * cos e \<le> (kEarthRadiusM + h) * (cos t * cos e - sin t * sin e)"
    using assms(1) unfolding hop_clears_def t_def[symmetric] cos_add .
  also have "\<dots> \<le> (kEarthRadiusM + h) * (cos t * cos e)" using R st se by (intro mult_left_mono) auto
  finally have "kEarthRadiusM * cos e \<le> ((kEarthRadiusM + h) * cos t) * cos e" by (simp add: mult.assoc)
  then show ?thesis using ce by (simp only: mult_le_cancel_right_pos)
qed

lemma arctan_le_id:
  fixes x :: real
  assumes "0 \<le> x"
  shows "arctan x \<le> x"
proof -
  have "0 - arctan 0 \<le> x - arctan x"
  proof (rule DERIV_nonneg_imp_nondecreasing[OF assms])
    fix y :: real assume "0 \<le> y" "y \<le> x"
    have "1 \<le> 1 + y\<^sup>2" by simp
    then have "inverse (1 + y\<^sup>2) \<le> 1" by (simp add: inverse_le_1_iff del: le_add_same_cancel1)
    then show "\<exists>z. ((\<lambda>x. x - arctan x) has_real_derivative z) (at y) \<and> 0 \<le> z"
      by (intro exI[of _ "1 - inverse (1 + y\<^sup>2)"] conjI derivative_eq_intros DERIV_arctan) auto
  qed
  then show ?thesis by simp
qed

lemma slant_long:
  fixes R Rh t :: real
  assumes "0 < R" "0 < Rh" "R \<le> Rh * cos t" "0 \<le> t" "t \<le> pi / 2"
  shows "R * t \<le> sqrt (R * R + Rh * Rh - 2 * R * Rh * cos t)"
proof -
  have c: "0 < cos t" using assms by (smt (verit) mult_nonneg_nonpos)
  then have t: "t < pi / 2" using assms(5) by (cases "t = pi / 2") auto
  have "t = arctan (tan t)" using t assms(4) by (intro arctan_tan[symmetric]) linarith+
  also have "\<dots> \<le> tan t" using c assms(4) t one_le_half_pi by (intro arctan_le_id) (simp add: tan_pos_pi2_le)
  finally have "R * t \<le> R * tan t" using assms(1) by simp
  also have "\<dots> \<le> (Rh * cos t) * tan t"
    using assms(3,4) c t by (intro mult_right_mono) (simp_all add: tan_def sin_ge_zero)
  also have "\<dots> = Rh * sin t" using c by (simp add: tan_def)
  finally have le: "R * t \<le> Rh * sin t" .
  have "(Rh * sin t)\<^sup>2 \<le> (Rh * cos t - R)\<^sup>2 + (Rh * sin t)\<^sup>2" by simp
  also have "\<dots> = R * R + Rh * Rh * ((sin t)\<^sup>2 + (cos t)\<^sup>2) - 2 * R * Rh * cos t"
    by algebra
  finally have "(Rh * sin t)\<^sup>2 \<le> R * R + Rh * Rh - 2 * R * Rh * cos t" by simp
  then have "Rh * sin t \<le> sqrt (R * R + Rh * Rh - 2 * R * Rh * cos t)" by (rule real_le_rsqrt)
  with le show ?thesis by simp
qed

lemma mode_not_before_light:
  assumes "1 \<le> h" "hopCount d h \<le> n" "0 < d" "d \<le> pi * kEarthRadiusM"
  shows "d / kC \<le> mode_delay d h n"
proof -
  have n: "0 < n" using assms(2) hopCount_pos[of d h] by simp
  let ?t = "d / of_int n / 2 / kEarthRadiusM"
  have R: "0 < kEarthRadiusM" "0 < kEarthRadiusM + h" using assms by (simp_all add: kEarthRadiusM_def)
  have "d / of_int n \<le> d" using n assms(3) by (simp add: divide_le_eq mult_le_cancel_left1)
  then have t: "?t \<le> pi / 2" using assms(4) by (simp add: kEarthRadiusM_def field_simps)
  have "d / of_int n \<le> maxHopMeters h kMinElevationRad" using hopCount_least[OF assms(1) n] assms(2) by simp
  moreover have "?t + kMinElevationRad \<le> pi" using t elevation_range one_le_half_pi by linarith
  ultimately have "hop_clears (d / of_int n) h kMinElevationRad"
    using hop_clears_iff[of h kMinElevationRad "d / of_int n"] assms(1,3) n elevation_range by simp
  from clears_horizon[OF this] have "kEarthRadiusM \<le> (kEarthRadiusM + h) * cos ?t"
    using assms(1,3) n t elevation_range by simp
  from slant_long[OF R this] have "kEarthRadiusM * ?t \<le> slant d h n"
    using assms(3) n t R by (simp add: slant_def Let_def)
  then have "d \<le> 2 * of_int n * slant d h n" using n R by (simp add: field_simps)
  then show ?thesis unfolding mode_delay_def by (intro divide_right_mono) (simp_all add: kC_def)
qed

text \<open>
  No modelled delay is shorter than light needs along the ground. For every path up to half
  way round the Earth, the groundwave and the skywave of any layer height are both at least the
  distance over the speed of light.
\<close>

theorem never_before_light:
  assumes "1 \<le> h" "0 < d" "d \<le> pi * kEarthRadiusM"
  shows "d / kC \<le> skywaveDelaySeconds d h \<and> d / kC \<le> lfDelaySeconds d"
  using assms mode_not_before_light[of h d "hopCount d h"]
  by (simp add: skywaveDelaySeconds_def lfDelaySeconds_def kLfGroundIndex_def kC_def)

theorem never_before_light_witness:
  "1000000 / kC \<le> skywaveDelaySeconds 1000000 kVirtualHeightM \<and> 1000000 / kC \<le> lfDelaySeconds 1000000"
proof (rule never_before_light)
  have "(1000000::real) \<le> 2 * kEarthRadiusM" by (simp add: kEarthRadiusM_def)
  also have "\<dots> \<le> pi * kEarthRadiusM" using pi_ge_two by (intro mult_right_mono) (simp_all add: kEarthRadiusM_def)
  finally show "1000000 \<le> pi * kEarthRadiusM" .
qed (simp_all add: kVirtualHeightM_def)

section \<open>What earns a tight claim\<close>

text \<open>The delays of the modes the spread is taken over.\<close>

definition skywave_modes :: "real \<Rightarrow> real list" where
  "skywave_modes d = concat (map (\<lambda>h. [mode_delay d h (hopCount d h), mode_delay d h (hopCount d h + 1)])
     [kVirtualHeightLowM, kVirtualHeightM, kVirtualHeightHighM])"

lemma fold_max_covers:
  fixes f :: "'a \<Rightarrow> real"
  shows "w \<le> fold (\<lambda>x w. max w (f x)) xs w" "x \<in> set xs \<Longrightarrow> f x \<le> fold (\<lambda>x w. max w (f x)) xs w"
proof -
  have "w \<le> fold (\<lambda>x w. max w (f x)) xs w \<and> (\<forall>x \<in> set xs. f x \<le> fold (\<lambda>x w. max w (f x)) xs w)"
  proof (induction xs arbitrary: w)
    case (Cons a xs)
    from Cons[of "max w (f a)"] show ?case by auto
  qed simp
  then show "w \<le> fold (\<lambda>x w. max w (f x)) xs w" "x \<in> set xs \<Longrightarrow> f x \<le> fold (\<lambda>x w. max w (f x)) xs w" by auto
qed

lemma spread_fold:
  assumes "0 < d"
  shows "skywaveModeSpreadSeconds d = fold (\<lambda>t w. max w \<bar>t - skywaveDelaySeconds d kVirtualHeightM\<bar>) (skywave_modes d) 0"
  using assms by (simp only: skywaveModeSpreadSeconds_def skywave_modes_def Let_def list.map concat.simps append.simps fold_simps not_less[symmetric] if_False not_True_eq_False)

lemma spread_covers:
  assumes "0 < d" "t \<in> set (skywave_modes d)"
  shows "\<bar>t - skywaveDelaySeconds d kVirtualHeightM\<bar> \<le> skywaveModeSpreadSeconds d"
  unfolding spread_fold[OF assms(1)] by (rule fold_max_covers(2)[OF assms(2)])

lemma spread_nonneg: "0 \<le> skywaveModeSpreadSeconds d"
proof (cases "0 < d")
  case True
  show ?thesis unfolding spread_fold[OF True] by (rule fold_max_covers(1))
qed (simp add: skywaveModeSpreadSeconds_def)

definition capture_timed :: "UncertaintyInputs \<Rightarrow> bool" where
  "capture_timed i \<longleftrightarrow> ui_autoDelay i \<and> ui_captureTimed i \<and> gp_valid (ui_receiver i)"

text \<open>The conditions under which the millisecond floor of a groundwave is claimed.\<close>

definition sharp_groundwave :: "UncertaintyInputs \<Rightarrow> bool" where
  "sharp_groundwave i \<longleftrightarrow>
     ui_broadcast i = BcDcf77 \<and> ui_timedByPhase i \<and> greatCircleMeters (ui_receiver i) dcf77Site \<le> kLfGroundwaveServiceM
     \<or> ui_broadcast i = BcAllouis \<and> ui_timedByPhase i \<and> greatCircleMeters (ui_receiver i) allouisSite \<le> kLfGroundwaveServiceM
     \<or> ui_broadcast i = BcLf60 \<and> ui_station i = ''msf'' \<and> greatCircleMeters (ui_receiver i) msfSite \<le> kLfGroundwaveServiceM"

lemma delayUncertainty_cases:
  "delayUncertaintySec i =
     (if capture_timed i \<and> sharp_groundwave i then max kDelayUncertaintyFloorLfSec (ui_delaySec i * kDelayUncertaintyFraction)
      else if capture_timed i \<and> ui_broadcast i = BcWwv \<and> (ui_station i = ''wwv'' \<or> ui_station i = ''wwvh'')
      then skywaveModeSpreadSeconds (greatCircleMeters (ui_receiver i) (if ui_station i = ''wwvh'' then wwvhSite else wwvSite))
           + kWwvDecoderAllowanceSec
      else max kDelayUncertaintyFloorSec (ui_delaySec i * kDelayUncertaintyFraction))"
  unfolding delayUncertaintySec_def Let_def capture_timed_def sharp_groundwave_def lfSite_def
  by (cases "ui_broadcast i") auto

text \<open>
  A source claims a delay known to better than ten milliseconds only when that is earned:
  its delay is modelled, its samples are stamped at capture and not paused, its position is
  published, and either it is DCF77 or Allouis timed by phase, or MSF, within 2000 km of the
  transmitter, or it is WWV with the station named, where the claim covers every mode of the three
  layer heights with the least hops or one more. It never claims better than one millisecond.
\<close>

theorem tight_delay_earned:
  defines "site_distance i \<equiv> greatCircleMeters (ui_receiver i) (if ui_station i = ''wwvh'' then wwvhSite else wwvSite)"
  shows "kDelayUncertaintyFloorLfSec \<le> delayUncertaintySec i
    \<and> (delayUncertaintySec i < kDelayUncertaintyFloorSec \<longrightarrow>
        capture_timed i \<and> (sharp_groundwave i
          \<or> ui_broadcast i = BcWwv \<and> (ui_station i = ''wwv'' \<or> ui_station i = ''wwvh'')
            \<and> (site_distance i \<le> 0
               \<or> list_all (\<lambda>t. \<bar>t - skywaveDelaySeconds (site_distance i) kVirtualHeightM\<bar> + kWwvDecoderAllowanceSec \<le> delayUncertaintySec i)
                   (skywave_modes (site_distance i)))))"
proof (intro conjI impI)
  have *: "kDelayUncertaintyFloorLfSec \<le> max kDelayUncertaintyFloorLfSec x" "kDelayUncertaintyFloorLfSec \<le> max kDelayUncertaintyFloorSec x"
    "0 \<le> x \<Longrightarrow> kDelayUncertaintyFloorLfSec \<le> x + kWwvDecoderAllowanceSec" for x
    by (simp_all add: kDelayUncertaintyFloorLfSec_def kDelayUncertaintyFloorSec_def kWwvDecoderAllowanceSec_def le_max_iff_disj)
  show "kDelayUncertaintyFloorLfSec \<le> delayUncertaintySec i"
    unfolding delayUncertainty_cases using * spread_nonneg by presburger
  assume less: "delayUncertaintySec i < kDelayUncertaintyFloorSec"
  then show "capture_timed i" by (auto simp: delayUncertainty_cases split: if_splits)
  have c: "sharp_groundwave i \<or> ui_broadcast i = BcWwv \<and> (ui_station i = ''wwv'' \<or> ui_station i = ''wwvh'')"
    using less by (auto simp: delayUncertainty_cases split: if_splits)
  have "sharp_groundwave i \<or> delayUncertaintySec i = skywaveModeSpreadSeconds (site_distance i) + kWwvDecoderAllowanceSec"
    using less unfolding delayUncertainty_cases site_distance_def by (auto split: if_splits)
  then have "sharp_groundwave i \<or> site_distance i \<le> 0
      \<or> list_all (\<lambda>t. \<bar>t - skywaveDelaySeconds (site_distance i) kVirtualHeightM\<bar> + kWwvDecoderAllowanceSec \<le> delayUncertaintySec i)
          (skywave_modes (site_distance i))"
    using spread_covers[of "site_distance i"] by (auto simp: list_all_iff)
  with c show "sharp_groundwave i
      \<or> ui_broadcast i = BcWwv \<and> (ui_station i = ''wwv'' \<or> ui_station i = ''wwvh'')
        \<and> (site_distance i \<le> 0
           \<or> list_all (\<lambda>t. \<bar>t - skywaveDelaySeconds (site_distance i) kVirtualHeightM\<bar> + kWwvDecoderAllowanceSec \<le> delayUncertaintySec i)
               (skywave_modes (site_distance i)))" by blast
qed

definition demo_ui :: UncertaintyInputs where
  "demo_ui = \<lparr>ui_broadcast = BcDcf77, ui_station = ''dcf77'', ui_autoDelay = True, ui_captureTimed = True, ui_timedByPhase = True,
     ui_receiver = dcf77Site, ui_delaySec = 0\<rparr>"

lemma demo_ui_tight: "delayUncertaintySec demo_ui < kDelayUncertaintyFloorSec"
  by (simp add: delayUncertainty_cases demo_ui_def capture_timed_def sharp_groundwave_def dcf77Site_def greatCircleMeters_def
      rad_def Let_def kLfGroundwaveServiceM_def kDelayUncertaintyFloorLfSec_def kDelayUncertaintyFloorSec_def)

theorem tight_delay_earned_witness: "kDelayUncertaintyFloorLfSec \<le> delayUncertaintySec demo_ui \<and> capture_timed demo_ui"
  using tight_delay_earned[of demo_ui] demo_ui_tight by blast

end
