(* ===== verification/Radio_Source.thy ===== *)
theory Radio_Source
  imports Clock_Events Sample_Clock Time_Continuity Offset_Estimator Source_Snapshot Propagation
begin

text \<open>
  One radio source, \<^verbatim>\<open>src/src/Source.h\<close> and \<^verbatim>\<open>Source.cpp\<close>: from an audio packet and what the decoder
  makes of it to the offset the selector reads. The decoder is the model's environment: each block
  of samples comes with the callbacks, diagnostics and station the decoder gives for it. The packet
  decoder, a third-party class, is its result. Every handler takes the clock readings it makes as
  one argument. Connecting, the HTTP requests and the JSON texts of the receiver are not modelled;
  what they set is part of the state.
\<close>

section \<open>State\<close>

record Clocks =
  cl_daemon :: real
  cl_mono :: real
  cl_dmr :: real

record SourceConfig =
  cfg_name :: string
  cfg_url :: string
  cfg_enabled :: bool
  cfg_carrierHz :: int
  cfg_dialHz :: int
  cfg_autoDelay :: bool
  cfg_delayMs :: real
  cfg_extraDelayMs :: real
  cfg_captureTiming :: bool
  cfg_weight :: real

datatype TimingMode = TmPending | TmCapture | TmArrival

text \<open>Why a decoded time is held back: the texts of \<^verbatim>\<open>timeCheck\<close> with the figures they print.\<close>

datatype TimeCheck = NoCheck | ConfirmingFirst int string | RefusedJump string real int

text \<open>The fields of the snapshot only a radio source has.\<close>

record SnapshotLink = SourceSnapshot +
  sn_packets :: nat
  sn_audioBytes :: nat
  sn_decodeErrors :: nat
  sn_httpRttMs :: real
  sn_receiverLocation :: GeoPoint
  sn_transmitterLocation :: GeoPoint
  sn_lastAudioAgeSec :: real
  sn_lastTimeAgeSec :: real
  sn_sampleRate :: int

record SnapshotDecoder = SnapshotLink +
  sn_toneDetected :: bool
  sn_phaseLocked :: bool
  sn_anchored :: bool
  sn_framesInWindow :: int
  sn_windowSize :: int
  sn_refusal :: ClockLockRefusal
  sn_samplesConsumed :: int
  sn_lastQuality :: int
  sn_dut1Tenths :: int
  sn_pmLocked :: bool
  sn_timingFromPm :: bool
  sn_tickTiming :: bool

record SnapshotCheck = SnapshotDecoder +
  sn_timeCheck :: TimeCheck
  sn_timeRejections :: nat
  sn_lastRejectedJumpSec :: real
  sn_lastRejectedUtc :: string
  sn_timeAdoptions :: nat
  sn_offsetHeld :: bool
  sn_offsetHeldForSec :: real
  sn_liveOffsetSec :: real
  sn_rejoinGapSec :: real
  sn_jitterBaselineSec :: real
  sn_spikeThresholdSec :: real
  sn_spikeHolds :: nat
  sn_spikeHoldsTimedOut :: nat

record RadioSnapshot = SnapshotCheck +
  sn_propagationSec :: real
  sn_decoderSec :: real
  sn_chainSec :: real
  sn_timingMode :: TimingMode
  sn_capturePaused :: bool
  sn_captureLagSec :: real
  sn_hostSlewPpm :: "real option"
  sn_captureUntimed :: nat
  sn_clockFitValid :: bool
  sn_clockResidualSec :: real
  sn_clockSpanSec :: real
  sn_clockPpm :: real
  sn_wsRttMs :: real
  sn_rttFromWs :: bool
  sn_clockSlopeUncSec :: real
  sn_clockSlopeHeld :: bool
  sn_lastExcessDelaySec :: real

datatype DecoderKind = DkWwv | DkWwvb | DkDcf77 | DkMsf | DkAllouis

text \<open>The stream: the decoder, the count of samples, and the server's time stamps against it.\<close>

record RadioStream =
  rs_cfg :: SourceConfig
  rs_broadcast :: Broadcast
  rs_decoder :: "DecoderKind option"
  rs_lf60 :: ClockStation
  rs_lf60WaitSince :: real
  rs_wwvbFromIq :: bool
  rs_iqToAudioDelayModelSec :: real
  rs_decoderRate :: int
  rs_rateRefused :: bool
  rs_stationMemory :: ClockStation
  rs_stationMemoryAt :: real
  rs_samplesWritten :: int
  rs_lastFrameSamples :: int
  rs_tsHave :: bool
  rs_tsOriginNanos :: "64 word"
  rs_tsOriginSample :: int
  rs_tsBaseline :: real
  rs_tsBlockMin :: real
  rs_tsBlockStartNanos :: "64 word"
  rs_tsBlockHave :: bool
  rs_gapFills :: nat

text \<open>The mapping to the daemon clock, the anchor, and what is published.\<close>

record RadioSource = RadioStream +
  rs_clock :: SampleClock
  rs_timing :: TimingMode
  rs_timingPendingSince :: real
  rs_capture :: CaptureClock
  rs_slew :: HostSlewGuard
  rs_captureTrusted :: bool
  rs_haveAnchor :: bool
  rs_haveFrame :: bool
  rs_frameStartSample :: int
  rs_anchorEdgeSample :: int
  rs_anchorUtcMs :: int
  rs_anchorSetAt :: real
  rs_offsets :: OffsetEstimator
  rs_continuity :: TimeContinuity
  rs_rejectedJumps :: "real list"
  rs_leapWarnAt :: real
  rs_leapFrames :: int
  rs_rttProbes :: "real list"
  rs_wsRttProbes :: "real list"
  rs_jsonPingSentAt :: real
  rs_snap :: RadioSnapshot
  rs_linkSince :: real
  rs_lastAudioAt :: real
  rs_lastTimeAt :: real
  rs_active :: bool
  rs_activeReason :: string
  rs_reacquire :: bool
  rs_reacquireWhy :: string
  rs_serverTooOld :: bool
  rs_descriptionTried :: bool
  rs_descriptionAnswered :: bool

section \<open>Constants\<close>

definition kOffsetStaleSec :: real where "kOffsetStaleSec = 180"
definition kAnchorMaxAgeSec :: real where "kAnchorMaxAgeSec = 300"
definition kWwvResidualSec :: real where "kWwvResidualSec = 0"
definition kMsfDecoderEdgeBiasSec :: real where "kMsfDecoderEdgeBiasSec = 190 / 10 ^ 6"
definition kUberSdrChainDelaySec :: real where "kUberSdrChainDelaySec = 94 / 10 ^ 4"
definition kMaxCaptureLagSec :: real where "kMaxCaptureLagSec = 1"
definition kTimingPendingSec :: real where "kTimingPendingSec = 5"
definition kCaptureFrameToleranceSec :: real where "kCaptureFrameToleranceSec = 50 / 10 ^ 6"
definition kLf60DescriptionWaitSec :: real where "kLf60DescriptionWaitSec = 60"
definition kMaxPongSec :: real where "kMaxPongSec = 10"
definition kLeapConfirmFrames :: int where "kLeapConfirmFrames = 3"

section \<open>A new source\<close>

definition default_RadioSnapshot :: RadioSnapshot where
  "default_RadioSnapshot =
     SnapshotCheck.extend
       (SnapshotDecoder.extend
         (SnapshotLink.extend
           (SourceSnapshot.extend default_SourceSnapshot
             (SnapshotLink.fields 0 0 0 0 default_GeoPoint default_GeoPoint (10 ^ 9) (10 ^ 9) 0))
           (SnapshotDecoder.fields False False False 0 0 NoRefusal 0 0 0 False False False))
         (SnapshotCheck.fields NoCheck 0 0 '''' 0 False 0 0 0 0 0 0 0))
       (RadioSnapshot.fields 0 0 0 TmPending False 0 (Some 0) 0 False 0 0 0 0 False 0 False 0)"

definition mk_Source :: "SourceConfig \<Rightarrow> Clocks \<Rightarrow> RadioSource" where
  "mk_Source cfg cl =
     (let bc = broadcastFor (cfg_carrierHz cfg) (cfg_dialHz cfg)
      in \<lparr>rs_cfg = cfg, rs_broadcast = bc, rs_decoder = None, rs_lf60 = StUnknown, rs_lf60WaitSince = 0, rs_wwvbFromIq = False,
          rs_iqToAudioDelayModelSec = 0, rs_decoderRate = 0, rs_rateRefused = False, rs_stationMemory = StUnknown,
          rs_stationMemoryAt = 0, rs_samplesWritten = 0, rs_lastFrameSamples = 0, rs_tsHave = False, rs_tsOriginNanos = 0,
          rs_tsOriginSample = 0, rs_tsBaseline = 0, rs_tsBlockMin = 0, rs_tsBlockStartNanos = 0, rs_tsBlockHave = False,
          rs_gapFills = 0, rs_clock = mk_SampleClock 12000 4 300, rs_timing = TmPending, rs_timingPendingSince = 0,
          rs_capture = mk_CaptureClock 12000, rs_slew = mk_HostSlewGuard, rs_captureTrusted = True, rs_haveAnchor = False,
          rs_haveFrame = False, rs_frameStartSample = 0, rs_anchorEdgeSample = 0, rs_anchorUtcMs = 0, rs_anchorSetAt = 0,
          rs_offsets = mk_OffsetEstimator (default_OffsetTuning\<lparr>holdJitterSpikes := True\<rparr>), rs_continuity = mk_TimeContinuity,
          rs_rejectedJumps = [], rs_leapWarnAt = - (10 ^ 18), rs_leapFrames = 0, rs_rttProbes = [], rs_wsRttProbes = [],
          rs_jsonPingSentAt = 0,
          rs_snap = default_RadioSnapshot\<lparr>sn_name := cfg_name cfg, sn_url := cfg_url cfg, sn_enabled := cfg_enabled cfg,
            sn_weight := cfg_weight cfg,
            sn_station := (if bc = BcDcf77 then ''dcf77'' else if bc = BcAllouis then ''allouis'' else if bc = BcWwvb then ''wwvb''
                           else if wwvOnlyCarrier (cfg_carrierHz cfg) then ''wwv'' else ''unknown'')\<rparr>,
          rs_linkSince = cl_mono cl, rs_lastAudioAt = 0, rs_lastTimeAt = 0, rs_active = True, rs_activeReason = '''',
          rs_reacquire = False, rs_reacquireWhy = '''', rs_serverTooOld = False, rs_descriptionTried = False,
          rs_descriptionAnswered = False\<rparr>)"

section \<open>The delay model\<close>

text \<open>The transmitter, whether its path is a groundwave, and whether it is still undecided.\<close>

definition transmitter_of :: "Broadcast \<Rightarrow> string \<Rightarrow> GeoPoint \<times> bool \<times> bool" where
  "transmitter_of bc station =
     (if bc = BcDcf77 then (dcf77Site, True, False)
      else if bc = BcAllouis then (allouisSite, True, False)
      else if station = ''msf'' then (msfSite, True, False)
      else if bc = BcLf60 \<and> station \<noteq> ''wwvb'' then (default_GeoPoint, False, True)
      else if station = ''wwvh'' then (wwvhSite, False, False)
      else if station = ''wwvb'' \<or> bc = BcWwvb then (wwvbSite, True, False)
      else (wwvSite, False, False))"

definition updateDelayModel :: "RadioSource \<Rightarrow> RadioSource" where
  "updateDelayModel s =
     (let n = rs_snap s; cfg = rs_cfg s;
          (tx, lf, undecided) = transmitter_of (rs_broadcast s) (sn_station n);
          n = n\<lparr>sn_transmitterLocation := tx\<rparr>
      in if \<not> cfg_autoDelay cfg then
           s\<lparr>rs_snap := n\<lparr>sn_delaySec := cfg_delayMs cfg / 1000, sn_propagationSec := 0, sn_networkSec := 0, sn_decoderSec := 0,
                          sn_chainSec := 0, sn_extraSec := cfg_delayMs cfg / 1000\<rparr>\<rparr>
         else
           let prop = (if undecided then 0
                       else if gp_valid (sn_receiverLocation n)
                       then let d = greatCircleMeters (sn_receiverLocation n) tx
                            in if lf then lfDelaySeconds d else skywaveDelaySeconds d kVirtualHeightM
                       else 0);
               rttMs = (if 0 < sn_wsRttMs n then sn_wsRttMs n else sn_httpRttMs n);
               capture = (sn_timingMode n = TmCapture);
               net = (if capture then 0 else if 0 < rttMs then (rttMs / 1000) * (1 / 2) else 0);
               decoder = (if rs_broadcast s = BcWwv then kWwvResidualSec
                          else if sn_station n = ''msf'' then kMsfDecoderEdgeBiasSec
                          else rs_iqToAudioDelayModelSec s);
               chain = (if capture then 0 else kUberSdrChainDelaySec);
               extra = cfg_extraDelayMs cfg / 1000
           in s\<lparr>rs_snap := n\<lparr>sn_rttFromWs := 0 < sn_wsRttMs n, sn_propagationSec := prop, sn_networkSec := net,
                  sn_decoderSec := decoder, sn_chainSec := chain, sn_extraSec := extra,
                  sn_delaySec := prop + net + decoder + chain + extra\<rparr>\<rparr>)"

definition min_recent :: "real list \<Rightarrow> real" where
  "min_recent probes = fold (\<lambda>v best. min best v) probes (hd probes)"

definition keep_last :: "nat \<Rightarrow> 'a list \<Rightarrow> 'a list" where
  "keep_last k xs = drop (length xs - k) xs"

definition recordWsRtt :: "real \<Rightarrow> RadioSource \<Rightarrow> RadioSource" where
  "recordWsRtt rttSec s =
     (if \<not> 0 < rttSec then s
      else let probes = keep_last 12 (rs_wsRttProbes s @ [rttSec])
           in s\<lparr>rs_wsRttProbes := probes, rs_snap := (rs_snap s)\<lparr>sn_wsRttMs := min_recent probes * 1000\<rparr>\<rparr>)"

definition recordRtt :: "real \<Rightarrow> RadioSource \<Rightarrow> RadioSource" where
  "recordRtt rttSec s =
     (if \<not> 0 < rttSec then s
      else let probes = keep_last 12 (rs_rttProbes s @ [rttSec])
           in s\<lparr>rs_rttProbes := probes, rs_snap := (rs_snap s)\<lparr>sn_httpRttMs := min_recent probes * 1000\<rparr>\<rparr>)"

text \<open>A probe answered (\<^verbatim>\<open>code\<close> is not negative) after the round trip measured.\<close>

definition probeRtt :: "real option \<Rightarrow> RadioSource \<Rightarrow> RadioSource" where
  "probeRtt rtt s = (case rtt of None \<Rightarrow> s | Some r \<Rightarrow> updateDelayModel (recordRtt r s))"

definition onJsonPong :: "Clocks \<Rightarrow> RadioSource \<Rightarrow> RadioSource" where
  "onJsonPong cl s0 =
     (let sentAt = rs_jsonPingSentAt s0; s = s0\<lparr>rs_jsonPingSentAt := 0\<rparr>; rtt = cl_mono cl - sentAt
      in if \<not> 0 < sentAt then s
         else if \<not> 0 < rtt \<or> kMaxPongSec < rtt then s
         else recordWsRtt rtt s)"

section \<open>The offset\<close>

definition uncertainty_inputs :: "RadioSource \<Rightarrow> UncertaintyInputs" where
  "uncertainty_inputs s =
     (let n = rs_snap s
      in \<lparr>ui_broadcast = rs_broadcast s, ui_station = sn_station n, ui_autoDelay = cfg_autoDelay (rs_cfg s),
          ui_captureTimed = (sn_timingMode n = TmCapture \<and> \<not> sn_capturePaused n),
          ui_timedByPhase = (sn_pmLocked n \<and> sn_timingFromPm n), ui_receiver = sn_receiverLocation n,
          ui_delaySec = sn_delaySec n\<rparr>)"

definition recomputeOffset :: "Clocks \<Rightarrow> RadioSource \<Rightarrow> RadioSource" where
  "recomputeOffset cl s0 =
     (if of_samples (rs_offsets s0) = [] then
        s0\<lparr>rs_snap := (rs_snap s0)\<lparr>sn_haveOffset := False, sn_offsetSamples := 0, sn_offsetHeld := False, sn_rejoinGapSec := 0\<rparr>\<rparr>
      else
        let (e, offs) = estimate (rs_offsets s0);
            s = s0\<lparr>rs_offsets := offs\<rparr>;
            age = cl_daemon cl - oe_atSec e;
            n = (rs_snap s)\<lparr>sn_offsetAgeSec := age, sn_offsetSamples := oe_samples e\<rparr>
        in if kOffsetStaleSec < age then s\<lparr>rs_snap := n\<lparr>sn_haveOffset := False\<rparr>\<rparr>
           else
             let n = n\<lparr>sn_offsetSec := oe_offsetSec e, sn_offsetAtSec := oe_atSec e, sn_offsetRate := oe_rate e,
                       sn_offsetRateUncertainty := oe_rateUncertainty e, sn_offsetRateMeasured := oe_rateMeasured e,
                       sn_offsetRateSpanSec := oe_rateSpanSec e, sn_rateTermSec := oe_rateTermSec e,
                       sn_jitterSec := oe_jitterSec e, sn_offsetHeld := oe_held e, sn_offsetHeldForSec := oe_heldForSec e,
                       sn_liveOffsetSec := oe_liveOffsetSec e, sn_rejoinGapSec := oe_rejoinGapSec e,
                       sn_jitterBaselineSec := oe_jitterBaselineSec e, sn_spikeThresholdSec := oe_spikeThresholdSec e,
                       sn_spikeHolds := oe_holds e, sn_spikeHoldsTimedOut := oe_holdsTimedOut e\<rparr>;
                 own = oe_jitterSec e + sn_clockResidualSec n + sn_clockSlopeUncSec n + oe_rateTermSec e;
                 n = n\<lparr>sn_dispersionSec := own + delayUncertaintySec (uncertainty_inputs s),
                       sn_weightDispersionSec := weightDispersionSec own,
                       sn_haveOffset := oe_valid e \<and> sn_clockState n = ''locked''\<rparr>
             in s\<lparr>rs_snap := n,
                  rs_continuity := (if oe_valid e
                                    then noteFiltered (oe_offsetSec e) (if oe_rateMeasured e then oe_rate e else 0) (oe_atSec e) (rs_continuity s)
                                    else rs_continuity s)\<rparr>)"

definition addOffsetSample :: "real \<Rightarrow> real \<Rightarrow> RadioSource \<Rightarrow> RadioSource" where
  "addOffsetSample offsetSec atDaemon s = s\<lparr>rs_offsets := of_add atDaemon offsetSec (rs_offsets s)\<rparr>"

definition src_hostTimeAt :: "real \<Rightarrow> RadioSource \<Rightarrow> real option" where
  "src_hostTimeAt sample s =
     (if rs_timing s = TmCapture then cc_hostTimeAt sample (rs_capture s) else sc_hostTimeAt sample (rs_clock s))"

section \<open>What the decoder reports\<close>

definition lock_state_name :: "ClockLockState \<Rightarrow> string" where
  "lock_state_name st = (case st of LsLocked \<Rightarrow> ''locked'' | LsAcquiring \<Rightarrow> ''acquiring'' | LsNoSignal \<Rightarrow> ''nosignal'')"

definition onClockState :: "ClockLockState \<Rightarrow> RadioSource \<Rightarrow> RadioSource" where
  "onClockState st s =
     (let s = s\<lparr>rs_snap := (rs_snap s)\<lparr>sn_clockState := lock_state_name st\<rparr>\<rparr>
      in if st \<noteq> LsLocked then s\<lparr>rs_haveAnchor := False\<rparr> else s)"

definition onClockFrame :: "Clocks \<Rightarrow> ClockFrameInfo \<Rightarrow> RadioSource \<Rightarrow> RadioSource" where
  "onClockFrame cl f s =
     (let frames = (if fi_leapPending f then min (rs_leapFrames s + 1) kLeapConfirmFrames else 0);
          pending = (kLeapConfirmFrames \<le> frames)
      in s\<lparr>rs_frameStartSample := fi_frameStartSample f, rs_haveFrame := True, rs_leapFrames := frames,
           rs_snap := (rs_snap s)\<lparr>sn_dut1Tenths := fi_dut1Tenths f, sn_leapPending := pending\<rparr>,
           rs_leapWarnAt := (if pending then cl_daemon cl else rs_leapWarnAt s)\<rparr>)"

definition leapBoundaryAfter :: "int \<Rightarrow> int" where
  "leapBoundaryAfter ms =
     (if \<not> isLastDayOfMonth ms then -1 else (floorDiv (floorDiv ms 1000) 86400 + 1) * 86400 * 1000)"

definition leap_window :: "real \<Rightarrow> int \<Rightarrow> RadioSource \<Rightarrow> bool" where
  "leap_window atDaemon decodedMs s \<longleftrightarrow>
     isLastDayOfMonth (decodedMs - 2 * 3600 * 1000) \<and> \<not> isLastDayOfMonth decodedMs \<and> atDaemon - rs_leapWarnAt s < 86400"

text \<open>The bookkeeping of a verdict: counts, the jump for the chart, and the check's text.\<close>

definition note_verdict :: "Verdict \<Rightarrow> string \<Rightarrow> RadioSource \<Rightarrow> RadioSource" where
  "note_verdict v when s0 =
     (let s = (if outcome v = Refused \<or> outcome v = Adopted
               then s0\<lparr>rs_snap := (rs_snap s0)\<lparr>sn_timeRejections := sn_timeRejections (rs_snap s0) + 1,
                                               sn_lastRejectedJumpSec := jumpSec v, sn_lastRejectedUtc := when\<rparr>,
                       rs_rejectedJumps := (if length (rs_rejectedJumps s0) < 256 then rs_rejectedJumps s0 @ [jumpSec v]
                                            else rs_rejectedJumps s0)\<rparr>
               else s0);
          s = (if discardFiltered v then s\<lparr>rs_offsets := of_clear (rs_offsets s)\<rparr> else s);
          n = rs_snap s
      in s\<lparr>rs_snap := (case outcome v of
             Confirming \<Rightarrow> n\<lparr>sn_timeCheck := ConfirmingFirst (readings v) when\<rparr>
           | Refused \<Rightarrow> n\<lparr>sn_timeCheck := RefusedJump when (jumpSec v) \<lceil>max 0 (kAdoptSpanSec - spanSec v) / 60\<rceil>\<rparr>
           | Adopted \<Rightarrow> n\<lparr>sn_timeAdoptions := sn_timeAdoptions n + 1, sn_timeCheck := NoCheck\<rparr>
           | _ \<Rightarrow> n\<lparr>sn_timeCheck := NoCheck\<rparr>)\<rparr>)"

definition admitDecodedTime :: "real \<Rightarrow> real \<Rightarrow> int \<Rightarrow> RadioSource \<Rightarrow> bool \<times> RadioSource" where
  "admitDecodedTime impliedOffsetSec atDaemon decodedMs s =
     (let (v, tc) = judge impliedOffsetSec atDaemon (leap_window atDaemon decodedMs s) (rs_continuity s)
      in (admitted v, note_verdict v (iso8601 decodedMs) (s\<lparr>rs_continuity := tc\<rparr>)))"

definition edge_at :: "real option \<Rightarrow> int \<Rightarrow> real" where
  "edge_at exact sample = (case exact of Some x \<Rightarrow> x | None \<Rightarrow> of_int sample)"

definition onClockTime :: "Clocks \<Rightarrow> ClockTimeInfo \<Rightarrow> RadioSource \<Rightarrow> RadioSource" where
  "onClockTime cl t s =
     (if ti_year2 t < 0 \<or> ti_doy t < 1 \<or> ti_hour t < 0 \<or> ti_minute t < 0 then s
      else case src_hostTimeAt (edge_at (ti_lastEdgeSampleExact t) (ti_lastEdgeSample t)) s of
        None \<Rightarrow> s
      | Some edgeHostSec \<Rightarrow>
          let baseMs = utcMsFromFields (ti_year2 t) (ti_doy t) (ti_hour t) (ti_minute t)
          in if \<not> rs_haveFrame s \<or> rs_decoderRate s \<le> 0 then s
             else
               let elapsedSec = llround (of_int (ti_lastEdgeSample t - rs_frameStartSample s) / of_int (rs_decoderRate s));
                   decodedMs = baseMs + elapsedSec * 1000;
                   boundary = leapBoundaryAfter baseMs
               in if 0 < boundary \<and> boundary \<le> decodedMs then s\<lparr>rs_haveAnchor := False\<rparr>
                  else
                    let implied = of_int decodedMs / 1000 - edgeHostSec + sn_delaySec (rs_snap s);
                        (ok, s) = admitDecodedTime implied edgeHostSec decodedMs s
                    in if \<not> ok then s
                       else s\<lparr>rs_anchorEdgeSample := ti_lastEdgeSample t, rs_anchorUtcMs := decodedMs, rs_haveAnchor := True,
                              rs_anchorSetAt := cl_mono cl, rs_lastTimeAt := cl_mono cl,
                              rs_snap := (rs_snap s)\<lparr>sn_lastQuality := clamp (llround (ti_quality t * 100)) 0 100,
                                                     sn_lastDecodedUtc := iso8601 decodedMs\<rparr>\<rparr>)"

definition takeRejectedJumps :: "RadioSource \<Rightarrow> real list \<times> RadioSource" where
  "takeRejectedJumps s = (rs_rejectedJumps s, s\<lparr>rs_rejectedJumps := []\<rparr>)"

definition onClockSecond :: "Clocks \<Rightarrow> ClockSecondInfo \<Rightarrow> RadioSource \<Rightarrow> RadioSource" where
  "onClockSecond cl i s =
     (if \<not> si_edgeMeasured i then s
      else if \<not> si_edgeServable i then s
      else case src_hostTimeAt (edge_at (si_edgeSampleExact i) (si_edgeSample i)) s of
        None \<Rightarrow> s
      | Some hostSec \<Rightarrow>
          if \<not> rs_haveAnchor s then s
          else if si_edgeSample i < rs_anchorEdgeSample s then s
          else if kAnchorMaxAgeSec < cl_mono cl - rs_anchorSetAt s then s\<lparr>rs_haveAnchor := False\<rparr>
          else if rs_decoderRate s \<le> 0 then s
          else
            let elapsed = of_int (si_edgeSample i - rs_anchorEdgeSample s) / of_int (rs_decoderRate s);
                wholeSeconds = llround elapsed
            in if 1 / 4 < \<bar>elapsed - of_int wholeSeconds\<bar> then s
               else
                 let edgeMs = rs_anchorUtcMs s + wholeSeconds * 1000;
                     boundary = leapBoundaryAfter (rs_anchorUtcMs s)
                 in if 0 < boundary \<and> boundary \<le> edgeMs then s\<lparr>rs_haveAnchor := False\<rparr>
                    else let utcSec = of_int (rs_anchorUtcMs s) / 1000 + of_int wholeSeconds;
                             raw = utcSec - hostSec
                         in recomputeOffset cl (addOffsetSample (raw + sn_delaySec (rs_snap s)) hostSec s))"

fun on_event :: "Clocks \<times> ClockEvent \<Rightarrow> RadioSource \<Rightarrow> RadioSource" where
  "on_event (cl, StateChanged st) s = onClockState st s"
| "on_event (cl, OnSecond i) s = onClockSecond cl i s"
| "on_event (cl, OnFrame f) s = onClockFrame cl f s"
| "on_event (cl, OnTime t) s = onClockTime cl t s"

end
