(* ===== verification/Radio_Stream.thy ===== *)
theory Radio_Stream
  imports Radio_Source
begin

text \<open>
  The stream side of a radio source (\<^verbatim>\<open>src/src/Source.cpp\<close>): choosing and starting a decoder, feeding it,
  keeping the sample count in step with the server's time stamps, timing a block by capture or by
  arrival, one audio packet, and the snapshot the selector reads.
\<close>

section \<open>The decoder\<close>

definition resolveLf60 :: "Clocks \<Rightarrow> RadioSource \<Rightarrow> ClockStation \<times> RadioSource" where
  "resolveLf60 cl s =
     (let loc = sn_receiverLocation (rs_snap s)
      in if gp_valid loc then
           (if greatCircleMeters loc msfSite \<le> greatCircleMeters loc wwvbSite then StMsf else StWwvb, s)
         else if rs_lf60 s \<noteq> StUnknown then (rs_lf60 s, s)
         else if rs_descriptionAnswered s then (StWwvb, s)
         else if rs_descriptionTried s then
           let s = (if rs_lf60WaitSince s \<le> 0 then s\<lparr>rs_lf60WaitSince := cl_mono cl\<rparr> else s)
           in (if kLf60DescriptionWaitSec \<le> cl_mono cl - rs_lf60WaitSince s then StWwvb else StUnknown, s)
         else (StUnknown, s))"

definition clear_offsets :: "RadioSource \<Rightarrow> RadioSource" where
  "clear_offsets s = s\<lparr>rs_offsets := of_clear (rs_offsets s)\<rparr>"

text \<open>The rate cannot be decimated evenly: everything the old decoder left behind goes.\<close>

definition refuse_rate :: "int \<Rightarrow> RadioSource \<Rightarrow> RadioSource" where
  "refuse_rate rate s =
     (let s = s\<lparr>rs_decoderRate := rate, rs_rateRefused := True, rs_decoder := None, rs_wwvbFromIq := False,
                rs_samplesWritten := 0, rs_tsHave := False, rs_clock := sc_reset (rs_clock s), rs_capture := cc_reset (rs_capture s),
                rs_haveAnchor := False, rs_iqToAudioDelayModelSec := 0, rs_haveFrame := False, rs_leapFrames := 0\<rparr>
      in clear_offsets (s\<lparr>rs_snap := (rs_snap s)\<lparr>sn_leapPending := False, sn_haveOffset := False, sn_offsetSamples := 0,
           sn_clockFitValid := False, sn_sampleRate := rate, sn_clockState := ''stopped''\<rparr>\<rparr>))"

text \<open>The delay of the two low-pass sections WWVB is taken through from IQ, in seconds.\<close>

definition iq_section_delay :: "int \<Rightarrow> real \<Rightarrow> real" where
  "iq_section_delay rate q =
     (let w0 = 2 * kPi * 900 / of_int rate; c = cos w0; alpha = sin w0 / (2 * q); a0 = 1 + alpha;
          a1 = (-2 * c) / a0; a2 = (1 - alpha) / a0
      in 1 - (a1 + 2 * a2) / (1 + a1 + a2))"

definition iqToAudioDelaySec :: "int \<Rightarrow> real" where
  "iqToAudioDelaySec rate =
     (iq_section_delay rate (54119610014619698 / 10 ^ 17) + iq_section_delay rate (13065629648763766 / 10 ^ 16)) / of_int rate"

definition decoder_for :: "Broadcast \<Rightarrow> ClockStation \<Rightarrow> DecoderKind" where
  "decoder_for bc lf60 =
     (if bc = BcAllouis then DkAllouis
      else if bc = BcLf60 \<and> lf60 = StMsf then DkMsf
      else if bc = BcLf60 then DkWwvb
      else if bc = BcDcf77 then DkDcf77
      else if bc = BcWwvb then DkWwvb
      else DkWwv)"

definition start_decoder :: "int \<Rightarrow> RadioSource \<Rightarrow> RadioSource" where
  "start_decoder rate s =
     (let s = s\<lparr>rs_rateRefused := False, rs_wwvbFromIq := False, rs_decoderRate := rate, rs_samplesWritten := 0,
                rs_lastFrameSamples := rate sdiv 50, rs_tsHave := False,
                rs_clock := sc_reset (sc_setSampleRate rate (rs_clock s)),
                rs_capture := cc_reset (cc_setSampleRate rate (rs_capture s)),
                rs_haveAnchor := False, rs_haveFrame := False, rs_leapFrames := 0\<rparr>;
          s = clear_offsets (s\<lparr>rs_snap := (rs_snap s)\<lparr>sn_leapPending := False, sn_sampleRate := rate, sn_clockState := ''nosignal''\<rparr>\<rparr>);
          fromIq = (rs_broadcast s = BcLf60 \<and> rs_lf60 s \<noteq> StMsf)
      in updateDelayModel (s\<lparr>rs_decoder := Some (decoder_for (rs_broadcast s) (rs_lf60 s)), rs_wwvbFromIq := fromIq,
           rs_iqToAudioDelayModelSec := (if fromIq then iqToAudioDelaySec rate else 0)\<rparr>))"

text \<open>Whether a decoder runs at this rate. \<^verbatim>\<open>pinStation\<close> and \<^verbatim>\<open>presetStation\<close> act on the decoder alone.\<close>

definition ensureDecoder :: "Clocks \<Rightarrow> int \<Rightarrow> RadioSource \<Rightarrow> bool \<times> RadioSource" where
  "ensureDecoder cl rate s0 =
     (let (want, s) = (if rs_broadcast s0 = BcLf60 then resolveLf60 cl s0 else (rs_lf60 s0, s0))
      in if rs_broadcast s = BcLf60 \<and> want = StUnknown then (False, s)
         else
           let s = (if rs_broadcast s = BcLf60 \<and> want \<noteq> rs_lf60 s
                    then s\<lparr>rs_snap := (rs_snap s)\<lparr>sn_station := (if want = StMsf then ''msf'' else ''wwvb'')\<rparr>,
                           rs_lf60 := want, rs_decoderRate := 0\<rparr>
                    else s)
           in if rs_decoderRate s = rate \<and> rs_decoder s \<noteq> None then (True, s)
              else if rs_decoderRate s = rate \<and> rs_rateRefused s then (False, s)
              else if rate \<le> 0 \<or> rate smod 200 \<noteq> 0 then (False, refuse_rate rate s)
              else (True, start_decoder rate s))"

section \<open>Feeding\<close>

text \<open>What the decoder gives for one block of samples.\<close>

record DecoderBlock =
  db_clocks :: Clocks
  db_events :: "(Clocks \<times> ClockEvent) list"
  db_diag :: ClockDecoderDiagnostics
  db_station :: ClockStation
  db_consumed :: int

definition station_tag :: "DecoderKind option \<Rightarrow> bool \<Rightarrow> ClockStation \<Rightarrow> string" where
  "station_tag dec fromIq st =
     (case st of
        StWwv \<Rightarrow> ''wwv'' | StWwvh \<Rightarrow> ''wwvh'' | StWwvb \<Rightarrow> ''wwvb'' | StDcf77 \<Rightarrow> ''dcf77'' | StMsf \<Rightarrow> ''msf'' | StAllouis \<Rightarrow> ''allouis''
      | StUnknown \<Rightarrow>
          (if dec = Some DkDcf77 then ''dcf77'' else if dec = Some DkAllouis then ''allouis'' else if dec = Some DkMsf then ''msf''
           else if fromIq then ''wwvb'' else ''unknown''))"

definition note_diagnostics :: "DecoderBlock \<Rightarrow> RadioSource \<Rightarrow> RadioSource" where
  "note_diagnostics blk s =
     (let d = db_diag blk; n = rs_snap s; dec = rs_decoder s;
          n = n\<lparr>sn_toneDetected := dd_toneDetected d, sn_phaseLocked := dd_phaseLocked d, sn_anchored := dd_anchored d,
                sn_framesInWindow := dd_framesInWindow d, sn_windowSize := dd_windowSize d, sn_samplesConsumed := db_consumed blk\<rparr>;
          n = (if dec = Some DkWwv then n\<lparr>sn_tickTiming := dd_tickTiming d\<rparr> else n);
          n = (if dec = Some DkAllouis \<or> dec = Some DkMsf \<or> dec = Some DkDcf77
               then n\<lparr>sn_pmLocked := dd_pmLocked d, sn_timingFromPm := dd_timingFromPm d\<rparr> else n);
          n = n\<lparr>sn_refusal := dd_refusalReason d, sn_station := station_tag dec (rs_wwvbFromIq s) (db_station blk)\<rparr>
      in s\<lparr>rs_snap := n\<rparr>)"

definition note_station :: "DecoderBlock \<Rightarrow> RadioSource \<Rightarrow> RadioSource" where
  "note_station blk s =
     (if rs_decoder s = Some DkWwv then
        (if db_station blk = StUnknown then s\<lparr>rs_stationMemory := StUnknown\<rparr>
         else if dd_phaseLocked (db_diag blk)
         then s\<lparr>rs_stationMemory := db_station blk, rs_stationMemoryAt := cl_mono (db_clocks blk)\<rparr>
         else s)
      else s)"

definition note_timing :: "RadioSource \<Rightarrow> RadioSource" where
  "note_timing s =
     (let n = rs_snap s
      in if rs_timing s = TmCapture then
           s\<lparr>rs_snap := n\<lparr>sn_clockFitValid := 0 < cc_marksCount (rs_capture s), sn_clockResidualSec := 0,
               sn_clockSpanSec := cc_spanSec (rs_capture s), sn_clockPpm := 0, sn_clockSlopeUncSec := 0,
               sn_clockSlopeHeld := False, sn_lastExcessDelaySec := 0\<rparr>\<rparr>
         else
           let f = sc_fit (rs_clock s)
           in s\<lparr>rs_snap := n\<lparr>sn_clockFitValid := cf_valid f, sn_clockResidualSec := cf_residualRms f, sn_clockSpanSec := cf_spanSec f,
                  sn_clockPpm := (if cf_valid f \<and> 0 < rs_decoderRate s
                                  then (cf_secPerSample f * of_int (rs_decoderRate s) - 1) * 10 ^ 6 else 0),
                  sn_clockSlopeUncSec := cf_slopeUncertaintySec f, sn_clockSlopeHeld := cf_slopeHeld f,
                  sn_lastExcessDelaySec := lastExcessDelay (rs_clock s)\<rparr>\<rparr>)"

definition feedSamples :: "int \<Rightarrow> int \<Rightarrow> real \<Rightarrow> bool \<Rightarrow> DecoderBlock \<Rightarrow> RadioSource \<Rightarrow> RadioSource" where
  "feedSamples count rate arrivalSec observeArrival blk s0 =
     (if count \<le> 0 then s0
      else
        let (ok, s) = ensureDecoder (db_clocks blk) rate s0
        in if \<not> ok then s
           else
             let s = s\<lparr>rs_samplesWritten := rs_samplesWritten s + count\<rparr>;
                 s = (if observeArrival then s\<lparr>rs_clock := observe (rs_samplesWritten s) arrivalSec (rs_clock s)\<rparr> else s);
                 s = fold on_event (db_events blk) s
             in recomputeOffset (db_clocks blk) (updateDelayModel (note_timing (note_diagnostics blk (note_station blk s)))))"

text \<open>A gap is fed in pieces of at most a second; the decoder's answer to the \<open>i\<close>-th is \<open>blk i\<close>.\<close>

function feedSilence :: "int \<Rightarrow> int \<Rightarrow> (nat \<Rightarrow> DecoderBlock) \<Rightarrow> RadioSource \<Rightarrow> RadioSource" where
  "feedSilence count rate blk s =
     (if count \<le> 0 then s
      else let n = min count (max 1 rate)
           in feedSilence (count - n) rate (\<lambda>i. blk (Suc i)) (feedSamples n rate 0 False (blk 0) s))"
  by pat_completeness auto

termination
  by (relation "measure (\<lambda>(count, rate, blk, s). nat count)") auto

lemmas [simp del] = feedSilence.simps

section \<open>The timeline\<close>

definition discardTiming :: "RadioSource \<Rightarrow> RadioSource" where
  "discardTiming s =
     clear_offsets (s\<lparr>rs_clock := sc_reset (rs_clock s), rs_capture := cc_reset (rs_capture s), rs_haveAnchor := False,
       rs_snap := (rs_snap s)\<lparr>sn_haveOffset := False, sn_offsetSamples := 0, sn_clockFitValid := False\<rparr>\<rparr>)"

definition kBlockSec :: real where "kBlockSec = 1"
definition kMaxFillSec :: real where "kMaxFillSec = 3 / 2"
definition kMaxBackStepSec :: real where "kMaxBackStepSec = 1 / 10"

text \<open>How far a stamp is ahead of the sample count, against the origin.\<close>

definition driftOf :: "int \<Rightarrow> 64 word \<Rightarrow> RadioSource \<Rightarrow> real" where
  "driftOf rate ts s =
     of_int (sint (ts - rs_tsOriginNanos s)) * (1 / 10 ^ 9) - of_int (rs_samplesWritten s - rs_tsOriginSample s) / of_int rate"

text \<open>The end of a block of stamps: its minimum against the baseline.\<close>

definition close_block :: "int \<Rightarrow> (nat \<Rightarrow> DecoderBlock) \<Rightarrow> RadioSource \<Rightarrow> RadioSource" where
  "close_block rate sil s =
     (let step = rs_tsBlockMin s - rs_tsBaseline s;
          frameSec = of_int (rs_lastFrameSamples s) / of_int rate;
          reanchor = (rs_timing s = TmCapture \<and> frameSec * (1 / 2) < step
                      \<and> kCaptureFrameToleranceSec < \<bar>step - of_int (llround (step / frameSec)) * frameSec\<bar>);
          blockMin = rs_tsBlockMin s
      in if reanchor \<and> step \<le> kMaxFillSec then s\<lparr>rs_tsBaseline := blockMin, rs_tsBlockHave := False\<rparr>
         else if frameSec * (1 / 2) < step \<and> step \<le> kMaxFillSec then
           let fill = llround (step / frameSec) * rs_lastFrameSamples s;
               s = (if 0 < fill then feedSilence fill rate sil (s\<lparr>rs_gapFills := rs_gapFills s + 1\<rparr>) else s)
           in s\<lparr>rs_tsBaseline := blockMin - of_int fill / of_int rate, rs_tsBlockHave := False\<rparr>
         else if kMaxFillSec < step \<or> step < - kMaxBackStepSec
         then (discardTiming s)\<lparr>rs_tsBaseline := blockMin, rs_tsBlockHave := False\<rparr>
         else s\<lparr>rs_tsBaseline := blockMin, rs_tsBlockHave := False\<rparr>)"

definition trackTimeline :: "64 word \<Rightarrow> int \<Rightarrow> int \<Rightarrow> (nat \<Rightarrow> DecoderBlock) \<Rightarrow> RadioSource \<Rightarrow> RadioSource" where
  "trackTimeline timestampNanos rate frameSamples sil s0 =
     (if rate \<le> 0 \<or> rate \<noteq> rs_decoderRate s0 then s0\<lparr>rs_tsHave := False\<rparr>
      else if timestampNanos = 0 then s0
      else
        let s = (if 0 < frameSamples then s0\<lparr>rs_lastFrameSamples := frameSamples\<rparr> else s0);
            s = (if rs_lastFrameSamples s \<le> 0 then s\<lparr>rs_lastFrameSamples := rate sdiv 50\<rparr> else s);
            s = (if \<not> rs_tsHave s
                 then s\<lparr>rs_tsHave := True, rs_tsOriginNanos := timestampNanos, rs_tsOriginSample := rs_samplesWritten s,
                        rs_tsBaseline := 0, rs_tsBlockHave := False\<rparr>
                 else s);
            s = (if rs_tsBlockHave s \<and> trunc (kBlockSec * 10 ^ 9) \<le> sint (timestampNanos - rs_tsBlockStartNanos s)
                 then close_block rate sil s else s);
            d = driftOf rate timestampNanos s
        in if \<not> rs_tsBlockHave s
           then s\<lparr>rs_tsBlockHave := True, rs_tsBlockStartNanos := timestampNanos, rs_tsBlockMin := d\<rparr>
           else s\<lparr>rs_tsBlockMin := min (rs_tsBlockMin s) d\<rparr>)"

section \<open>Capture or arrival\<close>

definition setTiming :: "TimingMode \<Rightarrow> RadioSource \<Rightarrow> RadioSource" where
  "setTiming mode s0 =
     (let changed = (mode \<noteq> rs_timing s0); wasDecided = (rs_timing s0 \<noteq> TmPending);
          s = s0\<lparr>rs_timing := mode\<rparr>;
          s = (if changed \<and> wasDecided then discardTiming s else s);
          s = (if changed then s\<lparr>rs_capture := cc_reset (rs_capture s), rs_captureTrusted := True\<rparr> else s);
          n = (rs_snap s)\<lparr>sn_timingMode := mode\<rparr>;
          n = (if mode \<noteq> TmCapture then n\<lparr>sn_capturePaused := False\<rparr> else n)
      in updateDelayModel (s\<lparr>rs_snap := n\<rparr>))"

text \<open>The receiver names the clock of its stamps; \<open>hostId\<close> is this host's (\<^verbatim>\<open>hostClockId\<close>).\<close>

definition onServerClockId :: "string \<Rightarrow> string \<Rightarrow> RadioSource \<Rightarrow> RadioSource" where
  "onServerClockId hostId clockId s =
     (if \<not> cfg_captureTiming (rs_cfg s) then setTiming TmArrival s
      else if clockId = '''' then setTiming TmArrival s
      else if hostId = '''' then setTiming TmArrival s
      else if clockId \<noteq> hostId then setTiming TmArrival s
      else setTiming TmCapture s)"

definition capture_instant :: "64 word \<Rightarrow> real \<Rightarrow> real" where
  "capture_instant stampNanos dmrSec =
     of_int (uint stampNanos div 1000000000) + of_int (uint stampNanos mod 1000000000) * (1 / 10 ^ 9) + dmrSec"

definition timeBlock :: "Clocks \<Rightarrow> 64 word \<Rightarrow> int \<Rightarrow> real \<Rightarrow> real \<Rightarrow> RadioSource \<Rightarrow> bool \<times> RadioSource" where
  "timeBlock cl stampNanos rate arrivalSec dmrSec s0 =
     (case rs_timing s0 of
        TmArrival \<Rightarrow> (True, s0)
      | TmPending \<Rightarrow>
          (False, if rs_timingPendingSince s0 \<le> 0 then s0\<lparr>rs_timingPendingSince := cl_mono cl\<rparr>
                  else if kTimingPendingSec < cl_mono cl - rs_timingPendingSince s0 then setTiming TmArrival s0
                  else s0)
      | TmCapture \<Rightarrow>
          let slew = sg_sample arrivalSec dmrSec (rs_slew s0);
              trusted = fst (steady arrivalSec slew);
              s = s0\<lparr>rs_slew := slew, rs_captureTrusted := trusted\<rparr>;
              capture = capture_instant stampNanos dmrSec;
              lag = arrivalSec - capture;
              usable = (trusted \<and> stampNanos \<noteq> 0 \<and> 0 < rate \<and> 0 < lag \<and> lag < kMaxCaptureLagSec);
              s = (if usable then s\<lparr>rs_capture := cc_observe (rs_samplesWritten s) capture (rs_capture s)\<rparr> else s);
              n = (rs_snap s)\<lparr>sn_capturePaused := \<not> trusted, sn_hostSlewPpm := sg_deviationPpm slew\<rparr>;
              n = (if usable then n\<lparr>sn_captureLagSec := lag\<rparr> else n\<lparr>sn_captureUntimed := sn_captureUntimed n + 1\<rparr>)
          in (False, s\<lparr>rs_snap := n\<rparr>))"

section \<open>One packet\<close>

record PcmHeader =
  ph_timestampNanos :: "64 word"
  ph_sampleRate :: int
  ph_sampleCount :: int
  ph_channels :: int

text \<open>What the packet decoder made of it: decoded, failed with the header it read, or no such frame.\<close>

datatype PcmFrame = PcmDecoded PcmHeader | PcmFailed PcmHeader | PcmOldVersion | PcmNotAudio

definition channels :: "RadioSource \<Rightarrow> int" where
  "channels s = (if isIqBroadcast (rs_broadcast s) then 2 else 1)"

definition concealLost :: "int \<Rightarrow> (nat \<Rightarrow> DecoderBlock) \<Rightarrow> RadioSource \<Rightarrow> RadioSource" where
  "concealLost frameSamples sil s =
     (if rs_decoderRate s \<le> 0 \<or> rs_samplesWritten s \<le> 0 then s
      else let n = (if 0 < frameSamples then frameSamples else rs_lastFrameSamples s)
           in if n \<le> 0 then s else feedSilence n (rs_decoderRate s) sil s)"

definition count_error :: "RadioSource \<Rightarrow> RadioSource" where
  "count_error s = s\<lparr>rs_snap := (rs_snap s)\<lparr>sn_decodeErrors := sn_decodeErrors (rs_snap s) + 1\<rparr>\<rparr>"

text \<open>
  \<open>gap\<close> and \<open>lost\<close> are the decoder's answers to the silence of the timeline and of a lost packet, \<open>blk\<close>
  its answer to the packet's own samples.
\<close>

definition handleAudio ::
  "Clocks \<Rightarrow> PcmFrame \<Rightarrow> nat \<Rightarrow> real \<Rightarrow> real \<Rightarrow> (nat \<Rightarrow> DecoderBlock) \<Rightarrow> (nat \<Rightarrow> DecoderBlock) \<Rightarrow> DecoderBlock \<Rightarrow> RadioSource \<Rightarrow> RadioSource"
where
  "handleAudio cl pkt len arrivalSec dmrSec gap lost blk s0 =
     (let n = rs_snap s0;
          s = s0\<lparr>rs_snap := n\<lparr>sn_packets := sn_packets n + 1, sn_audioBytes := sn_audioBytes n + len\<rparr>, rs_lastAudioAt := cl_mono cl\<rparr>
      in case pkt of
           PcmFailed h \<Rightarrow>
             let s = count_error s
             in if 0 < ph_sampleCount h \<and> ph_channels h = channels s \<and> ph_sampleRate h = rs_decoderRate s
                then let frames = ph_sampleCount h sdiv ph_channels h
                     in concealLost frames lost (trackTimeline (ph_timestampNanos h) (ph_sampleRate h) frames gap s)
                else concealLost 0 lost (s\<lparr>rs_tsHave := False\<rparr>)
         | PcmDecoded h \<Rightarrow>
             if ph_channels h \<noteq> channels s then count_error s
             else
               let frames = ph_sampleCount h sdiv ph_channels h;
                   (ok, s) = ensureDecoder cl (ph_sampleRate h) s
               in if \<not> ok then s
                  else
                    let s = trackTimeline (ph_timestampNanos h) (ph_sampleRate h) frames gap s;
                        (observeArrival, s) = timeBlock cl (ph_timestampNanos h) (ph_sampleRate h) arrivalSec dmrSec s
                    in feedSamples frames (ph_sampleRate h) arrivalSec observeArrival blk s
         | PcmOldVersion \<Rightarrow> (count_error s)\<lparr>rs_serverTooOld := True\<rparr>
         | PcmNotAudio \<Rightarrow> concealLost 0 lost ((count_error s)\<lparr>rs_tsHave := False\<rparr>))"

definition resetStream :: "RadioSource \<Rightarrow> RadioSource" where
  "resetStream s =
     clear_offsets (s\<lparr>rs_clock := sc_reset (rs_clock s), rs_capture := cc_reset (rs_capture s), rs_timing := TmPending,
       rs_timingPendingSince := 0, rs_captureTrusted := True, rs_samplesWritten := 0, rs_decoderRate := 0,
       rs_rateRefused := False, rs_lastFrameSamples := 0, rs_tsHave := False, rs_decoder := None, rs_wwvbFromIq := False,
       rs_iqToAudioDelayModelSec := 0, rs_haveAnchor := False, rs_haveFrame := False, rs_leapFrames := 0,
       rs_snap := (rs_snap s)\<lparr>sn_timingMode := TmPending, sn_capturePaused := False, sn_leapPending := False,
         sn_haveOffset := False, sn_offsetSamples := 0, sn_clockState := ''stopped'', sn_clockFitValid := False,
         sn_samplesConsumed := 0\<rparr>\<rparr>)"

section \<open>For the selector\<close>

definition src_setSystemRate :: "real \<Rightarrow> real \<Rightarrow> bool \<Rightarrow> RadioSource \<Rightarrow> RadioSource" where
  "src_setSystemRate rateSec uncertaintySec known s =
     s\<lparr>rs_offsets := setRatePrior rateSec uncertaintySec known (rs_offsets s)\<rparr>"

definition src_requestReacquire :: "string \<Rightarrow> RadioSource \<Rightarrow> RadioSource" where
  "src_requestReacquire why s =
     s\<lparr>rs_reacquireWhy := why, rs_snap := (rs_snap s)\<lparr>sn_reacquisitions := sn_reacquisitions (rs_snap s) + 1\<rparr>, rs_reacquire := True\<rparr>"

definition src_setActive :: "bool \<Rightarrow> string \<Rightarrow> RadioSource \<Rightarrow> RadioSource" where
  "src_setActive on why s = s\<lparr>rs_activeReason := why, rs_active := on\<rparr>"

text \<open>
  Why a source is not ready: the texts of \<^verbatim>\<open>notReadyReason\<close> with the figures they print, most
  specific first.
\<close>

datatype NotReady =
    IsReady | DisabledInConfig | HeldActive string | NoAudio LinkState string | NoTick | NoCarrier | NoEdge | NoFrame
  | NoDecode | FramesRefused ClockLockRefusal | VotingStill int int | NotLockedYet | HeldOut TimeCheck | AmOnly | BcdOnly

definition held_out :: "RadioSource \<Rightarrow> bool" where
  "held_out s \<longleftrightarrow> sn_timeCheck (rs_snap s) \<noteq> NoCheck \<and> \<not> rs_haveAnchor s"

definition am_only :: "RadioSource \<Rightarrow> bool" where
  "am_only s \<longleftrightarrow> rs_decoder s = Some DkDcf77 \<and> sn_clockState (rs_snap s) = ''locked'' \<and> \<not> sn_timingFromPm (rs_snap s)"

definition bcd_only :: "RadioSource \<Rightarrow> bool" where
  "bcd_only s \<longleftrightarrow> rs_decoder s = Some DkWwv \<and> sn_clockState (rs_snap s) = ''locked'' \<and> \<not> sn_tickTiming (rs_snap s)"

definition not_ready :: "RadioSource \<Rightarrow> NotReady" where
  "not_ready s =
     (let n = rs_snap s
      in if \<not> sn_enabled n then DisabledInConfig
         else if \<not> rs_active s then HeldActive (rs_activeReason s)
         else if sn_clockState n \<noteq> ''locked'' then
           (if sn_link n \<noteq> Streaming then NoAudio (sn_link n) (sn_linkDetail n)
            else if \<not> sn_toneDetected n then (if rs_broadcast s = BcWwv then NoTick else NoCarrier)
            else if \<not> sn_phaseLocked n then NoEdge
            else if \<not> sn_anchored n then NoFrame
            else if sn_refusal n = Staleness then NoDecode
            else if sn_refusal n \<noteq> NoRefusal then FramesRefused (sn_refusal n)
            else if sn_framesInWindow n < 2 then VotingStill (sn_framesInWindow n) (sn_windowSize n)
            else NotLockedYet)
         else if held_out s then HeldOut (sn_timeCheck n)
         else if am_only s then AmOnly
         else if bcd_only s then BcdOnly
         else IsReady)"

text \<open>\<open>reason\<close> prints one of those texts.\<close>

definition snapshot :: "(NotReady \<Rightarrow> string) \<Rightarrow> Clocks \<Rightarrow> RadioSource \<Rightarrow> RadioSnapshot" where
  "snapshot reason cl s =
     (let n = rs_snap s;
          age = (if of_samples (rs_offsets s) \<noteq> [] then cl_daemon cl - of_newestAt (rs_offsets s) else sn_offsetAgeSec n);
          host = sn_offsetSec n + sn_offsetRate n * (cl_daemon cl - sn_offsetAtSec n) + cl_dmr cl
      in n\<lparr>sn_linkAgeSec := cl_mono cl - rs_linkSince s,
           sn_lastAudioAgeSec := (if 0 < rs_lastAudioAt s then cl_mono cl - rs_lastAudioAt s else 10 ^ 9),
           sn_lastTimeAgeSec := (if 0 < rs_lastTimeAt s then cl_mono cl - rs_lastTimeAt s else 10 ^ 9),
           sn_offsetAgeSec := age, sn_hostOffsetSec := host, sn_rawOffsetSec := host - sn_delaySec n,
           sn_haveOffset := sn_haveOffset n \<and> \<not> kOffsetStaleSec < age,
           sn_kind := Radio, sn_active := rs_active s, sn_activeReason := rs_activeReason s,
           sn_ready := sn_enabled n \<and> rs_active s \<and> sn_clockState n = ''locked'' \<and> \<not> held_out s \<and> \<not> am_only s \<and> \<not> bcd_only s,
           sn_notReadyReason := reason (not_ready s)\<rparr>)"

end
