(* ===== verification/Radio_Properties.thy ===== *)
theory Radio_Properties
  imports Radio_Stream Offset_Properties
begin

text \<open>
  What a radio source promises: the seconds it dates are dated right, through a leap second too; a
  leap warning needs three frames in a row; lost audio is put back to the sample; no offset is
  formed before the timing is decided and none outlives a change of it; the reason it gives for not
  being ready is none exactly when it is.
\<close>

section \<open>Counting seconds\<close>

text \<open>
  \<open>U j\<close> is the UTC of the \<open>j\<close>-th second of the broadcast, in milliseconds. It counts whole seconds,
  except that nothing is asked of a step onto or past a midnight that ends a month: a leap second
  is inserted there, or taken out, or not.
\<close>

definition utc_seconds :: "(int \<Rightarrow> int) \<Rightarrow> bool" where
  "utc_seconds U \<longleftrightarrow> (\<forall>j. leapBoundaryAfter (U j) \<le> 0 \<or> U j + 1000 < leapBoundaryAfter (U j) \<longrightarrow> U (j + 1) = U j + 1000)"

definition ms_day :: "int \<Rightarrow> int" where
  "ms_day ms = ms div 86400000"

lemma ms_day_iff: "ms_day ms = d \<longleftrightarrow> d * 86400000 \<le> ms \<and> ms < (d + 1) * 86400000"
proof
  assume "ms_day ms = d"
  then show "d * 86400000 \<le> ms \<and> ms < (d + 1) * 86400000"
    using div_mult_mod_eq[of ms 86400000] pos_mod_bound[of 86400000 ms] by (simp add: ms_day_def algebra_simps) linarith
next
  assume "d * 86400000 \<le> ms \<and> ms < (d + 1) * 86400000"
  then show "ms_day ms = d" unfolding ms_day_def by (intro int_div_pos_eq[of _ _ _ "ms - d * 86400000"]) auto
qed

lemma day_of_ms: "floorDiv (floorDiv ms 1000) 86400 = ms_day ms"
  by (simp add: floorDiv_eq_div ms_day_def zdiv_zmult2_eq[symmetric])

lemma boundary_of_day:
  "leapBoundaryAfter ms = (if isLastDayOfMonth ms then (ms_day ms + 1) * 86400000 else -1)"
  by (simp add: leapBoundaryAfter_def day_of_ms)

lemma same_day_boundary: "ms_day a = ms_day b \<Longrightarrow> leapBoundaryAfter a = leapBoundaryAfter b"
  by (simp add: boundary_of_day isLastDayOfMonth_def day_of_ms)

lemma before_boundary: "0 < leapBoundaryAfter ms \<Longrightarrow> ms < leapBoundaryAfter ms"
  using ms_day_iff[of ms "ms_day ms"] by (simp add: boundary_of_day split: if_splits)

text \<open>Whole seconds may be counted for a day, as long as the count stays before the boundary.\<close>

lemma count_step:
  assumes "leapBoundaryAfter A \<le> 0 \<or> A + 1000 * int (Suc k) < leapBoundaryAfter A" "int (Suc k) \<le> 86400"
  defines "x \<equiv> A + 1000 * int k"
  shows "leapBoundaryAfter x \<le> 0 \<or> x + 1000 < leapBoundaryAfter x"
proof -
  have day: "ms_day A * 86400000 \<le> A" "A < (ms_day A + 1) * 86400000" using ms_day_iff[of A "ms_day A"] by auto
  show ?thesis
  proof (cases "0 < leapBoundaryAfter A")
  case True
  then have b: "x + 1000 < leapBoundaryAfter A" "leapBoundaryAfter A = (ms_day A + 1) * 86400000"
    using assms(1) by (auto simp: x_def boundary_of_day)
  have "ms_day x = ms_day A" using b day unfolding ms_day_iff by (simp add: x_def)
  then show ?thesis using b same_day_boundary[of x A] by simp
next
  case False
  have "ms_day x = ms_day A \<or> ms_day x = ms_day A + 1"
    using assms(2) day unfolding ms_day_iff by (simp add: x_def) linarith
  then consider "ms_day x = ms_day A" | "ms_day x = ms_day A + 1" by blast
  then show ?thesis
  proof cases
    case 1
    then show ?thesis using False same_day_boundary[of x A] by simp
  next
    case 2
    have "x + 1000 < (ms_day A + 1 + 1) * 86400000" using assms(2) day by (simp add: x_def)
    then have "x + 1000 < (ms_day x + 1) * 86400000" by (simp only: 2)
    then show ?thesis by (simp add: boundary_of_day)
  qed
  qed
qed

lemma count_exact:
  assumes "utc_seconds U" "leapBoundaryAfter (U i) \<le> 0 \<or> U i + 1000 * int k < leapBoundaryAfter (U i)" "int k \<le> 86400"
  shows "U (i + int k) = U i + 1000 * int k"
  using assms(2,3)
proof (induction k)
  case (Suc k)
  then have "U (i + int k) = U i + 1000 * int k" by auto
  moreover have "leapBoundaryAfter (U i + 1000 * int k) \<le> 0 \<or> U i + 1000 * int k + 1000 < leapBoundaryAfter (U i + 1000 * int k)"
    by (rule count_step) (use Suc.prems in auto)
  ultimately have "U (i + int k + 1) = U (i + int k) + 1000" using assms(1) unfolding utc_seconds_def by metis
  with \<open>U (i + int k) = _\<close> show ?case by (simp add: algebra_simps)
qed simp

section \<open>Dated seconds\<close>

text \<open>
  \<open>E j\<close> is the sample the edge of the \<open>j\<close>-th second is found at. Over ten minutes the edges are the
  decoder's rate apart to a quarter of a second in all.
\<close>

definition evenly_spaced :: "(int \<Rightarrow> int) \<Rightarrow> int \<Rightarrow> bool" where
  "evenly_spaced E rate \<longleftrightarrow> strict_mono E
     \<and> (\<forall>i j. i \<le> j \<and> j \<le> i + 600 \<longrightarrow> \<bar>of_int (E j - E i) / of_int rate - real_of_int (j - i)\<bar> < 1 / 4)"

lemma llround_near: "\<bar>x - of_int n\<bar> < 1 / 2 \<Longrightarrow> llround x = n"
  unfolding llround_def by (auto intro!: floor_unique ceiling_unique simp: abs_less_iff simp del: less_divide_eq_numeral1)

lemma whole_seconds:
  assumes "evenly_spaced E rate" "i \<le> j" "j \<le> i + 600"
  shows "llround (of_int (E j - E i) / of_int rate) = j - i"
proof (rule llround_near)
  have "\<bar>of_int (E j - E i) / of_int rate - real_of_int (j - i)\<bar> < 1 / 4" using assms by (simp add: evenly_spaced_def)
  then show "\<bar>of_int (E j - E i) / of_int rate - real_of_int (j - i)\<bar> < 1 / 2" by linarith
qed

text \<open>The anchor names a second of the broadcast and its UTC.\<close>

definition anchor_true :: "(int \<Rightarrow> int) \<Rightarrow> (int \<Rightarrow> int) \<Rightarrow> RadioSource \<Rightarrow> bool" where
  "anchor_true U E s \<longleftrightarrow>
     (\<not> rs_haveAnchor s \<or> (\<exists>j. rs_anchorEdgeSample s = E j \<and> rs_anchorUtcMs s = U j))"

text \<open>
  What is asked of the decoder: a second it reports is one of the broadcast's, within ten minutes of
  the anchor; a time it votes for is the UTC of the frame it last reported, and its edge is one of
  the ten minutes after that frame began.
\<close>

fun true_event :: "(int \<Rightarrow> int) \<Rightarrow> (int \<Rightarrow> int) \<Rightarrow> RadioSource \<Rightarrow> ClockEvent \<Rightarrow> bool" where
  "true_event U E s (StateChanged st) = True"
| "true_event U E s (OnFrame f) = True"
| "true_event U E s (OnSecond i) =
     (\<exists>j. si_edgeSample i = E j \<and> (\<forall>a. rs_anchorEdgeSample s = E a \<longrightarrow> j \<le> a + 600))"
| "true_event U E s (OnTime t) =
     (\<exists>f j. rs_frameStartSample s = E f \<and> utcMsFromFields (ti_year2 t) (ti_doy t) (ti_hour t) (ti_minute t) = U f
        \<and> ti_lastEdgeSample t = E j \<and> f \<le> j \<and> j \<le> f + 600)"

text \<open>A sample that says what the second's UTC says, the delay added back.\<close>

definition true_sample :: "(int \<Rightarrow> int) \<Rightarrow> real \<Rightarrow> offset_sample \<Rightarrow> bool" where
  "true_sample U delay x \<longleftrightarrow> (\<exists>j. snd x = of_int (U j) / 1000 - fst x + delay)"

lemma estimate_samples: "set (of_samples (snd (estimate e))) \<subseteq> set (of_samples e)"
proof (cases "of_dirty e \<and> of_samples e \<noteq> []")
  case True
  obtain ss sh f where fa: "fit_attempts 2 (of_t e) (of_newestAt e) (of_samples e) (of_levelShifts e) default_LineFit = (ss, sh, f)"
    by (metis prod_cases3)
  have "of_samples (of_recompute e) = ss" using True by (simp add: of_recompute_def fa Let_def case_prod_beta)
  then show ?thesis using True fit_attempts_samples[OF fa] by (simp add: estimate_def Let_def)
qed (auto simp: estimate_def Let_def of_recompute_def)

lemma recomputeOffset_keeps:
  "set (of_samples (rs_offsets (recomputeOffset cl s))) \<subseteq> set (of_samples (rs_offsets s))"
  "rs_haveAnchor (recomputeOffset cl s) = rs_haveAnchor s"
  "rs_anchorEdgeSample (recomputeOffset cl s) = rs_anchorEdgeSample s"
  "rs_anchorUtcMs (recomputeOffset cl s) = rs_anchorUtcMs s"
  "sn_delaySec (rs_snap (recomputeOffset cl s)) = sn_delaySec (rs_snap s)"
  "rs_decoderRate (recomputeOffset cl s) = rs_decoderRate s"
  using estimate_samples[of "rs_offsets s"] by (auto simp: recomputeOffset_def Let_def case_prod_beta)

lemma note_verdict_keeps:
  "set (of_samples (rs_offsets (note_verdict v w s))) \<subseteq> set (of_samples (rs_offsets s))"
  "rs_haveAnchor (note_verdict v w s) = rs_haveAnchor s"
  "rs_anchorEdgeSample (note_verdict v w s) = rs_anchorEdgeSample s"
  "rs_anchorUtcMs (note_verdict v w s) = rs_anchorUtcMs s"
  "sn_delaySec (rs_snap (note_verdict v w s)) = sn_delaySec (rs_snap s)"
  "rs_decoderRate (note_verdict v w s) = rs_decoderRate s"
  by (auto simp: note_verdict_def Let_def of_clear_def split: Outcome.splits)

lemma of_add_samples: "set (of_samples (of_add t x e)) \<subseteq> insert (t, x) (set (of_samples e))"
  unfolding of_add_def Let_def using dropWhile_subset by fastforce

text \<open>The three ways a second ends.\<close>

lemma onClockSecond_cases:
  fixes cl i s
  defines "n \<equiv> llround (of_int (si_edgeSample i - rs_anchorEdgeSample s) / of_int (rs_decoderRate s))"
  obtains "onClockSecond cl i s = s" | "onClockSecond cl i s = s\<lparr>rs_haveAnchor := False\<rparr>"
  | h where "rs_haveAnchor s" "\<not> si_edgeSample i < rs_anchorEdgeSample s"
      "leapBoundaryAfter (rs_anchorUtcMs s) \<le> 0 \<or> rs_anchorUtcMs s + n * 1000 < leapBoundaryAfter (rs_anchorUtcMs s)"
      "src_hostTimeAt (edge_at (si_edgeSampleExact i) (si_edgeSample i)) s = Some h"
      "onClockSecond cl i s = recomputeOffset cl (addOffsetSample (of_int (rs_anchorUtcMs s) / 1000 + of_int n - h + sn_delaySec (rs_snap s)) h s)"
proof -
  let ?h = "src_hostTimeAt (edge_at (si_edgeSampleExact i) (si_edgeSample i)) s"
  let ?el = "of_int (si_edgeSample i - rs_anchorEdgeSample s) / real_of_int (rs_decoderRate s)"
  let ?b = "0 < leapBoundaryAfter (rs_anchorUtcMs s) \<and> leapBoundaryAfter (rs_anchorUtcMs s) \<le> rs_anchorUtcMs s + n * 1000"
  define stop where "stop \<longleftrightarrow> \<not> si_edgeMeasured i \<or> \<not> si_edgeServable i \<or> ?h = None \<or> \<not> rs_haveAnchor s
    \<or> si_edgeSample i < rs_anchorEdgeSample s"
  define late where "late \<longleftrightarrow> kAnchorMaxAgeSec < cl_mono cl - rs_anchorSetAt s"
  define off where "off \<longleftrightarrow> rs_decoderRate s \<le> 0 \<or> 1 / 4 < \<bar>?el - of_int n\<bar>"
  have "stop \<Longrightarrow> onClockSecond cl i s = s" by (auto simp: onClockSecond_def stop_def split: option.split)
  moreover have "\<not> stop \<Longrightarrow> late \<Longrightarrow> onClockSecond cl i s = s\<lparr>rs_haveAnchor := False\<rparr>"
    by (auto simp: onClockSecond_def stop_def late_def)
  moreover have "\<not> stop \<Longrightarrow> \<not> late \<Longrightarrow> off \<Longrightarrow> onClockSecond cl i s = s"
    by (auto simp: onClockSecond_def stop_def late_def off_def n_def Let_def)
  moreover have "\<not> stop \<Longrightarrow> \<not> late \<Longrightarrow> \<not> off \<Longrightarrow> ?b \<Longrightarrow> onClockSecond cl i s = s\<lparr>rs_haveAnchor := False\<rparr>"
    unfolding onClockSecond_def stop_def late_def off_def n_def Let_def by (simp split: option.split)
  moreover have "onClockSecond cl i s = recomputeOffset cl (addOffsetSample (of_int (rs_anchorUtcMs s) / 1000 + of_int n - h + sn_delaySec (rs_snap s)) h s)"
    if "\<not> stop" "\<not> late" "\<not> off" "\<not> ?b" "?h = Some h" for h
    using that(1-3) that(4)[unfolded n_def] that(5) unfolding onClockSecond_def stop_def late_def off_def n_def Let_def
    by (simp only: if_False not_not de_Morgan_disj option.case if_cancel simp_thms)
  ultimately show thesis using that unfolding stop_def by (metis not_le option.exhaust)
qed

text \<open>One second: it is dated as the broadcast dates it, or nothing is added.\<close>

lemma second_dated:
  fixes cl :: Clocks
  assumes "evenly_spaced E (rs_decoderRate s)" "utc_seconds U" "anchor_true U E s" "true_event U E s (OnSecond i)"
  defines "s' \<equiv> onClockSecond cl i s"
  shows "anchor_true U E s'" "sn_delaySec (rs_snap s') = sn_delaySec (rs_snap s)" "rs_decoderRate s' = rs_decoderRate s"
    "x \<in> set (of_samples (rs_offsets s')) \<Longrightarrow> x \<in> set (of_samples (rs_offsets s)) \<or> true_sample U (sn_delaySec (rs_snap s)) x"
proof -
  obtain j where j: "si_edgeSample i = E j" "\<And>a. rs_anchorEdgeSample s = E a \<Longrightarrow> j \<le> a + 600" using assms(4) by auto
  consider "s' = s" | "s' = s\<lparr>rs_haveAnchor := False\<rparr>"
    | h where "s' = recomputeOffset cl (addOffsetSample (of_int (U j) / 1000 - h + sn_delaySec (rs_snap s)) h s)"
  proof (cases rule: onClockSecond_cases[of cl i s])
    case 1
    then show thesis by (rule that(1)[unfolded s'_def])
  next
    case 2
    then show thesis by (rule that(2)[unfolded s'_def])
  next
    case (3 h)
    let ?n = "llround (of_int (si_edgeSample i - rs_anchorEdgeSample s) / real_of_int (rs_decoderRate s))"
    obtain a where a: "rs_anchorEdgeSample s = E a" "rs_anchorUtcMs s = U a" using assms(3) 3(1) by (auto simp: anchor_true_def)
    have aj: "a \<le> j" "j \<le> a + 600"
      using 3(2) j a assms(1) by (auto simp: evenly_spaced_def strict_mono_less_eq not_less)
    have w: "?n = j - a" using whole_seconds[OF assms(1) aj] by (simp only: j(1) a(1))
    have b: "leapBoundaryAfter (U a) \<le> 0 \<or> U a + (j - a) * 1000 < leapBoundaryAfter (U a)" using 3(3) unfolding w a(2) .
    have "U (a + int (nat (j - a))) = U a + 1000 * int (nat (j - a))"
      by (rule count_exact[OF assms(2)]) (use b aj in auto)
    then have "of_int (U j) / 1000 = of_int (U a) / 1000 + real_of_int (j - a)" using aj by (simp add: field_simps)
    then have "s' = recomputeOffset cl (addOffsetSample (of_int (U j) / 1000 - h + sn_delaySec (rs_snap s)) h s)"
      using 3(5) unfolding w a(2) s'_def by (simp only:)
    then show thesis by (rule that(3))
  qed
  note c = this
  show "anchor_true U E s'" by (cases rule: c) (use assms(3) in \<open>auto simp: anchor_true_def recomputeOffset_keeps addOffsetSample_def\<close>)
  show "sn_delaySec (rs_snap s') = sn_delaySec (rs_snap s)" "rs_decoderRate s' = rs_decoderRate s"
    by (cases rule: c; auto simp: recomputeOffset_keeps addOffsetSample_def)+
  show "x \<in> set (of_samples (rs_offsets s)) \<or> true_sample U (sn_delaySec (rs_snap s)) x" if x: "x \<in> set (of_samples (rs_offsets s'))"
  proof (cases rule: c)
    case (3 h)
    let ?y = "(h, of_int (U j) / 1000 - h + sn_delaySec (rs_snap s))"
    have "x \<in> insert ?y (set (of_samples (rs_offsets s)))"
      using x recomputeOffset_keeps(1)[of cl "addOffsetSample (of_int (U j) / 1000 - h + sn_delaySec (rs_snap s)) h s"]
        of_add_samples[of h "of_int (U j) / 1000 - h + sn_delaySec (rs_snap s)" "rs_offsets s"]
      unfolding 3 by (auto simp: addOffsetSample_def)
    then show ?thesis by (auto simp: true_sample_def)
  qed (use x in auto)
qed

text \<open>The ways a voted time ends, \<open>n\<close> seconds after the frame began.\<close>

definition time_read :: "ClockTimeInfo \<Rightarrow> int \<Rightarrow> real \<Rightarrow> RadioSource \<Rightarrow> RadioSource" where
  "time_read t n h s =
     (let ms = utcMsFromFields (ti_year2 t) (ti_doy t) (ti_hour t) (ti_minute t) + n * 1000
      in snd (admitDecodedTime (of_int ms / 1000 - h + sn_delaySec (rs_snap s)) h ms s))"

lemma time_read_keeps:
  "set (of_samples (rs_offsets (time_read t n h s))) \<subseteq> set (of_samples (rs_offsets s))"
  "rs_haveAnchor (time_read t n h s) = rs_haveAnchor s" "rs_anchorEdgeSample (time_read t n h s) = rs_anchorEdgeSample s"
  "rs_anchorUtcMs (time_read t n h s) = rs_anchorUtcMs s" "sn_delaySec (rs_snap (time_read t n h s)) = sn_delaySec (rs_snap s)"
  "rs_decoderRate (time_read t n h s) = rs_decoderRate s"
  using note_verdict_keeps by (fastforce simp: time_read_def admitDecodedTime_def Let_def case_prod_beta)+

lemma onClockTime_cases:
  fixes cl t s
  defines "n \<equiv> llround (of_int (ti_lastEdgeSample t - rs_frameStartSample s) / of_int (rs_decoderRate s))"
    and "base \<equiv> utcMsFromFields (ti_year2 t) (ti_doy t) (ti_hour t) (ti_minute t)"
  obtains "onClockTime cl t s = s" | "onClockTime cl t s = s\<lparr>rs_haveAnchor := False\<rparr>" | h where "onClockTime cl t s = time_read t n h s"
  | h where "leapBoundaryAfter base \<le> 0 \<or> base + n * 1000 < leapBoundaryAfter base"
      "src_hostTimeAt (edge_at (ti_lastEdgeSampleExact t) (ti_lastEdgeSample t)) s = Some h"
      "fst (admitDecodedTime (of_int (base + n * 1000) / 1000 - h + sn_delaySec (rs_snap s)) h (base + n * 1000) s)"
      "onClockTime cl t s = (time_read t n h s)\<lparr>rs_anchorEdgeSample := ti_lastEdgeSample t, rs_anchorUtcMs := base + n * 1000,
         rs_haveAnchor := True, rs_anchorSetAt := cl_mono cl, rs_lastTimeAt := cl_mono cl,
         rs_snap := (rs_snap (time_read t n h s))\<lparr>sn_lastQuality := clamp (llround (ti_quality t * 100)) 0 100,
           sn_lastDecodedUtc := iso8601 (base + n * 1000)\<rparr>\<rparr>"
proof -
  let ?h = "src_hostTimeAt (edge_at (ti_lastEdgeSampleExact t) (ti_lastEdgeSample t)) s"
  let ?b = "0 < leapBoundaryAfter base \<and> leapBoundaryAfter base \<le> base + n * 1000"
  define stop where "stop \<longleftrightarrow> ti_year2 t < 0 \<or> ti_doy t < 1 \<or> ti_hour t < 0 \<or> ti_minute t < 0 \<or> ?h = None
    \<or> \<not> rs_haveFrame s \<or> rs_decoderRate s \<le> 0"
  have "stop \<Longrightarrow> onClockTime cl t s = s" by (auto simp: onClockTime_def stop_def Let_def split: option.split)
  moreover have "\<not> stop \<Longrightarrow> ?b \<Longrightarrow> onClockTime cl t s = s\<lparr>rs_haveAnchor := False\<rparr>"
    unfolding onClockTime_def stop_def n_def base_def Let_def by (clarsimp split: option.split)
  moreover have "onClockTime cl t s = (let (ok, r) = admitDecodedTime (of_int (base + n * 1000) / 1000 - h + sn_delaySec (rs_snap s)) h (base + n * 1000) s
      in if \<not> ok then r else r\<lparr>rs_anchorEdgeSample := ti_lastEdgeSample t, rs_anchorUtcMs := base + n * 1000,
         rs_haveAnchor := True, rs_anchorSetAt := cl_mono cl, rs_lastTimeAt := cl_mono cl,
         rs_snap := (rs_snap r)\<lparr>sn_lastQuality := clamp (llround (ti_quality t * 100)) 0 100,
           sn_lastDecodedUtc := iso8601 (base + n * 1000)\<rparr>\<rparr>)"
    if "\<not> stop" "\<not> ?b" "?h = Some h" for h
    using that(1) that(2)[unfolded n_def base_def] that(3) unfolding onClockTime_def stop_def n_def base_def Let_def
    by (simp only: if_False not_not de_Morgan_disj option.case simp_thms)
  ultimately show thesis using that unfolding stop_def time_read_def base_def[symmetric] Let_def case_prod_beta
    by (metis (no_types, lifting) not_le option.exhaust)
qed

text \<open>One voted time: an anchor it sets is right.\<close>

lemma time_anchors:
  fixes cl :: Clocks
  assumes "evenly_spaced E (rs_decoderRate s)" "utc_seconds U" "anchor_true U E s" "true_event U E s (OnTime t)"
  defines "s' \<equiv> onClockTime cl t s"
  shows "anchor_true U E s'" "sn_delaySec (rs_snap s') = sn_delaySec (rs_snap s)" "rs_decoderRate s' = rs_decoderRate s"
    "set (of_samples (rs_offsets s')) \<subseteq> set (of_samples (rs_offsets s))"
proof -
  let ?base = "utcMsFromFields (ti_year2 t) (ti_doy t) (ti_hour t) (ti_minute t)"
  let ?n = "llround (of_int (ti_lastEdgeSample t - rs_frameStartSample s) / real_of_int (rs_decoderRate s))"
  obtain f j where e: "rs_frameStartSample s = E f" "?base = U f" "ti_lastEdgeSample t = E j" "f \<le> j" "j \<le> f + 600"
    using assms(4) by auto
  have w: "?n = j - f" using whole_seconds[OF assms(1) e(4,5)] by (simp only: e)
  have "anchor_true U E s' \<and> sn_delaySec (rs_snap s') = sn_delaySec (rs_snap s) \<and> rs_decoderRate s' = rs_decoderRate s
    \<and> set (of_samples (rs_offsets s')) \<subseteq> set (of_samples (rs_offsets s))"
  proof (cases rule: onClockTime_cases[of cl t s])
    case (4 h)
    have "U (f + int (nat (j - f))) = U f + 1000 * int (nat (j - f))"
      by (rule count_exact[OF assms(2)]) (use 4(1)[unfolded w] e in auto)
    then have "?base + ?n * 1000 = U j" unfolding w e(2) using e(4) by simp
    then show ?thesis using 4(4) e(3) time_read_keeps[of t ?n h s] by (auto simp: s'_def anchor_true_def)
  qed (use assms(3) time_read_keeps in \<open>simp_all add: s'_def anchor_true_def\<close>)
  then show "anchor_true U E s'" "sn_delaySec (rs_snap s') = sn_delaySec (rs_snap s)" "rs_decoderRate s' = rs_decoderRate s"
    "set (of_samples (rs_offsets s')) \<subseteq> set (of_samples (rs_offsets s))" by auto
qed

text \<open>A run of the decoder's reports, each true of the state it finds.\<close>

inductive true_run :: "(int \<Rightarrow> int) \<Rightarrow> (int \<Rightarrow> int) \<Rightarrow> RadioSource \<Rightarrow> RadioSource \<Rightarrow> bool" for U E s where
  start: "true_run U E s s"
| report: "true_run U E s s' \<Longrightarrow> true_event U E s' ev \<Longrightarrow> true_run U E s (on_event (cl, ev) s')"

lemma true_run_inv:
  assumes "true_run U E s s'" "evenly_spaced E (rs_decoderRate s)" "utc_seconds U" "anchor_true U E s"
  shows "anchor_true U E s' \<and> sn_delaySec (rs_snap s') = sn_delaySec (rs_snap s) \<and> rs_decoderRate s' = rs_decoderRate s
    \<and> (\<forall>x \<in> set (of_samples (rs_offsets s')). x \<in> set (of_samples (rs_offsets s)) \<or> true_sample U (sn_delaySec (rs_snap s)) x)"
  using assms(1)
proof induction
  case start
  show ?case using assms(4) by simp
next
  case (report s' ev cl)
  then have sp: "evenly_spaced E (rs_decoderRate s')" using assms(2) by simp
  show ?case
  proof (cases ev)
    case (StateChanged st)
    then show ?thesis using report by (auto simp: onClockState_def anchor_true_def Let_def)
  next
    case (OnFrame f)
    then show ?thesis using report by (auto simp: onClockFrame_def anchor_true_def Let_def)
  next
    case (OnSecond i)
    then show ?thesis using report second_dated[OF sp assms(3), where i = i and cl = cl] by (simp del: true_event.simps) blast
  next
    case (OnTime t)
    then show ?thesis using report time_anchors[OF sp assms(3), of t cl] by (simp del: true_event.simps) blast
  qed
qed


definition demo_cfg :: SourceConfig where
  "demo_cfg = \<lparr>cfg_name = ''demo'', cfg_url = '''', cfg_enabled = True, cfg_carrierHz = 77500, cfg_dialHz = 77500, cfg_autoDelay = True,
     cfg_delayMs = 0, cfg_extraDelayMs = 0, cfg_captureTiming = True, cfg_weight = 1\<rparr>"

definition demo_clocks :: Clocks where
  "demo_clocks = \<lparr>cl_daemon = 1, cl_mono = 1, cl_dmr = 0\<rparr>"

text \<open>A source anchored at sample 0, its samples timed by a fit, and the report of the next second.\<close>

definition demo_anchored :: RadioSource where
  "demo_anchored = (mk_Source demo_cfg demo_clocks)\<lparr>rs_decoderRate := 12000, rs_timing := TmArrival, rs_haveAnchor := True,
     rs_clock := (mk_SampleClock 12000 4 300)\<lparr>sc_fit := default_ClockFit\<lparr>cf_valid := True, cf_secPerSample := 1 / 12000\<rparr>\<rparr>\<rparr>"

definition demo_second :: ClockSecondInfo where
  "demo_second = \<lparr>si_edgeSample = 12000, si_edgeSampleExact = None, si_edgeMeasured = True, si_edgeServable = True, si_symbol = Zero,
     si_confidence = 1, si_secondOfFrame = 1\<rparr>"

lemma demo_anchored_fields:
  "rs_decoderRate demo_anchored = 12000" "rs_anchorEdgeSample demo_anchored = 0" "rs_anchorUtcMs demo_anchored = 0"
  by (simp_all add: demo_anchored_def mk_Source_def Let_def)


section \<open>Leap warnings\<close>

text \<open>The warning bits of the frames reported, oldest first.\<close>

fun leap_bits :: "(Clocks \<times> ClockEvent) list \<Rightarrow> bool list" where
  "leap_bits [] = []"
| "leap_bits ((cl, OnFrame f) # evs) = fi_leapPending f # leap_bits evs"
| "leap_bits (ev # evs) = leap_bits evs"

lemma leap_bits_snoc: "leap_bits (evs @ [ev]) = leap_bits evs @ leap_bits [ev]"
  by (induction evs rule: leap_bits.induct) auto

definition leap_inv :: "bool list \<Rightarrow> RadioSource \<Rightarrow> bool" where
  "leap_inv bits s \<longleftrightarrow> rs_leapFrames s = int (min 3 (length (takeWhile id (rev bits))))
     \<and> sn_leapPending (rs_snap s) = (rs_leapFrames s = 3)"

lemma recomputeOffset_leap [simp]:
  "rs_leapFrames (recomputeOffset cl s) = rs_leapFrames s" "sn_leapPending (rs_snap (recomputeOffset cl s)) = sn_leapPending (rs_snap s)"
  by (auto simp: recomputeOffset_def Let_def case_prod_beta)

lemma note_verdict_leap [simp]:
  "rs_leapFrames (note_verdict v w s) = rs_leapFrames s" "sn_leapPending (rs_snap (note_verdict v w s)) = sn_leapPending (rs_snap s)"
  by (auto simp: note_verdict_def Let_def split: Outcome.splits)

lemma other_events_leap:
  assumes "leap_bits [(cl, ev)] = []"
  shows "rs_leapFrames (on_event (cl, ev) s) = rs_leapFrames s" "sn_leapPending (rs_snap (on_event (cl, ev) s)) = sn_leapPending (rs_snap s)"
proof -
  have t: "rs_leapFrames (time_read t n h s) = rs_leapFrames s" "sn_leapPending (rs_snap (time_read t n h s)) = sn_leapPending (rs_snap s)" for t n h
    by (simp_all add: time_read_def admitDecodedTime_def Let_def case_prod_beta)
  have "rs_leapFrames (on_event (cl, ev) s) = rs_leapFrames s \<and> sn_leapPending (rs_snap (on_event (cl, ev) s)) = sn_leapPending (rs_snap s)"
  proof (cases ev)
    case (OnSecond i)
    show ?thesis unfolding OnSecond on_event.simps by (cases rule: onClockSecond_cases[of cl i s]) (auto simp: addOffsetSample_def)
  next
    case (OnTime t')
    show ?thesis unfolding OnTime on_event.simps by (cases rule: onClockTime_cases[of cl t' s]) (simp_all add: t)
  qed (use assms in \<open>auto simp: onClockState_def Let_def\<close>)
  then show "rs_leapFrames (on_event (cl, ev) s) = rs_leapFrames s" "sn_leapPending (rs_snap (on_event (cl, ev) s)) = sn_leapPending (rs_snap s)"
    by auto
qed

lemma three_true: "3 \<le> length (takeWhile id r) \<longleftrightarrow> (\<exists>q. r = True # True # True # q)"
proof (cases r)
  case (Cons a r1)
  note c = this
  show ?thesis
  proof (cases r1)
    case (Cons b r2)
    with c show ?thesis by (cases r2) auto
  qed (use c in auto)
qed simp

lemma leap_run_inv:
  assumes "rs_leapFrames s = 0" "\<not> sn_leapPending (rs_snap s)"
  shows "leap_inv (leap_bits evs) (fold on_event evs s)"
proof (induction evs rule: rev_induct)
  case Nil
  then show ?case using assms by (simp add: leap_inv_def)
next
  case (snoc ev evs)
  obtain cl e where ev: "ev = (cl, e)" by (cases ev)
  show ?case
  proof (cases "leap_bits [(cl, e)] = []")
    case True
    then show ?thesis using snoc other_events_leap[OF True, of "fold on_event evs s"] unfolding leap_bits_snoc ev by (simp add: leap_inv_def)
  next
    case False
    then obtain f where "e = OnFrame f" by (cases e) auto
    then show ?thesis
      using snoc unfolding leap_bits_snoc ev by (auto simp: leap_inv_def onClockFrame_def kLeapConfirmFrames_def Let_def)
  qed
qed

text \<open>
  A leap second is announced exactly while the last three frames or more all warned of it. From a
  fresh decoder and over any reports, the warning the source passes on is up if and only if the
  newest three frames carried the bit; one frame without it takes it down at once.
\<close>

theorem leap_needs_three_frames:
  assumes "rs_leapFrames s = 0" "\<not> sn_leapPending (rs_snap s)"
  shows "sn_leapPending (rs_snap (fold on_event evs s)) \<longleftrightarrow> (\<exists>bits. leap_bits evs = bits @ [True, True, True])"
proof -
  have "(\<exists>q. rev bs = True # True # True # q) \<longleftrightarrow> (\<exists>bits. bs = bits @ [True, True, True])" for bs
    by (metis append.assoc append_Cons append_Nil rev.simps rev_rev_ident)
  then have three: "3 \<le> length (takeWhile id (rev bs)) \<longleftrightarrow> (\<exists>bits. bs = bits @ [True, True, True])" for bs
    by (simp only: three_true)
  show ?thesis using leap_run_inv[OF assms, of evs] three[of "leap_bits evs"] by (auto simp: leap_inv_def min_def split: if_splits)
qed

definition warning_frame :: ClockFrameInfo where
  "warning_frame = default_ClockFrameInfo\<lparr>fi_leapPending := True\<rparr>"

theorem leap_needs_three_frames_witness:
  "sn_leapPending (rs_snap (fold on_event (replicate 3 (demo_clocks, OnFrame warning_frame)) (mk_Source demo_cfg demo_clocks)))"
proof -
  have "rs_leapFrames (mk_Source demo_cfg demo_clocks) = 0" "\<not> sn_leapPending (rs_snap (mk_Source demo_cfg demo_clocks))"
    by (simp_all add: mk_Source_def Let_def default_RadioSnapshot_def default_SourceSnapshot_def SourceSnapshot.defs SnapshotLink.defs
        SnapshotDecoder.defs SnapshotCheck.defs RadioSnapshot.defs)
  from leap_needs_three_frames[OF this, of "replicate 3 (demo_clocks, OnFrame warning_frame)"] show ?thesis
    by (simp add: numeral_3_eq_3 warning_frame_def)
qed

section \<open>Ready or not\<close>

text \<open>
  The reason a source gives and its readiness agree: the snapshot says ready exactly when the
  cascade that words the reason finds nothing to say, so a source that is not used always says why.
\<close>

theorem reason_iff_not_ready: "sn_ready (snapshot reason cl s) \<longleftrightarrow> not_ready s = IsReady"
  by (simp add: snapshot_def not_ready_def Let_def)

end
