(* ===== verification/Stream_Properties.thy ===== *)
theory Stream_Properties
  imports Radio_Properties
begin

text \<open>
  The sample count and the timing of a stream: audio lost on the way is put back to the sample, and
  offsets of one way of timing never meet those of another.
\<close>

section \<open>Lost audio\<close>

text \<open>What the decoder's reports leave alone.\<close>

definition stream_of :: "RadioSource \<Rightarrow> RadioStream" where
  "stream_of s = RadioStream.truncate s"

lemma stream_of_eq:
  "stream_of s = stream_of s' \<Longrightarrow> rs_samplesWritten s = rs_samplesWritten s'"
  "stream_of s = stream_of s' \<Longrightarrow> rs_decoderRate s = rs_decoderRate s'"
  "stream_of s = stream_of s' \<Longrightarrow> rs_decoder s = rs_decoder s'"
  "stream_of s = stream_of s' \<Longrightarrow> rs_broadcast s = rs_broadcast s'"
  "stream_of s = stream_of s' \<Longrightarrow> rs_lf60 s = rs_lf60 s'"
  by (auto simp: stream_of_def RadioStream.defs)

lemma recomputeOffset_stream [simp]:
  "stream_of (recomputeOffset cl s) = stream_of s"
  "sn_receiverLocation (rs_snap (recomputeOffset cl s)) = sn_receiverLocation (rs_snap s)"
  by (simp_all add: recomputeOffset_def Let_def case_prod_beta stream_of_def RadioStream.defs)

lemma note_verdict_stream [simp]:
  "stream_of (note_verdict v w s) = stream_of s"
  "sn_receiverLocation (rs_snap (note_verdict v w s)) = sn_receiverLocation (rs_snap s)"
  by (auto simp: note_verdict_def Let_def stream_of_def RadioStream.defs split: Outcome.split)

lemma on_event_stream:
  "stream_of (on_event ev s) = stream_of s"
  "sn_receiverLocation (rs_snap (on_event ev s)) = sn_receiverLocation (rs_snap s)"
proof -
  have t: "stream_of (time_read t n h s) = stream_of s"
    "sn_receiverLocation (rs_snap (time_read t n h s)) = sn_receiverLocation (rs_snap s)" for t n h
    using note_verdict_stream by (simp_all add: time_read_def admitDecodedTime_def Let_def case_prod_beta stream_of_def RadioStream.defs)
  obtain cl e where ev: "ev = (cl, e)" by (cases ev)
  have "stream_of (on_event ev s) = stream_of s \<and> sn_receiverLocation (rs_snap (on_event ev s)) = sn_receiverLocation (rs_snap s)"
  proof (cases e)
    case (OnSecond i)
    show ?thesis unfolding ev OnSecond on_event.simps
      by (cases rule: onClockSecond_cases[of cl i s]) (simp_all add: addOffsetSample_def, simp_all add: stream_of_def RadioStream.defs)
  next
    case (OnTime t')
    show ?thesis unfolding ev OnTime on_event.simps
      by (cases rule: onClockTime_cases[of cl t' s]) (use t in \<open>simp_all add: stream_of_def RadioStream.defs\<close>)
  qed (auto simp: ev onClockState_def onClockFrame_def Let_def stream_of_def RadioStream.defs)
  then show "stream_of (on_event ev s) = stream_of s" "sn_receiverLocation (rs_snap (on_event ev s)) = sn_receiverLocation (rs_snap s)" by auto
qed

text \<open>A decoder that runs at this rate and will go on doing so.\<close>

definition settled :: "RadioSource \<Rightarrow> int \<Rightarrow> bool" where
  "settled s rate \<longleftrightarrow> rs_decoder s \<noteq> None \<and> rs_decoderRate s = rate \<and> 0 < rate
     \<and> (rs_broadcast s \<noteq> BcLf60 \<or> rs_lf60 s \<noteq> StUnknown
        \<and> (let loc = sn_receiverLocation (rs_snap s)
           in \<not> gp_valid loc
              \<or> rs_lf60 s = (if greatCircleMeters loc msfSite \<le> greatCircleMeters loc wwvbSite then StMsf else StWwvb)))"

lemma ensure_settled: "settled s rate \<Longrightarrow> ensureDecoder cl rate s = (True, s)"
  by (auto simp: settled_def ensureDecoder_def resolveLf60_def Let_def)

text \<open>What the timeline is measured by, apart from the sample count.\<close>

definition line_of :: "RadioSource \<Rightarrow> 64 word \<times> int \<times> bool \<times> int \<times> real \<times> TimingMode" where
  "line_of s = (rs_tsOriginNanos s, rs_tsOriginSample s, rs_tsHave s, rs_lastFrameSamples s, rs_tsBlockMin s, rs_timing s)"

definition keeps_line :: "RadioSource \<Rightarrow> RadioSource \<Rightarrow> bool" where
  "keeps_line s s' \<longleftrightarrow> line_of s' = line_of s \<and> rs_samplesWritten s' = rs_samplesWritten s \<and> rs_decoder s' = rs_decoder s
     \<and> rs_decoderRate s' = rs_decoderRate s \<and> rs_broadcast s' = rs_broadcast s \<and> rs_lf60 s' = rs_lf60 s
     \<and> sn_receiverLocation (rs_snap s') = sn_receiverLocation (rs_snap s)"

lemma keeps_line_refl [simp]: "keeps_line s s"
  by (simp add: keeps_line_def)

lemma keeps_line_trans: "keeps_line s s' \<Longrightarrow> keeps_line s' s'' \<Longrightarrow> keeps_line s s''"
  by (simp add: keeps_line_def)

lemma settled_keeps: "keeps_line s s' \<Longrightarrow> settled s rate \<Longrightarrow> settled s' rate"
  by (simp add: keeps_line_def settled_def)

lemma timing_kept [simp]:
  "rs_timing (recomputeOffset cl s) = rs_timing s" "rs_timing (note_verdict v w s) = rs_timing s"
  by (auto simp: recomputeOffset_def note_verdict_def Let_def case_prod_beta split: Outcome.split)

lemma on_event_timing: "rs_timing (on_event ev s) = rs_timing s"
proof -
  obtain cl e where ev: "ev = (cl, e)" by (cases ev)
  show ?thesis
  proof (cases e)
    case (OnSecond i)
    show ?thesis unfolding ev OnSecond on_event.simps by (cases rule: onClockSecond_cases[of cl i s]) (simp_all add: addOffsetSample_def)
  next
    case (OnTime t')
    show ?thesis unfolding ev OnTime on_event.simps
      by (cases rule: onClockTime_cases[of cl t' s]) (simp_all add: time_read_def admitDecodedTime_def Let_def case_prod_beta)
  qed (auto simp: ev onClockState_def onClockFrame_def Let_def)
qed

lemma keeps_line_stream:
  assumes "stream_of s' = stream_of s" "sn_receiverLocation (rs_snap s') = sn_receiverLocation (rs_snap s)" "rs_timing s' = rs_timing s"
  shows "keeps_line s s'"
  using assms by (auto simp: stream_of_def RadioStream.defs keeps_line_def line_of_def)

lemma events_keep_line: "keeps_line s (fold on_event evs s)"
proof (induction evs arbitrary: s)
  case (Cons ev evs)
  have "keeps_line s (on_event ev s)" by (rule keeps_line_stream) (simp_all add: on_event_stream on_event_timing)
  then show ?case using Cons[of "on_event ev s"] by (auto intro: keeps_line_trans)
qed simp

lemma updates_keep_line:
  "keeps_line s (updateDelayModel s)" "keeps_line s (recomputeOffset cl s)" "keeps_line s (note_timing s)"
  "keeps_line s (note_diagnostics blk s)" "keeps_line s (note_station blk s)"
proof -
  show "keeps_line s (updateDelayModel s)"
    by (cases "transmitter_of (rs_broadcast s) (sn_station (rs_snap s))") (simp add: updateDelayModel_def Let_def keeps_line_def line_of_def)
  show "keeps_line s (recomputeOffset cl s)" by (rule keeps_line_stream) simp_all
  show "keeps_line s (note_timing s)" by (simp add: note_timing_def Let_def keeps_line_def line_of_def)
  show "keeps_line s (note_diagnostics blk s)" by (simp add: note_diagnostics_def Let_def keeps_line_def line_of_def)
  show "keeps_line s (note_station blk s)" by (simp add: note_station_def keeps_line_def line_of_def)
qed

text \<open>A block fed to a settled decoder counts exactly its samples.\<close>

lemma feedSamples_settled:
  assumes "settled s rate" "0 < count"
  shows "keeps_line (s\<lparr>rs_samplesWritten := rs_samplesWritten s + count\<rparr>) (feedSamples count rate t obs blk s)"
proof -
  let ?s1 = "s\<lparr>rs_samplesWritten := rs_samplesWritten s + count\<rparr>"
  let ?s2 = "if obs then ?s1\<lparr>rs_clock := observe (rs_samplesWritten ?s1) t (rs_clock ?s1)\<rparr> else ?s1"
  let ?s3 = "fold on_event (db_events blk) ?s2"
  have e: "feedSamples count rate t obs blk s
      = recomputeOffset (db_clocks blk) (updateDelayModel (note_timing (note_diagnostics blk (note_station blk ?s3))))"
    using assms by (simp add: feedSamples_def ensure_settled Let_def)
  have "keeps_line ?s1 ?s2" by (simp add: keeps_line_def line_of_def)
  then show ?thesis unfolding e
    by (meson keeps_line_trans events_keep_line updates_keep_line)
qed

lemma feedSilence_settled:
  assumes "settled s rate"
  shows "keeps_line (s\<lparr>rs_samplesWritten := rs_samplesWritten s + max 0 count\<rparr>) (feedSilence count rate blk s)"
  using assms
proof (induction count rate blk s rule: feedSilence.induct)
  case (1 count rate blk s)
  show ?case
  proof (cases "count \<le> 0")
    case True
    then show ?thesis by (simp add: feedSilence.simps[of count] keeps_line_def line_of_def)
  next
    case False
    define n where "n = min count (max 1 rate)"
    have n: "0 < n" "n \<le> count" using False by (auto simp: n_def)
    let ?t = "feedSamples n rate 0 False (blk 0) s"
    have k: "keeps_line (s\<lparr>rs_samplesWritten := rs_samplesWritten s + n\<rparr>) ?t" using feedSamples_settled[OF 1(2) n(1)] .
    then have "settled ?t rate" using 1(2) by (auto simp: keeps_line_def settled_def)
    then have "keeps_line (?t\<lparr>rs_samplesWritten := rs_samplesWritten ?t + max 0 (count - n)\<rparr>) (feedSilence (count - n) rate (\<lambda>i. blk (Suc i)) ?t)"
      by (rule 1(1)[OF False n_def])
    moreover have "feedSilence count rate blk s = feedSilence (count - n) rate (\<lambda>i. blk (Suc i)) ?t"
      using False by (simp add: feedSilence.simps[of count] n_def Let_def)
    ultimately show ?thesis using k n False by (simp add: keeps_line_def line_of_def)
  qed
qed

text \<open>
  Audio lost upstream is put back to the sample. When the stamps of a block have moved ahead of
  the count by \<open>k\<close> frames and a remainder under half a frame (under 50 us when timed by capture), and
  that is at most a second and a half, the source feeds the decoder exactly \<open>k\<close> frames of silence, so
  that later stamps read as before the loss; with no frame lost nothing is fed.
\<close>

theorem lost_frames_filled:
  fixes e frame :: real and k :: int and sil :: "nat \<Rightarrow> DecoderBlock"
  assumes "settled s rate" "0 < rs_lastFrameSamples s" "0 \<le> k"
    and "frame = of_int (rs_lastFrameSamples s) / of_int rate" "frame \<le> 1 / 5"
    and "rs_tsBlockMin s = rs_tsBaseline s + of_int k * frame + e" "\<bar>e\<bar> < frame / 2" "of_int k * frame + e \<le> kMaxFillSec"
    and "rs_timing s \<noteq> TmCapture \<or> \<bar>e\<bar> \<le> kCaptureFrameToleranceSec"
  defines "s' \<equiv> close_block rate sil s"
  shows "rs_samplesWritten s' = rs_samplesWritten s + k * rs_lastFrameSamples s \<and> rs_tsBaseline s' = rs_tsBaseline s + e
    \<and> driftOf rate ts s' = driftOf rate ts s - of_int k * frame"
proof -
  have f: "0 < frame" using assms(1,2,4) by (simp add: settled_def)
  define step where "step = rs_tsBlockMin s - rs_tsBaseline s"
  have step: "step = of_int k * frame + e" using assms(6) by (simp add: step_def)
  have "\<bar>step / frame - of_int k\<bar> < 1 / 2" using assms(7) f by (simp add: step field_simps abs_less_iff)
  then have round: "llround (step / frame) = k" by (rule llround_near)
  have no_re: "\<not> (rs_timing s = TmCapture \<and> frame * (1 / 2) < step \<and> kCaptureFrameToleranceSec < \<bar>step - of_int (llround (step / frame)) * frame\<bar>)"
    using assms(9) unfolding round by (auto simp: step)
  have sw: "of_int (k * rs_lastFrameSamples s) / of_int rate = of_int k * frame" by (simp add: assms(4))
  show ?thesis
  proof (cases "k = 0")
    case True
    have "\<not> frame * (1 / 2) < step" "\<not> kMaxFillSec < step" "\<not> step < - kMaxBackStepSec"
      using True assms(5,7,8) by (auto simp: step kMaxBackStepSec_def abs_less_iff)
    then have "s' = s\<lparr>rs_tsBaseline := rs_tsBlockMin s, rs_tsBlockHave := False\<rparr>"
      using no_re unfolding s'_def close_block_def Let_def step_def assms(4)[symmetric] by auto
    then show ?thesis using assms(6) True by (simp add: driftOf_def)
  next
    case False
    then have k: "1 \<le> k" using assms(3) by simp
    then have "1 * frame \<le> of_int k * frame" using f by (intro mult_right_mono) auto
    then have half: "frame * (1 / 2) < step" using assms(7) by (simp add: step abs_less_iff)
    have pos: "0 < k * rs_lastFrameSamples s" using k assms(2) by simp
    let ?fed = "feedSilence (k * rs_lastFrameSamples s) rate sil (s\<lparr>rs_gapFills := rs_gapFills s + 1\<rparr>)"
    have "s' = ?fed\<lparr>rs_tsBaseline := rs_tsBlockMin s - of_int (k * rs_lastFrameSamples s) / of_int rate, rs_tsBlockHave := False\<rparr>"
      using no_re half pos assms(8) step unfolding s'_def close_block_def Let_def step_def[symmetric] assms(4)[symmetric] round by auto
    moreover have "settled (s\<lparr>rs_gapFills := rs_gapFills s + 1\<rparr>) rate" using assms(1) by (simp add: settled_def)
    from feedSilence_settled[OF this, of "k * rs_lastFrameSamples s" sil]
    have "rs_samplesWritten ?fed = rs_samplesWritten s + k * rs_lastFrameSamples s"
      "rs_tsOriginNanos ?fed = rs_tsOriginNanos s" "rs_tsOriginSample ?fed = rs_tsOriginSample s"
      using pos by (simp_all add: keeps_line_def line_of_def)
    ultimately show ?thesis using assms(6) by (simp add: driftOf_def sw[symmetric] add_divide_distrib diff_divide_distrib)
  qed
qed

definition demo_block :: DecoderBlock where
  "demo_block = \<lparr>db_clocks = demo_clocks, db_events = [],
     db_diag = \<lparr>dd_toneDetected = False, dd_phaseLocked = False, dd_anchored = False, dd_framesInWindow = 0, dd_windowSize = 8,
       dd_refusalReason = NoRefusal, dd_pmLocked = False, dd_timingFromPm = False, dd_tickTiming = False\<rparr>,
     db_station = StDcf77, db_consumed = 0\<rparr>"

text \<open>Two frames of 240 samples lost.\<close>

definition demo_gap :: RadioSource where
  "demo_gap = demo_anchored\<lparr>rs_decoder := Some DkDcf77, rs_lastFrameSamples := 240, rs_tsBlockMin := 1 / 25\<rparr>"

theorem lost_frames_filled_witness:
  "rs_samplesWritten (close_block 12000 (\<lambda>i. demo_block) demo_gap) = 480"
proof -
  have "settled demo_gap 12000" "rs_lastFrameSamples demo_gap = 240" "rs_tsBlockMin demo_gap = 1 / 25" "rs_tsBaseline demo_gap = 0"
    "rs_timing demo_gap = TmArrival" "rs_samplesWritten demo_gap = 0"
    by (simp_all add: demo_gap_def settled_def demo_anchored_def mk_Source_def Let_def demo_cfg_def broadcastFor_def kDcf77CarrierHz_def)
  then show ?thesis
    using lost_frames_filled[of demo_gap 12000 2 "1 / 50" 0 "\<lambda>i. demo_block"] by (simp add: kMaxFillSec_def)
qed

section \<open>One way of timing at a time\<close>

text \<open>Nothing measured: no sample and no anchor.\<close>

definition unmeasured :: "RadioSource \<Rightarrow> bool" where
  "unmeasured s \<longleftrightarrow> of_samples (rs_offsets s) = [] \<and> \<not> rs_haveAnchor s"

definition fit_valid :: "RadioSource \<Rightarrow> bool" where
  "fit_valid s \<longleftrightarrow> cf_valid (sc_fit (rs_clock s))"

text \<open>
  The invariant: the fit belongs to arrival timing and the marks to capture timing, and while the
  timing is pending nothing is measured.
\<close>

definition timing_inv :: "RadioSource \<Rightarrow> bool" where
  "timing_inv s \<longleftrightarrow> (rs_timing s = TmArrival \<or> \<not> fit_valid s) \<and> (rs_timing s = TmCapture \<or> cc_marks (rs_capture s) = [])
     \<and> (rs_timing s \<noteq> TmPending \<or> unmeasured s)"

text \<open>What every part of the source but the choice of timing does to it.\<close>

definition same_timing :: "RadioSource \<Rightarrow> RadioSource \<Rightarrow> bool" where
  "same_timing s s' \<longleftrightarrow> rs_timing s' = rs_timing s \<and> (fit_valid s \<or> \<not> fit_valid s')
     \<and> (cc_marks (rs_capture s) \<noteq> [] \<or> cc_marks (rs_capture s') = [])
     \<and> (rs_timing s = TmCapture \<or> fit_valid s \<or> \<not> unmeasured s \<or> unmeasured s')"

lemma same_timing_refl [simp]: "same_timing s s"
  by (simp add: same_timing_def)

lemma same_timing_trans: "same_timing s s' \<Longrightarrow> same_timing s' s'' \<Longrightarrow> same_timing s s''"
  by (auto simp: same_timing_def)

lemma same_timing_inv: "same_timing s s' \<Longrightarrow> timing_inv s \<Longrightarrow> timing_inv s'"
  by (cases "rs_timing s") (auto simp: same_timing_def timing_inv_def)

lemma clocks_kept [simp]:
  "rs_clock (recomputeOffset cl s) = rs_clock s" "rs_capture (recomputeOffset cl s) = rs_capture s"
  "rs_clock (note_verdict v w s) = rs_clock s" "rs_capture (note_verdict v w s) = rs_capture s"
  by (auto simp: recomputeOffset_def note_verdict_def Let_def case_prod_beta split: Outcome.split)

lemma recompute_unmeasured: "unmeasured s \<Longrightarrow> unmeasured (recomputeOffset cl s)"
  using recomputeOffset_keeps[of cl s] by (auto simp: unmeasured_def)

lemma time_read_timing [simp]:
  "rs_clock (time_read t n h s) = rs_clock s" "rs_capture (time_read t n h s) = rs_capture s" "rs_timing (time_read t n h s) = rs_timing s"
  by (simp_all add: time_read_def admitDecodedTime_def Let_def case_prod_beta)

lemma no_host_time: "rs_timing s \<noteq> TmCapture \<Longrightarrow> \<not> fit_valid s \<Longrightarrow> src_hostTimeAt x s = None"
  by (simp add: src_hostTimeAt_def sc_hostTimeAt_def fit_valid_def Let_def)

lemma second_same_timing: "same_timing s (onClockSecond cl i s)"
proof (cases rule: onClockSecond_cases[of cl i s])
  case (3 h)
  then have "rs_timing s = TmCapture \<or> fit_valid s" using no_host_time[of s] by fastforce
  then show ?thesis unfolding 3(5) by (auto simp: same_timing_def fit_valid_def addOffsetSample_def)
qed (simp_all add: same_timing_def fit_valid_def unmeasured_def)

lemma time_same_timing: "same_timing s (onClockTime cl t s)"
proof (cases rule: onClockTime_cases[of cl t s])
  case (3 h)
  show ?thesis unfolding 3 using time_read_keeps(1,2)[of t _ h s] by (auto simp: same_timing_def fit_valid_def unmeasured_def)
next
  case (4 h)
  then have "rs_timing s = TmCapture \<or> fit_valid s" using no_host_time[of s] by fastforce
  then show ?thesis unfolding 4(4) by (auto simp: same_timing_def fit_valid_def)
qed (simp_all add: same_timing_def fit_valid_def unmeasured_def)

lemma report_same_timing: "same_timing s (onClockState st s)" "same_timing s (onClockFrame cl f s)"
  by (simp_all add: onClockState_def onClockFrame_def Let_def same_timing_def fit_valid_def unmeasured_def)

lemma event_same_timing: "same_timing s (on_event ev s)"
proof (cases ev)
  case (Pair cl e)
  then show ?thesis by (cases e) (simp_all add: second_same_timing time_same_timing report_same_timing)
qed

lemma events_same_timing: "same_timing s (fold on_event evs s)"
  by (induction evs arbitrary: s) (auto intro: same_timing_trans event_same_timing)

lemma delay_same_timing [simp]: "same_timing s (updateDelayModel s)"
  by (cases "transmitter_of (rs_broadcast s) (sn_station (rs_snap s))")
    (simp add: updateDelayModel_def Let_def same_timing_def fit_valid_def unmeasured_def)

lemma updates_same_timing:
  "same_timing s (recomputeOffset cl s)" "same_timing s (note_timing s)" "same_timing s (note_diagnostics blk s)" "same_timing s (note_station blk s)"
  using recompute_unmeasured[of s cl]
  by (simp_all add: same_timing_def fit_valid_def note_timing_def note_diagnostics_def note_station_def Let_def) (simp_all add: unmeasured_def)

lemma resolve_same_timing: "same_timing s (snd (resolveLf60 cl s))"
  by (simp add: resolveLf60_def Let_def same_timing_def fit_valid_def unmeasured_def)

lemma cleared [simp]: "of_samples (of_clear e) = []" "cc_marks (cc_reset c) = []" "\<not> cf_valid (sc_fit (sc_reset k))"
  by (simp_all add: of_clear_def cc_reset_def sc_reset_def default_ClockFit_def)

lemma decoder_same_timing: "same_timing s (refuse_rate rate s)" "same_timing s (start_decoder rate s)"
proof -
  show "same_timing s (refuse_rate rate s)"
    by (simp add: refuse_rate_def clear_offsets_def Let_def same_timing_def fit_valid_def unmeasured_def)
  show "same_timing s (start_decoder rate s)" unfolding start_decoder_def Let_def
    by (rule same_timing_trans[OF _ delay_same_timing]) (simp add: clear_offsets_def same_timing_def fit_valid_def unmeasured_def)
qed

lemma choose_one: "snd (if a then (a', r) else if b then (b', q) else if c then (c', q) else if d then (d', u) else (e', v)) \<in> {r, q, u, v}"
  by simp

lemma ensure_same_timing: "same_timing s (snd (ensureDecoder cl rate s))"
proof -
  obtain want r where wr: "(if rs_broadcast s = BcLf60 then resolveLf60 cl s else (rs_lf60 s, s)) = (want, r)" by fastforce
  have r: "same_timing s r" using wr resolve_same_timing[of s cl] by (auto split: if_splits)
  define q where "q = (if rs_broadcast r = BcLf60 \<and> want \<noteq> rs_lf60 r
     then r\<lparr>rs_snap := (rs_snap r)\<lparr>sn_station := (if want = StMsf then ''msf'' else ''wwvb'')\<rparr>, rs_lf60 := want, rs_decoderRate := 0\<rparr> else r)"
  have "same_timing r q" by (simp add: q_def same_timing_def fit_valid_def unmeasured_def)
  then have q: "same_timing s q" using r by (rule same_timing_trans[rotated])
  have "snd (ensureDecoder cl rate s) \<in> {r, q, refuse_rate rate q, start_decoder rate q}"
    unfolding ensureDecoder_def wr Let_def prod.case q_def[symmetric] by (rule choose_one)
  then show ?thesis
    using r q same_timing_trans[OF q decoder_same_timing(1)] same_timing_trans[OF q decoder_same_timing(2)] by (elim insertE emptyE) (simp_all only:)
qed

lemma feed_same_timing:
  assumes "\<not> obs \<or> rs_timing s = TmArrival"
  shows "timing_inv s \<Longrightarrow> timing_inv (feedSamples count rate t obs blk s)"
    "rs_timing (feedSamples count rate t obs blk s) = rs_timing s" "\<not> obs \<Longrightarrow> same_timing s (feedSamples count rate t obs blk s)"
proof -
  obtain ok r where ok: "ensureDecoder (db_clocks blk) rate s = (ok, r)" by fastforce
  have r: "same_timing s r" using ensure_same_timing[of s "db_clocks blk" rate] ok by simp
  define q where "q = r\<lparr>rs_samplesWritten := rs_samplesWritten r + count\<rparr>"
  have q: "same_timing s q" by (rule same_timing_trans[OF r]) (simp add: q_def same_timing_def fit_valid_def unmeasured_def)
  define p where "p = (if obs then q\<lparr>rs_clock := observe (rs_samplesWritten q) t (rs_clock q)\<rparr> else q)"
  have p: "rs_timing p = rs_timing s" "\<not> obs \<Longrightarrow> p = q" "timing_inv s \<Longrightarrow> timing_inv p"
    using q assms same_timing_inv[OF q] by (auto simp: p_def same_timing_def timing_inv_def fit_valid_def unmeasured_def)
  define z where "z = recomputeOffset (db_clocks blk) (updateDelayModel (note_timing (note_diagnostics blk (note_station blk (fold on_event (db_events blk) p)))))"
  have z: "same_timing p z" unfolding z_def
    by (meson same_timing_trans events_same_timing updates_same_timing delay_same_timing)
  have cases: "feedSamples count rate t obs blk s \<in> {s, r, z}"
    unfolding feedSamples_def ok Let_def prod.case q_def[symmetric] p_def[symmetric] z_def[symmetric] by simp
  consider "feedSamples count rate t obs blk s = s" | "feedSamples count rate t obs blk s = r" | "feedSamples count rate t obs blk s = z"
    using cases by blast
  note c = this
  show "timing_inv (feedSamples count rate t obs blk s)" if "timing_inv s"
    by (cases rule: c) (simp_all only: that same_timing_inv[OF r that] same_timing_inv[OF z p(3)[OF that]])
  show "rs_timing (feedSamples count rate t obs blk s) = rs_timing s" by (cases rule: c) (use r z p(1) in \<open>simp_all add: same_timing_def\<close>)
  show "same_timing s (feedSamples count rate t obs blk s)" if "\<not> obs"
    by (cases rule: c) (use r same_timing_trans[OF q z[unfolded p(2)[OF that]]] in \<open>simp_all only: same_timing_refl\<close>)
qed

lemma silence_same_timing: "same_timing s (feedSilence count rate blk s)"
proof (induction count rate blk s rule: feedSilence.induct)
  case (1 count rate blk s)
  show ?case
  proof (cases "count \<le> 0")
    case False
    have "feedSilence count rate blk s = feedSilence (count - min count (max 1 rate)) rate (\<lambda>i. blk (Suc i))
        (feedSamples (min count (max 1 rate)) rate 0 False (blk 0) s)"
      using False by (simp add: feedSilence.simps[of count] Let_def)
    then show ?thesis using 1[OF False refl] feed_same_timing(3)[of False s] same_timing_trans by fastforce
  qed (simp add: feedSilence.simps[of count])
qed

text \<open>A discard leaves nothing behind.\<close>

definition nothing_kept :: "RadioSource \<Rightarrow> bool" where
  "nothing_kept s \<longleftrightarrow> unmeasured s \<and> \<not> fit_valid s \<and> cc_marks (rs_capture s) = []"

lemma discard_nothing: "nothing_kept (discardTiming s)" "rs_timing (discardTiming s) = rs_timing s"
  by (simp_all add: nothing_kept_def unmeasured_def fit_valid_def discardTiming_def clear_offsets_def)

lemma nothing_same_timing: "nothing_kept s' \<Longrightarrow> rs_timing s' = rs_timing s \<Longrightarrow> same_timing s s'"
  by (simp add: nothing_kept_def same_timing_def)

lemma tail_same_timing:
  "same_timing s (s\<lparr>rs_tsBaseline := a, rs_tsBlockHave := b\<rparr>)" "same_timing s (s\<lparr>rs_gapFills := g\<rparr>)" "same_timing s (s\<lparr>rs_tsHave := b\<rparr>)"
  "same_timing s (s\<lparr>rs_lastFrameSamples := f\<rparr>)" "same_timing s (s\<lparr>rs_snap := n\<rparr>)" "same_timing s (s\<lparr>rs_snap := n, rs_lastAudioAt := c\<rparr>)"
  "same_timing s (s\<lparr>rs_serverTooOld := b\<rparr>)" "same_timing s (s\<lparr>rs_tsBlockHave := b, rs_tsBlockStartNanos := o', rs_tsBlockMin := a\<rparr>)"
  "same_timing s (s\<lparr>rs_tsBlockMin := a\<rparr>)" "same_timing s (s\<lparr>rs_timingPendingSince := c\<rparr>)"
  "same_timing s (s\<lparr>rs_tsHave := b, rs_tsOriginNanos := o', rs_tsOriginSample := f, rs_tsBaseline := a, rs_tsBlockHave := b'\<rparr>)"
  by (simp_all add: same_timing_def fit_valid_def unmeasured_def)

lemma close_block_same_timing: "same_timing s (close_block rate sil s)"
proof -
  have d: "same_timing s (discardTiming s)" by (rule nothing_same_timing) (simp_all add: discard_nothing)
  have f: "same_timing s (feedSilence n rate sil (s\<lparr>rs_gapFills := g\<rparr>))" for n g
    by (rule same_timing_trans[OF tail_same_timing(2) silence_same_timing])
  show ?thesis unfolding close_block_def Let_def
    by (auto intro: tail_same_timing(1) same_timing_trans[OF d tail_same_timing(1)] same_timing_trans[OF f tail_same_timing(1)])
qed

lemma if_same_timing: "(c \<Longrightarrow> same_timing s a) \<Longrightarrow> (\<not> c \<Longrightarrow> same_timing s b) \<Longrightarrow> same_timing s (if c then a else b)"
  by simp

lemma timeline_same_timing: "same_timing s (trackTimeline ts rate n sil s)"
  unfolding trackTimeline_def Let_def
  by (intro if_same_timing same_timing_refl tail_same_timing same_timing_trans[OF _ tail_same_timing(8)] same_timing_trans[OF _ tail_same_timing(9)]
      same_timing_trans[OF _ close_block_same_timing] same_timing_trans[OF _ tail_same_timing(11)] same_timing_trans[OF _ tail_same_timing(4)])

lemma conceal_same_timing: "same_timing s (concealLost n sil s)"
  by (auto simp: concealLost_def Let_def silence_same_timing)

text \<open>A change of timing starts from nothing.\<close>

lemma setTiming_changes:
  assumes "timing_inv s" "mode \<noteq> TmPending"
  shows "timing_inv (setTiming mode s)" "rs_timing (setTiming mode s) = mode" "mode \<noteq> rs_timing s \<Longrightarrow> nothing_kept (setTiming mode s)"
proof -
  let ?m = "s\<lparr>rs_timing := mode\<rparr>"
  define a where "a = (if mode \<noteq> rs_timing s \<and> rs_timing s \<noteq> TmPending then discardTiming ?m else ?m)"
  define b where "b = (if mode \<noteq> rs_timing s then a\<lparr>rs_capture := cc_reset (rs_capture a), rs_captureTrusted := True\<rparr> else a)"
  define n where "n = (let n = (rs_snap b)\<lparr>sn_timingMode := mode\<rparr> in if mode \<noteq> TmCapture then n\<lparr>sn_capturePaused := False\<rparr> else n)"
  have e: "setTiming mode s = updateDelayModel (b\<lparr>rs_snap := n\<rparr>)" by (simp add: setTiming_def a_def b_def n_def Let_def)
  have st: "same_timing b (setTiming mode s)" unfolding e by (rule same_timing_trans[OF tail_same_timing(5) delay_same_timing])
  have t: "rs_timing b = mode" by (simp add: b_def a_def discard_nothing)
  then show m: "rs_timing (setTiming mode s) = mode" using st by (simp add: same_timing_def)
  have keep: "nothing_kept b" if "mode \<noteq> rs_timing s"
    using that assms discard_nothing(1)[of ?m]
    by (cases "rs_timing s = TmPending") (auto simp: b_def a_def nothing_kept_def unmeasured_def fit_valid_def timing_inv_def)
  have "nothing_kept b \<Longrightarrow> nothing_kept (setTiming mode s)"
    using st by (simp add: nothing_kept_def unmeasured_def fit_valid_def e updateDelayModel_def Let_def case_prod_beta)
  with keep show n: "nothing_kept (setTiming mode s)" if "mode \<noteq> rs_timing s" using that by blast
  show "timing_inv (setTiming mode s)"
  proof (cases "mode = rs_timing s")
    case True
    then have "b = s" by (simp add: b_def a_def)
    then show ?thesis using st assms(1) same_timing_inv by blast
  next
    case False
    from n[OF this] m assms(2) show ?thesis by (simp add: nothing_kept_def timing_inv_def)
  qed
qed

lemma nothing_kept_same: "same_timing s s' \<Longrightarrow> nothing_kept s \<Longrightarrow> rs_timing s \<noteq> TmCapture \<Longrightarrow> nothing_kept s'"
  by (auto simp: nothing_kept_def same_timing_def)

lemma timeBlock_timing:
  assumes "timing_inv s" "timeBlock cl ts rate t d s = (obs, s')"
  shows "timing_inv s'" "obs \<Longrightarrow> rs_timing s' = TmArrival" "rs_timing s' \<noteq> rs_timing s \<Longrightarrow> nothing_kept s' \<and> rs_timing s' = TmArrival \<and> \<not> obs"
proof -
  have "timing_inv s' \<and> (obs \<longrightarrow> rs_timing s' = TmArrival) \<and> (rs_timing s' \<noteq> rs_timing s \<longrightarrow> nothing_kept s' \<and> rs_timing s' = TmArrival \<and> \<not> obs)"
  proof (cases "rs_timing s")
    case TmPending
    then have "s' = s\<lparr>rs_timingPendingSince := cl_mono cl\<rparr> \<or> s' = setTiming TmArrival s \<or> s' = s" "\<not> obs"
      using assms(2) by (auto simp: timeBlock_def split: if_splits)
    moreover have "timing_inv (s\<lparr>rs_timingPendingSince := cl_mono cl\<rparr>)" by (rule same_timing_inv[OF tail_same_timing(10) assms(1)])
    ultimately show ?thesis using setTiming_changes[OF assms(1), of TmArrival] assms(1) TmPending by auto
  next
    case TmCapture
    then have "rs_timing s' = TmCapture" "rs_clock s' = rs_clock s" "\<not> obs"
      using assms(2) by (auto simp: timeBlock_def Let_def)
    then show ?thesis using assms(1) TmCapture by (simp add: timing_inv_def fit_valid_def)
  qed (use assms in \<open>auto simp: timeBlock_def\<close>)
  then show "timing_inv s'" "obs \<Longrightarrow> rs_timing s' = TmArrival" "rs_timing s' \<noteq> rs_timing s \<Longrightarrow> nothing_kept s' \<and> rs_timing s' = TmArrival \<and> \<not> obs"
    by auto
qed

text \<open>A packet keeps the invariant, and if it settles the timing nothing was measured before.\<close>

definition timing_step :: "RadioSource \<Rightarrow> RadioSource \<Rightarrow> bool" where
  "timing_step s s' \<longleftrightarrow> timing_inv s' \<and> (rs_timing s' = rs_timing s \<or> unmeasured s')"

lemma same_timing_step: "same_timing s s' \<Longrightarrow> timing_inv s \<Longrightarrow> timing_step s s'"
  using same_timing_inv[of s s'] by (auto simp: timing_step_def same_timing_def)

lemma samples_timing_step:
  assumes "timing_inv s"
  shows "timing_step s (let (obs, r) = timeBlock cl ts rate t d s in feedSamples n rate t obs blk r)"
proof -
  obtain obs r where r: "timeBlock cl ts rate t d s = (obs, r)" by fastforce
  note tb = timeBlock_timing[OF assms r]
  have "\<not> obs \<or> rs_timing r = TmArrival" using tb(2) by blast
  note f = feed_same_timing[OF this, where count = n and rate = rate and t = t and blk = blk]
  have "nothing_kept (feedSamples n rate t obs blk r)" if "rs_timing r \<noteq> rs_timing s"
    by (rule nothing_kept_same[OF f(3)]) (use tb(3)[OF that] in auto)
  then show ?thesis using f(1)[OF tb(1)] f(2) unfolding r timing_step_def by (auto simp: nothing_kept_def)
qed

lemma audio_timing_step:
  assumes "timing_inv s0"
  shows "timing_step s0 (handleAudio cl pkt len t d gap lost blk s0)"
proof -
  define s where "s = s0\<lparr>rs_snap := (rs_snap s0)\<lparr>sn_packets := sn_packets (rs_snap s0) + 1, sn_audioBytes := sn_audioBytes (rs_snap s0) + len\<rparr>,
    rs_lastAudioAt := cl_mono cl\<rparr>"
  have s: "same_timing s0 s" unfolding s_def by (rule tail_same_timing(6))
  note ha = handleAudio_def[of cl pkt len t d gap lost blk s0, unfolded Let_def, folded s_def]
  have err: "same_timing s0 (count_error s)" using s unfolding count_error_def by (rule same_timing_trans) (rule tail_same_timing(5))
  note tail = same_timing_trans[OF err tail_same_timing(3)]
  show ?thesis
  proof (cases pkt)
    case (PcmDecoded h)
    show ?thesis
    proof (cases "ph_channels h = channels s")
      case True
      obtain ok r where r: "ensureDecoder cl (ph_sampleRate h) s = (ok, r)" by fastforce
      have sr: "same_timing s0 r" using same_timing_trans[OF s ensure_same_timing[of s cl "ph_sampleRate h"]] r by simp
      let ?n = "ph_sampleCount h sdiv ph_channels h"
      let ?q = "trackTimeline (ph_timestampNanos h) (ph_sampleRate h) ?n gap r"
      have q: "same_timing s0 ?q" by (rule same_timing_trans[OF sr timeline_same_timing])
      have "timing_step ?q (let (obs, z) = timeBlock cl (ph_timestampNanos h) (ph_sampleRate h) t d ?q in feedSamples ?n (ph_sampleRate h) t obs blk z)"
        by (rule samples_timing_step) (rule same_timing_inv[OF q assms])
      then have "timing_step s0 (let (obs, z) = timeBlock cl (ph_timestampNanos h) (ph_sampleRate h) t d ?q in feedSamples ?n (ph_sampleRate h) t obs blk z)"
        using q by (simp add: timing_step_def same_timing_def)
      then show ?thesis using True r same_timing_step[OF sr assms]
        unfolding ha unfolding PcmDecoded by (cases ok) (simp_all add: Let_def)
    qed (use same_timing_step[OF err assms] in \<open>unfold ha, simp add: PcmDecoded\<close>)
  next
    case (PcmFailed h)
    have "same_timing s0 (handleAudio cl pkt len t d gap lost blk s0)"
      unfolding ha unfolding PcmFailed PcmFrame.case
      by (intro if_same_timing same_timing_trans[OF _ conceal_same_timing] same_timing_trans[OF err timeline_same_timing] tail)
    then show ?thesis using assms by (rule same_timing_step)
  next
    case PcmOldVersion
    then show ?thesis using same_timing_step[OF same_timing_trans[OF err tail_same_timing(7)] assms]
      unfolding ha by simp
  next
    case PcmNotAudio
    then show ?thesis using same_timing_step[OF same_timing_trans[OF tail conceal_same_timing] assms]
      unfolding ha by simp
  qed
qed

text \<open>Everything that is asked of a source, from outside and by its own connection.\<close>

datatype SourceCall =
    CallAudio Clocks PcmFrame nat real real "nat \<Rightarrow> DecoderBlock" "nat \<Rightarrow> DecoderBlock" DecoderBlock
  | CallClockId string string
  | CallReset
  | CallProbe "real option"
  | CallPong Clocks
  | CallSystemRate real real bool
  | CallReacquire string
  | CallActive bool string

fun src_call :: "SourceCall \<Rightarrow> RadioSource \<Rightarrow> RadioSource" where
  "src_call (CallAudio cl pkt len t d gap lost blk) s = handleAudio cl pkt len t d gap lost blk s"
| "src_call (CallClockId hostId clockId) s = onServerClockId hostId clockId s"
| "src_call CallReset s = resetStream s"
| "src_call (CallProbe rtt) s = probeRtt rtt s"
| "src_call (CallPong cl) s = onJsonPong cl s"
| "src_call (CallSystemRate r u k) s = src_setSystemRate r u k s"
| "src_call (CallReacquire why) s = src_requestReacquire why s"
| "src_call (CallActive on why) s = src_setActive on why s"

lemma set_timing_step:
  assumes "timing_inv s" "mode \<noteq> TmPending"
  shows "timing_step s (setTiming mode s)"
  using setTiming_changes[OF assms] by (auto simp: timing_step_def nothing_kept_def)

lemma small_same_timing:
  "same_timing s (recordRtt r s)" "same_timing s (onJsonPong cl s)" "same_timing s (src_setSystemRate a b k s)"
  "same_timing s (src_requestReacquire why s)" "same_timing s (src_setActive on why s)"
  by (simp_all add: recordRtt_def onJsonPong_def recordWsRtt_def src_setSystemRate_def src_requestReacquire_def src_setActive_def setRatePrior_def
      Let_def same_timing_def fit_valid_def unmeasured_def)

lemma call_timing_step:
  assumes "timing_inv s"
  shows "timing_step s (src_call c s)"
proof (cases c)
  case (CallClockId hostId clockId)
  then show ?thesis using set_timing_step[OF assms] by (simp add: onServerClockId_def)
next
  case CallReset
  have "nothing_kept (resetStream s)"
    by (simp add: nothing_kept_def unmeasured_def fit_valid_def resetStream_def clear_offsets_def)
  then show ?thesis using CallReset by (simp add: timing_step_def timing_inv_def nothing_kept_def)
next
  case (CallProbe rtt)
  have "same_timing s (probeRtt rtt s)"
    by (cases rtt) (simp_all add: probeRtt_def same_timing_trans[OF small_same_timing(1) delay_same_timing])
  then show ?thesis using CallProbe same_timing_step[OF _ assms] by simp
qed (simp_all add: audio_timing_step[OF assms] same_timing_step[OF small_same_timing(2) assms] same_timing_step[OF small_same_timing(3) assms]
    same_timing_step[OF small_same_timing(4) assms] same_timing_step[OF small_same_timing(5) assms])

lemma new_source_timing: "timing_inv (mk_Source cfg cl)"
  by (simp add: timing_inv_def fit_valid_def unmeasured_def mk_Source_def Let_def mk_SampleClock_def mk_CaptureClock_def default_ClockFit_def mk_OffsetEstimator_def)

lemma reachable_timing: "timing_inv (fold src_call calls (mk_Source cfg cl))"
  by (induction calls rule: rev_induct) (use call_timing_step in \<open>auto simp: new_source_timing timing_step_def\<close>)

text \<open>
  C3: Offsets timed in different ways never meet. Over any calls to a source, in any order and with
  any packets and decoder, nothing is measured while it is undecided which clock the receiver's
  stamps are on, and whenever the timing changes, every sample and the anchor are gone.
\<close>

theorem timing_never_mixed:
  fixes calls cfg cl
  defines "s \<equiv> fold src_call calls (mk_Source cfg cl)"
  shows "(rs_timing s = TmPending \<longrightarrow> unmeasured s) \<and> (rs_timing (src_call c s) \<noteq> rs_timing s \<longrightarrow> unmeasured (src_call c s))"
  using reachable_timing[of calls cfg cl] call_timing_step[of s c] by (auto simp: s_def timing_inv_def timing_step_def)

theorem timing_never_mixed_witness:
  "unmeasured (src_call (CallClockId ''a'' ''a'') (fold src_call [CallReset] (mk_Source demo_cfg demo_clocks)))"
proof -
  let ?s = "fold src_call [CallReset] (mk_Source demo_cfg demo_clocks)"
  have "rs_timing ?s = TmPending" "cfg_captureTiming (rs_cfg ?s)"
    by (simp_all add: resetStream_def clear_offsets_def mk_Source_def Let_def demo_cfg_def)
  moreover have "rs_timing (src_call (CallClockId ''a'' ''a'') ?s) = TmCapture"
    using calculation setTiming_changes(2)[OF reachable_timing[of "[CallReset]" demo_cfg demo_clocks], of TmCapture] by (simp add: onServerClockId_def)
  ultimately show ?thesis using timing_never_mixed[of "[CallReset]" demo_cfg demo_clocks "CallClockId ''a'' ''a''"] by simp
qed

end
