(* ===== verification/Spec2Isabelle.thy ===== *)
theory Spec2Isabelle
  imports Civil_Time Ip_Prefix Rate_Limiter Time_Continuity Client_Tally Selector_Served Selector_Failover Ntp_Server
  Offset_Properties Client_Polls Station_Lock Msf_Minutes Dcf77_States Allouis_Lock Wwvb_Audio
  Lf_Envelope Dcf77_Chips  Sample_Properties Stream_Properties
begin

text \<open>
  Verification of the time daemon of \<^verbatim>\<open>src/src\<close>, which serves NTP from radio time signals and
  upstream NTP servers.

  \<^bold>\<open>The program.\<close> Each \<^emph>\<open>source\<close> measures how far the daemon's own clock, a raw oscillator nobody
  steers, is from UTC. A radio source decodes a broadcast second by second; its decoder's frames
  are voted on (\<^verbatim>\<open>clock/TimeFrameVoter\<close>), a sample index is mapped to the daemon clock
  (\<^verbatim>\<open>SampleClock\<close>), every decoded time is checked against the source's own history
  (\<^verbatim>\<open>TimeContinuity\<close>) and the offsets are filtered (\<^verbatim>\<open>OffsetEstimator\<close>). An upstream source
  polls an NTP server (\<^verbatim>\<open>NtpClient\<close>) and filters its offsets the same way. Each publishes a
  snapshot (\<^verbatim>\<open>SourceSnapshot.h\<close>). The selector (\<^verbatim>\<open>Selector\<close>) judges the snapshots within their
  class, chooses the class that serves, intersects the claimed intervals, combines the
  survivors into one time with its dispersion, and coasts when nothing serves. The server
  (\<^verbatim>\<open>NtpServer\<close>) answers requests from that result, under a rate limit (\<^verbatim>\<open>RateLimiter\<close>) and
  keeping a tally of clients (\<^verbatim>\<open>ClientTally\<close>).

  \<^bold>\<open>Conventions.\<close> A class is a record of its members, a method is a function from the state
  before to its result and the state after, named as in the source (with a prefix where HOL or
  another class has the name). What a method reads from outside, the clocks, a random draw, the
  resolver, the octets a socket gives, whether a send succeeds, is an argument. \<^verbatim>\<open>inet_pton\<close> and
  \<^verbatim>\<open>inet_ntop\<close> are the fields of a parameter with the hypothesis \<open>inet_ok\<close>. Octets and wire
  values are words; the counters and the calendar's integers carry their wrap-around where the
  code relies on it. A \<^verbatim>\<open>double\<close> or \<^verbatim>\<open>float\<close> is a real number: rounding is not modelled, so the
  bounds below are those of the formulas. A NaN the code uses as a value is \<open>None\<close>. Texts for
  people are values of a datatype with the figures they print; log lines are left out. Methods
  run under their object's mutex in the source and are single steps here.

  \<^bold>\<open>The theories.\<close>
  \<^item> \<^verbatim>\<open>Ntp_Prelude\<close>: C++ integer conversions, and lemmas on lists, sums and sorting.
    \<^verbatim>\<open>Median\<close>: the median and its robustness. \<^verbatim>\<open>Capped_Table\<close> and \<^verbatim>\<open>Minute_Ring\<close>: the
    interfaces of the capped client tables and of the sixty-minute counters, each interpreted on
    the two classes that provide it (\<^verbatim>\<open>RateLimiter\<close> and \<^verbatim>\<open>ClientTally\<close>; \<^verbatim>\<open>ClientTally\<close> and \<^verbatim>\<open>NtpServer\<close>).
  \<^item> \<^verbatim>\<open>Civil_Time\<close> (\<^verbatim>\<open>CivilTime.h\<close>): day numbers and dates are inverse to each other, the
    last-day-of-month test, ISO 8601 texts round trip.
  \<^item> \<^verbatim>\<open>Ip_Prefix\<close> (\<^verbatim>\<open>IpPrefix.h\<close>): parsing, masking and matching prefixes, and the labels that
    hide a public client's host bits.
  \<^item> \<^verbatim>\<open>Frame_Voter\<close> (\<^verbatim>\<open>clock/TimeFrameVoter\<close>): the whole class. \<^verbatim>\<open>Station_Frames\<close>: the stations' field maps
    and configurations, and the frame a decoder makes of a decoded minute. \<^verbatim>\<open>Voter_Properties\<close>: the
    calendar, re-encoding, no phantom values, and that the heavier camp wins. \<^verbatim>\<open>Voter_Lock\<close>: what a
    lock certifies and what never locks. \<^verbatim>\<open>Station_Lock\<close>: consecutive minutes lock.
  \<^item> \<^verbatim>\<open>Msf_Decoder\<close> (\<^verbatim>\<open>clock/MsfDecoder\<close>): the decoder above the signal processing, whose readings of a second
    are its argument. \<^verbatim>\<open>Msf_Properties\<close>: the time code read back, one misread bit refused. \<^verbatim>\<open>Msf_Lock\<close>:
    the reachable states. \<^verbatim>\<open>Msf_Minutes\<close>: clear minutes lock it on the right time.
  \<^item> \<^verbatim>\<open>Parity_Code\<close>: the interface of a time code guarded by parity groups, interpreted on the codes of MSF,
    DCF77 and Allouis: one misread bit is refused. \<^verbatim>\<open>Eu_Code\<close>: the code DCF77 and Allouis share, read, and
    predicted for the next minute; the prediction decodes to its minute, summer time is the one in force.
  \<^item> \<^verbatim>\<open>Dcf77_Decoder\<close> and \<^verbatim>\<open>Dcf77_Tracking\<close> (\<^verbatim>\<open>clock/Dcf77Decoder\<close>): the framing of seconds read by two
    demodulators, and the trackers that time them. \<^verbatim>\<open>Dcf77_Hold\<close>: when a phase lock is held through a weak
    stretch, and that nothing bounds the tracked period. \<^verbatim>\<open>Dcf77_States\<close>: the reachable states. \<^verbatim>\<open>Dcf77_Chips\<close>:
    the chips, the correlation from prefix sums and the burst's place; regrouping the sum changes
    nothing, early-late is exact on the correlation's triangle.
  \<^item> \<^verbatim>\<open>Allouis_Decoder\<close> (\<^verbatim>\<open>clock/AllouisDecoder\<close>): seconds that name themselves by a position code, and unread
    bits filled in by the checks. \<^verbatim>\<open>Allouis_Properties\<close>: what is filled in was sent, which bits cost the
    minute, when a second is named. \<^verbatim>\<open>Allouis_Lock\<close>: the reachable states.
  \<^item> \<^verbatim>\<open>Wwvb_Envelope\<close> and \<^verbatim>\<open>Wwvb_Decoder\<close> (\<^verbatim>\<open>clock/WwvbDecoder\<close>): the envelope ring and the search for carrier drops,
    and the decoder driven by it sample by sample. \<^verbatim>\<open>Wwvb_Ring\<close>: the ring is as good as the whole history.
    \<^verbatim>\<open>Wwvb_Properties\<close>: a noisy second is read right. \<^verbatim>\<open>Wwvb_Lock\<close>: the reachable states, leap seconds.
    \<^verbatim>\<open>Wwvb_Audio\<close>: the tone search, the mixer and the filter, which make the decoder whole from the audio up;
    its states over any audio, the filter's delay.
  \<^item> \<^verbatim>\<open>Lf_Envelope\<close>: the same envelope in the DCF77 and MSF decoders. A noisy DCF77 second is read right; MSF's
    first search can read before its ring.
  \<^item> \<^verbatim>\<open>Sample_Clock\<close> (\<^verbatim>\<open>SampleClock\<close>): the line fitted to packet arrivals, the marks of stamped captures and
    the watch on the host clock. \<^verbatim>\<open>Sample_Properties\<close>: late packets leave the fit alone, the nearest
    mark answers, steady means calm for the whole exposure.
  \<^item> \<^verbatim>\<open>Time_Continuity\<close> (\<^verbatim>\<open>TimeContinuity\<close>): runs of judgements; what is admitted, and that a
    real step is.
  \<^item> \<^verbatim>\<open>Offset_Estimator\<close> and \<^verbatim>\<open>Offset_Properties\<close> (\<^verbatim>\<open>OffsetEstimator\<close>): exactness on a clean line,
    robustness of the level, the step search ends, the hold ends and its gap closes.
  \<^item> \<^verbatim>\<open>Propagation\<close> (\<^verbatim>\<open>Propagation\<close>, \<^verbatim>\<open>Uncertainty\<close>): flight times and the doubt in them; hops, causality, what
    earns a tight claim. \<^verbatim>\<open>Clock_Events\<close>: what a decoder reports. \<^verbatim>\<open>Radio_Source\<close> and \<^verbatim>\<open>Radio_Stream\<close>
    (\<^verbatim>\<open>Source\<close>): from a packet and the decoder's reports to the offset. \<^verbatim>\<open>Radio_Properties\<close>: seconds dated
    right, leap warnings. \<^verbatim>\<open>Stream_Properties\<close>: lost audio, and one way of timing at a time.
  \<^item> \<^verbatim>\<open>Source_Snapshot\<close> (\<^verbatim>\<open>SourceSnapshot.h\<close>, parts of \<^verbatim>\<open>Config.h\<close>): the data they exchange.
  \<^item> \<^verbatim>\<open>Marzullo\<close>, \<^verbatim>\<open>Selector_Judge\<close>, \<^verbatim>\<open>Selector\<close> (\<^verbatim>\<open>Selector\<close>): \<^verbatim>\<open>combine\<close> stage by stage, put
    together in \<^verbatim>\<open>Selector.combine\<close>. \<^verbatim>\<open>Selector_Served\<close>: the advertised dispersion covers the true
    offset, served and coasted, and so does a client's root distance; strata and leap seconds.
    \<^verbatim>\<open>Selector_Failover\<close>: the failover latch as a step relation, its hold-downs and progress.
  \<^item> \<^verbatim>\<open>Ntp_Wire\<close> and \<^verbatim>\<open>Ntp_Packet\<close>: wire formats, both directions, with round trips. \<^verbatim>\<open>Rate_Limiter\<close>,
    \<^verbatim>\<open>Client_Tally\<close>, \<^verbatim>\<open>Ntp_Server\<close>: what one datagram does to the server and what is sent back.
  \<^item> \<^verbatim>\<open>Ntp_Client\<close> (\<^verbatim>\<open>NtpClient\<close>): resolving, one poll, the clock filter, one pass of the loop.
    \<^verbatim>\<open>Client_Replies\<close>: which replies are believed and how far. \<^verbatim>\<open>Client_Polls\<close>: promises over many
    polls.
  \<^item> This theory: the client and the server talking to each other.

  \<^bold>\<open>Termination and fuel.\<close> Every function is total with no fuel. The one loop whose end is not
  plain, the estimator's refit after a step, is written as the loop it is and shown to settle
  after its second pass; the era search of \<^verbatim>\<open>fromNtpTime\<close> terminates by its distance to the hint, and the
  loop over the seconds ready in WWVB's envelope by the samples left. The poll's wait for a reply
  runs over the list of what the socket gives before its timeout.

  \<^bold>\<open>Not modelled.\<close> But for WWVB, whose whole chain is here, the decoders' signal processing below a
  second's reading or its envelope (carrier searches, mixers, filters and correlations on
  floating-point samples, whose correctness is statistical); of the WWV
  and WWVH decoder, whose own logic is in how it finds ticks in that processing, all but the field
  maps and the voter configuration; sockets, threads and priorities, TLS, WebSocket and MQTT
  transport, reading the configuration file, log and status texts, JSON, NMEA sentences, the serial
  port and PPS line.
\<close>

section \<open>Client and server together\<close>

lemma request_fields:
  "length (request_packet i p) = 48" "request_packet i p ! 0 = li_vn_mode 0 4 3"
  "peek 40 4 (request_packet i p) = put32 (fst (pi_nonce i))" "peek 44 4 (request_packet i p) = put32 (snd (pi_nonce i))"
  unfolding request_packet_def Let_def by (simp_all add: poke_simps)

lemma request_is_client: "client_request (request_packet i p)"
  using header_fields[of 0 4 3 "[]"] header_nth0[of "request_packet i p" "li_vn_mode 0 4 3"] request_fields(1,2)[of i p]
  by (simp add: client_request_def kPacketSize_def)

lemma peek_split: "peek a (m + n) p = peek a m p @ peek (a + m) n p"
  by (simp add: peek_def take_add add.commute)

text \<open>Whatever this server sends back to this client's request is recognised as the answer to it.\<close>

lemma reply_recognised:
  assumes "serve_one inet c si sv = (Some out, sv')" "in_buf si = request_packet i p"
  shows "echoes (pi_nonce i) (Datagram out t4 approx)"
proof -
  note cases = serve_one_cases[OF assms(1)]
  have len: "kPacketSize \<le> length (in_buf si)" using cases by (simp add: client_request_def)
  have o: "length out = 48" "pkt_mode out = 4" "pkt_version out = pkt_version (in_buf si)" "peek 24 8 out = peek 40 8 (in_buf si)"
    using cases kod_fields(1,4)[OF len] reply_fields(1,8)[OF len] reply_header(2,3)[OF len] kod_header(2,3)[OF len] by auto
  have "pkt_version (in_buf si) = 4"
    using header_fields[of 0 4 3 "[]"] header_nth0[of "request_packet i p" "li_vn_mode 0 4 3"] request_fields(1,2)[of i p] assms(2) by simp
  moreover have "peek 24 4 out @ peek 28 4 out = put32 (fst (pi_nonce i)) @ put32 (snd (pi_nonce i))"
    using o(4) peek_split[of 24 4 4 out] peek_split[of 40 4 4 "in_buf si"] request_fields(3,4)[of i p] assms(2) by simp
  then have "peek 24 4 out = put32 (fst (pi_nonce i))" "peek 28 4 out = put32 (snd (pi_nonce i))"
    using o(1) by (auto simp: append_eq_append_conv peek_def)
  ultimately show ?thesis using o by (simp add: kPacketSize_def read32_put32)
qed

lemma accepted_reply_from_server:
  assumes "serve_one inet c si sv = (Some out, sv')" "handle_reply i out t4 approx q = Ours True err q'"
  shows "out = reply_packet (sv_cfg sv) c (in_precision si) (in_recv si) (in_xmit si) (in_buf si)"
proof (rule ccontr)
  assume "\<not> ?thesis"
  then have k: "out = kod_packet (in_buf si) (in_precision si)" and len: "kPacketSize \<le> length (in_buf si)"
    using serve_one_cases[OF assms(1)] by (auto simp: client_request_def)
  then show False using kod_fields(3)[OF len] handle_reply_accepts(2)[OF assms(2)] by simp
qed


definition demo_asked :: ServeInput where
  "demo_asked = demo_input\<lparr>in_buf := request_packet demo_pass demo_peer, in_recv := 0, in_xmit := 0\<rparr>"

lemma demo_answered: "\<exists>out sv. serve_one demo_inet default_Combined demo_asked demo_server = (Some out, sv)"
proof -
  let ?sv = "count 1 Requests demo_server"
  have "fst (check SaOther 1 0 (sv_limiter ?sv)) = Answer"
    by (simp add: count_limiter demo_server_def mk_NtpServer_def mk_RateLimiter_def check_def default_NtpConfig_def default_RateLimitConfig_def)
  moreover have "nt_answerWhenUnsynchronised (sv_cfg ?sv)"
    by (simp add: count_cfg demo_server_def mk_NtpServer_def default_NtpConfig_def)
  ultimately show ?thesis
    using request_is_client[of demo_pass demo_peer] unfolding serve_one_def demo_asked_def demo_input_def client_request_def
    by (auto simp: Let_def split: prod.split)
qed


end
